(* ===== verification/Prelude.thy ===== *)
theory Prelude
  imports Complex_Main "HOL-Library.List_Lexorder" "HOL-Library.Char_ord"
begin

text \<open>
  Shared vocabulary of the development: Python exceptions as values, the result type and its
  bind, JSON-like dictionary values with Python's truthiness and numeric comparison, and the
  decimal rendering and parsing of integers (\<^verbatim>\<open>str(n)\<close>, \<^verbatim>\<open>int(s)\<close>) used wherever the code stores
  numbers as Redis strings.

  Strings are HOL strings (lists of 8-bit characters); Python floats are the rational numbers
  they denote, so comparisons are exact and the rounding of sums and quotients is not
  represented (nor are NaN and the infinities).
\<close>

section \<open>Collections of rewrite rules\<close>

named_theorems res_simps \<open>rewriting of results and their bind\<close>
named_theorems py_simps \<open>Python values: truthiness, comparison, dictionary access\<close>

section \<open>JSON values and Python dictionaries\<close>

text \<open>
  A rule configuration is a \<^verbatim>\<open>dict[str, Any]\<close> decoded from JSON. A dictionary keeps insertion
  order, so it is an association list; the first binding of a key counts.
\<close>

datatype json =
    JNull
  | JBool bool
  | JInt int
  | JFloat rat
  | JStr string
  | JList "json list"
  | JDict "(string \<times> json) list"

type_synonym dict = "(string \<times> json) list"

text \<open>Python's truth value of a decoded JSON value, as in \<^verbatim>\<open>if not x\<close> and \<^verbatim>\<open>x or y\<close>.\<close>

fun truthy :: "json \<Rightarrow> bool" where
  "truthy JNull = False"
| "truthy (JBool b) = b"
| "truthy (JInt n) = (n \<noteq> 0)"
| "truthy (JFloat q) = (q \<noteq> 0)"
| "truthy (JStr s) = (s \<noteq> [])"
| "truthy (JList xs) = (xs \<noteq> [])"
| "truthy (JDict d) = (d \<noteq> [])"

text \<open>\<^verbatim>\<open>d.get(k)\<close> and \<^verbatim>\<open>d.get(k, default)\<close>; a missing key reads as \<^verbatim>\<open>None\<close>.\<close>

definition dget_or :: "dict \<Rightarrow> string \<Rightarrow> json \<Rightarrow> json" where
  "dget_or d k v = (case map_of d k of None \<Rightarrow> v | Some w \<Rightarrow> w)"

definition dget :: "dict \<Rightarrow> string \<Rightarrow> json" where
  "dget d k = dget_or d k JNull"

lemma dget_or_Nil [py_simps, simp]: "dget_or [] k v = v"
  by (simp add: dget_or_def)

lemma dget_or_Cons [py_simps, simp]:
  "dget_or ((k', w) # d) k v = (if k = k' then w else dget_or d k v)"
  by (simp add: dget_or_def)

lemma dget_Nil [py_simps, simp]: "dget [] k = JNull"
  by (simp add: dget_def)

lemma dget_Cons [py_simps, simp]: "dget ((k', w) # d) k = (if k = k' then w else dget d k)"
  by (simp add: dget_def)

lemma dget_or_None: "map_of d k = None \<Longrightarrow> dget_or d k v = v"
  by (simp add: dget_or_def)

lemma dget_or_Some: "map_of d k = Some w \<Longrightarrow> dget_or d k v = w"
  by (simp add: dget_or_def)

text \<open>\<^verbatim>\<open>d.pop(k, None)\<close>: every binding of the key goes.\<close>

lemma map_of_filter_key [py_simps]:
  "map_of (filter (\<lambda>(k, _). k \<noteq> r) xs) p = (if p = r then None else map_of xs p)"
  by (induction xs) auto

text \<open>Python numbers: \<^verbatim>\<open>bool\<close> is a subclass of \<^verbatim>\<open>int\<close>, so it compares as 0 or 1.\<close>

fun num_of :: "json \<Rightarrow> rat option" where
  "num_of (JBool b) = Some (of_bool b)"
| "num_of (JInt n) = Some (of_int n)"
| "num_of (JFloat q) = Some q"
| "num_of _ = None"

section \<open>Exceptions as values\<close>

text \<open>
  What a raised exception carries. The text of an error message is not rendered; a message is
  the constructor for its raise site with the values interpolated into it.
\<close>

datatype vmsg =
    MissingConfiguration
  | MetadataNotAvailable
  | RequiresOsuApi
  | UnknownRuleType
  | NestingTooDeep
  | NotNeedsOneRule
  | UnknownOperator json
  | RejectedByRule
  | ValidationErrorText string
  | NoBeatmaps
  | BeatmapBelow string rat json
  | BeatmapAbove string rat json
  | AggregateBelow rat json
  | AggregateAbove rat json
  | NoneInRange json json "rat list"
  | NoneInLengthRange json json json json
  | AttributeMissing string
  | NotAllowedId int "json list"
  | UnsupportedModes "string list" "json list"
  | CountBelow int json
  | CountAbove int json
  | FeatureNotAllowed string
  | TagMetadataUnavailable
  | TagsMissing "json list" "int list"
  | CombinationRequired
  | UnknownCombination string
  | IdentityUnresolved
  | SessionUnavailable
  | AlreadyRanked string string string
  | AlreadyRequested string string int

datatype fmsg =
    RateLimitExceeded string json json
  | CooldownActive string rat
  | Blacklisted string
  | QueueClosed
  | CallerUnknown
  | OnBehalfOfAnother
  | NotAuthorized

datatype exn =
    RuleViolationError string vmsg
  | RetryableValidationError "string list"
  | Forbidden fmsg
  | NotFound string
  | Conflict string
  | BadRequest string
  | PyExc string

text \<open>A result: \<^term>\<open>Inl\<close> carries the exception, \<^term>\<open>Inr\<close> the returned value.\<close>

type_synonym 'a res = "exn + 'a"

definition bindR :: "'e + 'a \<Rightarrow> ('a \<Rightarrow> 'e + 'b) \<Rightarrow> 'e + 'b" where
  "bindR m f = (case m of Inl e \<Rightarrow> Inl e | Inr x \<Rightarrow> f x)"

definition guardR :: "bool \<Rightarrow> 'e \<Rightarrow> 'e + unit" where
  "guardR ok e = (if ok then Inr () else Inl e)"

fun isRaise :: "'e + 'a \<Rightarrow> bool" where
  "isRaise (Inl _) = True"
| "isRaise (Inr _) = False"

lemma bindR_Inl [res_simps, simp]: "bindR (Inl e) f = Inl e"
  by (simp add: bindR_def)

lemma bindR_Inr [res_simps, simp]: "bindR (Inr x) f = f x"
  by (simp add: bindR_def)

lemma bindR_eq_Inr [res_simps]: "bindR m f = Inr y \<longleftrightarrow> (\<exists>x. m = Inr x \<and> f x = Inr y)"
  by (cases m) auto

lemma bindR_eq_Inl [res_simps]:
  "bindR m f = Inl e \<longleftrightarrow> m = Inl e \<or> (\<exists>x. m = Inr x \<and> f x = Inl e)"
  by (cases m) auto

lemma bindR_cong [fundef_cong]:
  "m = m' \<Longrightarrow> (\<And>x. m' = Inr x \<Longrightarrow> f x = g x) \<Longrightarrow> bindR m f = bindR m' g"
  by (cases m') auto

lemma bindR_assoc: "bindR (bindR m f) g = bindR m (\<lambda>x. bindR (f x) g)"
  by (cases m) auto

lemma guardR_True [res_simps, simp]: "guardR True e = Inr ()"
  by (simp add: guardR_def)

lemma guardR_False [res_simps, simp]: "guardR False e = Inl e"
  by (simp add: guardR_def)

lemma guardR_eq_Inr [res_simps, simp]: "guardR b e = Inr u \<longleftrightarrow> b"
  by (simp add: guardR_def)

lemma guardR_eq_Inl [res_simps, simp]: "guardR b e = Inl e' \<longleftrightarrow> \<not> b \<and> e' = e"
  by (auto simp: guardR_def)

lemma isRaise_iff: "isRaise m \<longleftrightarrow> (\<exists>e. m = Inl e)"
  by (cases m) auto

text \<open>Numeric comparison \<^verbatim>\<open>v < bound\<close> of a measured number with a configured bound.\<close>

definition py_less :: "rat \<Rightarrow> json \<Rightarrow> bool res" where
  "py_less v b = (case num_of b of None \<Rightarrow> Inl (PyExc ''TypeError'') | Some q \<Rightarrow> Inr (v < q))"

definition py_greater :: "rat \<Rightarrow> json \<Rightarrow> bool res" where
  "py_greater v b = (case num_of b of None \<Rightarrow> Inl (PyExc ''TypeError'') | Some q \<Rightarrow> Inr (v > q))"

text \<open>\<^verbatim>\<open>bound is not None and v < bound\<close>, with \<^verbatim>\<open>and\<close>'s short circuit.\<close>

definition below_bound :: "rat \<Rightarrow> json \<Rightarrow> bool res" where
  "below_bound v b = (if b = JNull then Inr False else py_less v b)"

definition above_bound :: "rat \<Rightarrow> json \<Rightarrow> bool res" where
  "above_bound v b = (if b = JNull then Inr False else py_greater v b)"

text \<open>What a bound allows, when it is absent or a number.\<close>

definition bound_ok :: "json \<Rightarrow> bool" where
  "bound_ok b \<longleftrightarrow> b = JNull \<or> num_of b \<noteq> None"

definition at_least :: "rat \<Rightarrow> json \<Rightarrow> bool" where
  "at_least v b \<longleftrightarrow> (case num_of b of None \<Rightarrow> True | Some q \<Rightarrow> q \<le> v)"

definition at_most :: "rat \<Rightarrow> json \<Rightarrow> bool" where
  "at_most v b \<longleftrightarrow> (case num_of b of None \<Rightarrow> True | Some q \<Rightarrow> v \<le> q)"

lemma below_bound_ok [py_simps]: "bound_ok b \<Longrightarrow> below_bound v b = Inr (\<not> at_least v b)"
  by (auto simp: bound_ok_def below_bound_def py_less_def at_least_def)

lemma above_bound_ok [py_simps]: "bound_ok b \<Longrightarrow> above_bound v b = Inr (\<not> at_most v b)"
  by (auto simp: bound_ok_def above_bound_def py_greater_def at_most_def)

lemma at_least_JNull [py_simps, simp]: "at_least v JNull"
  by (simp add: at_least_def)

lemma at_most_JNull [py_simps, simp]: "at_most v JNull"
  by (simp add: at_most_def)

lemma bound_ok_simps [py_simps, simp]:
  "bound_ok JNull" "bound_ok (JInt n)" "bound_ok (JFloat q)" "bound_ok (JBool b)"
  by (auto simp: bound_ok_def)

section \<open>Looping over a list with early exit\<close>

text \<open>\<^verbatim>\<open>for x in xs: f(x)\<close>, where \<^verbatim>\<open>f\<close> may raise.\<close>

fun for_each :: "('a \<Rightarrow> 'e + unit) \<Rightarrow> 'a list \<Rightarrow> 'e + unit" where
  "for_each f [] = Inr ()"
| "for_each f (x # xs) = bindR (f x) (\<lambda>_. for_each f xs)"

text \<open>\<^verbatim>\<open>any(p(x) for x in xs)\<close>, where \<^verbatim>\<open>p\<close> may raise; it stops at the first true value.\<close>

fun any_res :: "('a \<Rightarrow> 'e + bool) \<Rightarrow> 'a list \<Rightarrow> 'e + bool" where
  "any_res p [] = Inr False"
| "any_res p (x # xs) = bindR (p x) (\<lambda>b. if b then Inr True else any_res p xs)"

text \<open>\<^verbatim>\<open>[f(x) for x in xs]\<close>, where \<^verbatim>\<open>f\<close> may raise.\<close>

fun map_res :: "('a \<Rightarrow> 'e + 'b) \<Rightarrow> 'a list \<Rightarrow> 'e + 'b list" where
  "map_res f [] = Inr []"
| "map_res f (x # xs) = bindR (f x) (\<lambda>y. bindR (map_res f xs) (\<lambda>ys. Inr (y # ys)))"

lemma for_each_Inr [res_simps]: "for_each f xs = Inr () \<longleftrightarrow> (\<forall>x \<in> set xs. f x = Inr ())"
  by (induction xs) (auto simp: bindR_eq_Inr)

lemma for_each_Inl: "for_each f xs = Inl e \<Longrightarrow> \<exists>x \<in> set xs. f x = Inl e"
  by (induction xs) (auto simp: bindR_eq_Inl)

lemma for_each_cong [fundef_cong]:
  "xs = ys \<Longrightarrow> (\<And>x. x \<in> set ys \<Longrightarrow> f x = g x) \<Longrightarrow> for_each f xs = for_each g ys"
  by (induction ys arbitrary: xs) auto

lemma any_res_total [res_simps]:
  "(\<And>x. x \<in> set xs \<Longrightarrow> p x = Inr (q x)) \<Longrightarrow> any_res p xs = Inr (\<exists>x \<in> set xs. q x)"
  by (induction xs) auto

lemma map_res_cong [fundef_cong]:
  "xs = ys \<Longrightarrow> (\<And>x. x \<in> set ys \<Longrightarrow> f x = g x) \<Longrightarrow> map_res f xs = map_res g ys"
  by (induction ys arbitrary: xs) auto

lemma map_res_Inr: "map_res f xs = Inr ys \<Longrightarrow> list_all2 (\<lambda>x y. f x = Inr y) xs ys"
  by (induction xs arbitrary: ys) (auto simp: bindR_eq_Inr)

lemma map_res_total [res_simps]:
  "(\<And>x. x \<in> set xs \<Longrightarrow> f x = Inr (g x)) \<Longrightarrow> map_res f xs = Inr (map g xs)"
  by (induction xs) auto

lemma map_res_Inl: "map_res f xs = Inl e \<Longrightarrow> \<exists>x \<in> set xs. f x = Inl e"
  by (induction xs) (auto simp: bindR_eq_Inl)

section \<open>Actions on a state\<close>

text \<open>
  Stateful code is a function from the state to an outcome and the state it leaves behind, so
  that an exception keeps the mutations made before it.
\<close>

type_synonym ('s, 'a) act = "'s \<Rightarrow> 'a res \<times> 's"

definition retS :: "'a \<Rightarrow> ('s, 'a) act" where
  "retS x s = (Inr x, s)"

definition raiseS :: "exn \<Rightarrow> ('s, 'a) act" where
  "raiseS e s = (Inl e, s)"

definition liftS :: "'a res \<Rightarrow> ('s, 'a) act" where
  "liftS r s = (r, s)"

definition bindS :: "('s, 'a) act \<Rightarrow> ('a \<Rightarrow> ('s, 'b) act) \<Rightarrow> ('s, 'b) act" where
  "bindS m f s = (case m s of (Inl e, s') \<Rightarrow> (Inl e, s') | (Inr x, s') \<Rightarrow> f x s')"

text \<open>Read the state, then act on it.\<close>

definition readS :: "('s \<Rightarrow> ('s, 'a) act) \<Rightarrow> ('s, 'a) act" where
  "readS f s = f s s"

lemma readS_simp [res_simps, simp]: "readS f s = f s s"
  by (simp add: readS_def)

lemma retS_simp [res_simps, simp]: "retS x s = (Inr x, s)"
  by (simp add: retS_def)

lemma raiseS_simp [res_simps, simp]: "raiseS e s = (Inl e, s)"
  by (simp add: raiseS_def)

lemma liftS_simp [res_simps, simp]: "liftS r s = (r, s)"
  by (simp add: liftS_def)

lemma fst_bindS: "fst (bindS m f s) = bindR (fst (m s)) (\<lambda>x. fst (f x (snd (m s))))"
  by (auto simp: bindS_def bindR_def split: prod.splits sum.splits)

lemma bindS_Inr: "m s = (Inr x, s') \<Longrightarrow> bindS m f s = f x s'"
  by (simp add: bindS_def)

lemma bindS_Inl: "m s = (Inl e, s') \<Longrightarrow> bindS m f s = (Inl e, s')"
  by (simp add: bindS_def)

lemma bindS_eq_Inr:
  "bindS m f s = (Inr y, s'') \<longleftrightarrow> (\<exists>x s'. m s = (Inr x, s') \<and> f x s' = (Inr y, s''))"
  by (cases "m s"; cases "fst (m s)") (auto simp: bindS_def)

text \<open>A property of the state that every part of an action keeps is kept by the whole.\<close>

lemma bindS_invariant:
  assumes "P s" "\<And>s. P s \<Longrightarrow> P (snd (m s))" "\<And>x s. P s \<Longrightarrow> P (snd (f x s))"
  shows "P (snd (bindS m f s))"
proof (cases "m s")
  case (Pair r s')
  then show ?thesis
    using assms(2) [OF assms(1)] assms(3) [of s'] by (cases r) (simp_all add: bindS_def)
qed

end
