(* ===== verification/Py_Text.thy ===== *)
theory Py_Text
  imports Prelude
begin

text \<open>
  The text operations of Python's standard library the code relies on: the decimal rendering of
  integers (\<^verbatim>\<open>str(n)\<close>, also what Redis stores for a counter), \<^verbatim>\<open>int(s)\<close>, \<^verbatim>\<open>s.isdigit()\<close>,
  \<^verbatim>\<open>s.strip()\<close>, \<^verbatim>\<open>sep.join(parts)\<close> and \<^verbatim>\<open>json.dumps(x, sort_keys=True)\<close>. The main fact is that
  \<^verbatim>\<open>int\<close> inverts \<^verbatim>\<open>str\<close>.
\<close>

section \<open>Characters\<close>

definition is_digit :: "char \<Rightarrow> bool" where
  "is_digit c \<longleftrightarrow> 48 \<le> (of_char c :: nat) \<and> (of_char c :: nat) \<le> 57"

definition digit_val :: "char \<Rightarrow> nat" where
  "digit_val c = of_char c - 48"

definition digit_char :: "nat \<Rightarrow> char" where
  "digit_char d = char_of (48 + d)"

text \<open>Characters that \<^verbatim>\<open>str.isspace\<close> accepts, in the 8-bit range.\<close>

definition is_space :: "char \<Rightarrow> bool" where
  "is_space c \<longleftrightarrow>
     (let n = (of_char c :: nat) in (9 \<le> n \<and> n \<le> 13) \<or> (28 \<le> n \<and> n \<le> 32) \<or> n = 133 \<or> n = 160)"

definition strip :: "string \<Rightarrow> string" where
  "strip s = rev (dropWhile is_space (rev (dropWhile is_space s)))"

text \<open>\<^verbatim>\<open>s.isdigit()\<close>: nonempty and all digits (ASCII digits, the 8-bit model of it).\<close>

definition isdigit :: "string \<Rightarrow> bool" where
  "isdigit s \<longleftrightarrow> s \<noteq> [] \<and> list_all is_digit s"

lemma of_char_digit_char: "d < 10 \<Longrightarrow> (of_char (digit_char d) :: nat) = 48 + d"
  by (simp add: digit_char_def)

lemma is_digit_digit_char [simp]: "d < 10 \<Longrightarrow> is_digit (digit_char d)"
  by (simp add: is_digit_def of_char_digit_char)

lemma digit_val_digit_char [simp]: "d < 10 \<Longrightarrow> digit_val (digit_char d) = d"
  by (simp add: digit_val_def of_char_digit_char)

lemma digit_not_space: "is_digit c \<Longrightarrow> \<not> is_space c"
  by (auto simp: is_digit_def is_space_def Let_def)

section \<open>Decimal integers\<close>

fun dec :: "nat \<Rightarrow> string" where
  "dec n = (if n < 10 then [digit_char n] else dec (n div 10) @ [digit_char (n mod 10)])"

declare dec.simps [simp del]

definition py_str :: "int \<Rightarrow> string" where
  "py_str n = (if n < 0 then CHR ''-'' # dec (nat (- n)) else dec (nat n))"

text \<open>The digits of a literal, with single underscores allowed between digits.\<close>

fun parse_digits :: "nat \<Rightarrow> string \<Rightarrow> nat option" where
  "parse_digits acc [] = Some acc"
| "parse_digits acc (c # cs) =
     (if is_digit c then parse_digits (10 * acc + digit_val c) cs
      else if c = CHR ''_'' then
        (case cs of
           [] \<Rightarrow> None
         | d # ds \<Rightarrow> if is_digit d then parse_digits (10 * acc + digit_val d) ds else None)
      else None)"

definition parse_nat :: "string \<Rightarrow> nat option" where
  "parse_nat s =
     (case s of [] \<Rightarrow> None | c # cs \<Rightarrow> if is_digit c then parse_digits (digit_val c) cs else None)"

text \<open>\<^verbatim>\<open>int(s)\<close>: surrounding white space and a sign are allowed; anything else is a ValueError.\<close>

definition py_int :: "string \<Rightarrow> int res" where
  "py_int s =
     (let r = (case strip s of
                 [] \<Rightarrow> None
               | c # cs \<Rightarrow>
                   if c = CHR ''-'' then map_option (\<lambda>n. - int n) (parse_nat cs)
                   else if c = CHR ''+'' then map_option int (parse_nat cs)
                   else map_option int (parse_nat (c # cs)))
      in case r of None \<Rightarrow> Inl (PyExc ''ValueError'') | Some n \<Rightarrow> Inr n)"

lemma dec_digits: "list_all is_digit (dec n)"
  by (induction n rule: dec.induct) (subst dec.simps, auto)

lemma dec_nonempty [simp]: "dec n \<noteq> []"
  by (subst dec.simps) simp

lemma isdigit_dec: "isdigit (dec n)"
  by (simp add: isdigit_def dec_digits)

lemma parse_digits_append:
  "list_all is_digit cs \<Longrightarrow>
   parse_digits acc (cs @ ds) = parse_digits (fold (\<lambda>c a. 10 * a + digit_val c) cs acc) ds"
  by (induction cs arbitrary: acc) auto

lemma fold_dec: "fold (\<lambda>c a. 10 * a + digit_val c) (dec n) 0 = n"
proof (induction n rule: dec.induct)
  case (1 n)
  then show ?case
    by (subst dec.simps) (auto simp: algebra_simps)
qed

lemma parse_nat_digits:
  "isdigit s \<Longrightarrow> parse_nat s = Some (fold (\<lambda>c a. 10 * a + digit_val c) s 0)"
  using parse_digits_append [of _ _ "[]"]
  by (auto simp: parse_nat_def isdigit_def split: list.splits)

lemma parse_nat_dec [simp]: "parse_nat (dec n) = Some n"
  by (simp add: parse_nat_digits isdigit_dec fold_dec)

lemma strip_id:
  "s = [] \<or> (\<not> is_space (hd s) \<and> \<not> is_space (last s)) \<Longrightarrow> strip s = s"
proof -
  assume h: "s = [] \<or> (\<not> is_space (hd s) \<and> \<not> is_space (last s))"
  have "dropWhile is_space s = s"
    using h by (cases s) auto
  moreover have "dropWhile is_space (rev s) = rev s"
    using h by (cases s rule: rev_cases) auto
  ultimately show ?thesis by (simp add: strip_def)
qed

lemma hd_last_digits: "isdigit s \<Longrightarrow> is_digit (hd s) \<and> is_digit (last s)"
  by (auto simp: isdigit_def list_all_iff)

lemma strip_digits: "isdigit s \<Longrightarrow> strip s = s"
  by (rule strip_id) (use hd_last_digits digit_not_space in blast)

lemma strip_neg_digits: "isdigit s \<Longrightarrow> strip (CHR ''-'' # s) = CHR ''-'' # s"
  by (rule strip_id)
    (use hd_last_digits digit_not_space in \<open>auto simp: isdigit_def is_space_def Let_def\<close>)

lemma digit_not_sign: "is_digit c \<Longrightarrow> c \<noteq> CHR ''-'' \<and> c \<noteq> CHR ''+''"
  by (auto simp: is_digit_def)

lemma py_int_digits:
  assumes "isdigit s"
  shows "py_int s = Inr (int (fold (\<lambda>c a. 10 * a + digit_val c) s 0))"
proof -
  from assms obtain c cs where s: "s = c # cs" and "is_digit c"
    by (cases s) (auto simp: isdigit_def)
  with digit_not_sign have "c \<noteq> CHR ''-''" "c \<noteq> CHR ''+''" by auto
  with assms s show ?thesis
    by (simp add: py_int_def strip_digits parse_nat_digits)
qed

lemma py_int_py_str [simp]: "py_int (py_str n) = Inr n"
proof (cases "n < 0")
  case True
  then show ?thesis
    by (simp add: py_str_def py_int_def strip_neg_digits isdigit_dec)
next
  case False
  then show ?thesis
    by (simp add: py_str_def py_int_digits isdigit_dec fold_dec)
qed

lemma py_str_inj [simp]: "py_str m = py_str n \<longleftrightarrow> m = n"
  using py_int_py_str by (metis sum.inject(2))

lemma py_str_nonempty [simp]: "py_str n \<noteq> []"
  by (simp add: py_str_def)

lemma py_str_no_colon: "CHR '':'' \<notin> set (py_str n)"
  using dec_digits [of "nat n"] dec_digits [of "nat (- n)"]
  by (auto simp: py_str_def list_all_iff is_digit_def)

section \<open>Joining\<close>

fun join :: "string \<Rightarrow> string list \<Rightarrow> string" where
  "join sep [] = []"
| "join sep [s] = s"
| "join sep (s # t # ts) = s @ sep @ join sep (t # ts)"

text \<open>A prefix free of the separator can be read off the front of a joined string.\<close>

lemma append_sep_inj:
  assumes "c \<notin> set a" "c \<notin> set b"
  shows "a @ c # x = b @ c # y \<longleftrightarrow> a = b \<and> x = y"
proof
  assume eq: "a @ c # x = b @ c # y"
  have t: "takeWhile (\<lambda>d. d \<noteq> c) (v @ c # w) = v" if "c \<notin> set v" for v w :: "'a list"
    using that by (induction v) auto
  have "takeWhile (\<lambda>d. d \<noteq> c) (a @ c # x) = takeWhile (\<lambda>d. d \<noteq> c) (b @ c # y)"
    using eq by simp
  with t [of a x] t [of b y] assms have "a = b" by simp
  with eq show "a = b \<and> x = y" by simp
qed simp

section \<open>Canonical JSON text\<close>

text \<open>
  \<^verbatim>\<open>json.dumps(x, sort_keys=True)\<close>: keys in order, items separated by a comma and a blank. The
  rendering of a float is a parameter. The quote, the backslash, five control characters with
  a short escape, and everything outside printable ASCII are escaped (\<^verbatim>\<open>ensure_ascii\<close>).
\<close>

definition hex_char :: "nat \<Rightarrow> char" where
  "hex_char d = (if d < 10 then char_of (48 + d) else char_of (87 + d))"

definition json_escape_char :: "char \<Rightarrow> string" where
  "json_escape_char c =
     (let n = (of_char c :: nat) in
      if n = 34 then [char_of (92 :: nat), char_of (34 :: nat)]
      else if n = 92 then [char_of (92 :: nat), char_of (92 :: nat)]
      else if n = 8 then [char_of (92 :: nat), CHR ''b'']
      else if n = 9 then [char_of (92 :: nat), CHR ''t'']
      else if n = 10 then [char_of (92 :: nat), CHR ''n'']
      else if n = 12 then [char_of (92 :: nat), CHR ''f'']
      else if n = 13 then [char_of (92 :: nat), CHR ''r'']
      else if 32 \<le> n \<and> n < 127 then [c]
      else [char_of (92 :: nat), CHR ''u'', CHR ''0'', CHR ''0'', hex_char (n div 16), hex_char (n mod 16)])"

definition json_string :: "string \<Rightarrow> string" where
  "json_string s = [char_of (34 :: nat)] @ concat (map json_escape_char s) @ [char_of (34 :: nat)]"

fun json_dumps :: "(rat \<Rightarrow> string) \<Rightarrow> json \<Rightarrow> string" where
  "json_dumps fr JNull = ''null''"
| "json_dumps fr (JBool b) = (if b then ''true'' else ''false'')"
| "json_dumps fr (JInt n) = py_str n"
| "json_dumps fr (JFloat q) = fr q"
| "json_dumps fr (JStr s) = json_string s"
| "json_dumps fr (JList xs) = ''['' @ join '', '' (map (json_dumps fr) xs) @ '']''"
| "json_dumps fr (JDict d) =
     ''{'' @ join '', '' (map (\<lambda>(k, s). json_string k @ '': '' @ s)
        (sort_key fst (map (\<lambda>(k, v). (k, json_dumps fr v)) d))) @ ''}''"

end
