(* ===== verification/Rule_Context.thy ===== *)
theory Rule_Context
  imports Py_Text
begin

text \<open>
  The data the rule engine works on: the osu! beatmap and beatmapset fields the rules read, the
  execution context (\<^verbatim>\<open>ExecutionContext\<close> of \<^verbatim>\<open>src/app/database/rules/context.py\<close>) with its mutable
  fields, and the template of a validator's \<^verbatim>\<open>check\<close> (\<^verbatim>\<open>RestrictionBase\<close> and its two subclasses in
  \<^verbatim>\<open>src/app/database/rules/base.py\<close>).

  A step that reads and writes the context is a function from the context to an outcome and the
  context it leaves behind, so that an exception keeps the mutations made before it.
\<close>

section \<open>osu! API data\<close>

record beatmap =
  bm_id :: int
  version :: string
  difficulty_rating :: rat
  ar :: rat
  accuracy :: rat
  drain :: rat
  cs :: rat
  bpm :: rat
  hit_length :: int
  total_length :: int
  mode :: string
  owners :: "(int option \<times> string option) list option"
  top_tag_ids :: "int option list option"

record beatmapset =
  bs_id :: int
  artist :: string
  artist_unicode :: string
  title :: string
  title_unicode :: string
  creator :: string
  bs_user_id :: int
  bs_bpm :: rat
  genre :: "int option"
  language :: "int option"
  storyboard :: bool
  video :: bool
  status :: string
  beatmaps :: "beatmap list option"

section \<open>The execution context\<close>

text \<open>
  \<^verbatim>\<open>metadata_providers\<close> maps provider names to classes; only the names matter here, the classes
  are looked up by name where they are resolved.
\<close>

record exec_context =
  queue_id :: int
  user_id :: int
  cx_beatmapset :: "beatmapset option"
  cx_beatmaps :: "beatmap list option"
  has_osu_client :: bool
  has_session :: bool
  config :: json
  metadata_providers :: "string list option"
  last_violation :: "(string \<times> vmsg) option"
  provider_cache :: "(string \<times> dict) list"

definition ctx_beatmaps :: "exec_context \<Rightarrow> beatmap list" where
  "ctx_beatmaps c = (case cx_beatmaps c of None \<Rightarrow> [] | Some bs \<Rightarrow> bs)"

text \<open>The parsed beatmapset and its beatmap list (\<^verbatim>\<open>parse_osu_beatmapset\<close>), after validation.\<close>

definition parse_osu_beatmapset :: "beatmapset \<Rightarrow> beatmapset \<times> beatmap list" where
  "parse_osu_beatmapset s = (s, case beatmaps s of None \<Rightarrow> [] | Some bs \<Rightarrow> bs)"

section \<open>Steps over the context\<close>

type_synonym 'a step = "(exec_context, 'a) act"

section \<open>Metadata providers and their cache\<close>

text \<open>
  \<^verbatim>\<open>get_metadata\<close> returns a cached dictionary, raises \<^verbatim>\<open>KeyError\<close> for an unregistered provider, and
  otherwise resolves and caches. \<^term>\<open>resolve\<close> is the provider dispatch by name.
\<close>

definition get_metadata :: "(string \<Rightarrow> exec_context \<Rightarrow> dict) \<Rightarrow> string \<Rightarrow> dict step" where
  "get_metadata resolve provider_name c =
     (case map_of (provider_cache c) provider_name of
        Some cached \<Rightarrow> (Inr cached, c)
      | None \<Rightarrow>
          (case metadata_providers c of
             None \<Rightarrow> (Inl (PyExc ''KeyError''), c)
           | Some names \<Rightarrow>
               if provider_name \<notin> set names then (Inl (PyExc ''KeyError''), c)
               else (let result = resolve provider_name c
                     in (Inr result,
                         c\<lparr>provider_cache := (provider_name, result) # provider_cache c\<rparr>))))"

definition invalidate_metadata :: "string option \<Rightarrow> exec_context \<Rightarrow> exec_context" where
  "invalidate_metadata provider_name c =
     (case provider_name of
        None \<Rightarrow> c\<lparr>provider_cache := []\<rparr>
      | Some p \<Rightarrow> c\<lparr>provider_cache := filter (\<lambda>(k, _). k \<noteq> p) (provider_cache c)\<rparr>)"

text \<open>The cache is coherent when every entry is what resolving it again would give.\<close>

definition cache_coherent :: "(string \<Rightarrow> exec_context \<Rightarrow> dict) \<Rightarrow> exec_context \<Rightarrow> bool" where
  "cache_coherent resolve c \<longleftrightarrow>
     (\<forall>p d. map_of (provider_cache c) p = Some d \<longrightarrow> d = resolve p c)"

text \<open>A provider reads the immutable part of the context only.\<close>

definition resolve_pure :: "(string \<Rightarrow> exec_context \<Rightarrow> dict) \<Rightarrow> bool" where
  "resolve_pure resolve \<longleftrightarrow>
     (\<forall>p c cache v cfg. resolve p (c\<lparr>provider_cache := cache\<rparr>) = resolve p c \<and>
        resolve p (c\<lparr>last_violation := v\<rparr>) = resolve p c \<and>
        resolve p (c\<lparr>config := cfg\<rparr>) = resolve p c)"

lemma get_metadata_fst:
  assumes "cache_coherent resolve c" "metadata_providers c = Some names" "p \<in> set names"
  shows "fst (get_metadata resolve p c) = Inr (resolve p c)"
  using assms by (auto simp: get_metadata_def cache_coherent_def Let_def split: option.splits)

lemma get_metadata_coherent:
  assumes "cache_coherent resolve c" "resolve_pure resolve"
  shows "cache_coherent resolve (snd (get_metadata resolve p c))"
  using assms
  by (auto simp: get_metadata_def cache_coherent_def resolve_pure_def Let_def
      split: option.splits if_splits)

lemma invalidate_metadata_coherent:
  assumes "cache_coherent resolve c" "resolve_pure resolve"
  shows "cache_coherent resolve (invalidate_metadata q c)"
  using assms
  by (cases q) (auto simp: invalidate_metadata_def cache_coherent_def resolve_pure_def map_of_filter_key)

text \<open>The only field \<^verbatim>\<open>get_metadata\<close> writes is the cache.\<close>

lemma get_metadata_frame:
  "snd (get_metadata resolve p c) = c\<lparr>provider_cache := provider_cache (snd (get_metadata resolve p c))\<rparr>"
  by (auto simp: get_metadata_def Let_def split: option.splits)

section \<open>The template of a check\<close>

text \<open>
  \<^verbatim>\<open>RestrictionBase.check\<close>: an empty configuration is a violation. \<^verbatim>\<open>BeatmapRestrictionBase._check\<close>
  needs the beatmapset; \<^verbatim>\<open>DatabaseRestrictionBase._check\<close> needs the osu! client.
\<close>

definition restriction_check :: "string \<Rightarrow> 'a step \<Rightarrow> 'a step" where
  "restriction_check ty check_impl c =
     (if \<not> truthy (config c) then (Inl (RuleViolationError ty MissingConfiguration), c)
      else check_impl c)"

definition beatmap_check :: "string \<Rightarrow> (exec_context \<Rightarrow> unit res) \<Rightarrow> unit step" where
  "beatmap_check ty check_beatmap c =
     (case cx_beatmapset c of
        None \<Rightarrow> (Inl (RuleViolationError ty MetadataNotAvailable), c)
      | Some _ \<Rightarrow> (check_beatmap c, c))"

definition database_check :: "string \<Rightarrow> unit step \<Rightarrow> unit step" where
  "database_check ty check_database c =
     (if \<not> has_osu_client c then (Inl (RuleViolationError ty RequiresOsuApi), c)
      else check_database c)"

text \<open>\<^verbatim>\<open>config.get(..)\<close> on something that is not a dictionary is an \<^verbatim>\<open>AttributeError\<close>.\<close>

definition with_dict :: "json \<Rightarrow> (dict \<Rightarrow> 'a res) \<Rightarrow> 'a res" where
  "with_dict j f = (case j of JDict d \<Rightarrow> f d | _ \<Rightarrow> Inl (PyExc ''AttributeError''))"

lemma with_dict_cong [fundef_cong]:
  "j = j' \<Longrightarrow> (\<And>d. j' = JDict d \<Longrightarrow> f d = g d) \<Longrightarrow> with_dict j f = with_dict j' g"
  by (cases j') (auto simp: with_dict_def)

lemma with_dict_Inr: "with_dict j f = Inr x \<longleftrightarrow> (\<exists>d. j = JDict d \<and> f d = Inr x)"
  by (cases j) (auto simp: with_dict_def)

lemma with_dict_JDict [simp]: "with_dict (JDict d) f = f d"
  by (simp add: with_dict_def)

end
