(* ===== verification/Rule_Beatmap.thy ===== *)
theory Rule_Beatmap
  imports Rule_Context
begin

text \<open>
  The Tier-2 validators (\<^verbatim>\<open>src/app/database/rules/validators/beatmap/\<close>): each definition is the
  body of the validator's \<^verbatim>\<open>check_beatmap\<close>, reading the configuration dictionary, the beatmapset
  and the beatmap list of the context, and raising on a violation. A configuration of the wrong
  shape raises the Python exception the code would raise.

  The locale \<open>beatmap_rule\<close> is the contract every validator fulfils on configurations of the
  shape its schema admits: it passes exactly when the declarative meaning of the rule holds, and
  otherwise raises a violation of its own type, never anything else. Every validator is an
  interpretation.
\<close>

named_theorems rule_defs \<open>definitions of the validators\<close>
named_theorems spec_defs \<open>meanings and configuration shapes of the rules\<close>

section \<open>Bounds\<close>

definition bound_value :: "string \<Rightarrow> (rat \<Rightarrow> json \<Rightarrow> vmsg) \<Rightarrow> (rat \<Rightarrow> json \<Rightarrow> vmsg) \<Rightarrow> rat \<Rightarrow> json \<Rightarrow> json \<Rightarrow> unit res" where
  "bound_value ty mk_lo mk_hi v mn mx =
     bindR (below_bound v mn) (\<lambda>lo.
       if lo then Inl (RuleViolationError ty (mk_lo v mn))
       else bindR (above_bound v mx) (\<lambda>hi.
         if hi then Inl (RuleViolationError ty (mk_hi v mx)) else Inr ()))"

text \<open>\<^verbatim>\<open>(mn is None or v >= mn) and (mx is None or v <= mx)\<close>\<close>

definition in_range :: "json \<Rightarrow> json \<Rightarrow> rat \<Rightarrow> bool res" where
  "in_range mn mx v =
     bindR (below_bound v mn) (\<lambda>lo.
       if lo then Inr False else bindR (above_bound v mx) (\<lambda>hi. Inr (\<not> hi)))"

definition in_bounds :: "json \<Rightarrow> json \<Rightarrow> rat \<Rightarrow> bool" where
  "in_bounds mn mx v \<longleftrightarrow> at_least v mn \<and> at_most v mx"

lemma in_range_ok: "bound_ok mn \<Longrightarrow> bound_ok mx \<Longrightarrow> in_range mn mx v = Inr (in_bounds mn mx v)"
  by (auto simp: in_range_def in_bounds_def below_bound_ok above_bound_ok)

lemma bound_value_Inr:
  "bound_ok mn \<Longrightarrow> bound_ok mx \<Longrightarrow> bound_value ty f g v mn mx = Inr () \<longleftrightarrow> in_bounds mn mx v"
  by (auto simp: bound_value_def in_bounds_def below_bound_ok above_bound_ok)

lemma bound_value_Inl:
  "bound_ok mn \<Longrightarrow> bound_ok mx \<Longrightarrow> bound_value ty f g v mn mx = Inl e \<Longrightarrow>
   \<exists>m. e = RuleViolationError ty m"
  by (auto simp: bound_value_def below_bound_ok above_bound_ok split: if_splits)

section \<open>Range rules: AR, OD, HP, CS, drain time\<close>

definition check_all :: "string \<Rightarrow> (beatmap \<Rightarrow> rat) \<Rightarrow> json \<Rightarrow> json \<Rightarrow> beatmap list \<Rightarrow> unit res" where
  "check_all ty val mn mx bms =
     for_each (\<lambda>b. bound_value ty (BeatmapBelow (version b)) (BeatmapAbove (version b)) (val b) mn mx) bms"

definition check_any :: "string \<Rightarrow> (beatmap \<Rightarrow> rat) \<Rightarrow> json \<Rightarrow> json \<Rightarrow> beatmap list \<Rightarrow> unit res" where
  "check_any ty val mn mx bms =
     bindR (any_res (in_range mn mx) (map val bms)) (\<lambda>matched.
       if matched then Inr () else Inl (RuleViolationError ty (NoneInRange mn mx (map val bms))))"

definition check_range :: "string \<Rightarrow> (beatmap \<Rightarrow> rat) \<Rightarrow> exec_context \<Rightarrow> unit res" where
  "check_range ty val c =
     with_dict (config c) (\<lambda>d.
       let logic = dget_or d ''logic'' (JStr ''any''); bms = ctx_beatmaps c in
       if bms = [] then Inl (RuleViolationError ty NoBeatmaps)
       else if logic = JStr ''all'' then check_all ty val (dget d ''min'') (dget d ''max'') bms
       else check_any ty val (dget d ''min'') (dget d ''max'') bms)"

definition ar_range_check :: "exec_context \<Rightarrow> unit res" where
  [rule_defs]: "ar_range_check = check_range ''beatmap_ar_range'' ar"

definition od_range_check :: "exec_context \<Rightarrow> unit res" where
  [rule_defs]: "od_range_check = check_range ''beatmap_od_range'' accuracy"

definition hp_range_check :: "exec_context \<Rightarrow> unit res" where
  [rule_defs]: "hp_range_check = check_range ''beatmap_hp_range'' drain"

definition cs_range_check :: "exec_context \<Rightarrow> unit res" where
  [rule_defs]: "cs_range_check = check_range ''beatmap_cs_range'' cs"

definition drain_range_check :: "exec_context \<Rightarrow> unit res" where
  [rule_defs]: "drain_range_check = check_range ''beatmap_drain_range'' (\<lambda>b. of_int (hit_length b))"

section \<open>Star rating, duration, BPM, length\<close>

text \<open>\<^verbatim>\<open>max(xs)\<close> and \<^verbatim>\<open>min(xs)\<close> of a nonempty list.\<close>

definition py_max :: "'a::linorder list \<Rightarrow> 'a" where
  "py_max xs = fold max (tl xs) (hd xs)"

definition py_min :: "'a::linorder list \<Rightarrow> 'a" where
  "py_min xs = fold min (tl xs) (hd xs)"

definition star_rating_check :: "exec_context \<Rightarrow> unit res" where
  [rule_defs]: "star_rating_check c =
     with_dict (config c) (\<lambda>d.
       let ty = ''beatmap_star_rating''; logic = dget_or d ''logic'' (JStr ''any'');
           bms = ctx_beatmaps c in
       if bms = [] then Inl (RuleViolationError ty NoBeatmaps)
       else let srs = map difficulty_rating bms; mn = dget d ''min''; mx = dget d ''max'' in
         if logic = JStr ''max'' then bound_value ty AggregateBelow AggregateAbove (py_max srs) mn mx
         else if logic = JStr ''min'' then bound_value ty AggregateBelow AggregateAbove (py_min srs) mn mx
         else if logic = JStr ''all'' then check_all ty difficulty_rating mn mx bms
         else if logic = JStr ''any'' then check_any ty difficulty_rating mn mx bms
         else Inr ())"

definition duration_check :: "exec_context \<Rightarrow> unit res" where
  [rule_defs]: "duration_check c =
     with_dict (config c) (\<lambda>d.
       let ty = ''beatmap_duration''; logic = dget_or d ''logic'' (JStr ''max'');
           bms = ctx_beatmaps c in
       if bms = [] then Inl (RuleViolationError ty NoBeatmaps)
       else let lens = map total_length bms in
         if logic = JStr ''max'' then
           bound_value ty AggregateBelow AggregateAbove (of_int (py_max lens))
             (dget d ''min_seconds'') (dget d ''max_seconds'')
         else if logic = JStr ''min'' then
           bound_value ty AggregateBelow AggregateAbove (of_int (py_min lens))
             (dget d ''min_seconds'') (dget d ''max_seconds'')
         else if logic = JStr ''all'' then
           (let mn = dget_or d ''min_seconds'' (JInt 0); mx = dget d ''max_seconds'' in
            for_each (\<lambda>b. let v = of_int (total_length b) in
              bindR (py_less v mn) (\<lambda>lo.
                if lo then Inl (RuleViolationError ty (BeatmapBelow (version b) v mn))
                else bindR (above_bound v mx) (\<lambda>hi.
                  if hi then Inl (RuleViolationError ty (BeatmapAbove (version b) v mx))
                  else Inr ()))) bms)
         else Inr ())"

definition avg_bpm :: "beatmap list \<Rightarrow> rat" where
  "avg_bpm bms = sum_list (map bpm bms) / of_nat (length bms)"

definition bpm_check :: "exec_context \<Rightarrow> unit res" where
  [rule_defs]: "bpm_check c =
     with_dict (config c) (\<lambda>d.
       let ty = ''beatmap_bpm''; logic = dget_or d ''logic'' (JStr ''any'');
           bms = ctx_beatmaps c in
       if bms = [] then Inl (RuleViolationError ty NoBeatmaps)
       else let mn = dget d ''min_bpm''; mx = dget d ''max_bpm'' in
         if logic = JStr ''avg'' then bound_value ty AggregateBelow AggregateAbove (avg_bpm bms) mn mx
         else if logic = JStr ''all'' then check_all ty bpm mn mx bms
         else check_any ty bpm mn mx bms)"

definition length_check :: "exec_context \<Rightarrow> unit res" where
  [rule_defs]: "length_check c =
     with_dict (config c) (\<lambda>d.
       let ty = ''beatmap_length''; logic = dget_or d ''logic'' (JStr ''any'');
           bms = ctx_beatmaps c in
       if bms = [] then Inl (RuleViolationError ty NoBeatmaps)
       else let mnh = dget d ''min_hit_length''; mxh = dget d ''max_hit_length'';
                mnt = dget d ''min_total_length''; mxt = dget d ''max_total_length'' in
         if logic = JStr ''all'' then
           for_each (\<lambda>b.
             bindR (bound_value ty (BeatmapBelow (version b)) (BeatmapAbove (version b))
                      (of_int (hit_length b)) mnh mxh) (\<lambda>_.
               bound_value ty (BeatmapBelow (version b)) (BeatmapAbove (version b))
                      (of_int (total_length b)) mnt mxt)) bms
         else
           bindR (any_res (\<lambda>b. bindR (in_range mnh mxh (of_int (hit_length b))) (\<lambda>h.
                      if h then in_range mnt mxt (of_int (total_length b)) else Inr False)) bms)
             (\<lambda>matched. if matched then Inr ()
                else Inl (RuleViolationError ty (NoneInLengthRange mnh mxh mnt mxt))))"

section \<open>Set-valued rules: genre, language, mode, tags\<close>

fun hashable :: "json \<Rightarrow> bool" where
  "hashable (JList _) = False"
| "hashable (JDict _) = False"
| "hashable _ = True"

text \<open>\<^verbatim>\<open>set(x)\<close>: the elements of an iterable of hashable values, else \<^verbatim>\<open>TypeError\<close>.\<close>

fun as_set :: "json \<Rightarrow> json list res" where
  "as_set (JList xs) = (if list_all hashable xs then Inr xs else Inl (PyExc ''TypeError''))"
| "as_set (JStr s) = Inr (map (\<lambda>ch. JStr [ch]) s)"
| "as_set (JDict d) = Inr (map (\<lambda>(k, _). JStr k) d)"
| "as_set _ = Inl (PyExc ''TypeError'')"

text \<open>\<^verbatim>\<open>sorted(xs)\<close> needs mutually comparable elements; an error message that sorts can raise.\<close>

fun is_str :: "json \<Rightarrow> bool" where
  "is_str (JStr _) = True"
| "is_str _ = False"

definition sortable :: "json list \<Rightarrow> bool" where
  "sortable xs \<longleftrightarrow> length (remdups xs) \<le> 1 \<or> list_all (\<lambda>x. num_of x \<noteq> None) xs \<or> list_all is_str xs"

definition raise_sorted :: "json list \<Rightarrow> exn \<Rightarrow> 'a res" where
  "raise_sorted xs e = (if sortable xs then Inl e else Inl (PyExc ''TypeError''))"

text \<open>Membership of an integer in a Python set of JSON values: \<^verbatim>\<open>1 == 1.0 == True\<close>.\<close>

definition int_in :: "int \<Rightarrow> json list \<Rightarrow> bool" where
  "int_in n xs \<longleftrightarrow> (\<exists>x \<in> set xs. num_of x = Some (of_int n))"

definition id_rule :: "string \<Rightarrow> string \<Rightarrow> string \<Rightarrow> (beatmapset \<Rightarrow> int option) \<Rightarrow> exec_context \<Rightarrow> unit res" where
  "id_rule ty attr key sel c =
     (case Option.bind (cx_beatmapset c) sel of
        None \<Rightarrow> Inl (RuleViolationError ty (AttributeMissing attr))
      | Some actual_id \<Rightarrow>
          with_dict (config c) (\<lambda>d.
            bindR (as_set (dget_or d key (JList []))) (\<lambda>allowed_ids.
              if int_in actual_id allowed_ids then Inr ()
              else raise_sorted allowed_ids (RuleViolationError ty (NotAllowedId actual_id allowed_ids)))))"

definition genre_check :: "exec_context \<Rightarrow> unit res" where
  [rule_defs]: "genre_check = id_rule ''beatmap_genre'' ''genre'' ''genre_ids'' genre"

definition language_check :: "exec_context \<Rightarrow> unit res" where
  [rule_defs]: "language_check = id_rule ''beatmap_language'' ''language'' ''language_ids'' language"

definition mode_check :: "exec_context \<Rightarrow> unit res" where
  [rule_defs]: "mode_check c =
     with_dict (config c) (\<lambda>d.
       bindR (as_set (dget_or d ''allowed_modes'' (JList []))) (\<lambda>allowed_modes.
         let bms = ctx_beatmaps c in
         if bms = [] then Inl (RuleViolationError ''beatmap_mode'' NoBeatmaps)
         else let unsupported = filter (\<lambda>m. JStr m \<notin> set allowed_modes) (remdups (map mode bms)) in
           if unsupported \<noteq> [] then
             Inl (RuleViolationError ''beatmap_mode'' (UnsupportedModes unsupported allowed_modes))
           else Inr ()))"

definition difficulty_count_check :: "exec_context \<Rightarrow> unit res" where
  [rule_defs]: "difficulty_count_check c =
     with_dict (config c) (\<lambda>d.
       let count = int (length (ctx_beatmaps c)) in
       bound_value ''beatmap_difficulty_count'' (\<lambda>_. CountBelow count) (\<lambda>_. CountAbove count)
         (of_int count) (dget d ''min'') (dget d ''max''))"

definition feature_rule :: "string \<Rightarrow> string \<Rightarrow> (beatmapset \<Rightarrow> bool) \<Rightarrow> exec_context \<Rightarrow> unit res" where
  "feature_rule ty attr sel c =
     (case cx_beatmapset c of
        None \<Rightarrow> Inl (RuleViolationError ty MetadataNotAvailable)
      | Some s \<Rightarrow>
          with_dict (config c) (\<lambda>d.
            if \<not> truthy (dget_or d ''allowed'' (JBool True)) \<and> sel s
            then Inl (RuleViolationError ty (FeatureNotAllowed attr)) else Inr ()))"

definition storyboard_check :: "exec_context \<Rightarrow> unit res" where
  [rule_defs]: "storyboard_check = feature_rule ''beatmap_storyboard'' ''storyboard'' storyboard"

definition video_check :: "exec_context \<Rightarrow> unit res" where
  [rule_defs]: "video_check = feature_rule ''beatmap_video'' ''video'' video"

text \<open>The tag identifiers collected over all beatmaps, and whether any beatmap carried some.\<close>

definition tag_lists :: "beatmap list \<Rightarrow> int option list list" where
  "tag_lists bms = filter (\<lambda>ts. ts \<noteq> []) (map (\<lambda>b. case top_tag_ids b of None \<Rightarrow> [] | Some ts \<Rightarrow> ts) bms)"

definition beatmap_tag_ids :: "beatmap list \<Rightarrow> int list" where
  "beatmap_tag_ids bms = List.map_filter id (concat (tag_lists bms))"

definition tags_check :: "exec_context \<Rightarrow> unit res" where
  [rule_defs]: "tags_check c =
     with_dict (config c) (\<lambda>d.
       let ty = ''beatmap_tags''; logic = dget_or d ''logic'' (JStr ''any''); bms = ctx_beatmaps c in
       bindR (as_set (dget_or d ''tag_ids'' (JList []))) (\<lambda>required.
         if required = [] then Inr ()
         else if tag_lists bms = [] then Inl (RuleViolationError ty TagMetadataUnavailable)
         else let available = beatmap_tag_ids bms;
                  have_tag = (\<lambda>r. \<exists>t \<in> set available. num_of r = Some (of_int t)) in
           if logic = JStr ''all'' then
             (let missing = filter (\<lambda>r. \<not> have_tag r) required in
              if missing \<noteq> [] then raise_sorted missing (RuleViolationError ty (TagsMissing missing available))
              else Inr ())
           else if list_ex have_tag required then Inr ()
           else raise_sorted required (RuleViolationError ty (TagsMissing required available))))"

section \<open>Named combinations\<close>

definition COMBINATION_TEMPLATES :: "(string \<times> json) list" where
  "COMBINATION_TEMPLATES = [(''any'', JDict [(''operator'', JStr ''and''), (''rules'', JList [])])]"

definition combination_check :: "exec_context \<Rightarrow> unit res" where
  [rule_defs]: "combination_check c =
     with_dict (config c) (\<lambda>d.
       let ty = ''beatmap_combination''; name = dget d ''combination'' in
       if \<not> truthy name then Inl (RuleViolationError ty CombinationRequired)
       else if \<not> hashable name then Inl (PyExc ''TypeError'')
       else (case name of
               JStr s \<Rightarrow> if map_of COMBINATION_TEMPLATES s = None
                          then Inl (RuleViolationError ty (UnknownCombination s)) else Inr ()
             | _ \<Rightarrow> Inl (RuleViolationError ty (UnknownCombination []))))"

section \<open>What the rules mean\<close>

text \<open>The declarative meaning of each rule, and the shape of configuration its schema admits.\<close>

abbreviation logic_of :: "dict \<Rightarrow> string \<Rightarrow> json" where
  "logic_of d dflt \<equiv> dget_or d ''logic'' (JStr dflt)"

definition bounds_ok :: "string \<Rightarrow> string \<Rightarrow> dict \<Rightarrow> bool" where
  "bounds_ok kmin kmax d \<longleftrightarrow> bound_ok (dget d kmin) \<and> bound_ok (dget d kmax)"

definition range_spec :: "(beatmap \<Rightarrow> rat) \<Rightarrow> dict \<Rightarrow> beatmapset \<Rightarrow> beatmap list \<Rightarrow> bool" where
  "range_spec val d s bms \<longleftrightarrow>
     (let ok = (\<lambda>b. in_bounds (dget d ''min'') (dget d ''max'') (val b)) in
      bms \<noteq> [] \<and> (if logic_of d ''any'' = JStr ''all'' then (\<forall>b \<in> set bms. ok b) else (\<exists>b \<in> set bms. ok b)))"

definition star_rating_spec :: "dict \<Rightarrow> beatmapset \<Rightarrow> beatmap list \<Rightarrow> bool" where
  "star_rating_spec d s bms \<longleftrightarrow>
     (let ok = in_bounds (dget d ''min'') (dget d ''max''); srs = difficulty_rating ` set bms;
          lg = logic_of d ''any'' in
      bms \<noteq> [] \<and>
      (lg = JStr ''max'' \<longrightarrow> ok (Max srs)) \<and> (lg = JStr ''min'' \<longrightarrow> ok (Min srs)) \<and>
      (lg = JStr ''all'' \<longrightarrow> (\<forall>r \<in> srs. ok r)) \<and> (lg = JStr ''any'' \<longrightarrow> (\<exists>r \<in> srs. ok r)))"

definition duration_spec :: "dict \<Rightarrow> beatmapset \<Rightarrow> beatmap list \<Rightarrow> bool" where
  "duration_spec d s bms \<longleftrightarrow>
     (let ok = (\<lambda>n. in_bounds (dget d ''min_seconds'') (dget d ''max_seconds'') (of_int n));
          lens = total_length ` set bms; lg = logic_of d ''max'' in
      bms \<noteq> [] \<and>
      (lg = JStr ''max'' \<longrightarrow> ok (Max lens)) \<and> (lg = JStr ''min'' \<longrightarrow> ok (Min lens)) \<and>
      (lg = JStr ''all'' \<longrightarrow>
         (\<forall>n \<in> lens. at_least (of_int n) (dget_or d ''min_seconds'' (JInt 0)) \<and>
                      at_most (of_int n) (dget d ''max_seconds''))))"

text \<open>With logic \<^verbatim>\<open>all\<close> the minimum is compared unconditionally, so it may not be an explicit \<^verbatim>\<open>None\<close>.\<close>

definition duration_config_ok :: "dict \<Rightarrow> bool" where
  "duration_config_ok d \<longleftrightarrow>
     num_of (dget_or d ''min_seconds'' (JInt 0)) \<noteq> None \<and> bound_ok (dget d ''max_seconds'')"

definition bpm_spec :: "dict \<Rightarrow> beatmapset \<Rightarrow> beatmap list \<Rightarrow> bool" where
  "bpm_spec d s bms \<longleftrightarrow>
     (let ok = in_bounds (dget d ''min_bpm'') (dget d ''max_bpm''); lg = logic_of d ''any'' in
      bms \<noteq> [] \<and>
      (if lg = JStr ''avg'' then ok (avg_bpm bms)
       else if lg = JStr ''all'' then (\<forall>b \<in> set bms. ok (bpm b)) else (\<exists>b \<in> set bms. ok (bpm b))))"

definition length_spec :: "dict \<Rightarrow> beatmapset \<Rightarrow> beatmap list \<Rightarrow> bool" where
  "length_spec d s bms \<longleftrightarrow>
     (let ok = (\<lambda>b. in_bounds (dget d ''min_hit_length'') (dget d ''max_hit_length'') (of_int (hit_length b)) \<and>
                    in_bounds (dget d ''min_total_length'') (dget d ''max_total_length'') (of_int (total_length b))) in
      bms \<noteq> [] \<and> (if logic_of d ''any'' = JStr ''all'' then (\<forall>b \<in> set bms. ok b) else (\<exists>b \<in> set bms. ok b)))"

definition id_list_ok :: "string \<Rightarrow> dict \<Rightarrow> bool" where
  "id_list_ok key d \<longleftrightarrow> (\<exists>ids. map_of d key = Some (JList (map JInt ids)))"

definition ids_of :: "dict \<Rightarrow> string \<Rightarrow> int set" where
  "ids_of d key = {n. JInt n \<in> (case dget_or d key (JList []) of JList xs \<Rightarrow> set xs | _ \<Rightarrow> {})}"

definition id_spec :: "string \<Rightarrow> (beatmapset \<Rightarrow> int option) \<Rightarrow> dict \<Rightarrow> beatmapset \<Rightarrow> beatmap list \<Rightarrow> bool" where
  "id_spec key sel d s bms \<longleftrightarrow> (\<exists>n \<in> ids_of d key. sel s = Some n)"

definition mode_list_ok :: "dict \<Rightarrow> bool" where
  "mode_list_ok d \<longleftrightarrow> (\<exists>ms. map_of d ''allowed_modes'' = Some (JList (map JStr ms)))"

definition mode_spec :: "dict \<Rightarrow> beatmapset \<Rightarrow> beatmap list \<Rightarrow> bool" where
  "mode_spec d s bms \<longleftrightarrow>
     bms \<noteq> [] \<and> (\<forall>b \<in> set bms. \<exists>xs. dget d ''allowed_modes'' = JList xs \<and> JStr (mode b) \<in> set xs)"

definition count_spec :: "dict \<Rightarrow> beatmapset \<Rightarrow> beatmap list \<Rightarrow> bool" where
  "count_spec d s bms \<longleftrightarrow> in_bounds (dget d ''min'') (dget d ''max'') (of_nat (length bms))"

definition feature_spec :: "(beatmapset \<Rightarrow> bool) \<Rightarrow> dict \<Rightarrow> beatmapset \<Rightarrow> beatmap list \<Rightarrow> bool" where
  "feature_spec sel d s bms \<longleftrightarrow> truthy (dget_or d ''allowed'' (JBool True)) \<or> \<not> sel s"

definition tags_spec :: "dict \<Rightarrow> beatmapset \<Rightarrow> beatmap list \<Rightarrow> bool" where
  "tags_spec d s bms \<longleftrightarrow>
     (let need = ids_of d ''tag_ids''; tags = set (beatmap_tag_ids bms) in
      need = {} \<or>
      tag_lists bms \<noteq> [] \<and>
      (if logic_of d ''any'' = JStr ''all'' then need \<subseteq> tags else need \<inter> tags \<noteq> {}))"

lemmas [spec_defs] = bounds_ok_def range_spec_def star_rating_spec_def duration_spec_def bpm_spec_def
  length_spec_def count_spec_def feature_spec_def

section \<open>The contract of a beatmap validator\<close>

locale beatmap_rule =
  fixes ty :: string
    and check :: "exec_context \<Rightarrow> unit res"
    and ok_config :: "dict \<Rightarrow> bool"
    and spec :: "dict \<Rightarrow> beatmapset \<Rightarrow> beatmap list \<Rightarrow> bool"
  assumes passes: "config c = JDict d \<Longrightarrow> ok_config d \<Longrightarrow> cx_beatmapset c = Some s \<Longrightarrow>
      check c = Inr () \<longleftrightarrow> spec d s (ctx_beatmaps c)"
    and raises: "config c = JDict d \<Longrightarrow> ok_config d \<Longrightarrow> cx_beatmapset c = Some s \<Longrightarrow>
      check c = Inl e \<Longrightarrow> \<exists>m. e = RuleViolationError ty m"
begin

lemma outcome:
  assumes "config c = JDict d" "ok_config d" "cx_beatmapset c = Some s"
  shows "check c = (if spec d s (ctx_beatmaps c) then Inr () else check c)"
    and "\<not> spec d s (ctx_beatmaps c) \<Longrightarrow> \<exists>m. check c = Inl (RuleViolationError ty m)"
  using passes [OF assms] raises [OF assms] by (auto simp: sum.case_eq_if) (cases "check c", auto)

lemma full_check:
  assumes "config c = JDict d" "d \<noteq> []" "ok_config d" "cx_beatmapset c = Some s"
  shows "restriction_check ty (beatmap_check ty check) c =
     (if spec d s (ctx_beatmaps c) then Inr () else check c, c)"
  using assms outcome(1) [of c d s] by (simp add: restriction_check_def beatmap_check_def)

end

section \<open>Every validator fulfils the contract\<close>

subsection \<open>The shared loops\<close>

lemma check_all_Inr:
  "bound_ok mn \<Longrightarrow> bound_ok mx \<Longrightarrow>
   check_all ty val mn mx bms = Inr () \<longleftrightarrow> (\<forall>b \<in> set bms. in_bounds mn mx (val b))"
  by (simp add: check_all_def for_each_Inr bound_value_Inr)

lemma check_all_Inl:
  "bound_ok mn \<Longrightarrow> bound_ok mx \<Longrightarrow> check_all ty val mn mx bms = Inl e \<Longrightarrow>
   \<exists>m. e = RuleViolationError ty m"
  by (auto simp: check_all_def dest!: for_each_Inl intro: bound_value_Inl)

lemma check_any_eq:
  "bound_ok mn \<Longrightarrow> bound_ok mx \<Longrightarrow>
   check_any ty val mn mx bms =
     (if \<exists>b \<in> set bms. in_bounds mn mx (val b) then Inr ()
      else Inl (RuleViolationError ty (NoneInRange mn mx (map val bms))))"
  by (simp add: check_any_def in_range_ok any_res_total [where q = "in_bounds mn mx"])

lemma py_max_Max: "xs \<noteq> [] \<Longrightarrow> py_max xs = Max (set xs)"
  by (cases xs) (simp_all add: py_max_def Max.set_eq_fold del: set_simps)

lemma py_min_Min: "xs \<noteq> [] \<Longrightarrow> py_min xs = Min (set xs)"
  by (cases xs) (simp_all add: py_min_def Min.set_eq_fold del: set_simps)

lemmas loop_simps = check_all_Inr check_any_eq bound_value_Inr py_max_Max py_min_Min
lemmas loop_raises = check_all_Inl bound_value_Inl

lemma range_rule: "beatmap_rule ty (check_range ty val) (bounds_ok ''min'' ''max'') (range_spec val)"
  by unfold_locales
    (auto simp: check_range_def Let_def loop_simps spec_defs dest: loop_raises split: if_splits)

subsection \<open>Interpretations\<close>

interpretation ar: beatmap_rule "''beatmap_ar_range''" ar_range_check "bounds_ok ''min'' ''max''" "range_spec ar"
  unfolding rule_defs by (rule range_rule)

interpretation od: beatmap_rule "''beatmap_od_range''" od_range_check "bounds_ok ''min'' ''max''" "range_spec accuracy"
  unfolding rule_defs by (rule range_rule)

interpretation hp: beatmap_rule "''beatmap_hp_range''" hp_range_check "bounds_ok ''min'' ''max''" "range_spec drain"
  unfolding rule_defs by (rule range_rule)

interpretation cs: beatmap_rule "''beatmap_cs_range''" cs_range_check "bounds_ok ''min'' ''max''" "range_spec cs"
  unfolding rule_defs by (rule range_rule)

interpretation drain: beatmap_rule "''beatmap_drain_range''" drain_range_check "bounds_ok ''min'' ''max''"
    "range_spec (\<lambda>b. of_int (hit_length b))"
  unfolding rule_defs by (rule range_rule)

interpretation star_rating: beatmap_rule "''beatmap_star_rating''" star_rating_check "bounds_ok ''min'' ''max''" star_rating_spec
  by unfold_locales
    (auto simp: star_rating_check_def Let_def loop_simps spec_defs dest: loop_raises split: if_splits)

interpretation bpm: beatmap_rule "''beatmap_bpm''" bpm_check "bounds_ok ''min_bpm'' ''max_bpm''" bpm_spec
  by unfold_locales
    (auto simp: bpm_check_def Let_def loop_simps spec_defs dest: loop_raises split: if_splits)

lemma py_less_num: "num_of b \<noteq> None \<Longrightarrow> py_less v b = Inr (\<not> at_least v b)"
  by (auto simp: py_less_def at_least_def)

interpretation duration: beatmap_rule "''beatmap_duration''" duration_check duration_config_ok duration_spec
proof unfold_locales
  fix c :: exec_context and d s e
  assume c: "config c = JDict d" and ok: "duration_config_ok d"
  have b: "bound_ok (dget d ''min_seconds'')" "bound_ok (dget d ''max_seconds'')"
    and n: "num_of (dget_or d ''min_seconds'' (JInt 0)) \<noteq> None"
    using ok by (auto simp: duration_config_ok_def dget_def dget_or_def bound_ok_def split: option.splits)
  show "duration_check c = Inr () \<longleftrightarrow> duration_spec d s (ctx_beatmaps c)"
    using c b n
    by (auto simp: duration_check_def Let_def loop_simps spec_defs py_less_num above_bound_ok for_each_Inr)
  show "\<exists>m. e = RuleViolationError ''beatmap_duration'' m" if "duration_check c = Inl e"
    using that c b n
    by (auto simp: duration_check_def Let_def py_less_num above_bound_ok
        dest!: for_each_Inl dest: loop_raises split: if_splits)
qed

interpretation length: beatmap_rule "''beatmap_length''" length_check
    "\<lambda>d. bounds_ok ''min_hit_length'' ''max_hit_length'' d \<and> bounds_ok ''min_total_length'' ''max_total_length'' d"
    length_spec
proof unfold_locales
  fix c :: exec_context and d s e
  assume c: "config c = JDict d"
    and ok: "bounds_ok ''min_hit_length'' ''max_hit_length'' d \<and> bounds_ok ''min_total_length'' ''max_total_length'' d"
  note ok' = ok [unfolded bounds_ok_def]
  show "length_check c = Inr () \<longleftrightarrow> length_spec d s (ctx_beatmaps c)"
    using c ok'
    by (auto simp: length_check_def Let_def for_each_Inr bindR_eq_Inr bound_value_Inr in_range_ok spec_defs
        any_res_total [where q = "\<lambda>b. in_bounds (dget d ''min_hit_length'') (dget d ''max_hit_length'') (of_int (hit_length b)) \<and>
           in_bounds (dget d ''min_total_length'') (dget d ''max_total_length'') (of_int (total_length b))"])
  show "\<exists>m. e = RuleViolationError ''beatmap_length'' m" if "length_check c = Inl e"
    using that c ok'
    by (auto simp: length_check_def Let_def in_range_ok bindR_eq_Inl
        any_res_total [where q = "\<lambda>b. in_bounds (dget d ''min_hit_length'') (dget d ''max_hit_length'') (of_int (hit_length b)) \<and>
           in_bounds (dget d ''min_total_length'') (dget d ''max_total_length'') (of_int (total_length b))"]
        dest!: for_each_Inl dest: bound_value_Inl split: if_splits)
qed

subsection \<open>Identifier sets\<close>

lemma as_set_ints [simp]: "as_set (JList (map JInt ids)) = Inr (map JInt ids)"
  by (simp add: list_all_iff)

lemma as_set_strs [simp]: "as_set (JList (map JStr ss)) = Inr (map JStr ss)"
  by (simp add: list_all_iff)

lemma sortable_ints [simp]: "set xs \<subseteq> range JInt \<Longrightarrow> sortable xs"
  by (auto simp: sortable_def list_all_iff)

lemma raise_sorted_ints [simp]: "set xs \<subseteq> range JInt \<Longrightarrow> raise_sorted xs e = Inl e"
  by (simp add: raise_sorted_def)

lemma int_in_ints [simp]: "int_in n (map JInt ids) \<longleftrightarrow> n \<in> set ids"
  by (auto simp: int_in_def)

lemma id_rule_contract: "beatmap_rule ty (id_rule ty attr key sel) (id_list_ok key) (id_spec key sel)"
proof unfold_locales
  fix c :: exec_context and d s e
  assume c: "config c = JDict d" "cx_beatmapset c = Some s" and ok: "id_list_ok key d"
  obtain ids where ids: "map_of d key = Some (JList (map JInt ids))"
    using ok by (auto simp: id_list_ok_def)
  then have rd: "dget_or d key (JList []) = JList (map JInt ids)" and mem: "ids_of d key = set ids"
    by (auto simp: dget_or_def ids_of_def)
  show "id_rule ty attr key sel c = Inr () \<longleftrightarrow> id_spec key sel d s (ctx_beatmaps c)"
    using c rd mem by (auto simp: id_rule_def id_spec_def image_subset_iff simp del: as_set.simps split: option.splits)
  show "\<exists>m. e = RuleViolationError ty m" if "id_rule ty attr key sel c = Inl e"
    using that c rd by (auto simp: id_rule_def image_subset_iff simp del: as_set.simps split: option.splits if_splits)
qed

interpretation genre: beatmap_rule "''beatmap_genre''" genre_check "id_list_ok ''genre_ids''" "id_spec ''genre_ids'' genre"
  unfolding rule_defs by (rule id_rule_contract)

interpretation language: beatmap_rule "''beatmap_language''" language_check "id_list_ok ''language_ids''"
    "id_spec ''language_ids'' language"
  unfolding rule_defs by (rule id_rule_contract)

interpretation mode: beatmap_rule "''beatmap_mode''" mode_check mode_list_ok mode_spec
proof unfold_locales
  fix c :: exec_context and d s e
  assume c: "config c = JDict d" and ok: "mode_list_ok d"
  obtain ms where ms: "dget_or d ''allowed_modes'' (JList []) = JList (map JStr ms)"
      "dget d ''allowed_modes'' = JList (map JStr ms)"
    using ok by (auto simp: mode_list_ok_def dget_def dget_or_def)
  show "mode_check c = Inr () \<longleftrightarrow> mode_spec d s (ctx_beatmaps c)"
    using c ms by (auto simp: mode_check_def mode_spec_def Let_def filter_empty_conv simp del: as_set.simps)
  show "\<exists>m. e = RuleViolationError ''beatmap_mode'' m" if "mode_check c = Inl e"
    using that c ms by (auto simp: mode_check_def Let_def simp del: as_set.simps split: if_splits)
qed

interpretation tags: beatmap_rule "''beatmap_tags''" tags_check "id_list_ok ''tag_ids''" tags_spec
proof unfold_locales
  fix c :: exec_context and d s e
  assume c: "config c = JDict d" and ok: "id_list_ok ''tag_ids'' d"
  obtain ids where ids: "map_of d ''tag_ids'' = Some (JList (map JInt ids))"
    using ok by (auto simp: id_list_ok_def)
  then have rd: "dget_or d ''tag_ids'' (JList []) = JList (map JInt ids)" and mem: "ids_of d ''tag_ids'' = set ids"
    by (auto simp: dget_or_def ids_of_def)
  have sub: "set (filter P (map JInt ids)) \<subseteq> range JInt" "JInt ` set ids \<subseteq> range JInt" for P
    by auto
  show "tags_check c = Inr () \<longleftrightarrow> tags_spec d s (ctx_beatmaps c)"
    using c rd mem sub
    by (auto simp: tags_check_def tags_spec_def Let_def filter_empty_conv list_ex_iff simp del: as_set.simps)
  show "\<exists>m. e = RuleViolationError ''beatmap_tags'' m" if "tags_check c = Inl e"
    using that c rd sub by (auto simp: tags_check_def Let_def simp del: as_set.simps split: if_splits)
qed

subsection \<open>Count, features, combinations\<close>

interpretation difficulty_count: beatmap_rule "''beatmap_difficulty_count''" difficulty_count_check
    "bounds_ok ''min'' ''max''" count_spec
  by unfold_locales
    (auto simp: difficulty_count_check_def Let_def bound_value_Inr spec_defs dest: bound_value_Inl)

lemma feature_rule_contract: "beatmap_rule ty (feature_rule ty attr sel) (\<lambda>_. True) (feature_spec sel)"
  by unfold_locales (auto simp: feature_rule_def feature_spec_def split: if_splits)

interpretation storyboard: beatmap_rule "''beatmap_storyboard''" storyboard_check "\<lambda>_. True" "feature_spec storyboard"
  unfolding rule_defs by (rule feature_rule_contract)

interpretation video: beatmap_rule "''beatmap_video''" video_check "\<lambda>_. True" "feature_spec video"
  unfolding rule_defs by (rule feature_rule_contract)

definition combination_config_ok :: "dict \<Rightarrow> bool" where
  "combination_config_ok d \<longleftrightarrow> is_str (dget d ''combination'')"

definition combination_spec :: "dict \<Rightarrow> beatmapset \<Rightarrow> beatmap list \<Rightarrow> bool" where
  "combination_spec d s bms \<longleftrightarrow> (\<exists>name \<in> fst ` set COMBINATION_TEMPLATES. dget d ''combination'' = JStr name)"

interpretation combination: beatmap_rule "''beatmap_combination''" combination_check combination_config_ok combination_spec
  by unfold_locales
    (auto simp: combination_check_def combination_spec_def combination_config_ok_def COMBINATION_TEMPLATES_def
      Let_def elim!: is_str.elims split: if_splits)

end
