(* ===== verification/Rule_Schema.thy ===== *)
theory Rule_Schema
  imports Rule_Context
begin

text \<open>
  The rule configuration schemas (\<^verbatim>\<open>src/app/database/schemas/rule.py\<close>): one definition per
  configuration class, the validators written in them, the recursive check of composite trees
  and \<^verbatim>\<open>validate_rule_config\<close>.

  The classes are pydantic models. Pydantic is not part of this repository, so its parsing of
  declared fields is a parameter \<open>parse\<close>: given the declared fields (name, type, default) of a
  class with \<^verbatim>\<open>extra="forbid"\<close> and the keyword arguments, it gives the field values in declaration
  order, or nothing when it rejects them. What the theorems use of it is stated by
  \<open>pydantic_sound\<close> (accepted values have the declared types, defaults fill what is absent, unknown
  keys are refused) and \<open>pydantic_keeps\<close> (arguments that already have the declared types are
  accepted unchanged). \<open>strict_parse\<close>, which never coerces, is a function with both properties.
\<close>

section \<open>Declared types\<close>

datatype pytype =
    TInt
  | TFloat
  | TBool
  | TStr
  | TLitInt "int list"
  | TLitStr "string list"
  | TOpt pytype
  | TList pytype
  | TDict

fun has_type :: "pytype \<Rightarrow> json \<Rightarrow> bool" where
  "has_type TInt v = (case v of JInt _ \<Rightarrow> True | _ \<Rightarrow> False)"
| "has_type TFloat v = (case v of JFloat _ \<Rightarrow> True | _ \<Rightarrow> False)"
| "has_type TBool v = (case v of JBool _ \<Rightarrow> True | _ \<Rightarrow> False)"
| "has_type TStr v = (case v of JStr _ \<Rightarrow> True | _ \<Rightarrow> False)"
| "has_type (TLitInt ns) v = (case v of JInt n \<Rightarrow> n \<in> set ns | _ \<Rightarrow> False)"
| "has_type (TLitStr ss) v = (case v of JStr s \<Rightarrow> s \<in> set ss | _ \<Rightarrow> False)"
| "has_type (TOpt t) v = (v = JNull \<or> has_type t v)"
| "has_type (TList t) v = (case v of JList xs \<Rightarrow> (\<forall>x \<in> set xs. has_type t x) | _ \<Rightarrow> False)"
| "has_type TDict v = (case v of JDict _ \<Rightarrow> True | _ \<Rightarrow> False)"

type_synonym field_decl = "string \<times> pytype \<times> json option"
type_synonym parser = "field_decl list \<Rightarrow> dict \<Rightarrow> dict option"

record config_class =
  cls_fields :: "field_decl list"
  field_validators :: "(string \<times> (json \<Rightarrow> unit res)) list"
  model_validator :: "dict \<Rightarrow> unit res"

section \<open>What is relied on of pydantic\<close>

definition pydantic_sound :: "parser \<Rightarrow> bool" where
  "pydantic_sound parse \<longleftrightarrow>
     (\<forall>fs d obj. distinct (map fst fs) \<longrightarrow> parse fs d = Some obj \<longrightarrow>
        map fst obj = map fst fs \<and> fst ` set d \<subseteq> fst ` set fs \<and>
        (\<forall>(k, t, dflt) \<in> set fs.
           case map_of d k of
             None \<Rightarrow> dflt \<noteq> None \<and> map_of obj k = dflt
           | Some v \<Rightarrow> (\<exists>w. map_of obj k = Some w \<and> has_type t w)))"

definition args_typed :: "field_decl list \<Rightarrow> dict \<Rightarrow> bool" where
  "args_typed fs d \<longleftrightarrow>
     fst ` set d \<subseteq> fst ` set fs \<and>
     (\<forall>(k, t, dflt) \<in> set fs. case map_of d k of None \<Rightarrow> dflt \<noteq> None | Some v \<Rightarrow> has_type t v)"

definition fill_defaults :: "field_decl list \<Rightarrow> dict \<Rightarrow> dict" where
  "fill_defaults fs d =
     map (\<lambda>(k, t, dflt). (k, case map_of d k of Some v \<Rightarrow> v | None \<Rightarrow> (case dflt of Some v \<Rightarrow> v | None \<Rightarrow> JNull))) fs"

definition pydantic_keeps :: "parser \<Rightarrow> bool" where
  "pydantic_keeps parse \<longleftrightarrow>
     (\<forall>fs d. distinct (map fst fs) \<longrightarrow> distinct (map fst d) \<longrightarrow> args_typed fs d \<longrightarrow>
        parse fs d = Some (fill_defaults fs d))"

definition strict_parse :: parser where
  "strict_parse fs d = (if args_typed fs d then Some (fill_defaults fs d) else None)"

section \<open>Constructing a configuration object\<close>

text \<open>
  A \<^verbatim>\<open>ValueError\<close> raised inside a validator becomes a \<^verbatim>\<open>ValidationError\<close>; other exceptions pass
  through. Field validators do not run on defaults.
\<close>

definition as_validation :: "unit res \<Rightarrow> unit res" where
  "as_validation r = (if r = Inl (PyExc ''ValueError'') then Inl (PyExc ''ValidationError'') else r)"

definition run_field_validators :: "config_class \<Rightarrow> dict \<Rightarrow> dict \<Rightarrow> unit res" where
  "run_field_validators cls given obj =
     for_each (\<lambda>(k, validate). if map_of given k = None then Inr () else as_validation (validate (dget obj k)))
       (field_validators cls)"

definition construct :: "parser \<Rightarrow> config_class \<Rightarrow> dict \<Rightarrow> dict res" where
  "construct parse cls given =
     (case parse (cls_fields cls) given of
        None \<Rightarrow> Inl (PyExc ''ValidationError'')
      | Some obj \<Rightarrow>
          bindR (run_field_validators cls given obj) (\<lambda>_.
            bindR (as_validation (model_validator cls obj)) (\<lambda>_. Inr obj)))"

definition model_dump_exclude_none :: "dict \<Rightarrow> dict" where
  "model_dump_exclude_none obj = filter (\<lambda>(k, v). v \<noteq> JNull) obj"

section \<open>Validators of the classes\<close>

abbreviation value_error :: "'a res" where
  "value_error \<equiv> Inl (PyExc ''ValueError'')"

text \<open>\<^verbatim>\<open>v < n\<close> for a parsed value.\<close>

definition num_below :: "json \<Rightarrow> rat \<Rightarrow> bool res" where
  "num_below v n = (case num_of v of None \<Rightarrow> Inl (PyExc ''TypeError'') | Some q \<Rightarrow> Inr (q < n))"

definition require_at_least :: "rat \<Rightarrow> json \<Rightarrow> unit res" where
  "require_at_least n v = bindR (num_below v n) (\<lambda>b. if b then value_error else Inr ())"

definition opt_at_least :: "rat \<Rightarrow> json \<Rightarrow> unit res" where
  "opt_at_least n v = (if v = JNull then Inr () else require_at_least n v)"

fun list_of :: "json \<Rightarrow> json list" where
  "list_of (JList xs) = xs"
| "list_of _ = []"

definition validate_target_ids :: "json \<Rightarrow> unit res" where
  "validate_target_ids v =
     (if v = JNull then Inr ()
      else bindR (for_each (require_at_least 1) (list_of v)) (\<lambda>_.
        if distinct (map num_of (list_of v)) then Inr () else value_error))"

definition validate_non_empty :: "json \<Rightarrow> unit res" where
  "validate_non_empty v = (if truthy v then Inr () else value_error)"

text \<open>
  \<^verbatim>\<open>str.isdigit\<close> also accepts the three superscript digits of the 8-bit range, which \<^verbatim>\<open>int\<close> rejects.
\<close>

definition str_isdigit :: "string \<Rightarrow> bool" where
  "str_isdigit s \<longleftrightarrow> s \<noteq> [] \<and> list_all (\<lambda>c. is_digit c \<or> (of_char c :: nat) \<in> {178, 179, 185}) s"

definition validate_period :: "json \<Rightarrow> unit res" where
  "validate_period v =
     (case v of
        JStr s \<Rightarrow>
          if str_isdigit s then bindR (py_int s) (\<lambda>n. if n < 1 then value_error else Inr ())
          else if s \<notin> set [''day'', ''week'', ''month'', ''year''] then value_error
          else Inr ()
      | _ \<Rightarrow> Inl (PyExc ''AttributeError''))"

text \<open>At least one bound, and \<^verbatim>\<open>min <= max\<close> when both are there.\<close>

definition bounds_ordered :: "string \<Rightarrow> string \<Rightarrow> dict \<Rightarrow> unit res" where
  "bounds_ordered kmin kmax obj =
     (case (num_of (dget obj kmin), num_of (dget obj kmax)) of
        (Some a, Some b) \<Rightarrow> if a > b then value_error else Inr ()
      | _ \<Rightarrow> Inr ())"

definition some_bound :: "string list \<Rightarrow> dict \<Rightarrow> unit res" where
  "some_bound ks obj = (if list_all (\<lambda>k. dget obj k = JNull) ks then value_error else Inr ())"

definition validate_bounds :: "string \<Rightarrow> string \<Rightarrow> dict \<Rightarrow> unit res" where
  "validate_bounds kmin kmax obj =
     bindR (some_bound [kmin, kmax] obj) (\<lambda>_. bounds_ordered kmin kmax obj)"

section \<open>The configuration classes\<close>

abbreviation req :: "string \<Rightarrow> pytype \<Rightarrow> field_decl" where
  "req k t \<equiv> (k, t, None)"

abbreviation opt :: "string \<Rightarrow> pytype \<Rightarrow> field_decl" where
  "opt k t \<equiv> (k, TOpt t, Some JNull)"

abbreviation dflt :: "string \<Rightarrow> pytype \<Rightarrow> json \<Rightarrow> field_decl" where
  "dflt k t v \<equiv> (k, t, Some v)"

abbreviation no_check :: "dict \<Rightarrow> unit res" where
  "no_check \<equiv> \<lambda>_. Inr ()"

definition RateLimitConfig :: config_class where
  "RateLimitConfig =
     \<lparr>cls_fields = [req ''max_requests'' TInt, req ''period'' TStr,
        dflt ''scope'' (TLitStr [''user'']) (JStr ''user''), opt ''target'' (TList TInt)],
      field_validators = [(''max_requests'', require_at_least 1), (''period'', validate_period),
        (''target'', validate_target_ids)],
      model_validator = no_check\<rparr>"

definition CooldownConfig :: config_class where
  "CooldownConfig =
     \<lparr>cls_fields = [req ''cooldown_seconds'' TInt, dflt ''scope'' (TLitStr [''user'']) (JStr ''user''),
        opt ''target'' (TList TInt)],
      field_validators = [(''cooldown_seconds'', require_at_least 1), (''target'', validate_target_ids)],
      model_validator = no_check\<rparr>"

definition BlacklistConfig :: config_class where
  "BlacklistConfig =
     \<lparr>cls_fields = [dflt ''scope'' (TLitStr [''user'']) (JStr ''user''), req ''target'' (TList TInt)],
      field_validators = [(''target'', \<lambda>v. bindR (validate_non_empty v) (\<lambda>_. validate_target_ids v))],
      model_validator = no_check\<rparr>"

definition DurationConfig :: config_class where
  "DurationConfig =
     \<lparr>cls_fields = [opt ''min_seconds'' TInt, opt ''max_seconds'' TInt,
        dflt ''logic'' (TLitStr [''max'', ''min'', ''all'']) (JStr ''max'')],
      field_validators = [(''min_seconds'', opt_at_least 0), (''max_seconds'', opt_at_least 0)],
      model_validator = validate_bounds ''min_seconds'' ''max_seconds''\<rparr>"

definition StarRatingConfig :: config_class where
  "StarRatingConfig =
     \<lparr>cls_fields = [opt ''min'' TFloat, opt ''max'' TFloat,
        dflt ''logic'' (TLitStr [''max'', ''min'', ''all'', ''any'']) (JStr ''any'')],
      field_validators = [(''min'', opt_at_least 0), (''max'', opt_at_least 0)],
      model_validator = validate_bounds ''min'' ''max''\<rparr>"

text \<open>\<^verbatim>\<open>RangeConfig\<close> and its five subclasses, which add the \<^verbatim>\<open>logic\<close> field.\<close>

definition RangeConfig :: "field_decl list \<Rightarrow> config_class" where
  "RangeConfig extra =
     \<lparr>cls_fields = [opt ''min'' TFloat, opt ''max'' TFloat] @ extra,
      field_validators = [(''min'', opt_at_least 0), (''max'', opt_at_least 0)],
      model_validator = validate_bounds ''min'' ''max''\<rparr>"

definition AttributeRangeConfig :: config_class where
  "AttributeRangeConfig = RangeConfig [dflt ''logic'' (TLitStr [''any'', ''all'']) (JStr ''any'')]"

definition BPMConfig :: config_class where
  "BPMConfig =
     \<lparr>cls_fields = [opt ''min_bpm'' TFloat, opt ''max_bpm'' TFloat,
        dflt ''logic'' (TLitStr [''any'', ''all'', ''avg'']) (JStr ''any'')],
      field_validators = [(''min_bpm'', opt_at_least 0), (''max_bpm'', opt_at_least 0)],
      model_validator = validate_bounds ''min_bpm'' ''max_bpm''\<rparr>"

definition GenreIdLiteral :: pytype where
  "GenreIdLiteral = TLitInt [0, 1, 2, 3, 4, 5, 6, 7, 9, 10, 11, 12, 13, 14]"

definition LanguageIdLiteral :: pytype where
  "LanguageIdLiteral = TLitInt [0, 1, 2, 3, 4, 5, 6, 7, 8, 9, 10, 11, 12, 13, 14]"

definition RulesetLiteral :: pytype where
  "RulesetLiteral = TLitStr [''fruits'', ''mania'', ''osu'', ''taiko'']"

definition GenreConfig :: config_class where
  "GenreConfig =
     \<lparr>cls_fields = [req ''genre_ids'' (TList GenreIdLiteral)],
      field_validators = [(''genre_ids'', validate_non_empty)], model_validator = no_check\<rparr>"

definition LanguageConfig :: config_class where
  "LanguageConfig =
     \<lparr>cls_fields = [req ''language_ids'' (TList LanguageIdLiteral)],
      field_validators = [(''language_ids'', validate_non_empty)], model_validator = no_check\<rparr>"

definition ModeConfig :: config_class where
  "ModeConfig =
     \<lparr>cls_fields = [req ''allowed_modes'' (TList RulesetLiteral)],
      field_validators = [(''allowed_modes'', validate_non_empty)], model_validator = no_check\<rparr>"

definition DifficultyCountConfig :: config_class where
  "DifficultyCountConfig =
     \<lparr>cls_fields = [opt ''min'' TInt, opt ''max'' TInt],
      field_validators = [(''min'', opt_at_least 1), (''max'', opt_at_least 1)],
      model_validator = validate_bounds ''min'' ''max''\<rparr>"

definition StoryboardConfig :: config_class where
  "StoryboardConfig =
     \<lparr>cls_fields = [req ''allowed'' TBool], field_validators = [], model_validator = no_check\<rparr>"

definition VideoConfig :: config_class where
  "VideoConfig =
     \<lparr>cls_fields = [req ''allowed'' TBool], field_validators = [], model_validator = no_check\<rparr>"

definition TagsConfig :: config_class where
  "TagsConfig =
     \<lparr>cls_fields = [req ''tag_ids'' (TList TInt), dflt ''logic'' (TLitStr [''any'', ''all'']) (JStr ''any'')],
      field_validators =
        [(''tag_ids'', \<lambda>v. bindR (validate_non_empty v) (\<lambda>_. for_each (require_at_least 1) (list_of v)))],
      model_validator = no_check\<rparr>"

definition LengthConfig :: config_class where
  "LengthConfig =
     \<lparr>cls_fields = [opt ''min_hit_length'' TInt, opt ''max_hit_length'' TInt,
        opt ''min_total_length'' TInt, opt ''max_total_length'' TInt,
        dflt ''logic'' (TLitStr [''any'', ''all'']) (JStr ''any'')],
      field_validators = [(''min_hit_length'', opt_at_least 0), (''max_hit_length'', opt_at_least 0),
        (''min_total_length'', opt_at_least 0), (''max_total_length'', opt_at_least 0)],
      model_validator = (\<lambda>obj.
        bindR (some_bound [''min_hit_length'', ''max_hit_length'', ''min_total_length'', ''max_total_length''] obj) (\<lambda>_.
        bindR (bounds_ordered ''min_hit_length'' ''max_hit_length'' obj) (\<lambda>_.
          bounds_ordered ''min_total_length'' ''max_total_length'' obj)))\<rparr>"

definition NeverRankedConfig :: config_class where
  "NeverRankedConfig =
     \<lparr>cls_fields = [dflt ''ruleset'' (TLitStr [''osu'', ''taiko'', ''fruits'', ''mania'']) (JStr ''osu''),
        dflt ''normalize_versions'' TBool (JBool True)],
      field_validators = [], model_validator = no_check\<rparr>"

definition UniqueArtistTitleConfig :: config_class where
  "UniqueArtistTitleConfig =
     \<lparr>cls_fields = [dflt ''normalize_versions'' TBool (JBool True)],
      field_validators = [], model_validator = no_check\<rparr>"

text \<open>The schema map without its composite entry, which needs the recursive check below.\<close>

definition leaf_schema_map :: "(string \<times> config_class) list" where
  "leaf_schema_map =
     [(''rate_limit'', RateLimitConfig), (''cooldown'', CooldownConfig), (''blacklist'', BlacklistConfig),
      (''beatmap_duration'', DurationConfig), (''beatmap_star_rating'', StarRatingConfig),
      (''beatmap_ar_range'', AttributeRangeConfig), (''beatmap_od_range'', AttributeRangeConfig),
      (''beatmap_hp_range'', AttributeRangeConfig), (''beatmap_cs_range'', AttributeRangeConfig),
      (''beatmap_drain_range'', AttributeRangeConfig), (''beatmap_bpm'', BPMConfig),
      (''beatmap_genre'', GenreConfig), (''beatmap_language'', LanguageConfig), (''beatmap_mode'', ModeConfig),
      (''beatmap_difficulty_count'', DifficultyCountConfig), (''beatmap_storyboard'', StoryboardConfig),
      (''beatmap_video'', VideoConfig), (''beatmap_tags'', TagsConfig), (''beatmap_length'', LengthConfig),
      (''never_ranked'', NeverRankedConfig), (''unique_artist_title'', UniqueArtistTitleConfig)]"

section \<open>Composite trees\<close>

definition COMPOSITE_DISALLOWED_CHILD_TYPES :: "string list" where
  "COMPOSITE_DISALLOWED_CHILD_TYPES = [''rate_limit'', ''cooldown'', ''blacklist'']"

definition MAX_COMPOSITE_DEPTH :: nat where
  "MAX_COMPOSITE_DEPTH = 10"

text \<open>\<^verbatim>\<open>validate_rule_config\<close> for a type other than \<^verbatim>\<open>composite\<close>.\<close>

definition validate_leaf_config :: "parser \<Rightarrow> string \<Rightarrow> dict \<Rightarrow> dict res" where
  "validate_leaf_config parse rule_type cfg =
     (case map_of leaf_schema_map rule_type of
        Some cls \<Rightarrow> bindR (construct parse cls cfg) (\<lambda>obj. Inr (model_dump_exclude_none obj))
      | None \<Rightarrow> Inr cfg)"

text \<open>\<^verbatim>\<open>schema_cls(**config)\<close> needs a mapping.\<close>

definition validate_child_config :: "parser \<Rightarrow> string \<Rightarrow> json \<Rightarrow> unit res" where
  "validate_child_config parse child_type child_config =
     (case child_config of
        JDict d \<Rightarrow> bindR (validate_leaf_config parse child_type d) (\<lambda>_. Inr ())
      | _ \<Rightarrow> Inl (PyExc ''TypeError''))"

text \<open>
  \<^verbatim>\<open>enumerate(rules)\<close> over the \<^verbatim>\<open>rules\<close> value of a nested composite, which is not parsed by
  pydantic: a list gives its items, a string its characters, a dictionary its keys.
\<close>

fun iter_json :: "json \<Rightarrow> json list res" where
  "iter_json (JList xs) = Inr xs"
| "iter_json (JStr s) = Inr (map (\<lambda>ch. JStr [ch]) s)"
| "iter_json (JDict d) = Inr (map (\<lambda>(k, _). JStr k) d)"
| "iter_json _ = Inl (PyExc ''TypeError'')"

text \<open>The type field of a child: it must be there, hashable, allowed and known.\<close>

definition child_type_of :: "json \<Rightarrow> json res" where
  "child_type_of child =
     with_dict child (\<lambda>d.
       let child_type = dget d ''type'' in
       if \<not> truthy child_type then value_error
       else (case child_type of
               JStr s \<Rightarrow> if s \<in> set COMPOSITE_DISALLOWED_CHILD_TYPES then value_error else Inr child_type
             | JList _ \<Rightarrow> Inl (PyExc ''TypeError'')
             | JDict _ \<Rightarrow> Inl (PyExc ''TypeError'')
             | _ \<Rightarrow> Inr child_type))"

definition child_config_of :: "json \<Rightarrow> json" where
  "child_config_of child = (case child of JDict d \<Rightarrow> dget_or d ''config'' (JDict []) | _ \<Rightarrow> JNull)"

function validate_composite_tree :: "parser \<Rightarrow> json \<Rightarrow> json \<Rightarrow> nat \<Rightarrow> unit res" where
  "validate_composite_tree parse operator rules depth =
     (if depth > MAX_COMPOSITE_DEPTH then value_error
      else if \<not> truthy rules then value_error
      else bindR (iter_json rules) (\<lambda>children.
        if operator = JStr ''not'' \<and> length children \<noteq> 1 then value_error
        else for_each (\<lambda>child.
          bindR (child_type_of child) (\<lambda>child_type.
            if child_type = JStr ''composite'' then
              with_dict (child_config_of child) (\<lambda>child_config.
                let child_operator = dget child_config ''operator'' in
                if child_operator \<notin> {JStr ''and'', JStr ''or'', JStr ''not''} then value_error
                else validate_composite_tree parse child_operator
                       (dget_or child_config ''rules'' (JList [])) (depth + 1))
            else (case child_type of
                    JStr ty \<Rightarrow>
                      if map_of leaf_schema_map ty = None then value_error
                      else validate_child_config parse ty (child_config_of child)
                  | _ \<Rightarrow> value_error))) children))"
  by pat_completeness auto

termination
  by (relation "measure (\<lambda>(_, _, _, depth). Suc MAX_COMPOSITE_DEPTH - depth)") auto

declare validate_composite_tree.simps [simp del]

definition CompositeConfig :: "parser \<Rightarrow> config_class" where
  "CompositeConfig parse =
     \<lparr>cls_fields = [req ''operator'' (TLitStr [''and'', ''or'', ''not'']), req ''rules'' (TList TDict)],
      field_validators = [],
      model_validator = (\<lambda>obj. validate_composite_tree parse (dget obj ''operator'') (dget obj ''rules'') 1)\<rparr>"

definition RULE_CONFIG_SCHEMA_MAP :: "parser \<Rightarrow> (string \<times> config_class) list" where
  "RULE_CONFIG_SCHEMA_MAP parse = leaf_schema_map @ [(''composite'', CompositeConfig parse)]"

definition validate_rule_config :: "parser \<Rightarrow> string \<Rightarrow> dict \<Rightarrow> dict res" where
  "validate_rule_config parse rule_type cfg =
     (case map_of (RULE_CONFIG_SCHEMA_MAP parse) rule_type of
        Some cls \<Rightarrow> bindR (construct parse cls cfg) (\<lambda>obj. Inr (model_dump_exclude_none obj))
      | None \<Rightarrow> Inr cfg)"

section \<open>The parameter can be instantiated\<close>

lemma map_of_fill_defaults:
  "distinct (map fst fs) \<Longrightarrow> (k, t, v) \<in> set fs \<Longrightarrow>
   map_of (fill_defaults fs d) k =
     Some (case map_of d k of Some w \<Rightarrow> w | None \<Rightarrow> (case v of Some w \<Rightarrow> w | None \<Rightarrow> JNull))"
  unfolding fill_defaults_def by (induction fs) (auto simp: rev_image_eqI)

lemma strict_parse_sound: "pydantic_sound strict_parse"
proof -
  have typed: "case map_of d k of
      None \<Rightarrow> v \<noteq> None \<and> map_of (fill_defaults fs d) k = v
    | Some _ \<Rightarrow> (\<exists>w. map_of (fill_defaults fs d) k = Some w \<and> has_type t w)"
    if "distinct (map fst fs)" "args_typed fs d" and m: "(k, t, v) \<in> set fs" for fs d k t v
  proof -
    have "case map_of d k of None \<Rightarrow> v \<noteq> None | Some u \<Rightarrow> has_type t u"
      using that(2) m unfolding args_typed_def by blast
    then show ?thesis
      using map_of_fill_defaults [OF that(1) m, of d] by (auto split: option.splits)
  qed
  have "map fst (fill_defaults fs d) = map fst fs" for fs d
    by (auto simp: fill_defaults_def)
  moreover have "fst ` set d \<subseteq> fst ` set fs" if "args_typed fs d" for fs d
    using that by (simp add: args_typed_def)
  ultimately show ?thesis
    unfolding pydantic_sound_def strict_parse_def using typed
    by (auto split: if_splits simp del: option.case_eq_if)
qed

lemma strict_parse_keeps: "pydantic_keeps strict_parse"
  by (simp add: pydantic_keeps_def strict_parse_def)

section \<open>Well-formed class declarations\<close>

text \<open>
  Defaults have the declared type, a field that admits \<^verbatim>\<open>None\<close> defaults to it, and a validated
  field has no default other than \<^verbatim>\<open>None\<close>.
\<close>

definition class_wf :: "config_class \<Rightarrow> bool" where
  "class_wf cls \<longleftrightarrow>
     distinct (map fst (cls_fields cls)) \<and>
     list_all (\<lambda>(k, t, v). (case v of Some w \<Rightarrow> has_type t w | None \<Rightarrow> True) \<and>
        (has_type t JNull \<longrightarrow> v = Some JNull)) (cls_fields cls) \<and>
     list_all (\<lambda>(k, _). case map_of (cls_fields cls) k of
        None \<Rightarrow> False | Some (t, v) \<Rightarrow> v = None \<or> v = Some JNull) (field_validators cls)"

named_theorems class_defs \<open>the configuration classes\<close>

lemmas [class_defs] = RateLimitConfig_def CooldownConfig_def BlacklistConfig_def DurationConfig_def
  StarRatingConfig_def RangeConfig_def AttributeRangeConfig_def BPMConfig_def GenreConfig_def
  LanguageConfig_def ModeConfig_def DifficultyCountConfig_def StoryboardConfig_def VideoConfig_def
  TagsConfig_def LengthConfig_def NeverRankedConfig_def UniqueArtistTitleConfig_def CompositeConfig_def
  GenreIdLiteral_def LanguageIdLiteral_def RulesetLiteral_def

lemma leaf_classes_wf: "list_all (\<lambda>(_, cls). class_wf cls) leaf_schema_map"
  by (simp add: leaf_schema_map_def class_wf_def class_defs)

lemma CompositeConfig_wf: "class_wf (CompositeConfig parse)"
  by (simp add: class_wf_def class_defs)

lemma schema_map_wf: "map_of (RULE_CONFIG_SCHEMA_MAP parse) ty = Some cls \<Longrightarrow> class_wf cls"
  using leaf_classes_wf CompositeConfig_wf [of parse]
  by (auto simp: RULE_CONFIG_SCHEMA_MAP_def list_all_iff map_add_def
      dest!: map_of_SomeD split: option.splits if_splits)

section \<open>Accepted configurations\<close>

text \<open>An object of the class: every declared field is there with a value of its type.\<close>

definition well_typed_obj :: "config_class \<Rightarrow> dict \<Rightarrow> bool" where
  "well_typed_obj cls obj \<longleftrightarrow>
     map fst obj = map fst (cls_fields cls) \<and>
     (\<forall>(k, t, v) \<in> set (cls_fields cls). has_type t (dget obj k))"

lemma construct_parse: "construct parse cls given = Inr obj \<Longrightarrow> parse (cls_fields cls) given = Some obj"
  by (auto simp: construct_def res_simps split: option.splits)

lemma parse_well_typed:
  assumes "pydantic_sound parse" "class_wf cls" "parse (cls_fields cls) given = Some obj"
  shows "well_typed_obj cls obj"
proof -
  have d: "distinct (map fst (cls_fields cls))" using assms(2) by (simp add: class_wf_def)
  have s: "map fst obj = map fst (cls_fields cls)"
      "\<forall>(k, t, v) \<in> set (cls_fields cls). case map_of given k of
           None \<Rightarrow> v \<noteq> None \<and> map_of obj k = v
         | Some _ \<Rightarrow> (\<exists>w. map_of obj k = Some w \<and> has_type t w)"
    using assms(1,3) d unfolding pydantic_sound_def by blast+
  have "has_type t (dget obj k)" if m: "(k, t, v) \<in> set (cls_fields cls)" for k t v
    using s(2) m assms(2)
    by (fastforce simp: class_wf_def list_all_iff dget_def dget_or_def split: option.splits)
  then show ?thesis using s(1) by (auto simp: well_typed_obj_def)
qed

lemma map_of_dump:
  "distinct (map fst obj) \<Longrightarrow>
   map_of (model_dump_exclude_none obj) k = (if dget obj k = JNull then None else Some (dget obj k))"
proof (induction obj)
  case Nil
  then show ?case by (simp add: model_dump_exclude_none_def)
next
  case (Cons kv obj)
  moreover have "map_of (filter P obj) k = None" if "k \<notin> fst ` set obj" for P
    using that by (auto simp: map_of_eq_None_iff)
  ultimately show ?case
    by (cases kv) (auto simp: model_dump_exclude_none_def)
qed

lemma dget_dump [simp]:
  "distinct (map fst obj) \<Longrightarrow> dget (model_dump_exclude_none obj) k = dget obj k"
  by (simp add: dget_def [of "model_dump_exclude_none obj"] dget_or_def map_of_dump)

lemma dget_or_dump:
  "distinct (map fst obj) \<Longrightarrow>
   dget_or (model_dump_exclude_none obj) k v = (if dget obj k = JNull then v else dget obj k)"
  by (simp add: dget_or_def map_of_dump)

lemma well_typed_distinct: "class_wf cls \<Longrightarrow> well_typed_obj cls obj \<Longrightarrow> distinct (map fst obj)"
  by (simp add: class_wf_def well_typed_obj_def)

section \<open>Normalisation is idempotent\<close>

lemma fst_dump: "fst ` set (model_dump_exclude_none obj) \<subseteq> fst ` set obj"
  by (auto simp: model_dump_exclude_none_def)

lemma distinct_dump: "distinct (map fst obj) \<Longrightarrow> distinct (map fst (model_dump_exclude_none obj))"
  by (simp add: model_dump_exclude_none_def distinct_map_filter)

lemma well_typed_args:
  assumes wf: "class_wf cls" and wt: "well_typed_obj cls obj"
  shows "args_typed (cls_fields cls) (model_dump_exclude_none obj)"
proof -
  have "case map_of (model_dump_exclude_none obj) k of None \<Rightarrow> v \<noteq> None | Some w \<Rightarrow> has_type t w"
    if "(k, t, v) \<in> set (cls_fields cls)" for k t v
    using that wf wt well_typed_distinct [OF wf wt]
    by (fastforce simp: map_of_dump well_typed_obj_def class_wf_def list_all_iff)
  moreover have "fst ` set obj = fst ` set (cls_fields cls)"
    using wt unfolding well_typed_obj_def by (metis list.set_map)
  ultimately show ?thesis
    using fst_dump [of obj] by (auto simp: args_typed_def)
qed

lemma dict_by_keys: "distinct (map fst obj) \<Longrightarrow> map (\<lambda>k. (k, dget obj k)) (map fst obj) = obj"
proof (induction obj)
  case (Cons kv obj)
  then have "map (\<lambda>k. (k, dget (kv # obj) k)) (map fst obj) = map (\<lambda>k. (k, dget obj k)) (map fst obj)"
    using Cons.prems by (intro map_cong refl) (cases kv, auto)
  with Cons show ?case by (cases kv) (simp del: map_map)
qed simp

lemma fill_defaults_dump:
  assumes wf: "class_wf cls" and wt: "well_typed_obj cls obj"
  shows "fill_defaults (cls_fields cls) (model_dump_exclude_none obj) = obj"
proof -
  have dist: "distinct (map fst obj)"
    by (rule well_typed_distinct [OF wf wt])
  have "(case v of Some w \<Rightarrow> w | None \<Rightarrow> JNull) = JNull"
    if "(k, t, v) \<in> set (cls_fields cls)" "dget obj k = JNull" for k t v
    using that wf wt by (fastforce simp: well_typed_obj_def class_wf_def list_all_iff)
  then have "fill_defaults (cls_fields cls) (model_dump_exclude_none obj) =
      map (\<lambda>k. (k, dget obj k)) (map fst (cls_fields cls))"
    by (auto simp: fill_defaults_def map_of_dump [OF dist])
  also have "\<dots> = obj"
    using wt dict_by_keys [OF dist] by (simp add: well_typed_obj_def)
  finally show ?thesis .
qed

lemma revalidate_fields:
  assumes snd: "pydantic_sound parse" and wf: "class_wf cls"
    and p: "parse (cls_fields cls) given = Some obj" and v: "run_field_validators cls given obj = Inr ()"
  shows "run_field_validators cls (model_dump_exclude_none obj) obj = Inr ()"
proof -
  note wt = parse_well_typed [OF snd wf p]
  have "as_validation (validate (dget obj k)) = Inr ()"
    if m: "(k, validate) \<in> set (field_validators cls)" and nn: "dget obj k \<noteq> JNull" for k validate
  proof -
    obtain t w where f: "(k, t, w) \<in> set (cls_fields cls)" and w: "w = None \<or> w = Some JNull"
      using wf m by (force simp: class_wf_def list_all_iff dest: map_of_SomeD split: option.splits)
    have "map_of given k \<noteq> None"
      using snd wf p f w nn
      by (fastforce simp: pydantic_sound_def class_wf_def dget_def dget_or_def split: option.splits)
    then show ?thesis
      using v m by (auto simp: run_field_validators_def for_each_Inr dest!: bspec)
  qed
  then show ?thesis
    by (auto simp: run_field_validators_def for_each_Inr map_of_dump [OF well_typed_distinct [OF wf wt]])
qed

lemma construct_dump:
  assumes "pydantic_sound parse" "pydantic_keeps parse" "class_wf cls" "construct parse cls given = Inr obj"
  shows "construct parse cls (model_dump_exclude_none obj) = Inr obj"
proof -
  note p = construct_parse [OF assms(4)]
  note wt = parse_well_typed [OF assms(1,3) p]
  have "parse (cls_fields cls) (model_dump_exclude_none obj) = Some obj"
    using assms(2,3) well_typed_args [OF assms(3) wt] fill_defaults_dump [OF assms(3) wt]
      distinct_dump [OF well_typed_distinct [OF assms(3) wt]]
    by (auto simp: pydantic_keeps_def class_wf_def)
  moreover have "run_field_validators cls given obj = Inr ()"
    and "as_validation (model_validator cls obj) = Inr ()"
    using assms(4) p by (auto simp: construct_def res_simps)
  ultimately show ?thesis
    using revalidate_fields [OF assms(1,3) p] by (simp add: construct_def)
qed

lemma validate_rule_config_idem:
  assumes "pydantic_sound parse" "pydantic_keeps parse" "validate_rule_config parse ty cfg = Inr cfg'"
  shows "validate_rule_config parse ty cfg' = Inr cfg'"
  using assms construct_dump [OF assms(1,2) schema_map_wf]
  by (auto simp: validate_rule_config_def res_simps split: option.splits)

end
