(* ===== verification/Rule_Identity.thy ===== *)
theory Rule_Identity
  imports Rule_Beatmap Rule_Schema
begin

text \<open>
  Metadata providers (\<^verbatim>\<open>src/app/database/rules/validators/metadata/\<close>) and the two Tier-3
  validators that compare song identities (\<^verbatim>\<open>src/app/database/rules/validators/database/\<close>).

  Text is 8-bit (Latin-1). In that range the regular expressions \<^verbatim>\<open>\w\<close> and \<^verbatim>\<open>\s\<close>, \<^verbatim>\<open>str.strip\<close> and
  \<^verbatim>\<open>str.casefold\<close> are written out from Python's definition of them; the micro sign, whose folding
  lies outside the range, stands for its folding. The osu! search and the database query are
  parameters: what they return is an argument.
\<close>

section \<open>Character classes\<close>

definition code :: "char \<Rightarrow> nat" where
  "code c = of_char c"

text \<open>\<^verbatim>\<open>\w\<close>: alphanumeric (letters, digits, superscripts, fractions) or underscore.\<close>

definition is_word :: "char \<Rightarrow> bool" where
  "is_word c \<longleftrightarrow>
     (let n = code c in
      (48 \<le> n \<and> n \<le> 57) \<or> (65 \<le> n \<and> n \<le> 90) \<or> n = 95 \<or> (97 \<le> n \<and> n \<le> 122) \<or>
      n = 170 \<or> n = 178 \<or> n = 179 \<or> n = 181 \<or> n = 185 \<or> n = 186 \<or> (188 \<le> n \<and> n \<le> 190) \<or>
      (192 \<le> n \<and> n \<le> 255 \<and> n \<noteq> 215 \<and> n \<noteq> 247))"

definition is_upper :: "char \<Rightarrow> bool" where
  "is_upper c \<longleftrightarrow> (let n = code c in (65 \<le> n \<and> n \<le> 90) \<or> (192 \<le> n \<and> n \<le> 222 \<and> n \<noteq> 215))"

definition lower_char :: "char \<Rightarrow> char" where
  "lower_char c = (if is_upper c then char_of (code c + 32) else c)"

definition lower :: "string \<Rightarrow> string" where
  "lower s = map lower_char s"

text \<open>\<^verbatim>\<open>str.casefold\<close>: lower case, and the sharp s becomes \<^verbatim>\<open>ss\<close>.\<close>

definition casefold_char :: "char \<Rightarrow> string" where
  "casefold_char c = (if code c = 223 then ''ss'' else [lower_char c])"

definition casefold :: "string \<Rightarrow> string" where
  "casefold s = concat (map casefold_char s)"

section \<open>The version-marker pattern\<close>

text \<open>A pattern element: a literal character, compared without case, or an optional one.\<close>

datatype pat = Ch char | Opt char

text \<open>All the ways a sequence can match a prefix, as the remaining texts, greedy choice first.\<close>

fun match_seq :: "pat list \<Rightarrow> string \<Rightarrow> string list" where
  "match_seq [] s = [s]"
| "match_seq (Ch p # ps) [] = []"
| "match_seq (Ch p # ps) (c # s) = (if lower_char c = lower_char p then match_seq ps s else [])"
| "match_seq (Opt p # ps) [] = match_seq ps []"
| "match_seq (Opt p # ps) (c # s) =
     (if lower_char c = lower_char p then match_seq ps s else []) @ match_seq ps (c # s)"

abbreviation lit :: "string \<Rightarrow> pat list" where
  "lit s \<equiv> map Ch s"

definition version_markers :: "pat list list" where
  "version_markers =
     [lit ''TV Size'', lit ''Extended ver'' @ [Opt CHR ''.''], lit ''Remix'', lit ''Cut version'',
      lit ''Nightcore ver'' @ [Opt CHR ''.''], lit ''Radio Edit'', lit ''Album Edit'',
      lit ''Full ver'' @ [Opt CHR ''.''], lit ''Instrumental'', lit ''Single Version'', lit ''Radio Version'',
      lit ''7'' @ [Opt (CHR 0x22)] @ lit '' Version'', lit ''12'' @ [Opt (CHR 0x22)] @ lit '' Version'',
      lit ''Club Mix'', lit ''Dub Mix'', lit ''Acoustic Version'', lit ''Live Version'']"

text \<open>The whole pattern matches from here to the end of the text.\<close>

definition marker_at :: "string \<Rightarrow> bool" where
  "marker_at s \<longleftrightarrow>
     list_ex (\<lambda>m. list_ex (list_all is_space)
        (match_seq ([Opt CHR ''(''] @ m @ [Opt CHR '')'', Opt CHR ''.'']) s)) version_markers"

text \<open>\<^verbatim>\<open>_VERSION_MARKER_PATTERN.sub("", text)\<close>: cut at the leftmost place where it matches.\<close>

fun strip_marker :: "string \<Rightarrow> string" where
  "strip_marker [] = []"
| "strip_marker (c # s) = (if marker_at (c # s) then [] else c # strip_marker s)"

section \<open>Normalisation\<close>

definition remove_punctuation :: "string \<Rightarrow> string" where
  "remove_punctuation s = filter (\<lambda>c. is_word c \<or> is_space c \<or> c = CHR ''-'') s"

text \<open>\<^verbatim>\<open>_WHITESPACE_PATTERN.sub(" ", text)\<close>: every maximal run of white space becomes one blank.\<close>

fun collapse_space :: "string \<Rightarrow> string" where
  "collapse_space [] = []"
| "collapse_space (c # s) =
     (if is_space c then
        (case s of d # _ \<Rightarrow> if is_space d then collapse_space s else CHR '' '' # collapse_space s
         | [] \<Rightarrow> [CHR '' ''])
      else c # collapse_space s)"

definition normalize_text :: "string \<Rightarrow> bool \<Rightarrow> string" where
  "normalize_text s strip_version_markers =
     (let s1 = (if strip_version_markers then strip_marker s else s);
          s2 = remove_punctuation s1;
          s3 = strip (collapse_space s2)
      in casefold s3)"

definition or_else :: "string \<Rightarrow> string \<Rightarrow> string" where
  "or_else a b = (if a = [] then b else a)"

definition identity_form :: "bool \<Rightarrow> string \<Rightarrow> string \<Rightarrow> (string \<times> string) list" where
  "identity_form strip_vm a t =
     (let na = normalize_text a strip_vm; nt = normalize_text t strip_vm
      in if na \<noteq> [] \<and> nt \<noteq> [] then [(na, nt)] else [])"

definition normalized_identity_forms ::
  "string \<Rightarrow> string \<Rightarrow> string \<Rightarrow> string \<Rightarrow> bool \<Rightarrow> (string \<times> string) set" where
  "normalized_identity_forms art tit art_u tit_u strip_vm =
     set (identity_form strip_vm art tit @
          identity_form strip_vm (or_else art_u art) (or_else tit_u tit))"

section \<open>Providers\<close>

definition py_max_default :: "int list \<Rightarrow> int" where
  "py_max_default xs = (if xs = [] then 0 else py_max xs)"

definition song_identity_resolve :: "exec_context \<Rightarrow> dict" where
  "song_identity_resolve c =
     (case cx_beatmapset c of
        None \<Rightarrow>
          [(''artist'', JStr []), (''artist_unicode'', JStr []), (''title'', JStr []), (''title_unicode'', JStr []),
           (''normalized_artist'', JStr []), (''normalized_title'', JStr []), (''duration'', JInt 0)]
      | Some s \<Rightarrow>
          (let na = normalize_text (artist s) True; nt = normalize_text (title s) True;
               differs = (artist_unicode s \<noteq> [] \<and> artist_unicode s \<noteq> artist s);
               nau = (if differs then normalize_text (artist_unicode s) True else na);
               ntu = (if differs then normalize_text (title_unicode s) True else nt)
           in [(''artist'', JStr (artist s)), (''artist_unicode'', JStr (artist_unicode s)),
               (''title'', JStr (title s)), (''title_unicode'', JStr (title_unicode s)),
               (''normalized_artist'', JStr na), (''normalized_title'', JStr nt),
               (''normalized_artist_unicode'', JStr nau), (''normalized_title_unicode'', JStr ntu),
               (''duration'', JInt (py_max_default (map total_length (ctx_beatmaps c))))]))"

definition stats_of :: "string \<Rightarrow> (rat \<Rightarrow> json) \<Rightarrow> rat list \<Rightarrow> dict" where
  "stats_of suffix mk xs =
     [(''min_'' @ suffix, mk (py_min xs)), (''max_'' @ suffix, mk (py_max xs)),
      (''avg_'' @ suffix, JFloat (sum_list xs / of_nat (length xs)))]"

definition beatmap_stats_resolve :: "exec_context \<Rightarrow> dict" where
  "beatmap_stats_resolve c =
     (let bms = ctx_beatmaps c in
      if bms = [] then
        concat (map (\<lambda>x. [(''min_'' @ x, JFloat 0), (''max_'' @ x, JFloat 0), (''avg_'' @ x, JFloat 0)])
          [''sr'', ''ar'', ''od'', ''hp'', ''drain'', ''bpm'']) @
        [(''difficulty_count'', JInt 0), (''modes'', JList [])]
      else
        stats_of ''sr'' JFloat (map difficulty_rating bms) @ stats_of ''ar'' JFloat (map ar bms) @
        stats_of ''od'' JFloat (map accuracy bms) @ stats_of ''hp'' JFloat (map drain bms) @
        stats_of ''drain'' (\<lambda>q. JInt \<lfloor>q\<rfloor>) (map (\<lambda>b. of_int (hit_length b)) bms) @
        stats_of ''bpm'' JFloat (map bpm bms) @
        [(''difficulty_count'', JInt (int (length bms))),
         (''modes'', JList (map JStr (remdups (map mode bms))))])"

text \<open>The loop over the owners of every beatmap: identifiers once, in order of first appearance.\<close>

fun add_owner :: "(int list \<times> string list) \<Rightarrow> int option \<times> string option \<Rightarrow> int list \<times> string list" where
  "add_owner (ids, names) (owner_id, username) =
     (case owner_id of
        None \<Rightarrow> (ids, names)
      | Some i \<Rightarrow>
          if i \<in> set ids then (ids, names)
          else (ids @ [i],
                case username of None \<Rightarrow> names | Some u \<Rightarrow> if u = [] then names else names @ [u]))"

definition mappers_of :: "beatmap list \<Rightarrow> int list \<times> string list" where
  "mappers_of bms =
     foldl add_owner ([], []) (concat (map (\<lambda>b. case owners b of None \<Rightarrow> [] | Some os \<Rightarrow> os) bms))"

definition creator_identity_resolve :: "exec_context \<Rightarrow> dict" where
  "creator_identity_resolve c =
     (let (cid, cname) = (case cx_beatmapset c of None \<Rightarrow> (0, []) | Some s \<Rightarrow> (bs_user_id s, creator s));
          (ids, names) = mappers_of (ctx_beatmaps c)
      in [(''artist_creator_id'', JInt cid), (''artist_creator_username'', JStr cname),
          (''mapper_ids'', JList (map JInt ids)), (''mapper_usernames'', JList (map JStr names))])"

definition duration_version_markers :: "string list" where
  "duration_version_markers =
     [''TV Size'', ''Extended ver.'', ''Remix'', ''Cut version'', ''Nightcore ver.'', ''Radio Edit'', ''Album Edit'',
      ''Full ver.'', ''Instrumental'', ''Single Version'', ''Radio Version'', ''Club Mix'', ''Dub Mix'',
      ''Acoustic Version'', ''Live Version'']"

text \<open>\<^verbatim>\<open>needle in text\<close>\<close>

fun is_infix :: "string \<Rightarrow> string \<Rightarrow> bool" where
  "is_infix n [] = (n = [])"
| "is_infix n (c # s) = (take (length n) (c # s) = n \<or> is_infix n s)"

definition has_version_marker :: "beatmapset \<Rightarrow> bool" where
  "has_version_marker s =
     list_ex (\<lambda>m. is_infix (lower m) (lower (title s)) \<or> is_infix (lower m) (lower (title_unicode s)))
       duration_version_markers"

definition duration_resolve :: "exec_context \<Rightarrow> dict" where
  "duration_resolve c =
     (let d = JInt (py_max_default (map total_length (ctx_beatmaps c)))
      in [(''original_duration'', d), (''normalized_duration'', d),
          (''has_version_marker'', JBool (case cx_beatmapset c of None \<Rightarrow> False | Some s \<Rightarrow> has_version_marker s))])"

text \<open>The provider dispatch by name.\<close>

definition resolve_provider :: "string \<Rightarrow> exec_context \<Rightarrow> dict" where
  "resolve_provider name c =
     (if name = ''song_identity'' then song_identity_resolve c
      else if name = ''beatmap_stats'' then beatmap_stats_resolve c
      else if name = ''creator_identity'' then creator_identity_resolve c
      else if name = ''duration'' then duration_resolve c
      else [])"

section \<open>The canonical form of a normalised text\<close>

definition plain_char :: "char \<Rightarrow> bool" where
  "plain_char c \<longleftrightarrow> (is_word c \<and> \<not> is_upper c \<and> code c \<noteq> 223) \<or> c = CHR '' '' \<or> c = CHR ''-''"

fun single_blanks :: "string \<Rightarrow> bool" where
  "single_blanks (c # d # s) = (\<not> (c = CHR '' '' \<and> d = CHR '' '') \<and> single_blanks (d # s))"
| "single_blanks _ = True"

definition canonical :: "string \<Rightarrow> bool" where
  "canonical s \<longleftrightarrow>
     list_all plain_char s \<and> single_blanks s \<and> (s \<noteq> [] \<longrightarrow> hd s \<noteq> CHR '' '' \<and> last s \<noteq> CHR '' '')"

lemma code_less: "code c < 256"
  by (simp add: code_def)

lemma code_char_of [simp]: "n < 256 \<Longrightarrow> code (char_of n) = n"
  by (simp add: code_def)

lemma code_eq_iff: "code c = code d \<longleftrightarrow> c = d"
  by (simp add: code_def)

lemma space_iff: "c = CHR '' '' \<longleftrightarrow> code c = 32"
  by (simp add: code_eq_iff [symmetric]) (simp add: code_def)

lemma hyphen_iff: "c = CHR ''-'' \<longleftrightarrow> code c = 45"
  by (simp add: code_eq_iff [symmetric]) (simp add: code_def)

lemma is_space_code:
  "is_space c \<longleftrightarrow> (9 \<le> code c \<and> code c \<le> 13) \<or> (28 \<le> code c \<and> code c \<le> 32) \<or> code c = 133 \<or> code c = 160"
  by (simp add: is_space_def code_def Let_def)

lemma word_not_space: "is_word c \<Longrightarrow> \<not> is_space c"
  by (auto simp: is_word_def is_space_code Let_def)

lemma plain_space: "plain_char c \<Longrightarrow> is_space c \<longleftrightarrow> c = CHR '' ''"
  using word_not_space by (auto simp: plain_char_def is_space_code space_iff hyphen_iff)

lemma code_lower: "code (lower_char c) = (if is_upper c then code c + 32 else code c)"
  by (auto simp: lower_char_def is_upper_def Let_def)

lemma casefold_plain:
  assumes "is_word c \<or> c = CHR '' '' \<or> c = CHR ''-''" "d \<in> set (casefold_char c)"
  shows "plain_char d" and "d = CHR '' '' \<longleftrightarrow> c = CHR '' ''"
proof -
  consider "code c = 223" "d = CHR ''s''" | "code c \<noteq> 223" "d = lower_char c"
    using assms(2) by (auto simp: casefold_char_def split: if_splits)
  then have *: "plain_char d \<and> (d = CHR '' '' \<longleftrightarrow> c = CHR '' '')"
  proof cases
    case 1
    then show ?thesis
      by (auto simp: plain_char_def is_word_def is_upper_def code_def Let_def)
  next
    case 2
    then show ?thesis
      using assms(1)
      by (auto simp: plain_char_def is_word_def is_upper_def space_iff hyphen_iff code_lower Let_def)
  qed
  from * show "plain_char d" "d = CHR '' '' \<longleftrightarrow> c = CHR '' ''" by auto
qed

lemma casefold_Nil [simp]: "casefold [] = []"
  by (simp add: casefold_def)

lemma casefold_Cons: "casefold (c # s) = casefold_char c @ casefold s"
  by (simp add: casefold_def)

lemma casefold_char_nonempty [simp]: "casefold_char c \<noteq> []"
  by (simp add: casefold_char_def)

lemma casefold_canonical: "canonical s \<Longrightarrow> casefold s = s"
proof -
  have "casefold_char c = [c]" if "plain_char c" for c
    using that by (auto simp: plain_char_def casefold_char_def lower_char_def is_upper_def Let_def space_iff hyphen_iff)
  then have "list_all plain_char s \<Longrightarrow> casefold s = s" for s
    by (induction s) (auto simp: casefold_Cons)
  then show "canonical s \<Longrightarrow> casefold s = s" by (simp add: canonical_def)
qed

lemma single_blanks_append:
  "single_blanks (xs @ ys) \<longleftrightarrow>
     single_blanks xs \<and> single_blanks ys \<and>
     (xs \<noteq> [] \<and> ys \<noteq> [] \<longrightarrow> \<not> (last xs = CHR '' '' \<and> hd ys = CHR '' ''))"
  by (induction xs rule: single_blanks.induct) (cases ys; auto)+

lemma strip_infix: "\<exists>a b. s = a @ strip s @ b"
proof -
  have "s = takeWhile is_space s @ dropWhile is_space s" by simp
  moreover have "rev (dropWhile is_space s) =
      takeWhile is_space (rev (dropWhile is_space s)) @ dropWhile is_space (rev (dropWhile is_space s))"
    by simp
  then have "dropWhile is_space s = strip s @ rev (takeWhile is_space (rev (dropWhile is_space s)))"
    unfolding strip_def by (metis rev_append rev_rev_ident)
  ultimately show ?thesis by metis
qed

lemma strip_ends:
  assumes "strip s \<noteq> []"
  shows "\<not> is_space (hd (strip s))" "\<not> is_space (last (strip s))"
proof -
  let ?d = "dropWhile is_space s"
  have ne: "dropWhile is_space (rev ?d) \<noteq> []"
    using assms by (simp add: strip_def)
  then show "\<not> is_space (last (strip s))"
    using hd_dropWhile [OF ne] by (simp add: strip_def last_rev)
  have "?d \<noteq> []" using assms by (auto simp: strip_def simp del: dropWhile_eq_Nil_conv)
  then have "\<not> is_space (hd ?d)" by (rule hd_dropWhile)
  moreover have "hd (strip s) = hd ?d"
    using assms strip_infix [of ?d] \<open>?d \<noteq> []\<close> \<open>\<not> is_space (hd ?d)\<close>
    by (cases ?d) (auto simp: strip_def dropWhile_append hd_append split: if_splits)
  ultimately show "\<not> is_space (hd (strip s))" by simp
qed

definition text_char :: "char \<Rightarrow> bool" where
  "text_char c \<longleftrightarrow> is_word c \<or> c = CHR '' '' \<or> c = CHR ''-''"

lemma collapse_space_text:
  "list_all (\<lambda>c. is_word c \<or> is_space c \<or> c = CHR ''-'') s \<Longrightarrow> list_all text_char (collapse_space s)"
  by (induction s rule: collapse_space.induct) (auto simp: text_char_def split: list.splits)

lemma blank_is_space [simp]: "is_space (CHR '' '')"
  by (simp add: is_space_def)

lemma collapse_space_hd:
  "s \<noteq> [] \<Longrightarrow> collapse_space s \<noteq> [] \<and> (hd (collapse_space s) = CHR '' '' \<longleftrightarrow> is_space (hd s))"
proof (induction s rule: collapse_space.induct)
  case (2 c s)
  have "c \<noteq> CHR '' ''" if "\<not> is_space c"
    using that blank_is_space by metis
  with 2 show ?case
    by (cases s) auto
qed simp

lemma collapse_space_single: "single_blanks (collapse_space s)"
proof (induction s)
  case (Cons c s)
  have ext: "single_blanks (d # collapse_space s)"
    if "d = CHR '' '' \<Longrightarrow> s \<noteq> [] \<Longrightarrow> \<not> is_space (hd s)" for d
  proof (cases "s = []")
    case False
    then show ?thesis
      using that Cons.IH collapse_space_hd [OF False] by (cases "collapse_space s") simp_all
  qed simp
  show ?case
  proof (cases "is_space c \<and> s \<noteq> [] \<and> is_space (hd s)")
    case True
    then show ?thesis using Cons.IH by (cases s) auto
  next
    case False
    then have "collapse_space (c # s) = (if is_space c then CHR '' '' else c) # collapse_space s"
      by (cases s) auto
    moreover have "is_space c \<Longrightarrow> s \<noteq> [] \<Longrightarrow> \<not> is_space (hd s)" and "c = CHR '' '' \<Longrightarrow> is_space c"
      using False by simp_all
    ultimately show ?thesis
      using ext [of "if is_space c then CHR '' '' else c"] by (metis (full_types))
  qed
qed simp

lemma casefold_blank_ends:
  assumes "text_char c"
  shows "hd (casefold_char c) = CHR '' '' \<longleftrightarrow> c = CHR '' ''"
    and "last (casefold_char c) = CHR '' '' \<longleftrightarrow> c = CHR '' ''"
    and "single_blanks (casefold_char c)"
  using assms casefold_plain(2) [of c "lower_char c"]
  by (auto simp: casefold_char_def text_char_def split: if_splits) (auto simp: code_def)

lemma casefold_hd_last:
  "list_all text_char s \<Longrightarrow> s \<noteq> [] \<Longrightarrow>
   casefold s \<noteq> [] \<and> (hd (casefold s) = CHR '' '' \<longleftrightarrow> hd s = CHR '' '') \<and>
   (last (casefold s) = CHR '' '' \<longleftrightarrow> last s = CHR '' '')"
proof (induction s)
  case (Cons c s)
  then show ?case
    using casefold_blank_ends [of c] by (cases "s = []") (auto simp: casefold_Cons)
qed simp

lemma casefold_single: "list_all text_char s \<Longrightarrow> single_blanks s \<Longrightarrow> single_blanks (casefold s)"
proof (induction s)
  case (Cons c s)
  have "single_blanks s" using Cons.prems(2) by (cases s) auto
  with Cons show ?case
    using casefold_blank_ends [of c] casefold_hd_last [of s]
    by (cases s) (auto simp: casefold_Cons single_blanks_append)
qed simp

lemma normalize_text_canonical: "canonical (normalize_text s b)"
proof -
  let ?t = "strip (collapse_space (remove_punctuation (if b then strip_marker s else s)))"
  let ?u = "collapse_space (remove_punctuation (if b then strip_marker s else s))"
  obtain a z where sp: "?u = a @ ?t @ z" using strip_infix by blast
  have "list_all text_char ?u"
    by (rule collapse_space_text) (simp add: remove_punctuation_def list_all_iff)
  then have tx: "list_all text_char ?t" by (metis sp list_all_append)
  have "single_blanks ?t"
    using collapse_space_single [of "remove_punctuation (if b then strip_marker s else s)"]
    by (metis sp single_blanks_append)
  moreover have "hd ?t \<noteq> CHR '' ''" "last ?t \<noteq> CHR '' ''" if "?t \<noteq> []"
    using strip_ends [OF that] blank_is_space by metis+
  moreover have "list_all plain_char (casefold s)" if "list_all text_char s" for s
    using that casefold_plain(1) by (auto simp: casefold_def list_all_iff text_char_def)
  ultimately show ?thesis
    using tx casefold_single [OF tx] casefold_hd_last [OF tx]
    by (cases "?t = []") (auto simp: canonical_def normalize_text_def Let_def)
qed

lemma canonical_normalized:
  assumes "canonical s"
  shows "normalize_text s False = s"
proof -
  have plain: "list_all plain_char s" using assms by (simp add: canonical_def)
  have "remove_punctuation s = s"
    using plain by (induction s) (auto simp: remove_punctuation_def plain_char_def is_space_code code_def)
  moreover have "collapse_space s = s" if "list_all plain_char s" "single_blanks s" for s
    using that
    by (induction s rule: single_blanks.induct) (auto simp: plain_space)
  moreover have "strip s = s"
    using assms by (intro strip_id) (auto simp: canonical_def list_all_iff plain_space)
  ultimately show ?thesis
    using assms casefold_canonical [OF assms] by (simp add: normalize_text_def Let_def canonical_def)
qed

end
