(* ===== verification/Rule_Database.thy ===== *)
theory Rule_Database
  imports Rule_Identity
begin

text \<open>
  The Tier-3 validators \<^verbatim>\<open>never_ranked\<close> and \<^verbatim>\<open>unique_artist_title\<close>
  (\<^verbatim>\<open>src/app/database/rules/validators/database/\<close>). The osu! search and the rows of the uniqueness
  query are arguments: \<open>search status mode query page\<close> is what the API client returns for a page,
  \<open>rows qid\<close> the songs requested in a queue. A missing or null field of a song reads as the empty
  text, as the code's \<^verbatim>\<open>a or ""\<close> makes it.
\<close>

record song =
  s_artist :: string
  s_title :: string
  s_artist_unicode :: string
  s_title_unicode :: string

type_synonym osu_search = "string \<Rightarrow> int \<Rightarrow> string option \<Rightarrow> nat \<Rightarrow> song list res"

definition song_forms :: "bool \<Rightarrow> song \<Rightarrow> (string \<times> string) set" where
  "song_forms strip_vm s =
     normalized_identity_forms (s_artist s) (s_title s) (s_artist_unicode s) (s_title_unicode s) strip_vm"

fun text_of :: "json \<Rightarrow> string" where
  "text_of (JStr s) = s"
| "text_of _ = []"

definition identity_song :: "dict \<Rightarrow> song" where
  "identity_song d =
     \<lparr>s_artist = text_of (dget_or d ''artist'' (JStr [])), s_title = text_of (dget_or d ''title'' (JStr [])),
      s_artist_unicode = text_of (dget_or d ''artist_unicode'' (JStr [])),
      s_title_unicode = text_of (dget_or d ''title_unicode'' (JStr []))\<rparr>"

text \<open>The configuration classes declared beside the validators ignore unknown keys.\<close>

definition construct_ignoring :: "parser \<Rightarrow> config_class \<Rightarrow> dict \<Rightarrow> dict res" where
  "construct_ignoring parse cls given =
     construct parse cls (filter (\<lambda>(k, _). k \<in> fst ` set (cls_fields cls)) given)"

definition validate_ruleset :: "json \<Rightarrow> unit res" where
  "validate_ruleset v =
     (if v \<in> {JStr ''osu'', JStr ''taiko'', JStr ''fruits'', JStr ''mania''} then Inr () else value_error)"

definition NeverRankedCheckConfig :: config_class where
  "NeverRankedCheckConfig =
     \<lparr>cls_fields = [dflt ''ruleset'' TStr (JStr ''osu''), dflt ''normalize_versions'' TBool (JBool True)],
      field_validators = [(''ruleset'', validate_ruleset)], model_validator = no_check\<rparr>"

text \<open>\<^verbatim>\<open>Ruleset.to_mode_int\<close>\<close>

definition to_mode_int :: "string \<Rightarrow> int res" where
  "to_mode_int r =
     (if r = ''osu'' then Inr 0 else if r = ''taiko'' then Inr 1
      else if r = ''fruits'' then Inr 2 else if r = ''mania'' then Inr 3
      else Inl (PyExc ''ValueError''))"

definition MAX_SEARCH_PAGES :: nat where
  "MAX_SEARCH_PAGES = 5"

text \<open>The paging loop: an empty page ends it, a page with a matching song is a violation.\<close>

fun search_pages :: "(nat \<Rightarrow> song list res) \<Rightarrow> (song \<Rightarrow> bool) \<Rightarrow> nat list \<Rightarrow> bool res" where
  "search_pages fetch hit [] = Inr False"
| "search_pages fetch hit (page # pages) =
     bindR (fetch page) (\<lambda>songs.
       if songs = [] then Inr False
       else if list_ex hit songs then Inr True
       else search_pages fetch hit pages)"

definition identity_query :: "song \<Rightarrow> string option" where
  "identity_query s =
     (let q = strip (join '' '' (filter (\<lambda>p. p \<noteq> []) [s_artist s, s_title s]))
      in if q = [] then None else Some q)"

definition never_ranked_check :: "parser \<Rightarrow> osu_search \<Rightarrow> unit step" where
  "never_ranked_check parse search =
     readS (\<lambda>c. bindS (liftS (with_dict (config c) (construct_ignoring parse NeverRankedCheckConfig))) (\<lambda>cfg.
        bindS (get_metadata resolve_provider ''song_identity'') (\<lambda>identity.
          let song = identity_song identity; strip_vm = truthy (dget cfg ''normalize_versions'');
              forms = song_forms strip_vm song; ruleset = text_of (dget cfg ''ruleset'') in
          if forms = {} then raiseS (RuleViolationError ''never_ranked'' IdentityUnresolved)
          else liftS (bindR (to_mode_int ruleset) (\<lambda>mode_int.
            bindR (search_pages (search ''ranked,approved,qualified,loved'' mode_int (identity_query song))
                     (\<lambda>s. forms \<inter> song_forms strip_vm s \<noteq> {}) [1..<MAX_SEARCH_PAGES + 1]) (\<lambda>found.
              if found then Inl (RuleViolationError ''never_ranked'' (AlreadyRanked (s_artist song) (s_title song) ruleset))
              else Inr ()))))))"

definition UniqueArtistTitleCheckConfig :: config_class where
  "UniqueArtistTitleCheckConfig =
     \<lparr>cls_fields = [dflt ''normalize_versions'' TBool (JBool True)], field_validators = [],
      model_validator = no_check\<rparr>"

text \<open>
  The songs requested in a queue with the beatmapset they belong to, in the order the query
  gives them; the first other set that shares an identity is reported.
\<close>

fun first_duplicate :: "(song \<Rightarrow> bool) \<Rightarrow> int option \<Rightarrow> (song \<times> int) list \<Rightarrow> int option" where
  "first_duplicate hit current [] = None"
| "first_duplicate hit current ((s, bid) # rows) =
     (if current = Some bid then first_duplicate hit current rows
      else if hit s then Some bid else first_duplicate hit current rows)"

definition unique_artist_title_check :: "parser \<Rightarrow> (int \<Rightarrow> (song \<times> int) list) \<Rightarrow> unit step" where
  "unique_artist_title_check parse rows =
     readS (\<lambda>c. bindS (liftS (with_dict (config c) (construct_ignoring parse UniqueArtistTitleCheckConfig))) (\<lambda>cfg.
        bindS (get_metadata resolve_provider ''song_identity'') (\<lambda>identity.
          let song = identity_song identity; strip_vm = truthy (dget cfg ''normalize_versions'');
              forms = song_forms strip_vm song in
          if forms = {} then raiseS (RuleViolationError ''unique_artist_title'' IdentityUnresolved)
          else if \<not> has_session c then raiseS (RuleViolationError ''unique_artist_title'' SessionUnavailable)
          else case first_duplicate (\<lambda>s. forms \<inter> song_forms strip_vm s \<noteq> {})
                      (map_option bs_id (cx_beatmapset c)) (rows (queue_id c)) of
                 None \<Rightarrow> retS ()
               | Some bid \<Rightarrow> raiseS (RuleViolationError ''unique_artist_title''
                                     (AlreadyRequested (s_artist song) (s_title song) bid)))))"

section \<open>Properties\<close>

lemma first_duplicate_None:
  "first_duplicate hit cur rows = None \<longleftrightarrow> (\<forall>(s, bid) \<in> set rows. cur \<noteq> Some bid \<longrightarrow> \<not> hit s)"
  by (induction hit cur rows rule: first_duplicate.induct) auto

lemma first_duplicate_Some:
  "first_duplicate hit cur rows = Some bid \<Longrightarrow> \<exists>s. (s, bid) \<in> set rows \<and> hit s \<and> cur \<noteq> Some bid"
  by (induction hit cur rows rule: first_duplicate.induct) (auto split: if_splits)

text \<open>The pages looked at: those before the first empty one.\<close>

lemma search_pages_total:
  assumes "\<And>p. p \<in> set pages \<Longrightarrow> fetch p = Inr (res p)"
  shows "search_pages fetch hit pages =
     Inr (\<exists>p \<in> set (takeWhile (\<lambda>p. res p \<noteq> []) pages). \<exists>s \<in> set (res p). hit s)"
  using assms by (induction pages) (auto simp: list_ex_iff)

lemma resolve_provider_pure: "resolve_pure resolve_provider"
  by (simp add: resolve_pure_def resolve_provider_def song_identity_resolve_def beatmap_stats_resolve_def
      creator_identity_resolve_def duration_resolve_def ctx_beatmaps_def cong: option.case_cong)

definition set_song :: "beatmapset \<Rightarrow> song" where
  "set_song s = \<lparr>s_artist = artist s, s_title = title s, s_artist_unicode = artist_unicode s,
     s_title_unicode = title_unicode s\<rparr>"

lemma identity_song_of_set:
  "cx_beatmapset c = Some s \<Longrightarrow> identity_song (song_identity_resolve c) = set_song s"
  by (simp add: identity_song_def song_identity_resolve_def set_song_def Let_def)

lemma get_song_identity:
  assumes "cache_coherent resolve_provider c" "metadata_providers c = Some names" "''song_identity'' \<in> set names"
  obtains c' where "get_metadata resolve_provider ''song_identity'' c = (Inr (song_identity_resolve c), c')"
    and "c' = c\<lparr>provider_cache := provider_cache c'\<rparr>"
proof (rule that)
  show "get_metadata resolve_provider ''song_identity'' c =
      (Inr (song_identity_resolve c), snd (get_metadata resolve_provider ''song_identity'' c))"
    using get_metadata_fst [OF assms] by (simp add: resolve_provider_def prod_eq_iff)
qed (rule get_metadata_frame)

text \<open>The whole contract of the uniqueness rule on a parsed configuration.\<close>

lemma unique_check_iff:
  assumes coh: "cache_coherent resolve_provider c" "metadata_providers c = Some names" "''song_identity'' \<in> set names"
    and cfg: "config c = JDict d" "construct_ignoring parse UniqueArtistTitleCheckConfig d = Inr cfg"
    and s: "cx_beatmapset c = Some s" "has_session c"
    and vm: "strip_vm = truthy (dget cfg ''normalize_versions'')"
  shows "fst (unique_artist_title_check parse rows c) = Inr () \<longleftrightarrow>
     song_forms strip_vm (set_song s) \<noteq> {} \<and>
     (\<forall>(t, bid) \<in> set (rows (queue_id c)). bid \<noteq> bs_id s \<longrightarrow>
        song_forms strip_vm (set_song s) \<inter> song_forms strip_vm t = {})"
proof -
  obtain c' where gm: "get_metadata resolve_provider ''song_identity'' c = (Inr (song_identity_resolve c), c')"
    and c': "c' = c\<lparr>provider_cache := provider_cache c'\<rparr>"
    using get_song_identity [OF coh] by blast
  have "queue_id c' = queue_id c" "cx_beatmapset c' = cx_beatmapset c" "has_session c' = has_session c"
    by (subst c', simp)+
  then have "fst (unique_artist_title_check parse rows c) = Inr () \<longleftrightarrow>
      song_forms strip_vm (set_song s) \<noteq> {} \<and>
      first_duplicate (\<lambda>t. song_forms strip_vm (set_song s) \<inter> song_forms strip_vm t \<noteq> {})
        (Some (bs_id s)) (rows (queue_id c)) = None"
    using gm cfg s vm
    by (simp add: unique_artist_title_check_def bindS_def identity_song_of_set Let_def split: option.splits)
  then show ?thesis
    by (auto simp: first_duplicate_None)
qed

text \<open>
  The contract of the ranked-song rule when every page asked for is answered: it passes exactly
  when the identity is resolved and no song on the pages before the first empty one matches.
\<close>

lemma never_ranked_iff:
  assumes coh: "cache_coherent resolve_provider c" "metadata_providers c = Some names" "''song_identity'' \<in> set names"
    and cfg: "config c = JDict d" "construct_ignoring parse NeverRankedCheckConfig d = Inr cfg"
    and s: "cx_beatmapset c = Some s"
    and m: "to_mode_int (text_of (dget cfg ''ruleset'')) = Inr m"
    and ans: "\<And>p. 1 \<le> p \<Longrightarrow> p \<le> 5 \<Longrightarrow>
       search ''ranked,approved,qualified,loved'' m (identity_query (set_song s)) p = Inr (pages p)"
    and vm: "strip_vm = truthy (dget cfg ''normalize_versions'')"
  shows "fst (never_ranked_check parse search c) = Inr () \<longleftrightarrow>
     song_forms strip_vm (set_song s) \<noteq> {} \<and>
     (\<forall>p \<in> set (takeWhile (\<lambda>p. pages p \<noteq> []) [1..<6]). \<forall>t \<in> set (pages p).
        song_forms strip_vm (set_song s) \<inter> song_forms strip_vm t = {})"
proof -
  obtain c' where gm: "get_metadata resolve_provider ''song_identity'' c = (Inr (song_identity_resolve c), c')"
    using get_song_identity [OF coh] by blast
  have sp: "search_pages (search ''ranked,approved,qualified,loved'' m (identity_query (set_song s))) hit [1..<6] =
      Inr (\<exists>p \<in> set (takeWhile (\<lambda>p. pages p \<noteq> []) [1..<6]). \<exists>t \<in> set (pages p). hit t)" for hit
    by (rule search_pages_total) (auto intro!: ans)
  show ?thesis
    using gm cfg s m vm sp
    by (auto simp: never_ranked_check_def bindS_def identity_song_of_set Let_def MAX_SEARCH_PAGES_def
        simp del: upt_Suc split: if_splits)
qed

end
