(* ===== verification/Calendar.thy ===== *)
theory Calendar
  imports Py_Text
begin

text \<open>
  The part of \<^verbatim>\<open>datetime\<close> the rate limiter uses: an aware UTC timestamp, its proleptic Gregorian
  ordinal as CPython computes it, \<^verbatim>\<open>weekday()\<close>, \<^verbatim>\<open>timestamp()\<close>, and the truncation of an instant
  to the period bucket it falls in (\<^verbatim>\<open>_truncate_to_period\<close>, \<^verbatim>\<open>_period_duration_seconds\<close> of
  \<^verbatim>\<open>src/app/database/rules/validators/rate_limit.py\<close>). The lemmas relate the bucket, the instant
  and the lifetime given to the bucket's counter.
\<close>

record datetime =
  year :: int
  month :: int
  day :: int
  hour :: int
  minute :: int
  second :: int
  microsecond :: int

definition is_leap :: "int \<Rightarrow> bool" where
  "is_leap y \<longleftrightarrow> y mod 4 = 0 \<and> (y mod 100 \<noteq> 0 \<or> y mod 400 = 0)"

definition days_before_year :: "int \<Rightarrow> int" where
  "days_before_year y = (y - 1) * 365 + (y - 1) div 4 - (y - 1) div 100 + (y - 1) div 400"

definition month_offsets :: "int list" where
  "month_offsets = [0, 31, 59, 90, 120, 151, 181, 212, 243, 273, 304, 334, 365]"

definition days_before_month :: "int \<Rightarrow> int \<Rightarrow> int" where
  "days_before_month y m = month_offsets ! nat (m - 1) + of_bool (2 < m \<and> is_leap y)"

definition days_in_month :: "int \<Rightarrow> int \<Rightarrow> int" where
  "days_in_month y m = days_before_month y (m + 1) - days_before_month y m"

definition toordinal :: "datetime \<Rightarrow> int" where
  "toordinal d = days_before_year (year d) + days_before_month (year d) (month d) + day d"

definition weekday :: "datetime \<Rightarrow> int" where
  "weekday d = (toordinal d + 6) mod 7"

definition valid_datetime :: "datetime \<Rightarrow> bool" where
  "valid_datetime d \<longleftrightarrow>
     1 \<le> year d \<and> 1 \<le> month d \<and> month d \<le> 12 \<and>
     1 \<le> day d \<and> day d \<le> days_in_month (year d) (month d) \<and>
     0 \<le> hour d \<and> hour d < 24 \<and> 0 \<le> minute d \<and> minute d < 60 \<and>
     0 \<le> second d \<and> second d < 60 \<and> 0 \<le> microsecond d \<and> microsecond d < 1000000"

text \<open>Midnight of a day as a POSIX timestamp; 719163 is the ordinal of 1970-01-01.\<close>

definition midnight_ts :: "int \<Rightarrow> int" where
  "midnight_ts n = (n - 719163) * 86400"

definition seconds_of_day :: "datetime \<Rightarrow> int" where
  "seconds_of_day d = hour d * 3600 + minute d * 60 + second d"

definition timestamp_us :: "datetime \<Rightarrow> int" where
  "timestamp_us d = (midnight_ts (toordinal d) + seconds_of_day d) * 1000000 + microsecond d"

text \<open>\<^verbatim>\<open>int(now.timestamp())\<close>, rounding down as all instants in question are after 1970.\<close>

definition timestamp_s :: "datetime \<Rightarrow> int" where
  "timestamp_s d = timestamp_us d div 1000000"

section \<open>Period buckets\<close>

definition truncate_to_period :: "datetime \<Rightarrow> string \<Rightarrow> int res" where
  "truncate_to_period now period =
     (if period = ''day'' then Inr (midnight_ts (toordinal now))
      else if period = ''week'' then Inr (midnight_ts (toordinal now - weekday now))
      else if period = ''month'' then Inr (midnight_ts (toordinal (now\<lparr>day := 1\<rparr>)))
      else if period = ''year'' then Inr (midnight_ts (toordinal (now\<lparr>month := 1, day := 1\<rparr>)))
      else (case py_int period of
              Inl e \<Rightarrow> Inl (PyExc ''ValueError'')
            | Inr period_seconds \<Rightarrow>
                if period_seconds \<le> 0 then Inl (PyExc ''ValueError'')
                else (let bucket = timestamp_us now div (1000000 * period_seconds)
                      in Inr (bucket * period_seconds))))"

definition period_duration_seconds :: "string \<Rightarrow> int" where
  "period_duration_seconds period =
     (if period = ''day'' then 86400
      else if period = ''week'' then 604800
      else if period = ''month'' then 2592000
      else if period = ''year'' then 31536000
      else (case py_int period of Inl e \<Rightarrow> 604800 | Inr n \<Rightarrow> n))"

lemma py_int_words [simp]:
  "py_int ''day'' = Inl (PyExc ''ValueError'')"
  "py_int ''week'' = Inl (PyExc ''ValueError'')"
  "py_int ''month'' = Inl (PyExc ''ValueError'')"
  "py_int ''year'' = Inl (PyExc ''ValueError'')"
  by (simp_all add: py_int_def strip_def is_space_def parse_nat_def is_digit_def)

lemma seconds_of_day_bounds:
  "valid_datetime d \<Longrightarrow> 0 \<le> seconds_of_day d \<and> seconds_of_day d < 86400"
  by (auto simp: valid_datetime_def seconds_of_day_def)

lemma div_million: "0 \<le> (m :: int) \<Longrightarrow> m < 1000000 \<Longrightarrow> (x * 1000000 + m) div 1000000 = x"
  by (simp add: div_pos_pos_trivial)

lemma timestamp_s_eq:
  "valid_datetime d \<Longrightarrow> timestamp_s d = midnight_ts (toordinal d) + seconds_of_day d"
  unfolding timestamp_s_def timestamp_us_def
  by (rule div_million) (auto simp: valid_datetime_def)

lemma numeric_bucket:
  assumes "0 < (p :: int)"
  shows "t div (1000000 * p) = (t div 1000000) div p"
  using assms by (simp add: zdiv_zmult2_eq)

lemma bucket_bounds:
  assumes "0 < (p :: int)"
  shows "s div p * p \<le> s \<and> s < s div p * p + p"
proof -
  have "s div p * p + s mod p = s" by simp
  moreover have "0 \<le> s mod p" "s mod p < p" using assms by auto
  ultimately show ?thesis by linarith
qed

text \<open>
  For the day, week and numeric periods the bucket is an interval as long as the lifetime given
  to its counter, and the instant lies in it.
\<close>

lemma truncate_covers:
  assumes v: "valid_datetime now"
    and p: "period \<noteq> ''month''" "period \<noteq> ''year''"
    and t: "truncate_to_period now period = Inr b"
  shows "b \<le> timestamp_s now \<and> timestamp_s now < b + period_duration_seconds period"
proof -
  consider "period = ''day''" | "period = ''week''" |
    (num) n where "period \<notin> {''day'', ''week''}" "py_int period = Inr n" "0 < n"
      "b = timestamp_us now div (1000000 * n) * n"
    using t p by (auto simp: truncate_to_period_def Let_def split: if_splits sum.splits)
  then show ?thesis
  proof cases
    case 1
    with t v seconds_of_day_bounds [OF v] show ?thesis
      by (auto simp: truncate_to_period_def period_duration_seconds_def timestamp_s_eq)
  next
    case 2
    have "0 \<le> weekday now" "weekday now < 7" by (auto simp: weekday_def)
    with 2 t v seconds_of_day_bounds [OF v] show ?thesis
      by (auto simp: truncate_to_period_def period_duration_seconds_def timestamp_s_eq midnight_ts_def)
  next
    case num
    with bucket_bounds [OF num(3), of "timestamp_s now"] p show ?thesis
      by (simp add: period_duration_seconds_def numeric_bucket timestamp_s_def)
  qed
qed

text \<open>A bucket is aligned: every instant of the same day has the same day bucket, and so on.\<close>

lemma truncate_day_same:
  "toordinal d = toordinal e \<Longrightarrow> truncate_to_period d ''day'' = truncate_to_period e ''day''"
  by (simp add: truncate_to_period_def)

lemma truncate_month_same:
  "year d = year e \<Longrightarrow> month d = month e \<Longrightarrow>
   truncate_to_period d ''month'' = truncate_to_period e ''month''"
  by (simp add: truncate_to_period_def toordinal_def)

lemma truncate_month_le:
  "valid_datetime now \<Longrightarrow> truncate_to_period now ''month'' = Inr b \<Longrightarrow> b \<le> timestamp_s now"
  using seconds_of_day_bounds [of now]
  by (auto simp: truncate_to_period_def timestamp_s_eq midnight_ts_def toordinal_def valid_datetime_def)

end
