(* ===== verification/Redis_Store.thy ===== *)
theory Redis_Store
  imports Py_Text "HOL-Library.AList"
begin

text \<open>
  The Redis commands the code uses, as a parameter. Redis is an external service: a definition
  that talks to it takes the record of its commands, over an abstract server state \<open>'r\<close>. What the
  theorems rely on is the documented effect of the commands, stated by \<open>redis_laws\<close>: \<^verbatim>\<open>GET\<close>, the
  conditional \<^verbatim>\<open>SET .. NX EX\<close>, \<^verbatim>\<open>INCR\<close>, \<^verbatim>\<open>DECR\<close>, \<^verbatim>\<open>EXPIRE\<close>, \<^verbatim>\<open>DEL\<close> and \<^verbatim>\<open>TTL\<close> on string keys, and the hash
  commands \<^verbatim>\<open>HSET\<close>, \<^verbatim>\<open>HGETALL\<close>, \<^verbatim>\<open>EXISTS\<close>. \<open>mem_redis\<close>, a store held in an association list, fulfils
  them. Key names are those of \<^verbatim>\<open>src/app/redis/enums.py\<close>.
\<close>

record 'r redis_ops =
  rget :: "'r \<Rightarrow> string \<Rightarrow> string option"
  rttl :: "'r \<Rightarrow> string \<Rightarrow> int option"
  rhgetall :: "'r \<Rightarrow> string \<Rightarrow> (string \<times> string) list"
  rexists :: "'r \<Rightarrow> string \<Rightarrow> bool"
  rset_nx_ex :: "string \<Rightarrow> string \<Rightarrow> json \<Rightarrow> ('r, bool) act"
  rset_ex :: "string \<Rightarrow> string \<Rightarrow> int \<Rightarrow> ('r, unit) act"
  rincr :: "string \<Rightarrow> ('r, int) act"
  rdecr :: "string \<Rightarrow> ('r, int) act"
  rexpire :: "string \<Rightarrow> int \<Rightarrow> ('r, unit) act"
  rdelete :: "string \<Rightarrow> ('r, unit) act"
  rhset :: "string \<Rightarrow> (string \<times> string) list \<Rightarrow> ('r, unit) act"
  rpublish :: "string \<Rightarrow> string \<Rightarrow> ('r, unit) act"

text \<open>The counter a key holds: an absent key counts as 0.\<close>

definition counter_at :: "'r redis_ops \<Rightarrow> 'r \<Rightarrow> string \<Rightarrow> int option" where
  "counter_at R s k =
     (case rget R s k of None \<Rightarrow> Some 0 | Some v \<Rightarrow> (case py_int v of Inr n \<Rightarrow> Some n | Inl _ \<Rightarrow> None))"

text \<open>Two states that agree on the strings and time-to-live of all keys but one, and on all hashes.\<close>

definition same_but :: "'r redis_ops \<Rightarrow> string \<Rightarrow> 'r \<Rightarrow> 'r \<Rightarrow> bool" where
  "same_but R k s s' \<longleftrightarrow>
     (\<forall>k'. k' \<noteq> k \<longrightarrow> rget R s' k' = rget R s k' \<and> rttl R s' k' = rttl R s k' \<and>
        rhgetall R s' k' = rhgetall R s k' \<and> rexists R s' k' = rexists R s k')"

definition set_nx_law :: "'r redis_ops \<Rightarrow> bool" where
  "set_nx_law R \<longleftrightarrow>
     (\<forall>s k v t. 0 < t \<longrightarrow>
        (if rexists R s k then rset_nx_ex R k v (JInt t) s = (Inr False, s)
         else \<exists>s'. rset_nx_ex R k v (JInt t) s = (Inr True, s') \<and> rget R s' k = Some v \<and>
                rttl R s' k = Some t \<and> same_but R k s s'))"

text \<open>\<^verbatim>\<open>INCR\<close> (\<open>d = 1\<close>) and \<^verbatim>\<open>DECR\<close> (\<open>d = -1\<close>): the time to live stays.\<close>

definition counter_law :: "'r redis_ops \<Rightarrow> int \<Rightarrow> (string \<Rightarrow> ('r, int) act) \<Rightarrow> bool" where
  "counter_law R d cmd \<longleftrightarrow>
     (\<forall>s k n. counter_at R s k = Some n \<longrightarrow> (rget R s k = None \<longrightarrow> \<not> rexists R s k) \<longrightarrow>
        (\<exists>s'. cmd k s = (Inr (n + d), s') \<and> rget R s' k = Some (py_str (n + d)) \<and>
           rttl R s' k = rttl R s k \<and> same_but R k s s'))"

definition expire_law :: "'r redis_ops \<Rightarrow> bool" where
  "expire_law R \<longleftrightarrow>
     (\<forall>s k t. 0 < t \<longrightarrow>
        (\<exists>s'. rexpire R k t s = (Inr (), s') \<and> rget R s' k = rget R s k \<and>
           rexists R s' k = rexists R s k \<and> (rexists R s k \<longrightarrow> rttl R s' k = Some t) \<and> same_but R k s s'))"

definition delete_law :: "'r redis_ops \<Rightarrow> bool" where
  "delete_law R \<longleftrightarrow>
     (\<forall>s k. \<exists>s'. rdelete R k s = (Inr (), s') \<and> rget R s' k = None \<and> rttl R s' k = None \<and>
        \<not> rexists R s' k \<and> same_but R k s s')"

definition redis_string_laws :: "'r redis_ops \<Rightarrow> bool" where
  "redis_string_laws R \<longleftrightarrow>
     set_nx_law R \<and> counter_law R 1 (rincr R) \<and> counter_law R (- 1) (rdecr R) \<and> expire_law R \<and>
     delete_law R \<and> (\<forall>s k. rget R s k \<noteq> None \<longrightarrow> rexists R s k) \<and>
     (\<forall>s k. \<not> rexists R s k \<longrightarrow> rttl R s k = None)"

text \<open>\<^verbatim>\<open>Namespace.X.hash_name(suffix)\<close>\<close>

definition hash_name :: "string \<Rightarrow> string \<Rightarrow> string" where
  "hash_name ns suffix = ns @ '':'' @ suffix"

definition QUEUE_RULE_RATE_LIMIT :: string where
  "QUEUE_RULE_RATE_LIMIT = ''queue_rule_rate_limit''"

definition QUEUE_RULE_COOLDOWN :: string where
  "QUEUE_RULE_COOLDOWN = ''queue_rule_cooldown''"

definition QUEUE_REQUEST_HANDLER_TASK :: string where
  "QUEUE_REQUEST_HANDLER_TASK = ''queue_request_handler_task''"

definition LOCK :: string where
  "LOCK = ''lock''"

lemma hash_name_inj [simp]: "hash_name ns a = hash_name ns b \<longleftrightarrow> a = b"
  by (simp add: hash_name_def)

lemma hash_name_ns_inj:
  assumes "CHR '':'' \<notin> set ns" "CHR '':'' \<notin> set ns'" "ns \<noteq> ns'"
  shows "hash_name ns a \<noteq> hash_name ns' b"
  using append_sep_inj [OF assms(1,2)] assms(3) by (simp add: hash_name_def)

section \<open>A store that fulfils the laws\<close>

datatype entry = Str string | Hash "(string \<times> string) list"

type_synonym mem_store = "(string \<times> entry \<times> int option) list"

definition mem_put :: "string \<Rightarrow> entry \<Rightarrow> int option \<Rightarrow> mem_store \<Rightarrow> mem_store" where
  "mem_put k e t s = (k, e, t) # filter (\<lambda>(k', _). k' \<noteq> k) s"

definition mem_get :: "mem_store \<Rightarrow> string \<Rightarrow> string option" where
  "mem_get s k = (case map_of s k of Some (Str v, _) \<Rightarrow> Some v | _ \<Rightarrow> None)"

definition mem_ttl :: "mem_store \<Rightarrow> string \<Rightarrow> int option" where
  "mem_ttl s k = (case map_of s k of Some (_, t) \<Rightarrow> t | None \<Rightarrow> None)"

definition mem_hgetall :: "mem_store \<Rightarrow> string \<Rightarrow> (string \<times> string) list" where
  "mem_hgetall s k = (case map_of s k of Some (Hash h, _) \<Rightarrow> AList.clearjunk h | _ \<Rightarrow> [])"

definition mem_add :: "int \<Rightarrow> string \<Rightarrow> (mem_store, int) act" where
  "mem_add d k s =
     (case map_of s k of
        None \<Rightarrow> (Inr d, mem_put k (Str (py_str d)) None s)
      | Some (Str v, t) \<Rightarrow>
          (case py_int v of
             Inr n \<Rightarrow> (Inr (n + d), mem_put k (Str (py_str (n + d))) t s)
           | Inl _ \<Rightarrow> (Inl (PyExc ''ResponseError''), s))
      | Some (Hash _, _) \<Rightarrow> (Inl (PyExc ''ResponseError''), s))"

definition hash_update :: "(string \<times> string) list \<Rightarrow> (string \<times> string) list \<Rightarrow> (string \<times> string) list" where
  "hash_update new old = new @ filter (\<lambda>(k, _). k \<notin> fst ` set new) old"

definition mem_redis :: "mem_store redis_ops" where
  "mem_redis =
     \<lparr>rget = mem_get, rttl = mem_ttl, rhgetall = mem_hgetall,
      rexists = (\<lambda>s k. map_of s k \<noteq> None),
      rset_nx_ex = (\<lambda>k v ex s.
        case ex of
          JInt t \<Rightarrow> if map_of s k \<noteq> None then (Inr False, s) else (Inr True, mem_put k (Str v) (Some t) s)
        | _ \<Rightarrow> (Inl (PyExc ''DataError''), s)),
      rset_ex = (\<lambda>k v t s. (Inr (), mem_put k (Str v) (Some t) s)),
      rincr = mem_add 1,
      rdecr = mem_add (- 1),
      rexpire = (\<lambda>k t s. (Inr (), case map_of s k of None \<Rightarrow> s | Some (e, _) \<Rightarrow> mem_put k e (Some t) s)),
      rdelete = (\<lambda>k s. (Inr (), filter (\<lambda>(k', _). k' \<noteq> k) s)),
      rhset = (\<lambda>k new s.
        if mem_get s k \<noteq> None then (Inl (PyExc ''ResponseError''), s)
        else (Inr (), mem_put k (Hash (hash_update new (mem_hgetall s k))) (mem_ttl s k) s)),
      rpublish = (\<lambda>_ _ s. (Inr (), s))\<rparr>"

lemma map_of_mem_put: "map_of (mem_put k e t s) k' = (if k' = k then Some (e, t) else map_of s k')"
  by (simp add: mem_put_def map_of_filter_key)

lemmas mem_defs = mem_redis_def mem_get_def mem_ttl_def mem_hgetall_def mem_add_def

lemma mem_set_nx: "set_nx_law mem_redis"
  by (simp add: set_nx_law_def mem_defs same_but_def map_of_mem_put)

lemma mem_counter: "counter_law mem_redis d (mem_add d)"
  unfolding counter_law_def
proof (intro allI impI)
  fix s k n
  assume c: "counter_at mem_redis s k = Some n" and e: "rget mem_redis s k = None \<longrightarrow> \<not> rexists mem_redis s k"
  show "\<exists>s'. mem_add d k s = (Inr (n + d), s') \<and> rget mem_redis s' k = Some (py_str (n + d)) \<and>
      rttl mem_redis s' k = rttl mem_redis s k \<and> same_but mem_redis k s s'"
  proof (cases "map_of s k")
    case None
    with c show ?thesis by (simp add: mem_defs counter_at_def same_but_def map_of_mem_put)
  next
    case (Some et)
    then obtain v t where et: "et = (Str v, t)"
      using e by (cases et; cases "fst et") (auto simp: mem_defs)
    with Some c show ?thesis
      by (simp add: mem_defs counter_at_def same_but_def map_of_mem_put split: sum.splits)
  qed
qed

lemma mem_expire: "expire_law mem_redis"
  unfolding expire_law_def
proof (intro allI impI)
  fix s :: mem_store and k and t :: int
  show "\<exists>s'. rexpire mem_redis k t s = (Inr (), s') \<and> rget mem_redis s' k = rget mem_redis s k \<and>
      rexists mem_redis s' k = rexists mem_redis s k \<and> (rexists mem_redis s k \<longrightarrow> rttl mem_redis s' k = Some t) \<and> same_but mem_redis k s s'"
    by (cases "map_of s k") (auto simp: mem_defs same_but_def map_of_mem_put split: entry.splits)
qed

lemma mem_delete: "delete_law mem_redis"
  by (simp add: delete_law_def mem_defs same_but_def map_of_filter_key)

lemma mem_redis_laws: "redis_string_laws mem_redis"
  unfolding redis_string_laws_def
  using mem_set_nx mem_counter [of 1] mem_counter [of "- 1"] mem_expire mem_delete
  by (auto simp: mem_redis_def mem_get_def mem_ttl_def split: option.splits entry.splits)

end
