(* ===== verification/Rule_Stateful.thy ===== *)
theory Rule_Stateful
  imports Rule_Beatmap Calendar Redis_Store
begin

text \<open>
  The Tier-1 validators (\<^verbatim>\<open>src/app/database/rules/validators/\<close>: \<^verbatim>\<open>rate_limit.py\<close>, \<^verbatim>\<open>cooldown.py\<close>,
  \<^verbatim>\<open>blacklist.py\<close>), the configuration fingerprint (\<^verbatim>\<open>fingerprint.py\<close>) and the reservation of state
  for a request (\<^verbatim>\<open>engine/stateful.py\<close>).

  The locale \<open>stateful_rule\<close> is the contract between the reservation loop and the two validators
  that consume Redis state: a rejected reservation leaves every counter and timestamp as it was,
  a successful one can be undone by its token. Both validators are interpretations; from the
  contract follows that a request that any rule blocks consumes nothing.
\<close>

section \<open>What the validators run against\<close>

text \<open>
  The Redis commands, the clock readings of one call (a second reading where the code reads the
  clock twice), the queue names in the database, and two renderings of libraries: the SHA-1 hex
  digest and the text of a float.
\<close>

record 'r env =
  e_redis :: "'r redis_ops"
  e_now :: datetime
  e_now2 :: datetime
  e_queue :: "int \<Rightarrow> string option"
  e_sha1 :: "string \<Rightarrow> string"
  e_float_repr :: "rat \<Rightarrow> string"

record queue_rule =
  rule_id :: int
  rule_queue_id :: int
  rule_type :: string
  rule_config :: json
  is_active :: bool
  is_public :: bool
  rule_version :: string

text \<open>\<^verbatim>\<open>rule.config or {}\<close>\<close>

definition config_or_empty :: "json \<Rightarrow> json" where
  "config_or_empty j = (if truthy j then j else JDict [])"

section \<open>Keys\<close>

definition config_fingerprint :: "'r env \<Rightarrow> dict \<Rightarrow> string" where
  "config_fingerprint E d = take 12 (e_sha1 E (json_dumps (e_float_repr E) (JDict d)))"

definition is_target_match :: "dict \<Rightarrow> int \<Rightarrow> bool res" where
  "is_target_match d uid =
     (let target = dget d ''target'' in
      if target = JNull \<or> \<not> truthy target then Inr True
      else (case target of
              JList xs \<Rightarrow> Inr (int_in uid xs)
            | JDict _ \<Rightarrow> Inr False
            | _ \<Rightarrow> Inl (PyExc ''TypeError'')))"

definition applies :: "dict \<Rightarrow> int \<Rightarrow> bool res" where
  "applies d uid =
     bindR (is_target_match d uid) (\<lambda>m. Inr (m \<and> dget_or d ''scope'' (JStr ''user'') = JStr ''user''))"

text \<open>\<^verbatim>\<open>int(x)\<close> on a decoded value that is not a string.\<close>

fun int_of_json :: "json \<Rightarrow> int option" where
  "int_of_json (JInt n) = Some n"
| "int_of_json (JBool b) = Some (of_bool b)"
| "int_of_json (JFloat q) = Some (if q < 0 then \<lceil>q\<rceil> else \<lfloor>q\<rfloor>)"
| "int_of_json _ = None"

definition period_bucket :: "datetime \<Rightarrow> json \<Rightarrow> int res" where
  "period_bucket now period =
     (case period of
        JStr s \<Rightarrow> truncate_to_period now s
      | _ \<Rightarrow> (case int_of_json period of
                None \<Rightarrow> Inl (PyExc ''ValueError'')
              | Some n \<Rightarrow> truncate_to_period now (py_str n)))"

definition period_duration :: "json \<Rightarrow> int" where
  "period_duration period =
     (case period of
        JStr s \<Rightarrow> period_duration_seconds s
      | _ \<Rightarrow> (case int_of_json period of None \<Rightarrow> 604800 | Some n \<Rightarrow> n))"

definition rate_limit_key :: "'r env \<Rightarrow> int \<Rightarrow> int \<Rightarrow> dict \<Rightarrow> string res" where
  "rate_limit_key E qid uid d =
     bindR (period_bucket (e_now E) (dget_or d ''period'' (JStr ''week''))) (\<lambda>bucket.
       Inr (hash_name QUEUE_RULE_RATE_LIMIT
              (join '':'' [py_str qid, py_str uid, config_fingerprint E d, py_str bucket])))"

definition cooldown_key :: "'r env \<Rightarrow> int \<Rightarrow> int \<Rightarrow> dict \<Rightarrow> string" where
  "cooldown_key E qid uid d =
     hash_name QUEUE_RULE_COOLDOWN (join '':'' [py_str qid, py_str uid, config_fingerprint E d])"

section \<open>Rate limit\<close>

definition queue_label :: "'r env \<Rightarrow> int \<Rightarrow> string" where
  "queue_label E qid = (case e_queue E qid of Some n \<Rightarrow> n | None \<Rightarrow> ''Queue '' @ py_str qid)"

definition limit_error :: "'r env \<Rightarrow> int \<Rightarrow> dict \<Rightarrow> exn" where
  "limit_error E qid d =
     Forbidden (RateLimitExceeded (queue_label E qid) (dget d ''max_requests'') (dget_or d ''period'' (JStr ''week'')))"

text \<open>\<^verbatim>\<open>count >= max_requests\<close> is \<^verbatim>\<open>not (count < max_requests)\<close> for numbers.\<close>

definition rate_limit_check :: "'r env \<Rightarrow> 'r \<Rightarrow> int \<Rightarrow> int \<Rightarrow> dict \<Rightarrow> unit res" where
  "rate_limit_check E s qid uid d =
     bindR (applies d uid) (\<lambda>app.
       if \<not> app then Inr ()
       else bindR (rate_limit_key E qid uid d) (\<lambda>key.
         bindR (case rget (e_redis E) s key of None \<Rightarrow> Inr 0 | Some v \<Rightarrow> py_int v) (\<lambda>count.
           bindR (py_less (of_int count) (dget d ''max_requests'')) (\<lambda>lt.
             if lt then Inr () else Inl (limit_error E qid d)))))"

definition rate_limit_reserve :: "'r env \<Rightarrow> int \<Rightarrow> int \<Rightarrow> dict \<Rightarrow> ('r, string option) act" where
  "rate_limit_reserve E qid uid d =
     bindS (liftS (applies d uid)) (\<lambda>app.
       if \<not> app then retS None
       else bindS (liftS (rate_limit_key E qid uid d)) (\<lambda>key.
         bindS (rincr (e_redis E) key) (\<lambda>current_count.
           bindS (if current_count = 1
                  then rexpire (e_redis E) key (period_duration (dget_or d ''period'' (JStr ''week'')))
                  else retS ()) (\<lambda>_.
             bindS (liftS (py_greater (of_int current_count) (dget d ''max_requests''))) (\<lambda>over.
               if over then bindS (rdecr (e_redis E) key) (\<lambda>_. raiseS (limit_error E qid d))
               else retS (Some key))))))"

definition rate_limit_rollback :: "'r env \<Rightarrow> string \<Rightarrow> ('r, unit) act" where
  "rate_limit_rollback E token = bindS (rdecr (e_redis E) token) (\<lambda>_. retS ())"

section \<open>Cooldown\<close>

definition remaining_seconds :: "datetime \<Rightarrow> string \<Rightarrow> json \<Rightarrow> rat res" where
  "remaining_seconds now last_request_ts cooldown_seconds =
     bindR (py_int last_request_ts) (\<lambda>last_ts.
       case num_of cooldown_seconds of
         None \<Rightarrow> Inl (PyExc ''TypeError'')
       | Some q \<Rightarrow> Inr (q - (of_int (timestamp_us now) / 1000000 - of_int last_ts)))"

definition cooldown_error :: "'r env \<Rightarrow> int \<Rightarrow> rat \<Rightarrow> exn" where
  "cooldown_error E qid remaining = Forbidden (CooldownActive (queue_label E qid) (max remaining 0))"

definition cooldown_check :: "'r env \<Rightarrow> 'r \<Rightarrow> int \<Rightarrow> int \<Rightarrow> dict \<Rightarrow> unit res" where
  "cooldown_check E s qid uid d =
     bindR (applies d uid) (\<lambda>app.
       if \<not> app then Inr ()
       else (case rget (e_redis E) s (cooldown_key E qid uid d) of
               None \<Rightarrow> Inr ()
             | Some last_request_ts \<Rightarrow>
                 bindR (remaining_seconds (e_now E) last_request_ts (dget d ''cooldown_seconds'')) (\<lambda>remaining.
                   if remaining > 0 then Inl (cooldown_error E qid remaining) else Inr ())))"

definition cooldown_reserve :: "'r env \<Rightarrow> int \<Rightarrow> int \<Rightarrow> dict \<Rightarrow> ('r, string option) act" where
  "cooldown_reserve E qid uid d =
     bindS (liftS (applies d uid)) (\<lambda>app.
       if \<not> app then retS None
       else let cooldown_seconds = dget d ''cooldown_seconds''; key = cooldown_key E qid uid d in
         bindS (rset_nx_ex (e_redis E) key (py_str (timestamp_s (e_now E))) cooldown_seconds) (\<lambda>was_set.
           if was_set then retS (Some key)
           else (\<lambda>s. bindS (liftS (case rget (e_redis E) s key of
                              Some last_request_ts \<Rightarrow> remaining_seconds (e_now2 E) last_request_ts cooldown_seconds
                            | None \<Rightarrow> (case num_of cooldown_seconds of
                                        Some q \<Rightarrow> Inr q | None \<Rightarrow> Inl (PyExc ''TypeError''))))
                       (\<lambda>remaining. raiseS (cooldown_error E qid remaining)) s)))"

definition cooldown_rollback :: "'r env \<Rightarrow> string \<Rightarrow> ('r, unit) act" where
  "cooldown_rollback E token = bindS (rdelete (e_redis E) token) (\<lambda>_. retS ())"

section \<open>Blacklist\<close>

definition blacklist_check :: "'r env \<Rightarrow> int \<Rightarrow> int \<Rightarrow> dict \<Rightarrow> unit res" where
  "blacklist_check E qid uid d =
     (let scope = dget_or d ''scope'' (JStr ''user''); target = dget_or d ''target'' (JList []) in
      if \<not> truthy target \<or> scope \<noteq> JStr ''user'' then Inr ()
      else bindR (case target of
                    JList xs \<Rightarrow> Inr (int_in uid xs)
                  | JDict _ \<Rightarrow> Inr False
                  | _ \<Rightarrow> Inl (PyExc ''TypeError'')) (\<lambda>listed.
        if listed then Inl (Forbidden (Blacklisted (queue_label E qid))) else Inr ()))"

section \<open>Reserving state for a request\<close>

definition STATEFUL_RULE_TYPES :: "string list" where
  "STATEFUL_RULE_TYPES = [''rate_limit'', ''cooldown'']"

record reservation =
  validator :: string
  token :: string

text \<open>\<^verbatim>\<open>supported_versions\<close> of a validator class: rate limits have two.\<close>

definition supported_versions :: "string \<Rightarrow> string list" where
  "supported_versions ty = (if ty = ''rate_limit'' then [''1.0'', ''1.1''] else [''1.0''])"

text \<open>Dispatch on the validator class; stateless validators reserve nothing.\<close>

definition reserve :: "'r env \<Rightarrow> string \<Rightarrow> int \<Rightarrow> int \<Rightarrow> dict \<Rightarrow> ('r, string option) act" where
  "reserve E ty qid uid d =
     (if ty = ''rate_limit'' then rate_limit_reserve E qid uid d
      else if ty = ''cooldown'' then cooldown_reserve E qid uid d
      else retS None)"

definition rollback :: "'r env \<Rightarrow> string \<Rightarrow> string \<Rightarrow> ('r, unit) act" where
  "rollback E ty tok =
     (if ty = ''rate_limit'' then rate_limit_rollback E tok
      else if ty = ''cooldown'' then cooldown_rollback E tok
      else retS ())"

text \<open>An exception of one rollback is logged and the loop goes on.\<close>

fun rollback_reservations :: "'r env \<Rightarrow> reservation list \<Rightarrow> 'r \<Rightarrow> 'r" where
  "rollback_reservations E [] s = s"
| "rollback_reservations E (r # rs) s = rollback_reservations E rs (snd (rollback E (validator r) (token r) s))"

definition skips_reservation :: "queue_rule \<Rightarrow> bool" where
  "skips_reservation rule \<longleftrightarrow>
     \<not> is_active rule \<or> rule_type rule \<notin> set STATEFUL_RULE_TYPES \<or>
     rule_version rule \<notin> set (supported_versions (rule_type rule))"

text \<open>The loop, with the reservations made so far.\<close>

fun reserve_loop ::
  "'r env \<Rightarrow> int \<Rightarrow> int \<Rightarrow> queue_rule list \<Rightarrow> reservation list \<Rightarrow> 'r \<Rightarrow> (exn + unit) \<times> reservation list \<times> 'r" where
  "reserve_loop E qid uid [] acc s = (Inr (), acc, s)"
| "reserve_loop E qid uid (rule # rules) acc s =
     (if skips_reservation rule then reserve_loop E qid uid rules acc s
      else (case (case config_or_empty (rule_config rule) of
                    JDict d \<Rightarrow> reserve E (rule_type rule) qid uid d s
                  | _ \<Rightarrow> (Inl (PyExc ''AttributeError''), s)) of
              (Inl e, s') \<Rightarrow> (Inl e, acc, s')
            | (Inr None, s') \<Rightarrow> reserve_loop E qid uid rules acc s'
            | (Inr (Some tok), s') \<Rightarrow>
                reserve_loop E qid uid rules (acc @ [\<lparr>validator = rule_type rule, token = tok\<rparr>]) s'))"

definition reserve_stateful_rules ::
  "'r env \<Rightarrow> int \<Rightarrow> int \<Rightarrow> queue_rule list \<Rightarrow> ('r, reservation list) act" where
  "reserve_stateful_rules E qid uid rules s =
     (case reserve_loop E qid uid rules [] s of
        (Inl e, acc, s') \<Rightarrow> (Inl e, rollback_reservations E acc s')
      | (Inr _, acc, s') \<Rightarrow> (Inr acc, s'))"

section \<open>What the rules keep in Redis\<close>

text \<open>The number a key holds; an absent key reads 0. This is all the rules ever look at.\<close>

definition quota :: "'r env \<Rightarrow> 'r \<Rightarrow> string \<Rightarrow> int" where
  "quota E s k = (case counter_at (e_redis E) s k of Some n \<Rightarrow> n | None \<Rightarrow> 0)"

definition quota_key :: "string \<Rightarrow> bool" where
  "quota_key k \<longleftrightarrow> (\<exists>x. k = hash_name QUEUE_RULE_RATE_LIMIT x \<or> k = hash_name QUEUE_RULE_COOLDOWN x)"

text \<open>The keys of the two namespaces hold integers and nothing else.\<close>

definition quota_inv :: "'r env \<Rightarrow> 'r \<Rightarrow> bool" where
  "quota_inv E s \<longleftrightarrow>
     (\<forall>k. quota_key k \<longrightarrow>
        (rget (e_redis E) s k = None \<and> \<not> rexists (e_redis E) s k \<or>
         (\<exists>n. rget (e_redis E) s k = Some (py_str n))))"

lemma quota_Some [simp]: "rget (e_redis E) s k = Some (py_str n) \<Longrightarrow> quota E s k = n"
  by (simp add: quota_def counter_at_def)

lemma quota_None [simp]: "rget (e_redis E) s k = None \<Longrightarrow> quota E s k = 0"
  by (simp add: quota_def counter_at_def)

lemma quota_inv_counter:
  assumes "quota_inv E s" "quota_key k"
  shows "counter_at (e_redis E) s k = Some (quota E s k)"
    and "rget (e_redis E) s k = None \<longrightarrow> \<not> rexists (e_redis E) s k"
  using assms unfolding quota_inv_def by (auto simp: quota_def counter_at_def)

lemma same_but_quota: "same_but (e_redis E) k s s' \<Longrightarrow> k' \<noteq> k \<Longrightarrow> quota E s' k' = quota E s k'"
  by (simp add: same_but_def quota_def counter_at_def)

lemma quota_update:
  assumes "same_but (e_redis E) k s s'" "quota E s' k = n"
  shows "quota E s' = (quota E s)(k := n)"
  using assms same_but_quota [OF assms(1)] by (intro ext) auto

lemma quota_inv_update:
  assumes "quota_inv E s" "same_but (e_redis E) k s s'"
    "rget (e_redis E) s' k = None \<and> \<not> rexists (e_redis E) s' k \<or> (\<exists>n. rget (e_redis E) s' k = Some (py_str n))"
  shows "quota_inv E s'"
  using assms unfolding quota_inv_def same_but_def by metis

subsection \<open>Commands on a quota key\<close>

lemma quota_counter_cmd:
  assumes "counter_law (e_redis E) d cmd" "quota_inv E s" "quota_key k"
  obtains s' where "cmd k s = (Inr (quota E s k + d), s')" "quota_inv E s'"
    "quota E s' = (quota E s)(k := quota E s k + d)" "rttl (e_redis E) s' k = rttl (e_redis E) s k"
    "rget (e_redis E) s' k = Some (py_str (quota E s k + d))"
proof -
  obtain s' where s': "cmd k s = (Inr (quota E s k + d), s')" "rget (e_redis E) s' k = Some (py_str (quota E s k + d))"
      "rttl (e_redis E) s' k = rttl (e_redis E) s k" "same_but (e_redis E) k s s'"
    using assms(1) [unfolded counter_law_def, rule_format, OF quota_inv_counter(1) [OF assms(2,3)]]
      quota_inv_counter(2) [OF assms(2,3)] by auto
  show ?thesis
    using that [OF s'(1) quota_inv_update [OF assms(2) s'(4)] quota_update [OF s'(4)]] s' by auto
qed

lemma quota_expire:
  assumes "redis_string_laws (e_redis E)" "quota_inv E s" "0 < t" "rget (e_redis E) s k = Some (py_str n)"
  obtains s' where "rexpire (e_redis E) k t s = (Inr (), s')" "quota_inv E s'" "quota E s' = quota E s"
    "rttl (e_redis E) s' k = Some t"
proof -
  obtain s' where s': "rexpire (e_redis E) k t s = (Inr (), s')" "rget (e_redis E) s' k = rget (e_redis E) s k"
      "rttl (e_redis E) s' k = Some t" "same_but (e_redis E) k s s'"
    using assms(1,3,4) unfolding redis_string_laws_def expire_law_def by (metis option.distinct(1))
  have "quota E s' = quota E s"
    using quota_update [OF s'(4), of n] s'(2) assms(4) by auto
  with that s' quota_inv_update [OF assms(2) s'(4)] assms(4) show ?thesis by auto
qed

lemma redis_lawsD:
  assumes "redis_string_laws R"
  shows "set_nx_law R" "counter_law R 1 (rincr R)" "counter_law R (- 1) (rdecr R)" "expire_law R" "delete_law R"
    "rget R s k \<noteq> None \<Longrightarrow> rexists R s k"
  using assms by (auto simp: redis_string_laws_def)

section \<open>The contract of a stateful rule\<close>

locale stateful_rule =
  fixes ns :: string
    and undo :: "int \<Rightarrow> int"
    and ok :: "dict \<Rightarrow> bool"
    and res :: "'r env \<Rightarrow> int \<Rightarrow> int \<Rightarrow> dict \<Rightarrow> ('r, string option) act"
    and rb :: "'r env \<Rightarrow> string \<Rightarrow> ('r, unit) act"
  assumes namespace: "quota_key (hash_name ns x)"
    and blocked: "redis_string_laws (e_redis E) \<Longrightarrow> quota_inv E s \<Longrightarrow> ok d \<Longrightarrow>
      res E qid uid d s = (Inl e, s') \<Longrightarrow>
      quota_inv E s' \<and> quota E s' = quota E s \<and> (\<exists>m. e = Forbidden m)"
    and idle: "redis_string_laws (e_redis E) \<Longrightarrow> quota_inv E s \<Longrightarrow> ok d \<Longrightarrow>
      res E qid uid d s = (Inr None, s') \<Longrightarrow> s' = s"
    and reserved: "redis_string_laws (e_redis E) \<Longrightarrow> quota_inv E s \<Longrightarrow> ok d \<Longrightarrow>
      res E qid uid d s = (Inr (Some tok), s') \<Longrightarrow>
      (\<exists>x. tok = hash_name ns x) \<and> quota_inv E s' \<and>
      (\<exists>n. quota E s' = (quota E s)(tok := n) \<and> undo n = quota E s tok)"
    and undone: "redis_string_laws (e_redis E) \<Longrightarrow> quota_inv E s \<Longrightarrow>
      \<exists>s'. rb E (hash_name ns x) s = (Inr (), s') \<and> quota_inv E s' \<and>
        quota E s' = (quota E s)(hash_name ns x := undo (quota E s (hash_name ns x)))"
begin

lemma reserve_rollback:
  assumes "redis_string_laws (e_redis E)" "quota_inv E s" "ok d"
    "res E qid uid d s = (Inr (Some tok), s')"
  shows "quota E (snd (rb E tok s')) = quota E s"
proof -
  obtain x n where x: "tok = hash_name ns x" "quota_inv E s'"
      and n: "quota E s' = (quota E s)(tok := n)" "undo n = quota E s tok"
    using reserved [OF assms] by blast
  with undone [OF assms(1) x(2), of x] show ?thesis by auto
qed

end

subsection \<open>Rate limit\<close>

definition target_ok :: "dict \<Rightarrow> bool" where
  "target_ok d \<longleftrightarrow> dget d ''target'' = JNull \<or> (\<exists>xs. dget d ''target'' = JList xs)"

definition period_ok :: "json \<Rightarrow> bool" where
  "period_ok p \<longleftrightarrow>
     (\<exists>s. p = JStr s \<and> (s \<in> {''day'', ''week'', ''month'', ''year''} \<or> (\<exists>n. py_int s = Inr n \<and> 1 \<le> n)))"

definition rate_limit_config_ok :: "dict \<Rightarrow> bool" where
  "rate_limit_config_ok d \<longleftrightarrow>
     target_ok d \<and> (\<exists>n. dget d ''max_requests'' = JInt n \<and> 1 \<le> n) \<and>
     period_ok (dget_or d ''period'' (JStr ''week''))"

definition cooldown_config_ok :: "dict \<Rightarrow> bool" where
  "cooldown_config_ok d \<longleftrightarrow> target_ok d \<and> (\<exists>n. dget d ''cooldown_seconds'' = JInt n \<and> 1 \<le> n)"

definition rule_applies :: "dict \<Rightarrow> int \<Rightarrow> bool" where
  "rule_applies d uid \<longleftrightarrow> applies d uid = Inr True"

lemma applies_ok: "target_ok d \<Longrightarrow> applies d uid = Inr (rule_applies d uid)"
  by (auto simp: target_ok_def applies_def is_target_match_def rule_applies_def Let_def)

lemma period_ok_bucket:
  assumes "period_ok p"
  obtains b where "period_bucket now p = Inr b"
proof -
  obtain s where p: "p = JStr s" and s: "s \<in> {''day'', ''week'', ''month'', ''year''} \<or> (\<exists>n. py_int s = Inr n \<and> 1 \<le> n)"
    using assms by (auto simp: period_ok_def)
  have "\<exists>b. truncate_to_period now s = Inr b"
    using s by (cases "s \<in> {''day'', ''week'', ''month'', ''year''}") (auto simp: truncate_to_period_def)
  with p that show ?thesis by (auto simp: period_bucket_def)
qed

lemma period_ok_duration: "period_ok p \<Longrightarrow> 0 < period_duration p"
  by (auto simp: period_ok_def period_duration_def period_duration_seconds_def)

lemma rate_limit_key_ok:
  assumes "rate_limit_config_ok d"
  obtains x where "rate_limit_key E qid uid d = Inr (hash_name QUEUE_RULE_RATE_LIMIT x)"
proof -
  obtain b where "period_bucket (e_now E) (dget_or d ''period'' (JStr ''week'')) = Inr b"
    using assms period_ok_bucket by (metis rate_limit_config_ok_def)
  then show ?thesis
    using that by (simp add: rate_limit_key_def)
qed

lemma quota_key_rate [simp]: "quota_key (hash_name QUEUE_RULE_RATE_LIMIT x)"
  by (auto simp: quota_key_def)

lemma quota_key_cooldown [simp]: "quota_key (hash_name QUEUE_RULE_COOLDOWN x)"
  by (auto simp: quota_key_def)

text \<open>
  The whole effect of a rate-limit reservation: it is refused exactly when the counter has
  reached the maximum, and otherwise counts one more.
\<close>

lemma rate_limit_reserve_cases:
  assumes laws: "redis_string_laws (e_redis E)" and inv: "quota_inv E s"
    and ok: "rate_limit_config_ok d" and app: "rule_applies d uid"
    and key: "rate_limit_key E qid uid d = Inr key" and mx: "dget d ''max_requests'' = JInt m"
  shows "\<exists>s'. quota_inv E s' \<and>
     (if quota E s key < m
      then rate_limit_reserve E qid uid d s = (Inr (Some key), s') \<and> quota E s' = (quota E s)(key := quota E s key + 1) \<and>
        (quota E s key = 0 \<longrightarrow> rttl (e_redis E) s' key = Some (period_duration (dget_or d ''period'' (JStr ''week''))))
      else rate_limit_reserve E qid uid d s = (Inl (limit_error E qid d), s') \<and> quota E s' = quota E s)"
proof -
  have tgt: "target_ok d" and per: "period_ok (dget_or d ''period'' (JStr ''week''))" and "1 \<le> m"
    using ok mx by (auto simp: rate_limit_config_ok_def)
  have qk: "quota_key key"
    using key by (auto simp: rate_limit_key_def bindR_eq_Inr)
  obtain s1 where s1: "rincr (e_redis E) key s = (Inr (quota E s key + 1), s1)" "quota_inv E s1"
      "quota E s1 = (quota E s)(key := quota E s key + 1)"
      "rget (e_redis E) s1 key = Some (py_str (quota E s key + 1))"
    using quota_counter_cmd [OF redis_lawsD(2) [OF laws] inv qk] by metis
  obtain s2 where s2: "(if quota E s key + 1 = 1
         then rexpire (e_redis E) key (period_duration (dget_or d ''period'' (JStr ''week''))) else retS ()) s1 = (Inr (), s2)"
      "quota_inv E s2" "quota E s2 = quota E s1"
      "quota E s key = 0 \<longrightarrow> rttl (e_redis E) s2 key = Some (period_duration (dget_or d ''period'' (JStr ''week'')))"
  proof (cases "quota E s key = 0")
    case True
    then show ?thesis
      using quota_expire [OF laws s1(2) period_ok_duration [OF per] s1(4)] that by auto
  next
    case False
    then show ?thesis using that [of s1] s1 by auto
  qed
  have gt: "py_greater (of_int (quota E s key + 1)) (dget d ''max_requests'') = Inr (\<not> quota E s key < m)"
    unfolding py_greater_def mx num_of.simps option.case of_int_less_iff by auto
  show ?thesis
  proof (cases "quota E s key < m")
    case True
    then have "rate_limit_reserve E qid uid d s = (Inr (Some key), s2)"
      using s1(1) s2(1) gt
      by (simp add: rate_limit_reserve_def bindS_def applies_ok [OF tgt] app key)
    then show ?thesis using True s1 s2 by auto
  next
    case False
    obtain s3 where s3: "rdecr (e_redis E) key s2 = (Inr (quota E s2 key + - 1), s3)" "quota_inv E s3"
        "quota E s3 = (quota E s2)(key := quota E s2 key + - 1)"
      using quota_counter_cmd [OF redis_lawsD(3) [OF laws] s2(2) qk] by metis
    have "rate_limit_reserve E qid uid d s = (Inl (limit_error E qid d), s3)"
      using s1(1) s2(1) s3(1) gt False
      by (simp add: rate_limit_reserve_def bindS_def applies_ok [OF tgt] app key)
    moreover have "quota E s3 = quota E s"
      using s3(3) s2(3) s1(3) by auto
    ultimately show ?thesis using s3(2) False by auto
  qed
qed

lemma rate_limit_not_applying:
  "target_ok d \<Longrightarrow> \<not> rule_applies d uid \<Longrightarrow> rate_limit_reserve E qid uid d s = (Inr None, s)"
  by (simp add: rate_limit_reserve_def bindS_def applies_ok)

interpretation rate_limit: stateful_rule QUEUE_RULE_RATE_LIMIT "\<lambda>n. n - 1" rate_limit_config_ok
    rate_limit_reserve rate_limit_rollback
proof unfold_locales
  fix E :: "'r env" and s s' d qid uid e tok x
  show "quota_key (hash_name QUEUE_RULE_RATE_LIMIT x)" by simp
  assume laws: "redis_string_laws (e_redis E)" and inv: "quota_inv E s"
  show "\<exists>s'. rate_limit_rollback E (hash_name QUEUE_RULE_RATE_LIMIT x) s = (Inr (), s') \<and> quota_inv E s' \<and>
      quota E s' = (quota E s)(hash_name QUEUE_RULE_RATE_LIMIT x := quota E s (hash_name QUEUE_RULE_RATE_LIMIT x) - 1)"
    by (rule quota_counter_cmd [OF redis_lawsD(3) [OF laws] inv quota_key_rate [of x]])
      (simp add: rate_limit_rollback_def bindS_def)
  assume ok: "rate_limit_config_ok d"
  then obtain m where m: "dget d ''max_requests'' = JInt m" and tgt: "target_ok d"
    by (auto simp: rate_limit_config_ok_def)
  obtain x where key: "rate_limit_key E qid uid d = Inr (hash_name QUEUE_RULE_RATE_LIMIT x)"
    by (rule rate_limit_key_ok [OF ok])
  note cases = rate_limit_reserve_cases [OF laws inv ok _ key m]
    and off = rate_limit_not_applying [OF tgt, of uid E qid s]
  show "quota_inv E s' \<and> quota E s' = quota E s \<and> (\<exists>m. e = Forbidden m)"
    if "rate_limit_reserve E qid uid d s = (Inl e, s')"
    using that cases off by (cases "rule_applies d uid") (auto simp: limit_error_def split: if_splits)
  show "s' = s" if "rate_limit_reserve E qid uid d s = (Inr None, s')"
    using that cases off by (cases "rule_applies d uid") (auto split: if_splits)
  show "(\<exists>x. tok = hash_name QUEUE_RULE_RATE_LIMIT x) \<and> quota_inv E s' \<and>
      (\<exists>n. quota E s' = (quota E s)(tok := n) \<and> n - 1 = quota E s tok)"
    if "rate_limit_reserve E qid uid d s = (Inr (Some tok), s')"
    using that cases off by (cases "rule_applies d uid") (auto split: if_splits)
qed

subsection \<open>Cooldown\<close>

lemma cooldown_not_applying:
  "target_ok d \<Longrightarrow> \<not> rule_applies d uid \<Longrightarrow> cooldown_reserve E qid uid d s = (Inr None, s)"
  by (simp add: cooldown_reserve_def bindS_def applies_ok)

lemma cooldown_reserve_cases:
  assumes laws: "redis_string_laws (e_redis E)" and inv: "quota_inv E s"
    and ok: "cooldown_config_ok d" and app: "rule_applies d uid" and n: "dget d ''cooldown_seconds'' = JInt n"
  shows "if rget (e_redis E) s (cooldown_key E qid uid d) = None
     then \<exists>s'. cooldown_reserve E qid uid d s = (Inr (Some (cooldown_key E qid uid d)), s') \<and> quota_inv E s' \<and>
        quota E s' = (quota E s)(cooldown_key E qid uid d := timestamp_s (e_now E)) \<and>
        rget (e_redis E) s' (cooldown_key E qid uid d) = Some (py_str (timestamp_s (e_now E))) \<and>
        rttl (e_redis E) s' (cooldown_key E qid uid d) = Some n
     else \<exists>r. cooldown_reserve E qid uid d s = (Inl (cooldown_error E qid r), s)"
proof -
  let ?k = "cooldown_key E qid uid d"
  have tgt: "target_ok d" and "0 < n"
    using ok n by (auto simp: cooldown_config_ok_def)
  have qk: "quota_key ?k" by (simp add: cooldown_key_def)
  note setnx = redis_lawsD(1) [OF laws, unfolded set_nx_law_def, rule_format, OF \<open>0 < n\<close>, of s ?k]
  show ?thesis
  proof (cases "rget (e_redis E) s ?k")
    case None
    then have "\<not> rexists (e_redis E) s ?k"
      using inv qk by (auto simp: quota_inv_def)
    then obtain s' where s': "rset_nx_ex (e_redis E) ?k (py_str (timestamp_s (e_now E))) (JInt n) s = (Inr True, s')"
        "rget (e_redis E) s' ?k = Some (py_str (timestamp_s (e_now E)))" "rttl (e_redis E) s' ?k = Some n"
        "same_but (e_redis E) ?k s s'"
      using setnx by auto
    have "cooldown_reserve E qid uid d s = (Inr (Some ?k), s')"
      using s'(1) by (simp add: cooldown_reserve_def bindS_def applies_ok [OF tgt] app n Let_def)
    then show ?thesis
      using None s' quota_inv_update [OF inv s'(4)] quota_update [OF s'(4)] by auto
  next
    case (Some v)
    then obtain l where l: "v = py_str l"
      using inv qk unfolding quota_inv_def by (metis option.distinct(1) option.inject)
    have "rset_nx_ex (e_redis E) ?k (py_str (timestamp_s (e_now E))) (JInt n) s = (Inr False, s)"
      using setnx redis_lawsD(6) [OF laws, of s ?k] Some by auto
    then show ?thesis
      using Some l
      by (auto simp: cooldown_reserve_def bindS_def applies_ok [OF tgt] app n Let_def remaining_seconds_def)
  qed
qed

interpretation cooldown: stateful_rule QUEUE_RULE_COOLDOWN "\<lambda>_. 0" cooldown_config_ok
    cooldown_reserve cooldown_rollback
proof unfold_locales
  fix E :: "'r env" and s s' d qid uid e tok x
  show "quota_key (hash_name QUEUE_RULE_COOLDOWN x)" by simp
  assume laws: "redis_string_laws (e_redis E)" and inv: "quota_inv E s"
  obtain s' where s': "rdelete (e_redis E) (hash_name QUEUE_RULE_COOLDOWN x) s = (Inr (), s')"
      "rget (e_redis E) s' (hash_name QUEUE_RULE_COOLDOWN x) = None"
      "\<not> rexists (e_redis E) s' (hash_name QUEUE_RULE_COOLDOWN x)"
      "same_but (e_redis E) (hash_name QUEUE_RULE_COOLDOWN x) s s'"
    using redis_lawsD(5) [OF laws] unfolding delete_law_def by metis
  then show "\<exists>s'. cooldown_rollback E (hash_name QUEUE_RULE_COOLDOWN x) s = (Inr (), s') \<and> quota_inv E s' \<and>
      quota E s' = (quota E s)(hash_name QUEUE_RULE_COOLDOWN x := 0)"
    using quota_inv_update [OF inv s'(4)] quota_update [OF s'(4)] by (auto simp: cooldown_rollback_def bindS_def)
  assume ok: "cooldown_config_ok d"
  then obtain n where n: "dget d ''cooldown_seconds'' = JInt n" and tgt: "target_ok d"
    by (auto simp: cooldown_config_ok_def)
  note cases = cooldown_reserve_cases [OF laws inv ok _ n, of uid qid]
    and off = cooldown_not_applying [OF tgt, of uid E qid s]
  show "quota_inv E s' \<and> quota E s' = quota E s \<and> (\<exists>m. e = Forbidden m)"
    if "cooldown_reserve E qid uid d s = (Inl e, s')" for s'
    using that cases off inv by (cases "rule_applies d uid") (auto simp: cooldown_error_def split: if_splits)
  show "s' = s" if "cooldown_reserve E qid uid d s = (Inr None, s')" for s'
    using that cases off by (cases "rule_applies d uid") (auto split: if_splits)
  show "(\<exists>x. tok = hash_name QUEUE_RULE_COOLDOWN x) \<and> quota_inv E s' \<and>
      (\<exists>n. quota E s' = (quota E s)(tok := n) \<and> 0 = quota E s tok)"
    if "cooldown_reserve E qid uid d s = (Inr (Some tok), s')" for s'
    using that cases off by (cases "rule_applies d uid") (auto simp: cooldown_key_def split: if_splits)
qed

section \<open>A blocked request consumes nothing\<close>

definition undo_of :: "string \<Rightarrow> int \<Rightarrow> int" where
  "undo_of ty = (if ty = ''rate_limit'' then (\<lambda>n. n - 1) else (\<lambda>_. 0))"

definition namespace_of :: "string \<Rightarrow> string" where
  "namespace_of ty = (if ty = ''rate_limit'' then QUEUE_RULE_RATE_LIMIT else QUEUE_RULE_COOLDOWN)"

definition state_config_ok :: "string \<Rightarrow> dict \<Rightarrow> bool" where
  "state_config_ok ty d \<longleftrightarrow> (if ty = ''rate_limit'' then rate_limit_config_ok d else cooldown_config_ok d)"

lemma reserve_contract:
  assumes "redis_string_laws (e_redis E)" "quota_inv E s" "ty \<in> set STATEFUL_RULE_TYPES" "state_config_ok ty d"
    "reserve E ty qid uid d s = (r, s')"
  shows "quota_inv E s'"
    and "r = Inl e \<Longrightarrow> quota E s' = quota E s \<and> (\<exists>m. e = Forbidden m)"
    and "r = Inr None \<Longrightarrow> s' = s"
    and "r = Inr (Some tok) \<Longrightarrow> (\<exists>x. tok = hash_name (namespace_of ty) x) \<and>
      (\<exists>n. quota E s' = (quota E s)(tok := n) \<and> undo_of ty n = quota E s tok)"
proof -
  consider "ty = ''rate_limit''" | "ty = ''cooldown''"
    using assms(3) by (auto simp: STATEFUL_RULE_TYPES_def)
  then have "quota_inv E s' \<and> (\<forall>e. r = Inl e \<longrightarrow> quota E s' = quota E s \<and> (\<exists>m. e = Forbidden m)) \<and>
      (r = Inr None \<longrightarrow> s' = s) \<and>
      (\<forall>tok. r = Inr (Some tok) \<longrightarrow> (\<exists>x. tok = hash_name (namespace_of ty) x) \<and>
        (\<exists>n. quota E s' = (quota E s)(tok := n) \<and> undo_of ty n = quota E s tok))"
  proof cases
    case 1
    note c = rate_limit.blocked [OF assms(1,2)] rate_limit.idle [OF assms(1,2)] rate_limit.reserved [OF assms(1,2)]
    show ?thesis
    proof (cases r)
      case (Inl a)
      with 1 assms c(1) [of d qid uid a s'] show ?thesis
        by (simp add: reserve_def state_config_ok_def)
    next
      case (Inr b)
      with 1 assms c(2) [of d qid uid s'] c(3) [of d qid uid _ s'] show ?thesis
        by (cases b) (simp_all add: reserve_def state_config_ok_def undo_of_def namespace_of_def)
    qed
  next
    case 2
    note c = cooldown.blocked [OF assms(1,2)] cooldown.idle [OF assms(1,2)] cooldown.reserved [OF assms(1,2)]
    show ?thesis
    proof (cases r)
      case (Inl a)
      with 2 assms c(1) [of d qid uid a s'] show ?thesis
        by (simp add: reserve_def state_config_ok_def)
    next
      case (Inr b)
      with 2 assms c(2) [of d qid uid s'] c(3) [of d qid uid _ s'] show ?thesis
        by (cases b) (simp_all add: reserve_def state_config_ok_def undo_of_def namespace_of_def)
    qed
  qed
  then show "quota_inv E s'"
    and "r = Inl e \<Longrightarrow> quota E s' = quota E s \<and> (\<exists>m. e = Forbidden m)"
    and "r = Inr None \<Longrightarrow> s' = s"
    and "r = Inr (Some tok) \<Longrightarrow> (\<exists>x. tok = hash_name (namespace_of ty) x) \<and>
      (\<exists>n. quota E s' = (quota E s)(tok := n) \<and> undo_of ty n = quota E s tok)"
    by blast+
qed

subsection \<open>Undoing a list of reservations\<close>

definition reservation_wf :: "reservation \<Rightarrow> bool" where
  "reservation_wf r \<longleftrightarrow>
     validator r \<in> set STATEFUL_RULE_TYPES \<and> (\<exists>x. token r = hash_name (namespace_of (validator r)) x)"

definition undo1 :: "reservation \<Rightarrow> (string \<Rightarrow> int) \<Rightarrow> string \<Rightarrow> int" where
  "undo1 r v = v(token r := undo_of (validator r) (v (token r)))"

lemma namespaces_differ: "hash_name QUEUE_RULE_RATE_LIMIT x \<noteq> hash_name QUEUE_RULE_COOLDOWN y"
  by (rule hash_name_ns_inj) (auto simp: QUEUE_RULE_RATE_LIMIT_def QUEUE_RULE_COOLDOWN_def)

lemma same_token_same_undo:
  "reservation_wf a \<Longrightarrow> reservation_wf b \<Longrightarrow> token a = token b \<Longrightarrow> undo_of (validator a) = undo_of (validator b)"
  using namespaces_differ namespaces_differ [symmetric]
  by (auto simp: reservation_wf_def STATEFUL_RULE_TYPES_def namespace_of_def undo_of_def)

lemma undo1_commute:
  "reservation_wf a \<Longrightarrow> reservation_wf b \<Longrightarrow> undo1 a (undo1 b v) = undo1 b (undo1 a v)"
  using same_token_same_undo [of a b] by (cases "token a = token b") (auto simp: undo1_def fun_upd_twist)

lemma fold_undo1_commute:
  "reservation_wf a \<Longrightarrow> list_all reservation_wf rs \<Longrightarrow> fold undo1 rs (undo1 a v) = undo1 a (fold undo1 rs v)"
proof (induction rs arbitrary: v)
  case (Cons b rs)
  then have "undo1 b (undo1 a v) = undo1 a (undo1 b v)" by (auto intro: undo1_commute)
  with Cons show ?case by simp
qed simp

lemma rollback_undo1:
  assumes "redis_string_laws (e_redis E)" "quota_inv E s" "reservation_wf r"
  shows "quota_inv E (snd (rollback E (validator r) (token r) s))"
    and "quota E (snd (rollback E (validator r) (token r) s)) = undo1 r (quota E s)"
proof -
  obtain x where x: "token r = hash_name (namespace_of (validator r)) x"
    and v: "validator r = ''rate_limit'' \<or> validator r = ''cooldown''"
    using assms(3) by (auto simp: reservation_wf_def STATEFUL_RULE_TYPES_def)
  have "quota_inv E (snd (rollback E (validator r) (token r) s)) \<and>
      quota E (snd (rollback E (validator r) (token r) s)) = undo1 r (quota E s)"
    using v x rate_limit.undone [OF assms(1,2), of x] cooldown.undone [OF assms(1,2), of x]
    by (auto simp: rollback_def undo1_def undo_of_def namespace_of_def)
  then show "quota_inv E (snd (rollback E (validator r) (token r) s))"
    "quota E (snd (rollback E (validator r) (token r) s)) = undo1 r (quota E s)"
    by auto
qed

lemma rollback_reservations_quota:
  assumes "redis_string_laws (e_redis E)" "quota_inv E s" "list_all reservation_wf rs"
  shows "quota_inv E (rollback_reservations E rs s) \<and>
     quota E (rollback_reservations E rs s) = fold undo1 rs (quota E s)"
  using assms(2,3) rollback_undo1 [OF assms(1)] by (induction rs arbitrary: s) auto

text \<open>Every rule that will be asked to reserve has a configuration of the shape its schema admits.\<close>

definition rules_state_ok :: "queue_rule list \<Rightarrow> bool" where
  "rules_state_ok rules \<longleftrightarrow>
     (\<forall>rule \<in> set rules. \<not> skips_reservation rule \<longrightarrow>
        (\<exists>d. config_or_empty (rule_config rule) = JDict d \<and> state_config_ok (rule_type rule) d))"

lemma reserve_loop_undo:
  assumes "redis_string_laws (e_redis E)" "rules_state_ok rules" "quota_inv E s" "list_all reservation_wf acc"
    "reserve_loop E qid uid rules acc s = (r, acc', s')"
  shows "quota_inv E s' \<and> list_all reservation_wf acc' \<and>
     fold undo1 acc' (quota E s') = fold undo1 acc (quota E s) \<and>
     (\<forall>e. r = Inl e \<longrightarrow> (\<exists>m. e = Forbidden m))"
  using assms(2-5)
proof (induction rules arbitrary: acc s)
  case (Cons rule rules)
  have ok: "rules_state_ok rules" using Cons.prems(1) by (simp add: rules_state_ok_def)
  show ?case
  proof (cases "skips_reservation rule")
    case True
    with Cons ok show ?thesis by simp
  next
    case False
    then obtain d where d: "config_or_empty (rule_config rule) = JDict d" "state_config_ok (rule_type rule) d"
      and ty: "rule_type rule \<in> set STATEFUL_RULE_TYPES"
      using Cons.prems(1) by (auto simp: rules_state_ok_def skips_reservation_def)
    obtain r1 s1 where r1: "reserve E (rule_type rule) qid uid d s = (r1, s1)" by fastforce
    note contract = reserve_contract [OF assms(1) Cons.prems(2) ty d(2) r1]
    consider e where "r1 = Inl e" | "r1 = Inr None" | tok where "r1 = Inr (Some tok)"
      by (metis old.sum.exhaust option.exhaust)
    then show ?thesis
    proof cases
      case 1
      then show ?thesis
        using Cons.prems False d r1 contract by auto
    next
      case 2
      then show ?thesis
        using Cons.prems Cons.IH [OF ok, of s1 acc] False d r1 contract by simp
    next
      case (3 tok)
      let ?res = "\<lparr>validator = rule_type rule, token = tok\<rparr>"
      have wf: "reservation_wf ?res"
        using contract(4) [OF 3] ty by (simp add: reservation_wf_def)
      have "undo1 ?res (quota E s1) = quota E s"
        using contract(4) [OF 3] by (auto simp: undo1_def)
      then have "fold undo1 (acc @ [?res]) (quota E s1) = fold undo1 acc (quota E s)"
        using fold_undo1_commute [OF wf Cons.prems(3), of "quota E s1"] by simp
      then show ?thesis
        using Cons.prems Cons.IH [OF ok contract(1), of "acc @ [?res]"] False d r1 3 wf by simp
    qed
  qed
qed auto

lemma reserve_all_or_nothing:
  assumes "redis_string_laws (e_redis E)" "rules_state_ok rules" "quota_inv E s"
    "reserve_stateful_rules E qid uid rules s = (Inl e, s')"
  shows "quota E s' = quota E s" and "quota_inv E s'" and "\<exists>m. e = Forbidden m"
proof -
  obtain r acc s1 where l: "reserve_loop E qid uid rules [] s = (r, acc, s1)"
    by (metis prod_cases3)
  note u = reserve_loop_undo [OF assms(1-3) _ l, simplified]
  have "r = Inl e" "s' = rollback_reservations E acc s1"
    using assms(4) l by (auto simp: reserve_stateful_rules_def split: sum.splits)
  with u rollback_reservations_quota [OF assms(1), of s1 acc]
  show "quota E s' = quota E s" "quota_inv E s'" "\<exists>m. e = Forbidden m" by auto
qed

lemma reserve_then_rollback:
  assumes "redis_string_laws (e_redis E)" "rules_state_ok rules" "quota_inv E s"
    "reserve_stateful_rules E qid uid rules s = (Inr rs, s')"
  shows "quota E (rollback_reservations E rs s') = quota E s"
proof -
  have l: "reserve_loop E qid uid rules [] s = (Inr (), rs, s')"
    using assms(4) by (auto simp: reserve_stateful_rules_def split: sum.splits prod.splits)
  from reserve_loop_undo [OF assms(1-3) _ l, simplified] rollback_reservations_quota [OF assms(1), of s' rs]
  show ?thesis by simp
qed

end
