(* ===== verification/Rule_Engine.thy ===== *)
theory Rule_Engine
  imports Rule_Database Rule_Stateful "HOL-Library.AList"
begin

text \<open>
  The rule engine: the registry of validators (\<^verbatim>\<open>src/app/database/rules/registry.py\<close>), rule trees
  and their evaluation (\<^verbatim>\<open>engine/evaluator.py\<close>), and the synchronous runner
  (\<^verbatim>\<open>engine/phase1_runner.py\<close>). The asynchronous runner is in \<open>Phase2\<close>.

  Evaluation is total: trees are built by recursion on the size of the decoded configuration and
  evaluated by recursion on the tree.
\<close>

section \<open>The registry\<close>

text \<open>Everything a validator reaches besides the context.\<close>

record 'r world =
  w_env :: "'r env"
  w_store :: 'r
  w_parse :: parser
  w_search :: osu_search
  w_rows :: "int \<Rightarrow> (song \<times> int) list"

record 'r validator_class =
  vc_check :: "'r world \<Rightarrow> unit step"
  vc_versions :: "string list"

record 'r registry =
  RULE_REGISTRY :: "(string \<times> 'r validator_class) list"
  RULE_TIERS :: "(string \<times> int) list"

text \<open>A Tier-1 validator reads the configuration dictionary, queue and user of the context.\<close>

definition tier1_check :: "string \<Rightarrow> ('r world \<Rightarrow> int \<Rightarrow> int \<Rightarrow> dict \<Rightarrow> unit res) \<Rightarrow> 'r world \<Rightarrow> unit step" where
  "tier1_check ty chk W =
     restriction_check ty (\<lambda>c. (with_dict (config c) (chk W (queue_id c) (user_id c)), c))"

definition TIER_1_VALIDATORS :: "(string \<times> 'r validator_class) list" where
  "TIER_1_VALIDATORS =
     [(''rate_limit'', \<lparr>vc_check = tier1_check ''rate_limit'' (\<lambda>W. rate_limit_check (w_env W) (w_store W)),
        vc_versions = supported_versions ''rate_limit''\<rparr>),
      (''cooldown'', \<lparr>vc_check = tier1_check ''cooldown'' (\<lambda>W. cooldown_check (w_env W) (w_store W)),
        vc_versions = supported_versions ''cooldown''\<rparr>),
      (''blacklist'', \<lparr>vc_check = tier1_check ''blacklist'' (\<lambda>W. blacklist_check (w_env W)),
        vc_versions = supported_versions ''blacklist''\<rparr>)]"

definition beatmap_validators :: "(string \<times> (exec_context \<Rightarrow> unit res)) list" where
  "beatmap_validators =
     [(''beatmap_duration'', duration_check), (''beatmap_star_rating'', star_rating_check),
      (''beatmap_ar_range'', ar_range_check), (''beatmap_od_range'', od_range_check),
      (''beatmap_hp_range'', hp_range_check), (''beatmap_cs_range'', cs_range_check),
      (''beatmap_drain_range'', drain_range_check), (''beatmap_bpm'', bpm_check),
      (''beatmap_genre'', genre_check), (''beatmap_language'', language_check), (''beatmap_mode'', mode_check),
      (''beatmap_difficulty_count'', difficulty_count_check), (''beatmap_storyboard'', storyboard_check),
      (''beatmap_video'', video_check), (''beatmap_tags'', tags_check), (''beatmap_length'', length_check),
      (''beatmap_combination'', combination_check)]"

definition TIER_2_VALIDATORS :: "(string \<times> 'r validator_class) list" where
  "TIER_2_VALIDATORS =
     map (\<lambda>(ty, chk). (ty, \<lparr>vc_check = (\<lambda>_. restriction_check ty (beatmap_check ty chk)),
       vc_versions = supported_versions ty\<rparr>)) beatmap_validators"

definition TIER_3_VALIDATORS :: "(string \<times> 'r validator_class) list" where
  "TIER_3_VALIDATORS =
     [(''never_ranked'', \<lparr>vc_check = (\<lambda>W. restriction_check ''never_ranked'' (database_check ''never_ranked''
          (never_ranked_check (w_parse W) (w_search W)))), vc_versions = supported_versions ''never_ranked''\<rparr>),
      (''unique_artist_title'', \<lparr>vc_check = (\<lambda>W. restriction_check ''unique_artist_title''
          (database_check ''unique_artist_title'' (unique_artist_title_check (w_parse W) (w_rows W)))),
        vc_versions = supported_versions ''unique_artist_title''\<rparr>)]"

definition default_registry :: "'r registry" where
  "default_registry =
     \<lparr>RULE_REGISTRY = TIER_1_VALIDATORS @ TIER_2_VALIDATORS @ TIER_3_VALIDATORS,
      RULE_TIERS =
        [(''rate_limit'', 1), (''cooldown'', 1), (''blacklist'', 1), (''beatmap_duration'', 2),
         (''beatmap_star_rating'', 2), (''beatmap_ar_range'', 2), (''beatmap_od_range'', 2),
         (''beatmap_hp_range'', 2), (''beatmap_cs_range'', 2), (''beatmap_drain_range'', 2),
         (''beatmap_bpm'', 2), (''beatmap_genre'', 2), (''beatmap_language'', 2), (''beatmap_mode'', 2),
         (''beatmap_difficulty_count'', 2), (''beatmap_storyboard'', 2), (''beatmap_video'', 2),
         (''beatmap_tags'', 2), (''beatmap_length'', 2), (''beatmap_combination'', 2),
         (''never_ranked'', 3), (''unique_artist_title'', 3)]\<rparr>"

definition get_validator :: "'r registry \<Rightarrow> string \<Rightarrow> 'r validator_class option" where
  "get_validator G ty = map_of (RULE_REGISTRY G) ty"

definition get_validator_tier :: "'r registry \<Rightarrow> string \<Rightarrow> int option" where
  "get_validator_tier G ty = map_of (RULE_TIERS G) ty"

definition register_validator :: "string \<Rightarrow> 'r validator_class \<Rightarrow> int \<Rightarrow> 'r registry \<Rightarrow> 'r registry" where
  "register_validator ty vc tier G =
     G\<lparr>RULE_REGISTRY := AList.update ty vc (RULE_REGISTRY G), RULE_TIERS := AList.update ty tier (RULE_TIERS G)\<rparr>"

definition get_validators_for_tier :: "'r registry \<Rightarrow> int \<Rightarrow> (string \<times> 'r validator_class) list" where
  "get_validators_for_tier G tier = filter (\<lambda>(ty, _). map_of (RULE_TIERS G) ty = Some tier) (RULE_REGISTRY G)"

definition get_supported_versions :: "'r registry \<Rightarrow> string \<Rightarrow> string list option" where
  "get_supported_versions G ty = map_option vc_versions (map_of (RULE_REGISTRY G) ty)"

section \<open>Effective tiers\<close>

text \<open>
  The children of a composite: the items of a list. A nonempty string or dictionary would yield
  strings, on which the code's \<^verbatim>\<open>child.get\<close> fails; other values cannot be iterated.
\<close>

definition children_of :: "json \<Rightarrow> json list res" where
  "children_of j =
     (case j of
        JList xs \<Rightarrow> Inr xs
      | JStr s \<Rightarrow> if s = [] then Inr [] else Inl (PyExc ''AttributeError'')
      | JDict d \<Rightarrow> if d = [] then Inr [] else Inl (PyExc ''AttributeError'')
      | _ \<Rightarrow> Inl (PyExc ''TypeError''))"

definition json_or :: "json \<Rightarrow> json \<Rightarrow> json" where
  "json_or a b = (if truthy a then a else b)"

text \<open>\<^verbatim>\<open>RULE_TIERS.get(rule_type, 2)\<close>; an unhashable key is a \<^verbatim>\<open>TypeError\<close>.\<close>

definition leaf_tier :: "'r registry \<Rightarrow> json \<Rightarrow> int res" where
  "leaf_tier G ty =
     (case ty of
        JStr s \<Rightarrow> Inr (case map_of (RULE_TIERS G) s of Some t \<Rightarrow> t | None \<Rightarrow> 2)
      | JList _ \<Rightarrow> Inl (PyExc ''TypeError'')
      | JDict _ \<Rightarrow> Inl (PyExc ''TypeError'')
      | _ \<Rightarrow> Inr 2)"

lemma size_dget_or: "dget_or d k v = v \<or> size (dget_or d k v) < size (JDict d)"
proof (induction d)
  case (Cons kv d)
  then show ?case by (cases kv) auto
qed simp

lemma size_json_or: "size (json_or a b) \<le> max (size a) (size b)"
  by (simp add: json_or_def)

lemma size_dget_or_less: "size v < size (JDict d) \<Longrightarrow> size (dget_or d k v) < size (JDict d)"
  using size_dget_or [of d k v] by auto

lemma size_children: "children_of j = Inr xs \<Longrightarrow> x \<in> set xs \<Longrightarrow> size x < size j"
  by (cases j) (auto simp: children_of_def less_Suc_eq_le intro: size_list_estimation' split: if_splits)

definition composite_children :: "json \<Rightarrow> json list res" where
  "composite_children cfg =
     with_dict (json_or cfg (JDict [])) (\<lambda>d. children_of (json_or (dget_or d ''rules'' (JList [])) (JList [])))"

definition child_config_or_empty :: "dict \<Rightarrow> json" where
  "child_config_or_empty cd = json_or (dget_or cd ''config'' (JDict [])) (JDict [])"

lemma size_composite_children:
  assumes "composite_children cfg = Inr kids" "child \<in> set kids"
  shows "size child < size cfg"
proof -
  obtain d where d: "json_or cfg (JDict []) = JDict d"
    and k: "children_of (json_or (dget_or d ''rules'' (JList [])) (JList [])) = Inr kids"
    using assms(1) by (auto simp: composite_children_def with_dict_Inr)
  let ?j = "dget_or d ''rules'' (JList [])"
  have tj: "truthy ?j"
    using k assms(2) by (auto simp: json_or_def children_of_def split: if_splits)
  then have "size ?j < size (JDict d)"
    using size_dget_or [of d "''rules''" "JList []"] by auto
  moreover have "d \<noteq> []" using tj by auto
  then have "cfg = JDict d" using d by (auto simp: json_or_def split: if_splits)
  moreover have "size child < size ?j"
    using size_children [OF _ assms(2), of ?j] k tj by (simp add: json_or_def)
  ultimately show ?thesis by simp
qed

lemma size_child_config: "size (child_config_or_empty cd) \<le> size (JDict cd)"
  using size_dget_or [of cd "''config''" "JDict []"]
  by (auto simp: child_config_or_empty_def json_or_def simp del: json.size)
    (auto simp: json.size)

function effective_rule_tier :: "'r registry \<Rightarrow> json \<Rightarrow> json \<Rightarrow> int res" where
  "effective_rule_tier G ty cfg =
     (if ty = JStr ''composite'' then
        bindR (composite_children cfg) (\<lambda>children.
          bindR (map_res (\<lambda>child. with_dict child (\<lambda>cd.
                   effective_rule_tier G (dget_or cd ''type'' (JStr [])) (child_config_or_empty cd))) children)
            (\<lambda>child_tiers. Inr (foldl max 2 child_tiers)))
      else leaf_tier G ty)"
  by pat_completeness auto

termination
proof (relation "measure (\<lambda>(_, _, cfg). size cfg)")
  fix G :: "'r registry" and ty cfg children child cd
  assume "composite_children cfg = Inr children" "child \<in> set children" "child = JDict cd"
  then show "((G, dget_or cd ''type'' (JStr []), child_config_or_empty cd), (G, ty, cfg)) \<in> measure (\<lambda>(_, _, cfg). size cfg)"
    using size_composite_children size_child_config [of cd] by (force intro: le_less_trans)
qed simp

declare effective_rule_tier.simps [simp del]

section \<open>Rule trees\<close>

datatype rule_node =
    AtomicRuleNode json json
  | AndNode "rule_node list"
  | OrNode "rule_node list"
  | NotNode rule_node

definition violation :: "string \<Rightarrow> vmsg \<Rightarrow> 'a res" where
  "violation ty m = Inl (RuleViolationError ty m)"

text \<open>\<^verbatim>\<open>len(x)\<close>\<close>

fun py_len :: "json \<Rightarrow> nat res" where
  "py_len (JList xs) = Inr (length xs)"
| "py_len (JStr s) = Inr (length s)"
| "py_len (JDict d) = Inr (length d)"
| "py_len _ = Inl (PyExc ''TypeError'')"

text \<open>The single child of a NOT: \<^verbatim>\<open>child_rules[0]\<close>, which a dictionary does not have.\<close>

definition only_child :: "json \<Rightarrow> json res" where
  "only_child j =
     bindR (py_len j) (\<lambda>n.
       if n \<noteq> 1 then violation ''composite'' NotNeedsOneRule
       else (case j of
               JList (x # _) \<Rightarrow> Inr x
             | JDict _ \<Rightarrow> Inl (PyExc ''KeyError'')
             | _ \<Rightarrow> Inl (PyExc ''AttributeError'')))"

definition node_type :: "dict \<Rightarrow> json" where
  "node_type d = dget_or d ''type'' (JStr [])"

definition node_config :: "dict \<Rightarrow> json" where
  "node_config d = dget_or d ''config'' (JDict [])"

lemma size_only_child: "only_child j = Inr x \<Longrightarrow> size x < size j"
  by (cases j) (auto simp: only_child_def violation_def split: list.splits if_splits)

lemma size_rules_of_node:
  assumes "node_config d = JDict cd" "cd \<noteq> []"
  shows "size (dget_or cd ''rules'' (JList [])) < size (JDict d)"
  using assms size_dget_or [of d "''config''" "JDict []"] size_dget_or [of cd "''rules''" "JList []"]
  by (auto simp: node_config_def)

lemma size_node_child:
  assumes "node_config d = JDict cd" "children_of (dget_or cd ''rules'' (JList [])) = Inr xs" "x \<in> set xs"
  shows "size x < size (JDict d)"
proof -
  have "cd \<noteq> []" using assms(2,3) by (auto simp: children_of_def)
  with size_rules_of_node [OF assms(1)] size_children [OF assms(2,3)] show ?thesis by simp
qed

lemma size_node_only_child:
  assumes "node_config d = JDict cd" "only_child (dget_or cd ''rules'' (JList [])) = Inr x"
  shows "size x < size (JDict d)"
proof -
  have "cd \<noteq> []" using assms(2) by (auto simp: only_child_def violation_def)
  with size_rules_of_node [OF assms(1)] size_only_child [OF assms(2)] show ?thesis by simp
qed

text \<open>
  \<^verbatim>\<open>build_rule_node\<close>. The operator is looked up in a dictionary of node classes, so an unhashable
  one is a \<^verbatim>\<open>TypeError\<close> and an unknown one a violation; the type of an atomic rule is looked up likewise.
\<close>

function build_rule_node :: "json \<Rightarrow> rule_node res" where
  "build_rule_node rule_data =
     with_dict rule_data (\<lambda>d.
       if node_type d = JStr ''composite'' then
         with_dict (node_config d) (\<lambda>cd.
           let operator = dget_or cd ''operator'' (JStr ''and''); child_rules = dget_or cd ''rules'' (JList []) in
           if operator = JStr ''not'' then
             bindR (only_child child_rules) (\<lambda>child.
               bindR (build_rule_node child) (\<lambda>child_node. Inr (NotNode child_node)))
           else if \<not> hashable operator then Inl (PyExc ''TypeError'')
           else if operator \<noteq> JStr ''and'' \<and> operator \<noteq> JStr ''or'' then
             violation ''composite'' (UnknownOperator operator)
           else bindR (children_of child_rules) (\<lambda>cs.
             bindR (map_res build_rule_node cs) (\<lambda>children.
               Inr (if operator = JStr ''and'' then AndNode children else OrNode children))))
       else if \<not> hashable (node_type d) then Inl (PyExc ''TypeError'')
       else Inr (AtomicRuleNode (node_type d) (node_config d)))"
  by pat_completeness auto

termination
  by (relation "measure size") (auto intro: size_node_child size_node_only_child simp del: json.size)

declare build_rule_node.simps [simp del]

section \<open>Evaluation\<close>

definition MAX_EVAL_DEPTH :: nat where
  "MAX_EVAL_DEPTH = 10"

text \<open>
  An atomic node: the validator class is looked up by type; the configuration of the context is
  replaced for the check and put back on every path; a violation is remembered, \<^verbatim>\<open>Forbidden\<close> passes
  through, any other exception counts as not passed.
\<close>

definition lookup_class :: "'r registry \<Rightarrow> json \<Rightarrow> 'r validator_class option" where
  "lookup_class G ty = (case ty of JStr s \<Rightarrow> get_validator G s | _ \<Rightarrow> None)"

definition evaluate_atomic :: "'r registry \<Rightarrow> 'r world \<Rightarrow> json \<Rightarrow> json \<Rightarrow> bool step" where
  "evaluate_atomic G W ty cfg c =
     (case lookup_class G ty of
        None \<Rightarrow> (Inr False, c\<lparr>last_violation := Some (text_of ty, UnknownRuleType)\<rparr>)
      | Some vc \<Rightarrow>
          (case vc_check vc W (c\<lparr>config := cfg\<rparr>) of
             (r, c') \<Rightarrow>
               (let c'' = c'\<lparr>config := config c\<rparr> in
                case r of
                  Inr _ \<Rightarrow> (Inr True, c'')
                | Inl (RuleViolationError t m) \<Rightarrow> (Inr False, c''\<lparr>last_violation := Some (t, m)\<rparr>)
                | Inl (Forbidden m) \<Rightarrow> (Inl (Forbidden m), c'')
                | Inl _ \<Rightarrow> (Inr False, c''))))"

fun evaluate :: "'r registry \<Rightarrow> 'r world \<Rightarrow> rule_node \<Rightarrow> nat \<Rightarrow> bool step"
  and evaluate_all :: "'r registry \<Rightarrow> 'r world \<Rightarrow> rule_node list \<Rightarrow> nat \<Rightarrow> bool step"
  and evaluate_any :: "'r registry \<Rightarrow> 'r world \<Rightarrow> rule_node list \<Rightarrow> nat \<Rightarrow> bool step" where
  "evaluate G W (AtomicRuleNode ty cfg) depth = evaluate_atomic G W ty cfg"
| "evaluate G W (AndNode rules) depth =
     (if depth > MAX_EVAL_DEPTH then raiseS (RuleViolationError ''composite'' NestingTooDeep)
      else evaluate_all G W rules (depth + 1))"
| "evaluate G W (OrNode rules) depth =
     (if depth > MAX_EVAL_DEPTH then raiseS (RuleViolationError ''composite'' NestingTooDeep)
      else evaluate_any G W rules (depth + 1))"
| "evaluate G W (NotNode rule) depth =
     (if depth > MAX_EVAL_DEPTH then raiseS (RuleViolationError ''composite'' NestingTooDeep)
      else bindS (evaluate G W rule (depth + 1)) (\<lambda>b. retS (\<not> b)))"
| "evaluate_all G W [] depth = retS True"
| "evaluate_all G W (rule # rules) depth =
     bindS (evaluate G W rule depth) (\<lambda>b. if b then evaluate_all G W rules depth else retS False)"
| "evaluate_any G W [] depth = retS False"
| "evaluate_any G W (rule # rules) depth =
     bindS (evaluate G W rule depth) (\<lambda>b. if b then retS True else evaluate_any G W rules depth)"

section \<open>Phase 1\<close>

definition check_version :: "'r registry \<Rightarrow> queue_rule \<Rightarrow> bool" where
  "check_version G rule =
     (case get_validator G (rule_type rule) of
        None \<Rightarrow> True
      | Some vc \<Rightarrow> rule_version rule \<in> set (vc_versions vc))"

definition get_tier :: "'r registry \<Rightarrow> queue_rule \<Rightarrow> int res" where
  "get_tier G rule = effective_rule_tier G (JStr (rule_type rule)) (config_or_empty (rule_config rule))"

definition build_node :: "queue_rule \<Rightarrow> rule_node res" where
  "build_node rule =
     build_rule_node (JDict [(''type'', JStr (rule_type rule)), (''config'', config_or_empty (rule_config rule))])"

text \<open>Evaluate one rule and turn a rejection into the violation that caused it.\<close>

definition phase1_rule :: "'r registry \<Rightarrow> 'r world \<Rightarrow> queue_rule \<Rightarrow> unit step" where
  "phase1_rule G W rule c =
     (case build_node rule of
        Inl e \<Rightarrow> (Inl e, c)
      | Inr node \<Rightarrow>
          (case evaluate G W node 0 (c\<lparr>last_violation := None\<rparr>) of
             (Inr True, c') \<Rightarrow> (Inr (), c')
           | (Inr False, c') \<Rightarrow>
               (case last_violation c' of
                  Some (t, m) \<Rightarrow> (Inl (RuleViolationError t m), c')
                | None \<Rightarrow> (Inl (RuleViolationError (rule_type rule) RejectedByRule), c'))
           | (Inl (RuleViolationError t m), c') \<Rightarrow> (Inl (RuleViolationError t m), c')
           | (Inl (Forbidden m), c') \<Rightarrow> (Inl (Forbidden m), c')
           | (Inl e, c') \<Rightarrow> (Inl (RuleViolationError (rule_type rule) (ValidationErrorText [])), c')))"

fun phase1_run :: "'r registry \<Rightarrow> 'r world \<Rightarrow> queue_rule list \<Rightarrow> unit step" where
  "phase1_run G W [] = retS ()"
| "phase1_run G W (rule # rules) =
     (if \<not> is_active rule \<or> rule_type rule \<in> set STATEFUL_RULE_TYPES \<or> \<not> check_version G rule
      then phase1_run G W rules
      else bindS (liftS (get_tier G rule)) (\<lambda>tier.
        if tier \<notin> {1, 2} then phase1_run G W rules
        else bindS (phase1_rule G W rule) (\<lambda>_. phase1_run G W rules)))"

section \<open>The context around an evaluation\<close>

lemma evaluate_atomic_config [simp]: "config (snd (evaluate_atomic G W ty cfg c)) = config c"
  by (auto simp: evaluate_atomic_def Let_def split: option.splits prod.splits sum.splits exn.splits)

lemma bindS_config:
  assumes "\<And>c. config (snd (m c)) = config c" "\<And>x c. config (snd (f x c)) = config c"
  shows "config (snd (bindS m f c)) = config c"
  using bindS_invariant [of "\<lambda>c'. config c' = config c" c m f] assms by simp

lemma evaluate_config:
  "config (snd (evaluate G W node depth c)) = config c"
  "config (snd (evaluate_all G W nodes depth c)) = config c"
  "config (snd (evaluate_any G W nodes depth c)) = config c"
proof (induction G W node depth and G W nodes depth and G W nodes depth arbitrary: c and c and c
    rule: evaluate_evaluate_all_evaluate_any.induct)
qed (auto intro!: bindS_config)

text \<open>Contexts that differ at most in the remembered violation and the metadata cache.\<close>

definition ctx_core :: "exec_context \<Rightarrow> exec_context" where
  "ctx_core c = c\<lparr>last_violation := None, provider_cache := []\<rparr>"

text \<open>The truth value of a tree, given that of its leaves.\<close>

fun sem :: "(json \<Rightarrow> json \<Rightarrow> bool) \<Rightarrow> rule_node \<Rightarrow> bool" where
  "sem v (AtomicRuleNode ty cfg) = v ty cfg"
| "sem v (AndNode rules) = (\<forall>r \<in> set rules. sem v r)"
| "sem v (OrNode rules) = (\<exists>r \<in> set rules. sem v r)"
| "sem v (NotNode rule) = (\<not> sem v rule)"

fun leaves :: "rule_node \<Rightarrow> (json \<times> json) set" where
  "leaves (AtomicRuleNode ty cfg) = {(ty, cfg)}"
| "leaves (AndNode rules) = (\<Union>r \<in> set rules. leaves r)"
| "leaves (OrNode rules) = (\<Union>r \<in> set rules. leaves r)"
| "leaves (NotNode rule) = leaves rule"

text \<open>The nesting of composite nodes.\<close>

fun nesting :: "rule_node \<Rightarrow> nat" where
  "nesting (AtomicRuleNode ty cfg) = 0"
| "nesting (AndNode rules) = Suc (foldr (max \<circ> nesting) rules 0)"
| "nesting (OrNode rules) = Suc (foldr (max \<circ> nesting) rules 0)"
| "nesting (NotNode rule) = Suc (nesting rule)"

text \<open>A leaf is decided when its check gives the same truth value in every context with the same core.\<close>

definition decided :: "'r registry \<Rightarrow> 'r world \<Rightarrow> exec_context \<Rightarrow> (json \<Rightarrow> json \<Rightarrow> bool) \<Rightarrow> (json \<times> json) set \<Rightarrow> bool" where
  "decided G W c0 v ls \<longleftrightarrow>
     (\<forall>(ty, cfg) \<in> ls. \<forall>c. ctx_core c = ctx_core c0 \<longrightarrow>
        (\<exists>c'. evaluate_atomic G W ty cfg c = (Inr (v ty cfg), c') \<and> ctx_core c' = ctx_core c0))"

lemma nesting_Cons:
  "nesting rule + d \<le> foldr (max \<circ> nesting) (rule # rules) 0 + d"
  "foldr (max \<circ> nesting) rules 0 \<le> foldr (max \<circ> nesting) (rule # rules) 0"
  by auto

lemma evaluate_sem:
  "decided G W c0 v (leaves node) \<Longrightarrow> nesting node + depth \<le> MAX_EVAL_DEPTH + 1 \<Longrightarrow> ctx_core c = ctx_core c0 \<Longrightarrow>
     \<exists>c'. evaluate G W node depth c = (Inr (sem v node), c') \<and> ctx_core c' = ctx_core c0"
  "decided G W c0 v (\<Union>r \<in> set nodes. leaves r) \<Longrightarrow>
   foldr (max \<circ> nesting) nodes 0 + depth \<le> MAX_EVAL_DEPTH + 1 \<Longrightarrow> ctx_core c = ctx_core c0 \<Longrightarrow>
     \<exists>c'. evaluate_all G W nodes depth c = (Inr (\<forall>r \<in> set nodes. sem v r), c') \<and> ctx_core c' = ctx_core c0"
  "decided G W c0 v (\<Union>r \<in> set nodes. leaves r) \<Longrightarrow>
   foldr (max \<circ> nesting) nodes 0 + depth \<le> MAX_EVAL_DEPTH + 1 \<Longrightarrow> ctx_core c = ctx_core c0 \<Longrightarrow>
     \<exists>c'. evaluate_any G W nodes depth c = (Inr (\<exists>r \<in> set nodes. sem v r), c') \<and> ctx_core c' = ctx_core c0"
proof (induction G W node depth and G W nodes depth and G W nodes depth arbitrary: c and c and c
    rule: evaluate_evaluate_all_evaluate_any.induct)
  case (1 G W ty cfg depth)
  then show ?case by (auto simp: decided_def)
next
  case (4 G W rule depth)
  then show ?case by (force simp: bindS_def)
next
  case (6 G W rule rules depth)
  have d: "decided G W c0 v (leaves rule)" "decided G W c0 v (\<Union>r \<in> set rules. leaves r)"
    using 6(3) by (auto simp: decided_def)
  obtain c1 where c1: "evaluate G W rule depth c = (Inr (sem v rule), c1)" "ctx_core c1 = ctx_core c0"
    using 6(1) [OF d(1) order_trans [OF nesting_Cons(1) 6(4)] 6(5)] by blast
  have "foldr (max \<circ> nesting) rules 0 + depth \<le> MAX_EVAL_DEPTH + 1"
    using 6(4) nesting_Cons(2) [of rules rule] by linarith
  then have "\<exists>c'. evaluate_all G W rules depth c1 = (Inr (\<forall>r \<in> set rules. sem v r), c') \<and> ctx_core c' = ctx_core c0"
    using 6(2) [of True] d(2) c1(2) by blast
  with c1 show ?case by (cases "sem v rule") (auto simp: bindS_def)
next
  case (8 G W rule rules depth)
  have d: "decided G W c0 v (leaves rule)" "decided G W c0 v (\<Union>r \<in> set rules. leaves r)"
    using 8(3) by (auto simp: decided_def)
  obtain c1 where c1: "evaluate G W rule depth c = (Inr (sem v rule), c1)" "ctx_core c1 = ctx_core c0"
    using 8(1) [OF d(1) order_trans [OF nesting_Cons(1) 8(4)] 8(5)] by blast
  have "foldr (max \<circ> nesting) rules 0 + depth \<le> MAX_EVAL_DEPTH + 1"
    using 8(4) nesting_Cons(2) [of rules rule] by linarith
  then have "\<exists>c'. evaluate_any G W rules depth c1 = (Inr (\<exists>r \<in> set rules. sem v r), c') \<and> ctx_core c' = ctx_core c0"
    using 8(2) [of False] d(2) c1(2) by blast
  with c1 show ?case by (cases "sem v rule") (auto simp: bindS_def)
qed auto

end
