(* ===== verification/Rule_Soundness.thy ===== *)
theory Rule_Soundness
  imports Rule_Engine
begin

text \<open>
  The link between the configuration schemas and the rule engine: a configuration the schema
  accepts has the shape the validator of its type relies on, so the validator decides the rule and
  never fails in another way; a composite the schema accepts can be built into a tree the
  evaluator accepts.
\<close>

section \<open>The contracts of the beatmap validators, by type\<close>

definition beatmap_contracts ::
  "(string \<times> (dict \<Rightarrow> bool) \<times> (dict \<Rightarrow> beatmapset \<Rightarrow> beatmap list \<Rightarrow> bool)) list" where
  "beatmap_contracts =
     [(''beatmap_duration'', duration_config_ok, duration_spec),
      (''beatmap_star_rating'', bounds_ok ''min'' ''max'', star_rating_spec),
      (''beatmap_ar_range'', bounds_ok ''min'' ''max'', range_spec ar),
      (''beatmap_od_range'', bounds_ok ''min'' ''max'', range_spec accuracy),
      (''beatmap_hp_range'', bounds_ok ''min'' ''max'', range_spec drain),
      (''beatmap_cs_range'', bounds_ok ''min'' ''max'', range_spec cs),
      (''beatmap_drain_range'', bounds_ok ''min'' ''max'', range_spec (\<lambda>b. of_int (hit_length b))),
      (''beatmap_bpm'', bounds_ok ''min_bpm'' ''max_bpm'', bpm_spec),
      (''beatmap_genre'', id_list_ok ''genre_ids'', id_spec ''genre_ids'' genre),
      (''beatmap_language'', id_list_ok ''language_ids'', id_spec ''language_ids'' language),
      (''beatmap_mode'', mode_list_ok, mode_spec),
      (''beatmap_difficulty_count'', bounds_ok ''min'' ''max'', count_spec),
      (''beatmap_storyboard'', (\<lambda>_. True), feature_spec storyboard),
      (''beatmap_video'', (\<lambda>_. True), feature_spec video),
      (''beatmap_tags'', id_list_ok ''tag_ids'', tags_spec),
      (''beatmap_length'',
        (\<lambda>d. bounds_ok ''min_hit_length'' ''max_hit_length'' d \<and> bounds_ok ''min_total_length'' ''max_total_length'' d),
        length_spec)]"

lemmas beatmap_rule_axioms_all =
  duration.beatmap_rule_axioms star_rating.beatmap_rule_axioms ar.beatmap_rule_axioms od.beatmap_rule_axioms
  hp.beatmap_rule_axioms cs.beatmap_rule_axioms drain.beatmap_rule_axioms bpm.beatmap_rule_axioms
  genre.beatmap_rule_axioms language.beatmap_rule_axioms mode.beatmap_rule_axioms
  difficulty_count.beatmap_rule_axioms storyboard.beatmap_rule_axioms video.beatmap_rule_axioms
  tags.beatmap_rule_axioms length.beatmap_rule_axioms

lemma contract_rule:
  assumes "map_of beatmap_contracts ty = Some (ok, spec)"
  obtains chk where "map_of beatmap_validators ty = Some chk" "beatmap_rule ty chk ok spec"
proof -
  have "\<exists>chk. map_of beatmap_validators ty = Some chk \<and> beatmap_rule ty chk ok spec"
    using assms unfolding beatmap_contracts_def
    by (auto simp: beatmap_validators_def split: if_splits intro: beatmap_rule_axioms_all)
  then show ?thesis using that by blast
qed

section \<open>Accepted configurations have the shape the validators rely on\<close>

lemma has_type_bound [simp]:
  "has_type (TOpt TFloat) v \<Longrightarrow> bound_ok v" "has_type (TOpt TInt) v \<Longrightarrow> bound_ok v"
  by (auto split: json.splits)

lemma has_type_num: "has_type (TOpt TInt) v \<Longrightarrow> v \<noteq> JNull \<Longrightarrow> num_of v \<noteq> None"
  by (auto split: json.splits)

lemma has_type_ints:
  assumes "has_type (TList t) v" "t = TInt \<or> (\<exists>ns. t = TLitInt ns)"
  obtains ids where "v = JList (map JInt ids)"
proof -
  obtain xs where v: "v = JList xs" and xs: "\<forall>x \<in> set xs. has_type t x"
    using assms(1) by (auto split: json.splits)
  have "\<forall>x \<in> set xs. x \<in> range JInt"
    using xs assms(2) by (auto split: json.splits)
  then have "\<exists>ids. xs = map JInt ids"
    by (metis ex_map_conv rangeE)
  with v that show ?thesis by blast
qed

lemma has_type_strs:
  assumes "has_type (TList (TLitStr ss)) v"
  obtains ids where "v = JList (map JStr ids)"
proof -
  obtain xs where v: "v = JList xs" and xs: "\<forall>x \<in> set xs. has_type (TLitStr ss) x"
    using assms(1) by (auto split: json.splits)
  have "x \<in> range JStr" if "has_type (TLitStr ss) x" for x
    using that by (cases x) auto
  with xs have "\<forall>x \<in> set xs. x \<in> range JStr" by blast
  then have "\<exists>ids. xs = map JStr ids"
    by (metis ex_map_conv rangeE)
  with v that show ?thesis by blast
qed

lemma dump_id_list_ok:
  assumes "distinct (map fst obj)" "has_type (TList t) (dget obj key)" "t = TInt \<or> (\<exists>ns. t = TLitInt ns)"
  shows "id_list_ok key (model_dump_exclude_none obj)"
  using has_type_ints [OF assms(2,3)] by (metis assms(1) id_list_ok_def json.distinct(9) map_of_dump)

lemma dump_mode_list_ok:
  assumes "distinct (map fst obj)" "has_type (TList (TLitStr ss)) (dget obj ''allowed_modes'')"
  shows "mode_list_ok (model_dump_exclude_none obj)"
  using has_type_strs [OF assms(2)] by (metis assms(1) mode_list_ok_def json.distinct(9) map_of_dump)

lemma typed_field:
  "well_typed_obj cls obj \<Longrightarrow> (k, t, v) \<in> set (cls_fields cls) \<Longrightarrow> has_type t (dget obj k)"
  by (auto simp: well_typed_obj_def)

text \<open>Every leaf class produces objects its validator understands.\<close>

lemma object_shape_ok:
  assumes wf: "class_wf cls" and wt: "well_typed_obj cls obj"
    and cls: "map_of leaf_schema_map ty = Some cls" and con: "map_of beatmap_contracts ty = Some (ok, spec)"
  shows "ok (model_dump_exclude_none obj)"
proof -
  note dist = well_typed_distinct [OF wf wt]
  note field = typed_field [OF wt]
  have bounds: "bounds_ok kmin kmax (model_dump_exclude_none obj)"
    if "opt kmin TFloat \<in> set (cls_fields cls) \<and> opt kmax TFloat \<in> set (cls_fields cls) \<or>
        opt kmin TInt \<in> set (cls_fields cls) \<and> opt kmax TInt \<in> set (cls_fields cls)" for kmin kmax
    using that field has_type_bound unfolding bounds_ok_def dget_dump [OF dist] by blast
  have ids: "id_list_ok key (model_dump_exclude_none obj)"
    if "req key (TList t) \<in> set (cls_fields cls)" "t = TInt \<or> (\<exists>ns. t = TLitInt ns)" for key t
    using dump_id_list_ok [OF dist field [OF that(1)] that(2)] .
  have modes: "mode_list_ok (model_dump_exclude_none obj)"
    if "req ''allowed_modes'' (TList (TLitStr ss)) \<in> set (cls_fields cls)" for ss
    using dump_mode_list_ok [OF dist field [OF that]] .
  have dur: "duration_config_ok (model_dump_exclude_none obj)"
    if "opt ''min_seconds'' TInt \<in> set (cls_fields cls)" "opt ''max_seconds'' TInt \<in> set (cls_fields cls)"
    using has_type_num [OF field [OF that(1)]] has_type_bound(2) [OF field [OF that(2)]]
    by (simp add: duration_config_ok_def dget_or_dump [OF dist] dist)
  show ?thesis
    using cls con unfolding leaf_schema_map_def beatmap_contracts_def
    by (auto split: if_splits simp: class_defs intro!: bounds ids modes dur)
qed

lemma leaf_class_inhabited:
  "map_of leaf_schema_map ty = Some cls \<Longrightarrow>
   list_ex (\<lambda>(k, t, v). \<not> has_type t JNull) (cls_fields cls) \<or> cls = DifficultyCountConfig"
  unfolding leaf_schema_map_def by (auto split: if_splits simp: class_defs)

lemma construct_model_validator:
  "construct parse cls given = Inr obj \<Longrightarrow> model_validator cls obj = Inr ()"
  by (auto simp: construct_def bindR_eq_Inr as_validation_def split: option.splits if_splits)

lemma dump_nonempty:
  assumes snd: "pydantic_sound parse" and cls: "map_of leaf_schema_map ty = Some cls" and wf: "class_wf cls"
    and con: "construct parse cls given = Inr obj"
  shows "model_dump_exclude_none obj \<noteq> []"
proof -
  note wt = parse_well_typed [OF snd wf construct_parse [OF con]]
  note dist = well_typed_distinct [OF wf wt]
  have ex: "model_dump_exclude_none obj \<noteq> []" if "dget obj k \<noteq> JNull" for k
    using map_of_dump [OF dist, of k] that by auto
  show ?thesis
  proof (cases "cls = DifficultyCountConfig")
    case True
    have "dget obj ''min'' \<noteq> JNull \<or> dget obj ''max'' \<noteq> JNull"
      using construct_model_validator [OF con] True
      by (auto simp: DifficultyCountConfig_def validate_bounds_def some_bound_def bindR_eq_Inr split: if_splits)
    with ex show ?thesis by blast
  next
    case False
    then obtain k t v where "(k, t, v) \<in> set (cls_fields cls)" "\<not> has_type t JNull"
      using leaf_class_inhabited [OF cls] by (auto simp: list_ex_iff)
    with typed_field [OF wt] ex show ?thesis by metis
  qed
qed

lemma map_of_leaf_schema:
  "map_of (RULE_CONFIG_SCHEMA_MAP parse) ty = (if ty = ''composite'' then Some (CompositeConfig parse) else map_of leaf_schema_map ty)"
  by (simp add: RULE_CONFIG_SCHEMA_MAP_def map_add_def leaf_schema_map_def)

lemma validate_rule_config_leaf:
  "ty \<noteq> ''composite'' \<Longrightarrow> validate_rule_config parse ty cfg = validate_leaf_config parse ty cfg"
  by (simp add: validate_rule_config_def validate_leaf_config_def map_of_leaf_schema)

lemma contract_has_schema:
  "map_of beatmap_contracts ty = Some osp \<Longrightarrow> \<exists>cls. map_of leaf_schema_map ty = Some cls"
  unfolding beatmap_contracts_def by (auto simp: leaf_schema_map_def split: if_splits)

lemma validated_leaf_shape:
  assumes snd: "pydantic_sound parse" and con: "map_of beatmap_contracts ty = Some (ok, spec)"
    and v: "validate_leaf_config parse ty cfg = Inr cfg'"
  shows "ok cfg'" and "cfg' \<noteq> []"
proof -
  obtain cls where cls: "map_of leaf_schema_map ty = Some cls"
    using contract_has_schema [OF con] by blast
  then have wf: "class_wf cls"
    using leaf_classes_wf by (auto simp: list_all_iff dest!: map_of_SomeD)
  obtain obj where obj: "construct parse cls cfg = Inr obj" and cfg': "cfg' = model_dump_exclude_none obj"
    using v cls by (auto simp: validate_leaf_config_def bindR_eq_Inr)
  show "ok cfg'"
    using object_shape_ok [OF wf parse_well_typed [OF snd wf construct_parse [OF obj]] cls con] cfg' by simp
  show "cfg' \<noteq> []"
    using dump_nonempty [OF snd cls wf obj] cfg' by simp
qed

section \<open>The registered check decides the rule\<close>

lemma map_of_map_keyed: "map_of (map (\<lambda>(k, v). (k, f k v)) xs) k = map_option (f k) (map_of xs k)"
  by (induction xs) auto

lemma get_validator_beatmap:
  assumes "map_of beatmap_validators ty = Some chk"
  shows "get_validator (default_registry :: 'r registry) ty =
     Some \<lparr>vc_check = (\<lambda>_. restriction_check ty (beatmap_check ty chk)), vc_versions = supported_versions ty\<rparr>"
proof -
  have "map_of beatmap_validators x = None"
    if "x \<in> {''rate_limit'', ''cooldown'', ''blacklist'', ''never_ranked'', ''unique_artist_title''}" for x
    using that by (elim insertE emptyE) (simp_all add: beatmap_validators_def)
  with assms have ne: "ty \<notin> {''rate_limit'', ''cooldown'', ''blacklist'', ''never_ranked'', ''unique_artist_title''}"
    by force
  have "map_of (TIER_1_VALIDATORS :: (string \<times> 'r validator_class) list) ty = None"
    and "map_of (TIER_3_VALIDATORS :: (string \<times> 'r validator_class) list) ty = None"
    using ne by (simp_all add: TIER_1_VALIDATORS_def TIER_3_VALIDATORS_def)
  then show ?thesis
    using assms
    by (simp add: get_validator_def default_registry_def map_add_def TIER_2_VALIDATORS_def map_of_map_keyed)
qed

lemma registered_check_decides:
  assumes snd: "pydantic_sound parse" and con: "map_of beatmap_contracts ty = Some (ok, spec)"
    and v: "validate_leaf_config parse ty cfg = Inr cfg'"
    and c: "config c = JDict cfg'" "cx_beatmapset c = Some s"
    and vc: "get_validator default_registry ty = Some vc"
  shows "\<exists>m. vc_check vc W c =
     (if spec cfg' s (ctx_beatmaps c) then Inr () else Inl (RuleViolationError ty m), c)"
proof -
  obtain chk where chk: "map_of beatmap_validators ty = Some chk" and br: "beatmap_rule ty chk ok spec"
    using contract_rule [OF con] by blast
  note shape = validated_leaf_shape [OF snd con v]
  have "vc_check vc W = restriction_check ty (beatmap_check ty chk)"
    using vc unfolding get_validator_beatmap [OF chk] by auto
  then show ?thesis
    using beatmap_rule.full_check [OF br c(1) shape(2,1) c(2)]
      beatmap_rule.outcome(2) [OF br c(1) shape(1) c(2)] by (auto split: if_splits)
qed

lemma evaluate_atomic_beatmap:
  assumes snd: "pydantic_sound parse" and con: "map_of beatmap_contracts ty = Some (ok, spec)"
    and v: "validate_leaf_config parse ty cfg = Inr cfg'" and s: "cx_beatmapset c = Some s"
  shows "\<exists>c'. evaluate_atomic default_registry W (JStr ty) (JDict cfg') c =
     (Inr (spec cfg' s (ctx_beatmaps c)), c') \<and> ctx_core c' = ctx_core c"
proof -
  obtain chk where chk: "map_of beatmap_validators ty = Some chk"
    using contract_rule [OF con] by blast
  obtain m where "restriction_check ty (beatmap_check ty chk) (c\<lparr>config := JDict cfg'\<rparr>) =
      (if spec cfg' s (ctx_beatmaps c) then Inr () else Inl (RuleViolationError ty m), c\<lparr>config := JDict cfg'\<rparr>)"
    using registered_check_decides [OF snd con v _ _ get_validator_beatmap [OF chk],
        of "c\<lparr>config := JDict cfg'\<rparr>" s] s
    by (auto simp: ctx_beatmaps_def)
  then show ?thesis
    by (auto simp: evaluate_atomic_def lookup_class_def get_validator_beatmap [OF chk] Let_def ctx_core_def)
qed

end
