(* ===== verification/Rule_Composite.thy ===== *)
theory Rule_Composite
  imports Rule_Soundness
begin

text \<open>
  Composite rules: what \<^verbatim>\<open>_validate_composite_tree\<close> accepts, \<^verbatim>\<open>build_rule_node\<close> builds. The tree of an
  accepted composite stays within the evaluator's depth limit and its leaves are known rules
  outside Tier 1 whose configurations passed their own schema.
\<close>

section \<open>Accepted leaves\<close>

definition leaf_ok :: "parser \<Rightarrow> json \<times> json \<Rightarrow> bool" where
  "leaf_ok parse l \<longleftrightarrow>
     (\<exists>ty d d'. l = (JStr ty, JDict d) \<and> ty \<notin> set COMPOSITE_DISALLOWED_CHILD_TYPES \<and>
        map_of leaf_schema_map ty \<noteq> None \<and> validate_leaf_config parse ty d = Inr d')"

definition node_ok :: "parser \<Rightarrow> nat \<Rightarrow> rule_node \<Rightarrow> bool" where
  "node_ok parse depth n \<longleftrightarrow>
     nesting n + depth \<le> MAX_COMPOSITE_DEPTH \<and> (\<forall>l \<in> leaves n. leaf_ok parse l)"

lemma foldr_max_bound:
  "(\<forall>n \<in> set ns. nesting n + d \<le> b) \<Longrightarrow> d \<le> b \<Longrightarrow> foldr (max \<circ> nesting) ns 0 + d \<le> (b :: nat)"
  by (induction ns) auto

lemma composite_node_ok:
  assumes "\<forall>n \<in> set ns. node_ok parse (Suc depth) n" "Suc depth \<le> MAX_COMPOSITE_DEPTH"
  shows "node_ok parse depth (AndNode ns)" "node_ok parse depth (OrNode ns)"
    and "ns = [n] \<Longrightarrow> node_ok parse depth (NotNode n)"
  using assms foldr_max_bound [of ns "Suc depth" MAX_COMPOSITE_DEPTH]
  by (auto simp: node_ok_def)

section \<open>Accepted children\<close>

text \<open>One accepted child, with what is known of its own children when it is a composite.\<close>

definition child_accepted :: "parser \<Rightarrow> nat \<Rightarrow> json \<Rightarrow> bool" where
  "child_accepted parse depth child \<longleftrightarrow>
     (\<exists>n. build_rule_node child = Inr n \<and> node_ok parse depth n)"

lemma map_res_build:
  assumes "\<forall>x \<in> set xs. child_accepted parse depth x"
  obtains ns where "map_res build_rule_node xs = Inr ns" "length ns = length xs" "\<forall>n \<in> set ns. node_ok parse depth n"
proof -
  have "\<exists>ns. map_res build_rule_node xs = Inr ns \<and> length ns = length xs \<and> (\<forall>n \<in> set ns. node_ok parse depth n)"
    using assms
  proof (induction xs)
    case (Cons x xs)
    then show ?case by (fastforce simp: child_accepted_def)
  qed simp
  with that show ?thesis by blast
qed

lemma build_composite:
  assumes ty: "node_type d = JStr ''composite''" and cfg: "node_config d = JDict cd"
    and op: "dget cd ''operator'' \<in> {JStr ''and'', JStr ''or'', JStr ''not''}"
    and kids: "dget_or cd ''rules'' (JList []) = JList xs" and one: "dget cd ''operator'' = JStr ''not'' \<longrightarrow> length xs = 1"
    and acc: "\<forall>x \<in> set xs. child_accepted parse (Suc depth) x" and d: "Suc depth \<le> MAX_COMPOSITE_DEPTH"
  shows "child_accepted parse depth (JDict d)"
proof -
  have op': "dget_or cd ''operator'' (JStr ''and'') = dget cd ''operator''"
    using op by (auto simp: dget_def dget_or_def split: option.splits)
  obtain ns where ns: "map_res build_rule_node xs = Inr ns" "length ns = length xs"
      "\<forall>n \<in> set ns. node_ok parse (Suc depth) n"
    using map_res_build [OF acc] by blast
  note ok = composite_node_ok [OF ns(3) d]
  show ?thesis
  proof (cases "dget cd ''operator'' = JStr ''not''")
    case True
    then obtain x n where x: "xs = [x]" "ns = [n]"
      using one ns(2) by (metis One_nat_def length_0_conv length_Suc_conv)
    then have "build_rule_node (JDict d) = Inr (NotNode n)"
      using True ns(1) by (subst build_rule_node.simps)
        (simp add: ty cfg op' kids only_child_def bindR_eq_Inr)
    then show ?thesis using ok(3) x by (auto simp: child_accepted_def)
  next
    case False
    then have "build_rule_node (JDict d) =
        Inr (if dget cd ''operator'' = JStr ''and'' then AndNode ns else OrNode ns)"
      using op ns(1) by (subst build_rule_node.simps) (auto simp: ty cfg op' kids children_of_def)
    then show ?thesis using ok(1,2) by (auto simp: child_accepted_def)
  qed
qed

lemma child_type_of_Inr:
  assumes "child_type_of child = Inr t"
  obtains d where "child = JDict d" "dget d ''type'' = t" "node_type d = t"
    "\<And>s. t = JStr s \<Longrightarrow> s \<notin> set COMPOSITE_DISALLOWED_CHILD_TYPES"
proof -
  obtain d where d: "child = JDict d"
    using assms by (auto simp: child_type_of_def with_dict_Inr)
  then have t: "dget d ''type'' = t" and "truthy (dget d ''type'')"
    and dis: "\<And>s. t = JStr s \<Longrightarrow> s \<notin> set COMPOSITE_DISALLOWED_CHILD_TYPES"
    using assms by (auto simp: child_type_of_def Let_def split: if_splits json.splits)
  then have "node_type d = t"
    by (auto simp: node_type_def dget_def dget_or_def split: option.splits)
  with d t dis that show ?thesis by blast
qed

lemma leaf_child_accepted:
  assumes t: "child_type_of child = Inr (JStr ty)" and nc: "ty \<noteq> ''composite''"
    and known: "map_of leaf_schema_map ty \<noteq> None"
    and v: "validate_child_config parse ty (child_config_of child) = Inr ()" and d: "depth \<le> MAX_COMPOSITE_DEPTH"
  shows "child_accepted parse depth child"
proof -
  obtain cd where cd: "child = JDict cd" "node_type cd = JStr ty" "ty \<notin> set COMPOSITE_DISALLOWED_CHILD_TYPES"
    using child_type_of_Inr [OF t] by metis
  have cfg: "child_config_of child = node_config cd"
    by (simp add: cd child_config_of_def node_config_def)
  then obtain e e' where e: "node_config cd = JDict e" "validate_leaf_config parse ty e = Inr e'"
    using v by (auto simp: validate_child_config_def bindR_eq_Inr split: json.splits)
  have "build_rule_node child = Inr (AtomicRuleNode (JStr ty) (JDict e))"
    unfolding cd(1) by (subst build_rule_node.simps) (simp add: cd nc e)
  then show ?thesis
    using cd(3) known e(2) d by (auto simp: child_accepted_def node_ok_def leaf_ok_def)
qed

lemma iter_children_dicts:
  assumes "iter_json rules = Inr xs" "xs \<noteq> []" "\<forall>x \<in> set xs. \<exists>d. x = JDict d"
  shows "rules = JList xs"
proof (cases rules)
  case (JStr s)
  then show ?thesis using assms by (cases s) auto
next
  case (JDict d)
  then show ?thesis using assms by (cases d) auto
qed (use assms in auto)

lemma iter_json_nonempty: "iter_json rules = Inr xs \<Longrightarrow> truthy rules \<Longrightarrow> xs \<noteq> []"
  by (cases rules) auto

section \<open>Trees\<close>

lemma composite_tree_accepted:
  "validate_composite_tree parse operator rules depth = Inr () \<Longrightarrow>
   \<exists>xs. rules = JList xs \<and> xs \<noteq> [] \<and> depth \<le> MAX_COMPOSITE_DEPTH \<and>
     (operator = JStr ''not'' \<longrightarrow> length xs = 1) \<and> (\<forall>x \<in> set xs. child_accepted parse depth x)"
proof (induction parse operator rules depth rule: validate_composite_tree.induct)
  case (1 parse operator rules depth)
  have dep: "depth \<le> MAX_COMPOSITE_DEPTH" and tr: "truthy rules"
    using "1.prems" by (auto simp: validate_composite_tree.simps [of parse operator rules depth] split: if_splits)
  obtain xs where xs: "iter_json rules = Inr xs" and one: "operator = JStr ''not'' \<longrightarrow> length xs = 1"
    using "1.prems" dep tr
    by (auto simp: validate_composite_tree.simps [of parse operator rules depth] bindR_eq_Inr split: if_splits)
  let ?step = "\<lambda>child. bindR (child_type_of child) (\<lambda>child_type.
            if child_type = JStr ''composite'' then
              with_dict (child_config_of child) (\<lambda>child_config.
                let child_operator = dget child_config ''operator'' in
                if child_operator \<notin> {JStr ''and'', JStr ''or'', JStr ''not''} then value_error
                else validate_composite_tree parse child_operator
                       (dget_or child_config ''rules'' (JList [])) (depth + 1))
            else (case child_type of
                    JStr ty \<Rightarrow>
                      if map_of leaf_schema_map ty = None then value_error
                      else validate_child_config parse ty (child_config_of child)
                  | _ \<Rightarrow> value_error))"
  have "for_each ?step xs = Inr ()"
    using "1.prems" dep tr xs one
    by (simp add: validate_composite_tree.simps [of parse operator rules depth] split: if_splits)
  then have each: "?step x = Inr ()" if "x \<in> set xs" for x
    using that unfolding for_each_Inr by blast
  have acc: "child_accepted parse depth x" if x: "x \<in> set xs" for x
  proof -
    obtain t where t: "child_type_of x = Inr t"
      using each [OF x] by (cases "child_type_of x") simp_all
    show ?thesis
    proof (cases "t = JStr ''composite''")
      case True
      then obtain cc where cc: "child_config_of x = JDict cc"
        using each [OF x] t unfolding with_dict_def by (cases "child_config_of x") simp_all
      note e = each [OF x, unfolded t True, simplified, unfolded cc, simplified, unfolded Let_def]
      have op: "dget cc ''operator'' \<in> {JStr ''and'', JStr ''or'', JStr ''not''}"
        using e by (metis (no_types, lifting) Inl_Inr_False insertCI)
      have vt: "validate_composite_tree parse (dget cc ''operator'') (dget_or cc ''rules'' (JList [])) (depth + 1) = Inr ()"
        using e op by (simp split: if_splits)
      obtain ys where ys: "dget_or cc ''rules'' (JList []) = JList ys" "depth + 1 \<le> MAX_COMPOSITE_DEPTH"
          "dget cc ''operator'' = JStr ''not'' \<longrightarrow> length ys = 1" "\<forall>y \<in> set ys. child_accepted parse (depth + 1) y"
        using "1.IH" [OF _ _ xs _ x t True cc refl _ vt] dep tr one op by auto
      obtain d where d: "x = JDict d" "node_type d = JStr ''composite''"
        using child_type_of_Inr [OF t] True by metis
      have "node_config d = JDict cc"
        using cc d(1) by (simp add: child_config_of_def node_config_def)
      with build_composite [OF d(2) _ op ys(1,3) _ _] ys(2,4) d(1) show ?thesis by simp
    next
      case False
      then obtain ty where ty: "t = JStr ty" "map_of leaf_schema_map ty \<noteq> None"
          "validate_child_config parse ty (child_config_of x) = Inr ()"
        using each [OF x] t by (auto split: json.splits if_splits)
      with leaf_child_accepted [of x ty parse depth] t False dep show ?thesis by simp
    qed
  qed
  have "\<exists>d. x = JDict d" if x: "x \<in> set xs" for x
  proof -
    obtain t where "child_type_of x = Inr t"
      using each [OF x] by (cases "child_type_of x") simp_all
    from child_type_of_Inr [OF this] show ?thesis by blast
  qed
  with iter_children_dicts [OF xs iter_json_nonempty [OF xs tr]] iter_json_nonempty [OF xs tr] dep one acc
  show ?case by blast
qed

lemma composite_config_builds:
  assumes snd: "pydantic_sound parse" and v: "validate_rule_config parse ''composite'' cfg = Inr cfg'"
  shows "child_accepted parse 0 (JDict [(''type'', JStr ''composite''), (''config'', JDict cfg')])"
proof -
  obtain obj where obj: "construct parse (CompositeConfig parse) cfg = Inr obj"
    and cfg': "cfg' = model_dump_exclude_none obj"
    using v by (auto simp: validate_rule_config_def map_of_leaf_schema bindR_eq_Inr)
  note wt = parse_well_typed [OF snd CompositeConfig_wf construct_parse [OF obj]]
  note dist = well_typed_distinct [OF CompositeConfig_wf wt]
  have op_ty: "has_type (TLitStr [''and'', ''or'', ''not'']) (dget obj ''operator'')"
    by (rule typed_field [OF wt]) (simp add: CompositeConfig_def)
  have "validate_composite_tree parse (dget obj ''operator'') (dget obj ''rules'') 1 = Inr ()"
    using construct_model_validator [OF obj] by (simp add: CompositeConfig_def)
  then obtain xs where xs: "dget obj ''rules'' = JList xs" "dget obj ''operator'' = JStr ''not'' \<longrightarrow> length xs = 1"
      "\<forall>x \<in> set xs. child_accepted parse 1 x"
    using composite_tree_accepted by blast
  show ?thesis
  proof (rule build_composite [where cd = cfg' and xs = xs])
    show "dget cfg' ''operator'' \<in> {JStr ''and'', JStr ''or'', JStr ''not''}"
      using op_ty dist by (auto simp: cfg' split: json.splits)
    show "dget_or cfg' ''rules'' (JList []) = JList xs"
      using xs(1) by (simp add: cfg' dget_or_dump [OF dist])
  qed (use xs dist in \<open>simp_all add: cfg' node_type_def node_config_def MAX_COMPOSITE_DEPTH_def\<close>)
qed

end
