(* ===== verification/Rule_Phase1.thy ===== *)
theory Rule_Phase1
  imports Rule_Composite
begin

text \<open>
  What the synchronous runner decides. The shipped validators leave the core of the context alone,
  so every rule of a list is evaluated on the same request; a run that accepts has evaluated every
  applicable rule to true, and on rules with configurations their schemas accepted the run decides
  exactly the conjunction of their meanings.
\<close>

section \<open>Validators leave the context alone, but for the cache\<close>

definition cache_only :: "'a step \<Rightarrow> bool" where
  "cache_only m \<longleftrightarrow> (\<forall>c. snd (m c) = c\<lparr>provider_cache := provider_cache (snd (m c))\<rparr>)"

lemma cache_onlyI: "(\<And>c. \<exists>cache. snd (m c) = c\<lparr>provider_cache := cache\<rparr>) \<Longrightarrow> cache_only m"
  unfolding cache_only_def
proof
  fix c
  assume "\<And>c. \<exists>cache. snd (m c) = c\<lparr>provider_cache := cache\<rparr>"
  then obtain cache where "snd (m c) = c\<lparr>provider_cache := cache\<rparr>" by blast
  then show "snd (m c) = c\<lparr>provider_cache := provider_cache (snd (m c))\<rparr>" by simp
qed

lemma cache_onlyE:
  assumes "cache_only m"
  obtains cache where "snd (m c) = c\<lparr>provider_cache := cache\<rparr>"
  using assms by (auto simp: cache_only_def)

lemma cache_only_bindS: "cache_only m \<Longrightarrow> (\<And>x. cache_only (f x)) \<Longrightarrow> cache_only (bindS m f)"
proof (rule cache_onlyI)
  fix c
  assume m: "cache_only m" and f: "\<And>x. cache_only (f x)"
  obtain cache where c1: "snd (m c) = c\<lparr>provider_cache := cache\<rparr>"
    using cache_onlyE [OF m] by blast
  show "\<exists>cache. snd (bindS m f c) = c\<lparr>provider_cache := cache\<rparr>"
  proof (cases "fst (m c)")
    case (Inl e)
    with c1 show ?thesis by (cases "m c") (auto simp: bindS_def)
  next
    case (Inr x)
    obtain cache' where "snd (f x (c\<lparr>provider_cache := cache\<rparr>)) = c\<lparr>provider_cache := cache\<rparr>\<lparr>provider_cache := cache'\<rparr>"
      using cache_onlyE [OF f] by blast
    with Inr c1 show ?thesis by (cases "m c") (auto simp: bindS_def)
  qed
qed

lemma cache_only_get_metadata: "cache_only (get_metadata resolve p)"
  unfolding cache_only_def using get_metadata_frame by blast

lemma cache_only_simps [simp]:
  "cache_only (retS x)" "cache_only (raiseS e)" "cache_only (liftS r)"
  by (simp_all add: cache_only_def)

lemma cache_only_if: "(b \<Longrightarrow> cache_only m) \<Longrightarrow> (\<not> b \<Longrightarrow> cache_only n) \<Longrightarrow> cache_only (if b then m else n)"
  by simp

lemma cache_only_option:
  "cache_only m \<Longrightarrow> (\<And>x. cache_only (f x)) \<Longrightarrow> cache_only (case v of None \<Rightarrow> m | Some x \<Rightarrow> f x)"
  by (simp split: option.splits)

lemma cache_only_read: "(\<And>c. cache_only (f c)) \<Longrightarrow> cache_only (readS f)"
  by (simp add: cache_only_def)

lemmas cache_only_intros = cache_only_read cache_only_bindS cache_only_get_metadata cache_only_if
  cache_only_option cache_only_simps

lemma cache_only_restriction: "cache_only m \<Longrightarrow> cache_only (restriction_check ty m)"
  by (simp add: cache_only_def restriction_check_def)

lemma cache_only_database: "cache_only m \<Longrightarrow> cache_only (database_check ty m)"
  by (simp add: cache_only_def database_check_def)

lemma cache_only_beatmap: "cache_only (beatmap_check ty chk)"
  by (simp add: cache_only_def beatmap_check_def split: option.splits)

lemma cache_only_tier1: "cache_only (tier1_check ty chk W)"
  unfolding tier1_check_def by (rule cache_only_restriction) (simp add: cache_only_def)

lemma cache_only_never_ranked: "cache_only (never_ranked_check parse search)"
  unfolding never_ranked_check_def Let_def by (intro cache_only_intros)

lemma cache_only_unique: "cache_only (unique_artist_title_check parse rows)"
  unfolding unique_artist_title_check_def Let_def by (intro cache_only_intros)

text \<open>All the validators of a registry write nothing but the metadata cache.\<close>

definition core_safe :: "'r registry \<Rightarrow> 'r world \<Rightarrow> bool" where
  "core_safe G W \<longleftrightarrow> (\<forall>ty vc. get_validator G ty = Some vc \<longrightarrow> cache_only (vc_check vc W))"

lemma default_core_safe: "core_safe default_registry (W :: 'a world)"
  unfolding core_safe_def
proof (intro allI impI)
  fix ty and vc :: "'a validator_class"
  assume "get_validator default_registry ty = Some vc"
  then have "(ty, vc) \<in> set (TIER_1_VALIDATORS @ TIER_2_VALIDATORS @ TIER_3_VALIDATORS)"
    unfolding get_validator_def default_registry_def by (auto dest!: map_of_SomeD)
  then show "cache_only (vc_check vc W)"
    by (auto simp: TIER_1_VALIDATORS_def TIER_2_VALIDATORS_def TIER_3_VALIDATORS_def cache_only_tier1
        intro!: cache_only_restriction cache_only_beatmap cache_only_database cache_only_never_ranked cache_only_unique)
qed

section \<open>Evaluation keeps the core of the context\<close>

definition keeps_core :: "'a step \<Rightarrow> bool" where
  "keeps_core m \<longleftrightarrow> (\<forall>c. ctx_core (snd (m c)) = ctx_core c)"

lemma keeps_core_bindS: "keeps_core m \<Longrightarrow> (\<And>x. keeps_core (f x)) \<Longrightarrow> keeps_core (bindS m f)"
  by (auto simp: keeps_core_def bindS_def split: prod.splits sum.splits) (metis snd_conv)+

lemma keeps_core_simps [simp]:
  "keeps_core (retS x)" "keeps_core (raiseS e)" "keeps_core (liftS r)"
  by (simp_all add: keeps_core_def)

lemma keeps_core_if: "(b \<Longrightarrow> keeps_core m) \<Longrightarrow> (\<not> b \<Longrightarrow> keeps_core n) \<Longrightarrow> keeps_core (if b then m else n)"
  by simp

text \<open>The two ways an atomic node can end, and what it remembers.\<close>

lemma evaluate_atomic_frame:
  assumes "core_safe G W"
  obtains cache lv where "snd (evaluate_atomic G W ty cfg c) = c\<lparr>provider_cache := cache, last_violation := lv\<rparr>"
    and "lv = last_violation c \<or> fst (evaluate_atomic G W ty cfg c) = Inr False"
proof (cases "lookup_class G ty")
  case None
  show ?thesis
    by (rule that [where cache = "provider_cache c" and lv = "Some (text_of ty, UnknownRuleType)"]) (simp_all add: evaluate_atomic_def None)
next
  case (Some vc)
  then obtain s where "get_validator G s = Some vc"
    by (auto simp: lookup_class_def split: json.splits)
  then have "cache_only (vc_check vc W)"
    using assms by (auto simp: core_safe_def)
  then obtain cache where cache: "snd (vc_check vc W (c\<lparr>config := cfg\<rparr>)) = c\<lparr>config := cfg\<rparr>\<lparr>provider_cache := cache\<rparr>"
    using cache_onlyE by blast
  obtain r where r: "vc_check vc W (c\<lparr>config := cfg\<rparr>) = (r, c\<lparr>config := cfg, provider_cache := cache\<rparr>)"
    using cache by (metis prod.collapse)
  show ?thesis
  proof (cases "\<exists>t m. r = Inl (RuleViolationError t m)")
    case True
    then obtain t m where "r = Inl (RuleViolationError t m)" by blast
    then show ?thesis
      by (intro that [where cache = cache and lv = "Some (t, m)"]) (simp_all add: evaluate_atomic_def Some r Let_def)
  next
    case False
    then show ?thesis
      by (intro that [where cache = cache and lv = "last_violation c"])
        (auto simp: evaluate_atomic_def Some r Let_def split: sum.splits exn.splits)
  qed
qed

lemma evaluate_atomic_core:
  assumes "core_safe G W"
  shows "keeps_core (evaluate_atomic G W ty cfg)"
  unfolding keeps_core_def
proof
  fix c
  show "ctx_core (snd (evaluate_atomic G W ty cfg c)) = ctx_core c"
    by (rule evaluate_atomic_frame [OF assms, of ty cfg c]) (simp add: ctx_core_def)
qed

lemma evaluate_core:
  "core_safe G W \<Longrightarrow> keeps_core (evaluate G W node depth)"
  "core_safe G W \<Longrightarrow> keeps_core (evaluate_all G W nodes depth)"
  "core_safe G W \<Longrightarrow> keeps_core (evaluate_any G W nodes depth)"
proof (induction G W node depth and G W nodes depth and G W nodes depth
    rule: evaluate_evaluate_all_evaluate_any.induct)
qed (simp_all add: evaluate_atomic_core keeps_core_bindS keeps_core_if)

section \<open>An accepting run has evaluated every applicable rule\<close>

definition phase1_applies :: "'r registry \<Rightarrow> queue_rule \<Rightarrow> bool" where
  "phase1_applies G rule \<longleftrightarrow>
     is_active rule \<and> rule_type rule \<notin> set STATEFUL_RULE_TYPES \<and> check_version G rule \<and>
     (get_tier G rule = Inr 1 \<or> get_tier G rule = Inr 2)"

text \<open>The rule's tree evaluates to true on a context with the core of the given one.\<close>

definition passes_on :: "'r registry \<Rightarrow> 'r world \<Rightarrow> exec_context \<Rightarrow> queue_rule \<Rightarrow> bool" where
  "passes_on G W c0 rule \<longleftrightarrow>
     (\<exists>node c c'. build_node rule = Inr node \<and> ctx_core c = ctx_core c0 \<and>
        evaluate G W node 0 c = (Inr True, c'))"

lemma phase1_rule_Inr:
  assumes "core_safe G W" "phase1_rule G W rule c = (Inr (), c')"
  shows "passes_on G W c rule" and "ctx_core c' = ctx_core c"
proof -
  obtain node where n: "build_node rule = Inr node"
    using assms(2) by (auto simp: phase1_rule_def split: sum.splits)
  have ev: "evaluate G W node 0 (c\<lparr>last_violation := None\<rparr>) = (Inr True, c')"
    using assms(2) n
    by (auto simp: phase1_rule_def split: prod.splits sum.splits bool.splits option.splits exn.splits)
  have core: "ctx_core (c\<lparr>last_violation := None\<rparr>) = ctx_core c"
    by (simp add: ctx_core_def)
  then show "passes_on G W c rule"
    using n ev unfolding passes_on_def by blast
  show "ctx_core c' = ctx_core c"
    using evaluate_core(1) [OF assms(1), of node 0] ev core unfolding keeps_core_def by (metis snd_conv)
qed

lemma phase1_run_sound:
  assumes safe: "core_safe G W" and run: "phase1_run G W rules c = (Inr (), c')"
  shows "\<forall>rule \<in> set rules. phase1_applies G rule \<longrightarrow> passes_on G W c rule"
  using run
proof (induction rules arbitrary: c)
  case (Cons rule rules)
  have core_eq: "passes_on G W c1 r = passes_on G W c r" if "ctx_core c1 = ctx_core c" for c1 r
    using that by (simp add: passes_on_def)
  show ?case
  proof (cases "phase1_applies G rule")
    case True
    then obtain t where "get_tier G rule = Inr t" "t = 1 \<or> t = 2"
      by (auto simp: phase1_applies_def)
    with True obtain c1 where c1: "phase1_rule G W rule c = (Inr (), c1)" "phase1_run G W rules c1 = (Inr (), c')"
      using Cons.prems by (auto simp: phase1_applies_def bindS_eq_Inr)
    note p = phase1_rule_Inr [OF safe c1(1)]
    have "\<forall>r \<in> set rules. phase1_applies G r \<longrightarrow> passes_on G W c r"
      using Cons.IH [OF c1(2)] unfolding core_eq [OF p(2)] .
    with p(1) show ?thesis by simp
  next
    case False
    have "phase1_run G W rules c = (Inr (), c')"
    proof (cases "\<not> is_active rule \<or> rule_type rule \<in> set STATEFUL_RULE_TYPES \<or> \<not> check_version G rule")
      case True
      with Cons.prems show ?thesis by simp
    next
      case False
      with Cons.prems \<open>\<not> phase1_applies G rule\<close> show ?thesis
        by (auto simp: phase1_applies_def bindS_eq_Inr split: if_splits)
    qed
    with Cons.IH False show ?thesis by simp
  qed
qed simp

section \<open>Exact decisions on beatmap rules\<close>

text \<open>An active beatmap rule whose stored configuration came out of the schema.\<close>

definition stored_beatmap_rule :: "parser \<Rightarrow> queue_rule \<Rightarrow> bool" where
  "stored_beatmap_rule parse rule \<longleftrightarrow>
     is_active rule \<and> rule_version rule = ''1.0'' \<and> map_of beatmap_contracts (rule_type rule) \<noteq> None \<and>
     (\<exists>cfg d. rule_config rule = JDict d \<and> validate_rule_config parse (rule_type rule) cfg = Inr d)"

text \<open>What the rule demands of the beatmapset.\<close>

definition rule_holds :: "queue_rule \<Rightarrow> beatmapset \<Rightarrow> beatmap list \<Rightarrow> bool" where
  "rule_holds rule s bms =
     (case (map_of beatmap_contracts (rule_type rule), rule_config rule) of
        (Some (ok, spec), JDict d) \<Rightarrow> spec d s bms
      | _ \<Rightarrow> False)"

lemma contract_type_facts:
  assumes "map_of beatmap_contracts ty = Some osp"
  shows "ty \<notin> set STATEFUL_RULE_TYPES" "ty \<noteq> ''composite''" "map_of (RULE_TIERS (default_registry :: 'r registry)) ty = Some 2"
    "supported_versions ty = [''1.0'']"
proof -
  have ne: "ty \<notin> {''rate_limit'', ''cooldown'', ''composite''}"
    using assms by (auto simp: beatmap_contracts_def)
  then show "ty \<notin> set STATEFUL_RULE_TYPES" "ty \<noteq> ''composite''" "supported_versions ty = [''1.0'']"
    by (auto simp: STATEFUL_RULE_TYPES_def supported_versions_def)
  show "map_of (RULE_TIERS (default_registry :: 'r registry)) ty = Some 2"
    using assms by (auto simp: beatmap_contracts_def default_registry_def split: if_splits)
qed

lemma stored_beatmap_rule_tier:
  assumes "map_of beatmap_contracts (rule_type rule) = Some osp"
  shows "get_tier (default_registry :: 'r registry) rule = Inr 2"
  using contract_type_facts(2) [OF assms]
  by (simp add: get_tier_def effective_rule_tier.simps leaf_tier_def contract_type_facts(3) [OF assms])

lemma stored_beatmap_rule_version:
  assumes "stored_beatmap_rule parse rule"
  shows "check_version (default_registry :: 'r registry) rule"
proof -
  obtain osp where con: "map_of beatmap_contracts (rule_type rule) = Some osp"
    using assms by (auto simp: stored_beatmap_rule_def)
  obtain chk where chk: "map_of beatmap_validators (rule_type rule) = Some chk"
    using contract_rule con by (metis surj_pair)
  show ?thesis
    using assms contract_type_facts(4) [OF con]
    by (simp add: check_version_def get_validator_beatmap [OF chk] stored_beatmap_rule_def)
qed

lemma phase1_rule_beatmap:
  assumes snd: "pydantic_sound parse" and st: "stored_beatmap_rule parse rule" and s: "cx_beatmapset c = Some s"
  shows "\<exists>c' m. ctx_core c' = ctx_core c \<and>
     phase1_rule default_registry W rule c =
       (if rule_holds rule s (ctx_beatmaps c) then Inr () else Inl (RuleViolationError (rule_type rule) m), c')"
proof -
  obtain ok spec cfg d where con: "map_of beatmap_contracts (rule_type rule) = Some (ok, spec)"
    and d: "rule_config rule = JDict d" and v: "validate_leaf_config parse (rule_type rule) cfg = Inr d"
    using st contract_type_facts(2) validate_rule_config_leaf
    by (auto simp: stored_beatmap_rule_def)
  note shape = validated_leaf_shape [OF snd con v]
  obtain chk where chk: "map_of beatmap_validators (rule_type rule) = Some chk"
    using contract_rule [OF con] by blast
  have bn: "build_node rule = Inr (AtomicRuleNode (JStr (rule_type rule)) (JDict d))"
    unfolding build_node_def
    by (subst build_rule_node.simps)
      (simp add: node_type_def node_config_def contract_type_facts(2) [OF con] d config_or_empty_def shape(2))
  let ?c = "c\<lparr>last_violation := None, config := JDict d\<rparr>"
  obtain m where m: "restriction_check (rule_type rule) (beatmap_check (rule_type rule) chk) ?c =
      (if spec d s (ctx_beatmaps c) then Inr () else Inl (RuleViolationError (rule_type rule) m), ?c)"
    using registered_check_decides [OF snd con v _ _ get_validator_beatmap [OF chk], of ?c s] s
    by (auto simp: ctx_beatmaps_def)
  have rh: "rule_holds rule s (ctx_beatmaps c) = spec d s (ctx_beatmaps c)"
    by (simp add: rule_holds_def con d)
  show ?thesis
    using m rh
    by (cases "spec d s (ctx_beatmaps c)")
      (auto simp: phase1_rule_def bn evaluate_atomic_def lookup_class_def get_validator_beatmap [OF chk] Let_def ctx_core_def)
qed

lemma core_fields:
  assumes "ctx_core c' = ctx_core c"
  shows "cx_beatmapset c' = cx_beatmapset c" "ctx_beatmaps c' = ctx_beatmaps c"
  using arg_cong [OF assms, of cx_beatmapset] arg_cong [OF assms, of cx_beatmaps]
  by (simp_all add: ctx_core_def ctx_beatmaps_def)

lemma phase1_run_decides:
  assumes snd: "pydantic_sound parse" and st: "\<forall>rule \<in> set rules. stored_beatmap_rule parse rule"
    and s: "cx_beatmapset c = Some s"
  shows "if \<forall>rule \<in> set rules. rule_holds rule s (ctx_beatmaps c)
     then fst (phase1_run default_registry W rules c) = Inr ()
     else \<exists>rule \<in> set rules. \<exists>m. \<not> rule_holds rule s (ctx_beatmaps c) \<and>
       fst (phase1_run default_registry W rules c) = Inl (RuleViolationError (rule_type rule) m)"
  using st s
proof (induction rules arbitrary: c)
  case (Cons rule rules)
  have sr: "stored_beatmap_rule parse rule" using Cons.prems by simp
  then obtain osp where con: "map_of beatmap_contracts (rule_type rule) = Some osp"
    by (auto simp: stored_beatmap_rule_def)
  have run: "phase1_run default_registry W (rule # rules) c =
      bindS (phase1_rule default_registry W rule) (\<lambda>_. phase1_run default_registry W rules) c"
    using sr contract_type_facts(1) [OF con]
    by (simp add: stored_beatmap_rule_def stored_beatmap_rule_version [OF sr] stored_beatmap_rule_tier [OF con] bindS_def)
  obtain c' m where c': "ctx_core c' = ctx_core c"
    and r: "phase1_rule default_registry W rule c =
       (if rule_holds rule s (ctx_beatmaps c) then Inr () else Inl (RuleViolationError (rule_type rule) m), c')"
    using phase1_rule_beatmap [OF snd sr Cons.prems(2)] by blast
  note f = core_fields [OF c']
  show ?case
  proof (cases "rule_holds rule s (ctx_beatmaps c)")
    case True
    then have "phase1_run default_registry W (rule # rules) c = phase1_run default_registry W rules c'"
      using r run by (simp add: bindS_def del: phase1_run.simps)
    with True Cons.IH [of c'] Cons.prems show ?thesis
      unfolding f by (auto split: if_splits simp del: phase1_run.simps)
  next
    case False
    then show ?thesis using r run by (auto simp: bindS_def simp del: phase1_run.simps)
  qed
qed simp

end
