(* ===== verification/Rule_Store.thy ===== *)
theory Rule_Store
  imports Rule_Phase1 "HOL-Library.Multiset"
begin

text \<open>
  The stored rules of a queue (\<^verbatim>\<open>src/app/database/crud/rules.py\<close>) and the endpoints that write them
  (\<^verbatim>\<open>src/api/v1/queues/rules.py\<close>). The table is a list of rows with the next value of the identifier
  sequence; an operation is an action on the table. An endpoint runs its operation in a session,
  which commits on return and rolls back when an exception leaves it.

  The step relation \<open>rules_step\<close> is one request to an endpoint, with any body. The invariant
  \<open>store_inv\<close> holds in every reachable table: identifiers are unique, every row has a known type, a
  supported version and a configuration that came out of its schema, and no two rows of a queue have
  the same duplicate key. From it follow the hypotheses under which the rule engine and the
  reservations of the stateful rules were verified.
\<close>

section \<open>Canonical configurations\<close>

text \<open>\<^verbatim>\<open>_normalize_config\<close>: keys sorted, lists sorted by their JSON text, then printed.\<close>

fun sort_json :: "(rat \<Rightarrow> string) \<Rightarrow> json \<Rightarrow> json" where
  "sort_json fr (JDict d) = JDict (sort_key fst (map (\<lambda>(k, v). (k, sort_json fr v)) d))"
| "sort_json fr (JList xs) = JList (sort_key (json_dumps fr) (map (sort_json fr) xs))"
| "sort_json fr j = j"

definition normalize_config :: "(rat \<Rightarrow> string) \<Rightarrow> json \<Rightarrow> string" where
  "normalize_config fr cfg = json_dumps fr (sort_json fr cfg)"

section \<open>Rows and operations\<close>

record rule_db =
  db_rules :: "queue_rule list"
  db_next :: int

text \<open>The dictionary a create or replace schema dumps; absent keys are \<^verbatim>\<open>None\<close>.\<close>

record rule_data =
  rd_type :: string
  rd_config :: "dict option"
  rd_is_active :: "bool option"
  rd_is_public :: "bool option"
  rd_version :: "string option"

text \<open>
  The dictionary of an update. A key that is absent and one that holds \<^verbatim>\<open>None\<close> are treated alike by
  the code; \<open>up_other\<close> are the keys outside the four updatable ones.
\<close>

record rule_updates =
  up_is_active :: "bool option"
  up_is_public :: "bool option"
  up_config :: "dict option"
  up_version :: "string option"
  up_other :: "string list"

definition or_else :: "'a option \<Rightarrow> 'a \<Rightarrow> 'a" where
  "or_else o' d = (case o' of Some x \<Rightarrow> x | None \<Rightarrow> d)"

lemma or_else_simps [simp]: "or_else (Some x) d = x" "or_else None d = d"
  by (simp_all add: or_else_def)

definition validate_rule_version :: "'r registry \<Rightarrow> string \<Rightarrow> string \<Rightarrow> unit res" where
  "validate_rule_version G ty v =
     (case get_supported_versions G ty of
        None \<Rightarrow> Inr ()
      | Some supported \<Rightarrow> if v \<in> set supported then Inr () else Inl (BadRequest ''Unsupported version''))"

definition get_rules :: "rule_db \<Rightarrow> int \<Rightarrow> bool \<Rightarrow> queue_rule list" where
  "get_rules db qid only_active =
     sort_key rule_id (filter (\<lambda>r. rule_queue_id r = qid \<and> (only_active \<longrightarrow> is_active r)) (db_rules db))"

definition get_rule :: "rule_db \<Rightarrow> int \<Rightarrow> int \<Rightarrow> queue_rule option" where
  "get_rule db qid rid = find (\<lambda>r. rule_id r = rid \<and> rule_queue_id r = qid) (db_rules db)"

definition new_rule :: "int \<Rightarrow> int \<Rightarrow> rule_data \<Rightarrow> queue_rule" where
  "new_rule rid qid data =
     \<lparr>rule_id = rid, rule_queue_id = qid, rule_type = rd_type data,
      rule_config = JDict (or_else (rd_config data) []), is_active = or_else (rd_is_active data) True,
      is_public = or_else (rd_is_public data) True, rule_version = or_else (rd_version data) ''1.0''\<rparr>"

definition insert_rule :: "int \<Rightarrow> rule_data \<Rightarrow> rule_db \<Rightarrow> queue_rule \<times> rule_db" where
  "insert_rule qid data db =
     (let r = new_rule (db_next db) qid data in
      (r, db\<lparr>db_rules := db_rules db @ [r], db_next := db_next db + 1\<rparr>))"

fun insert_rules :: "int \<Rightarrow> rule_data list \<Rightarrow> rule_db \<Rightarrow> queue_rule list \<times> rule_db" where
  "insert_rules qid [] db = ([], db)"
| "insert_rules qid (data # rest) db =
     (let (r, db1) = insert_rule qid data db; (rs, db2) = insert_rules qid rest db1 in (r # rs, db2))"

definition delete_all_for_rule :: "int \<Rightarrow> rule_db \<Rightarrow> rule_db" where
  "delete_all_for_rule qid db = db\<lparr>db_rules := filter (\<lambda>r. rule_queue_id r \<noteq> qid) (db_rules db)\<rparr>"

text \<open>The duplicate keys: with the version in \<^verbatim>\<open>create_rule\<close> and \<^verbatim>\<open>update_rule\<close>, without in \<^verbatim>\<open>upsert_rules\<close>.\<close>

definition rule_key :: "(rat \<Rightarrow> string) \<Rightarrow> queue_rule \<Rightarrow> string \<times> string \<times> string" where
  "rule_key fr r = (rule_type r, rule_version r, normalize_config fr (rule_config r))"

definition data_key :: "(rat \<Rightarrow> string) \<Rightarrow> rule_data \<Rightarrow> string \<times> string" where
  "data_key fr data = (rd_type data, normalize_config fr (JDict (or_else (rd_config data) [])))"

fun check_replacements ::
  "'r registry \<Rightarrow> (rat \<Rightarrow> string) \<Rightarrow> (string \<times> string) list \<Rightarrow> rule_data list \<Rightarrow> unit res" where
  "check_replacements G fr seen [] = Inr ()"
| "check_replacements G fr seen (data # rest) =
     bindR (validate_rule_version G (rd_type data) (or_else (rd_version data) ''1.0'')) (\<lambda>_.
       if data_key fr data \<in> set seen then Inl (Conflict ''Duplicate rule'')
       else check_replacements G fr (data_key fr data # seen) rest)"

definition upsert_rules ::
  "'r registry \<Rightarrow> (rat \<Rightarrow> string) \<Rightarrow> int \<Rightarrow> rule_data list \<Rightarrow> (rule_db, queue_rule list) act" where
  "upsert_rules G fr qid rules_data db =
     (if rules_data = [] then (Inr [], delete_all_for_rule qid db)
      else bindS (liftS (check_replacements G fr [] rules_data)) (\<lambda>_ db.
        let (created, db') = insert_rules qid rules_data (delete_all_for_rule qid db) in (Inr created, db')) db)"

definition create_rule ::
  "'r registry \<Rightarrow> (rat \<Rightarrow> string) \<Rightarrow> int \<Rightarrow> rule_data \<Rightarrow> (rule_db, queue_rule) act" where
  "create_rule G fr qid data db =
     bindS (liftS (validate_rule_version G (rd_type data) (or_else (rd_version data) ''1.0''))) (\<lambda>_ db.
       if \<exists>r \<in> set (get_rules db qid False). rule_key fr r = rule_key fr (new_rule 0 qid data)
       then (Inl (Conflict ''Duplicate rule''), db)
       else (let (r, db') = insert_rule qid data db in (Inr r, db'))) db"

text \<open>The configuration an update brings, revalidated; every failure is a bad request.\<close>

definition revalidated_config :: "parser \<Rightarrow> queue_rule \<Rightarrow> rule_updates \<Rightarrow> dict option res" where
  "revalidated_config parse rule up =
     (case up_config up of
        None \<Rightarrow> Inr None
      | Some cfg \<Rightarrow> (case validate_rule_config parse (rule_type rule) cfg of
                       Inr cfg' \<Rightarrow> Inr (Some cfg')
                     | Inl e \<Rightarrow> Inl (BadRequest ''Invalid config'')))"

definition updated_rule :: "queue_rule \<Rightarrow> rule_updates \<Rightarrow> dict option \<Rightarrow> queue_rule" where
  "updated_rule rule up cfg =
     rule\<lparr>rule_config := (case cfg of Some d \<Rightarrow> JDict d | None \<Rightarrow> rule_config rule),
       is_active := or_else (up_is_active up) (is_active rule),
       is_public := or_else (up_is_public up) (is_public rule),
       rule_version := or_else (up_version up) (rule_version rule)\<rparr>"

text \<open>\<^verbatim>\<open>updates.get("version") or rule.version\<close>: an empty version falls back in the key only.\<close>

definition final_key :: "(rat \<Rightarrow> string) \<Rightarrow> queue_rule \<Rightarrow> rule_updates \<Rightarrow> dict option \<Rightarrow> string \<times> string \<times> string" where
  "final_key fr rule up cfg =
     (rule_type rule,
      (case up_version up of Some v \<Rightarrow> if v = [] then rule_version rule else v | None \<Rightarrow> rule_version rule),
      normalize_config fr (case cfg of Some d \<Rightarrow> JDict d | None \<Rightarrow> rule_config rule))"

definition replace_rule :: "queue_rule \<Rightarrow> rule_db \<Rightarrow> rule_db" where
  "replace_rule rule db = db\<lparr>db_rules := map (\<lambda>r. if rule_id r = rule_id rule then rule else r) (db_rules db)\<rparr>"

definition update_rule ::
  "parser \<Rightarrow> 'r registry \<Rightarrow> (rat \<Rightarrow> string) \<Rightarrow> int \<Rightarrow> int \<Rightarrow> rule_updates \<Rightarrow> (rule_db, queue_rule option) act" where
  "update_rule parse G fr rid qid up db =
     (if up_other up \<noteq> [] then (Inl (BadRequest ''These rule fields cannot be updated''), db)
      else (case get_rule db qid rid of
              None \<Rightarrow> (Inr None, db)
            | Some rule \<Rightarrow>
                bindS (liftS (revalidated_config parse rule up)) (\<lambda>cfg.
                bindS (liftS (case up_version up of
                                None \<Rightarrow> Inr () | Some v \<Rightarrow> validate_rule_version G (rule_type rule) v)) (\<lambda>_ db.
                  if \<exists>other \<in> set (get_rules db qid False). rule_id other \<noteq> rid \<and> rule_key fr other = final_key fr rule up cfg
                  then (Inl (Conflict ''This update would duplicate an existing rule''), db)
                  else (Inr (Some (updated_rule rule up cfg)), replace_rule (updated_rule rule up cfg) db))) db))"

definition delete_rule :: "int \<Rightarrow> int \<Rightarrow> (rule_db, queue_rule option) act" where
  "delete_rule rid qid db =
     (case get_rule db qid rid of
        None \<Rightarrow> (Inr None, db)
      | Some rule \<Rightarrow> (Inr (Some rule), db\<lparr>db_rules := filter (\<lambda>r. rule_id r \<noteq> rid) (db_rules db)\<rparr>))"

section \<open>Sessions and endpoints\<close>

text \<open>\<^verbatim>\<open>PostgresqlDB.session\<close>: commit on return, roll back on an exception.\<close>

definition in_session :: "('s, 'a) act \<Rightarrow> ('s, 'a) act" where
  "in_session m s = (case m s of (Inl e, _) \<Rightarrow> (Inl e, s) | (Inr x, s') \<Rightarrow> (Inr x, s'))"

definition RuleType :: "string list" where
  "RuleType =
     [''rate_limit'', ''cooldown'', ''blacklist'', ''beatmap_duration'', ''beatmap_star_rating'', ''beatmap_ar_range'',
      ''beatmap_od_range'', ''beatmap_hp_range'', ''beatmap_cs_range'', ''beatmap_drain_range'', ''beatmap_bpm'',
      ''beatmap_genre'', ''beatmap_language'', ''beatmap_mode'', ''beatmap_difficulty_count'', ''beatmap_storyboard'',
      ''beatmap_video'', ''beatmap_tags'', ''beatmap_length'', ''composite'', ''never_ranked'', ''unique_artist_title'']"

definition RuleCreateSchema :: config_class where
  "RuleCreateSchema =
     \<lparr>cls_fields = [req ''type'' (TLitStr RuleType), req ''config'' TDict, dflt ''is_public'' TBool (JBool True),
        dflt ''version'' TStr (JStr ''1.0'')],
      field_validators = [], model_validator = no_check\<rparr>"

definition RuleReplaceSchema :: config_class where
  "RuleReplaceSchema =
     RuleCreateSchema\<lparr>cls_fields := cls_fields RuleCreateSchema @ [dflt ''is_active'' TBool (JBool True)]\<rparr>"

definition RuleUpdateSchema :: config_class where
  "RuleUpdateSchema =
     \<lparr>cls_fields = [opt ''is_active'' TBool, opt ''is_public'' TBool, opt ''config'' TDict, opt ''version'' TStr],
      field_validators = [], model_validator = no_check\<rparr>"

fun bool_of :: "json \<Rightarrow> bool option" where
  "bool_of (JBool b) = Some b"
| "bool_of _ = None"

fun str_of :: "json \<Rightarrow> string option" where
  "str_of (JStr s) = Some s"
| "str_of _ = None"

fun dict_of :: "json \<Rightarrow> dict option" where
  "dict_of (JDict d) = Some d"
| "dict_of _ = None"

text \<open>The body of a create or replace item; the configuration is validated by its type.\<close>

definition parse_rule_data :: "parser \<Rightarrow> config_class \<Rightarrow> dict \<Rightarrow> rule_data res" where
  "parse_rule_data parse cls body =
     bindR (construct_ignoring parse cls body) (\<lambda>obj.
       case (str_of (dget obj ''type''), dict_of (dget obj ''config'')) of
         (Some ty, Some cfg) \<Rightarrow> bindR (validate_rule_config parse ty cfg) (\<lambda>cfg'.
           Inr \<lparr>rd_type = ty, rd_config = Some cfg', rd_is_active = bool_of (dget obj ''is_active''),
                rd_is_public = bool_of (dget obj ''is_public''), rd_version = str_of (dget obj ''version'')\<rparr>)
       | _ \<Rightarrow> Inl (PyExc ''ValidationError''))"

definition as_bad_request :: "string \<Rightarrow> 'a res \<Rightarrow> 'a res" where
  "as_bad_request m r = (case r of Inl e \<Rightarrow> Inl (BadRequest m) | Inr x \<Rightarrow> Inr x)"

definition parse_rule_updates :: "parser \<Rightarrow> dict \<Rightarrow> rule_updates res" where
  "parse_rule_updates parse body =
     bindR (construct parse RuleUpdateSchema body) (\<lambda>obj.
       Inr \<lparr>up_is_active = bool_of (dget obj ''is_active''), up_is_public = bool_of (dget obj ''is_public''),
            up_config = dict_of (dget obj ''config''), up_version = str_of (dget obj ''version''), up_other = []\<rparr>)"

text \<open>The endpoints; \<open>queues\<close> says which queues exist.\<close>

definition require_queue :: "(int \<Rightarrow> bool) \<Rightarrow> int \<Rightarrow> (rule_db, unit) act" where
  "require_queue queues qid = liftS (if queues qid then Inr () else Inl (NotFound ''Queue''))"

definition rules_post ::
  "parser \<Rightarrow> 'r registry \<Rightarrow> (rat \<Rightarrow> string) \<Rightarrow> (int \<Rightarrow> bool) \<Rightarrow> int \<Rightarrow> dict \<Rightarrow> (rule_db, queue_rule) act" where
  "rules_post parse G fr queues qid body =
     bindS (require_queue queues qid) (\<lambda>_.
     bindS (liftS (as_bad_request ''Invalid rule data'' (parse_rule_data parse RuleCreateSchema body))) (\<lambda>data.
       in_session (create_rule G fr qid data)))"

definition rules_patch ::
  "parser \<Rightarrow> 'r registry \<Rightarrow> (rat \<Rightarrow> string) \<Rightarrow> (int \<Rightarrow> bool) \<Rightarrow> int \<Rightarrow> int \<Rightarrow> dict \<Rightarrow> (rule_db, queue_rule) act" where
  "rules_patch parse G fr queues qid rid body =
     bindS (require_queue queues qid) (\<lambda>_.
     bindS (liftS (as_bad_request ''Invalid rule update'' (parse_rule_updates parse body))) (\<lambda>up.
     bindS (in_session (update_rule parse G fr rid qid up)) (\<lambda>updated.
       case updated of None \<Rightarrow> raiseS (NotFound ''Rule'') | Some r \<Rightarrow> retS r)))"

definition rules_delete :: "(int \<Rightarrow> bool) \<Rightarrow> int \<Rightarrow> int \<Rightarrow> (rule_db, unit) act" where
  "rules_delete queues qid rid =
     bindS (require_queue queues qid) (\<lambda>_.
     bindS (in_session (delete_rule rid qid)) (\<lambda>deleted.
       case deleted of None \<Rightarrow> raiseS (NotFound ''Rule'') | Some r \<Rightarrow> retS ()))"

definition rules_put ::
  "parser \<Rightarrow> 'r registry \<Rightarrow> (rat \<Rightarrow> string) \<Rightarrow> (int \<Rightarrow> bool) \<Rightarrow> int \<Rightarrow> dict \<Rightarrow> (rule_db, queue_rule list) act" where
  "rules_put parse G fr queues qid body =
     bindS (require_queue queues qid) (\<lambda>_.
     bindS (liftS (case map_of body ''rules'' of
                     Some (JList xs) \<Rightarrow> Inr xs
                   | _ \<Rightarrow> Inl (BadRequest ''Request body must include a rules array''))) (\<lambda>rules_data.
     bindS (liftS (map_res (\<lambda>data. as_bad_request ''Invalid rule data''
                      (case data of JDict d \<Rightarrow> parse_rule_data parse RuleReplaceSchema d
                       | _ \<Rightarrow> Inl (PyExc ''ValidationError''))) rules_data)) (\<lambda>validated.
       in_session (upsert_rules G fr qid validated))))"

section \<open>Normalisation forgets order and nothing else is needed of it\<close>

text \<open>The same data up to the order of keys and of list items.\<close>

inductive same_data :: "json \<Rightarrow> json \<Rightarrow> bool" where
  refl: "same_data j j"
| list: "list_all2 same_data xs ys' \<Longrightarrow> mset ys' = mset ys \<Longrightarrow> same_data (JList xs) (JList ys)"
| dict: "map fst d = map fst e' \<Longrightarrow> list_all2 same_data (map snd d) (map snd e') \<Longrightarrow> mset e' = mset e \<Longrightarrow>
    distinct (map fst e) \<Longrightarrow> same_data (JDict d) (JDict e)"
monos list_all2_mono

lemma map_sort_key: "map f (sort_key f xs) = sort (map f xs)"
  by (intro properties_for_sort [symmetric]) simp_all

lemma sort_key_map: "sort_key f (map g xs) = map g (sort_key (\<lambda>x. f (g x)) xs)"
proof -
  have "insort_key f (g x) (map g ys) = map g (insort_key (\<lambda>x. f (g x)) x ys)" for x ys
    by (induction ys) auto
  then show ?thesis by (induction xs) auto
qed

text \<open>The normal form, computed on the text directly.\<close>

fun canon :: "(rat \<Rightarrow> string) \<Rightarrow> json \<Rightarrow> string" where
  "canon fr (JDict d) =
     ''{'' @ join '', '' (map (\<lambda>(k, s). json_string k @ '': '' @ s) (sort_key fst (map (\<lambda>(k, v). (k, canon fr v)) d))) @ ''}''"
| "canon fr (JList xs) = ''['' @ join '', '' (sort (map (canon fr) xs)) @ '']''"
| "canon fr j = json_dumps fr j"

lemma normalize_canon: "normalize_config fr j = canon fr j"
  unfolding normalize_config_def
proof (induction j)
  case (JList xs)
  then have "map (\<lambda>x. json_dumps fr (sort_json fr x)) xs = map (canon fr) xs" by simp
  then show ?case by (simp add: map_sort_key comp_def del: map_eq_conv)
next
  case (JDict d)
  then have "map (\<lambda>(k, v). (k, json_dumps fr (sort_json fr v))) d = map (\<lambda>(k, v). (k, canon fr v)) d"
    by (auto simp: snds.simps)
  moreover have "sort_key fst (map (\<lambda>(k, v). (k, json_dumps fr v)) (sort_key fst (map (\<lambda>(k, v). (k, sort_json fr v)) d)))
      = sort_key fst (map (\<lambda>(k, v). (k, json_dumps fr (sort_json fr v))) d)"
    by (simp add: sort_key_map case_prod_unfold comp_def sort_key_id_if_sorted)
  ultimately show ?case by (simp del: map_eq_conv)
qed simp_all

lemma canon_same: "same_data a b \<Longrightarrow> canon fr a = canon fr b"
proof (induction rule: same_data.induct)
  case (list xs ys' ys)
  then have "map (canon fr) xs = map (canon fr) ys'"
    by (auto simp: list_all2_conv_all_nth intro: nth_equalityI)
  moreover have "sort (map (canon fr) ys') = sort (map (canon fr) ys)"
    using list.hyps by (intro properties_for_sort) simp_all
  ultimately show ?case by simp
next
  case (dict d e' e)
  then have "map (canon fr) (map snd d) = map (canon fr) (map snd e')"
    by (auto simp: list_all2_conv_all_nth intro: nth_equalityI)
  then have "map (\<lambda>(k, v). (k, canon fr v)) d = map (\<lambda>(k, v). (k, canon fr v)) e'"
    using dict.hyps(1) pair_list_eqI [of "map (\<lambda>(k, v). (k, canon fr v)) d" "map (\<lambda>(k, v). (k, canon fr v)) e'"]
    by (simp add: case_prod_beta comp_def)
  moreover have "sort_key fst (map (\<lambda>(k, v). (k, canon fr v)) e') = sort_key fst (map (\<lambda>(k, v). (k, canon fr v)) e)"
    using dict.hyps(2,3) mset_eq_setD [OF dict.hyps(2)]
    by (intro sort_key_inj_key_eq) (fastforce simp: distinct_map inj_on_def)+
  ultimately show ?case by simp
qed simp

lemma normalize_same: "same_data a b \<Longrightarrow> normalize_config fr a = normalize_config fr b"
  by (simp add: normalize_canon canon_same)

section \<open>The invariant of the table\<close>

text \<open>A row whose type is known, version supported and configuration validated.\<close>

definition rule_ok :: "parser \<Rightarrow> 'r registry \<Rightarrow> queue_rule \<Rightarrow> bool" where
  "rule_ok parse G r \<longleftrightarrow>
     rule_type r \<in> set RuleType \<and> validate_rule_version G (rule_type r) (rule_version r) = Inr () \<and>
     (\<exists>cfg d. rule_config r = JDict d \<and> validate_rule_config parse (rule_type r) cfg = Inr d)"

text \<open>
  Rules of one queue with the same duplicate key are the same row. A composite may be given the
  empty version, with which an update is compared under the old version: it is left out.
\<close>

definition no_duplicates :: "(rat \<Rightarrow> string) \<Rightarrow> queue_rule list \<Rightarrow> bool" where
  "no_duplicates fr rules \<longleftrightarrow>
     (\<forall>r \<in> set rules. \<forall>r' \<in> set rules. rule_version r \<noteq> [] \<longrightarrow>
        rule_queue_id r = rule_queue_id r' \<longrightarrow> rule_key fr r = rule_key fr r' \<longrightarrow> rule_id r = rule_id r')"

definition store_inv :: "parser \<Rightarrow> 'r registry \<Rightarrow> (rat \<Rightarrow> string) \<Rightarrow> rule_db \<Rightarrow> bool" where
  "store_inv parse G fr db \<longleftrightarrow>
     distinct (map rule_id (db_rules db)) \<and> (\<forall>r \<in> set (db_rules db). rule_id r < db_next db) \<and>
     (\<forall>r \<in> set (db_rules db). rule_ok parse G r) \<and> no_duplicates fr (db_rules db)"

text \<open>What the operations get from a parsed body.\<close>

definition data_ok :: "parser \<Rightarrow> rule_data \<Rightarrow> bool" where
  "data_ok parse data \<longleftrightarrow>
     rd_type data \<in> set RuleType \<and>
     (\<exists>cfg d. rd_config data = Some d \<and> validate_rule_config parse (rd_type data) cfg = Inr d)"

lemma set_get_rules [simp]:
  "set (get_rules db qid b) = {r \<in> set (db_rules db). rule_queue_id r = qid \<and> (b \<longrightarrow> is_active r)}"
  by (auto simp: get_rules_def)

lemma new_rule_simps [simp]:
  "rule_id (new_rule rid qid data) = rid" "rule_queue_id (new_rule rid qid data) = qid"
  "rule_type (new_rule rid qid data) = rd_type data"
  "rule_version (new_rule rid qid data) = or_else (rd_version data) ''1.0''"
  "rule_config (new_rule rid qid data) = JDict (or_else (rd_config data) [])"
  "rule_key fr (new_rule rid qid data) =
     (rd_type data, or_else (rd_version data) ''1.0'', normalize_config fr (JDict (or_else (rd_config data) [])))"
  by (simp_all add: new_rule_def rule_key_def)

lemma new_rule_ok:
  "data_ok parse data \<Longrightarrow> validate_rule_version G (rd_type data) (or_else (rd_version data) ''1.0'') = Inr () \<Longrightarrow>
   rule_ok parse G (new_rule rid qid data)"
  by (auto simp: rule_ok_def data_ok_def)

lemma no_duplicates_snoc:
  assumes "no_duplicates fr rs" "\<forall>r \<in> set rs. rule_queue_id r = rule_queue_id n \<longrightarrow> rule_key fr r \<noteq> rule_key fr n"
  shows "no_duplicates fr (rs @ [n])"
  unfolding no_duplicates_def
proof (intro ballI impI)
  fix r r'
  assume "r \<in> set (rs @ [n])" "r' \<in> set (rs @ [n])" and v: "rule_version r \<noteq> []"
    and q: "rule_queue_id r = rule_queue_id r'" and k: "rule_key fr r = rule_key fr r'"
  then consider "r \<in> set rs" "r' \<in> set rs" | "r = n" "r' = n" | "r \<in> set rs" "r' = n" | "r = n" "r' \<in> set rs"
    unfolding set_append by auto
  then show "rule_id r = rule_id r'"
  proof cases
    case 1 with v q k assms(1) show ?thesis unfolding no_duplicates_def by blast
  next
    case 2 then show ?thesis by simp
  next
    case 3 with q k assms(2) show ?thesis by metis
  next
    case 4 with q k assms(2) show ?thesis by metis
  qed
qed

lemma insert_rule_inv:
  assumes "store_inv parse G fr db" "data_ok parse data"
    and "validate_rule_version G (rd_type data) (or_else (rd_version data) ''1.0'') = Inr ()"
    and "\<forall>r \<in> set (db_rules db). rule_queue_id r = qid \<longrightarrow> rule_key fr r \<noteq> rule_key fr (new_rule 0 qid data)"
    and "insert_rule qid data db = (r, db')"
  shows "store_inv parse G fr db'"
proof -
  have db': "db_rules db' = db_rules db @ [new_rule (db_next db) qid data]" "db_next db' = db_next db + 1"
    using assms(5) by (auto simp: insert_rule_def Let_def)
  have fresh: "db_next db \<notin> set (map rule_id (db_rules db))"
    using assms(1) by (auto simp: store_inv_def)
  have "no_duplicates fr (db_rules db @ [new_rule (db_next db) qid data])"
    using assms(1,4) by (intro no_duplicates_snoc) (simp_all add: store_inv_def)
  then show ?thesis
    using assms(1) fresh new_rule_ok [OF assms(2,3)] unfolding store_inv_def db' by auto
qed

lemma filter_inv:
  assumes "store_inv parse G fr db"
  shows "store_inv parse G fr (db\<lparr>db_rules := filter P (db_rules db)\<rparr>)"
  using assms by (auto simp: store_inv_def no_duplicates_def distinct_map_filter)

lemma create_rule_inv:
  assumes "store_inv parse G fr db" "data_ok parse data"
  shows "store_inv parse G fr (snd (create_rule G fr qid data db))"
  using assms insert_rule_inv [OF assms]
  by (auto simp: create_rule_def bindS_def split: sum.splits prod.splits)

lemma delete_rule_inv: "store_inv parse G fr db \<Longrightarrow> store_inv parse G fr (snd (delete_rule rid qid db))"
  by (auto simp: delete_rule_def filter_inv split: option.splits)

text \<open>Updating a row.\<close>

lemma get_rule_Some:
  "get_rule db qid rid = Some r \<Longrightarrow> r \<in> set (db_rules db) \<and> rule_id r = rid \<and> rule_queue_id r = qid"
  unfolding get_rule_def find_Some_iff by (metis nth_mem)

lemma updated_rule_simps [simp]:
  "rule_id (updated_rule r up cfg) = rule_id r" "rule_queue_id (updated_rule r up cfg) = rule_queue_id r"
  "rule_type (updated_rule r up cfg) = rule_type r"
  "rule_version (updated_rule r up cfg) = or_else (up_version up) (rule_version r)"
  "rule_config (updated_rule r up cfg) = (case cfg of Some d \<Rightarrow> JDict d | None \<Rightarrow> rule_config r)"
  by (simp_all add: updated_rule_def)

lemma updated_rule_key:
  "rule_version (updated_rule r up cfg) \<noteq> [] \<Longrightarrow> rule_key fr (updated_rule r up cfg) = final_key fr r up cfg"
  by (auto simp: rule_key_def final_key_def split: option.splits)

lemma updated_rule_ok:
  assumes "rule_ok parse G r" "revalidated_config parse r up = Inr cfg"
    and "case up_version up of None \<Rightarrow> True | Some v \<Rightarrow> validate_rule_version G (rule_type r) v = Inr ()"
  shows "rule_ok parse G (updated_rule r up cfg)"
  using assms by (auto simp: rule_ok_def revalidated_config_def split: option.splits sum.splits)

lemma no_duplicates_replace:
  assumes "no_duplicates fr rs" "\<forall>r \<in> set rs. rule_id r \<noteq> rule_id n \<longrightarrow> rule_version n \<noteq> [] \<longrightarrow>
      rule_queue_id r = rule_queue_id n \<longrightarrow> rule_key fr r \<noteq> rule_key fr n"
  shows "no_duplicates fr (map (\<lambda>r. if rule_id r = rule_id n then n else r) rs)"
  unfolding no_duplicates_def
proof (intro ballI impI)
  let ?m = "\<lambda>r. if rule_id r = rule_id n then n else r"
  fix a b
  assume "a \<in> set (map ?m rs)" "b \<in> set (map ?m rs)"
  then obtain r r' where r: "r \<in> set rs" "a = ?m r" and r': "r' \<in> set rs" "b = ?m r'" by auto
  assume v: "rule_version a \<noteq> []" and q: "rule_queue_id a = rule_queue_id b" and k: "rule_key fr a = rule_key fr b"
  then have v': "rule_version b \<noteq> []" by (simp add: rule_key_def)
  consider "rule_id r = rule_id n" "rule_id r' = rule_id n" | "rule_id r = rule_id n" "rule_id r' \<noteq> rule_id n"
    | "rule_id r \<noteq> rule_id n" "rule_id r' = rule_id n" | "rule_id r \<noteq> rule_id n" "rule_id r' \<noteq> rule_id n"
    by blast
  then show "rule_id a = rule_id b"
  proof cases
    case 1 then show ?thesis using r r' by simp
  next
    case 2 then show ?thesis using assms(2) r r' v q k by metis
  next
    case 3 then show ?thesis using assms(2) r r' v' q k by metis
  next
    case 4 then show ?thesis using assms(1) r r' v q k unfolding no_duplicates_def by metis
  qed
qed

lemma replace_rule_inv:
  assumes "store_inv parse G fr db" "rule_ok parse G n" "rule_id n < db_next db"
    and "\<forall>r \<in> set (db_rules db). rule_id r \<noteq> rule_id n \<longrightarrow> rule_version n \<noteq> [] \<longrightarrow>
      rule_queue_id r = rule_queue_id n \<longrightarrow> rule_key fr r \<noteq> rule_key fr n"
  shows "store_inv parse G fr (replace_rule n db)"
proof -
  have "map rule_id (map (\<lambda>r. if rule_id r = rule_id n then n else r) (db_rules db)) = map rule_id (db_rules db)"
    by simp
  moreover have "no_duplicates fr (db_rules (replace_rule n db))"
    using no_duplicates_replace [of fr "db_rules db" n] assms(1,4) by (simp add: store_inv_def replace_rule_def)
  ultimately show ?thesis
    using assms(1-3) by (auto simp: store_inv_def replace_rule_def simp del: map_map)
qed

lemma update_rule_inv:
  assumes inv: "store_inv parse G fr db"
  shows "store_inv parse G fr (snd (update_rule parse G fr rid qid up db))"
proof (cases "up_other up = [] \<and> (\<exists>rule cfg. get_rule db qid rid = Some rule \<and> revalidated_config parse rule up = Inr cfg \<and>
    (case up_version up of None \<Rightarrow> Inr () | Some v \<Rightarrow> validate_rule_version G (rule_type rule) v) = Inr () \<and>
    (\<forall>other \<in> set (get_rules db qid False). rule_id other \<noteq> rid \<longrightarrow> rule_key fr other \<noteq> final_key fr rule up cfg))")
  case False
  then have "snd (update_rule parse G fr rid qid up db) = db"
    by (auto simp: update_rule_def bindS_def split: option.splits sum.splits)
  with inv show ?thesis by simp
next
  case True
  then obtain rule cfg where r: "get_rule db qid rid = Some rule" and cfg: "revalidated_config parse rule up = Inr cfg"
    and v: "(case up_version up of None \<Rightarrow> Inr () | Some v \<Rightarrow> validate_rule_version G (rule_type rule) v) = Inr ()"
    and u: "\<forall>other \<in> set (get_rules db qid False). rule_id other \<noteq> rid \<longrightarrow> rule_key fr other \<noteq> final_key fr rule up cfg"
    and o: "up_other up = []" by blast
  note mem = get_rule_Some [OF r]
  have "snd (update_rule parse G fr rid qid up db) = replace_rule (updated_rule rule up cfg) db"
    using r cfg v u o by (auto simp: update_rule_def bindS_def)
  moreover have "rule_ok parse G (updated_rule rule up cfg)"
    using inv mem updated_rule_ok [OF _ cfg] v by (auto simp: store_inv_def split: option.splits)
  moreover have "\<forall>r \<in> set (db_rules db). rule_id r \<noteq> rid \<longrightarrow> rule_version (updated_rule rule up cfg) \<noteq> [] \<longrightarrow>
      rule_queue_id r = qid \<longrightarrow> rule_key fr r \<noteq> rule_key fr (updated_rule rule up cfg)"
    using u updated_rule_key [of rule up cfg fr] by auto
  ultimately show ?thesis
    using replace_rule_inv [OF inv, of "updated_rule rule up cfg"] inv mem by (auto simp: store_inv_def)
qed

text \<open>Replacing all rows of a queue.\<close>

lemma check_replacements_ok:
  "check_replacements G fr seen datas = Inr () \<Longrightarrow>
   (\<forall>data \<in> set datas. validate_rule_version G (rd_type data) (or_else (rd_version data) ''1.0'') = Inr ()) \<and>
   distinct (map (data_key fr) datas) \<and> set (map (data_key fr) datas) \<inter> set seen = {}"
proof (induction datas arbitrary: seen)
  case (Cons data datas)
  then have "validate_rule_version G (rd_type data) (or_else (rd_version data) ''1.0'') = Inr ()"
      "data_key fr data \<notin> set seen" "check_replacements G fr (data_key fr data # seen) datas = Inr ()"
    by (simp_all add: bindR_eq_Inr split: if_splits)
  with Cons.IH [of "data_key fr data # seen"] show ?case by simp
qed simp

definition row_key :: "(rat \<Rightarrow> string) \<Rightarrow> queue_rule \<Rightarrow> string \<times> string" where
  "row_key fr r = (rule_type r, normalize_config fr (rule_config r))"

lemma row_key_new [simp]: "row_key fr (new_rule rid qid data) = data_key fr data"
  by (simp add: row_key_def data_key_def)

lemma insert_rules_inv:
  assumes "store_inv parse G fr db" "\<forall>data \<in> set datas. data_ok parse data"
    and "\<forall>data \<in> set datas. validate_rule_version G (rd_type data) (or_else (rd_version data) ''1.0'') = Inr ()"
    and "distinct (map (data_key fr) datas)"
    and "\<forall>r \<in> set (db_rules db). rule_queue_id r = qid \<longrightarrow> row_key fr r \<notin> data_key fr ` set datas"
    and "insert_rules qid datas db = (rs, db')"
  shows "store_inv parse G fr db'"
  using assms
proof (induction datas arbitrary: db rs)
  case (Cons data datas)
  obtain r db1 where r: "insert_rule qid data db = (r, db1)" by (cases "insert_rule qid data db")
  then have rows: "set (db_rules db1) = insert (new_rule (db_next db) qid data) (set (db_rules db))"
    by (auto simp: insert_rule_def Let_def)
  have "rule_key fr x \<noteq> rule_key fr (new_rule 0 qid data)" if "x \<in> set (db_rules db)" "rule_queue_id x = qid" for x
  proof -
    have "row_key fr x \<noteq> data_key fr data" using Cons.prems(5) that by auto
    then show ?thesis by (auto simp: rule_key_def row_key_def data_key_def)
  qed
  then have inv: "store_inv parse G fr db1"
    using insert_rule_inv [OF Cons.prems(1) _ _ _ r] Cons.prems(2,3) by simp
  obtain rs' where rs': "insert_rules qid datas db1 = (rs', db')"
    using Cons.prems(6) r by (auto split: prod.splits)
  show ?case
  proof (rule Cons.IH [OF inv _ _ _ _ rs'])
    show "\<forall>r \<in> set (db_rules db1). rule_queue_id r = qid \<longrightarrow> row_key fr r \<notin> data_key fr ` set datas"
      using Cons.prems(4,5) rows by auto
  qed (use Cons.prems(2-4) in simp_all)
qed simp

lemma upsert_rules_inv:
  assumes "store_inv parse G fr db" "\<forall>data \<in> set datas. data_ok parse data"
  shows "store_inv parse G fr (snd (upsert_rules G fr qid datas db))"
proof (cases "datas = [] \<or> check_replacements G fr [] datas \<noteq> Inr ()")
  case True
  with assms(1) show ?thesis
    by (auto simp: upsert_rules_def delete_all_for_rule_def filter_inv bindS_def split: sum.splits)
next
  case False
  let ?db = "delete_all_for_rule qid db"
  have inv: "store_inv parse G fr ?db" using assms(1) by (simp add: delete_all_for_rule_def filter_inv)
  obtain rs db' where ins: "insert_rules qid datas ?db = (rs, db')" by (cases "insert_rules qid datas ?db")
  have "store_inv parse G fr db'"
    using check_replacements_ok [of G fr "[]" datas] False
    by (intro insert_rules_inv [OF inv assms(2) _ _ _ ins]) (auto simp: delete_all_for_rule_def)
  with False ins show ?thesis by (simp add: upsert_rules_def bindS_def)
qed

section \<open>Endpoints as steps\<close>

lemma RuleCreateSchema_wf: "class_wf RuleCreateSchema" "class_wf RuleReplaceSchema"
  by (simp_all add: class_wf_def RuleCreateSchema_def RuleReplaceSchema_def)

lemma parse_rule_data_ok:
  assumes "pydantic_sound parse" "cls = RuleCreateSchema \<or> cls = RuleReplaceSchema" "parse_rule_data parse cls body = Inr data"
  shows "data_ok parse data"
proof -
  obtain obj where obj: "construct_ignoring parse cls body = Inr obj"
    using assms(3) by (auto simp: parse_rule_data_def bindR_eq_Inr)
  then have "parse (cls_fields cls) (filter (\<lambda>(k, _). k \<in> fst ` set (cls_fields cls)) body) = Some obj"
    using construct_parse by (simp add: construct_ignoring_def)
  then have "well_typed_obj cls obj"
    using parse_well_typed [OF assms(1)] RuleCreateSchema_wf assms(2) by blast
  then have "has_type (TLitStr RuleType) (dget obj ''type'')"
    using assms(2) by (auto simp: well_typed_obj_def RuleCreateSchema_def RuleReplaceSchema_def)
  then obtain ty where ty: "dget obj ''type'' = JStr ty" "ty \<in> set RuleType"
    by (auto split: json.splits)
  then show ?thesis
    using assms(3) obj
    by (auto simp: parse_rule_data_def data_ok_def bindR_eq_Inr split: option.splits)
qed

inductive rules_step :: "parser \<Rightarrow> 'r registry \<Rightarrow> (rat \<Rightarrow> string) \<Rightarrow> rule_db \<Rightarrow> rule_db \<Rightarrow> bool"
  for parse :: parser and G :: "'r registry" and fr :: "rat \<Rightarrow> string" where
  post: "rules_step parse G fr db (snd (rules_post parse G fr queues qid body db))"
| patch: "rules_step parse G fr db (snd (rules_patch parse G fr queues qid rid body db))"
| delete: "rules_step parse G fr db (snd (rules_delete queues qid rid db))"
| put: "rules_step parse G fr db (snd (rules_put parse G fr queues qid body db))"

definition empty_db :: rule_db where
  "empty_db = \<lparr>db_rules = [], db_next = 1\<rparr>"

definition rules_reachable :: "parser \<Rightarrow> 'r registry \<Rightarrow> (rat \<Rightarrow> string) \<Rightarrow> rule_db \<Rightarrow> bool" where
  "rules_reachable parse G fr db \<longleftrightarrow> (rules_step parse G fr)\<^sup>*\<^sup>* empty_db db"

lemma require_queue_state [simp]: "snd (require_queue queues qid db) = db"
  by (simp add: require_queue_def)

lemma in_session_inv:
  "store_inv parse G fr s \<Longrightarrow> store_inv parse G fr (snd (m s)) \<Longrightarrow> store_inv parse G fr (snd (in_session m s))"
  by (auto simp: in_session_def split: prod.splits sum.splits)

lemma in_session_atomic: "fst (in_session m s) = Inl e \<Longrightarrow> snd (in_session m s) = s"
  by (auto simp: in_session_def split: prod.splits sum.splits)

lemma map_res_all: "map_res f xs = Inr ys \<Longrightarrow> y \<in> set ys \<Longrightarrow> \<exists>x \<in> set xs. f x = Inr y"
  by (induction xs arbitrary: ys) (auto simp: bindR_eq_Inr)

lemma as_bad_request_Inr [simp]: "as_bad_request m r = Inr x \<longleftrightarrow> r = Inr x"
  by (auto simp: as_bad_request_def split: sum.splits)

lemma snd_bindS_lift: "snd (bindS (liftS r) f s) = (case r of Inl e \<Rightarrow> s | Inr x \<Rightarrow> snd (f x s))"
  by (simp add: bindS_def split: sum.splits)

lemma snd_require: "snd (bindS (require_queue queues qid) f db) = (if queues qid then snd (f () db) else db)"
  by (simp add: require_queue_def snd_bindS_lift)

lemma snd_bindS_pure: "(\<And>x s. snd (f x s) = s) \<Longrightarrow> snd (bindS m f s) = snd (m s)"
  by (simp add: bindS_def split: prod.splits sum.splits)

lemma rules_post_inv:
  assumes "pydantic_sound parse" "store_inv parse G fr db"
  shows "store_inv parse G fr (snd (rules_post parse G fr queues qid body db))"
proof -
  have "store_inv parse G fr (snd (in_session (create_rule G fr qid data) db))"
    if "parse_rule_data parse RuleCreateSchema body = Inr data" for data
    using parse_rule_data_ok [OF assms(1) _ that] assms(2) by (intro in_session_inv create_rule_inv) simp_all
  with assms(2) show ?thesis
    by (simp add: rules_post_def snd_require snd_bindS_lift split: sum.splits)
qed

lemma rules_put_inv:
  assumes "pydantic_sound parse" "store_inv parse G fr db"
  shows "store_inv parse G fr (snd (rules_put parse G fr queues qid body db))"
proof -
  let ?item = "\<lambda>data. as_bad_request ''Invalid rule data''
    (case data of JDict d \<Rightarrow> parse_rule_data parse RuleReplaceSchema d | _ \<Rightarrow> Inl (PyExc ''ValidationError''))"
  have item: "data_ok parse data" if "?item x = Inr data" for x data
    using that parse_rule_data_ok [OF assms(1), of RuleReplaceSchema] by (cases x) auto
  have "store_inv parse G fr (snd (in_session (upsert_rules G fr qid datas) db))" if "map_res ?item xs = Inr datas" for xs datas
  proof (intro in_session_inv upsert_rules_inv ballI)
    show "data_ok parse data" if "data \<in> set datas" for data
      using map_res_all [OF \<open>map_res ?item xs = Inr datas\<close> that] item by blast
  qed (rule assms(2))+
  with assms(2) show ?thesis
    by (simp add: rules_put_def snd_require snd_bindS_lift split: sum.splits)
qed

lemma rules_patch_inv:
  assumes "store_inv parse G fr db"
  shows "store_inv parse G fr (snd (rules_patch parse G fr queues qid rid body db))"
proof -
  have "store_inv parse G fr (snd (in_session (update_rule parse G fr rid qid up) db))" for up
    using assms by (intro in_session_inv update_rule_inv)
  with assms show ?thesis
    by (simp add: rules_patch_def snd_require snd_bindS_lift snd_bindS_pure split: sum.splits option.splits)
qed

lemma rules_delete_inv:
  assumes "store_inv parse G fr db"
  shows "store_inv parse G fr (snd (rules_delete queues qid rid db))"
proof -
  have "store_inv parse G fr (snd (in_session (delete_rule rid qid) db))"
    using assms by (intro in_session_inv delete_rule_inv)
  with assms show ?thesis
    by (simp add: rules_delete_def snd_require snd_bindS_pure split: option.splits)
qed

lemma rules_step_inv:
  assumes "pydantic_sound parse" "rules_step parse G fr db db'" "store_inv parse G fr db"
  shows "store_inv parse G fr db'"
  using assms(2,3)
  by (cases rule: rules_step.cases)
    (simp_all add: rules_post_inv [OF assms(1)] rules_patch_inv rules_delete_inv rules_put_inv [OF assms(1)])

lemma reachable_store_inv:
  assumes "pydantic_sound parse" "rules_reachable parse G fr db"
  shows "store_inv parse G fr db"
  using assms(2) unfolding rules_reachable_def
proof (induction rule: rtranclp_induct)
  case base
  show ?case by (simp add: store_inv_def empty_db_def no_duplicates_def)
next
  case (step y z)
  from rules_step_inv [OF assms(1) step.hyps(2) step.IH] show ?case .
qed

section \<open>What stored rules give to the engine\<close>

lemma accepted_field:
  assumes "pydantic_sound parse" "class_wf cls" "construct parse cls cfg = Inr obj"
    and "(k, validate) \<in> set (field_validators cls)" "dget obj k \<noteq> JNull"
  shows "validate (dget obj k) = Inr ()"
proof -
  have p: "parse (cls_fields cls) cfg = Some obj" and v: "run_field_validators cls cfg obj = Inr ()"
    using assms(3) by (auto simp: construct_def res_simps split: option.splits)
  have "(if map_of (model_dump_exclude_none obj) k = None then Inr () else as_validation (validate (dget obj k))) = Inr ()"
    using revalidate_fields [OF assms(1,2) p v, unfolded run_field_validators_def for_each_Inr] assms(4) by force
  moreover have "map_of (model_dump_exclude_none obj) k \<noteq> None"
    unfolding map_of_dump [OF well_typed_distinct [OF assms(2) parse_well_typed [OF assms(1,2) p]]] using assms(5) by simp
  ultimately have "as_validation (validate (dget obj k)) = Inr ()" by simp
  then show ?thesis by (simp add: as_validation_def split: if_splits)
qed

lemma require_at_least_Inr: "require_at_least q v = Inr () \<longleftrightarrow> (\<exists>x. num_of v = Some x \<and> q \<le> x)"
  by (cases "num_of v") (simp_all add: require_at_least_def num_below_def not_less)

lemma target_typed: "has_type (TOpt (TList TInt)) v \<Longrightarrow> v = JNull \<or> (\<exists>xs. v = JList xs)"
  by (cases v) auto

lemma validate_period_ok: "validate_period v = Inr () \<Longrightarrow> period_ok v"
  unfolding validate_period_def period_ok_def
  by (auto simp: bindR_eq_Inr split: json.splits if_splits)

lemma rate_limit_accepted:
  assumes "pydantic_sound parse" "validate_rule_config parse ''rate_limit'' cfg = Inr d"
  shows "rate_limit_config_ok d"
proof -
  have cls: "map_of (RULE_CONFIG_SCHEMA_MAP parse) ''rate_limit'' = Some RateLimitConfig"
    by (simp add: map_of_leaf_schema leaf_schema_map_def)
  then obtain obj where con: "construct parse RateLimitConfig cfg = Inr obj" and d: "d = model_dump_exclude_none obj"
    using assms(2) by (auto simp: validate_rule_config_def bindR_eq_Inr)
  note wf = schema_map_wf [OF cls]
  note wt = parse_well_typed [OF assms(1) wf construct_parse [OF con]]
  note dist = well_typed_distinct [OF wf wt]
  have t: "has_type TInt (dget obj ''max_requests'')" "has_type TStr (dget obj ''period'')"
      "has_type (TOpt (TList TInt)) (dget obj ''target'')"
    using wt by (auto simp: well_typed_obj_def RateLimitConfig_def)
  have nn: "dget obj ''max_requests'' \<noteq> JNull" "dget obj ''period'' \<noteq> JNull"
    using t(1,2) by auto
  have "require_at_least 1 (dget obj ''max_requests'') = Inr ()"
    by (rule accepted_field [OF assms(1) wf con _ nn(1)]) (simp add: RateLimitConfig_def)
  then have "\<exists>n. dget obj ''max_requests'' = JInt n \<and> 1 \<le> n"
    using t(1) by (cases "dget obj ''max_requests''") (auto simp: require_at_least_Inr)
  moreover have "validate_period (dget obj ''period'') = Inr ()"
    by (rule accepted_field [OF assms(1) wf con _ nn(2)]) (simp add: RateLimitConfig_def)
  ultimately show ?thesis
    using validate_period_ok target_typed [OF t(3)] nn
    by (simp add: d rate_limit_config_ok_def target_ok_def dget_dump [OF dist] dget_or_dump [OF dist])
qed

lemma cooldown_accepted:
  assumes "pydantic_sound parse" "validate_rule_config parse ''cooldown'' cfg = Inr d"
  shows "cooldown_config_ok d"
proof -
  have cls: "map_of (RULE_CONFIG_SCHEMA_MAP parse) ''cooldown'' = Some CooldownConfig"
    by (simp add: map_of_leaf_schema leaf_schema_map_def)
  then obtain obj where con: "construct parse CooldownConfig cfg = Inr obj" and d: "d = model_dump_exclude_none obj"
    using assms(2) by (auto simp: validate_rule_config_def bindR_eq_Inr)
  note wf = schema_map_wf [OF cls]
  note wt = parse_well_typed [OF assms(1) wf construct_parse [OF con]]
  note dist = well_typed_distinct [OF wf wt]
  have t: "has_type TInt (dget obj ''cooldown_seconds'')" "has_type (TOpt (TList TInt)) (dget obj ''target'')"
    using wt by (auto simp: well_typed_obj_def CooldownConfig_def)
  have nn: "dget obj ''cooldown_seconds'' \<noteq> JNull"
    using t(1) by auto
  have "require_at_least 1 (dget obj ''cooldown_seconds'') = Inr ()"
    by (rule accepted_field [OF assms(1) wf con _ nn]) (simp add: CooldownConfig_def)
  then have "\<exists>n. dget obj ''cooldown_seconds'' = JInt n \<and> 1 \<le> n"
    using t(1) by (cases "dget obj ''cooldown_seconds''") (auto simp: require_at_least_Inr)
  then show ?thesis
    using target_typed [OF t(2)] by (simp add: d cooldown_config_ok_def target_ok_def dget_dump [OF dist])
qed

lemma stored_state_ok:
  assumes "pydantic_sound parse" "\<forall>r \<in> set rules. rule_ok parse G r"
  shows "rules_state_ok rules"
  unfolding rules_state_ok_def
proof (intro ballI impI)
  fix r
  assume r: "r \<in> set rules" and ns: "\<not> skips_reservation r"
  then obtain cfg d where d: "rule_config r = JDict d" and v: "validate_rule_config parse (rule_type r) cfg = Inr d"
    using assms(2) by (auto simp: rule_ok_def)
  have ty: "rule_type r = ''rate_limit'' \<or> rule_type r = ''cooldown''"
    using ns by (auto simp: skips_reservation_def STATEFUL_RULE_TYPES_def)
  then have ok: "state_config_ok (rule_type r) d"
    using v rate_limit_accepted [OF assms(1)] cooldown_accepted [OF assms(1)] by (auto simp: state_config_ok_def)
  then have "d \<noteq> []"
    using ty by (auto simp: state_config_ok_def rate_limit_config_ok_def cooldown_config_ok_def)
  with d ok show "\<exists>d. config_or_empty (rule_config r) = JDict d \<and> state_config_ok (rule_type r) d"
    by (auto simp: config_or_empty_def)
qed

text \<open>Every beatmap rule of the registry has version 1.0 only.\<close>

lemma stored_beatmap:
  assumes "rule_ok parse (default_registry :: 'r registry) r" "is_active r" "map_of beatmap_contracts (rule_type r) \<noteq> None"
  shows "stored_beatmap_rule parse r"
proof -
  obtain ok spec where con: "map_of beatmap_contracts (rule_type r) = Some (ok, spec)"
    using assms(3) by auto
  obtain chk where chk: "map_of beatmap_validators (rule_type r) = Some chk"
    using contract_rule [OF con] by blast
  have "get_supported_versions (default_registry :: 'r registry) (rule_type r) = Some (supported_versions (rule_type r))"
    using get_validator_beatmap [OF chk, where 'r = 'r] by (simp add: get_supported_versions_def get_validator_def)
  moreover have "rule_type r \<noteq> ''rate_limit''"
    using con by (auto simp: beatmap_contracts_def)
  ultimately have "rule_version r = ''1.0''"
    using assms(1) by (auto simp: rule_ok_def validate_rule_version_def supported_versions_def split: if_splits)
  with assms con show ?thesis by (auto simp: stored_beatmap_rule_def rule_ok_def)
qed

end
