(* ===== verification/Task_Codec.thy ===== *)
theory Task_Codec
  imports Redis_Store Calendar "HOL-Library.Word" "HOL-Library.AList"
begin

unbundle bit_operations_syntax

text \<open>
  The task records kept in Redis hashes (\<^verbatim>\<open>src/app/redis/models/\<close>): their identifiers, their
  serialisation to string dictionaries and back. The locale \<open>hash_codec\<close> is the contract: decoding
  what was encoded gives the record back, also after unrelated fields were added. The handler task,
  the validation task and the OAuth token are interpretations.

  Identifiers are computed with CPython's hash of a tuple of integers, on 64-bit words. The hash of
  a string is randomised per process, so it is a parameter.
\<close>

section \<open>ISO timestamps\<close>

text \<open>\<open>pad k n\<close>: the last \<open>k\<close> decimal digits of \<open>n\<close>.\<close>

fun pad :: "nat \<Rightarrow> nat \<Rightarrow> string" where
  "pad 0 n = []"
| "pad (Suc k) n = pad k (n div 10) @ [digit_char (n mod 10)]"

definition digits_value :: "string \<Rightarrow> nat" where
  "digits_value s = fold (\<lambda>c a. 10 * a + digit_val c) s 0"

definition take_num :: "nat \<Rightarrow> string \<Rightarrow> (int \<times> string) option" where
  "take_num k s =
     (let t = take k s in
      if length t = k \<and> list_all is_digit t then Some (int (digits_value t), drop k s) else None)"

definition expect :: "string \<Rightarrow> string \<Rightarrow> string option" where
  "expect p s = (if take (length p) s = p then Some (drop (length p) s) else None)"

lemma length_pad [simp]: "length (pad k n) = k"
  by (induction k arbitrary: n) auto

lemma pad_digits: "list_all is_digit (pad k n)"
  by (induction k arbitrary: n) auto

lemma digits_value_append: "digits_value (s @ [c]) = 10 * digits_value s + digit_val c"
  by (simp add: digits_value_def)

lemma digits_value_pad: "n < 10 ^ k \<Longrightarrow> digits_value (pad k n) = n"
proof (induction k arbitrary: n)
  case (Suc k)
  then have "n div 10 < 10 ^ k" by (simp add: less_mult_imp_div_less mult.commute)
  with Suc.IH show ?case by (simp add: digits_value_append)
qed (simp add: digits_value_def)

lemma take_num_pad: "n < 10 ^ k \<Longrightarrow> take_num k (pad k n @ r) = Some (int n, r)"
  by (simp add: take_num_def Let_def pad_digits digits_value_pad)

lemma expect_append [simp]: "expect p (p @ r) = Some r"
  by (simp add: expect_def)

text \<open>
  \<^verbatim>\<open>datetime.isoformat()\<close> of an aware UTC datetime; the fraction is left out when it is zero.
\<close>

definition isoformat :: "datetime \<Rightarrow> string" where
  "isoformat d =
     pad 4 (nat (year d)) @ ''-'' @ pad 2 (nat (month d)) @ ''-'' @ pad 2 (nat (day d)) @ ''T'' @
     pad 2 (nat (hour d)) @ '':'' @ pad 2 (nat (minute d)) @ '':'' @ pad 2 (nat (second d)) @
     (if microsecond d = 0 then [] else ''.'' @ pad 6 (nat (microsecond d))) @ ''+00:00''"

text \<open>
  \<^verbatim>\<open>datetime.fromisoformat\<close> on that form. Other ISO forms, which the code never stores, are not
  represented.
\<close>

definition num_then :: "nat \<Rightarrow> string \<Rightarrow> (int \<Rightarrow> string \<Rightarrow> 'a option) \<Rightarrow> string \<Rightarrow> 'a option" where
  "num_then k sep f s =
     Option.bind (take_num k s) (\<lambda>(n, r). Option.bind (expect sep r) (f n))"

lemma num_then_pad [simp]: "n < 10 ^ k \<Longrightarrow> num_then k sep f (pad k n @ sep @ r) = f (int n) r"
  by (simp add: num_then_def take_num_pad)

definition parse_fraction :: "string \<Rightarrow> int option" where
  "parse_fraction s =
     (case expect ''.'' s of
        Some r \<Rightarrow> num_then 6 ''+00:00'' (\<lambda>n r. if r = [] then Some n else None) r
      | None \<Rightarrow> if s = ''+00:00'' then Some 0 else None)"

definition parse_iso :: "string \<Rightarrow> datetime option" where
  "parse_iso =
     num_then 4 ''-'' (\<lambda>y. num_then 2 ''-'' (\<lambda>mo. num_then 2 ''T'' (\<lambda>d. num_then 2 '':'' (\<lambda>h. num_then 2 '':'' (\<lambda>mi s.
       Option.bind (take_num 2 s) (\<lambda>(se, r). map_option (\<lambda>us.
         \<lparr>year = y, month = mo, day = d, hour = h, minute = mi, second = se, microsecond = us\<rparr>) (parse_fraction r)))))))"

definition fromisoformat :: "string \<Rightarrow> datetime res" where
  "fromisoformat s =
     (case parse_iso s of
        Some d \<Rightarrow> if valid_datetime d then Inr d else Inl (PyExc ''ValueError'')
      | None \<Rightarrow> Inl (PyExc ''ValueError''))"

lemma parse_fraction_isoformat:
  assumes "0 \<le> us" "us < 1000000"
  shows "parse_fraction ((if us = 0 then [] else ''.'' @ pad 6 (nat us)) @ ''+00:00'') = Some us"
proof (cases "us = 0")
  case True
  then show ?thesis by (simp add: parse_fraction_def expect_def)
next
  case False
  have "expect ''.'' (''.'' @ pad 6 (nat us) @ ''+00:00'') = Some (pad 6 (nat us) @ ''+00:00'' @ [])"
    by (simp only: expect_append) simp
  moreover have "nat us < 10 ^ 6" using assms by simp
  ultimately show ?thesis
    using False assms
      num_then_pad [of "nat us" 6 "''+00:00''" "\<lambda>n r. if r = [] then Some n else None" "[]"]
    by (simp add: parse_fraction_def)
qed

lemma days_in_month_le: "1 \<le> m \<Longrightarrow> m \<le> 12 \<Longrightarrow> days_in_month y m \<le> 31"
proof -
  assume "1 \<le> m" "m \<le> 12"
  then have "m \<in> {1, 2, 3, 4, 5, 6, 7, 8, 9, 10, 11, 12}"
    by (simp only: insert_iff empty_iff) presburger
  then show ?thesis
    by (elim insertE emptyE) (simp_all add: days_in_month_def days_before_month_def month_offsets_def)
qed

lemma fromisoformat_isoformat:
  assumes v: "valid_datetime d" and y: "year d < 10000"
  shows "fromisoformat (isoformat d) = Inr d"
proof -
  have "day d \<le> 31"
    using v days_in_month_le [of "month d" "year d"] by (auto simp: valid_datetime_def)
  then have n: "nat (year d) < 10 ^ 4" "nat (month d) < 10 ^ 2" "nat (day d) < 10 ^ 2" "nat (hour d) < 10 ^ 2"
      "nat (minute d) < 10 ^ 2" "nat (second d) < 10 ^ 2"
    using v y by (auto simp: valid_datetime_def)
  have us: "parse_fraction ((if microsecond d = 0 then [] else ''.'' @ pad 6 (nat (microsecond d))) @ ''+00:00'') =
      Some (microsecond d)"
    using v by (intro parse_fraction_isoformat) (auto simp: valid_datetime_def)
  have "parse_iso (isoformat d) = Some d"
    unfolding parse_iso_def isoformat_def
    by (simp only: num_then_pad [OF n(1)] num_then_pad [OF n(2)] num_then_pad [OF n(3)] num_then_pad [OF n(4)]
        num_then_pad [OF n(5)] take_num_pad [OF n(6)] bind.simps split_conv us option.map)
      (use v in \<open>simp add: valid_datetime_def\<close>)
  with v show ?thesis by (simp add: fromisoformat_def)
qed

section \<open>Identifiers\<close>

text \<open>
  CPython: the hash of an integer is its residue modulo the Mersenne prime $2^{61} - 1$ with the sign
  kept, never $-1$; the hash of a tuple folds the hashes of its items (the xxHash scheme) in 64-bit
  arithmetic.
\<close>

definition py_hash_int :: "int \<Rightarrow> int" where
  "py_hash_int n =
     (let h = (if n < 0 then - (- n mod (2 ^ 61 - 1)) else n mod (2 ^ 61 - 1)) in if h = -1 then -2 else h)"

definition XXPRIME_1 :: "64 word" where "XXPRIME_1 = 11400714785074694791"
definition XXPRIME_2 :: "64 word" where "XXPRIME_2 = 14029467366897019727"
definition XXPRIME_5 :: "64 word" where "XXPRIME_5 = 2870177450012600261"

definition rotl31 :: "64 word \<Rightarrow> 64 word" where
  "rotl31 x = push_bit 31 x OR drop_bit 33 x"

definition tuple_lane :: "64 word \<Rightarrow> int \<Rightarrow> 64 word" where
  "tuple_lane acc h = rotl31 (acc + word_of_int h * XXPRIME_2) * XXPRIME_1"

definition py_hash_tuple :: "int list \<Rightarrow> 64 word" where
  "py_hash_tuple hs =
     (let acc = foldl tuple_lane XXPRIME_5 hs + (of_nat (length hs) XOR (XXPRIME_5 XOR 3527539)) in
      if acc = -1 then 1546275796 else acc)"

text \<open>\<^verbatim>\<open>hash(t) & 0x7FFFFFFFFFFFFFFF\<close>: the sign bit is dropped.\<close>

definition positive_hash :: "int list \<Rightarrow> int" where
  "positive_hash hs = uint (py_hash_tuple hs AND 0x7FFFFFFFFFFFFFFF)"

lemma positive_hash_bounds: "0 \<le> positive_hash hs \<and> positive_hash hs < 2 ^ 63"
proof -
  have "(0x7FFFFFFFFFFFFFFF :: 64 word) = mask 63"
    by (simp add: mask_eq_exp_minus_1)
  then have "positive_hash hs = take_bit 63 (uint (py_hash_tuple hs))"
    unfolding positive_hash_def by (simp only: take_bit_eq_mask [symmetric] unsigned_take_bit_eq)
  then show ?thesis using take_bit_int_less_exp [of 63 "uint (py_hash_tuple hs)"] by simp
qed

section \<open>Fields and dictionaries\<close>

datatype field = FStr string | FInt int | FBool bool | FTime "datetime option"

type_synonym str_dict = "(string \<times> string) list"

text \<open>\<^verbatim>\<open>str(value)\<close>, after the timestamps were turned into ISO text or the empty string.\<close>

fun field_str :: "field \<Rightarrow> string" where
  "field_str (FStr s) = s"
| "field_str (FInt n) = py_str n"
| "field_str (FBool b) = (if b then ''True'' else ''False'')"
| "field_str (FTime None) = []"
| "field_str (FTime (Some d)) = isoformat d"

text \<open>The conversions the deserialisers choose by key.\<close>

definition int_field :: "string \<Rightarrow> field res" where
  "int_field v = bindR (py_int v) (\<lambda>n. Inr (FInt n))"

definition time_field :: "string \<Rightarrow> field res" where
  "time_field v = (if v = [] then Inr (FTime None) else bindR (fromisoformat v) (\<lambda>d. Inr (FTime (Some d))))"

definition decode_items :: "(string \<Rightarrow> string \<Rightarrow> field res) \<Rightarrow> str_dict \<Rightarrow> (string \<times> field) list res" where
  "decode_items conv d = map_res (\<lambda>(k, v). bindR (conv k v) (\<lambda>w. Inr (k, w))) d"

text \<open>
  \<^verbatim>\<open>model_validate\<close> on the converted dictionary: unknown keys are ignored, a missing key takes the
  default of its field or is a validation error.
\<close>

definition need_int :: "(string \<times> field) list \<Rightarrow> string \<Rightarrow> int res" where
  "need_int d k = (case map_of d k of Some (FInt n) \<Rightarrow> Inr n | _ \<Rightarrow> Inl (PyExc ''ValidationError''))"

definition need_str :: "(string \<times> field) list \<Rightarrow> string \<Rightarrow> string res" where
  "need_str d k = (case map_of d k of Some (FStr s) \<Rightarrow> Inr s | _ \<Rightarrow> Inl (PyExc ''ValidationError''))"

definition need_bool :: "(string \<times> field) list \<Rightarrow> string \<Rightarrow> bool res" where
  "need_bool d k = (case map_of d k of Some (FBool b) \<Rightarrow> Inr b | _ \<Rightarrow> Inl (PyExc ''ValidationError''))"

definition str_or_empty :: "(string \<times> field) list \<Rightarrow> string \<Rightarrow> string res" where
  "str_or_empty d k = (if map_of d k = None then Inr [] else need_str d k)"

definition time_or_none :: "(string \<times> field) list \<Rightarrow> string \<Rightarrow> datetime option res" where
  "time_or_none d k =
     (case map_of d k of None \<Rightarrow> Inr None | Some (FTime t) \<Rightarrow> Inr t | _ \<Rightarrow> Inl (PyExc ''ValidationError''))"

definition storable_time :: "datetime option \<Rightarrow> bool" where
  "storable_time t \<longleftrightarrow> (case t of None \<Rightarrow> True | Some d \<Rightarrow> valid_datetime d \<and> year d < 10000)"

lemma map_of_map_values: "map_of (map (\<lambda>(k, v). (k, f k v)) d) k = map_option (f k) (map_of d k)"
  by (induction d) auto

lemma map_le_lookup: "m \<subseteq>\<^sub>m n \<Longrightarrow> m k = Some v \<Longrightarrow> n k = Some v"
  unfolding map_le_def by (metis domI)

lemma map_of_rev_distinct:
  assumes "distinct (map fst xs)"
  shows "map_of (rev xs) = map_of xs"
proof (rule ext, rule option.expand)
  have d: "distinct (map fst (rev xs))" using assms by (simp add: rev_map [symmetric])
  show "(map_of (rev xs) k = None) = (map_of xs k = None)" for k
    by (simp add: map_of_eq_None_iff)
  show "the (map_of (rev xs) k) = the (map_of xs k)" if "map_of (rev xs) k \<noteq> None" for k
    using that assms d by (auto simp: map_of_eq_Some_iff)
qed

lemma decode_items_keys: "decode_items conv d = Inr d' \<Longrightarrow> map fst d' = map fst d"
  unfolding decode_items_def by (induction d arbitrary: d') (auto simp: bindR_eq_Inr)

lemma decode_items_total:
  assumes "\<And>k v. map_of d k = Some v \<Longrightarrow> conv k v = Inr (g k v)" "distinct (map fst d)"
  shows "decode_items conv d = Inr (map (\<lambda>(k, v). (k, g k v)) d)"
  unfolding decode_items_def using assms by (intro map_res_total) (auto simp: map_of_eq_Some_iff)

lemma int_field_py_str [simp]: "int_field (py_str n) = Inr (FInt n)"
  by (simp add: int_field_def)

lemma isoformat_nonempty [simp]: "isoformat d \<noteq> []"
  by (simp add: isoformat_def)

lemma time_field_str: "storable_time t \<Longrightarrow> time_field (field_str (FTime t)) = Inr (FTime t)"
  by (cases t) (auto simp: time_field_def storable_time_def fromisoformat_isoformat)

text \<open>
  The contract of a stored record: any dictionary that holds the fields of an encoded record, in any
  order and beside any other fields, decodes to that record.
\<close>

locale hash_codec =
  fixes encode :: "'a \<Rightarrow> str_dict" and decode :: "str_dict \<Rightarrow> 'a res" and storable :: "'a \<Rightarrow> bool"
  assumes decode_encode:
    "storable x \<Longrightarrow> distinct (map fst d) \<Longrightarrow> map_of (encode x) \<subseteq>\<^sub>m map_of d \<Longrightarrow> decode d = Inr x"
    and encode_distinct: "distinct (map fst (encode x))"
begin

lemma round_trip: "storable x \<Longrightarrow> decode (encode x) = Inr x"
  by (rule decode_encode [OF _ encode_distinct map_le_refl])

lemma encode_inj: "storable x \<Longrightarrow> storable y \<Longrightarrow> encode x = encode y \<Longrightarrow> x = y"
proof -
  assume "storable x" "storable y" and eq: "encode x = encode y"
  then have "decode (encode x) = Inr x" "decode (encode y) = Inr y"
    using round_trip by blast+
  then show "x = y" unfolding eq by simp
qed

text \<open>Writing the fields of an encoded record over any stored hash makes the hash decode to it.\<close>

lemma overwrite: "storable x \<Longrightarrow> distinct (map fst d) \<Longrightarrow> decode (AList.updates (map fst (encode x)) (map snd (encode x)) d) = Inr x"
proof (rule decode_encode)
  assume "distinct (map fst d)"
  then show "distinct (map fst (AList.updates (map fst (encode x)) (map snd (encode x)) d))"
    by (rule AList.distinct_updates)
  have "map_of (AList.updates (map fst (encode x)) (map snd (encode x)) d) k = Some v"
    if "map_of (encode x) k = Some v" for k v
  proof -
    have "(map_of d)(map fst (encode x) [\<mapsto>] map snd (encode x)) = map_of d ++ map_of (encode x)"
      by (simp add: map_upds_def zip_map_fst_snd map_of_rev_distinct encode_distinct)
    with that show ?thesis
      by (simp add: AList.updates_conv' map_add_def)
  qed
  then show "map_of (encode x) \<subseteq>\<^sub>m map_of (AList.updates (map fst (encode x)) (map snd (encode x)) d)"
    by (auto simp: map_le_def dom_def)
qed

end

section \<open>The tasks\<close>

text \<open>\<^verbatim>\<open>QueueRequestHandlerTask\<close>: a request waiting to be stored.\<close>

record handler_task =
  ht_user_id :: int
  ht_beatmapset_id :: int
  ht_queue_id :: int
  ht_comment :: string
  ht_mv_checked :: bool
  ht_http_request_id :: string
  ht_completed_at :: "datetime option"
  ht_failed_at :: "datetime option"

definition handler_hashed_id :: "handler_task \<Rightarrow> int" where
  "handler_hashed_id t = positive_hash [py_hash_int (ht_queue_id t), py_hash_int (ht_beatmapset_id t)]"

definition handler_fields :: "handler_task \<Rightarrow> (string \<times> field) list" where
  "handler_fields t =
     [(''user_id'', FInt (ht_user_id t)), (''beatmapset_id'', FInt (ht_beatmapset_id t)),
      (''queue_id'', FInt (ht_queue_id t)), (''comment'', FStr (ht_comment t)),
      (''mv_checked'', FBool (ht_mv_checked t)), (''http_request_id'', FStr (ht_http_request_id t)),
      (''completed_at'', FTime (ht_completed_at t)), (''failed_at'', FTime (ht_failed_at t))]"

definition handler_serialize :: "handler_task \<Rightarrow> str_dict" where
  "handler_serialize t = map (\<lambda>(k, v). (k, field_str v)) (handler_fields t)"

text \<open>
  The flag goes through \<^verbatim>\<open>literal_eval\<close> and pydantic's reading of a Boolean, the parameter \<open>lit\<close>.
\<close>

definition handler_convert :: "(string \<Rightarrow> bool res) \<Rightarrow> string \<Rightarrow> string \<Rightarrow> field res" where
  "handler_convert lit k v =
     (if k \<in> {''user_id'', ''beatmapset_id'', ''queue_id''} then int_field v
      else if k = ''mv_checked'' then bindR (lit v) (\<lambda>b. Inr (FBool b))
      else if k \<in> {''completed_at'', ''failed_at''} then time_field v
      else Inr (FStr v))"

definition handler_deserialize :: "(string \<Rightarrow> bool res) \<Rightarrow> str_dict \<Rightarrow> handler_task res" where
  "handler_deserialize lit s =
     bindR (decode_items (handler_convert lit) s) (\<lambda>d.
     bindR (need_int d ''user_id'') (\<lambda>u. bindR (need_int d ''beatmapset_id'') (\<lambda>b.
     bindR (need_int d ''queue_id'') (\<lambda>q. bindR (need_str d ''comment'') (\<lambda>c.
     bindR (need_bool d ''mv_checked'') (\<lambda>m. bindR (str_or_empty d ''http_request_id'') (\<lambda>h.
     bindR (time_or_none d ''completed_at'') (\<lambda>ca. bindR (time_or_none d ''failed_at'') (\<lambda>fa.
     Inr \<lparr>ht_user_id = u, ht_beatmapset_id = b, ht_queue_id = q, ht_comment = c, ht_mv_checked = m,
          ht_http_request_id = h, ht_completed_at = ca, ht_failed_at = fa\<rparr>)))))))))"

definition handler_storable :: "handler_task \<Rightarrow> bool" where
  "handler_storable t \<longleftrightarrow> storable_time (ht_completed_at t) \<and> storable_time (ht_failed_at t)"

text \<open>\<^verbatim>\<open>QueueRequestValidationTask\<close>: a request waiting for its Tier 3 rules.\<close>

record validation_task =
  vt_request_id :: int
  vt_queue_id :: int
  vt_beatmapset_id :: int
  vt_http_request_id :: string
  vt_rules_snapshot :: string
  vt_completed_at :: "datetime option"
  vt_failed_at :: "datetime option"

definition validation_hashed_id :: "(string \<Rightarrow> int) \<Rightarrow> validation_task \<Rightarrow> int" where
  "validation_hashed_id str_hash t = positive_hash [str_hash ''validation'', py_hash_int (vt_request_id t)]"

definition validation_fields :: "validation_task \<Rightarrow> (string \<times> field) list" where
  "validation_fields t =
     [(''request_id'', FInt (vt_request_id t)), (''queue_id'', FInt (vt_queue_id t)),
      (''beatmapset_id'', FInt (vt_beatmapset_id t)), (''http_request_id'', FStr (vt_http_request_id t)),
      (''rules_snapshot'', FStr (vt_rules_snapshot t)),
      (''completed_at'', FTime (vt_completed_at t)), (''failed_at'', FTime (vt_failed_at t))]"

definition validation_serialize :: "validation_task \<Rightarrow> str_dict" where
  "validation_serialize t = map (\<lambda>(k, v). (k, field_str v)) (validation_fields t)"

definition validation_convert :: "string \<Rightarrow> string \<Rightarrow> field res" where
  "validation_convert k v =
     (if k \<in> {''request_id'', ''queue_id'', ''beatmapset_id''} then int_field v
      else if k \<in> {''completed_at'', ''failed_at''} then time_field v
      else Inr (FStr v))"

definition validation_deserialize :: "str_dict \<Rightarrow> validation_task res" where
  "validation_deserialize s =
     bindR (decode_items validation_convert s) (\<lambda>d.
     bindR (need_int d ''request_id'') (\<lambda>r. bindR (need_int d ''queue_id'') (\<lambda>q.
     bindR (need_int d ''beatmapset_id'') (\<lambda>b. bindR (str_or_empty d ''http_request_id'') (\<lambda>h.
     bindR (str_or_empty d ''rules_snapshot'') (\<lambda>sn.
     bindR (time_or_none d ''completed_at'') (\<lambda>ca. bindR (time_or_none d ''failed_at'') (\<lambda>fa.
     Inr \<lparr>vt_request_id = r, vt_queue_id = q, vt_beatmapset_id = b, vt_http_request_id = h,
          vt_rules_snapshot = sn, vt_completed_at = ca, vt_failed_at = fa\<rparr>))))))))"

definition validation_storable :: "validation_task \<Rightarrow> bool" where
  "validation_storable t \<longleftrightarrow> storable_time (vt_completed_at t) \<and> storable_time (vt_failed_at t)"

text \<open>\<^verbatim>\<open>OsuClientOAuthToken\<close>.\<close>

record oauth_token =
  access_token :: string
  token_type :: string
  expires_in :: int
  expires_at :: int

definition token_fields :: "oauth_token \<Rightarrow> (string \<times> field) list" where
  "token_fields t =
     [(''access_token'', FStr (access_token t)), (''token_type'', FStr (token_type t)),
      (''expires_in'', FInt (expires_in t)), (''expires_at'', FInt (expires_at t))]"

definition token_serialize :: "oauth_token \<Rightarrow> str_dict" where
  "token_serialize t = map (\<lambda>(k, v). (k, field_str v)) (token_fields t)"

definition token_convert :: "string \<Rightarrow> string \<Rightarrow> field res" where
  "token_convert k v = (if k \<in> {''expires_in'', ''expires_at''} then int_field v else Inr (FStr v))"

definition token_deserialize :: "str_dict \<Rightarrow> oauth_token res" where
  "token_deserialize s =
     bindR (decode_items token_convert s) (\<lambda>d.
     bindR (need_str d ''access_token'') (\<lambda>a. bindR (need_str d ''token_type'') (\<lambda>t.
     bindR (need_int d ''expires_in'') (\<lambda>i. bindR (need_int d ''expires_at'') (\<lambda>x.
     Inr \<lparr>access_token = a, token_type = t, expires_in = i, expires_at = x\<rparr>)))))"

section \<open>The codecs meet the contract\<close>

text \<open>
  If the conversion gives every field of a record back and passes other keys through, the converted
  dictionary holds the record's fields.
\<close>

definition unknown_pass :: "(string \<Rightarrow> string \<Rightarrow> field res) \<Rightarrow> (string \<times> field) list \<Rightarrow> bool" where
  "unknown_pass conv fs \<longleftrightarrow> (\<forall>k v. k \<notin> fst ` set fs \<longrightarrow> conv k v = Inr (FStr v))"

lemma decode_fields:
  assumes "distinct (map fst d)" "map_of (map (\<lambda>(k, v). (k, field_str v)) fs) \<subseteq>\<^sub>m map_of d"
    and "\<forall>(k, v) \<in> set fs. conv k (field_str v) = Inr v" "unknown_pass conv fs" "distinct (map fst fs)"
  shows "\<exists>d'. decode_items conv d = Inr d' \<and> (\<forall>(k, v) \<in> set fs. map_of d' k = Some v)"
proof -
  let ?g = "\<lambda>k v. case map_of fs k of Some w \<Rightarrow> w | None \<Rightarrow> FStr v"
  have stored: "map_of d k = Some (field_str w)" if "map_of fs k = Some w" for k w
  proof -
    have "map_of (map (\<lambda>(k, v). (k, field_str v)) fs) k = Some (field_str w)"
      using that by (simp add: map_of_map_values)
    then show ?thesis by (rule map_le_lookup [OF assms(2)])
  qed
  have conv: "conv k v = Inr (?g k v)" if "map_of d k = Some v" for k v
  proof (cases "map_of fs k")
    case None
    then have "k \<notin> fst ` set fs" by (simp only: map_of_eq_None_iff) simp
    with None show ?thesis using assms(4) by (simp add: unknown_pass_def)
  next
    case (Some w)
    then show ?thesis using assms(3) stored [OF Some] that map_of_SomeD [OF Some] by auto
  qed
  have "map_of (map (\<lambda>(k, v). (k, ?g k v)) d) k = Some w" if "(k, w) \<in> set fs" for k w
    using stored [of k w] that assms(5) by (simp add: map_of_map_values)
  with decode_items_total [of d conv ?g, OF conv assms(1)] show ?thesis by auto
qed

lemmas need_defs = need_int_def need_str_def need_bool_def str_or_empty_def time_or_none_def

interpretation validation_codec: hash_codec validation_serialize validation_deserialize validation_storable
proof
  fix x d
  assume st: "validation_storable x" and d: "distinct (map fst d)" and le: "map_of (validation_serialize x) \<subseteq>\<^sub>m map_of d"
  have conv: "\<forall>(k, v) \<in> set (validation_fields x). validation_convert k (field_str v) = Inr v"
    using st time_field_str by (auto simp: validation_fields_def validation_convert_def validation_storable_def)
  have pass: "unknown_pass validation_convert (validation_fields x)"
    by (auto simp: unknown_pass_def validation_fields_def validation_convert_def)
  have dist: "distinct (map fst (validation_fields x))"
    by (simp add: validation_fields_def)
  obtain d' where d': "decode_items validation_convert d = Inr d'" "\<forall>(k, v) \<in> set (validation_fields x). map_of d' k = Some v"
    using decode_fields [OF d le [unfolded validation_serialize_def] conv pass dist] by blast
  then show "validation_deserialize d = Inr x"
    by (simp add: validation_deserialize_def validation_fields_def need_defs)
next
  show "distinct (map fst (validation_serialize x))" for x
    by (simp add: validation_serialize_def validation_fields_def)
qed

interpretation token_codec: hash_codec token_serialize token_deserialize "\<lambda>_. True"
proof
  fix x d
  assume d: "distinct (map fst d)" and le: "map_of (token_serialize x) \<subseteq>\<^sub>m map_of d"
  have conv: "\<forall>(k, v) \<in> set (token_fields x). token_convert k (field_str v) = Inr v"
    by (auto simp: token_fields_def token_convert_def)
  have pass: "unknown_pass token_convert (token_fields x)"
    by (auto simp: unknown_pass_def token_fields_def token_convert_def)
  have dist: "distinct (map fst (token_fields x))"
    by (simp add: token_fields_def)
  obtain d' where "decode_items token_convert d = Inr d'" "\<forall>(k, v) \<in> set (token_fields x). map_of d' k = Some v"
    using decode_fields [OF d le [unfolded token_serialize_def] conv pass dist] by blast
  then show "token_deserialize d = Inr x"
    by (simp add: token_deserialize_def token_fields_def need_defs)
next
  show "distinct (map fst (token_serialize x))" for x
    by (simp add: token_serialize_def token_fields_def)
qed

text \<open>The handler task, for every reading of Booleans that knows what \<^verbatim>\<open>str\<close> writes.\<close>

locale bool_reader =
  fixes lit :: "string \<Rightarrow> bool res"
  assumes lit_True: "lit ''True'' = Inr True" and lit_False: "lit ''False'' = Inr False"
begin

lemma handler_decodes:
  assumes st: "handler_storable x" and d: "distinct (map fst d)" and le: "map_of (handler_serialize x) \<subseteq>\<^sub>m map_of d"
  shows "handler_deserialize lit d = Inr x"
proof -
  have conv: "\<forall>(k, v) \<in> set (handler_fields x). handler_convert lit k (field_str v) = Inr v"
    using st time_field_str lit_True lit_False by (auto simp: handler_fields_def handler_convert_def handler_storable_def)
  have pass: "unknown_pass (handler_convert lit) (handler_fields x)"
    by (auto simp: unknown_pass_def handler_fields_def handler_convert_def)
  have dist: "distinct (map fst (handler_fields x))"
    by (simp add: handler_fields_def)
  obtain d' where "decode_items (handler_convert lit) d = Inr d'" "\<forall>(k, v) \<in> set (handler_fields x). map_of d' k = Some v"
    using decode_fields [OF d le [unfolded handler_serialize_def] conv pass dist] by blast
  then show ?thesis
    by (simp add: handler_deserialize_def handler_fields_def need_defs)
qed

end

sublocale bool_reader \<subseteq> handler_codec: hash_codec handler_serialize "handler_deserialize lit" handler_storable
  by unfold_locales (auto simp: handler_decodes handler_serialize_def handler_fields_def)

context bool_reader begin

lemmas handler_round_trip = handler_codec.round_trip

end

text \<open>\<^verbatim>\<open>ast.literal_eval\<close> on the Boolean literals alone.\<close>

definition bool_literal :: "string \<Rightarrow> bool res" where
  "bool_literal s =
     (if s = ''True'' then Inr True else if s = ''False'' then Inr False else Inl (PyExc ''ValueError''))"

interpretation literals: bool_reader bool_literal
  by unfold_locales (simp_all add: bool_literal_def)

text \<open>The times the daemons write into a stored task are updates of its hash.\<close>

lemma handler_serialize_failed:
  "handler_serialize (t\<lparr>ht_failed_at := Some d\<rparr>) = AList.update ''failed_at'' (isoformat d) (handler_serialize t)"
  by (simp add: handler_serialize_def handler_fields_def)

lemma handler_serialize_completed:
  "handler_serialize (t\<lparr>ht_completed_at := Some d\<rparr>) = AList.update ''completed_at'' (isoformat d) (handler_serialize t)"
  by (simp add: handler_serialize_def handler_fields_def)

lemma validation_serialize_failed:
  "validation_serialize (t\<lparr>vt_failed_at := Some d\<rparr>) = AList.update ''failed_at'' (isoformat d) (validation_serialize t)"
  by (simp add: validation_serialize_def validation_fields_def)

lemma validation_serialize_completed:
  "validation_serialize (t\<lparr>vt_completed_at := Some d\<rparr>) = AList.update ''completed_at'' (isoformat d) (validation_serialize t)"
  by (simp add: validation_serialize_def validation_fields_def)

text \<open>A validation task never decodes as a handler task: the \<^verbatim>\<open>user_id\<close> of the latter is missing.\<close>

lemma validation_not_handler: "\<exists>e. handler_deserialize lit (validation_serialize t) = Inl e"
proof -
  have "need_int d ''user_id'' = Inl (PyExc ''ValidationError'')"
    if "decode_items (handler_convert lit) (validation_serialize t) = Inr d" for d
  proof -
    have "map fst d = map fst (validation_serialize t)"
      using decode_items_keys [OF that] .
    then have "map_of d ''user_id'' = None"
      using arg_cong [of _ _ set] by (fastforce simp: map_of_eq_None_iff validation_serialize_def validation_fields_def)
    then show ?thesis by (simp add: need_int_def)
  qed
  then show ?thesis
    by (cases "decode_items (handler_convert lit) (validation_serialize t)") (auto simp: handler_deserialize_def)
qed

end
