(* ===== verification/Redis_Hash.thy ===== *)
theory Redis_Hash
  imports Task_Codec
begin

text \<open>
  The documented effect of the Redis commands on hashes and of \<^verbatim>\<open>PUBLISH\<close>, with the memory store as
  an instance. A command may raise (a lost connection); even then it touches no other key.
\<close>

definition same_all :: "'r redis_ops \<Rightarrow> 'r \<Rightarrow> 'r \<Rightarrow> bool" where
  "same_all R s s' \<longleftrightarrow>
     rget R s' = rget R s \<and> rttl R s' = rttl R s \<and> rhgetall R s' = rhgetall R s \<and> rexists R s' = rexists R s"

text \<open>\<^verbatim>\<open>HSET key mapping\<close>: a key that holds a string is refused.\<close>

definition hset_law :: "'r redis_ops \<Rightarrow> bool" where
  "hset_law R \<longleftrightarrow>
     (\<forall>s k new r s'. rhset R k new s = (r, s') \<longrightarrow>
        same_but R k s s' \<and>
        (r = Inr () \<longrightarrow> new \<noteq> [] \<longrightarrow>
           rget R s k = None \<and> rget R s' k = None \<and> rexists R s' k \<and>
           map_of (rhgetall R s' k) = map_of (rhgetall R s k) ++ map_of new))"

definition publish_law :: "'r redis_ops \<Rightarrow> bool" where
  "publish_law R \<longleftrightarrow> (\<forall>ch m s r s'. rpublish R ch m s = (r, s') \<longrightarrow> same_all R s s')"

definition redis_hash_laws :: "'r redis_ops \<Rightarrow> bool" where
  "redis_hash_laws R \<longleftrightarrow>
     hset_law R \<and> publish_law R \<and> (\<forall>s k. \<not> rexists R s k \<longrightarrow> rhgetall R s k = []) \<and>
     (\<forall>s k. distinct (map fst (rhgetall R s k)))"

lemma map_of_filter_out:
  "map_of (filter (\<lambda>(k, _). k \<notin> K) old) x = (if x \<in> K then None else map_of old x)"
  by (induction old) auto

lemma hash_update_map: "map_of (hash_update new old) = map_of old ++ map_of new"
proof
  fix x
  show "map_of (hash_update new old) x = (map_of old ++ map_of new) x"
    using map_of_eq_None_iff [of new x]
    by (cases "map_of new x") (simp_all add: hash_update_def map_add_def map_of_filter_out)
qed

lemma mem_hset: "hset_law mem_redis"
  unfolding hset_law_def
proof (intro allI impI)
  fix s :: mem_store and k new r s'
  assume h: "rhset mem_redis k new s = (r, s')"
  show "same_but mem_redis k s s' \<and>
      (r = Inr () \<longrightarrow> new \<noteq> [] \<longrightarrow> rget mem_redis s k = None \<and> rget mem_redis s' k = None \<and> rexists mem_redis s' k \<and>
        map_of (rhgetall mem_redis s' k) = map_of (rhgetall mem_redis s k) ++ map_of new)"
  proof (cases "mem_get s k")
    case None
    then have s': "s' = mem_put k (Hash (hash_update new (mem_hgetall s k))) (mem_ttl s k) s"
      using h by (simp add: mem_redis_def)
    have "map_of (mem_hgetall s' k) = map_of (mem_hgetall s k) ++ map_of new"
      by (simp add: s' mem_hgetall_def [of "mem_put k e t x" for e t x] map_of_mem_put hash_update_map map_of_clearjunk)
    then show ?thesis
      using None by (simp add: s' same_but_def mem_redis_def mem_get_def mem_ttl_def mem_hgetall_def map_of_mem_put)
  next
    case (Some v)
    then show ?thesis using h by (auto simp: mem_redis_def same_but_def)
  qed
qed

lemma mem_hash_laws: "redis_hash_laws mem_redis"
proof -
  have "publish_law mem_redis"
    by (simp add: publish_law_def same_all_def mem_redis_def)
  moreover have "\<forall>s k. \<not> rexists mem_redis s k \<longrightarrow> rhgetall mem_redis s k = []"
    by (auto simp: mem_redis_def mem_hgetall_def split: option.splits)
  moreover have "\<forall>s k. distinct (map fst (rhgetall mem_redis s k))"
    by (auto simp: mem_redis_def mem_hgetall_def distinct_clearjunk split: option.splits entry.splits)
  ultimately show ?thesis by (simp add: redis_hash_laws_def mem_hset)
qed

end
