(* ===== verification/Phase2.thy ===== *)
theory Phase2
  imports Rule_Phase1
begin

text \<open>
  The asynchronous runner (\<^verbatim>\<open>src/app/database/rules/engine/phase2_runner.py\<close>). Its tasks run
  concurrently under \<^verbatim>\<open>asyncio.gather\<close> and share one context, in particular the remembered
  violation that a task resets when it starts and reads when it ends. A step relation interleaves
  the tasks and lets any of them time out; the theorems say which verdicts do not depend on the
  schedule.
\<close>

section \<open>Outcomes\<close>

datatype tier3_outcome = PASS | VIOLATION | RETRYABLE

definition TIER3_TIMEOUT :: int where
  "TIER3_TIMEOUT = 30"

text \<open>
  What \<^verbatim>\<open>_validate_one\<close> makes of the result of the evaluation and the remembered violation. An
  evaluation that is false without a violation swallowed an unexpected error.
\<close>

definition outcome_of :: "bool res \<Rightarrow> (string \<times> vmsg) option \<Rightarrow> tier3_outcome" where
  "outcome_of r lv =
     (case r of
        Inr True \<Rightarrow> PASS
      | Inr False \<Rightarrow> if lv \<noteq> None then VIOLATION else RETRYABLE
      | Inl (RuleViolationError _ _) \<Rightarrow> VIOLATION
      | Inl (Forbidden _) \<Rightarrow> VIOLATION
      | Inl _ \<Rightarrow> RETRYABLE)"

text \<open>The evaluation of one rule, on a context whose remembered violation is reset.\<close>

definition run_rule :: "'r registry \<Rightarrow> 'r world \<Rightarrow> queue_rule \<Rightarrow> bool step" where
  "run_rule G W rule c =
     (let c0 = c\<lparr>last_violation := None\<rparr> in
      case build_node rule of Inl e \<Rightarrow> (Inl e, c0) | Inr node \<Rightarrow> evaluate G W node 0 c0)"

text \<open>\<^verbatim>\<open>_validate_one\<close> of a task that runs alone and in time.\<close>

definition validate_one :: "'r registry \<Rightarrow> 'r world \<Rightarrow> queue_rule \<Rightarrow> exec_context \<Rightarrow> (string \<times> tier3_outcome) \<times> exec_context" where
  "validate_one G W rule c =
     (case run_rule G W rule c of (r, c') \<Rightarrow> ((rule_type rule, outcome_of r (last_violation c')), c'))"

text \<open>The rules that become tasks.\<close>

fun select_tier3 :: "'r registry \<Rightarrow> queue_rule list \<Rightarrow> queue_rule list res" where
  "select_tier3 G [] = Inr []"
| "select_tier3 G (rule # rules) =
     (if \<not> is_active rule \<or> \<not> check_version G rule then select_tier3 G rules
      else bindR (get_tier G rule) (\<lambda>tier.
        bindR (select_tier3 G rules) (\<lambda>rest. Inr (if tier \<noteq> 3 then rest else rule # rest))))"

text \<open>The verdict on the gathered outcomes: rejections take precedence over retryable errors.\<close>

definition combine_outcomes :: "(string \<times> tier3_outcome) list \<Rightarrow> string list res" where
  "combine_outcomes outcomes =
     (let rejected = map fst (filter (\<lambda>p. snd p = VIOLATION) outcomes);
          retryable = map fst (filter (\<lambda>p. snd p = RETRYABLE) outcomes)
      in if rejected \<noteq> [] then Inr rejected
         else if retryable \<noteq> [] then Inl (RetryableValidationError retryable)
         else Inr [])"

section \<open>Interleaved tasks\<close>

datatype task_status = Waiting | Running | Done tier3_outcome

record p2_state =
  shared_violation :: "(string \<times> vmsg) option"
  status :: "nat \<Rightarrow> task_status"

text \<open>
  A verdict is the result of a task's own evaluation and the violation it remembered last. Between
  writing that violation and reading it back a task does not give up control.
\<close>

type_synonym verdict = "bool res \<times> (string \<times> vmsg) option"

definition own_outcome :: "verdict \<Rightarrow> tier3_outcome" where
  "own_outcome v = outcome_of (fst v) (snd v)"

inductive p2_step :: "verdict list \<Rightarrow> p2_state \<Rightarrow> p2_state \<Rightarrow> bool" for vs where
  start: "i < length vs \<Longrightarrow> status st i = Waiting \<Longrightarrow>
     p2_step vs st (st\<lparr>shared_violation := None, status := (status st)(i := Running)\<rparr>)"
| finish: "i < length vs \<Longrightarrow> status st i = Running \<Longrightarrow>
     lv = (case snd (vs ! i) of Some v \<Rightarrow> Some v | None \<Rightarrow> shared_violation st) \<Longrightarrow>
     p2_step vs st (st\<lparr>shared_violation := lv, status := (status st)(i := Done (outcome_of (fst (vs ! i)) lv))\<rparr>)"
| timeout: "i < length vs \<Longrightarrow> status st i = Running \<Longrightarrow>
     p2_step vs st (st\<lparr>status := (status st)(i := Done RETRYABLE)\<rparr>)"

inductive_cases p2_stepE: "p2_step vs st st'"

definition p2_reachable :: "verdict list \<Rightarrow> p2_state \<Rightarrow> bool" where
  "p2_reachable vs st \<longleftrightarrow> (p2_step vs)\<^sup>*\<^sup>* \<lparr>shared_violation = None, status = (\<lambda>_. Waiting)\<rparr> st"

definition all_done :: "verdict list \<Rightarrow> p2_state \<Rightarrow> bool" where
  "all_done vs st \<longleftrightarrow> (\<forall>i < length vs. \<exists>out. status st i = Done out)"

definition outcome_at :: "p2_state \<Rightarrow> nat \<Rightarrow> tier3_outcome" where
  "outcome_at st i = (case status st i of Done out \<Rightarrow> out | _ \<Rightarrow> RETRYABLE)"

text \<open>What \<^verbatim>\<open>gather\<close> returns, in the order of the tasks.\<close>

definition gathered :: "string list \<Rightarrow> p2_state \<Rightarrow> (string \<times> tier3_outcome) list" where
  "gathered tys st = map (\<lambda>i. (tys ! i, outcome_at st i)) [0..<length tys]"

section \<open>Schedule independence\<close>

text \<open>
  A task that leaves a violation behind is itself rejected: so it is for every rule that is not a
  composite.
\<close>

definition clean_verdict :: "verdict \<Rightarrow> bool" where
  "clean_verdict v \<longleftrightarrow> (snd v \<noteq> None \<longrightarrow> own_outcome v = VIOLATION)"

definition some_violation :: "verdict list \<Rightarrow> bool" where
  "some_violation vs \<longleftrightarrow> (\<exists>v \<in> set vs. own_outcome v = VIOLATION)"

definition p2_inv :: "verdict list \<Rightarrow> p2_state \<Rightarrow> bool" where
  "p2_inv vs st \<longleftrightarrow>
     (\<forall>i. status st i = Done PASS \<longrightarrow> own_outcome (vs ! i) = PASS) \<and>
     (\<forall>i. status st i = Done VIOLATION \<longrightarrow> some_violation vs) \<and>
     (shared_violation st \<noteq> None \<longrightarrow> some_violation vs)"

lemma outcome_of_PASS: "outcome_of r lv = PASS \<longleftrightarrow> r = Inr True"
  by (auto simp: outcome_of_def split: sum.splits bool.splits exn.splits)

lemma outcome_of_VIOLATION:
  "outcome_of r lv = VIOLATION \<Longrightarrow> outcome_of r None = VIOLATION \<or> lv \<noteq> None"
  by (auto simp: outcome_of_def split: sum.splits bool.splits exn.splits if_splits)

lemma outcome_of_Some: "outcome_of r None = VIOLATION \<Longrightarrow> outcome_of r lv = VIOLATION"
  by (auto simp: outcome_of_def split: sum.splits bool.splits exn.splits if_splits)

lemma own_VIOLATION: "outcome_of (fst v) None = VIOLATION \<Longrightarrow> own_outcome v = VIOLATION"
  by (simp add: own_outcome_def outcome_of_Some)

lemma p2_step_inv:
  assumes clean: "\<forall>v \<in> set vs. clean_verdict v" and step: "p2_step vs st st'" and inv: "p2_inv vs st"
  shows "p2_inv vs st'"
  using step
proof (cases rule: p2_step.cases)
  case (start i)
  then show ?thesis using inv by (auto simp: p2_inv_def)
next
  case (finish i lv)
  have mem: "vs ! i \<in> set vs" using finish by simp
  have lv: "some_violation vs" if "lv \<noteq> None"
    using that finish(4) inv clean mem
    by (auto simp: p2_inv_def clean_verdict_def some_violation_def split: option.splits)
  have "own_outcome (vs ! i) = PASS" if "outcome_of (fst (vs ! i)) lv = PASS"
    using that by (simp add: outcome_of_PASS own_outcome_def)
  moreover have "some_violation vs" if "outcome_of (fst (vs ! i)) lv = VIOLATION"
    using outcome_of_VIOLATION [OF that] lv own_VIOLATION [of "vs ! i"] mem by (auto simp: some_violation_def)
  ultimately show ?thesis using finish inv lv by (auto simp: p2_inv_def)
next
  case (timeout i)
  then show ?thesis using inv by (auto simp: p2_inv_def)
qed

lemma p2_reachable_inv:
  assumes "\<forall>v \<in> set vs. clean_verdict v" "p2_reachable vs st"
  shows "p2_inv vs st"
  using assms(2) unfolding p2_reachable_def
proof (induction rule: rtranclp_induct)
  case base
  then show ?case by (simp add: p2_inv_def)
next
  case (step y z)
  then show ?case using p2_step_inv [OF assms(1)] by blast
qed

text \<open>Once done, a task stays done; a task that finished in time with its own violation is rejected.\<close>

definition finished_in_time :: "verdict list \<Rightarrow> p2_state \<Rightarrow> bool" where
  "finished_in_time vs st \<longleftrightarrow>
     (\<forall>i < length vs. own_outcome (vs ! i) \<noteq> RETRYABLE \<longrightarrow> status st i \<noteq> Done RETRYABLE)"

lemma p2_done_violation:
  assumes "p2_reachable vs st" "i < length vs" "own_outcome (vs ! i) = VIOLATION" "status st i = Done out"
  shows "out = VIOLATION \<or> out = RETRYABLE"
proof -
  have "status st i = Done PASS \<longrightarrow> fst (vs ! i) = Inr True"
    using assms(1) unfolding p2_reachable_def
  proof (induction rule: rtranclp_induct)
    case (step y z)
    from step(2) show ?case
      by (cases rule: p2_step.cases) (use step.IH in \<open>auto simp: outcome_of_PASS\<close>)
  qed simp
  with assms(3,4) show ?thesis
    by (cases out) (auto simp: own_outcome_def outcome_of_def)
qed

lemma gathered_set: "length tys = length vs \<Longrightarrow> (ty, out) \<in> set (gathered tys st) \<longleftrightarrow> (\<exists>i < length vs. ty = tys ! i \<and> out = outcome_at st i)"
  by (auto simp: gathered_def)

lemma combine_accepts:
  "combine_outcomes outs = Inr [] \<longleftrightarrow> (\<forall>p \<in> set outs. snd p = PASS)"
proof -
  have "combine_outcomes outs = Inr [] \<longleftrightarrow> (\<forall>p \<in> set outs. snd p \<noteq> VIOLATION \<and> snd p \<noteq> RETRYABLE)"
    by (auto simp: combine_outcomes_def Let_def filter_empty_conv)
  moreover have "snd p \<noteq> VIOLATION \<and> snd p \<noteq> RETRYABLE \<longleftrightarrow> snd p = PASS" for p :: "string \<times> tier3_outcome"
    by (cases "snd p") auto
  ultimately show ?thesis by simp
qed

lemma combine_rejects:
  assumes "(ty, VIOLATION) \<in> set outs"
  obtains rs where "combine_outcomes outs = Inr rs" "ty \<in> set rs"
proof -
  let ?rs = "map fst (filter (\<lambda>p. snd p = VIOLATION) outs)"
  have mem: "ty \<in> set ?rs" using assms by force
  then have "?rs \<noteq> []" by (metis empty_iff list.set(1))
  then have "combine_outcomes outs = Inr ?rs" unfolding combine_outcomes_def Let_def by simp
  with that mem show ?thesis by blast
qed

lemma combine_retries:
  assumes "\<forall>p \<in> set outs. snd p \<noteq> VIOLATION" "(ty, RETRYABLE) \<in> set outs"
  shows "\<exists>tys. combine_outcomes outs = Inl (RetryableValidationError tys) \<and> ty \<in> set tys"
proof -
  let ?ts = "map fst (filter (\<lambda>p. snd p = RETRYABLE) outs)"
  have mem: "ty \<in> set ?ts" using assms(2) by force
  then have "?ts \<noteq> []" by (metis empty_iff list.set(1))
  moreover have "filter (\<lambda>p. snd p = VIOLATION) outs = []"
    using assms(1) by (simp add: filter_empty_conv)
  ultimately have "combine_outcomes outs = Inl (RetryableValidationError ?ts)"
    unfolding combine_outcomes_def Let_def by simp
  with mem show ?thesis by blast
qed

section \<open>Verdicts of rules that are not composites\<close>

text \<open>The verdict of a rule on the context the runner is called with.\<close>

definition verdict_of :: "'r registry \<Rightarrow> 'r world \<Rightarrow> exec_context \<Rightarrow> queue_rule \<Rightarrow> verdict" where
  "verdict_of G W c rule = (case run_rule G W rule c of (r, c') \<Rightarrow> (r, last_violation c'))"

lemma atomic_verdict_clean:
  assumes safe: "core_safe G W" and ty: "rule_type rule \<noteq> ''composite''"
  shows "clean_verdict (verdict_of G W c rule)"
proof -
  let ?c = "c\<lparr>last_violation := None\<rparr>"
  have bn: "build_node rule = Inr (AtomicRuleNode (JStr (rule_type rule)) (config_or_empty (rule_config rule)))"
    unfolding build_node_def by (subst build_rule_node.simps) (simp add: node_type_def node_config_def ty)
  let ?ev = "evaluate_atomic G W (JStr (rule_type rule)) (config_or_empty (rule_config rule)) ?c"
  obtain cache lv where f: "snd ?ev = ?c\<lparr>provider_cache := cache, last_violation := lv\<rparr>"
    "lv = last_violation ?c \<or> fst ?ev = Inr False"
    by (rule evaluate_atomic_frame [OF safe])
  then have "last_violation (snd ?ev) \<noteq> None \<longrightarrow> fst ?ev = Inr False"
    by auto
  then show ?thesis
    by (auto simp: verdict_of_def run_rule_def bn clean_verdict_def own_outcome_def outcome_of_def Let_def
        split: prod.splits)
qed

lemma validate_one_own:
  "fst (validate_one G W rule c) = (rule_type rule, own_outcome (verdict_of G W c rule))"
  by (simp add: validate_one_def verdict_of_def own_outcome_def split: prod.splits)

section \<open>The verdict of the runner does not depend on the schedule\<close>

lemma runner_accepts_only_passes:
  assumes "\<forall>v \<in> set vs. clean_verdict v" "p2_reachable vs st" "all_done vs st" "length tys = length vs"
    and "combine_outcomes (gathered tys st) = Inr []"
  shows "\<forall>v \<in> set vs. own_outcome v = PASS"
proof
  fix v assume "v \<in> set vs"
  then obtain i where i: "i < length vs" "v = vs ! i" by (auto simp: in_set_conv_nth)
  have "(tys ! i, outcome_at st i) \<in> set (gathered tys st)"
    using i(1) assms(4) by (auto simp: gathered_def)
  then have "outcome_at st i = PASS"
    using assms(5) unfolding combine_accepts by fastforce
  then have "status st i = Done PASS"
    using assms(3) i(1) by (auto simp: outcome_at_def all_done_def split: task_status.splits)
  then show "own_outcome v = PASS"
    using p2_reachable_inv [OF assms(1,2)] i(2) by (auto simp: p2_inv_def)
qed

lemma runner_rejects_only_violations:
  assumes "\<forall>v \<in> set vs. clean_verdict v" "p2_reachable vs st" "all_done vs st" "length tys = length vs"
    and "combine_outcomes (gathered tys st) = Inr rs" "rs \<noteq> []"
  shows "some_violation vs"
proof -
  have "filter (\<lambda>p. snd p = VIOLATION) (gathered tys st) \<noteq> []"
    using assms(5,6) by (auto simp: combine_outcomes_def Let_def split: if_splits)
  then obtain ty where "(ty, VIOLATION) \<in> set (gathered tys st)"
    by (auto simp: filter_empty_conv)
  then obtain i where "i < length vs" "VIOLATION = outcome_at st i"
    unfolding gathered_set [OF assms(4)] by blast
  then have "status st i = Done VIOLATION"
    using assms(3) by (auto simp: outcome_at_def all_done_def split: task_status.splits)
  then show ?thesis
    using p2_reachable_inv [OF assms(1,2)] by (auto simp: p2_inv_def)
qed

lemma runner_rejects_violation_in_time:
  assumes "p2_reachable vs st" "all_done vs st" "length tys = length vs" "i < length vs"
    and "own_outcome (vs ! i) = VIOLATION" "status st i \<noteq> Done RETRYABLE"
  shows "\<exists>rs. combine_outcomes (gathered tys st) = Inr rs \<and> tys ! i \<in> set rs"
proof -
  obtain out where out: "status st i = Done out"
    using assms(2,4) by (auto simp: all_done_def)
  with p2_done_violation [OF assms(1,4,5)] assms(6) have "out = VIOLATION" by auto
  with out assms(3,4) have "(tys ! i, VIOLATION) \<in> set (gathered tys st)"
    by (auto simp: gathered_set outcome_at_def)
  then show ?thesis by (rule combine_rejects) blast
qed

end
