(* ===== verification/Json_Text.thy ===== *)
theory Json_Text
  imports Py_Text "HOL-Library.AList"
begin

text \<open>
  The JSON text of the rule snapshot: \<^verbatim>\<open>json.dumps\<close> with its default settings and \<^verbatim>\<open>json.loads\<close>, as far
  as characters of the 8-bit range go. The text of a float and its reading are parameters.
  The parser is a recursive descent over the remaining input; its fuel is a bound on the nesting and
  the number of items, and the length of the text is enough for every text the printer produces.
\<close>

section \<open>Printing\<close>

fun dumps :: "(rat \<Rightarrow> string) \<Rightarrow> json \<Rightarrow> string" where
  "dumps fr JNull = ''null''"
| "dumps fr (JBool b) = (if b then ''true'' else ''false'')"
| "dumps fr (JInt n) = py_str n"
| "dumps fr (JFloat q) = fr q"
| "dumps fr (JStr s) = json_string s"
| "dumps fr (JList xs) = ''['' @ join '', '' (map (dumps fr) xs) @ '']''"
| "dumps fr (JDict d) = ''{'' @ join '', '' (map (\<lambda>(k, v). json_string k @ '': '' @ dumps fr v) d) @ ''}''"

section \<open>Reading\<close>

definition is_ws :: "char \<Rightarrow> bool" where
  "is_ws c \<longleftrightarrow> (of_char c :: nat) \<in> {9, 10, 13, 32}"

definition skip_ws :: "string \<Rightarrow> string" where
  "skip_ws s = dropWhile is_ws s"

definition hex_val :: "char \<Rightarrow> nat option" where
  "hex_val c =
     (let n = (of_char c :: nat) in
      if 48 \<le> n \<and> n \<le> 57 then Some (n - 48)
      else if 97 \<le> n \<and> n \<le> 102 then Some (n - 87)
      else if 65 \<le> n \<and> n \<le> 70 then Some (n - 55)
      else None)"

text \<open>One escape after the backslash. Code points above 255 have no character here.\<close>

definition parse_escape :: "string \<Rightarrow> (char \<times> string) option" where
  "parse_escape s =
     (case s of
        [] \<Rightarrow> None
      | c # r \<Rightarrow>
          let n = (of_char c :: nat) in
          if n = 34 \<or> n = 92 \<or> n = 47 then Some (c, r)
          else if n = 98 then Some (char_of (8 :: nat), r)
          else if n = 102 then Some (char_of (12 :: nat), r)
          else if n = 110 then Some (char_of (10 :: nat), r)
          else if n = 114 then Some (char_of (13 :: nat), r)
          else if n = 116 then Some (char_of (9 :: nat), r)
          else if n = 117 then
            (case r of
               a # b # c # d # r' \<Rightarrow>
                 (case (hex_val a, hex_val b, hex_val c, hex_val d) of
                    (Some 0, Some 0, Some x, Some y) \<Rightarrow> Some (char_of (16 * x + y), r')
                  | _ \<Rightarrow> None)
             | _ \<Rightarrow> None)
          else None)"

lemma parse_escape_shorter: "parse_escape s = Some (c, r) \<Longrightarrow> length r < length s"
  by (auto simp: parse_escape_def Let_def split: list.splits if_splits option.splits nat.splits)

function parse_chars :: "string \<Rightarrow> (string \<times> string) option" where
  "parse_chars [] = None"
| "parse_chars (c # r) =
     (let n = (of_char c :: nat) in
      if n = 34 then Some ([], r)
      else if n = 92 then
        (case parse_escape r of
           None \<Rightarrow> None
         | Some (e, r') \<Rightarrow> map_option (\<lambda>(s, t). (e # s, t)) (parse_chars r'))
      else if n < 32 then None
      else map_option (\<lambda>(s, t). (c # s, t)) (parse_chars r))"
  by pat_completeness auto
termination
  by (relation "measure length") (auto dest: parse_escape_shorter)

definition parse_string :: "string \<Rightarrow> (string \<times> string) option" where
  "parse_string s = (case s of c # r \<Rightarrow> if (of_char c :: nat) = 34 then parse_chars r else None | [] \<Rightarrow> None)"

definition num_char :: "char \<Rightarrow> bool" where
  "num_char c \<longleftrightarrow> is_digit c \<or> c \<in> {CHR ''-'', CHR ''+'', CHR ''.'', CHR ''e'', CHR ''E''}"

text \<open>A number without fraction and exponent is an integer.\<close>

definition parse_number :: "(string \<Rightarrow> rat option) \<Rightarrow> string \<Rightarrow> (json \<times> string) option" where
  "parse_number pf s =
     (let t = takeWhile num_char s; r = dropWhile num_char s in
      if t = [] then None
      else if \<exists>c \<in> set t. c \<in> {CHR ''.'', CHR ''e'', CHR ''E''} then map_option (\<lambda>q. (JFloat q, r)) (pf t)
      else (case py_int t of Inr n \<Rightarrow> Some (JInt n, r) | Inl _ \<Rightarrow> None))"

definition rest_after :: "string \<Rightarrow> string \<Rightarrow> string option" where
  "rest_after p s = (if take (length p) s = p then Some (drop (length p) s) else None)"

text \<open>A later binding of a key replaces the value of an earlier one.\<close>

definition py_dict :: "(string \<times> 'a) list \<Rightarrow> (string \<times> 'a) list" where
  "py_dict pairs = foldl (\<lambda>d (k, v). AList.update k v d) [] pairs"

fun parse_value :: "(string \<Rightarrow> rat option) \<Rightarrow> nat \<Rightarrow> string \<Rightarrow> (json \<times> string) option"
and parse_items :: "(string \<Rightarrow> rat option) \<Rightarrow> nat \<Rightarrow> string \<Rightarrow> (json list \<times> string) option"
and parse_pairs :: "(string \<Rightarrow> rat option) \<Rightarrow> nat \<Rightarrow> string \<Rightarrow> ((string \<times> json) list \<times> string) option" where
  "parse_value pf 0 s = None"
| "parse_value pf (Suc n) s =
     (case skip_ws s of
        [] \<Rightarrow> None
      | c # r \<Rightarrow>
          if c = CHR ''['' then
            (case skip_ws r of
               c' # r' \<Rightarrow> if c' = CHR '']'' then Some (JList [], r')
                          else map_option (\<lambda>(xs, t). (JList xs, t)) (parse_items pf n r)
             | [] \<Rightarrow> None)
          else if c = CHR ''{'' then
            (case skip_ws r of
               c' # r' \<Rightarrow> if c' = CHR ''}'' then Some (JDict [], r')
                          else map_option (\<lambda>(d, t). (JDict (py_dict d), t)) (parse_pairs pf n r)
             | [] \<Rightarrow> None)
          else if (of_char c :: nat) = 34 then map_option (\<lambda>(x, t). (JStr x, t)) (parse_chars r)
          else if c = CHR ''n'' then map_option (\<lambda>t. (JNull, t)) (rest_after ''ull'' r)
          else if c = CHR ''t'' then map_option (\<lambda>t. (JBool True, t)) (rest_after ''rue'' r)
          else if c = CHR ''f'' then map_option (\<lambda>t. (JBool False, t)) (rest_after ''alse'' r)
          else parse_number pf (c # r))"
| "parse_items pf 0 s = None"
| "parse_items pf (Suc n) s =
     Option.bind (parse_value pf n s) (\<lambda>(x, t).
       case skip_ws t of
         c # r \<Rightarrow> if c = CHR '','' then map_option (\<lambda>(xs, t). (x # xs, t)) (parse_items pf n r)
                  else if c = CHR '']'' then Some ([x], r) else None
       | [] \<Rightarrow> None)"
| "parse_pairs pf 0 s = None"
| "parse_pairs pf (Suc n) s =
     Option.bind (parse_string (skip_ws s)) (\<lambda>(k, t).
       case skip_ws t of
         c # r \<Rightarrow> if c = CHR '':'' then
             Option.bind (parse_value pf n r) (\<lambda>(v, t).
               case skip_ws t of
                 c # r \<Rightarrow> if c = CHR '','' then map_option (\<lambda>(d, t). ((k, v) # d, t)) (parse_pairs pf n r)
                          else if c = CHR ''}'' then Some ([(k, v)], r) else None
               | [] \<Rightarrow> None)
           else None
       | [] \<Rightarrow> None)"

definition loads :: "(string \<Rightarrow> rat option) \<Rightarrow> string \<Rightarrow> json res" where
  "loads pf s =
     (case parse_value pf (Suc (length s)) s of
        Some (j, t) \<Rightarrow> if skip_ws t = [] then Inr j else Inl (PyExc ''ValueError'')
      | None \<Rightarrow> Inl (PyExc ''ValueError''))"

section \<open>Reading what was printed\<close>

text \<open>Python dictionaries have each key once.\<close>

fun json_wf :: "json \<Rightarrow> bool" where
  "json_wf (JList xs) = list_all json_wf xs"
| "json_wf (JDict d) = (distinct (map fst d) \<and> list_all (\<lambda>(k, v). json_wf v) d)"
| "json_wf j = True"

definition float_text :: "(rat \<Rightarrow> string) \<Rightarrow> (string \<Rightarrow> rat option) \<Rightarrow> bool" where
  "float_text fr pf \<longleftrightarrow>
     (\<forall>q. fr q \<noteq> [] \<and> list_all num_char (fr q) \<and> (\<exists>c \<in> set (fr q). c \<in> {CHR ''.'', CHR ''e'', CHR ''E''}) \<and>
        pf (fr q) = Some q)"

fun jfuel :: "json \<Rightarrow> nat" where
  "jfuel (JList xs) = Suc (foldr (\<lambda>x m. Suc (max (jfuel x) m)) xs 0)"
| "jfuel (JDict d) = Suc (foldr (\<lambda>(k, v) m. Suc (max (jfuel v) m)) d 0)"
| "jfuel j = 1"

lemma update_new: "k \<notin> fst ` set d \<Longrightarrow> AList.update k v d = d @ [(k, v)]"
  by (induction d) auto

lemma py_dict_distinct: "distinct (map fst d) \<Longrightarrow> py_dict d = d"
proof -
  have "distinct (map fst (acc @ d)) \<Longrightarrow> foldl (\<lambda>d (k, v). AList.update k v d) acc d = acc @ d" for acc
  proof (induction d arbitrary: acc)
    case (Cons kv d)
    obtain k v where kv: "kv = (k, v)" by fastforce
    have "AList.update k v acc = acc @ [(k, v)]"
      using Cons.prems kv by (intro update_new) auto
    with Cons.IH [of "acc @ [(k, v)]"] Cons.prems kv show ?case by simp
  qed simp
  from this [of "[]"] show "distinct (map fst d) \<Longrightarrow> py_dict d = d" by (simp add: py_dict_def)
qed

lemma skip_ws_space [simp]: "skip_ws (CHR '' '' # s) = skip_ws s"
  by (simp add: skip_ws_def is_ws_def)

lemma skip_ws_Cons: "\<not> is_ws c \<Longrightarrow> skip_ws (c # s) = c # s"
  by (simp add: skip_ws_def)

lemma hex_val_hex_char: "d < 16 \<Longrightarrow> hex_val (hex_char d) = Some d"
  by (auto simp: hex_val_def hex_char_def Let_def)

lemma hex_val_0: "hex_val CHR ''0'' = Some 0"
  by (simp add: hex_val_def)

lemma of_char_less: "(of_char (c :: char) :: nat) < 256"
  by (metis nat_of_char_less_256)

lemma parse_chars_escape:
  assumes "parse_chars r = Some (s, t)"
  shows "parse_chars (json_escape_char c @ r) = Some (c # s, t)"
proof -
  let ?n = "of_char c :: nat"
  have c: "char_of ?n = c" by simp
  have bs: "parse_chars (char_of (92 :: nat) # e # x) =
      (case parse_escape (e # x) of None \<Rightarrow> None | Some (e', r') \<Rightarrow> map_option (\<lambda>(s, t). (e' # s, t)) (parse_chars r'))"
    for e x by (simp add: Let_def)
  consider "?n \<in> {34, 92, 8, 9, 10, 12, 13}" | "32 \<le> ?n" "?n < 127" "?n \<notin> {34, 92}"
    | "?n \<notin> {34, 92, 8, 9, 10, 12, 13}" "\<not> (32 \<le> ?n \<and> ?n < 127)"
    by blast
  then show ?thesis
  proof cases
    case 1
    then have "c \<in> char_of ` {34, 92, 8, 9, 10, 12, 13 :: nat}" using c by (metis imageI)
    then show ?thesis
      using assms by (auto simp: json_escape_char_def parse_escape_def Let_def)
  next
    case 2
    then show ?thesis using assms by (simp add: json_escape_char_def Let_def)
  next
    case 3
    have "?n div 16 < 16" using of_char_less [of c] by (intro less_mult_imp_div_less) simp
    then have "parse_escape (CHR ''u'' # CHR ''0'' # CHR ''0'' # hex_char (?n div 16) # hex_char (?n mod 16) # r) = Some (c, r)"
      by (simp add: parse_escape_def hex_val_hex_char hex_val_0 Let_def)
    with 3 assms show ?thesis by (simp add: json_escape_char_def Let_def)
  qed
qed

lemma parse_chars_string: "parse_chars (concat (map json_escape_char s) @ char_of (34 :: nat) # r) = Some (s, r)"
proof (induction s)
  case (Cons c s)
  from parse_chars_escape [OF Cons] show ?case by simp
qed (simp add: Let_def)

lemma parse_string_json: "parse_string (json_string s @ r) = Some (s, r)"
  using parse_chars_string by (simp add: parse_string_def json_string_def)

text \<open>What may follow a value: nothing a number could continue with.\<close>

definition clean :: "string \<Rightarrow> bool" where
  "clean r \<longleftrightarrow> (case r of [] \<Rightarrow> True | c # _ \<Rightarrow> \<not> num_char c)"

lemma takeWhile_num: "list_all num_char t \<Longrightarrow> clean r \<Longrightarrow> takeWhile num_char (t @ r) = t \<and> dropWhile num_char (t @ r) = r"
  by (induction t) (auto simp: clean_def split: list.splits)

lemma py_str_num: "list_all num_char (py_str n) \<and> (\<forall>c \<in> set (py_str n). c \<notin> {CHR ''.'', CHR ''e'', CHR ''E''})"
proof -
  have "\<forall>c \<in> set (dec m). is_digit c" for m
    using dec_digits [of m] by (simp add: list_all_iff)
  moreover have "\<not> is_digit CHR ''.'' \<and> \<not> is_digit CHR ''e'' \<and> \<not> is_digit CHR ''E''"
    by (simp add: is_digit_def)
  ultimately show ?thesis
    by (auto simp: py_str_def list_all_iff num_char_def)
qed

lemma parse_number_int: "clean r \<Longrightarrow> parse_number pf (py_str n @ r) = Some (JInt n, r)"
  using py_str_num [of n] takeWhile_num [of "py_str n" r] by (auto simp: parse_number_def Let_def)

lemma parse_number_float: "float_text fr pf \<Longrightarrow> clean r \<Longrightarrow> parse_number pf (fr q @ r) = Some (JFloat q, r)"
  using takeWhile_num [of "fr q" r] by (auto simp: parse_number_def Let_def float_text_def)

lemma num_char_head: "num_char c \<Longrightarrow> \<not> is_ws c \<and> c \<notin> set ''[]{},:ntf'' \<and> (of_char c :: nat) \<noteq> 34"
  by (auto simp: num_char_def is_digit_def is_ws_def)

lemma parse_value_number:
  assumes "num_char c"
  shows "parse_value pf (Suc n) (c # r) = parse_number pf (c # r)"
  using num_char_head [OF assms] by (simp add: skip_ws_Cons)

text \<open>The first character of a printed value.\<close>

lemma dumps_head:
  assumes "float_text fr pf"
  obtains c t where "dumps fr j = c # t" "\<not> is_ws c" "c \<noteq> CHR '']''" "c \<noteq> CHR ''}''"
proof -
  have num: "\<exists>c t. s = c # t \<and> \<not> is_ws c \<and> c \<noteq> CHR '']'' \<and> c \<noteq> CHR ''}''" if "list_all num_char s" "s \<noteq> []" for s
    using that num_char_head by (cases s) auto
  have "\<exists>c t. dumps fr j = c # t \<and> \<not> is_ws c \<and> c \<noteq> CHR '']'' \<and> c \<noteq> CHR ''}''"
  proof (cases j)
    case (JInt n)
    then show ?thesis using num [of "py_str n"] py_str_num [of n] by simp
  next
    case (JFloat q)
    then show ?thesis using num [of "fr q"] assms by (simp add: float_text_def)
  qed (auto simp: is_ws_def json_string_def char_of_def bit_simps)
  then show ?thesis using that by blast
qed

lemma join_Cons: "xs \<noteq> [] \<Longrightarrow> join sep (x # xs) = x @ sep @ join sep xs"
  by (cases xs) simp_all

lemma join_prefix: "\<exists>w. join sep (x # xs) = x @ w"
  by (cases xs) simp_all

lemma parse_value_space: "parse_value pf n (CHR '' '' # s) = parse_value pf n s"
  by (cases n) simp_all

lemma parse_items_space: "parse_items pf n (CHR '' '' # s) = parse_items pf n s"
  by (cases n) (simp_all add: parse_value_space)

lemma parse_pairs_space: "parse_pairs pf n (CHR '' '' # s) = parse_pairs pf n s"
  by (cases n) simp_all

definition reads_back :: "(rat \<Rightarrow> string) \<Rightarrow> (string \<Rightarrow> rat option) \<Rightarrow> json \<Rightarrow> bool" where
  "reads_back fr pf x \<longleftrightarrow>
     (\<forall>n r. jfuel x \<le> n \<longrightarrow> clean r \<longrightarrow> parse_value pf n (dumps fr x @ r) = Some (x, r))"

lemma clean_sep: "clean (CHR '','' # r)" "clean (CHR '']'' # r)" "clean (CHR ''}'' # r)"
  by (simp_all add: clean_def num_char_def is_digit_def)

lemma ws_sep [simp]: "\<not> is_ws CHR '',''" "\<not> is_ws CHR '']''" "\<not> is_ws CHR ''}''" "\<not> is_ws CHR '':''" "\<not> is_ws CHR ''[''"
    "\<not> is_ws CHR ''{''"
  by (simp_all add: is_ws_def)

lemma parse_items_printed:
  assumes "\<forall>x \<in> set xs. reads_back fr pf x" "xs \<noteq> []" "foldr (\<lambda>x m. Suc (max (jfuel x) m)) xs 0 \<le> n"
  shows "parse_items pf n (join '', '' (map (dumps fr) xs) @ CHR '']'' # r) = Some (xs, r)"
  using assms
proof (induction xs arbitrary: n)
  case (Cons x xs)
  obtain m where n: "n = Suc m" "jfuel x \<le> m" "foldr (\<lambda>x m. Suc (max (jfuel x) m)) xs 0 \<le> m"
    using Cons.prems(3) by (cases n) auto
  have x: "parse_value pf m (dumps fr x @ t) = Some (x, t)" if "clean t" for t
    using Cons.prems(1) n(2) that by (simp add: reads_back_def)
  show ?case
  proof (cases "xs = []")
    case True
    then show ?thesis using n(1) x [OF clean_sep(2)] by (simp add: skip_ws_Cons)
  next
    case False
    then have "parse_items pf m (join '', '' (map (dumps fr) xs) @ CHR '']'' # r) = Some (xs, r)"
      using Cons n(3) by simp
    with False n(1) x [OF clean_sep(1)] show ?thesis
      by (simp add: join_Cons skip_ws_Cons parse_items_space)
  qed
qed simp

lemma parse_pairs_printed:
  assumes "\<forall>(k, v) \<in> set d. reads_back fr pf v" "d \<noteq> []" "foldr (\<lambda>(k, v) m. Suc (max (jfuel v) m)) d 0 \<le> n"
  shows "parse_pairs pf n (join '', '' (map (\<lambda>(k, v). json_string k @ '': '' @ dumps fr v) d) @ CHR ''}'' # r) = Some (d, r)"
  using assms
proof (induction d arbitrary: n)
  case (Cons kv d)
  obtain k v where kv: "kv = (k, v)" by fastforce
  obtain m where n: "n = Suc m" "jfuel v \<le> m" "foldr (\<lambda>(k, v) m. Suc (max (jfuel v) m)) d 0 \<le> m"
    using Cons.prems(3) kv by (cases n) auto
  have v: "parse_value pf m (dumps fr v @ t) = Some (v, t)" if "clean t" for t
    using Cons.prems(1) kv n(2) that by (simp add: reads_back_def)
  have key: "parse_string (skip_ws (json_string k @ t)) = Some (k, t)" for t
  proof -
    have "skip_ws (json_string k @ t) = json_string k @ t" by (simp add: json_string_def skip_ws_Cons is_ws_def)
    then show ?thesis by (simp add: parse_string_json)
  qed
  show ?case
  proof (cases "d = []")
    case True
    then show ?thesis using n(1) kv key v [OF clean_sep(3)] by (simp add: skip_ws_Cons parse_value_space)
  next
    case False
    then have "parse_pairs pf m (join '', '' (map (\<lambda>(k, v). json_string k @ '': '' @ dumps fr v) d) @ CHR ''}'' # r) = Some (d, r)"
      using Cons n(3) by simp
    with False n(1) kv key v [OF clean_sep(1)] show ?thesis
      by (simp add: join_Cons skip_ws_Cons parse_value_space parse_pairs_space)
  qed
qed simp

lemma reads_back_all:
  assumes "float_text fr pf" "json_wf j"
  shows "reads_back fr pf j"
  using assms(2)
proof (induction j)
  case (JList xs)
  show ?case
    unfolding reads_back_def
  proof (intro allI impI)
    fix n r
    assume "jfuel (JList xs) \<le> n" "clean r"
    then obtain m where n: "n = Suc m" "foldr (\<lambda>x m. Suc (max (jfuel x) m)) xs 0 \<le> m"
      by (cases n) auto
    show "parse_value pf n (dumps fr (JList xs) @ r) = Some (JList xs, r)"
    proof (cases xs)
      case Nil
      then show ?thesis using n(1) by (simp add: skip_ws_Cons)
    next
      case (Cons x ys)
      have "parse_items pf m (join '', '' (map (dumps fr) xs) @ CHR '']'' # r) = Some (xs, r)"
        using JList Cons n(2) by (intro parse_items_printed) (auto simp: list_all_iff)
      moreover obtain c t where "join '', '' (map (dumps fr) xs) @ CHR '']'' # r = c # t" "\<not> is_ws c" "c \<noteq> CHR '']''"
      proof -
        obtain c t where "dumps fr x = c # t" "\<not> is_ws c" "c \<noteq> CHR '']''"
          using dumps_head [OF assms(1)] by metis
        moreover obtain w where "join '', '' (map (dumps fr) xs) = dumps fr x @ w"
          using join_prefix Cons by fastforce
        ultimately show ?thesis using that by simp
      qed
      ultimately show ?thesis using n(1) by (simp add: skip_ws_Cons)
    qed
  qed
next
  case (JDict d)
  show ?case
    unfolding reads_back_def
  proof (intro allI impI)
    fix n r
    assume "jfuel (JDict d) \<le> n" "clean r"
    then obtain m where n: "n = Suc m" "foldr (\<lambda>(k, v) m. Suc (max (jfuel v) m)) d 0 \<le> m"
      by (cases n) auto
    show "parse_value pf n (dumps fr (JDict d) @ r) = Some (JDict d, r)"
    proof (cases d)
      case Nil
      then show ?thesis using n(1) by (simp add: skip_ws_Cons)
    next
      case (Cons kv e)
      have "parse_pairs pf m (join '', '' (map (\<lambda>(k, v). json_string k @ '': '' @ dumps fr v) d) @ CHR ''}'' # r) = Some (d, r)"
        using JDict Cons n(2) by (intro parse_pairs_printed) (fastforce simp: list_all_iff snds.simps)+
      moreover obtain c t where "join '', '' (map (\<lambda>(k, v). json_string k @ '': '' @ dumps fr v) d) @ CHR ''}'' # r = c # t"
          "\<not> is_ws c" "c \<noteq> CHR ''}''"
      proof -
        obtain k v where "kv = (k, v)" by fastforce
        then obtain w where "join '', '' (map (\<lambda>(k, v). json_string k @ '': '' @ dumps fr v) d) =
            (json_string k @ '': '' @ dumps fr v) @ w"
          using join_prefix [of "'', ''" "json_string k @ '': '' @ dumps fr v"
              "map (\<lambda>(k, v). json_string k @ '': '' @ dumps fr v) e"] Cons by auto
        then show ?thesis using that by (simp add: json_string_def is_ws_def char_of_def bit_simps)
      qed
      moreover have "py_dict d = d" using JDict.prems by (intro py_dict_distinct) simp
      ultimately show ?thesis using n(1) by (simp add: skip_ws_Cons)
    qed
  qed
next
  case (JInt i)
  obtain c t where ct: "py_str i = c # t" "num_char c"
    using py_str_num [of i] py_str_nonempty [of i] by (cases "py_str i") auto
  show ?case
    unfolding reads_back_def
  proof (intro allI impI)
    fix n r assume "jfuel (JInt i) \<le> n" "clean r"
    then show "parse_value pf n (dumps fr (JInt i) @ r) = Some (JInt i, r)"
      using parse_number_int [of r pf i] ct by (cases n) (simp_all add: parse_value_number del: parse_value.simps)
  qed
next
  case (JFloat q)
  obtain c t where ct: "fr q = c # t" "num_char c"
    using assms(1) unfolding float_text_def by (metis list.exhaust list.pred_inject(2))
  show ?case
    unfolding reads_back_def
  proof (intro allI impI)
    fix n r assume "jfuel (JFloat q) \<le> n" "clean r"
    then show "parse_value pf n (dumps fr (JFloat q) @ r) = Some (JFloat q, r)"
      using parse_number_float [OF assms(1), of r q] ct by (cases n) (simp_all add: parse_value_number del: parse_value.simps)
  qed
next
  case (JStr x)
  show ?case
    unfolding reads_back_def
  proof (intro allI impI)
    fix n r assume "jfuel (JStr x) \<le> n" "clean r"
    then show "parse_value pf n (dumps fr (JStr x) @ r) = Some (JStr x, r)"
      using parse_chars_string [of x r]
      by (cases n) (simp_all add: json_string_def skip_ws_Cons is_ws_def char_of_def bit_simps)
  qed
qed (auto simp: reads_back_def skip_ws_Cons is_ws_def rest_after_def less_Suc_eq_le neq0_conv [symmetric] gr0_conv_Suc
    dest!: Suc_le_D split: if_splits)

text \<open>The length of the text bounds the fuel.\<close>

lemma jfuel_bound:
  assumes "float_text fr pf"
  shows "jfuel j \<le> length (dumps fr j)"
proof (induction j)
  case (JList xs)
  have "foldr (\<lambda>x m. Suc (max (jfuel x) m)) xs 0 \<le> Suc (length (join '', '' (map (dumps fr) xs)))"
    using JList
  proof (induction xs)
    case (Cons x xs)
    then show ?case by (cases xs) fastforce+
  qed simp
  then show ?case by simp
next
  case (JDict d)
  have "foldr (\<lambda>(k, v) m. Suc (max (jfuel v) m)) d 0 \<le>
      Suc (length (join '', '' (map (\<lambda>(k, v). json_string k @ '': '' @ dumps fr v) d)))"
    using JDict
  proof (induction d)
    case (Cons kv d)
    then show ?case by (cases kv; cases d) (fastforce simp: snds.simps)+
  qed simp
  then show ?case by simp
qed (use assms dumps_head [OF assms] in \<open>auto simp: float_text_def json_string_def Suc_le_eq\<close>)

theorem loads_dumps:
  assumes "float_text fr pf" "json_wf j"
  shows "loads pf (dumps fr j) = Inr j"
proof -
  have "parse_value pf (Suc (length (dumps fr j))) (dumps fr j @ []) = Some (j, [])"
    using reads_back_all [OF assms] jfuel_bound [OF assms(1), of j]
    unfolding reads_back_def by (metis clean_def le_SucI list.case(1))
  then show ?thesis by (simp add: loads_def skip_ws_def)
qed

lemma dumps_nonempty: "float_text fr pf \<Longrightarrow> dumps fr j \<noteq> []"
  using dumps_head by (metis list.distinct(1))

section \<open>An exact text for rationals\<close>

text \<open>Numerator and denominator joined by \<^verbatim>\<open>.e\<close>: a text with the laws of \<open>float_text\<close>.\<close>

definition ratio_text :: "rat \<Rightarrow> string" where
  "ratio_text q = py_str (fst (quotient_of q)) @ ''.e'' @ py_str (snd (quotient_of q))"

definition parse_ratio :: "string \<Rightarrow> rat option" where
  "parse_ratio s =
     (let n = takeWhile (\<lambda>c. c \<noteq> CHR ''.'') s; d = drop 2 (dropWhile (\<lambda>c. c \<noteq> CHR ''.'') s) in
      case (py_int n, py_int d) of (Inr a, Inr b) \<Rightarrow> Some (Fract a b) | _ \<Rightarrow> None)"

lemma py_str_no_dot: "c \<in> set (py_str n) \<Longrightarrow> c \<noteq> CHR ''.''"
  using py_str_num by auto

lemma split_at_dot:
  "takeWhile (\<lambda>c. c \<noteq> CHR ''.'') (py_str n @ CHR ''.'' # t) = py_str n"
  "dropWhile (\<lambda>c. c \<noteq> CHR ''.'') (py_str n @ CHR ''.'' # t) = CHR ''.'' # t"
  using py_str_no_dot by (subst takeWhile_append2 dropWhile_append2; simp)+

lemma ratio_float_text: "float_text ratio_text parse_ratio"
proof -
  have "parse_ratio (ratio_text q) = Some q" for q
  proof -
    obtain a b where q: "quotient_of q = (a, b)" by fastforce
    have "parse_ratio (py_str a @ CHR ''.'' # CHR ''e'' # py_str b) = Some (Fract a b)"
      unfolding parse_ratio_def split_at_dot by simp
    then show ?thesis
      unfolding ratio_text_def q using quotient_of_div [OF q] by (simp add: Fract_of_int_quotient)
  qed
  moreover have "list_all num_char (ratio_text q)" for q
    using py_str_num by (simp add: ratio_text_def num_char_def)
  ultimately show ?thesis
    by (simp add: float_text_def ratio_text_def)
qed

end
