(* ===== verification/Request_Flow.thy ===== *)
theory Request_Flow
  imports Rule_Store Redis_Hash Phase2 Json_Text
begin

text \<open>
  The life of a request: \<^verbatim>\<open>POST /requests\<close> with its synchronous checks and reservations
  (\<^verbatim>\<open>src/api/v1/requests/__init__.py\<close>), the daemon that stores it (\<^verbatim>\<open>queue_request_handler.py\<close>), the
  daemon that runs its Tier 3 rules (\<^verbatim>\<open>rule_validation.py\<close>), the task endpoints
  (\<^verbatim>\<open>src/api/v1/requests/tasks.py\<close>) and the deletion of a request.

  The state is what these share: the Redis server, the table of requests and the table of rules.
  Parameters are the services outside the repository (osu! API, the archiving of beatmapsets), the
  text of floats and Booleans, and the rows the code only reads (queues, administrators).
\<close>

section \<open>State and parameters\<close>

record request_row =
  rq_id :: int
  rq_user_id :: int
  rq_beatmapset_id :: int
  rq_queue_id :: int
  rq_snapshot_id :: int
  rq_comment :: string
  rq_mv_checked :: bool
  rq_status :: int
  rq_rejection_reason :: "string option"

text \<open>\<^verbatim>\<open>RequestStatus\<close>\<close>

definition REJECTED :: int where "REJECTED = -1"
definition PENDING :: int where "PENDING = 0"
definition ACCEPTED :: int where "ACCEPTED = 1"

record 'r sys =
  sys_redis :: 'r
  sys_requests :: "request_row list"
  sys_next :: int
  sys_rules :: rule_db

record queue_row =
  q_name :: string
  q_is_open :: bool
  q_enforce_user_id_match :: bool

record 'r app =
  a_env :: "'r env"
  a_registry :: "'r registry"
  a_parse :: parser
  a_search :: osu_search
  a_rows :: "int \<Rightarrow> (song \<times> int) list"
  a_queues :: "int \<Rightarrow> queue_row option"
  a_is_admin :: "int \<Rightarrow> bool"
  a_users :: "int \<Rightarrow> bool"
  a_latest_snapshot :: "int \<Rightarrow> int option"
  a_get_beatmapset :: "int \<Rightarrow> beatmapset res"
  a_archive :: "int \<Rightarrow> unit res"
  a_lit :: "string \<Rightarrow> bool res"
  a_str_hash :: "string \<Rightarrow> int"
  a_parse_float :: "string \<Rightarrow> rat option"

abbreviation R_of :: "'r app \<Rightarrow> 'r redis_ops" where
  "R_of A \<equiv> e_redis (a_env A)"

definition world_of :: "'r app \<Rightarrow> 'r \<Rightarrow> 'r world" where
  "world_of A r = \<lparr>w_env = a_env A, w_store = r, w_parse = a_parse A, w_search = a_search A, w_rows = a_rows A\<rparr>"

text \<open>A Redis action inside the larger state.\<close>

definition on_redis :: "('r, 'a) act \<Rightarrow> ('r sys, 'a) act" where
  "on_redis m s = (case m (sys_redis s) of (r, x) \<Rightarrow> (r, s\<lparr>sys_redis := x\<rparr>))"

definition METADATA_PROVIDERS :: "string list" where
  "METADATA_PROVIDERS = [''song_identity'', ''beatmap_stats'', ''creator_identity'', ''duration'']"

definition QUEUE_REQUEST_HANDLER_TASKS :: string where
  "QUEUE_REQUEST_HANDLER_TASKS = ''queue_request_handler_tasks''"

definition QUEUE_REQUEST_VALIDATION_TASKS :: string where
  "QUEUE_REQUEST_VALIDATION_TASKS = ''queue_request_validation_tasks''"

definition task_key :: "int \<Rightarrow> string" where
  "task_key hashed_id = hash_name QUEUE_REQUEST_HANDLER_TASK (py_str hashed_id)"

section \<open>Submitting a request\<close>

record request_body =
  rb_user_id :: "int option"
  rb_beatmapset_id :: int
  rb_queue_id :: int
  rb_comment :: string
  rb_mv_checked :: bool

text \<open>\<^verbatim>\<open>body.get("user_id") or _caller_user_id\<close>\<close>

definition user_or :: "int option \<Rightarrow> int \<Rightarrow> int" where
  "user_or u caller = (case u of Some n \<Rightarrow> if n = 0 then caller else n | None \<Rightarrow> caller)"

text \<open>On whose behalf the request is made.\<close>

definition requesting_user :: "'r app \<Rightarrow> queue_row \<Rightarrow> int option \<Rightarrow> int option \<Rightarrow> int res" where
  "requesting_user A queue caller submitted =
     (case caller of
        None \<Rightarrow> Inl (Forbidden CallerUnknown)
      | Some cid \<Rightarrow>
          if a_is_admin A cid then Inr (user_or submitted cid)
          else if q_enforce_user_id_match queue then
            (if submitted \<noteq> None \<and> submitted \<noteq> Some cid then Inl (Forbidden OnBehalfOfAnother) else Inr cid)
          else Inr (user_or submitted cid))"

definition has_request :: "request_row list \<Rightarrow> int \<Rightarrow> int \<Rightarrow> bool" where
  "has_request rows bid qid \<longleftrightarrow> (\<exists>r \<in> set rows. rq_beatmapset_id r = bid \<and> rq_queue_id r = qid)"

definition request_context :: "int \<Rightarrow> int \<Rightarrow> beatmapset \<Rightarrow> exec_context" where
  "request_context qid uid bms =
     \<lparr>queue_id = qid, user_id = uid, cx_beatmapset = Some (fst (parse_osu_beatmapset bms)),
      cx_beatmaps = Some (snd (parse_osu_beatmapset bms)), has_osu_client = False, has_session = False,
      config = JDict [], metadata_providers = Some METADATA_PROVIDERS, last_violation = None, provider_cache = []\<rparr>"

definition run_phase1_checks :: "'r app \<Rightarrow> int \<Rightarrow> int \<Rightarrow> beatmapset \<Rightarrow> ('r sys, queue_rule list) act" where
  "run_phase1_checks A qid uid bms s =
     (let rules = get_rules (sys_rules s) qid True in
      case phase1_run (a_registry A) (world_of A (sys_redis s)) rules (request_context qid uid bms) of
        (Inl e, _) \<Rightarrow> (Inl e, s)
      | (Inr _, _) \<Rightarrow> (Inr rules, s))"

text \<open>A task already stored under the identifier blocks the request unless it has failed.\<close>

definition clear_failed_task :: "'r app \<Rightarrow> string \<Rightarrow> ('r sys, unit) act" where
  "clear_failed_task A key s =
     (if rexists (R_of A) (sys_redis s) key then
        bindS (liftS (handler_deserialize (a_lit A) (rhgetall (R_of A) (sys_redis s) key))) (\<lambda>existing.
          if ht_failed_at existing \<noteq> None then on_redis (rdelete (R_of A) key)
          else raiseS (Conflict ''The request is currently being processed'')) s
      else retS () s)"

text \<open>Store the task and publish it; an exception takes the reservations back.\<close>

definition enqueue_task :: "'r app \<Rightarrow> handler_task \<Rightarrow> reservation list \<Rightarrow> ('r sys, int) act" where
  "enqueue_task A task reservations s =
     (case bindS (on_redis (rhset (R_of A) (task_key (handler_hashed_id task)) (handler_serialize task))) (\<lambda>_.
             on_redis (rpublish (R_of A) QUEUE_REQUEST_HANDLER_TASKS (py_str (handler_hashed_id task)))) s of
        (Inl e, s') \<Rightarrow> (Inl e, s'\<lparr>sys_redis := rollback_reservations (a_env A) reservations (sys_redis s')\<rparr>)
      | (Inr _, s') \<Rightarrow> (Inr (handler_hashed_id task), s'))"

definition task_of :: "request_body \<Rightarrow> int \<Rightarrow> string \<Rightarrow> handler_task" where
  "task_of body uid http_id =
     \<lparr>ht_user_id = uid, ht_beatmapset_id = rb_beatmapset_id body, ht_queue_id = rb_queue_id body,
      ht_comment = rb_comment body, ht_mv_checked = rb_mv_checked body, ht_http_request_id = http_id,
      ht_completed_at = None, ht_failed_at = None\<rparr>"

definition RANKED_STATUSES :: "string list" where
  "RANKED_STATUSES = [''ranked'', ''approved'', ''qualified'', ''loved'']"

definition requests_post :: "'r app \<Rightarrow> int option \<Rightarrow> string \<Rightarrow> request_body \<Rightarrow> ('r sys, int) act" where
  "requests_post A caller http_id body =
     (let qid = rb_queue_id body; bid = rb_beatmapset_id body in
      case a_queues A qid of
        None \<Rightarrow> raiseS (NotFound ''Queue'')
      | Some queue \<Rightarrow>
          if \<not> q_is_open queue then raiseS (Forbidden QueueClosed)
          else bindS (liftS (requesting_user A queue caller (rb_user_id body))) (\<lambda>uid s.
            if has_request (sys_requests s) bid qid then (Inl (Conflict ''The request already exists''), s)
            else bindS (liftS (a_get_beatmapset A bid)) (\<lambda>bms.
              if beatmapset.status bms \<in> set RANKED_STATUSES then raiseS (BadRequest ''The beatmapset is already ranked'')
              else bindS (run_phase1_checks A qid uid bms) (\<lambda>rules.
                let task = task_of body uid http_id in
                bindS (clear_failed_task A (task_key (handler_hashed_id task))) (\<lambda>_.
                bindS (on_redis (reserve_stateful_rules (a_env A) qid uid rules)) (\<lambda>reservations.
                  enqueue_task A task reservations)))) s))"

section \<open>Storing the request\<close>

text \<open>The listener that binds a new row to the latest snapshot of its beatmapset.\<close>

definition request_before_insert :: "'r app \<Rightarrow> int \<Rightarrow> int res" where
  "request_before_insert A bid =
     (case a_latest_snapshot A bid of None \<Rightarrow> Inl (PyExc ''ValueError'') | Some n \<Rightarrow> Inr n)"

text \<open>
  \<^verbatim>\<open>db.add(Request, ..)\<close>: a row with the same beatmapset and queue is resolved and left as it is;
  otherwise one is inserted, under the foreign keys to the user and the queue.
\<close>

definition add_request :: "'r app \<Rightarrow> handler_task \<Rightarrow> ('r sys, int) act" where
  "add_request A t s =
     (case find (\<lambda>r. rq_beatmapset_id r = ht_beatmapset_id t \<and> rq_queue_id r = ht_queue_id t) (sys_requests s) of
        Some r \<Rightarrow> (Inr (rq_id r), s)
      | None \<Rightarrow>
          bindS (liftS (request_before_insert A (ht_beatmapset_id t))) (\<lambda>snapshot s.
            if \<not> a_users A (ht_user_id t) \<or> a_queues A (ht_queue_id t) = None then (Inl (PyExc ''IntegrityError''), s)
            else (Inr (sys_next s),
              s\<lparr>sys_requests := sys_requests s @
                  [\<lparr>rq_id = sys_next s, rq_user_id = ht_user_id t, rq_beatmapset_id = ht_beatmapset_id t,
                    rq_queue_id = ht_queue_id t, rq_snapshot_id = snapshot, rq_comment = ht_comment t,
                    rq_mv_checked = ht_mv_checked t, rq_status = PENDING, rq_rejection_reason = None\<rparr>],
                sys_next := sys_next s + 1\<rparr>)) s)"

text \<open>\<^verbatim>\<open>rule.config or {}\<close> and the four other fields the runners read.\<close>

definition snapshot_rule :: "queue_rule \<Rightarrow> json" where
  "snapshot_rule r =
     JDict [(''id'', JInt (rule_id r)), (''type'', JStr (rule_type r)), (''version'', JStr (rule_version r)),
            (''config'', config_or_empty (rule_config r)), (''is_active'', JBool (is_active r))]"

definition snapshot_active_rules :: "'r app \<Rightarrow> rule_db \<Rightarrow> int \<Rightarrow> string" where
  "snapshot_active_rules A db qid = dumps (e_float_repr (a_env A)) (JList (map snapshot_rule (get_rules db qid True)))"

definition dispatch_validation_task :: "'r app \<Rightarrow> int \<Rightarrow> int \<Rightarrow> int \<Rightarrow> string \<Rightarrow> ('r sys, unit) act" where
  "dispatch_validation_task A rid qid bid http_id s =
     (let task = \<lparr>vt_request_id = rid, vt_queue_id = qid, vt_beatmapset_id = bid, vt_http_request_id = http_id,
            vt_rules_snapshot = snapshot_active_rules A (sys_rules s) qid, vt_completed_at = None, vt_failed_at = None\<rparr>;
          hid = validation_hashed_id (a_str_hash A) task
      in bindS (on_redis (rhset (R_of A) (task_key hid) (validation_serialize task))) (\<lambda>_.
           on_redis (rpublish (R_of A) QUEUE_REQUEST_VALIDATION_TASKS (py_str hid))) s)"

text \<open>The \<^verbatim>\<open>try .. except Exception\<close> around a job: \<^verbatim>\<open>failed_at\<close> is written, then the exception goes on.\<close>

definition mark_failed :: "'r app \<Rightarrow> string \<Rightarrow> datetime \<Rightarrow> ('r sys, 'a) act \<Rightarrow> ('r sys, 'a) act" where
  "mark_failed A key now m s =
     (case m s of
        (Inr x, s') \<Rightarrow> (Inr x, s')
      | (Inl e, s') \<Rightarrow> bindS (on_redis (rhset (R_of A) key [(''failed_at'', isoformat now)])) (\<lambda>_. raiseS e) s')"

definition handle_record :: "'r app \<Rightarrow> string \<Rightarrow> datetime \<Rightarrow> handler_task \<Rightarrow> ('r sys, unit) act" where
  "handle_record A key now record =
     bindS (liftS (a_archive A (ht_beatmapset_id record))) (\<lambda>_.
     bindS (add_request A record) (\<lambda>rid.
     bindS (dispatch_validation_task A rid (ht_queue_id record) (ht_beatmapset_id record) (ht_http_request_id record)) (\<lambda>_.
       on_redis (rhset (R_of A) key [(''completed_at'', isoformat now)]))))"

definition handler_execute_job :: "'r app \<Rightarrow> datetime \<Rightarrow> int \<Rightarrow> ('r sys, unit) act" where
  "handler_execute_job A now hid =
     mark_failed A (task_key hid) now (\<lambda>s.
       let serialized = rhgetall (R_of A) (sys_redis s) (task_key hid) in
       if serialized = [] then (Inl (PyExc ''ValueError''), s)
       else bindS (liftS (handler_deserialize (a_lit A) serialized)) (handle_record A (task_key hid) now) s)"

section \<open>Validating a stored request\<close>

text \<open>The stand-ins built from one item of a snapshot.\<close>

definition rule_from_snapshot :: "json \<Rightarrow> queue_rule res" where
  "rule_from_snapshot item =
     with_dict item (\<lambda>d.
       case map_of d ''type'' of
         Some (JStr ty) \<Rightarrow>
           Inr \<lparr>rule_id = (case dget d ''id'' of JInt n \<Rightarrow> n | _ \<Rightarrow> 0), rule_queue_id = 0, rule_type = ty,
                rule_config = config_or_empty (dget d ''config''),
                is_active = truthy (dget_or d ''is_active'' (JBool True)), is_public = True,
                rule_version = text_of (dget_or d ''version'' (JStr ''1.0''))\<rparr>
       | _ \<Rightarrow> Inl (PyExc ''KeyError''))"

definition rules_from_snapshot :: "'r app \<Rightarrow> string \<Rightarrow> queue_rule list option res" where
  "rules_from_snapshot A text =
     (if text = [] then Inr None
      else (case loads (a_parse_float A) text of
              Inl e \<Rightarrow> Inr None
            | Inr data \<Rightarrow> bindR (iter_json data) (\<lambda>items. bindR (map_res rule_from_snapshot items) (\<lambda>rs. Inr (Some rs)))))"

definition update_request :: "int \<Rightarrow> (request_row \<Rightarrow> request_row) \<Rightarrow> 'r sys \<Rightarrow> 'r sys" where
  "update_request rid f s = s\<lparr>sys_requests := map (\<lambda>r. if rq_id r = rid then f r else r) (sys_requests s)\<rparr>"

definition validation_context :: "int \<Rightarrow> int \<Rightarrow> beatmapset \<Rightarrow> exec_context" where
  "validation_context qid uid bms = (request_context qid uid bms)\<lparr>has_osu_client := True, has_session := True\<rparr>"

text \<open>
  \<^verbatim>\<open>_run_validation\<close>. The outcomes of the concurrent tasks are those of the final state \<open>sched\<close> of some
  schedule, which belongs to the tasks selected from \<open>rules\<close>.
\<close>

definition phase2_run :: "'r registry \<Rightarrow> p2_state \<Rightarrow> queue_rule list \<Rightarrow> string list res" where
  "phase2_run G sched rules =
     bindR (select_tier3 G rules) (\<lambda>selected.
       if selected = [] then Inr [] else combine_outcomes (gathered (map rule_type selected) sched))"

definition rejected_by :: "string list \<Rightarrow> request_row \<Rightarrow> request_row" where
  "rejected_by rs r =
     r\<lparr>rq_status := REJECTED, rq_rejection_reason := Some (''Rejected by rule engine: '' @ join '', '' rs)\<rparr>"

definition run_validation :: "'r app \<Rightarrow> p2_state \<Rightarrow> validation_task \<Rightarrow> ('r sys, unit) act" where
  "run_validation A sched task s =
     bindS (liftS (rules_from_snapshot A (vt_rules_snapshot task))) (\<lambda>snapshot_rules s.
       case find (\<lambda>r. rq_id r = vt_request_id task) (sys_requests s) of
         None \<Rightarrow> (Inr (), s)
       | Some request \<Rightarrow>
           let rules = (case snapshot_rules of Some rs \<Rightarrow> rs | None \<Rightarrow> get_rules (sys_rules s) (vt_queue_id task) True);
               phase2_rules = filter (\<lambda>r. get_validator_tier (a_registry A) (rule_type r) = Some 3) rules
           in if phase2_rules = [] then (Inr (), s)
              else (case a_get_beatmapset A (vt_beatmapset_id task) of
                      Inl e \<Rightarrow> (Inr (), s)
                    | Inr bms \<Rightarrow>
                        bindS (liftS (phase2_run (a_registry A) sched phase2_rules)) (\<lambda>rejected s.
                          (Inr (), if rejected = [] then s else update_request (vt_request_id task) (rejected_by rejected) s)) s)) s"

definition validation_execute_job :: "'r app \<Rightarrow> datetime \<Rightarrow> p2_state \<Rightarrow> int \<Rightarrow> ('r sys, unit) act" where
  "validation_execute_job A now sched hid =
     mark_failed A (task_key hid) now (\<lambda>s.
       let serialized = rhgetall (R_of A) (sys_redis s) (task_key hid) in
       if serialized = [] then (Inl (PyExc ''ValueError''), s)
       else bindS (liftS (validation_deserialize serialized)) (\<lambda>task.
              bindS (run_validation A sched task) (\<lambda>_.
                on_redis (rhset (R_of A) (task_key hid) [(''completed_at'', isoformat now)]))) s)"

section \<open>Task endpoints and deletion\<close>

definition tasks_get :: "'r app \<Rightarrow> int option \<Rightarrow> int \<Rightarrow> 'r \<Rightarrow> handler_task res" where
  "tasks_get A caller hid r =
     (let serialized = rhgetall (R_of A) r (task_key hid) in
      if serialized = [] then Inl (NotFound ''Request task'')
      else bindR (handler_deserialize (a_lit A) serialized) (\<lambda>task.
        if caller \<noteq> Some (ht_user_id task) \<and> \<not> (case caller of Some c \<Rightarrow> a_is_admin A c | None \<Rightarrow> False)
        then Inl (Forbidden NotAuthorized) else Inr task))"

text \<open>The listing decodes every hash of the namespace, in the order of the scan.\<close>

definition tasks_search :: "'r app \<Rightarrow> string list \<Rightarrow> 'r \<Rightarrow> handler_task list res" where
  "tasks_search A hash_names r = map_res (\<lambda>k. handler_deserialize (a_lit A) (rhgetall (R_of A) r k)) hash_names"

definition requests_delete :: "'r app \<Rightarrow> int \<Rightarrow> ('r sys, unit) act" where
  "requests_delete A rid s =
     (case find (\<lambda>r. rq_id r = rid) (sys_requests s) of
        None \<Rightarrow> (Inl (NotFound ''Request''), s)
      | Some request \<Rightarrow>
          bindS (on_redis (rdelete (R_of A) (task_key (positive_hash
                   [py_hash_int (rq_queue_id request), py_hash_int (rq_beatmapset_id request)])))) (\<lambda>_.
          bindS (on_redis (rdelete (R_of A) (task_key (positive_hash
                   [a_str_hash A ''validation'', py_hash_int (rq_id request)])))) (\<lambda>_ s.
            (Inr (), s\<lparr>sys_requests := filter (\<lambda>r. rq_id r \<noteq> rid) (sys_requests s)\<rparr>))) s)"

text \<open>\<^verbatim>\<open>PATCH /requests\<close>: only the status survives the whitelist, and only a different one is written.\<close>

definition bleach_body :: "string list option \<Rightarrow> string list \<Rightarrow> dict \<Rightarrow> dict res" where
  "bleach_body whitelist blacklist body =
     (if (case whitelist of Some w \<Rightarrow> set w \<inter> set blacklist \<noteq> {} | None \<Rightarrow> False) then Inl (PyExc ''ValueError'')
      else Inr (filter (\<lambda>(k, _). (case whitelist of Some w \<Rightarrow> k \<in> set w | None \<Rightarrow> True) \<and> k \<notin> set blacklist) body))"

definition requests_patch :: "int \<Rightarrow> dict \<Rightarrow> ('r sys, unit) act" where
  "requests_patch rid body s =
     bindS (liftS (bleach_body (Some [''status'']) [] body)) (\<lambda>body s.
       case find (\<lambda>r. rq_id r = rid) (sys_requests s) of
         None \<Rightarrow> (Inl (NotFound ''Request''), s)
       | Some request \<Rightarrow>
           (case map_of body ''status'' of
              Some (JInt n) \<Rightarrow>
                (Inr (), if n = rq_status request then s else update_request rid (\<lambda>r. r\<lparr>rq_status := n\<rparr>) s)
            | Some _ \<Rightarrow> (Inl (PyExc ''DataError''), s)
            | None \<Rightarrow> (Inr (), s))) s"

section \<open>Cleaning up at start-up\<close>

text \<open>\<^verbatim>\<open>cleanup_stale_tasks\<close>: of the tasks the scan finds, those that neither completed nor failed are deleted.\<close>

definition marked :: "(string \<times> string) list \<Rightarrow> string \<Rightarrow> bool" where
  "marked data k \<longleftrightarrow> (case map_of data k of Some v \<Rightarrow> v \<noteq> [] | None \<Rightarrow> False)"

fun cleanup_stale_tasks :: "'r app \<Rightarrow> int list \<Rightarrow> ('r sys, nat) act" where
  "cleanup_stale_tasks A [] s = (Inr 0, s)"
| "cleanup_stale_tasks A (hid # rest) s =
     (let task_data = rhgetall (R_of A) (sys_redis s) (task_key hid) in
      if \<not> marked task_data ''completed_at'' \<and> \<not> marked task_data ''failed_at''
      then bindS (on_redis (rdelete (R_of A) (task_key hid))) (\<lambda>_.
           bindS (cleanup_stale_tasks A rest) (\<lambda>cleaned. retS (Suc cleaned))) s
      else cleanup_stale_tasks A rest s)"

end
