(* ===== verification/Flow_Frame.thy ===== *)
theory Flow_Frame
  imports Request_Flow
begin

text \<open>
  What the steps of the request path leave alone. Reservations touch the keys of the two rule
  namespaces only (\<open>keeps_other\<close>); the commands on a task's hash touch that hash only; a submission
  that raises leaves every counter, every row and every rule as it was (\<open>quiet\<close>).
\<close>

section \<open>Reservations touch quota keys only\<close>

definition other_same :: "'r redis_ops \<Rightarrow> 'r \<Rightarrow> 'r \<Rightarrow> bool" where
  "other_same R s s' \<longleftrightarrow>
     (\<forall>k. \<not> quota_key k \<longrightarrow> rget R s' k = rget R s k \<and> rhgetall R s' k = rhgetall R s k \<and> rexists R s' k = rexists R s k)"

definition keeps_other :: "'r env \<Rightarrow> ('r, 'a) act \<Rightarrow> bool" where
  "keeps_other E m \<longleftrightarrow>
     (\<forall>s. quota_inv E s \<longrightarrow> quota_inv E (snd (m s)) \<and> other_same (e_redis E) s (snd (m s)))"

lemma other_same_refl [simp]: "other_same R s s"
  by (simp add: other_same_def)

lemma other_same_trans: "other_same R s s' \<Longrightarrow> other_same R s' s'' \<Longrightarrow> other_same R s s''"
  by (simp add: other_same_def)

lemma same_but_other: "same_but R k s s' \<Longrightarrow> quota_key k \<Longrightarrow> other_same R s s'"
  unfolding same_but_def other_same_def by metis

lemma keeps_bind:
  assumes "keeps_other E m" "\<And>x. keeps_other E (f x)"
  shows "keeps_other E (bindS m f)"
  unfolding keeps_other_def
proof (intro allI impI)
  fix s
  assume inv: "quota_inv E s"
  obtain r s1 where m: "m s = (r, s1)" by fastforce
  have s1: "quota_inv E s1" "other_same (e_redis E) s s1"
    using assms(1) inv m by (auto simp: keeps_other_def dest!: spec [of _ s])
  show "quota_inv E (snd (bindS m f s)) \<and> other_same (e_redis E) s (snd (bindS m f s))"
  proof (cases r)
    case (Inl e)
    with s1 m show ?thesis by (simp add: bindS_def)
  next
    case (Inr x)
    then have "snd (bindS m f s) = snd (f x s1)" using m by (simp add: bindS_def)
    with assms(2) [of x] s1 other_same_trans show ?thesis unfolding keeps_other_def by metis
  qed
qed

lemma keeps_lift:
  assumes "\<And>x. r = Inr x \<Longrightarrow> keeps_other E (f x)"
  shows "keeps_other E (bindS (liftS r) f)"
  using assms by (cases r) (auto simp: keeps_other_def bindS_def)

lemma keeps_pure [simp]: "keeps_other E (retS x)" "keeps_other E (raiseS e)" "keeps_other E (liftS r)"
  by (simp_all add: keeps_other_def)

lemma keeps_counter:
  assumes "counter_law (e_redis E) d cmd" "quota_key k"
  shows "keeps_other E (cmd k)"
  unfolding keeps_other_def
proof (intro allI impI)
  fix s
  assume inv: "quota_inv E s"
  obtain s' where s': "cmd k s = (Inr (quota E s k + d), s')" "rget (e_redis E) s' k = Some (py_str (quota E s k + d))"
      "same_but (e_redis E) k s s'"
    using assms(1) [unfolded counter_law_def, rule_format, OF quota_inv_counter(1) [OF inv assms(2)]]
      quota_inv_counter(2) [OF inv assms(2)] by auto
  then show "quota_inv E (snd (cmd k s)) \<and> other_same (e_redis E) s (snd (cmd k s))"
    using quota_inv_update [OF inv s'(3)] same_but_other [OF s'(3) assms(2)] by auto
qed

lemma keeps_expire:
  assumes "redis_string_laws (e_redis E)" "quota_key k" "0 < t"
  shows "keeps_other E (rexpire (e_redis E) k t)"
  unfolding keeps_other_def
proof (intro allI impI)
  fix s
  assume inv: "quota_inv E s"
  obtain s' where s': "rexpire (e_redis E) k t s = (Inr (), s')" "rget (e_redis E) s' k = rget (e_redis E) s k"
      "same_but (e_redis E) k s s'" "rexists (e_redis E) s' k = rexists (e_redis E) s k"
    using redis_lawsD(4) [OF assms(1)] assms(3) unfolding expire_law_def by metis
  have "rget (e_redis E) s k = None \<and> \<not> rexists (e_redis E) s k \<or> (\<exists>n. rget (e_redis E) s k = Some (py_str n))"
    using inv assms(2) by (auto simp: quota_inv_def)
  with s' show "quota_inv E (snd (rexpire (e_redis E) k t s)) \<and> other_same (e_redis E) s (snd (rexpire (e_redis E) k t s))"
    using quota_inv_update [OF inv s'(3)] same_but_other [OF s'(3) assms(2)] by simp
qed

lemma keeps_set_nx:
  assumes "redis_string_laws (e_redis E)" "quota_key k" "0 < t"
  shows "keeps_other E (rset_nx_ex (e_redis E) k (py_str n) (JInt t))"
  unfolding keeps_other_def
proof (intro allI impI)
  fix s
  assume inv: "quota_inv E s"
  show "quota_inv E (snd (rset_nx_ex (e_redis E) k (py_str n) (JInt t) s)) \<and>
      other_same (e_redis E) s (snd (rset_nx_ex (e_redis E) k (py_str n) (JInt t) s))"
  proof (cases "rexists (e_redis E) s k")
    case True
    then have "rset_nx_ex (e_redis E) k (py_str n) (JInt t) s = (Inr False, s)"
      using redis_lawsD(1) [OF assms(1)] assms(3) unfolding set_nx_law_def by simp
    with inv show ?thesis by simp
  next
    case False
    then obtain s' where "rset_nx_ex (e_redis E) k (py_str n) (JInt t) s = (Inr True, s')"
        "rget (e_redis E) s' k = Some (py_str n)" "same_but (e_redis E) k s s'"
      using redis_lawsD(1) [OF assms(1)] assms(3) unfolding set_nx_law_def by meson
    then show ?thesis
      using quota_inv_update [OF inv] same_but_other assms(2) by (metis snd_conv)
  qed
qed

lemma keeps_delete:
  assumes "redis_string_laws (e_redis E)" "quota_key k"
  shows "keeps_other E (rdelete (e_redis E) k)"
  unfolding keeps_other_def
proof (intro allI impI)
  fix s
  assume inv: "quota_inv E s"
  obtain s' where "rdelete (e_redis E) k s = (Inr (), s')" "rget (e_redis E) s' k = None" "\<not> rexists (e_redis E) s' k"
      "same_but (e_redis E) k s s'"
    using redis_lawsD(5) [OF assms(1)] unfolding delete_law_def by metis
  then show "quota_inv E (snd (rdelete (e_redis E) k s)) \<and> other_same (e_redis E) s (snd (rdelete (e_redis E) k s))"
    using quota_inv_update [OF inv] same_but_other assms(2) by (metis snd_conv)
qed

lemma rate_limit_key_quota: "rate_limit_key E qid uid d = Inr key \<Longrightarrow> quota_key key"
  by (auto simp: rate_limit_key_def bindR_eq_Inr quota_key_def)

lemma cooldown_key_quota: "quota_key (cooldown_key E qid uid d)"
  by (auto simp: cooldown_key_def quota_key_def)

lemma keeps_rate_limit_reserve:
  assumes "redis_string_laws (e_redis E)" "rate_limit_config_ok d"
  shows "keeps_other E (rate_limit_reserve E qid uid d)"
proof -
  have "0 < period_duration (dget_or d ''period'' (JStr ''week''))"
    using assms(2) period_ok_duration by (simp add: rate_limit_config_ok_def)
  then show ?thesis
    unfolding rate_limit_reserve_def
    by (auto intro!: keeps_lift keeps_bind keeps_counter [OF redis_lawsD(2) [OF assms(1)]]
        keeps_counter [OF redis_lawsD(3) [OF assms(1)]] keeps_expire [OF assms(1)] rate_limit_key_quota)
qed

lemma keeps_cooldown_reserve:
  assumes "redis_string_laws (e_redis E)" "cooldown_config_ok d"
  shows "keeps_other E (cooldown_reserve E qid uid d)"
proof -
  obtain n where n: "dget d ''cooldown_seconds'' = JInt n" "0 < n"
    using assms(2) by (auto simp: cooldown_config_ok_def)
  have "keeps_other E (\<lambda>s. bindS (liftS (f s)) (\<lambda>x. raiseS (g x)) s)" for f :: "_ \<Rightarrow> 'b res" and g
    by (simp add: keeps_other_def bindS_def split: sum.splits)
  then show ?thesis
    unfolding cooldown_reserve_def Let_def n(1)
    by (auto intro!: keeps_lift keeps_bind keeps_set_nx [OF assms(1) cooldown_key_quota n(2)])
qed

lemma keeps_reserve:
  assumes "redis_string_laws (e_redis E)" "ty \<in> set STATEFUL_RULE_TYPES" "state_config_ok ty d"
  shows "keeps_other E (reserve E ty qid uid d)"
proof (cases "ty = ''rate_limit''")
  case True
  with assms(3) keeps_rate_limit_reserve [OF assms(1)] show ?thesis by (simp add: reserve_def state_config_ok_def)
next
  case False
  with assms(2,3) keeps_cooldown_reserve [OF assms(1)] show ?thesis
    by (simp add: reserve_def state_config_ok_def STATEFUL_RULE_TYPES_def)
qed

lemma keeps_rollback:
  assumes "redis_string_laws (e_redis E)" "reservation_wf r"
  shows "keeps_other E (rollback E (validator r) (token r))"
proof -
  have "quota_key (token r)"
    using assms(2) by (auto simp: reservation_wf_def namespace_of_def quota_key_def)
  then show ?thesis
    using keeps_counter [OF redis_lawsD(3) [OF assms(1)]] keeps_delete [OF assms(1)]
    by (auto simp: rollback_def rate_limit_rollback_def cooldown_rollback_def intro!: keeps_bind)
qed

lemma rollback_reservations_other:
  assumes "redis_string_laws (e_redis E)" "quota_inv E s" "list_all reservation_wf rs"
  shows "other_same (e_redis E) s (rollback_reservations E rs s)"
  using assms(2,3)
proof (induction rs arbitrary: s)
  case (Cons r rs)
  have "keeps_other E (rollback E (validator r) (token r))"
    using keeps_rollback [OF assms(1)] Cons.prems(2) by simp
  then have "quota_inv E (snd (rollback E (validator r) (token r) s))"
      "other_same (e_redis E) s (snd (rollback E (validator r) (token r) s))"
    using Cons.prems(1) by (auto simp: keeps_other_def)
  with Cons.IH Cons.prems(2) show ?case by (auto intro: other_same_trans)
qed simp

lemma reserve_loop_other:
  assumes "redis_string_laws (e_redis E)" "rules_state_ok rules" "quota_inv E s"
    "reserve_loop E qid uid rules acc s = (r, acc', s')"
  shows "other_same (e_redis E) s s'"
  using assms(2-4)
proof (induction rules arbitrary: acc s)
  case (Cons rule rules)
  have ok: "rules_state_ok rules" using Cons.prems(1) by (simp add: rules_state_ok_def)
  show ?case
  proof (cases "skips_reservation rule")
    case True
    with Cons.IH [OF ok Cons.prems(2)] Cons.prems(3) show ?thesis by simp
  next
    case False
    then obtain d where d: "config_or_empty (rule_config rule) = JDict d" "state_config_ok (rule_type rule) d"
      and ty: "rule_type rule \<in> set STATEFUL_RULE_TYPES"
      using Cons.prems(1) by (auto simp: rules_state_ok_def skips_reservation_def)
    obtain r1 s1 where r1: "reserve E (rule_type rule) qid uid d s = (r1, s1)" by fastforce
    have s1: "quota_inv E s1" "other_same (e_redis E) s s1"
      using keeps_reserve [OF assms(1) ty d(2)] Cons.prems(2) r1 unfolding keeps_other_def by (metis snd_conv)+
    have "\<exists>acc1. reserve_loop E qid uid rules acc1 s1 = (r, acc', s') \<or> s' = s1"
      using Cons.prems(3) False d(1) r1 by (auto split: sum.splits option.splits)
    with Cons.IH [OF ok s1(1)] s1(2) show ?thesis by (auto intro: other_same_trans)
  qed
qed simp

lemma reserve_other:
  assumes "redis_string_laws (e_redis E)" "rules_state_ok rules" "quota_inv E s"
    "reserve_stateful_rules E qid uid rules s = (r, s')"
  shows "other_same (e_redis E) s s'" and "quota_inv E s'"
proof -
  obtain r0 acc s1 where l: "reserve_loop E qid uid rules [] s = (r0, acc, s1)"
    by (metis prod_cases3)
  note u = reserve_loop_undo [OF assms(1-3) _ l, simplified]
  note o = reserve_loop_other [OF assms(1-3) l]
  note rb = rollback_reservations_other [OF assms(1), of s1 acc] rollback_reservations_quota [OF assms(1), of s1 acc]
  show "other_same (e_redis E) s s'" "quota_inv E s'"
    using assms(4) l u o rb other_same_trans [OF o]
    by (auto simp: reserve_stateful_rules_def split: sum.splits)
qed

section \<open>Task keys are not quota keys\<close>

lemma task_key_not_quota [simp]: "\<not> quota_key (task_key h)"
proof -
  have "hash_name QUEUE_REQUEST_HANDLER_TASK x \<noteq> hash_name QUEUE_RULE_RATE_LIMIT y"
    "hash_name QUEUE_REQUEST_HANDLER_TASK x \<noteq> hash_name QUEUE_RULE_COOLDOWN y" for x y
    by (rule hash_name_ns_inj;
        simp add: QUEUE_REQUEST_HANDLER_TASK_def QUEUE_RULE_RATE_LIMIT_def QUEUE_RULE_COOLDOWN_def)+
  then show ?thesis by (auto simp: quota_key_def task_key_def)
qed

lemma task_key_inj [simp]: "task_key a = task_key b \<longleftrightarrow> a = b"
  by (simp add: task_key_def)

text \<open>Counters agree on every quota key.\<close>

definition quotas_same :: "'r env \<Rightarrow> 'r \<Rightarrow> 'r \<Rightarrow> bool" where
  "quotas_same E s s' \<longleftrightarrow> (\<forall>k. quota_key k \<longrightarrow> quota E s' k = quota E s k)"

lemma quotas_same_refl [simp]: "quotas_same E s s"
  by (simp add: quotas_same_def)

lemma quotas_same_trans: "quotas_same E s s' \<Longrightarrow> quotas_same E s' s'' \<Longrightarrow> quotas_same E s s''"
  by (simp add: quotas_same_def)

lemma task_write:
  assumes "same_but (e_redis E) (task_key h) s s'" "quota_inv E s"
  shows "quota_inv E s'" and "quotas_same E s s'"
proof -
  have "rget (e_redis E) s' k = rget (e_redis E) s k \<and> rexists (e_redis E) s' k = rexists (e_redis E) s k"
    if "quota_key k" for k
    using assms(1) that task_key_not_quota unfolding same_but_def by metis
  with assms(2) show "quota_inv E s'" "quotas_same E s s'"
    by (simp_all add: quota_inv_def quotas_same_def quota_def counter_at_def)
qed

lemma same_all_write:
  assumes "same_all (e_redis E) s s'"
  shows "quota_inv E s \<Longrightarrow> quota_inv E s'" and "quotas_same E s s'"
  using assms by (simp_all add: same_all_def quota_inv_def quotas_same_def quota_def counter_at_def)

lemma fold_undo1_pointwise: "v k = w k \<Longrightarrow> fold undo1 rs v k = fold undo1 rs w k"
proof (induction rs arbitrary: v w)
  case (Cons r rs)
  have "undo1 r v k = undo1 r w k" using Cons.prems by (auto simp: undo1_def)
  then show ?case by (simp add: Cons.IH [of "undo1 r v" "undo1 r w"])
qed simp

section \<open>Submissions that raise\<close>

text \<open>The laws of the two kinds of commands together.\<close>

definition app_ok :: "'r app \<Rightarrow> bool" where
  "app_ok A \<longleftrightarrow> redis_string_laws (R_of A) \<and> redis_hash_laws (R_of A)"

text \<open>A step that consumes nothing and stores nothing.\<close>

definition quiet :: "'r app \<Rightarrow> 'r sys \<Rightarrow> 'r sys \<Rightarrow> bool" where
  "quiet A s s' \<longleftrightarrow>
     quota_inv (a_env A) (sys_redis s') \<and> quotas_same (a_env A) (sys_redis s) (sys_redis s') \<and>
     sys_requests s' = sys_requests s \<and> sys_next s' = sys_next s \<and> sys_rules s' = sys_rules s"

lemma quiet_refl: "quota_inv (a_env A) (sys_redis s) \<Longrightarrow> quiet A s s"
  by (simp add: quiet_def)

lemma quiet_trans: "quiet A s s' \<Longrightarrow> quiet A s' s'' \<Longrightarrow> quiet A s s''"
  using quotas_same_trans by (auto simp: quiet_def)

lemma hset_same_but: "app_ok A \<Longrightarrow> rhset (R_of A) k new r = (x, r') \<Longrightarrow> same_but (R_of A) k r r'"
  by (simp add: app_ok_def redis_hash_laws_def hset_law_def)

lemma hset_stored:
  "app_ok A \<Longrightarrow> rhset (R_of A) k new r = (Inr (), r') \<Longrightarrow> new \<noteq> [] \<Longrightarrow>
   rexists (R_of A) r' k \<and> map_of (rhgetall (R_of A) r' k) = map_of (rhgetall (R_of A) r k) ++ map_of new"
  unfolding app_ok_def redis_hash_laws_def hset_law_def by blast

lemma publish_same: "app_ok A \<Longrightarrow> rpublish (R_of A) ch m r = (x, r') \<Longrightarrow> same_all (R_of A) r r'"
  unfolding app_ok_def redis_hash_laws_def publish_law_def by blast

lemma delete_same_but:
  assumes "app_ok A" "rdelete (R_of A) k r = (x, r')"
  shows "same_but (R_of A) k r r' \<and> \<not> rexists (R_of A) r' k"
proof -
  have "delete_law (R_of A)" using assms(1) by (auto simp: app_ok_def intro: redis_lawsD(5))
  then show ?thesis using assms(2) unfolding delete_law_def by (metis prod.inject)
qed

lemma quiet_task_write:
  assumes "quota_inv (a_env A) (sys_redis s)" "same_but (R_of A) (task_key h) (sys_redis s) r'"
  shows "quiet A s (s\<lparr>sys_redis := r'\<rparr>)"
  using task_write [OF assms(2,1)] by (simp add: quiet_def)

lemma clear_failed_task_quiet:
  assumes "app_ok A" "quota_inv (a_env A) (sys_redis s)" "clear_failed_task A (task_key h) s = (x, s')"
  shows "quiet A s s'"
proof -
  have "s' = s \<or> (\<exists>y r'. rdelete (R_of A) (task_key h) (sys_redis s) = (y, r') \<and> s' = s\<lparr>sys_redis := r'\<rparr>)"
    using assms(3) by (auto simp: clear_failed_task_def bindS_def on_redis_def split: sum.splits if_splits prod.splits)
  then show ?thesis
    using quiet_refl [OF assms(2)] quiet_task_write [OF assms(2)] delete_same_but [OF assms(1)] by blast
qed

lemma enqueue_writes:
  assumes "app_ok A" "quota_inv (a_env A) (sys_redis s)"
    and "bindS (on_redis (rhset (R_of A) (task_key h) new)) (\<lambda>_. on_redis (rpublish (R_of A) ch m)) s = (x, s')"
  shows "quiet A s s'"
proof -
  obtain x1 r1 where r1: "rhset (R_of A) (task_key h) new (sys_redis s) = (x1, r1)" by fastforce
  note q1 = quiet_task_write [OF assms(2) hset_same_but [OF assms(1) r1]]
  show ?thesis
  proof (cases x1)
    case (Inl e)
    then show ?thesis using assms(3) r1 q1 by (simp add: bindS_def on_redis_def)
  next
    case (Inr u)
    obtain x2 r2 where r2: "rpublish (R_of A) ch m r1 = (x2, r2)" by fastforce
    have "s' = s\<lparr>sys_redis := r2\<rparr>"
      using assms(3) r1 r2 Inr by (simp add: bindS_def on_redis_def)
    then show ?thesis
      using q1 same_all_write [OF publish_same [OF assms(1) r2]] quotas_same_trans by (auto simp: quiet_def)
  qed
qed

text \<open>Rolling back from any state whose counters are those the reservations left.\<close>

lemma rollback_after_writes:
  assumes "redis_string_laws (e_redis E)" "rules_state_ok rules" "quota_inv E r"
    and "reserve_stateful_rules E qid uid rules r = (Inr rs, r1)" "quota_inv E r2" "quotas_same E r1 r2"
  shows "quota_inv E (rollback_reservations E rs r2)" and "quotas_same E r (rollback_reservations E rs r2)"
proof -
  have l: "reserve_loop E qid uid rules [] r = (Inr (), rs, r1)"
    using assms(4) by (auto simp: reserve_stateful_rules_def split: sum.splits prod.splits)
  note u = reserve_loop_undo [OF assms(1-3) _ l, simplified]
  note rb = rollback_reservations_quota [OF assms(1,5), of rs]
  show "quota_inv E (rollback_reservations E rs r2)" using u rb by blast
  have "fold undo1 rs (quota E r2) k = quota E r k" if "quota_key k" for k
    using fold_undo1_pointwise [of "quota E r2" k "quota E r1" rs] assms(6) that u by (simp add: quotas_same_def)
  then show "quotas_same E r (rollback_reservations E rs r2)"
    using u rb by (simp add: quotas_same_def)
qed

lemma reserve_enqueue_quiet:
  assumes ok: "app_ok A" and st: "rules_state_ok rules" and inv: "quota_inv (a_env A) (sys_redis s)"
    and run: "bindS (on_redis (reserve_stateful_rules (a_env A) qid uid rules)) (enqueue_task A task) s = (Inl e, s')"
  shows "quiet A s s'"
proof -
  have laws: "redis_string_laws (R_of A)" using ok by (simp add: app_ok_def)
  obtain x r1 where r1: "reserve_stateful_rules (a_env A) qid uid rules (sys_redis s) = (x, r1)" by fastforce
  show ?thesis
  proof (cases x)
    case (Inl e')
    then have "s' = s\<lparr>sys_redis := r1\<rparr>" using run r1 by (simp add: bindS_def on_redis_def)
    then show ?thesis
      using reserve_all_or_nothing [OF laws st inv r1 [unfolded Inl]] by (simp add: quiet_def quotas_same_def)
  next
    case (Inr rs)
    let ?s1 = "s\<lparr>sys_redis := r1\<rparr>"
    obtain y s2 where s2: "bindS (on_redis (rhset (R_of A) (task_key (handler_hashed_id task)) (handler_serialize task))) (\<lambda>_.
        on_redis (rpublish (R_of A) QUEUE_REQUEST_HANDLER_TASKS (py_str (handler_hashed_id task)))) ?s1 = (y, s2)"
      by fastforce
    have inv1: "quota_inv (a_env A) (sys_redis ?s1)"
      using reserve_other(2) [OF laws st inv r1] by simp
    note q = enqueue_writes [OF ok inv1 s2]
    have "enqueue_task A task rs ?s1 = (Inl e, s')"
      using run r1 Inr by (simp add: bindS_def on_redis_def)
    then have "y = Inl e" "s' = s2\<lparr>sys_redis := rollback_reservations (a_env A) rs (sys_redis s2)\<rparr>"
      using s2 by (auto simp: enqueue_task_def split: sum.splits)
    then show ?thesis
      using q rollback_after_writes [OF laws st inv r1 [unfolded Inr], of "sys_redis s2"]
      by (auto simp: quiet_def)
  qed
qed

section \<open>The stages of a submission\<close>

text \<open>What holds when a submission gets as far as the reservations, and its tail from there.\<close>

definition admitted :: "'r app \<Rightarrow> int option \<Rightarrow> request_body \<Rightarrow> 'r sys \<Rightarrow> int \<Rightarrow> beatmapset \<Rightarrow> bool" where
  "admitted A caller body s uid bms \<longleftrightarrow>
     (\<exists>queue. a_queues A (rb_queue_id body) = Some queue \<and> q_is_open queue \<and>
        requesting_user A queue caller (rb_user_id body) = Inr uid) \<and>
     \<not> has_request (sys_requests s) (rb_beatmapset_id body) (rb_queue_id body) \<and>
     a_get_beatmapset A (rb_beatmapset_id body) = Inr bms \<and> beatmapset.status bms \<notin> set RANKED_STATUSES \<and>
     fst (phase1_run (a_registry A) (world_of A (sys_redis s)) (get_rules (sys_rules s) (rb_queue_id body) True)
            (request_context (rb_queue_id body) uid bms)) = Inr ()"

lemma requests_post_cases:
  assumes "requests_post A caller http_id body s = (x, s')"
  obtains (refused) e where "x = Inl e" "s' = s"
  | (pending) uid bms e s1 where "admitted A caller body s uid bms"
      "clear_failed_task A (task_key (handler_hashed_id (task_of body uid http_id))) s = (Inl e, s1)" "x = Inl e" "s' = s1"
  | (tail) uid bms s1 where "admitted A caller body s uid bms"
      "clear_failed_task A (task_key (handler_hashed_id (task_of body uid http_id))) s = (Inr (), s1)"
      "bindS (on_redis (reserve_stateful_rules (a_env A) (rb_queue_id body) uid (get_rules (sys_rules s) (rb_queue_id body) True)))
        (enqueue_task A (task_of body uid http_id)) s1 = (x, s')"
proof -
  let ?qid = "rb_queue_id body" and ?bid = "rb_beatmapset_id body"
  show ?thesis
  proof (cases "\<exists>uid bms. admitted A caller body s uid bms")
    case True
    then obtain uid bms where adm: "admitted A caller body s uid bms" by blast
    then obtain queue c where q: "a_queues A ?qid = Some queue" "q_is_open queue"
        "requesting_user A queue caller (rb_user_id body) = Inr uid"
      and p1: "phase1_run (a_registry A) (world_of A (sys_redis s)) (get_rules (sys_rules s) ?qid True)
         (request_context ?qid uid bms) = (Inr (), c)"
      unfolding admitted_def by (metis prod.collapse)
    have post: "requests_post A caller http_id body s =
        bindS (clear_failed_task A (task_key (handler_hashed_id (task_of body uid http_id)))) (\<lambda>_.
        bindS (on_redis (reserve_stateful_rules (a_env A) ?qid uid (get_rules (sys_rules s) ?qid True)))
          (enqueue_task A (task_of body uid http_id))) s"
      using adm q p1
      by (simp add: requests_post_def admitted_def bindS_def [of "liftS r" for r] run_phase1_checks_def
          bindS_def [of "\<lambda>s. run_phase1_checks A a b c s" for a b c] bindS_Inr Let_def)
    obtain y s1 where "clear_failed_task A (task_key (handler_hashed_id (task_of body uid http_id))) s = (y, s1)"
      by fastforce
    with post assms adm pending tail show ?thesis
      by (cases y) (auto simp: bindS_def)
  next
    case False
    then have "\<exists>e. x = Inl e \<and> s' = s"
      using assms
      by (auto simp: requests_post_def admitted_def bindS_def run_phase1_checks_def Let_def
          split: option.splits if_splits sum.splits prod.splits) metis
    then show ?thesis using refused by blast
  qed
qed

lemma post_raise_quiet:
  assumes ok: "app_ok A" and st: "rules_state_ok (get_rules (sys_rules s) (rb_queue_id body) True)"
    and inv: "quota_inv (a_env A) (sys_redis s)" and post: "requests_post A caller http_id body s = (Inl e, s')"
  shows "quiet A s s'"
  using post
proof (cases rule: requests_post_cases)
  case refused
  with inv show ?thesis by (simp add: quiet_refl)
next
  case (pending uid bms e s1)
  with clear_failed_task_quiet [OF ok inv] show ?thesis by blast
next
  case (tail uid bms s1)
  note q1 = clear_failed_task_quiet [OF ok inv tail(2)]
  then have "quota_inv (a_env A) (sys_redis s1)" by (simp add: quiet_def)
  from reserve_enqueue_quiet [OF ok st this tail(3)] q1 show ?thesis by (rule quiet_trans [rotated])
qed

section \<open>Accepted submissions\<close>

lemma clear_failed_task_absent:
  assumes "app_ok A" "clear_failed_task A (task_key h) s = (Inr (), s1)"
  shows "\<not> rexists (R_of A) (sys_redis s1) (task_key h)"
    and "\<not> rexists (R_of A) (sys_redis s) (task_key h) \<or>
      (\<exists>t. handler_deserialize (a_lit A) (rhgetall (R_of A) (sys_redis s) (task_key h)) = Inr t \<and> ht_failed_at t \<noteq> None)"
proof -
  have "\<not> rexists (R_of A) (sys_redis s) (task_key h) \<and> s1 = s \<or>
      (\<exists>t r'. handler_deserialize (a_lit A) (rhgetall (R_of A) (sys_redis s) (task_key h)) = Inr t \<and> ht_failed_at t \<noteq> None \<and>
         rdelete (R_of A) (task_key h) (sys_redis s) = (Inr (), r') \<and> s1 = s\<lparr>sys_redis := r'\<rparr>)"
    using assms(2)
    by (auto simp: clear_failed_task_def bindS_def on_redis_def split: sum.splits if_splits prod.splits)
  then show "\<not> rexists (R_of A) (sys_redis s1) (task_key h)"
    "\<not> rexists (R_of A) (sys_redis s) (task_key h) \<or>
      (\<exists>t. handler_deserialize (a_lit A) (rhgetall (R_of A) (sys_redis s) (task_key h)) = Inr t \<and> ht_failed_at t \<noteq> None)"
    using delete_same_but [OF assms(1)] by fastforce+
qed

lemma hash_distinct: "app_ok A \<Longrightarrow> distinct (map fst (rhgetall (R_of A) r k))"
  by (simp add: app_ok_def redis_hash_laws_def)

lemma hash_absent: "app_ok A \<Longrightarrow> \<not> rexists (R_of A) r k \<Longrightarrow> rhgetall (R_of A) r k = []"
  by (simp add: app_ok_def redis_hash_laws_def)

lemma enqueue_stores:
  assumes "app_ok A" "enqueue_task A task rs s = (Inr h, t')"
  shows "h = handler_hashed_id task \<and> rexists (R_of A) (sys_redis t') (task_key h) \<and>
     map_of (rhgetall (R_of A) (sys_redis t') (task_key h)) =
       map_of (rhgetall (R_of A) (sys_redis s) (task_key h)) ++ map_of (handler_serialize task) \<and>
     (\<forall>k. k \<noteq> task_key h \<longrightarrow> rhgetall (R_of A) (sys_redis t') k = rhgetall (R_of A) (sys_redis s) k)"
proof -
  obtain s' where b: "bindS (on_redis (rhset (R_of A) (task_key (handler_hashed_id task)) (handler_serialize task))) (\<lambda>_.
      on_redis (rpublish (R_of A) QUEUE_REQUEST_HANDLER_TASKS (py_str (handler_hashed_id task)))) s = (Inr (), s')"
    and h: "h = handler_hashed_id task" and t: "s' = t'"
    using assms(2) by (auto simp: enqueue_task_def split: sum.splits prod.splits)
  obtain r1 r2 where r1: "rhset (R_of A) (task_key h) (handler_serialize task) (sys_redis s) = (Inr (), r1)"
    and r2: "rpublish (R_of A) QUEUE_REQUEST_HANDLER_TASKS (py_str h) r1 = (Inr (), r2)" and s': "t' = s\<lparr>sys_redis := r2\<rparr>"
    using b unfolding bindS_eq_Inr on_redis_def h t by (auto split: prod.splits)
  have "handler_serialize task \<noteq> []" by (simp add: handler_serialize_def handler_fields_def)
  note stored = hset_stored [OF assms(1) r1 this]
  have same: "rhgetall (R_of A) r2 = rhgetall (R_of A) r1" "rexists (R_of A) r2 = rexists (R_of A) r1"
    using publish_same [OF assms(1) r2] by (simp_all add: same_all_def)
  have "\<forall>k. k \<noteq> task_key h \<longrightarrow> rhgetall (R_of A) r1 k = rhgetall (R_of A) (sys_redis s) k"
    using hset_same_but [OF assms(1) r1] by (simp add: same_but_def)
  with stored show ?thesis by (simp add: same s' h)
qed

lemma post_accepted:
  assumes ok: "app_ok A" and lit: "bool_reader (a_lit A)"
    and st: "rules_state_ok (get_rules (sys_rules s) (rb_queue_id body) True)"
    and inv: "quota_inv (a_env A) (sys_redis s)" and post: "requests_post A caller http_id body s = (Inr h, s')"
  shows "\<exists>uid bms. admitted A caller body s uid bms \<and> h = handler_hashed_id (task_of body uid http_id) \<and>
     handler_deserialize (a_lit A) (rhgetall (R_of A) (sys_redis s') (task_key h)) = Inr (task_of body uid http_id) \<and>
     (\<not> rexists (R_of A) (sys_redis s) (task_key h) \<or>
      (\<exists>t. handler_deserialize (a_lit A) (rhgetall (R_of A) (sys_redis s) (task_key h)) = Inr t \<and> ht_failed_at t \<noteq> None))"
  using post
proof (cases rule: requests_post_cases)
  case (tail uid bms s1)
  let ?task = "task_of body uid http_id"
  have laws: "redis_string_laws (R_of A)" using ok by (simp add: app_ok_def)
  obtain rs r1 where r1: "reserve_stateful_rules (a_env A) (rb_queue_id body) uid
        (get_rules (sys_rules s) (rb_queue_id body) True) (sys_redis s1) = (Inr rs, r1)"
      and e: "enqueue_task A ?task rs (s1\<lparr>sys_redis := r1\<rparr>) = (Inr h, s')"
    using tail(3) by (auto simp: bindS_def on_redis_def split: sum.splits prod.splits)
  note st_h = enqueue_stores [OF ok e]
  have h: "h = handler_hashed_id ?task" using st_h by blast
  have inv1: "quota_inv (a_env A) (sys_redis s1)"
    using clear_failed_task_quiet [OF ok inv tail(2)] by (simp add: quiet_def)
  have "\<not> rexists (R_of A) (sys_redis s1) (task_key h)"
    using clear_failed_task_absent(1) [OF ok tail(2)] h by simp
  then have "rhgetall (R_of A) r1 (task_key h) = []"
    using reserve_other(1) [OF laws st inv1 r1] hash_absent [OF ok] by (simp add: other_same_def)
  moreover have "map_of (rhgetall (R_of A) (sys_redis s') (task_key h)) =
      map_of (rhgetall (R_of A) r1 (task_key h)) ++ map_of (handler_serialize ?task)"
    using st_h by (elim conjE) simp
  ultimately have "map_of (rhgetall (R_of A) (sys_redis s') (task_key h)) = map_of (handler_serialize ?task)"
    by simp
  then have "handler_deserialize (a_lit A) (rhgetall (R_of A) (sys_redis s') (task_key h)) = Inr ?task"
    by (intro bool_reader.handler_decodes [OF lit _ hash_distinct [OF ok]])
      (simp_all add: handler_storable_def task_of_def storable_time_def)
  with tail(1) h clear_failed_task_absent(2) [OF ok tail(2)] show ?thesis by blast
qed simp_all

end
