(* ===== verification/Flow_Steps.thy ===== *)
theory Flow_Steps
  imports Flow_Frame
begin

text \<open>
  The endpoints and daemons as steps of one system, in any order, and the invariant of the states
  they reach: at most one request per beatmapset and queue, unique identifiers, well-formed rules,
  and integer counters. The hypotheses of the earlier theorems follow from it.
\<close>

section \<open>Steps\<close>

inductive flow_step :: "'r app \<Rightarrow> 'r sys \<Rightarrow> 'r sys \<Rightarrow> bool" for A :: "'r app" where
  submit: "flow_step A s (snd (requests_post A caller http_id body s))"
| handle: "flow_step A s (snd (handler_execute_job A now h s))"
| validate: "flow_step A s (snd (validation_execute_job A now sched h s))"
| patch: "flow_step A s (snd (requests_patch rid patch_body s))"
| delete: "flow_step A s (snd (requests_delete A rid s))"
| restart: "flow_step A s (snd (cleanup_stale_tasks A hids s))"
| rules: "rules_step (a_parse A) (a_registry A) (e_float_repr (a_env A)) (sys_rules s) db \<Longrightarrow>
    flow_step A s (s\<lparr>sys_rules := db\<rparr>)"

inductive_cases flow_stepE: "flow_step A s s'"

definition flow_init :: "'r app \<Rightarrow> 'r sys \<Rightarrow> bool" where
  "flow_init A s \<longleftrightarrow> quota_inv (a_env A) (sys_redis s) \<and> sys_requests s = [] \<and> sys_rules s = empty_db"

definition flow_reachable :: "'r app \<Rightarrow> 'r sys \<Rightarrow> bool" where
  "flow_reachable A s \<longleftrightarrow> (\<exists>s0. flow_init A s0 \<and> (flow_step A)\<^sup>*\<^sup>* s0 s)"

lemma step_reachable: "flow_reachable A s \<Longrightarrow> flow_step A s s' \<Longrightarrow> flow_reachable A s'"
  unfolding flow_reachable_def by (meson rtranclp.rtrancl_into_rtrancl)

section \<open>The invariant\<close>

definition requests_inv :: "request_row list \<Rightarrow> int \<Rightarrow> bool" where
  "requests_inv rows nxt \<longleftrightarrow>
     distinct (map rq_id rows) \<and> (\<forall>r \<in> set rows. rq_id r < nxt) \<and>
     distinct (map (\<lambda>r. (rq_beatmapset_id r, rq_queue_id r)) rows)"

definition flow_inv :: "'r app \<Rightarrow> 'r sys \<Rightarrow> bool" where
  "flow_inv A s \<longleftrightarrow>
     quota_inv (a_env A) (sys_redis s) \<and> requests_inv (sys_requests s) (sys_next s) \<and>
     store_inv (a_parse A) (a_registry A) (e_float_repr (a_env A)) (sys_rules s)"

lemma requests_inv_map:
  "(\<And>r. rq_id (f r) = rq_id r \<and> rq_beatmapset_id (f r) = rq_beatmapset_id r \<and> rq_queue_id (f r) = rq_queue_id r) \<Longrightarrow>
   requests_inv rows nxt \<Longrightarrow> requests_inv (map f rows) nxt"
  by (simp add: requests_inv_def comp_def)

lemma requests_inv_filter: "requests_inv rows nxt \<Longrightarrow> requests_inv (filter P rows) nxt"
  by (auto simp: requests_inv_def distinct_map_filter)

lemma requests_inv_snoc:
  assumes "requests_inv rows nxt" "\<not> has_request rows (rq_beatmapset_id r) (rq_queue_id r)" "rq_id r = nxt"
  shows "requests_inv (rows @ [r]) (nxt + 1)"
  using assms by (auto simp: requests_inv_def has_request_def)

text \<open>Steps that write hashes of tasks only.\<close>

definition redis_step :: "'r app \<Rightarrow> 'r sys \<Rightarrow> 'r sys \<Rightarrow> bool" where
  "redis_step A s s' \<longleftrightarrow> (quota_inv (a_env A) (sys_redis s) \<longrightarrow> quota_inv (a_env A) (sys_redis s')) \<and>
     (\<exists>r. s' = s\<lparr>sys_redis := r\<rparr>)"

lemma redis_step_inv: "redis_step A s s' \<Longrightarrow> flow_inv A s \<Longrightarrow> flow_inv A s'"
  by (auto simp: redis_step_def flow_inv_def)

lemma redis_step_hset: "app_ok A \<Longrightarrow> redis_step A s (snd (on_redis (rhset (R_of A) (task_key h) new) s))"
  using task_write(1) hset_same_but by (fastforce simp: redis_step_def on_redis_def split: prod.splits)

lemma redis_step_publish: "app_ok A \<Longrightarrow> redis_step A s (snd (on_redis (rpublish (R_of A) ch m) s))"
  using same_all_write(1) publish_same by (fastforce simp: redis_step_def on_redis_def split: prod.splits)

lemma redis_step_delete: "app_ok A \<Longrightarrow> redis_step A s (snd (on_redis (rdelete (R_of A) (task_key h)) s))"
  using task_write(1) delete_same_but by (fastforce simp: redis_step_def on_redis_def split: prod.splits)

lemmas task_write_inv = redis_step_inv [OF redis_step_hset] redis_step_inv [OF redis_step_publish]
  redis_step_inv [OF redis_step_delete]

lemma bindS_flow_inv:
  assumes "flow_inv A s" "\<And>s. flow_inv A s \<Longrightarrow> flow_inv A (snd (m s))" "\<And>x s. flow_inv A s \<Longrightarrow> flow_inv A (snd (f x s))"
  shows "flow_inv A (snd (bindS m f s))"
  using bindS_invariant [where P = "flow_inv A", OF assms] .

lemma mark_failed_inv:
  assumes "app_ok A" "flow_inv A s" "flow_inv A (snd (m s))"
  shows "flow_inv A (snd (mark_failed A (task_key h) now m s))"
proof -
  obtain x s1 where m: "m s = (x, s1)" by fastforce
  show ?thesis
  proof (cases x)
    case (Inl e)
    have "flow_inv A (snd (bindS (on_redis (rhset (R_of A) (task_key h) [(''failed_at'', isoformat now)])) (\<lambda>_. raiseS e) s1))"
      using assms m by (intro bindS_flow_inv) (auto intro: task_write_inv)
    then show ?thesis using m Inl by (simp add: mark_failed_def)
  next
    case (Inr y)
    then show ?thesis using assms m by (simp add: mark_failed_def)
  qed
qed

text \<open>The three ways a row is added: found, refused, inserted.\<close>

definition row_of :: "handler_task \<Rightarrow> int \<Rightarrow> int \<Rightarrow> request_row" where
  "row_of t rid snapshot =
     \<lparr>rq_id = rid, rq_user_id = ht_user_id t, rq_beatmapset_id = ht_beatmapset_id t, rq_queue_id = ht_queue_id t,
      rq_snapshot_id = snapshot, rq_comment = ht_comment t, rq_mv_checked = ht_mv_checked t, rq_status = PENDING,
      rq_rejection_reason = None\<rparr>"

lemma add_request_cases:
  assumes "add_request A t s = (x, s')"
  obtains (resolved) r where "r \<in> set (sys_requests s)" "rq_beatmapset_id r = ht_beatmapset_id t" "rq_queue_id r = ht_queue_id t"
      "x = Inr (rq_id r)" "s' = s"
  | (refused) e where "x = Inl e" "s' = s"
  | (inserted) snapshot where "\<not> has_request (sys_requests s) (ht_beatmapset_id t) (ht_queue_id t)"
      "a_latest_snapshot A (ht_beatmapset_id t) = Some snapshot" "x = Inr (sys_next s)"
      "s' = s\<lparr>sys_requests := sys_requests s @ [row_of t (sys_next s) snapshot], sys_next := sys_next s + 1\<rparr>"
proof (cases "find (\<lambda>r. rq_beatmapset_id r = ht_beatmapset_id t \<and> rq_queue_id r = ht_queue_id t) (sys_requests s)")
  case None
  then have nh: "\<not> has_request (sys_requests s) (ht_beatmapset_id t) (ht_queue_id t)"
    by (auto simp: find_None_iff has_request_def)
  note add = add_request_def [of A t s, unfolded None option.case]
  show ?thesis
  proof (cases "a_latest_snapshot A (ht_beatmapset_id t)")
    case None
    then have "add_request A t s = (Inl (PyExc ''ValueError''), s)"
      unfolding add by (simp add: request_before_insert_def bindS_def)
    with assms refused [of "PyExc ''ValueError''"] show ?thesis by simp
  next
    case (Some snapshot)
    show ?thesis
    proof (cases "\<not> a_users A (ht_user_id t) \<or> a_queues A (ht_queue_id t) = None")
      case True
      with Some have "add_request A t s = (Inl (PyExc ''IntegrityError''), s)"
        unfolding add by (simp add: request_before_insert_def bindS_def)
      with assms refused [of "PyExc ''IntegrityError''"] show ?thesis by simp
    next
      case False
      with Some have "add_request A t s = (Inr (sys_next s),
          s\<lparr>sys_requests := sys_requests s @ [row_of t (sys_next s) snapshot], sys_next := sys_next s + 1\<rparr>)"
        unfolding add by (simp add: request_before_insert_def bindS_def row_of_def)
      with assms inserted [OF nh Some] show ?thesis by simp
    qed
  qed
next
  case (Some r)
  then have r: "r \<in> set (sys_requests s)" "rq_beatmapset_id r = ht_beatmapset_id t" "rq_queue_id r = ht_queue_id t"
    by (auto simp: find_Some_iff)
  have "(x, s') = (Inr (rq_id r), s)"
    unfolding assms [symmetric] add_request_def Some by simp
  then show ?thesis by (intro resolved [OF r]) simp_all
qed

lemma add_request_inv:
  assumes "flow_inv A s"
  shows "flow_inv A (snd (add_request A t s))"
proof -
  obtain x s' where "add_request A t s = (x, s')" by fastforce
  then show ?thesis
  proof (cases rule: add_request_cases)
    case (inserted snapshot)
    with assms show ?thesis
      using \<open>add_request A t s = (x, s')\<close> requests_inv_snoc [of "sys_requests s" "sys_next s" "row_of t (sys_next s) snapshot"]
      by (simp add: flow_inv_def row_of_def)
  qed (use assms \<open>add_request A t s = (x, s')\<close> in simp_all)
qed

lemma dispatch_inv:
  assumes "app_ok A" "flow_inv A s"
  shows "flow_inv A (snd (dispatch_validation_task A rid qid bid http_id s))"
  unfolding dispatch_validation_task_def Let_def
  using assms by (intro bindS_flow_inv) (auto intro: task_write_inv)

lemma handle_record_inv:
  assumes "app_ok A" "flow_inv A s"
  shows "flow_inv A (snd (handle_record A (task_key h) now t s))"
  unfolding handle_record_def
  using assms by (intro bindS_flow_inv) (auto intro: add_request_inv dispatch_inv task_write_inv)

lemma handler_job_inv:
  assumes "app_ok A" "flow_inv A s"
  shows "flow_inv A (snd (handler_execute_job A now h s))"
  unfolding handler_execute_job_def
proof (rule mark_failed_inv [OF assms])
  show "flow_inv A (snd (let serialized = rhgetall (R_of A) (sys_redis s) (task_key h) in
      if serialized = [] then (Inl (PyExc ''ValueError''), s)
      else bindS (liftS (handler_deserialize (a_lit A) serialized)) (handle_record A (task_key h) now) s))"
    using assms handle_record_inv [OF assms(1)] by (auto simp: Let_def intro!: bindS_flow_inv)
qed

lemma update_request_inv:
  "(\<And>r. rq_id (f r) = rq_id r \<and> rq_beatmapset_id (f r) = rq_beatmapset_id r \<and> rq_queue_id (f r) = rq_queue_id r) \<Longrightarrow>
   flow_inv A s \<Longrightarrow> flow_inv A (update_request rid f s)"
  by (auto simp: update_request_def flow_inv_def intro!: requests_inv_map)

lemma run_validation_inv: "flow_inv A s \<Longrightarrow> flow_inv A (snd (run_validation A sched t s))"
  by (auto simp: run_validation_def bindS_def Let_def rejected_by_def intro!: update_request_inv
      split: sum.splits option.splits)

lemma validation_job_inv:
  assumes "app_ok A" "flow_inv A s"
  shows "flow_inv A (snd (validation_execute_job A now sched h s))"
  unfolding validation_execute_job_def
proof (rule mark_failed_inv [OF assms])
  show "flow_inv A (snd (let serialized = rhgetall (R_of A) (sys_redis s) (task_key h) in
      if serialized = [] then (Inl (PyExc ''ValueError''), s)
      else bindS (liftS (validation_deserialize serialized)) (\<lambda>task. bindS (run_validation A sched task) (\<lambda>_.
        on_redis (rhset (R_of A) (task_key h) [(''completed_at'', isoformat now)]))) s))"
    using assms by (auto simp: Let_def intro!: bindS_flow_inv intro: run_validation_inv task_write_inv)
qed

lemma patch_inv: "flow_inv A s \<Longrightarrow> flow_inv A (snd (requests_patch rid body s))"
  by (auto simp: requests_patch_def bindS_def intro!: update_request_inv split: sum.splits option.splits json.splits)

lemma delete_inv:
  assumes "app_ok A" "flow_inv A s"
  shows "flow_inv A (snd (requests_delete A rid s))"
proof (cases "find (\<lambda>r. rq_id r = rid) (sys_requests s)")
  case None
  with assms(2) show ?thesis by (simp add: requests_delete_def)
next
  case (Some request)
  have "flow_inv A (s\<lparr>sys_requests := filter P (sys_requests s)\<rparr>)" if "flow_inv A s" for P and s :: "'a sys"
    using that by (auto simp: flow_inv_def intro: requests_inv_filter)
  with Some assms show ?thesis
    by (auto simp: requests_delete_def intro!: bindS_flow_inv intro: task_write_inv)
qed

lemma cleanup_inv:
  assumes "app_ok A" "flow_inv A s"
  shows "flow_inv A (snd (cleanup_stale_tasks A hids s))"
  using assms(2)
proof (induction hids arbitrary: s)
  case (Cons hid hids)
  have "flow_inv A (snd (bindS (cleanup_stale_tasks A hids) (\<lambda>cleaned. retS (Suc cleaned)) s))" if "flow_inv A s" for s
    using that by (rule bindS_flow_inv) (simp_all add: Cons.IH)
  then have "flow_inv A (snd (bindS (on_redis (rdelete (R_of A) (task_key hid)))
      (\<lambda>_. bindS (cleanup_stale_tasks A hids) (\<lambda>cleaned. retS (Suc cleaned))) s))"
    by (intro bindS_flow_inv [OF Cons.prems] task_write_inv [OF assms(1)]) simp_all
  with Cons.IH [OF Cons.prems] show ?case by (simp add: Let_def)
qed simp

lemma flow_rules_ok:
  assumes "pydantic_sound (a_parse A)" "flow_inv A s"
  shows "rules_state_ok (get_rules (sys_rules s) qid b)"
proof (rule stored_state_ok [OF assms(1)])
  show "\<forall>r \<in> set (get_rules (sys_rules s) qid b). rule_ok (a_parse A) (a_registry A) r"
    using assms(2) by (simp add: flow_inv_def store_inv_def)
qed

lemma post_inv:
  assumes ok: "app_ok A" and snd: "pydantic_sound (a_parse A)" and inv: "flow_inv A s"
  shows "flow_inv A (snd (requests_post A caller http_id body s))"
proof -
  obtain x s' where post: "requests_post A caller http_id body s = (x, s')" by fastforce
  have st: "rules_state_ok (get_rules (sys_rules s) qid b)" for qid b
    by (rule flow_rules_ok [OF snd inv])
  have q: "quota_inv (a_env A) (sys_redis s)" using inv by (simp add: flow_inv_def)
  from post show ?thesis
  proof (cases rule: requests_post_cases)
    case (tail uid bms s1)
    have q1: "quiet A s s1" by (rule clear_failed_task_quiet [OF ok q tail(2)])
    show ?thesis
    proof (cases x)
      case (Inl e)
      have "quiet A s s'" by (rule post_raise_quiet [OF ok st q post [unfolded Inl]])
      with inv post show ?thesis by (auto simp: quiet_def flow_inv_def)
    next
      case (Inr h)
      obtain rs r1 where r1: "reserve_stateful_rules (a_env A) (rb_queue_id body) uid
            (get_rules (sys_rules s) (rb_queue_id body) True) (sys_redis s1) = (Inr rs, r1)"
          and e: "enqueue_task A (task_of body uid http_id) rs (s1\<lparr>sys_redis := r1\<rparr>) = (Inr h, s')"
        using tail(3) Inr by (auto simp: bindS_def on_redis_def split: sum.splits prod.splits)
      have "quota_inv (a_env A) r1"
        using reserve_other(2) [OF _ st _ r1] ok q1 by (simp add: app_ok_def quiet_def)
      moreover have "redis_step A (s1\<lparr>sys_redis := r1\<rparr>) s'"
        using e enqueue_writes [OF ok, of "s1\<lparr>sys_redis := r1\<rparr>"]
        by (auto simp: enqueue_task_def redis_step_def quiet_def bindS_def on_redis_def split: sum.splits prod.splits)
      ultimately show ?thesis
        using q1 inv post by (auto simp: redis_step_def quiet_def flow_inv_def)
    qed
  next
    case (pending uid bms e s1)
    with clear_failed_task_quiet [OF ok q] inv post show ?thesis by (auto simp: quiet_def flow_inv_def)
  qed (use post inv in simp)
qed

theorem reachable_flow_inv:
  assumes "app_ok A" "pydantic_sound (a_parse A)" "flow_reachable A s"
  shows "flow_inv A s"
proof -
  obtain s0 where s0: "flow_init A s0" and steps: "(flow_step A)\<^sup>*\<^sup>* s0 s"
    using assms(3) by (auto simp: flow_reachable_def)
  from steps show ?thesis
  proof (induction rule: rtranclp_induct)
    case base
    from s0 show ?case
      by (simp add: flow_init_def flow_inv_def requests_inv_def store_inv_def empty_db_def no_duplicates_def)
  next
    case (step y z)
    from step.hyps(2) show ?case
    proof (cases rule: flow_step.cases)
      case (rules db)
      have "store_inv (a_parse A) (a_registry A) (e_float_repr (a_env A)) db"
        using rules_step_inv [OF assms(2) rules(2)] step.IH by (simp add: flow_inv_def)
      with rules(1) step.IH show ?thesis by (simp add: flow_inv_def)
    qed (use step.IH post_inv [OF assms(1,2)] handler_job_inv [OF assms(1)] validation_job_inv [OF assms(1)]
          patch_inv delete_inv [OF assms(1)] cleanup_inv [OF assms(1)] in simp_all)
  qed
qed

lemma reachable_rules_ok:
  assumes "app_ok A" "pydantic_sound (a_parse A)" "flow_reachable A s"
  shows "rules_state_ok (get_rules (sys_rules s) qid b)"
  by (rule flow_rules_ok [OF assms(2) reachable_flow_inv [OF assms]])

end
