(* ===== verification/Flow_Daemon.thy ===== *)
theory Flow_Daemon
  imports Flow_Steps
begin

text \<open>
  What the two daemons do: the handler stores one request at most and hands over a validation task
  that carries the rules as they were; the validator rejects only what a rule rejects. The rules
  travel as JSON text; the snapshot is read back as it was written.
\<close>

section \<open>The snapshot\<close>

text \<open>What a rule looks like after the trip: the fields the runners read are kept.\<close>

definition stand_in :: "queue_rule \<Rightarrow> queue_rule" where
  "stand_in r = r\<lparr>rule_queue_id := 0, rule_config := config_or_empty (rule_config r), is_public := True\<rparr>"

definition rules_json_wf :: "queue_rule list \<Rightarrow> bool" where
  "rules_json_wf rules \<longleftrightarrow> (\<forall>r \<in> set rules. json_wf (rule_config r))"

lemma config_or_empty_idem [simp]: "config_or_empty (config_or_empty j) = config_or_empty j"
  by (simp add: config_or_empty_def)

lemma rule_from_snapshot_rule: "rule_from_snapshot (snapshot_rule r) = Inr (stand_in r)"
  by (simp add: rule_from_snapshot_def snapshot_rule_def stand_in_def)

lemma snapshot_wf: "rules_json_wf rules \<Longrightarrow> json_wf (JList (map snapshot_rule rules))"
  by (auto simp: rules_json_wf_def list_all_iff snapshot_rule_def config_or_empty_def)

lemma snapshot_read:
  assumes "float_text (e_float_repr (a_env A)) (a_parse_float A)" "rules_json_wf (get_rules db qid True)"
  shows "rules_from_snapshot A (snapshot_active_rules A db qid) = Inr (Some (map stand_in (get_rules db qid True)))"
proof -
  have "map_res rule_from_snapshot (map snapshot_rule rs) = Inr (map stand_in rs)" for rs
    by (induction rs) (simp_all add: rule_from_snapshot_rule)
  then show ?thesis
    using loads_dumps [OF assms(1) snapshot_wf [OF assms(2)]] dumps_nonempty [OF assms(1)]
    by (simp add: rules_from_snapshot_def snapshot_active_rules_def del: dumps.simps)
qed

text \<open>The runners treat the stand-in like the rule.\<close>

lemma build_node_stand_in: "build_node (stand_in r) = build_node r"
  by (simp add: build_node_def stand_in_def)

lemma stand_in_simps [simp]:
  "is_active (stand_in r) = is_active r" "rule_type (stand_in r) = rule_type r"
  "check_version G (stand_in r) = check_version G r" "get_tier G (stand_in r) = get_tier G r"
  by (simp_all add: stand_in_def check_version_def get_tier_def split: option.splits)

lemma select_stand_in: "select_tier3 G (map stand_in rs) = bindR (select_tier3 G rs) (\<lambda>xs. Inr (map stand_in xs))"
  by (induction rs) (auto simp: bindR_def split: sum.splits)

lemma validate_one_stand_in: "validate_one G W (stand_in r) = validate_one G W r"
  by (rule ext) (simp add: validate_one_def run_rule_def build_node_stand_in)

section \<open>The handler\<close>

definition validation_of :: "'r app \<Rightarrow> handler_task \<Rightarrow> int \<Rightarrow> rule_db \<Rightarrow> validation_task" where
  "validation_of A t rid db =
     \<lparr>vt_request_id = rid, vt_queue_id = ht_queue_id t, vt_beatmapset_id = ht_beatmapset_id t,
      vt_http_request_id = ht_http_request_id t, vt_rules_snapshot = snapshot_active_rules A db (ht_queue_id t),
      vt_completed_at = None, vt_failed_at = None\<rparr>"

lemma on_redis_Inr: "on_redis m s = (Inr x, s') \<longleftrightarrow> (\<exists>r. m (sys_redis s) = (Inr x, r) \<and> s' = s\<lparr>sys_redis := r\<rparr>)"
  by (auto simp: on_redis_def split: prod.splits)

lemma dispatch_Inr:
  assumes "app_ok A" "dispatch_validation_task A rid (ht_queue_id t) (ht_beatmapset_id t) (ht_http_request_id t) s = (Inr (), s')"
  defines "hid \<equiv> validation_hashed_id (a_str_hash A) (validation_of A t rid (sys_rules s))"
  shows "\<exists>r. s' = s\<lparr>sys_redis := r\<rparr> \<and>
     map_of (rhgetall (R_of A) r (task_key hid)) = map_of (rhgetall (R_of A) (sys_redis s) (task_key hid)) ++
       map_of (validation_serialize (validation_of A t rid (sys_rules s)))"
proof -
  obtain r1 r2 where r1: "rhset (R_of A) (task_key hid) (validation_serialize (validation_of A t rid (sys_rules s))) (sys_redis s) = (Inr (), r1)"
    and r2: "rpublish (R_of A) QUEUE_REQUEST_VALIDATION_TASKS (py_str hid) r1 = (Inr (), r2)" and s': "s' = s\<lparr>sys_redis := r2\<rparr>"
    using assms(2) unfolding dispatch_validation_task_def Let_def bindS_eq_Inr on_redis_Inr hid_def validation_of_def by auto
  have "validation_serialize (validation_of A t rid (sys_rules s)) \<noteq> []"
    by (simp add: validation_serialize_def validation_fields_def)
  note st = hset_stored [OF assms(1) r1 this]
  have "rhgetall (R_of A) r2 = rhgetall (R_of A) r1"
    using publish_same [OF assms(1) r2] by (simp add: same_all_def)
  then show ?thesis using st s' by (intro exI [of _ r2]) simp
qed

text \<open>The table after a job: the row was there, or it is new, pending and last.\<close>

definition request_stored :: "handler_task \<Rightarrow> 'r sys \<Rightarrow> int \<Rightarrow> 'r sys \<Rightarrow> bool" where
  "request_stored t s rid s' \<longleftrightarrow>
     (if has_request (sys_requests s) (ht_beatmapset_id t) (ht_queue_id t)
      then sys_requests s' = sys_requests s
      else \<exists>snapshot. sys_requests s' = sys_requests s @ [row_of t rid snapshot]) \<and>
     (\<exists>r \<in> set (sys_requests s'). rq_id r = rid \<and> rq_beatmapset_id r = ht_beatmapset_id t \<and> rq_queue_id r = ht_queue_id t)"

lemma add_request_stored:
  assumes "add_request A t s = (Inr rid, s1)"
  shows "request_stored t s rid s1 \<and> sys_redis s1 = sys_redis s \<and> sys_rules s1 = sys_rules s"
  using assms by (cases rule: add_request_cases) (auto simp: request_stored_def row_of_def has_request_def)

lemma handler_job_Inr:
  assumes ok: "app_ok A" and run: "handler_execute_job A now h s = (Inr (), s')"
  obtains t rid where "handler_deserialize (a_lit A) (rhgetall (R_of A) (sys_redis s) (task_key h)) = Inr t"
    "a_archive A (ht_beatmapset_id t) = Inr ()" "request_stored t s rid s'" "sys_rules s' = sys_rules s"
    "validation_hashed_id (a_str_hash A) (validation_of A t rid (sys_rules s)) \<noteq> h \<Longrightarrow>
     validation_deserialize (rhgetall (R_of A) (sys_redis s')
       (task_key (validation_hashed_id (a_str_hash A) (validation_of A t rid (sys_rules s))))) =
       Inr (validation_of A t rid (sys_rules s))"
    "map_of (rhgetall (R_of A) (sys_redis s') (task_key h)) ''completed_at'' = Some (isoformat now)"
proof -
  let ?ser = "rhgetall (R_of A) (sys_redis s) (task_key h)"
  have ne: "?ser \<noteq> []" and b: "bindS (liftS (handler_deserialize (a_lit A) ?ser)) (handle_record A (task_key h) now) s = (Inr (), s')"
    using run
    by (auto simp: handler_execute_job_def mark_failed_def bindS_eq_Inr Let_def split: prod.splits sum.splits if_splits)
  then obtain t where t: "handler_deserialize (a_lit A) ?ser = Inr t" and hr: "handle_record A (task_key h) now t s = (Inr (), s')"
    by (auto simp: bindS_eq_Inr)
  obtain rid s1 s2 where ar: "a_archive A (ht_beatmapset_id t) = Inr ()" and add: "add_request A t s = (Inr rid, s1)"
    and d: "dispatch_validation_task A rid (ht_queue_id t) (ht_beatmapset_id t) (ht_http_request_id t) s1 = (Inr (), s2)"
    and f: "on_redis (rhset (R_of A) (task_key h) [(''completed_at'', isoformat now)]) s2 = (Inr (), s')"
    using hr unfolding handle_record_def bindS_eq_Inr by auto
  note st = add_request_stored [OF add]
  let ?vt = "validation_of A t rid (sys_rules s)"
  let ?hid = "validation_hashed_id (a_str_hash A) ?vt"
  obtain r where r: "s2 = s1\<lparr>sys_redis := r\<rparr>"
      "map_of (rhgetall (R_of A) r (task_key ?hid)) = map_of (rhgetall (R_of A) (sys_redis s) (task_key ?hid)) ++
         map_of (validation_serialize ?vt)"
    using dispatch_Inr [OF ok d] st by auto
  obtain r' where r': "rhset (R_of A) (task_key h) [(''completed_at'', isoformat now)] r = (Inr (), r')" "s' = s2\<lparr>sys_redis := r'\<rparr>"
    using f r(1) by (auto simp: on_redis_Inr)
  have dec: "validation_deserialize (rhgetall (R_of A) r' (task_key ?hid)) = Inr ?vt" if "?hid \<noteq> h"
  proof (rule validation_codec.decode_encode)
    show "validation_storable ?vt" by (simp add: validation_storable_def validation_of_def storable_time_def)
    show "distinct (map fst (rhgetall (R_of A) r' (task_key ?hid)))" by (rule hash_distinct [OF ok])
    have "rhgetall (R_of A) r' (task_key ?hid) = rhgetall (R_of A) r (task_key ?hid)"
      using hset_same_but [OF ok r'(1)] that by (simp add: same_but_def)
    then show "map_of (validation_serialize ?vt) \<subseteq>\<^sub>m map_of (rhgetall (R_of A) r' (task_key ?hid))"
      using r(2) by simp
  qed
  have "map_of (rhgetall (R_of A) r' (task_key h)) ''completed_at'' = Some (isoformat now)"
    using hset_stored [OF ok r'(1)] by simp
  moreover have "request_stored t s rid s'"
    using st r(1) r'(2) by (simp add: request_stored_def)
  ultimately show ?thesis
    using that [OF t ar] dec st r(1) r'(2) by simp
qed

section \<open>The validator\<close>

text \<open>The tasks a schedule runs for a list of rules: each has the verdict of its own evaluation.\<close>

definition schedule_of :: "'r registry \<Rightarrow> 'r world \<Rightarrow> exec_context \<Rightarrow> queue_rule list \<Rightarrow> p2_state \<Rightarrow> bool" where
  "schedule_of G W c rules st \<longleftrightarrow>
     p2_reachable (map (verdict_of G W c) rules) st \<and> all_done (map (verdict_of G W c) rules) st"

definition tier3_rules :: "'r app \<Rightarrow> queue_rule list \<Rightarrow> queue_rule list" where
  "tier3_rules A rules = filter (\<lambda>r. get_validator_tier (a_registry A) (rule_type r) = Some 3) rules"

definition snapshot_or_live :: "'r app \<Rightarrow> validation_task \<Rightarrow> 'r sys \<Rightarrow> queue_rule list option \<Rightarrow> queue_rule list" where
  "snapshot_or_live A t s snap = (case snap of Some rs \<Rightarrow> rs | None \<Rightarrow> get_rules (sys_rules s) (vt_queue_id t) True)"

lemma run_validation_cases:
  assumes "run_validation A sched t s = (x, s')"
  obtains (bad_snapshot) e where "rules_from_snapshot A (vt_rules_snapshot t) = Inl e" "x = Inl e" "s' = s"
  | (skipped) snap where "rules_from_snapshot A (vt_rules_snapshot t) = Inr snap" "x = Inr ()" "s' = s"
      "find (\<lambda>r. rq_id r = vt_request_id t) (sys_requests s) = None \<or> tier3_rules A (snapshot_or_live A t s snap) = [] \<or>
       (\<exists>e. a_get_beatmapset A (vt_beatmapset_id t) = Inl e)"
  | (ran) snap request bms where "rules_from_snapshot A (vt_rules_snapshot t) = Inr snap"
      "find (\<lambda>r. rq_id r = vt_request_id t) (sys_requests s) = Some request"
      "tier3_rules A (snapshot_or_live A t s snap) \<noteq> []" "a_get_beatmapset A (vt_beatmapset_id t) = Inr bms"
      "case phase2_run (a_registry A) sched (tier3_rules A (snapshot_or_live A t s snap)) of
         Inl e \<Rightarrow> x = Inl e \<and> s' = s
       | Inr rejected \<Rightarrow> x = Inr () \<and>
           s' = (if rejected = [] then s else update_request (vt_request_id t) (rejected_by rejected) s)"
proof (cases "rules_from_snapshot A (vt_rules_snapshot t)")
  case (Inl e)
  then show ?thesis using assms bad_snapshot by (simp add: run_validation_def bindS_def)
next
  case (Inr snap)
  show ?thesis
  proof (cases "find (\<lambda>r. rq_id r = vt_request_id t) (sys_requests s) = None \<or> tier3_rules A (snapshot_or_live A t s snap) = [] \<or>
       (\<exists>e. a_get_beatmapset A (vt_beatmapset_id t) = Inl e)")
    case True
    then have "x = Inr () \<and> s' = s"
      using assms Inr
      by (auto simp: run_validation_def bindS_def Let_def tier3_rules_def snapshot_or_live_def split: option.splits sum.splits)
    with Inr True skipped show ?thesis by blast
  next
    case False
    then obtain request bms where rb: "find (\<lambda>r. rq_id r = vt_request_id t) (sys_requests s) = Some request"
        "a_get_beatmapset A (vt_beatmapset_id t) = Inr bms"
      by (metis option.exhaust sum.exhaust)
    with False Inr assms have "case phase2_run (a_registry A) sched (tier3_rules A (snapshot_or_live A t s snap)) of
         Inl e \<Rightarrow> x = Inl e \<and> s' = s
       | Inr rejected \<Rightarrow> x = Inr () \<and>
           s' = (if rejected = [] then s else update_request (vt_request_id t) (rejected_by rejected) s)"
      by (auto simp: run_validation_def bindS_def Let_def tier3_rules_def snapshot_or_live_def split: sum.splits)
    with Inr False rb ran show ?thesis by blast
  qed
qed

text \<open>Composites have no tier of their own, so none of them reaches the asynchronous runner.\<close>

lemma composite_not_tier3:
  "get_validator_tier (default_registry :: 'r registry) ''composite'' = None"
  by (simp add: get_validator_tier_def default_registry_def)

lemma select_tier3_subset: "select_tier3 G rules = Inr sel \<Longrightarrow> set sel \<subseteq> set rules"
  by (induction rules arbitrary: sel) (auto simp: bindR_eq_Inr split: if_splits)

lemma validation_outcome:
  assumes reg: "a_registry A = default_registry" and snap: "rules_from_snapshot A (vt_rules_snapshot t) = Inr (Some rules)"
    and req: "find (\<lambda>r. rq_id r = vt_request_id t) (sys_requests s) = Some request"
    and bms: "a_get_beatmapset A (vt_beatmapset_id t) = Inr bms"
    and sel: "select_tier3 (a_registry A) (tier3_rules A rules) = Inr selected"
    and sched: "schedule_of (a_registry A) W c selected sched"
    and run: "run_validation A sched t s = (Inr (), s')"
  shows "(s' = s \<and> (\<forall>r \<in> set selected. snd (fst (validate_one (a_registry A) W r c)) = PASS)) \<or>
     (\<exists>r \<in> set selected. snd (fst (validate_one (a_registry A) W r c)) = VIOLATION) \<and>
     (\<exists>rs. rs \<noteq> [] \<and> s' = update_request (vt_request_id t) (rejected_by rs) s)"
proof -
  let ?vs = "map (verdict_of (a_registry A) W c) selected"
  have atomic: "rule_type r \<noteq> ''composite''" if "r \<in> set selected" for r
  proof
    assume "rule_type r = ''composite''"
    moreover have "get_validator_tier (a_registry A) (rule_type r) = Some 3"
      using select_tier3_subset [OF sel] that reg by (auto simp: tier3_rules_def)
    ultimately show False by (simp add: composite_not_tier3 reg)
  qed
  have clean: "\<forall>v \<in> set ?vs. clean_verdict v"
    using atomic_verdict_clean [OF default_core_safe] atomic unfolding reg by auto
  have len: "length (map rule_type selected) = length ?vs" by simp
  have p2: "p2_reachable ?vs sched" "all_done ?vs sched" using sched by (simp_all add: schedule_of_def)
  have own: "snd (fst (validate_one (a_registry A) W r c)) = own_outcome (verdict_of (a_registry A) W c r)" for r
    by (simp add: validate_one_own)
  from run show ?thesis
  proof (cases rule: run_validation_cases)
    case (skipped snap')
    then have "selected = []"
      using snap req bms sel by (auto simp: snapshot_or_live_def)
    with skipped show ?thesis by simp
  next
    case (ran snap' request' bms')
    have "snap' = Some rules" using ran(1) snap by simp
    with ran have "case phase2_run (a_registry A) sched (tier3_rules A rules) of Inl e \<Rightarrow> False
       | Inr rejected \<Rightarrow> s' = (if rejected = [] then s else update_request (vt_request_id t) (rejected_by rejected) s)"
      using reg by (auto simp: snapshot_or_live_def split: sum.splits)
    then obtain rejected where p: "phase2_run (a_registry A) sched (tier3_rules A rules) = Inr rejected"
      and s': "s' = (if rejected = [] then s else update_request (vt_request_id t) (rejected_by rejected) s)"
      by (auto split: sum.splits)
    show ?thesis
    proof (cases "selected = []")
      case True
      then show ?thesis using p sel s' by (simp add: phase2_run_def)
    next
      case False
      then have comb: "combine_outcomes (gathered (map rule_type selected) sched) = Inr rejected"
        using p sel by (simp add: phase2_run_def)
      show ?thesis
      proof (cases "rejected = []")
        case True
        then have "\<forall>v \<in> set ?vs. own_outcome v = PASS"
          using runner_accepts_only_passes [OF clean p2 len] comb by simp
        then show ?thesis using True s' own by simp
      next
        case False
        have "some_violation ?vs"
          by (rule runner_rejects_only_violations [OF clean p2 len comb False])
        then show ?thesis using False s' own by (auto simp: some_violation_def)
      qed
    qed
  qed (use run in simp)
qed

text \<open>A failed job on a task that is not there leaves a hash that no longer decodes.\<close>

lemma decode_needs_user:
  assumes "map_of d ''user_id'' = None"
  shows "\<exists>e. handler_deserialize rd d = Inl e"
proof (cases "decode_items (handler_convert rd) d")
  case (Inl e)
  then show ?thesis by (simp add: handler_deserialize_def)
next
  case (Inr d')
  have "map_of d' ''user_id'' = None"
    using decode_items_keys [OF Inr] assms by (metis list.set_map map_of_eq_None_iff)
  then show ?thesis by (simp add: handler_deserialize_def Inr need_int_def)
qed

lemma orphan_job:
  assumes ok: "app_ok A" and absent: "rhgetall (R_of A) (sys_redis s) (task_key h) = []"
    and run: "handler_execute_job A now h s = (x, s')" and wrote: "x = Inl (PyExc ''ValueError'')"
      "rhset (R_of A) (task_key h) [(''failed_at'', isoformat now)] (sys_redis s) = (Inr (), r)"
  shows "rexists (R_of A) (sys_redis s') (task_key h)" and "\<exists>e. handler_deserialize rd (rhgetall (R_of A) (sys_redis s') (task_key h)) = Inl e"
proof -
  have s': "s' = s\<lparr>sys_redis := r\<rparr>"
    using run absent wrote(2) by (simp add: handler_execute_job_def mark_failed_def bindS_def on_redis_def Let_def)
  have st: "rexists (R_of A) r (task_key h)" "map_of (rhgetall (R_of A) r (task_key h)) = map_of [(''failed_at'', isoformat now)]"
    using hset_stored [OF ok wrote(2)] absent by auto
  then have "map_of (rhgetall (R_of A) r (task_key h)) ''user_id'' = None"
    by (simp only: st(2)) simp
  with st(1) s' decode_needs_user show "rexists (R_of A) (sys_redis s') (task_key h)"
    "\<exists>e. handler_deserialize rd (rhgetall (R_of A) (sys_redis s') (task_key h)) = Inl e" by auto
qed

text \<open>A stored task that does not decode, or that decodes and has not failed, blocks a submission.\<close>

lemma post_blocked:
  assumes "app_ok A" "requests_post A caller http_id body s = (Inr h, s')" "bool_reader (a_lit A)"
    and "rules_state_ok (get_rules (sys_rules s) (rb_queue_id body) True)" "quota_inv (a_env A) (sys_redis s)"
    and "rexists (R_of A) (sys_redis s) (task_key h)"
  shows "\<exists>t. handler_deserialize (a_lit A) (rhgetall (R_of A) (sys_redis s) (task_key h)) = Inr t \<and> ht_failed_at t \<noteq> None"
  using post_accepted [OF assms(1,3,4,5,2)] assms(6) by blast

section \<open>After a restart\<close>

text \<open>Of the tasks found, none is pending after the clean-up; tasks that ended are kept.\<close>

lemma cleanup_no_pending:
  assumes ok: "app_ok A" and run: "cleanup_stale_tasks A hids s = (Inr n, s')"
  shows "(\<forall>h \<in> set hids. rexists (R_of A) (sys_redis s') (task_key h) \<longrightarrow>
       marked (rhgetall (R_of A) (sys_redis s) (task_key h)) ''completed_at'' \<or>
       marked (rhgetall (R_of A) (sys_redis s) (task_key h)) ''failed_at'') \<and>
     (\<forall>h. rexists (R_of A) (sys_redis s') (task_key h) \<longrightarrow> rexists (R_of A) (sys_redis s) (task_key h)) \<and>
     sys_requests s' = sys_requests s"
  using run
proof (induction hids arbitrary: s n)
  case (Cons hid hids)
  let ?d = "rhgetall (R_of A) (sys_redis s) (task_key hid)"
  show ?case
  proof (cases "marked ?d ''completed_at'' \<or> marked ?d ''failed_at''")
    case True
    then have "cleanup_stale_tasks A hids s = (Inr n, s')" using Cons.prems by (auto simp: Let_def)
    from Cons.IH [OF this] True show ?thesis by auto
  next
    case False
    then obtain r m where del: "rdelete (R_of A) (task_key hid) (sys_redis s) = (Inr (), r)"
      and rest: "cleanup_stale_tasks A hids (s\<lparr>sys_redis := r\<rparr>) = (Inr m, s')"
      using Cons.prems by (auto simp: Let_def bindS_eq_Inr on_redis_Inr)
    note d = delete_same_but [OF ok del]
    have same: "rhgetall (R_of A) r (task_key h) = rhgetall (R_of A) (sys_redis s) (task_key h)"
      "rexists (R_of A) r (task_key h) = rexists (R_of A) (sys_redis s) (task_key h)" if "h \<noteq> hid" for h
      using d that by (simp_all add: same_but_def)
    have gone: "\<not> rexists (R_of A) (sys_redis s') (task_key hid)"
      using Cons.IH [OF rest] d by auto
    with Cons.IH [OF rest] same d show ?thesis
      by (auto split: if_splits) metis+
  qed
qed simp

end
