(* ===== verification/Rate_Limit_Steps.thy ===== *)
theory Rate_Limit_Steps
  imports Rule_Stateful
begin

text \<open>
  Concurrent requests against one rate-limit counter. The requests run in one event loop and in
  several processes, so between any two Redis commands of \<^verbatim>\<open>RateLimitRestriction.reserve\<close> and
  \<^verbatim>\<open>rollback\<close> the commands of other requests may run. The step relation interleaves them command by
  command: the \<^verbatim>\<open>INCR\<close>, the \<^verbatim>\<open>EXPIRE\<close> after the first one, the comparison with the limit, the
  compensating \<^verbatim>\<open>DECR\<close> of a refused request and the \<^verbatim>\<open>DECR\<close> of a rolled-back one.

  The invariant: the counter is the number of requests that have counted themselves and not
  withdrawn, and the requests that hold or will be granted a place never exceed the limit.
\<close>

section \<open>Interleaved reservations\<close>

datatype phase = Idle | Counted int | Checked int | Granted | Refused | Withdrawn

record 'r rl_state =
  store :: 'r
  phase :: "nat \<Rightarrow> phase"

abbreviation set_phase :: "nat \<Rightarrow> phase \<Rightarrow> 'r \<Rightarrow> 'r rl_state \<Rightarrow> 'r rl_state" where
  "set_phase i p s st \<equiv> st\<lparr>store := s, phase := (phase st)(i := p)\<rparr>"

inductive rl_step :: "'r redis_ops \<Rightarrow> string \<Rightarrow> int \<Rightarrow> int \<Rightarrow> 'r rl_state \<Rightarrow> 'r rl_state \<Rightarrow> bool"
  for R key dur m where
  incr: "phase st i = Idle \<Longrightarrow> rincr R key (store st) = (Inr n, s) \<Longrightarrow>
     rl_step R key dur m st (set_phase i (Counted n) s st)"
| expire: "phase st i = Counted 1 \<Longrightarrow> rexpire R key dur (store st) = (Inr (), s) \<Longrightarrow>
     rl_step R key dur m st (set_phase i (Checked 1) s st)"
| no_expire: "phase st i = Counted n \<Longrightarrow> n \<noteq> 1 \<Longrightarrow>
     rl_step R key dur m st (set_phase i (Checked n) (store st) st)"
| grant: "phase st i = Checked n \<Longrightarrow> \<not> n > m \<Longrightarrow>
     rl_step R key dur m st (set_phase i Granted (store st) st)"
| refuse: "phase st i = Checked n \<Longrightarrow> n > m \<Longrightarrow> rdecr R key (store st) = (Inr k, s) \<Longrightarrow>
     rl_step R key dur m st (set_phase i Refused s st)"
| withdraw: "phase st i = Granted \<Longrightarrow> rdecr R key (store st) = (Inr k, s) \<Longrightarrow>
     rl_step R key dur m st (set_phase i Withdrawn s st)"

inductive_cases rl_stepE: "rl_step R key dur m st st'"

definition reachable :: "'r redis_ops \<Rightarrow> string \<Rightarrow> int \<Rightarrow> int \<Rightarrow> 'r \<Rightarrow> 'r rl_state \<Rightarrow> bool" where
  "reachable R key dur m s0 st \<longleftrightarrow> (rl_step R key dur m)\<^sup>*\<^sup>* \<lparr>store = s0, phase = (\<lambda>_. Idle)\<rparr> st"

section \<open>The invariant\<close>

text \<open>A request is counted from its \<^verbatim>\<open>INCR\<close> to its \<^verbatim>\<open>DECR\<close>; it is within the limit when its own
  reading of the counter was.\<close>

fun counted :: "phase \<Rightarrow> bool" where
  "counted (Counted _) = True"
| "counted (Checked _) = True"
| "counted Granted = True"
| "counted _ = False"

fun within_limit :: "int \<Rightarrow> phase \<Rightarrow> bool" where
  "within_limit m (Counted n) = (n \<le> m)"
| "within_limit m (Checked n) = (n \<le> m)"
| "within_limit m Granted = True"
| "within_limit m _ = False"

definition rl_inv :: "'r env \<Rightarrow> string \<Rightarrow> int \<Rightarrow> 'r rl_state \<Rightarrow> bool" where
  "rl_inv E key m st \<longleftrightarrow>
     quota_inv E (store st) \<and> finite {i. counted (phase st i)} \<and>
     quota E (store st) key = int (card {i. counted (phase st i)}) \<and>
     int (card {i. within_limit m (phase st i)}) \<le> m"

lemma within_counted: "within_limit m p \<Longrightarrow> counted p"
  by (cases p) auto

lemma filter_upd:
  "{j. P ((f(i := p)) j)} = (if P p then insert i {j. P (f j)} else {j. P (f j)} - {i})"
  by auto

lemma card_enter:
  "finite {j. P (f j)} \<Longrightarrow> \<not> P (f i) \<Longrightarrow> P p \<Longrightarrow> card {j. P ((f(i := p)) j)} = Suc (card {j. P (f j)})"
  unfolding filter_upd by simp

lemma card_leave:
  "finite {j. P (f j)} \<Longrightarrow> P (f i) \<Longrightarrow> \<not> P p \<Longrightarrow> Suc (card {j. P ((f(i := p)) j)}) = card {j. P (f j)}"
  unfolding filter_upd using card_Suc_Diff1 [of "{j. P (f j)}" i] by simp

lemma card_stay: "P (f i) = P p \<Longrightarrow> {j. P ((f(i := p)) j)} = {j. P (f j)}"
  by auto

lemma finite_within: "finite {i. counted (f i)} \<Longrightarrow> finite {i. within_limit m (f i)}"
  by (rule finite_subset [rotated]) (auto intro: within_counted)

lemma card_within_le: "finite {i. counted (f i)} \<Longrightarrow> card {i. within_limit m (f i)} \<le> card {i. counted (f i)}"
  by (intro card_mono) (auto intro: within_counted)

lemma rl_step_inv:
  assumes laws: "redis_string_laws (e_redis E)" and qk: "quota_key key" and dur: "0 < dur"
    and step: "rl_step (e_redis E) key dur m st st'" and inv: "rl_inv E key m st"
  shows "rl_inv E key m st'"
proof -
  let ?C = "\<lambda>st. {i. counted (phase st i)}" and ?W = "\<lambda>st. {i. within_limit m (phase st i)}"
  have q: "quota_inv E (store st)" and fin: "finite (?C st)"
    and cnt: "quota E (store st) key = int (card (?C st))" and lim: "int (card (?W st)) \<le> m"
    using inv by (auto simp: rl_inv_def)
  have decr: "quota_inv E s \<and> quota E s key = quota E (store st) key - 1"
    if "rdecr (e_redis E) key (store st) = (Inr k, s)" for k s
    using that by (rule_tac quota_counter_cmd [OF redis_lawsD(3) [OF laws] q qk]) auto
  have leave: "rl_inv E key m (set_phase i p s st)"
    if c: "counted (phase st i)" "\<not> counted p" and s: "quota_inv E s" "quota E s key = quota E (store st) key - 1" for i p s
  proof -
    have "card {j. counted (((phase st)(i := p)) j)} + 1 = card (?C st)"
      using card_leave [where P = counted and f = "phase st", OF fin c] by simp
    moreover have "card {j. within_limit m (((phase st)(i := p)) j)} \<le> card (?W st)"
      using c(2) within_counted finite_within [OF fin] by (intro card_mono) auto
    moreover have "finite {j. counted (((phase st)(i := p)) j)}"
      using fin unfolding filter_upd [of counted] by simp
    ultimately show ?thesis using s cnt lim by (simp add: rl_inv_def)
  qed
  have stay: "rl_inv E key m (set_phase i p s st)"
    if "counted (phase st i) = counted p" "within_limit m (phase st i) = within_limit m p"
      "quota_inv E s" "quota E s = quota E (store st)" for i p s
    using that inv card_stay [of counted "phase st" i p] card_stay [of "within_limit m" "phase st" i p]
    by (simp add: rl_inv_def)
  from step show ?thesis
  proof (cases rule: rl_step.cases)
    case (incr i n s)
    obtain s1 where "rincr (e_redis E) key (store st) = (Inr (quota E (store st) key + 1), s1)" "quota_inv E s1"
        "quota E s1 = (quota E (store st))(key := quota E (store st) key + 1)"
      using quota_counter_cmd [OF redis_lawsD(2) [OF laws] q qk] by metis
    with incr have s: "quota_inv E s" "quota E s key = n" "n = int (card (?C st)) + 1"
      using cnt by auto
    have C: "card {j. counted (((phase st)(i := Counted n)) j)} = Suc (card (?C st))"
      using card_enter [where P = counted and f = "phase st", OF fin, of i "Counted n"] incr by simp
    have W: "int (card {j. within_limit m (((phase st)(i := Counted n)) j)}) \<le> m"
    proof (cases "n \<le> m")
      case True
      then have "card {j. within_limit m (((phase st)(i := Counted n)) j)} = Suc (card (?W st))"
        using card_enter [where P = "within_limit m" and f = "phase st", OF finite_within [OF fin], of i "Counted n"] incr by simp
      then show ?thesis using True s(3) card_within_le [OF fin, of m] by simp
    next
      case False
      then show ?thesis using lim incr card_stay [of "within_limit m" "phase st" i "Counted n"] by simp
    qed
    have "finite {j. counted (((phase st)(i := Counted n)) j)}"
      using fin unfolding filter_upd [of counted] by simp
    then show ?thesis using incr s C W by (simp add: rl_inv_def)
  next
    case (expire i s)
    obtain x where "rget (e_redis E) (store st) key = Some (py_str x)"
    proof -
      have "i \<in> ?C st" using expire by simp
      then have "quota E (store st) key \<noteq> 0" using cnt fin by (auto simp: card_eq_0_iff)
      then show ?thesis using q qk that unfolding quota_inv_def by (metis quota_None)
    qed
    then obtain s1 where "rexpire (e_redis E) key dur (store st) = (Inr (), s1)" "quota_inv E s1"
        "quota E s1 = quota E (store st)"
      using quota_expire [OF laws q dur] by metis
    with expire stay [of i "Checked 1" s] show ?thesis by simp
  next
    case (no_expire i n)
    with stay [of i "Checked n" "store st"] q show ?thesis by simp
  next
    case (grant i n)
    with stay [of i Granted "store st"] q show ?thesis by simp
  next
    case (refuse i n k s)
    with leave [of i Refused s] decr [of k s] show ?thesis by simp
  next
    case (withdraw i k s)
    with leave [of i Withdrawn s] decr [of k s] show ?thesis by simp
  qed
qed

lemma reachable_inv:
  assumes "redis_string_laws (e_redis E)" "quota_key key" "0 < dur" "0 \<le> m"
    and "quota_inv E s0" "quota E s0 key = 0" "reachable (e_redis E) key dur m s0 st"
  shows "rl_inv E key m st"
  using assms(7) unfolding reachable_def
proof (induction rule: rtranclp_induct)
  case base
  then show ?case using assms(4-6) by (simp add: rl_inv_def)
next
  case (step y z)
  then show ?case using rl_step_inv [OF assms(1-3)] by blast
qed

lemma granted_within_limit:
  assumes "rl_inv E key m st"
  shows "int (card {i. phase st i = Granted}) \<le> m"
proof -
  have "card {i. phase st i = Granted} \<le> card {i. within_limit m (phase st i)}"
    using assms by (intro card_mono finite_within) (auto simp: rl_inv_def)
  then show ?thesis using assms by (simp add: rl_inv_def)
qed

end
