(* ===== verification/Rule_Properties.thy ===== *)
theory Rule_Properties
  imports Phase2 Rate_Limit_Steps
begin

text \<open>
  The properties of the rule engine, with instances on a small fixture: a queue with a rate limit
  of one request per day and a cooldown, a store that already holds a cooldown timestamp, and a
  beatmapset with two difficulties.
\<close>

section \<open>Fixture\<close>

definition demo_now :: datetime where
  "demo_now = \<lparr>year = 2024, month = 5, day = 17, hour = 13, minute = 30, second = 5, microsecond = 250000\<rparr>"

definition demo_env :: "mem_store env" where
  "demo_env = \<lparr>e_redis = mem_redis, e_now = demo_now, e_now2 = demo_now, e_queue = (\<lambda>_. Some ''Queue A''),
     e_sha1 = (\<lambda>s. ''0123456789abcdef''), e_float_repr = (\<lambda>_. ''0.0'')\<rparr>"

definition demo_rate_config :: dict where
  "demo_rate_config = [(''max_requests'', JInt 1), (''period'', JStr ''day''), (''scope'', JStr ''user'')]"

definition demo_cooldown_config :: dict where
  "demo_cooldown_config = [(''cooldown_seconds'', JInt 600), (''scope'', JStr ''user'')]"

definition demo_rules :: "queue_rule list" where
  "demo_rules =
     [\<lparr>rule_id = 1, rule_queue_id = 7, rule_type = ''rate_limit'', rule_config = JDict demo_rate_config,
       is_active = True, is_public = True, rule_version = ''1.0''\<rparr>,
      \<lparr>rule_id = 2, rule_queue_id = 7, rule_type = ''cooldown'', rule_config = JDict demo_cooldown_config,
       is_active = True, is_public = True, rule_version = ''1.0''\<rparr>]"

definition demo_cooldown_store :: mem_store where
  "demo_cooldown_store = [(''queue_rule_cooldown:7:42:0123456789ab'', Str (py_str 1715952000), Some 500)]"

definition demo_easy :: beatmap where
  "demo_easy = \<lparr>bm_id = 1, version = ''Easy'', difficulty_rating = 2, ar = 3, accuracy = 3, drain = 3, cs = 3,
     bpm = 180, hit_length = 80, total_length = 90, mode = ''osu'', owners = None, top_tag_ids = None\<rparr>"

definition demo_insane :: beatmap where
  "demo_insane = \<lparr>bm_id = 2, version = ''Insane'', difficulty_rating = 5, ar = 9, accuracy = 8, drain = 6, cs = 4,
     bpm = 180, hit_length = 80, total_length = 90, mode = ''osu'', owners = None, top_tag_ids = None\<rparr>"

definition demo_set :: beatmapset where
  "demo_set = \<lparr>bs_id = 100, artist = ''Camellia'', artist_unicode = ''Camellia'', title = ''Exit (TV Size)'',
     title_unicode = ''Exit (TV Size)'', creator = ''mapper'', bs_user_id = 9, bs_bpm = 180, genre = Some 10,
     language = Some 5, storyboard = False, video = True, status = ''pending'', beatmaps = Some [demo_easy, demo_insane]\<rparr>"

definition demo_ctx :: exec_context where
  "demo_ctx = \<lparr>queue_id = 7, user_id = 42, cx_beatmapset = Some demo_set, cx_beatmaps = Some [demo_easy, demo_insane],
     has_osu_client = True, has_session = True, config = JDict [], metadata_providers = Some [''song_identity''],
     last_violation = None, provider_cache = []\<rparr>"

lemmas demo_defs = demo_env_def demo_now_def demo_rate_config_def demo_cooldown_config_def

lemma demo_laws: "redis_string_laws (e_redis demo_env)"
  by (simp add: demo_env_def mem_redis_laws)

lemma demo_rules_ok: "rules_state_ok demo_rules"
  by (simp add: rules_state_ok_def demo_rules_def skips_reservation_def STATEFUL_RULE_TYPES_def
      supported_versions_def config_or_empty_def state_config_ok_def rate_limit_config_ok_def cooldown_config_ok_def
      target_ok_def period_ok_def demo_rate_config_def demo_cooldown_config_def)

lemma quota_inv_empty: "quota_inv demo_env []"
  by (simp add: quota_inv_def demo_env_def mem_redis_def mem_get_def)

lemma quota_inv_cooldown: "quota_inv demo_env demo_cooldown_store"
  by (auto simp: quota_inv_def demo_env_def mem_redis_def mem_get_def demo_cooldown_store_def)

lemma demo_fingerprint: "config_fingerprint demo_env d = ''0123456789ab''"
  by (simp add: config_fingerprint_def demo_env_def)

lemma py_str_small: "py_str 7 = ''7''" "py_str 42 = ''42''" "py_str 1715904000 = ''1715904000''"
  by (simp_all add: py_str_def dec.simps digit_char_def char_of_def bit_simps)

lemma demo_bucket: "truncate_to_period demo_now ''day'' = Inr 1715904000"
  by (simp add: truncate_to_period_def demo_now_def midnight_ts_def toordinal_def days_before_year_def
      days_before_month_def month_offsets_def is_leap_def)

lemma demo_env_simps [simp]:
  "e_redis demo_env = mem_redis" "e_now demo_env = demo_now" "e_now2 demo_env = demo_now"
  "e_queue demo_env = (\<lambda>_. Some ''Queue A'')"
  by (simp_all add: demo_env_def)

lemma demo_rate_key:
  "rate_limit_key demo_env 7 42 demo_rate_config = Inr ''queue_rule_rate_limit:7:42:0123456789ab:1715904000''"
  by (simp add: rate_limit_key_def period_bucket_def demo_fingerprint demo_rate_config_def py_str_small
      demo_bucket hash_name_def QUEUE_RULE_RATE_LIMIT_def)

lemma demo_cooldown_key: "cooldown_key demo_env 7 42 demo_cooldown_config = ''queue_rule_cooldown:7:42:0123456789ab''"
  by (simp add: cooldown_key_def demo_fingerprint py_str_small hash_name_def QUEUE_RULE_COOLDOWN_def)

lemma demo_applies: "applies demo_rate_config 42 = Inr True" "applies demo_cooldown_config 42 = Inr True"
  by (simp_all add: applies_def is_target_match_def demo_rate_config_def demo_cooldown_config_def)

lemma demo_config_simps:
  "dget demo_rate_config ''max_requests'' = JInt 1" "dget_or demo_rate_config ''period'' (JStr ''week'') = JStr ''day''"
  "dget demo_cooldown_config ''cooldown_seconds'' = JInt 600" "demo_rate_config \<noteq> []" "demo_cooldown_config \<noteq> []"
  by (simp_all add: demo_rate_config_def demo_cooldown_config_def)

lemma mem_redis_simps [simp]:
  "rget mem_redis = mem_get" "rincr mem_redis = mem_add 1" "rdecr mem_redis = mem_add (- 1)"
  by (simp_all add: mem_redis_def)

lemmas demo_run = reserve_stateful_rules_def demo_rules_def skips_reservation_def STATEFUL_RULE_TYPES_def
  supported_versions_def config_or_empty_def reserve_def rate_limit_reserve_def cooldown_reserve_def bindS_def
  demo_applies demo_rate_key demo_cooldown_key demo_config_simps Let_def

lemma demo_granted: "\<exists>rs s. reserve_stateful_rules demo_env 7 42 demo_rules [] = (Inr rs, s) \<and> length rs = 2"
  by (simp add: demo_run mem_redis_def mem_add_def mem_put_def mem_get_def py_greater_def)

lemma demo_blocked: "\<exists>e s. reserve_stateful_rules demo_env 7 42 demo_rules demo_cooldown_store = (Inl e, s)"
  by (simp add: demo_run demo_cooldown_store_def mem_redis_def mem_add_def mem_put_def mem_get_def py_greater_def
      remaining_seconds_def)

section \<open>Stateful rules\<close>

text \<open>
  (C1) A request that any stateful rule blocks consumes no quota: when \<^verbatim>\<open>reserve_stateful_rules\<close>
  raises, every rate-limit counter and cooldown timestamp in Redis reads as it did before the call
  (an absent key counts as 0), the exception is \<^verbatim>\<open>Forbidden\<close>, and the two key spaces still hold
  integers only.
\<close>
theorem blocked_request_consumes_nothing:
  assumes "redis_string_laws (e_redis E)" "rules_state_ok rules" "quota_inv E s"
    and "reserve_stateful_rules E qid uid rules s = (Inl e, s')"
  shows "quota E s' = quota E s \<and> quota_inv E s' \<and> (\<exists>m. e = Forbidden m)"
  using reserve_all_or_nothing [OF assms] by blast

theorem blocked_request_consumes_nothing_witness:
  "\<exists>e s'. reserve_stateful_rules demo_env 7 42 demo_rules demo_cooldown_store = (Inl e, s') \<and>
     quota demo_env s' = quota demo_env demo_cooldown_store"
  using demo_blocked blocked_request_consumes_nothing [OF demo_laws demo_rules_ok quota_inv_cooldown] by metis

text \<open>
  Reservations can be taken back: rolling back everything \<^verbatim>\<open>reserve_stateful_rules\<close> returned
  restores every counter and timestamp, as the request path does when the enqueue fails.
\<close>
theorem reservations_roll_back:
  assumes "redis_string_laws (e_redis E)" "rules_state_ok rules" "quota_inv E s"
    and "reserve_stateful_rules E qid uid rules s = (Inr rs, s')"
  shows "quota E (rollback_reservations E rs s') = quota E s"
  using reserve_then_rollback [OF assms] .

theorem reservations_roll_back_witness:
  "\<exists>rs s'. reserve_stateful_rules demo_env 7 42 demo_rules [] = (Inr rs, s') \<and> length rs = 2 \<and>
     quota demo_env (rollback_reservations demo_env rs s') = quota demo_env []"
  using demo_granted reservations_roll_back [OF demo_laws demo_rules_ok quota_inv_empty] by metis


lemma demo_rate_quota_key: "quota_key ''queue_rule_rate_limit:7:42''"
  unfolding quota_key_def hash_name_def QUEUE_RULE_RATE_LIMIT_def by (rule exI [of _ "''7:42''"]) simp

definition demo_two_clients :: "mem_store rl_state" where
  "demo_two_clients =
     \<lparr>store = [(''queue_rule_rate_limit:7:42'', Str (py_str 2), None)],
      phase = (\<lambda>_. Idle)(0 := Counted 1, 1 := Counted 2)\<rparr>"

lemma demo_two_reachable: "reachable (e_redis demo_env) ''queue_rule_rate_limit:7:42'' 86400 1 [] demo_two_clients"
proof -
  let ?k = "''queue_rule_rate_limit:7:42''"
  let ?s0 = "\<lparr>store = ([] :: mem_store), phase = (\<lambda>_. Idle)\<rparr>"
  let ?s1 = "\<lparr>store = [(?k, Str (py_str 1), None)], phase = (\<lambda>_. Idle)(0 := Counted 1)\<rparr> :: mem_store rl_state"
  have "rl_step mem_redis ?k 86400 1 ?s0 ?s1"
    using rl_step.incr [of ?s0 0 mem_redis ?k 1 "[(?k, Str (py_str 1), None)]" 86400 1]
    by (simp add: mem_add_def mem_put_def)
  moreover have "rl_step mem_redis ?k 86400 1 ?s1 demo_two_clients"
    using rl_step.incr [of ?s1 1 mem_redis ?k 2 "[(?k, Str (py_str 2), None)]" 86400 1]
    by (simp add: mem_add_def mem_put_def demo_two_clients_def)
  ultimately show ?thesis
    unfolding reachable_def by (simp add: rtranclp.rtrancl_into_rtrancl)
qed


text \<open>
  What a rate-limit reservation does when the rule applies to the user: it is granted exactly
  when the counter of the current bucket is below \<^verbatim>\<open>max_requests\<close>, then counts one more (and the first
  count of a bucket gets the period's lifetime); otherwise it raises the limit error and changes
  no counter. Keys of other users, queues, configurations and buckets are untouched in both cases.
\<close>
theorem rate_limit_reserve_effect:
  assumes "redis_string_laws (e_redis E)" "quota_inv E s" "rate_limit_config_ok d" "rule_applies d uid"
    and "rate_limit_key E qid uid d = Inr key" "dget d ''max_requests'' = JInt m"
  shows "\<exists>s'. quota_inv E s' \<and>
     (if quota E s key < m
      then rate_limit_reserve E qid uid d s = (Inr (Some key), s') \<and> quota E s' = (quota E s)(key := quota E s key + 1) \<and>
        (quota E s key = 0 \<longrightarrow> rttl (e_redis E) s' key = Some (period_duration (dget_or d ''period'' (JStr ''week''))))
      else rate_limit_reserve E qid uid d s = (Inl (limit_error E qid d), s') \<and> quota E s' = quota E s)"
  using rate_limit_reserve_cases [OF assms] .

lemma demo_rate_ok: "rate_limit_config_ok demo_rate_config"
  by (simp add: rate_limit_config_ok_def target_ok_def period_ok_def demo_rate_config_def)

theorem rate_limit_reserve_effect_witness:
  "\<exists>s'. rate_limit_reserve demo_env 7 42 demo_rate_config [] =
     (Inr (Some ''queue_rule_rate_limit:7:42:0123456789ab:1715904000''), s') \<and>
     rttl mem_redis s' ''queue_rule_rate_limit:7:42:0123456789ab:1715904000'' = Some 86400"
  using rate_limit_reserve_effect [OF demo_laws quota_inv_empty demo_rate_ok _ demo_rate_key demo_config_simps(1)]
  by (auto simp: rule_applies_def demo_applies demo_config_simps period_duration_def period_duration_seconds_def
      mem_get_def)

text \<open>
  What a cooldown reservation does when the rule applies: with no timestamp stored it records
  the current second under the cooldown's lifetime; with one stored it raises and leaves the store
  exactly as it was.
\<close>
theorem cooldown_reserve_effect:
  assumes "redis_string_laws (e_redis E)" "quota_inv E s" "cooldown_config_ok d" "rule_applies d uid"
    and "dget d ''cooldown_seconds'' = JInt n"
  shows "if rget (e_redis E) s (cooldown_key E qid uid d) = None
     then \<exists>s'. cooldown_reserve E qid uid d s = (Inr (Some (cooldown_key E qid uid d)), s') \<and> quota_inv E s' \<and>
        quota E s' = (quota E s)(cooldown_key E qid uid d := timestamp_s (e_now E)) \<and>
        rget (e_redis E) s' (cooldown_key E qid uid d) = Some (py_str (timestamp_s (e_now E))) \<and>
        rttl (e_redis E) s' (cooldown_key E qid uid d) = Some n
     else \<exists>r. cooldown_reserve E qid uid d s = (Inl (cooldown_error E qid r), s)"
  using cooldown_reserve_cases [OF assms] .

lemma demo_cooldown_ok: "cooldown_config_ok demo_cooldown_config"
  by (simp add: cooldown_config_ok_def target_ok_def demo_cooldown_config_def)

theorem cooldown_reserve_effect_witness:
  "\<exists>s'. cooldown_reserve demo_env 7 42 demo_cooldown_config [] =
     (Inr (Some ''queue_rule_cooldown:7:42:0123456789ab''), s') \<and>
     rttl mem_redis s' ''queue_rule_cooldown:7:42:0123456789ab'' = Some 600"
  using cooldown_reserve_effect [OF demo_laws quota_inv_empty demo_cooldown_ok _ demo_config_simps(3), of 42 7]
  by (auto simp: rule_applies_def demo_applies demo_cooldown_key mem_get_def)

text \<open>
  Requests of different users or queues never share a rate-limit counter, whatever the
  fingerprint function and the rules: equal keys come from the same queue and the same user.
\<close>
theorem rate_limit_keys_separate:
  assumes "rate_limit_key E qid uid d = Inr key" "rate_limit_key E qid' uid' d' = Inr key"
  shows "qid = qid' \<and> uid = uid'"
proof -
  obtain b b' where "key = hash_name QUEUE_RULE_RATE_LIMIT (join '':'' [py_str qid, py_str uid, config_fingerprint E d, py_str b])"
    and "key = hash_name QUEUE_RULE_RATE_LIMIT (join '':'' [py_str qid', py_str uid', config_fingerprint E d', py_str b'])"
    using assms by (auto simp: rate_limit_key_def bindR_eq_Inr)
  then show ?thesis
    using append_sep_inj [OF py_str_no_colon py_str_no_colon] by simp
qed

theorem rate_limit_keys_separate_witness:
  "rate_limit_key demo_env 7 42 demo_rate_config = Inr ''queue_rule_rate_limit:7:42:0123456789ab:1715904000'' \<and> (7 :: int) = 7 \<and> (42 :: int) = 42"
  using rate_limit_keys_separate [OF demo_rate_key demo_rate_key] demo_rate_key by blast

text \<open>
  A day, week or numeric counter outlives its bucket: two instants in the same bucket are less
  than the key's lifetime apart, so the lifetime set at the first request of the bucket cannot end
  before the bucket does.
\<close>
theorem counter_outlives_bucket:
  assumes "valid_datetime t0" "valid_datetime t1" "period \<noteq> ''month''" "period \<noteq> ''year''"
    and "truncate_to_period t0 period = Inr b" "truncate_to_period t1 period = Inr b"
  shows "timestamp_s t1 < timestamp_s t0 + period_duration_seconds period"
  using truncate_covers [OF assms(1,3,4,5)] truncate_covers [OF assms(2,3,4,6)] by linarith

lemma demo_now_valid: "valid_datetime demo_now"
  by (simp add: valid_datetime_def demo_now_def days_in_month_def days_before_month_def month_offsets_def is_leap_def)

theorem counter_outlives_bucket_witness:
  "timestamp_s demo_now < timestamp_s demo_now + period_duration_seconds ''day''"
  by (rule counter_outlives_bucket [OF demo_now_valid demo_now_valid _ _ demo_bucket demo_bucket]) simp_all

text \<open>
  A month counter does not outlive its bucket: on the last day of a 31-day month the counter
  started at the beginning of the month has expired although the bucket is still the same, so the
  limit starts over within the period.
\<close>
theorem month_counter_expires_early:
  "\<exists>t0 t1 b. valid_datetime t0 \<and> valid_datetime t1 \<and>
     truncate_to_period t0 ''month'' = Inr b \<and> truncate_to_period t1 ''month'' = Inr b \<and>
     timestamp_s t0 + period_duration_seconds ''month'' < timestamp_s t1"
proof -
  let ?t0 = "\<lparr>year = 2024, month = 5, day = 1, hour = 0, minute = 0, second = 0, microsecond = 0\<rparr>"
  let ?t1 = "\<lparr>year = 2024, month = 5, day = 31, hour = 12, minute = 0, second = 0, microsecond = 0\<rparr>"
  have v: "valid_datetime ?t0" "valid_datetime ?t1"
    by (simp_all add: valid_datetime_def days_in_month_def days_before_month_def month_offsets_def is_leap_def)
  moreover have "truncate_to_period ?t0 ''month'' = Inr 1714521600" "truncate_to_period ?t1 ''month'' = Inr 1714521600"
    by (simp_all add: truncate_to_period_def midnight_ts_def toordinal_def days_before_year_def days_before_month_def
        month_offsets_def is_leap_def)
  moreover have "timestamp_s ?t0 + period_duration_seconds ''month'' < timestamp_s ?t1"
    by (simp add: timestamp_s_eq [OF v(1)] timestamp_s_eq [OF v(2)] period_duration_seconds_def midnight_ts_def
        toordinal_def days_before_year_def days_before_month_def month_offsets_def is_leap_def seconds_of_day_def)
  ultimately show ?thesis by blast
qed

end
