(* ===== verification/Engine_Properties.thy ===== *)
theory Engine_Properties
  imports Rule_Properties
begin

text \<open>
  The properties of the configuration schemas, the evaluator and the two runners, with instances on
  the fixture of \<open>Rule_Properties\<close>. \<open>strict_parse\<close> stands for pydantic in the instances.
\<close>

section \<open>Schemas\<close>

definition demo_world :: "mem_store world" where
  "demo_world = \<lparr>w_env = demo_env, w_store = [], w_parse = strict_parse, w_search = (\<lambda>_ _ _ _. Inr []), w_rows = (\<lambda>_. [])\<rparr>"

definition demo_ar_config :: dict where
  "demo_ar_config = [(''min'', JFloat 8), (''logic'', JStr ''any'')]"

lemma demo_ar_valid: "validate_rule_config strict_parse ''beatmap_ar_range'' demo_ar_config = Inr demo_ar_config"
  by (simp add: validate_rule_config_def map_of_leaf_schema leaf_schema_map_def class_defs construct_def
      strict_parse_def args_typed_def fill_defaults_def demo_ar_config_def run_field_validators_def
      as_validation_def opt_at_least_def require_at_least_def num_below_def validate_bounds_def some_bound_def
      bounds_ordered_def model_dump_exclude_none_def)

text \<open>
  Validating a rule configuration is idempotent: what \<^verbatim>\<open>validate_rule_config\<close> returns is accepted
  again and returned unchanged, for every rule type, composites included.
\<close>
theorem config_normalisation_idempotent:
  assumes "pydantic_sound parse" "pydantic_keeps parse" "validate_rule_config parse ty cfg = Inr cfg'"
  shows "validate_rule_config parse ty cfg' = Inr cfg'"
  using validate_rule_config_idem [OF assms] .

theorem config_normalisation_idempotent_witness:
  "validate_rule_config strict_parse ''beatmap_ar_range'' demo_ar_config = Inr demo_ar_config"
  using config_normalisation_idempotent [OF strict_parse_sound strict_parse_keeps demo_ar_valid] .

text \<open>
  (C7) On a configuration its schema accepted, every registered beatmap validator decides its rule:
  the check returns exactly when the declarative meaning of the rule holds of the beatmapset,
  otherwise raises a violation of its own type, never any other exception, and leaves the context
  as it was.
\<close>
theorem accepted_config_decides:
  assumes "pydantic_sound parse" "map_of beatmap_contracts ty = Some (ok, spec)"
    and "validate_rule_config parse ty cfg = Inr cfg'"
    and "config c = JDict cfg'" "cx_beatmapset c = Some s" "get_validator default_registry ty = Some vc"
  shows "\<exists>m. vc_check vc W c = (if spec cfg' s (ctx_beatmaps c) then Inr () else Inl (RuleViolationError ty m), c)"
proof -
  have "ty \<noteq> ''composite''"
    using contract_type_facts(2) [OF assms(2)] .
  with registered_check_decides [OF assms(1,2) _ assms(4-6)] assms(3) validate_rule_config_leaf show ?thesis
    by simp
qed

lemma demo_ar_contract: "map_of beatmap_contracts ''beatmap_ar_range'' = Some (bounds_ok ''min'' ''max'', range_spec ar)"
  by (simp add: beatmap_contracts_def)

lemma demo_ar_validator: "map_of beatmap_validators ''beatmap_ar_range'' = Some ar_range_check"
  by (simp add: beatmap_validators_def)

lemma demo_ctx_simps [simp]:
  "cx_beatmapset demo_ctx = Some demo_set" "ctx_beatmaps demo_ctx = [demo_easy, demo_insane]"
  by (simp_all add: demo_ctx_def ctx_beatmaps_def)

lemma demo_ar_holds: "range_spec ar demo_ar_config demo_set [demo_easy, demo_insane]"
  by (simp add: range_spec_def in_bounds_def at_least_def at_most_def demo_ar_config_def demo_easy_def demo_insane_def)

theorem accepted_config_decides_witness:
  "restriction_check ''beatmap_ar_range'' (beatmap_check ''beatmap_ar_range'' ar_range_check)
     (demo_ctx\<lparr>config := JDict demo_ar_config\<rparr>) = (Inr (), demo_ctx\<lparr>config := JDict demo_ar_config\<rparr>)"
  using accepted_config_decides [OF strict_parse_sound demo_ar_contract demo_ar_valid _ _
      get_validator_beatmap [OF demo_ar_validator], of "demo_ctx\<lparr>config := JDict demo_ar_config\<rparr>" demo_set]
    demo_ar_holds
  by (auto simp: ctx_beatmaps_def demo_ctx_def)

text \<open>
  A composite the schema accepts can always be built: \<^verbatim>\<open>build_rule_node\<close> returns a tree, its
  composites nest at most ten deep, and each of its leaves is a known rule type outside Tier 1
  whose configuration passed its own schema.
\<close>
theorem accepted_composite_builds:
  assumes "pydantic_sound parse" "validate_rule_config parse ''composite'' cfg = Inr cfg'"
  shows "\<exists>node. build_rule_node (JDict [(''type'', JStr ''composite''), (''config'', JDict cfg')]) = Inr node \<and>
     nesting node \<le> 10 \<and> (\<forall>l \<in> leaves node. leaf_ok parse l)"
  using composite_config_builds [OF assms] by (auto simp: child_accepted_def node_ok_def MAX_COMPOSITE_DEPTH_def)

definition demo_not_config :: dict where
  "demo_not_config = [(''operator'', JStr ''not''),
     (''rules'', JList [JDict [(''type'', JStr ''beatmap_video''), (''config'', JDict [(''allowed'', JBool True)])]])]"

lemma demo_not_valid: "validate_rule_config strict_parse ''composite'' demo_not_config = Inr demo_not_config"
  by (simp add: validate_rule_config_def map_of_leaf_schema CompositeConfig_def construct_def strict_parse_def
      args_typed_def fill_defaults_def demo_not_config_def run_field_validators_def as_validation_def
      validate_composite_tree.simps MAX_COMPOSITE_DEPTH_def child_type_of_def COMPOSITE_DISALLOWED_CHILD_TYPES_def
      leaf_schema_map_def validate_child_config_def child_config_of_def validate_leaf_config_def VideoConfig_def
      model_dump_exclude_none_def Let_def)

theorem accepted_composite_builds_witness:
  "\<exists>node. build_rule_node (JDict [(''type'', JStr ''composite''), (''config'', JDict demo_not_config)]) = Inr node \<and>
     nesting node \<le> 10"
  using accepted_composite_builds [OF strict_parse_sound demo_not_valid] by blast

section \<open>Evaluation\<close>

text \<open>
  Evaluating a rule tree leaves the configuration of the context as it found it, whatever the
  registry, the tree, the depth and the way the evaluation ends.
\<close>
theorem evaluation_restores_config:
  "config (snd (evaluate G W node depth c)) = config c"
  by (rule evaluate_config)

text \<open>What a leaf of a tree demands of the beatmapset.\<close>

definition leaf_holds :: "beatmapset \<Rightarrow> beatmap list \<Rightarrow> json \<Rightarrow> json \<Rightarrow> bool" where
  "leaf_holds s bms ty cfg =
     (case (ty, cfg) of
        (JStr t, JDict d) \<Rightarrow> (case map_of beatmap_contracts t of Some (ok, spec) \<Rightarrow> spec d s bms | None \<Rightarrow> False)
      | _ \<Rightarrow> False)"

text \<open>A beatmap rule with a configuration that came out of its schema.\<close>

definition stored_leaf :: "parser \<Rightarrow> json \<times> json \<Rightarrow> bool" where
  "stored_leaf parse l \<longleftrightarrow>
     (\<exists>t d d0 osp. l = (JStr t, JDict d) \<and> map_of beatmap_contracts t = Some osp \<and>
        validate_rule_config parse t d0 = Inr d)"

lemma stored_leaf_decided:
  assumes "pydantic_sound parse" "\<forall>l \<in> ls. stored_leaf parse l" "cx_beatmapset c0 = Some s"
  shows "decided default_registry W c0 (leaf_holds s (ctx_beatmaps c0)) ls"
  unfolding decided_def
proof (clarify)
  fix ty cfg c
  assume "(ty, cfg) \<in> ls" and core: "ctx_core c = ctx_core c0"
  then obtain t d d0 ok spec where l: "ty = JStr t" "cfg = JDict d"
    and con: "map_of beatmap_contracts t = Some (ok, spec)" and v: "validate_rule_config parse t d0 = Inr d"
    using assms(2) unfolding stored_leaf_def by fastforce
  have v': "validate_leaf_config parse t d0 = Inr d"
    using v validate_rule_config_leaf [OF contract_type_facts(2) [OF con]] by metis
  have s: "cx_beatmapset c = Some s" "ctx_beatmaps c = ctx_beatmaps c0"
    using core_fields [OF core] assms(3) by simp_all
  obtain c' where "evaluate_atomic default_registry W (JStr t) (JDict d) c =
      (Inr (spec d s (ctx_beatmaps c)), c')" "ctx_core c' = ctx_core c"
    using evaluate_atomic_beatmap [OF assms(1) con v' s(1)] by blast
  then show "\<exists>c'. evaluate_atomic default_registry W ty cfg c = (Inr (leaf_holds s (ctx_beatmaps c0) ty cfg), c') \<and>
      ctx_core c' = ctx_core c0"
    using l con s(2) core by (auto simp: leaf_holds_def)
qed


definition demo_tree :: rule_node where
  "demo_tree = NotNode (AndNode [AtomicRuleNode (JStr ''beatmap_ar_range'') (JDict demo_ar_config)])"

lemma demo_tree_stored: "\<forall>l \<in> leaves demo_tree. stored_leaf strict_parse l"
  using demo_ar_contract demo_ar_valid by (auto simp: demo_tree_def stored_leaf_def)


text \<open>
  A NOT accepts when its child fails unexpectedly: an atomic rule whose check raises anything
  but a violation or \<^verbatim>\<open>Forbidden\<close> counts as not passed, so the NOT above it evaluates to true.
\<close>
theorem not_accepts_failed_child:
  assumes "lookup_class G ty = Some vc" "vc_check vc W (c\<lparr>config := cfg\<rparr>) = (Inl (PyExc x), c1)"
  shows "\<exists>c'. evaluate G W (NotNode (AtomicRuleNode ty cfg)) 0 c = (Inr True, c') \<and> last_violation c' = last_violation c1"
  using assms by (simp add: bindS_def evaluate_atomic_def Let_def)

definition demo_bad_config :: json where
  "demo_bad_config = JDict [(''min'', JStr ''8'')]"

theorem not_accepts_failed_child_witness:
  "\<exists>c'. evaluate default_registry demo_world (NotNode (AtomicRuleNode (JStr ''beatmap_ar_range'') demo_bad_config)) 0 demo_ctx =
     (Inr True, c') \<and> last_violation c' = None"
proof -
  have l: "lookup_class default_registry (JStr ''beatmap_ar_range'') =
      Some \<lparr>vc_check = (\<lambda>_. restriction_check ''beatmap_ar_range'' (beatmap_check ''beatmap_ar_range'' ar_range_check)),
        vc_versions = supported_versions ''beatmap_ar_range''\<rparr>"
    by (simp add: lookup_class_def get_validator_beatmap [OF demo_ar_validator])
  have "restriction_check ''beatmap_ar_range'' (beatmap_check ''beatmap_ar_range'' ar_range_check)
      (demo_ctx\<lparr>config := demo_bad_config\<rparr>) = (Inl (PyExc ''TypeError''), demo_ctx\<lparr>config := demo_bad_config\<rparr>)"
    by (simp add: restriction_check_def beatmap_check_def ar_range_check_def check_range_def check_any_def in_range_def
        below_bound_def py_less_def demo_bad_config_def demo_ctx_def ctx_beatmaps_def)
  with not_accepts_failed_child [OF l, where W = demo_world and c = demo_ctx and cfg = demo_bad_config and x = "''TypeError''"]
  show ?thesis by (simp add: demo_ctx_def)
qed

section \<open>The synchronous runner\<close>

text \<open>
  (C4) The synchronous runner decides a queue of beatmap rules exactly: with stored configurations it
  returns when every rule's meaning holds of the beatmapset, and otherwise raises a violation that
  names a rule that does not hold.
\<close>
theorem phase1_decides:
  assumes "pydantic_sound parse" "\<forall>rule \<in> set rules. stored_beatmap_rule parse rule" "cx_beatmapset c = Some s"
  shows "if \<forall>rule \<in> set rules. rule_holds rule s (ctx_beatmaps c)
     then fst (phase1_run default_registry W rules c) = Inr ()
     else \<exists>rule \<in> set rules. \<exists>m. \<not> rule_holds rule s (ctx_beatmaps c) \<and>
       fst (phase1_run default_registry W rules c) = Inl (RuleViolationError (rule_type rule) m)"
  using phase1_run_decides [OF assms] .

definition demo_ar_rule :: queue_rule where
  "demo_ar_rule = \<lparr>rule_id = 3, rule_queue_id = 7, rule_type = ''beatmap_ar_range'', rule_config = JDict demo_ar_config,
     is_active = True, is_public = True, rule_version = ''1.0''\<rparr>"

lemma demo_ar_rule_stored: "\<forall>rule \<in> set [demo_ar_rule]. stored_beatmap_rule strict_parse rule"
  using demo_ar_valid demo_ar_contract by (auto simp: stored_beatmap_rule_def demo_ar_rule_def)

theorem phase1_decides_witness:
  "fst (phase1_run default_registry demo_world [demo_ar_rule] demo_ctx) = Inr ()"
  using phase1_decides [OF strict_parse_sound demo_ar_rule_stored demo_ctx_simps(1), of demo_world] demo_ar_holds
  by (simp add: rule_holds_def demo_ar_rule_def demo_ar_contract del: phase1_run.simps)

text \<open>
  (C3) The synchronous runner fails closed: whatever the validators of the registry (as long as they
  write nothing but the metadata cache), a run that returns has built and evaluated to true the tree
  of every active, version-supported, stateless rule of Tier 1 or 2, composites included.
\<close>
theorem phase1_accepts_only_passing:
  assumes "core_safe G W" "phase1_run G W rules c = (Inr (), c')"
  shows "\<forall>rule \<in> set rules. phase1_applies G rule \<longrightarrow> passes_on G W c rule"
  using phase1_run_sound [OF assms] .

theorem phase1_accepts_only_passing_witness:
  "passes_on default_registry demo_world demo_ctx demo_ar_rule"
proof -
  obtain c' where run: "phase1_run default_registry demo_world [demo_ar_rule] demo_ctx = (Inr (), c')"
    using phase1_run_decides [OF strict_parse_sound demo_ar_rule_stored demo_ctx_simps(1), of demo_world] demo_ar_holds
    by (auto simp: rule_holds_def demo_ar_rule_def demo_ar_contract prod_eq_iff simp del: phase1_run.simps)
  have "check_version (default_registry :: mem_store registry) demo_ar_rule"
    using stored_beatmap_rule_version demo_ar_rule_stored by (metis list.set_intros(1))
  moreover have "get_tier (default_registry :: mem_store registry) demo_ar_rule = Inr 2"
    by (rule stored_beatmap_rule_tier) (simp add: demo_ar_rule_def demo_ar_contract)
  ultimately have "phase1_applies (default_registry :: mem_store registry) demo_ar_rule"
    using contract_type_facts(1) [OF demo_ar_contract]
    by (simp add: phase1_applies_def demo_ar_rule_def)
  then show ?thesis
    using phase1_accepts_only_passing [OF default_core_safe run] by simp
qed

section \<open>The asynchronous runner\<close>

text \<open>
  (C5) The verdict of the asynchronous runner does not depend on how its tasks are scheduled. For
  rules that are not composites, with verdicts \<open>vs\<close> of their own evaluations, and any interleaving
  and any time-outs: the request is accepted only when every rule passes; a rejection means that some
  rule really violates; and a rule that violates and is not timed out is among the rejecting rules.
\<close>
theorem tier3_verdict_schedule_independent:
  assumes "core_safe G W" "\<forall>rule \<in> set rules. rule_type rule \<noteq> ''composite''"
    and "vs = map (verdict_of G W c) rules" "p2_reachable vs st" "all_done vs st"
  shows "(combine_outcomes (gathered (map rule_type rules) st) = Inr [] \<longrightarrow>
           (\<forall>rule \<in> set rules. snd (fst (validate_one G W rule c)) = PASS)) \<and>
     (\<forall>rs. combine_outcomes (gathered (map rule_type rules) st) = Inr rs \<and> rs \<noteq> [] \<longrightarrow>
           (\<exists>rule \<in> set rules. snd (fst (validate_one G W rule c)) = VIOLATION)) \<and>
     (\<forall>i < length rules. snd (fst (validate_one G W (rules ! i) c)) = VIOLATION \<and> status st i \<noteq> Done RETRYABLE \<longrightarrow>
           (\<exists>rs. combine_outcomes (gathered (map rule_type rules) st) = Inr rs \<and> rule_type (rules ! i) \<in> set rs))"
proof -
  have clean: "\<forall>v \<in> set vs. clean_verdict v"
    using atomic_verdict_clean [OF assms(1)] assms(2,3) by auto
  have len: "length (map rule_type rules) = length vs"
    using assms(3) by simp
  have own: "snd (fst (validate_one G W rule c)) = own_outcome (verdict_of G W c rule)" for rule
    by (simp add: validate_one_own)
  show ?thesis
    using runner_accepts_only_passes [OF clean assms(4,5) len]
      runner_rejects_only_violations [OF clean assms(4,5) len]
      runner_rejects_violation_in_time [OF assms(4,5) len]
    unfolding own some_violation_def assms(3) by auto
qed

definition demo_unknown_rule :: queue_rule where
  "demo_unknown_rule = demo_ar_rule\<lparr>rule_type := ''beatmap_unknown''\<rparr>"

lemma demo_unknown_verdict:
  "verdict_of default_registry demo_world demo_ctx demo_unknown_rule =
     (Inr False, Some (''beatmap_unknown'', UnknownRuleType))"
proof -
  have "build_node demo_unknown_rule =
      Inr (AtomicRuleNode (JStr ''beatmap_unknown'') (config_or_empty (rule_config demo_unknown_rule)))"
    unfolding build_node_def
    by (subst build_rule_node.simps) (simp add: node_type_def node_config_def demo_unknown_rule_def)
  moreover have "lookup_class (default_registry :: mem_store registry) (JStr ''beatmap_unknown'') = None"
    by (simp add: lookup_class_def get_validator_def default_registry_def map_add_def TIER_1_VALIDATORS_def
        TIER_2_VALIDATORS_def TIER_3_VALIDATORS_def beatmap_validators_def)
  ultimately show ?thesis
    by (simp add: verdict_of_def run_rule_def evaluate_atomic_def Let_def)
qed

theorem tier3_verdict_schedule_independent_witness:
  "\<exists>st rs. combine_outcomes (gathered [''beatmap_unknown''] st) = Inr rs \<and> ''beatmap_unknown'' \<in> set rs"
proof -
  let ?vs = "[(Inr False, Some (''beatmap_unknown'', UnknownRuleType))] :: verdict list"
  let ?s0 = "\<lparr>shared_violation = None, status = (\<lambda>_. Waiting)\<rparr>"
  let ?s1 = "\<lparr>shared_violation = None, status = (\<lambda>_. Waiting)(0 := Running)\<rparr>"
  let ?s2 = "\<lparr>shared_violation = Some (''beatmap_unknown'', UnknownRuleType),
      status = (\<lambda>_. Waiting)(0 := Done VIOLATION)\<rparr>"
  have "p2_step ?vs ?s0 ?s1"
    using p2_step.start [of 0 ?vs ?s0] by simp
  moreover have "p2_step ?vs ?s1 ?s2"
    using p2_step.finish [of 0 ?vs ?s1 "Some (''beatmap_unknown'', UnknownRuleType)"] by (simp add: outcome_of_def)
  ultimately have reach: "p2_reachable ?vs ?s2"
    unfolding p2_reachable_def by (simp add: rtranclp.rtrancl_into_rtrancl)
  have vs: "?vs = map (verdict_of default_registry demo_world demo_ctx) [demo_unknown_rule]"
    by (simp add: demo_unknown_verdict)
  have ty: "rule_type demo_unknown_rule = ''beatmap_unknown''"
    by (simp add: demo_unknown_rule_def)
  have fin: "all_done ?vs ?s2" by (simp add: all_done_def)
  have own: "snd (fst (validate_one default_registry demo_world demo_unknown_rule demo_ctx)) = VIOLATION"
    by (simp add: validate_one_own demo_unknown_verdict own_outcome_def outcome_of_def)
  have "\<exists>rs. combine_outcomes (gathered (map rule_type [demo_unknown_rule]) ?s2) = Inr rs \<and>
      rule_type ([demo_unknown_rule] ! 0) \<in> set rs"
    using tier3_verdict_schedule_independent [OF default_core_safe _ vs reach fin] own ty by simp
  then show ?thesis by (auto simp: ty)
qed

section \<open>Song identity\<close>

text \<open>
  Normalised song text is canonical: \<^verbatim>\<open>_normalize_text\<close> returns text of folded word characters,
  hyphens and single inner blanks, and normalising it again changes nothing.
\<close>
theorem normalised_text_canonical:
  "canonical (normalize_text s b) \<and> normalize_text (normalize_text s b) False = normalize_text s b"
  using normalize_text_canonical canonical_normalized by blast

text \<open>
  The uniqueness rule: with a session, a registered identity provider and a coherent metadata
  cache it passes exactly when the submitted song has an identity and no other beatmapset requested
  in the queue shares a normalised (artist, title) pair with it, in either script.
\<close>
theorem unique_artist_title_decides:
  assumes "cache_coherent resolve_provider c" "metadata_providers c = Some names" "''song_identity'' \<in> set names"
    and "config c = JDict d" "construct_ignoring parse UniqueArtistTitleCheckConfig d = Inr cfg"
    and "cx_beatmapset c = Some s" "has_session c" "strip_vm = truthy (dget cfg ''normalize_versions'')"
  shows "fst (unique_artist_title_check parse rows c) = Inr () \<longleftrightarrow>
     song_forms strip_vm (set_song s) \<noteq> {} \<and>
     (\<forall>(t, bid) \<in> set (rows (queue_id c)). bid \<noteq> bs_id s \<longrightarrow>
        song_forms strip_vm (set_song s) \<inter> song_forms strip_vm t = {})"
  using unique_check_iff [OF assms] .

definition demo_unique_ctx :: exec_context where
  "demo_unique_ctx = demo_ctx\<lparr>config := JDict [(''normalize_versions'', JBool False)]\<rparr>"

lemma demo_unique_config:
  "construct_ignoring strict_parse UniqueArtistTitleCheckConfig [(''normalize_versions'', JBool False)] =
     Inr [(''normalize_versions'', JBool False)]"
  by (simp add: construct_ignoring_def construct_def UniqueArtistTitleCheckConfig_def strict_parse_def args_typed_def
      fill_defaults_def run_field_validators_def as_validation_def)

theorem unique_artist_title_decides_witness:
  "fst (unique_artist_title_check strict_parse (\<lambda>_. [(set_song demo_set, 100)]) demo_unique_ctx) = Inr () \<longleftrightarrow>
     song_forms False (set_song demo_set) \<noteq> {}"
  by (subst unique_artist_title_decides [where names = "[''song_identity'']" and s = demo_set and strip_vm = False,
        OF _ _ _ _ demo_unique_config])
    (simp_all add: cache_coherent_def demo_unique_ctx_def demo_ctx_def demo_set_def)

text \<open> The ranked-song rule: when the search answers every page, it passes exactly when the song has
  an identity and no song on the pages before the first empty one (five at most) shares a normalised
  (artist, title) pair with it.
\<close>
theorem never_ranked_decides:
  assumes "cache_coherent resolve_provider c" "metadata_providers c = Some names" "''song_identity'' \<in> set names"
    and "config c = JDict d" "construct_ignoring parse NeverRankedCheckConfig d = Inr cfg"
    and "cx_beatmapset c = Some s" "to_mode_int (text_of (dget cfg ''ruleset'')) = Inr m"
    and "\<And>p. 1 \<le> p \<Longrightarrow> p \<le> 5 \<Longrightarrow>
       search ''ranked,approved,qualified,loved'' m (identity_query (set_song s)) p = Inr (pages p)"
    and "strip_vm = truthy (dget cfg ''normalize_versions'')"
  shows "fst (never_ranked_check parse search c) = Inr () \<longleftrightarrow>
     song_forms strip_vm (set_song s) \<noteq> {} \<and>
     (\<forall>p \<in> set (takeWhile (\<lambda>p. pages p \<noteq> []) [1..<6]). \<forall>t \<in> set (pages p).
        song_forms strip_vm (set_song s) \<inter> song_forms strip_vm t = {})"
  by (rule never_ranked_iff [OF assms(1-7) _ assms(9)]) (rule assms(8))

lemma demo_never_config:
  "construct_ignoring strict_parse NeverRankedCheckConfig [(''ruleset'', JStr ''osu''), (''normalize_versions'', JBool False)] =
     Inr [(''ruleset'', JStr ''osu''), (''normalize_versions'', JBool False)]"
  by (simp add: construct_ignoring_def construct_def NeverRankedCheckConfig_def strict_parse_def args_typed_def
      fill_defaults_def run_field_validators_def as_validation_def validate_ruleset_def)

theorem never_ranked_decides_witness:
  "fst (never_ranked_check strict_parse (\<lambda>_ _ _ p. Inr (if p = 1 then [set_song demo_set] else []))
      (demo_ctx\<lparr>config := JDict [(''ruleset'', JStr ''osu''), (''normalize_versions'', JBool False)]\<rparr>)) \<noteq> Inr ()"
  by (subst never_ranked_decides [where names = "[''song_identity'']" and s = demo_set and strip_vm = False and m = 0
        and pages = "\<lambda>p. if p = 1 then [set_song demo_set] else []", OF _ _ _ _ demo_never_config])
    (simp_all add: cache_coherent_def demo_ctx_def to_mode_int_def upt_conv_Cons)

end
