(* ===== verification/Flow_Properties.thy ===== *)
theory Flow_Properties
  imports Flow_Daemon Engine_Properties
begin

text \<open>
  The properties of the life of a request, on the states that the endpoints and daemons reach, with
  instances on a small fixture: an open queue that does not let users submit for others, and a
  server that starts empty.
\<close>

section \<open>Fixture\<close>

definition demo_app :: "mem_store app" where
  "demo_app = \<lparr>a_env = demo_env\<lparr>e_float_repr := ratio_text\<rparr>, a_registry = default_registry, a_parse = strict_parse,
     a_search = (\<lambda>_ _ _ _. Inr []), a_rows = (\<lambda>_. []),
     a_queues = (\<lambda>q. if q = 7 then Some \<lparr>q_name = ''Queue A'', q_is_open = True, q_enforce_user_id_match = True\<rparr> else None),
     a_is_admin = (\<lambda>_. False), a_users = (\<lambda>_. True), a_latest_snapshot = (\<lambda>_. Some 3), a_get_beatmapset = (\<lambda>_. Inr demo_set), a_archive = (\<lambda>_. Inr ()), a_lit = bool_literal,
     a_str_hash = (\<lambda>_. 12345), a_parse_float = parse_ratio\<rparr>"

definition demo_sys :: "mem_store sys" where
  "demo_sys = \<lparr>sys_redis = [], sys_requests = [], sys_next = 1, sys_rules = empty_db\<rparr>"

definition demo_body :: request_body where
  "demo_body = \<lparr>rb_user_id = None, rb_beatmapset_id = 100, rb_queue_id = 7, rb_comment = ''please'', rb_mv_checked = False\<rparr>"

definition demo_task :: handler_task where
  "demo_task = task_of demo_body 42 ''req-1''"

definition demo_queued :: "mem_store sys" where
  "demo_queued = demo_sys\<lparr>sys_redis := mem_put (task_key (handler_hashed_id demo_task)) (Hash (handler_serialize demo_task)) None []\<rparr>"

lemma demo_app_simps [simp]:
  "a_env demo_app = demo_env\<lparr>e_float_repr := ratio_text\<rparr>" "a_registry demo_app = default_registry" "a_parse demo_app = strict_parse"
  "a_lit demo_app = bool_literal" "a_parse_float demo_app = parse_ratio" "a_archive demo_app b = Inr ()"
  "a_get_beatmapset demo_app b = Inr demo_set" "\<not> a_is_admin demo_app u" "a_str_hash demo_app x = 12345" "a_users demo_app u"
  "a_latest_snapshot demo_app b = Some 3"
  "a_queues demo_app 7 = Some \<lparr>q_name = ''Queue A'', q_is_open = True, q_enforce_user_id_match = True\<rparr>"
  by (simp_all add: demo_app_def)

lemma demo_app_ok: "app_ok demo_app"
  by (simp add: app_ok_def mem_redis_laws mem_hash_laws)

lemma demo_reader: "bool_reader (a_lit demo_app)"
  by (simp add: literals.bool_reader_axioms)

lemma demo_sound: "pydantic_sound (a_parse demo_app)"
  by (simp add: strict_parse_sound)

lemma demo_init: "flow_init demo_app demo_sys"
  by (simp add: flow_init_def demo_sys_def quota_inv_def mem_redis_def mem_get_def)

lemma demo_start: "flow_reachable demo_app demo_sys"
  using demo_init by (auto simp: flow_reachable_def)

lemma demo_post_steps:
  "requests_post demo_app (Some 42) ''req-1'' demo_body s =
     (if has_request (sys_requests s) 100 7 then (Inl (Conflict ''The request already exists''), s)
      else bindS (run_phase1_checks demo_app 7 42 demo_set) (\<lambda>rules.
        bindS (clear_failed_task demo_app (task_key (handler_hashed_id demo_task))) (\<lambda>_.
        bindS (on_redis (reserve_stateful_rules (a_env demo_app) 7 42 rules)) (enqueue_task demo_app demo_task))) s)"
proof -
  have body: "rb_queue_id demo_body = 7" "rb_beatmapset_id demo_body = 100" "rb_user_id demo_body = None"
    by (simp_all add: demo_body_def)
  have "beatmapset.status demo_set \<notin> set RANKED_STATUSES"
    by (simp add: demo_set_def RANKED_STATUSES_def)
  then show ?thesis
    by (simp add: requests_post_def body requesting_user_def demo_task_def bindS_def [of "liftS r" for r] Let_def)
qed

lemma no_rules: "get_rules empty_db qid b = []"
  by (simp add: get_rules_def empty_db_def)

lemma demo_no_phase1: "sys_rules s = empty_db \<Longrightarrow> run_phase1_checks demo_app 7 42 demo_set s = (Inr [], s)"
  by (simp add: run_phase1_checks_def no_rules)

lemma demo_post: "requests_post demo_app (Some 42) ''req-1'' demo_body demo_sys = (Inr (handler_hashed_id demo_task), demo_queued)"
proof -
  have "clear_failed_task demo_app k demo_sys = (Inr (), demo_sys)" for k
    by (simp add: clear_failed_task_def demo_sys_def mem_redis_def)
  moreover have "run_phase1_checks demo_app 7 42 demo_set demo_sys = (Inr [], demo_sys)"
    by (rule demo_no_phase1) (simp add: demo_sys_def)
  ultimately show ?thesis
    unfolding demo_post_steps
    by (simp add: bindS_def on_redis_def reserve_stateful_rules_def enqueue_task_def demo_sys_def has_request_def
        demo_queued_def mem_redis_def mem_get_def mem_ttl_def mem_hgetall_def hash_update_def)
qed

lemma demo_queued_reachable: "flow_reachable demo_app demo_queued"
  using step_reachable [OF demo_start submit [of demo_app demo_sys "Some 42" "''req-1''" demo_body]] by (simp add: demo_post)

lemma demo_stored: "rhgetall mem_redis (sys_redis demo_queued) (task_key (handler_hashed_id demo_task)) = handler_serialize demo_task"
  by (simp add: demo_queued_def demo_sys_def mem_redis_def mem_hgetall_def mem_put_def handler_serialize_def handler_fields_def)

lemma demo_queued_simps [simp]:
  "sys_requests demo_queued = []" "sys_next demo_queued = 1" "sys_rules demo_queued = empty_db"
  by (simp_all add: demo_queued_def demo_sys_def)

lemma demo_storable: "handler_storable demo_task"
  by (simp add: handler_storable_def demo_task_def task_of_def storable_time_def)

lemma demo_decodes: "handler_deserialize bool_literal (handler_serialize demo_task) = Inr demo_task"
  by (rule literals.handler_codec.round_trip [OF demo_storable])

lemma demo_post_again: "\<exists>e. requests_post demo_app (Some 42) ''req-1'' demo_body demo_queued = (Inl e, demo_queued)"
proof -
  have "rexists mem_redis (sys_redis demo_queued) (task_key (handler_hashed_id demo_task))"
    by (simp add: demo_queued_def demo_sys_def mem_redis_def mem_put_def)
  moreover have "ht_failed_at demo_task = None"
    by (simp add: demo_task_def task_of_def)
  ultimately have "\<exists>e. clear_failed_task demo_app (task_key (handler_hashed_id demo_task)) demo_queued = (Inl e, demo_queued)"
    by (simp add: clear_failed_task_def demo_stored demo_decodes bindS_def raiseS_def)
  moreover have "run_phase1_checks demo_app 7 42 demo_set demo_queued = (Inr [], demo_queued)"
    by (rule demo_no_phase1) (simp add: demo_queued_def demo_sys_def)
  moreover have "sys_requests demo_queued = []"
    by (simp add: demo_queued_def demo_sys_def)
  ultimately show ?thesis
    unfolding demo_post_steps by (auto simp: bindS_def has_request_def)
qed

section \<open>Submissions\<close>

text \<open>
  (C8) A submission that raises, for whatever reason, costs nothing: in every state the endpoints and
  daemons reach, every rate-limit counter and cooldown timestamp reads as before, and the tables of
  requests and rules are unchanged.
\<close>
theorem rejected_submission_costs_nothing:
  assumes "app_ok A" "pydantic_sound (a_parse A)" "flow_reachable A s"
    and "requests_post A caller http_id body s = (Inl e, s')"
  shows "(\<forall>k. quota_key k \<longrightarrow> quota (a_env A) (sys_redis s') k = quota (a_env A) (sys_redis s) k) \<and>
     sys_requests s' = sys_requests s \<and> sys_rules s' = sys_rules s"
  using post_raise_quiet [OF assms(1) reachable_rules_ok [OF assms(1-3)] _ assms(4)] reachable_flow_inv [OF assms(1-3)]
  by (simp add: quiet_def flow_inv_def quotas_same_def)

theorem rejected_submission_costs_nothing_witness:
  "\<exists>e s'. requests_post demo_app (Some 42) ''req-1'' demo_body demo_queued = (Inl e, s') \<and>
     sys_requests s' = sys_requests demo_queued \<and> sys_rules s' = sys_rules demo_queued"
  using rejected_submission_costs_nothing [OF demo_app_ok demo_sound demo_queued_reachable] demo_post_again by blast



text \<open>
  (C10) No submission in another user's name: in a queue that enforces the match, the stored task of a
  caller who is not an administrator carries the caller's own identifier, whatever the body said.
\<close>
theorem request_attribution:
  assumes "app_ok A" "pydantic_sound (a_parse A)" "bool_reader (a_lit A)" "flow_reachable A s"
    and "requests_post A (Some cid) http_id body s = (Inr h, s')"
    and "a_queues A (rb_queue_id body) = Some queue" "q_enforce_user_id_match queue" "\<not> a_is_admin A cid"
  shows "\<exists>t. handler_deserialize (a_lit A) (rhgetall (R_of A) (sys_redis s') (task_key h)) = Inr t \<and> ht_user_id t = cid"
proof -
  obtain uid bms where adm: "admitted A (Some cid) body s uid bms"
    and t: "handler_deserialize (a_lit A) (rhgetall (R_of A) (sys_redis s') (task_key h)) = Inr (task_of body uid http_id)"
    using post_accepted [OF assms(1,3) reachable_rules_ok [OF assms(1,2,4)] _ assms(5)] reachable_flow_inv [OF assms(1,2,4)]
    by (auto simp: flow_inv_def)
  have "uid = cid"
    using adm assms(6-8) by (auto simp: admitted_def requesting_user_def split: if_splits)
  with t show ?thesis by (simp add: task_of_def)
qed

theorem request_attribution_witness:
  "\<exists>t. handler_deserialize bool_literal (rhgetall mem_redis (sys_redis demo_queued) (task_key (handler_hashed_id demo_task))) = Inr t \<and>
     ht_user_id t = 42"
  using request_attribution [OF demo_app_ok demo_sound demo_reader demo_start demo_post]
  by (simp add: demo_body_def)

text \<open>
  A pending task blocks: while the task of an earlier submission of the same beatmapset to the
  same queue is stored and has not failed, no submission is accepted.
\<close>
theorem pending_task_blocks:
  assumes "app_ok A" "pydantic_sound (a_parse A)" "bool_reader (a_lit A)" "flow_reachable A s"
    and "rexists (R_of A) (sys_redis s) (task_key (handler_hashed_id t))"
    and "handler_deserialize (a_lit A) (rhgetall (R_of A) (sys_redis s) (task_key (handler_hashed_id t))) = Inr t"
    and "ht_failed_at t = None" "rb_queue_id body = ht_queue_id t" "rb_beatmapset_id body = ht_beatmapset_id t"
  shows "\<exists>e. fst (requests_post A caller http_id body s) = Inl e"
proof (rule ccontr)
  assume "\<nexists>e. fst (requests_post A caller http_id body s) = Inl e"
  then obtain h s' where post: "requests_post A caller http_id body s = (Inr h, s')"
    by (metis prod.collapse sum.exhaust_sel)
  have inv: "quota_inv (a_env A) (sys_redis s)" using reachable_flow_inv [OF assms(1,2,4)] by (simp add: flow_inv_def)
  note acc = post_accepted [OF assms(1,3) reachable_rules_ok [OF assms(1,2,4)] inv post]
  then have "h = handler_hashed_id t"
    using assms(8,9) by (auto simp: handler_hashed_id_def task_of_def)
  with acc assms(5-7) show False by auto
qed

theorem pending_task_blocks_witness:
  "\<exists>e. fst (requests_post demo_app (Some 42) ''req-2'' demo_body demo_queued) = Inl e"
proof (rule pending_task_blocks [OF demo_app_ok demo_sound demo_reader demo_queued_reachable, where t = demo_task])
  show "handler_deserialize (a_lit demo_app)
      (rhgetall (R_of demo_app) (sys_redis demo_queued) (task_key (handler_hashed_id demo_task))) = Inr demo_task"
    by (simp add: demo_stored demo_decodes)
qed (simp_all add: demo_queued_def demo_sys_def mem_redis_def mem_put_def demo_task_def task_of_def demo_body_def)

section \<open>Stored requests\<close>

text \<open>A memory store without strings takes every hash.\<close>

definition no_strings :: "mem_store \<Rightarrow> bool" where
  "no_strings s \<longleftrightarrow> (\<forall>k. mem_get s k = None)"

lemma no_strings_hset:
  assumes "no_strings s"
  shows "\<exists>s'. rhset mem_redis k new s = (Inr (), s') \<and> no_strings s'"
  using assms by (simp add: no_strings_def mem_redis_def mem_get_def map_of_mem_put)

lemma demo_dispatch:
  assumes "no_strings (sys_redis s)"
  shows "\<exists>r. dispatch_validation_task demo_app rid qid bid http_id s = (Inr (), s\<lparr>sys_redis := r\<rparr>) \<and> no_strings r"
proof -
  let ?task = "\<lparr>vt_request_id = rid, vt_queue_id = qid, vt_beatmapset_id = bid, vt_http_request_id = http_id,
      vt_rules_snapshot = snapshot_active_rules demo_app (sys_rules s) qid, vt_completed_at = None, vt_failed_at = None\<rparr>"
  obtain r where "rhset mem_redis (task_key (validation_hashed_id (a_str_hash demo_app) ?task)) (validation_serialize ?task)
      (sys_redis s) = (Inr (), r)" "no_strings r"
    using no_strings_hset [OF assms] by blast
  moreover have "rpublish mem_redis ch m r = (Inr (), r)" for ch m
    by (simp add: mem_redis_def)
  ultimately show ?thesis
    by (intro exI [of _ r]) (simp add: dispatch_validation_task_def Let_def bindS_def on_redis_def)
qed

lemma demo_handled:
  obtains s' where "handler_execute_job demo_app demo_now (handler_hashed_id demo_task) demo_queued = (Inr (), s')"
    "sys_requests s' = [row_of demo_task 1 3]" "flow_reachable demo_app s'"
proof -
  let ?s1 = "demo_queued\<lparr>sys_requests := [row_of demo_task 1 3], sys_next := 2\<rparr>"
  let ?h = "handler_hashed_id demo_task"
  have ns: "no_strings (sys_redis ?s1)"
    by (simp add: no_strings_def demo_queued_def demo_sys_def mem_get_def mem_put_def)
  have ne: "handler_serialize demo_task \<noteq> []"
    by (simp add: handler_serialize_def handler_fields_def)
  have add: "add_request demo_app demo_task demo_queued = (Inr 1, ?s1)"
    by (simp add: add_request_def request_before_insert_def bindS_def row_of_def demo_task_def task_of_def demo_body_def)
  obtain r where r: "dispatch_validation_task demo_app 1 (ht_queue_id demo_task) (ht_beatmapset_id demo_task)
      (ht_http_request_id demo_task) ?s1 = (Inr (), ?s1\<lparr>sys_redis := r\<rparr>)" "no_strings r"
    using demo_dispatch [OF ns] by blast
  obtain r' where "rhset mem_redis (task_key ?h) [(''completed_at'', isoformat demo_now)] r = (Inr (), r')"
    using no_strings_hset [OF r(2)] by blast
  then have run: "handler_execute_job demo_app demo_now ?h demo_queued = (Inr (), ?s1\<lparr>sys_redis := r'\<rparr>)"
    using add r(1) by (simp add: handler_execute_job_def mark_failed_def demo_stored demo_decodes ne handle_record_def bindS_def on_redis_def)
  have "flow_reachable demo_app (?s1\<lparr>sys_redis := r'\<rparr>)"
    using step_reachable [OF demo_queued_reachable handle [of demo_app demo_queued demo_now ?h]] run by simp
  with run that show ?thesis by simp
qed

lemma find_unique: "distinct (map f xs) \<Longrightarrow> x \<in> set xs \<Longrightarrow> find (\<lambda>y. f y = f x) xs = Some x"
  by (induction xs) auto

text \<open>
  (C11) At most one request per beatmapset and queue: in every state the endpoints and daemons reach,
  in any order and with any failures, no two rows share their beatmapset and queue, and no two share
  their identifier.
\<close>
theorem one_request_per_beatmapset:
  assumes "app_ok A" "pydantic_sound (a_parse A)" "flow_reachable A s"
  shows "distinct (map (\<lambda>r. (rq_beatmapset_id r, rq_queue_id r)) (sys_requests s)) \<and> distinct (map rq_id (sys_requests s))"
  using reachable_flow_inv [OF assms] by (simp add: flow_inv_def requests_inv_def)

theorem one_request_per_beatmapset_witness:
  "\<exists>s. sys_requests s = [row_of demo_task 1 3] \<and>
     distinct (map (\<lambda>r. (rq_beatmapset_id r, rq_queue_id r)) (sys_requests (s :: mem_store sys)))"
proof -
  obtain s' where "sys_requests s' = [row_of demo_task 1 3]" "flow_reachable demo_app s'"
    using demo_handled by blast
  with one_request_per_beatmapset [OF demo_app_ok demo_sound] show ?thesis by blast
qed



text \<open> Deleting a request frees its beatmapset: afterwards the queue has no request for it and Redis
  holds no handler task under the identifier a new submission gets.
\<close>
theorem delete_frees_beatmapset:
  assumes "app_ok A" "pydantic_sound (a_parse A)" "flow_reachable A s" "request \<in> set (sys_requests s)"
    and "requests_delete A (rq_id request) s = (Inr (), s')"
    and "ht_queue_id t = rq_queue_id request" "ht_beatmapset_id t = rq_beatmapset_id request"
  shows "\<not> has_request (sys_requests s') (rq_beatmapset_id request) (rq_queue_id request) \<and>
     \<not> rexists (R_of A) (sys_redis s') (task_key (handler_hashed_id t))"
proof -
  note inv = reachable_flow_inv [OF assms(1-3), unfolded flow_inv_def requests_inv_def]
  then have found: "find (\<lambda>r. rq_id r = rq_id request) (sys_requests s) = Some request"
    using assms(4) by (auto intro: find_unique)
  let ?k = "task_key (handler_hashed_id t)"
  let ?v = "task_key (positive_hash [a_str_hash A ''validation'', py_hash_int (rq_id request)])"
  have k: "?k = task_key (positive_hash [py_hash_int (rq_queue_id request), py_hash_int (rq_beatmapset_id request)])"
    using assms(6,7) by (simp add: handler_hashed_id_def)
  obtain r1 r2 where r1: "rdelete (R_of A) ?k (sys_redis s) = (Inr (), r1)" and r2: "rdelete (R_of A) ?v r1 = (Inr (), r2)"
    and s': "s' = s\<lparr>sys_redis := r2, sys_requests := filter (\<lambda>r. rq_id r \<noteq> rq_id request) (sys_requests s)\<rparr>"
    using assms(5) unfolding requests_delete_def found k by (auto simp: bindS_eq_Inr on_redis_Inr)
  have "\<not> rexists (R_of A) r2 ?k"
    using delete_same_but [OF assms(1) r1] delete_same_but [OF assms(1) r2]
    by (cases "?k = ?v") (auto simp: same_but_def)
  moreover have "r = request"
    if "r \<in> set (sys_requests s)" "rq_beatmapset_id r = rq_beatmapset_id request" "rq_queue_id r = rq_queue_id request" for r
    using inv that assms(4) by (auto simp: distinct_map dest: inj_onD)
  ultimately show ?thesis using s' by (auto simp: has_request_def)
qed

theorem delete_frees_beatmapset_witness:
  "\<exists>s s'. sys_requests s = [row_of demo_task 1 3] \<and> requests_delete demo_app 1 s = (Inr (), s') \<and>
     \<not> rexists mem_redis (sys_redis s') (task_key (handler_hashed_id demo_task))"
proof -
  obtain s where rows: "sys_requests s = [row_of demo_task 1 3]" and reach: "flow_reachable demo_app s"
    using demo_handled by blast
  have mem: "row_of demo_task 1 3 \<in> set (sys_requests s)" by (simp add: rows)
  obtain s' where del: "requests_delete demo_app (rq_id (row_of demo_task 1 3)) s = (Inr (), s')"
    by (simp add: requests_delete_def rows row_of_def bindS_def on_redis_def mem_redis_def)
  have "ht_queue_id demo_task = rq_queue_id (row_of demo_task 1 3)" "ht_beatmapset_id demo_task = rq_beatmapset_id (row_of demo_task 1 3)"
    "rq_id (row_of demo_task 1 3) = 1"
    by (simp_all add: row_of_def)
  with delete_frees_beatmapset [OF demo_app_ok demo_sound reach mem del this(1,2)] del rows show ?thesis
    by (intro exI [of _ s] exI [of _ s']) simp
qed

section \<open>Validation\<close>

definition demo_unique_rule :: queue_rule where
  "demo_unique_rule = \<lparr>rule_id = 5, rule_queue_id = 7, rule_type = ''unique_artist_title'',
     rule_config = JDict [(''normalize_versions'', JBool False)], is_active = True, is_public = True, rule_version = ''1.0''\<rparr>"

definition demo_rule_db :: rule_db where
  "demo_rule_db = \<lparr>db_rules = [demo_unique_rule], db_next = 6\<rparr>"

text \<open>
  (C13) The rules a request is validated against are those of its submission: the text of the snapshot
  is read back to stand-ins of the queue's active rules, one for one, and the runner selects and
  evaluates a stand-in exactly as it does the rule.
\<close>
theorem snapshot_round_trip:
  assumes "float_text (e_float_repr (a_env A)) (a_parse_float A)" "rules_json_wf (get_rules db qid True)"
  shows "rules_from_snapshot A (snapshot_active_rules A db qid) = Inr (Some (map stand_in (get_rules db qid True))) \<and>
     (\<forall>r. validate_one (a_registry A) W (stand_in r) = validate_one (a_registry A) W r) \<and>
     (\<forall>rs. select_tier3 (a_registry A) (map stand_in rs) = bindR (select_tier3 (a_registry A) rs) (\<lambda>xs. Inr (map stand_in xs)))"
  using snapshot_read [OF assms] by (simp add: validate_one_stand_in select_stand_in)

lemma demo_get_rules: "get_rules demo_rule_db 7 True = [demo_unique_rule]"
  by (simp add: get_rules_def demo_rule_db_def demo_unique_rule_def)

lemma demo_rules_wf: "rules_json_wf (get_rules demo_rule_db 7 True)"
  by (simp add: demo_get_rules rules_json_wf_def demo_unique_rule_def)

lemma demo_float_text: "float_text (e_float_repr (a_env demo_app)) (a_parse_float demo_app)"
  by (simp add: ratio_float_text)

theorem snapshot_round_trip_witness:
  "rules_from_snapshot demo_app (snapshot_active_rules demo_app demo_rule_db 7) = Inr (Some [stand_in demo_unique_rule])"
  using snapshot_round_trip [OF demo_float_text demo_rules_wf] by (simp add: demo_get_rules)


definition demo_vtask :: validation_task where
  "demo_vtask = validation_of demo_app demo_task 1 demo_rule_db"

definition demo_vsys :: "mem_store sys" where
  "demo_vsys = \<lparr>sys_redis = [], sys_requests = [row_of demo_task 1 3], sys_next = 2, sys_rules = demo_rule_db\<rparr>"

definition demo_vworld :: "mem_store world" where
  "demo_vworld = world_of demo_app (sys_redis demo_vsys)"

definition demo_vctx :: exec_context where
  "demo_vctx = validation_context 7 42 demo_set"

lemma demo_unique_result:
  "\<exists>m. fst (unique_artist_title_check strict_parse (\<lambda>_. [])
     (demo_vctx\<lparr>last_violation := None, config := JDict [(''normalize_versions'', JBool False)]\<rparr>))
     \<in> {Inr (), Inl (RuleViolationError ''unique_artist_title'' m)}"
  by (auto simp: unique_artist_title_check_def demo_unique_config readS_def bindS_def demo_vctx_def validation_context_def
      request_context_def METADATA_PROVIDERS_def get_metadata_def Let_def)

lemma demo_unique_outcome: "snd (fst (validate_one default_registry demo_vworld (stand_in demo_unique_rule) demo_vctx)) \<noteq> RETRYABLE"
proof -
  let ?c = "demo_vctx\<lparr>last_violation := None, config := JDict [(''normalize_versions'', JBool False)]\<rparr>"
  have "build_node demo_unique_rule =
      Inr (AtomicRuleNode (JStr ''unique_artist_title'') (JDict [(''normalize_versions'', JBool False)]))"
    unfolding build_node_def
    by (subst build_rule_node.simps)
      (simp add: node_type_def node_config_def demo_unique_rule_def config_or_empty_def)
  moreover have "lookup_class (default_registry :: mem_store registry) (JStr ''unique_artist_title'') =
      Some \<lparr>vc_check = (\<lambda>W. restriction_check ''unique_artist_title''
          (database_check ''unique_artist_title'' (unique_artist_title_check (w_parse W) (w_rows W)))),
        vc_versions = supported_versions ''unique_artist_title''\<rparr>"
    by (simp add: lookup_class_def get_validator_def default_registry_def map_add_def TIER_1_VALIDATORS_def
        TIER_2_VALIDATORS_def TIER_3_VALIDATORS_def beatmap_validators_def)
  moreover have "restriction_check ''unique_artist_title'' (database_check ''unique_artist_title'' f) ?c = f ?c" for f :: "unit step"
    by (simp add: restriction_check_def database_check_def demo_vctx_def validation_context_def)
  moreover have "w_parse demo_vworld = strict_parse" "w_rows demo_vworld = (\<lambda>_. [])"
    by (simp_all add: demo_vworld_def world_of_def demo_app_def)
  ultimately show ?thesis
    using demo_unique_result
    by (auto simp: validate_one_stand_in validate_one_def run_rule_def evaluate_atomic_def outcome_of_def Let_def split: prod.splits)
qed

lemma one_task_schedule:
  "p2_reachable [v] \<lparr>shared_violation = snd v, status = (\<lambda>_. Waiting)(0 := Done (own_outcome v))\<rparr>"
proof -
  let ?s0 = "\<lparr>shared_violation = None, status = (\<lambda>_. Waiting)\<rparr>"
  let ?s1 = "\<lparr>shared_violation = None, status = (\<lambda>_. Waiting)(0 := Running)\<rparr>"
  have "p2_step [v] ?s0 ?s1"
    using p2_step.start [of 0 "[v]" ?s0] by simp
  moreover have "p2_step [v] ?s1 \<lparr>shared_violation = snd v, status = (\<lambda>_. Waiting)(0 := Done (own_outcome v))\<rparr>"
    using p2_step.finish [of 0 "[v]" ?s1 "snd v"] by (simp add: own_outcome_def split: option.splits)
  ultimately show ?thesis
    unfolding p2_reachable_def by (simp add: rtranclp.rtrancl_into_rtrancl)
qed

definition demo_sched :: p2_state where
  "demo_sched = (let v = verdict_of default_registry demo_vworld demo_vctx (stand_in demo_unique_rule) in
     \<lparr>shared_violation = snd v, status = (\<lambda>_. Waiting)(0 := Done (own_outcome v))\<rparr>)"

lemma demo_tier3: "tier3_rules demo_app [stand_in demo_unique_rule] = [stand_in demo_unique_rule]"
  by (simp add: tier3_rules_def demo_unique_rule_def get_validator_tier_def default_registry_def)

lemma demo_select: "select_tier3 (default_registry :: 'r registry) [stand_in demo_unique_rule] = Inr [stand_in demo_unique_rule]"
proof -
  have "check_version (default_registry :: 'r registry) demo_unique_rule"
    by (simp add: check_version_def demo_unique_rule_def get_validator_def default_registry_def map_add_def
        TIER_1_VALIDATORS_def TIER_2_VALIDATORS_def TIER_3_VALIDATORS_def beatmap_validators_def supported_versions_def)
  moreover have "get_tier (default_registry :: 'r registry) demo_unique_rule = Inr 3"
    by (simp add: get_tier_def effective_rule_tier.simps leaf_tier_def get_validator_tier_def default_registry_def demo_unique_rule_def)
  moreover have "is_active demo_unique_rule"
    by (simp add: demo_unique_rule_def)
  ultimately show ?thesis by simp
qed

lemma demo_snap: "rules_from_snapshot demo_app (vt_rules_snapshot demo_vtask) = Inr (Some [stand_in demo_unique_rule])"
  using snapshot_read [OF demo_float_text demo_rules_wf]
  by (simp add: demo_vtask_def validation_of_def demo_task_def task_of_def demo_body_def demo_get_rules)

lemma demo_request: "find (\<lambda>r. rq_id r = vt_request_id demo_vtask) (sys_requests demo_vsys) = Some (row_of demo_task 1 3)"
  by (simp add: demo_vsys_def demo_vtask_def validation_of_def row_of_def)

lemma demo_run_validation: "\<exists>s'. run_validation demo_app demo_sched demo_vtask demo_vsys = (Inr (), s')"
proof -
  let ?o = "own_outcome (verdict_of default_registry demo_vworld demo_vctx (stand_in demo_unique_rule))"
  have "?o \<noteq> RETRYABLE"
    using demo_unique_outcome by (simp add: validate_one_own)
  then have "\<exists>rs. combine_outcomes (gathered [rule_type (stand_in demo_unique_rule)] demo_sched) = Inr rs"
    by (cases ?o) (simp_all add: combine_outcomes_def gathered_def outcome_at_def demo_sched_def Let_def)
  then have p2: "\<exists>rs. phase2_run (default_registry :: mem_store registry) demo_sched [stand_in demo_unique_rule] = Inr rs"
    unfolding phase2_run_def demo_select by simp
  obtain x s' where run: "run_validation demo_app demo_sched demo_vtask demo_vsys = (x, s')" by fastforce
  then have "x = Inr ()"
  proof (cases rule: run_validation_cases)
    case (ran snap request bms)
    then have "snap = Some [stand_in demo_unique_rule]" using demo_snap by simp
    with ran(5) p2 show ?thesis by (auto simp: snapshot_or_live_def demo_tier3)
  qed (simp_all add: demo_snap)
  with run show ?thesis by simp
qed


text \<open>
  A composite rule with a descendant of Tier 3 is never checked: the synchronous runner leaves
  it to the asynchronous one, and the validator selects rules by the tier of their own type, which a
  composite does not have. A queue whose only rule it is accepts everything.
\<close>
theorem tier3_composite_never_checked:
  assumes "a_registry A = default_registry" "rule_type r = ''composite''" "get_tier (a_registry A) r = Inr 3"
    and "rules_from_snapshot A (vt_rules_snapshot t) = Inr (Some [r])"
  shows "phase1_run (a_registry A) W [r] c = (Inr (), c) \<and> run_validation A sched t s = (Inr (), s)"
proof -
  have "tier3_rules A [r] = []"
    using assms(1,2) by (simp add: tier3_rules_def composite_not_tier3)
  then have "run_validation A sched t s = (Inr (), s)"
    using assms(4) unfolding tier3_rules_def by (auto simp: run_validation_def bindS_def Let_def split: option.splits)
  then show ?thesis using assms(3) by (simp add: bindS_def retS_def)
qed

definition demo_composite :: queue_rule where
  "demo_composite = \<lparr>rule_id = 6, rule_queue_id = 7, rule_type = ''composite'',
     rule_config = JDict [(''operator'', JStr ''and''), (''rules'', JList [JDict [(''type'', JStr ''unique_artist_title''), (''config'', JDict [])]])],
     is_active = True, is_public = True, rule_version = ''1.0''\<rparr>"

definition demo_composite_db :: rule_db where
  "demo_composite_db = \<lparr>db_rules = [demo_composite], db_next = 7\<rparr>"

theorem tier3_composite_never_checked_witness:
  "run_validation demo_app demo_sched (validation_of demo_app demo_task 1 demo_composite_db) demo_vsys = (Inr (), demo_vsys)"
proof -
  have rules: "get_rules demo_composite_db 7 True = [demo_composite]"
    by (simp add: get_rules_def demo_composite_db_def demo_composite_def)
  have "rules_json_wf (get_rules demo_composite_db 7 True)"
    by (simp add: rules rules_json_wf_def demo_composite_def)
  from snapshot_read [OF demo_float_text this]
  have snap: "rules_from_snapshot demo_app (vt_rules_snapshot (validation_of demo_app demo_task 1 demo_composite_db)) =
      Inr (Some [stand_in demo_composite])"
    by (simp add: rules validation_of_def demo_task_def task_of_def demo_body_def)
  have leaf: "effective_rule_tier (default_registry :: mem_store registry) (JStr ''unique_artist_title'') cfg = Inr 3" for cfg
    by (simp add: effective_rule_tier.simps leaf_tier_def get_validator_tier_def default_registry_def)
  have "get_tier (default_registry :: mem_store registry) demo_composite = Inr 3"
    unfolding get_tier_def
    by (subst effective_rule_tier.simps)
      (simp add: demo_composite_def config_or_empty_def composite_children_def json_or_def with_dict_def children_of_def leaf)
  then have tier: "get_tier (a_registry demo_app) (stand_in demo_composite) = Inr 3"
    by simp
  from tier3_composite_never_checked [OF _ _ tier snap] show ?thesis by (simp add: demo_composite_def)
qed

section \<open>Failure paths\<close>

text \<open>
  A handler job for a task that is not stored poisons the identifier: the job's error path
  writes \<^verbatim>\<open>failed_at\<close> into the missing hash, which exists from then on and does not decode, so every later
  submission of the beatmapset to the queue raises.
\<close>
theorem missing_task_poisons_submission:
  assumes "app_ok A" "pydantic_sound (a_parse A)" "bool_reader (a_lit A)" "flow_reachable A s"
    and "rhgetall (R_of A) (sys_redis s) (task_key (handler_hashed_id t)) = []"
    and "handler_execute_job A now (handler_hashed_id t) s = (Inl (PyExc ''ValueError''), s1)"
    and "rhset (R_of A) (task_key (handler_hashed_id t)) [(''failed_at'', isoformat now)] (sys_redis s) = (Inr (), r)"
    and "rb_queue_id body = ht_queue_id t" "rb_beatmapset_id body = ht_beatmapset_id t"
  shows "\<exists>e. fst (requests_post A caller http_id body s1) = Inl e"
proof (rule ccontr)
  assume "\<nexists>e. fst (requests_post A caller http_id body s1) = Inl e"
  then obtain h s' where post: "requests_post A caller http_id body s1 = (Inr h, s')"
    by (metis prod.collapse sum.exhaust_sel)
  have reach: "flow_reachable A s1"
    using step_reachable [OF assms(4) handle [of A s now "handler_hashed_id t"]] assms(6) by simp
  have inv: "quota_inv (a_env A) (sys_redis s1)" using reachable_flow_inv [OF assms(1,2) reach] by (simp add: flow_inv_def)
  note ok = reachable_rules_ok [OF assms(1,2) reach]
  have "h = handler_hashed_id t"
    using post_accepted [OF assms(1,3) ok inv post] assms(8,9) by (auto simp: handler_hashed_id_def task_of_def)
  with orphan_job(1) [OF assms(1,5,6) HOL.refl assms(7)] orphan_job(2) [OF assms(1,5,6) HOL.refl assms(7), of "a_lit A"]
    post_blocked [OF assms(1) post assms(3) ok inv]
  show False by auto
qed

theorem missing_task_poisons_submission_witness:
  "\<exists>e s1. handler_execute_job demo_app demo_now (handler_hashed_id demo_task) demo_sys = (Inl (PyExc ''ValueError''), s1) \<and>
     fst (requests_post demo_app (Some 42) ''req-1'' demo_body s1) = Inl e"
proof -
  let ?k = "task_key (handler_hashed_id demo_task)"
  have absent: "rhgetall (R_of demo_app) (sys_redis demo_sys) ?k = []"
    by (simp add: demo_sys_def mem_redis_def mem_hgetall_def)
  obtain r where r: "rhset (R_of demo_app) ?k [(''failed_at'', isoformat demo_now)] (sys_redis demo_sys) = (Inr (), r)"
    by (simp add: demo_sys_def mem_redis_def mem_get_def)
  then have job: "handler_execute_job demo_app demo_now (handler_hashed_id demo_task) demo_sys =
      (Inl (PyExc ''ValueError''), demo_sys\<lparr>sys_redis := r\<rparr>)"
    using absent by (simp add: handler_execute_job_def mark_failed_def bindS_def on_redis_def raiseS_def)
  from missing_task_poisons_submission [OF demo_app_ok demo_sound demo_reader demo_start absent job r, of demo_body "Some 42" "''req-1''"] job
  show ?thesis by (simp add: demo_task_def task_of_def demo_body_def)
qed

text \<open> Two versions of a rate limit with the same configuration share one counter and are no
  duplicates of each other: with a maximum of one, a queue that has both blocks every request.
\<close>
theorem rate_limit_versions_share_counter:
  assumes "redis_string_laws (e_redis E)" "quota_inv E s" "rate_limit_config_ok d" "rule_applies d uid"
    and "rate_limit_key E qid uid d = Inr key" "dget d ''max_requests'' = JInt 1" "0 \<le> quota E s key"
    and "rule_type r = ''rate_limit''" "rule_config r = JDict d" "is_active r" "rule_version r = ''1.0''" "r' = r\<lparr>rule_version := ''1.1''\<rparr>"
  shows "rule_key fr r \<noteq> rule_key fr r' \<and> (\<exists>e s'. reserve_stateful_rules E qid uid [r, r'] s = (Inl e, s'))"
proof -
  have "d \<noteq> []" using assms(6) by auto
  then have cfg: "config_or_empty (JDict d) = JDict d" by (simp add: config_or_empty_def)
  have act: "\<not> skips_reservation r" "\<not> skips_reservation r'"
    using assms(8-12) by (simp_all add: skips_reservation_def STATEFUL_RULE_TYPES_def supported_versions_def)
  obtain s1 where s1: "quota_inv E s1" "if quota E s key < 1
      then rate_limit_reserve E qid uid d s = (Inr (Some key), s1) \<and> quota E s1 key = quota E s key + 1
      else rate_limit_reserve E qid uid d s = (Inl (limit_error E qid d), s1)"
    using rate_limit_reserve_cases [OF assms(1-6)] by (auto split: if_splits)
  obtain s2 where s2: "\<not> quota E s1 key < 1 \<Longrightarrow> rate_limit_reserve E qid uid d s1 = (Inl (limit_error E qid d), s2)"
    using rate_limit_reserve_cases [OF assms(1) s1(1) assms(3-6)] by (auto split: if_splits)
  have "\<exists>e s'. reserve_stateful_rules E qid uid [r, r'] s = (Inl e, s')"
    using s1(2) s2 assms(7-9,12) act by (auto simp: reserve_stateful_rules_def reserve_def cfg split: if_splits)
  then show ?thesis using assms(11,12) by (simp add: rule_key_def)
qed

theorem rate_limit_versions_share_counter_witness:
  "\<exists>e s'. reserve_stateful_rules demo_env 7 42 [demo_rules ! 0, (demo_rules ! 0)\<lparr>rule_version := ''1.1''\<rparr>] [] = (Inl e, s')"
  using rate_limit_versions_share_counter [OF demo_laws quota_inv_empty demo_rate_ok _ demo_rate_key demo_config_simps(1), of "demo_rules ! 0"]
  by (simp add: demo_rules_def rule_applies_def demo_applies quota_def counter_at_def mem_get_def)

end
