(* ===== verification/Store_Properties.thy ===== *)
theory Store_Properties
  imports Redis_Hash Rule_Store Rule_Properties
begin

text \<open>
  Properties of what the program keeps: the table of rules behind its endpoints, and the tasks
  that travel through Redis hashes.
\<close>

section \<open>The table of rules\<close>


definition demo_rule_body :: dict where
  "demo_rule_body = [(''type'', JStr ''cooldown''), (''config'', JDict demo_cooldown_config)]"

lemma demo_schema:
  "validate_rule_config strict_parse ''cooldown'' demo_cooldown_config = Inr demo_cooldown_config"
proof -
  have "map_of (RULE_CONFIG_SCHEMA_MAP strict_parse) ''cooldown'' = Some CooldownConfig"
    by (simp add: map_of_leaf_schema leaf_schema_map_def)
  then show ?thesis
    by (simp add: validate_rule_config_def construct_def CooldownConfig_def strict_parse_def args_typed_def
        fill_defaults_def run_field_validators_def demo_cooldown_config_def as_validation_def require_at_least_def num_below_def
        model_dump_exclude_none_def)
qed

definition demo_rule_data :: rule_data where
  "demo_rule_data = \<lparr>rd_type = ''cooldown'', rd_config = Some demo_cooldown_config, rd_is_active = None,
     rd_is_public = Some True, rd_version = Some ''1.0''\<rparr>"

lemma demo_parsed: "parse_rule_data strict_parse RuleCreateSchema demo_rule_body = Inr demo_rule_data"
proof -
  have "construct_ignoring strict_parse RuleCreateSchema demo_rule_body =
      Inr [(''type'', JStr ''cooldown''), (''config'', JDict demo_cooldown_config), (''is_public'', JBool True), (''version'', JStr ''1.0'')]"
    by (simp add: construct_ignoring_def construct_def RuleCreateSchema_def strict_parse_def args_typed_def fill_defaults_def
        run_field_validators_def demo_rule_body_def RuleType_def as_validation_def)
  then show ?thesis
    by (simp add: parse_rule_data_def demo_schema demo_rule_data_def)
qed

lemma demo_created:
  "snd (rules_post strict_parse (default_registry :: mem_store registry) fr (\<lambda>_. True) 7 demo_rule_body empty_db) =
     \<lparr>db_rules = [new_rule 1 7 demo_rule_data], db_next = 2\<rparr>"
proof -
  have "validate_rule_version (default_registry :: mem_store registry) ''cooldown'' ''1.0'' = Inr ()"
    by (simp add: validate_rule_version_def get_supported_versions_def default_registry_def map_add_def
        TIER_1_VALIDATORS_def TIER_2_VALIDATORS_def TIER_3_VALIDATORS_def beatmap_validators_def supported_versions_def)
  then show ?thesis
    by (simp add: rules_post_def require_queue_def bindS_def as_bad_request_def demo_parsed in_session_def create_rule_def
        get_rules_def empty_db_def insert_rule_def demo_rule_data_def Let_def)
qed


section \<open>Tasks in Redis\<close>

text \<open>
  A task survives Redis: what \<^verbatim>\<open>serialize\<close> writes, \<^verbatim>\<open>deserialize\<close> reads back to the same task, also when
  the daemon has meanwhile written a completion or failure time into the hash, which then is the
  time of the task read.
\<close>
theorem task_round_trip:
  assumes "bool_reader rd" "handler_storable t" "valid_datetime now" "year now < 10000"
  shows "handler_deserialize rd (handler_serialize t) = Inr t \<and>
     handler_deserialize rd (AList.update ''completed_at'' (isoformat now) (handler_serialize t)) = Inr (t\<lparr>ht_completed_at := Some now\<rparr>) \<and>
     handler_deserialize rd (AList.update ''failed_at'' (isoformat now) (handler_serialize t)) = Inr (t\<lparr>ht_failed_at := Some now\<rparr>)"
proof -
  have "handler_storable (t\<lparr>ht_completed_at := Some now\<rparr>)" "handler_storable (t\<lparr>ht_failed_at := Some now\<rparr>)"
    using assms(2-4) by (simp_all add: handler_storable_def storable_time_def)
  with assms(2) show ?thesis
    unfolding handler_serialize_failed [symmetric] handler_serialize_completed [symmetric]
    by (simp add: bool_reader.handler_round_trip [OF assms(1)])
qed

definition demo_handler_task :: handler_task where
  "demo_handler_task = \<lparr>ht_user_id = 42, ht_beatmapset_id = 100, ht_queue_id = 7, ht_comment = ''please'', ht_mv_checked = True,
     ht_http_request_id = ''req-1'', ht_completed_at = None, ht_failed_at = None\<rparr>"

theorem task_round_trip_witness:
  "handler_deserialize bool_literal (AList.update ''failed_at'' (isoformat demo_now) (handler_serialize demo_handler_task)) =
     Inr (demo_handler_task\<lparr>ht_failed_at := Some demo_now\<rparr>)"
proof -
  have "handler_storable demo_handler_task" by (simp add: handler_storable_def demo_handler_task_def storable_time_def)
  moreover have "valid_datetime demo_now" "year demo_now < 10000"
    by (simp_all add: demo_now_def valid_datetime_def days_in_month_def days_before_month_def month_offsets_def)
  ultimately show ?thesis
    using task_round_trip [OF literals.bool_reader_axioms] by blast
qed

text \<open>
  The identifiers of tasks: Python's 64-bit tuple hash with the sign bit masked off gives a
  number from 0 to 9223372036854775807, the same for every submission of a beatmapset to a queue, whoever
  makes it and whatever the comment.
\<close>
theorem hashed_id_range:
  "0 \<le> handler_hashed_id t \<and> handler_hashed_id t < 2 ^ 63 \<and> 0 \<le> validation_hashed_id h v \<and> validation_hashed_id h v < 2 ^ 63 \<and>
   handler_hashed_id (t\<lparr>ht_user_id := u, ht_comment := c, ht_mv_checked := m, ht_http_request_id := r\<rparr>) = handler_hashed_id t"
  using positive_hash_bounds by (simp add: handler_hashed_id_def validation_hashed_id_def)

end
