(* ===== verification/Daemon_Service.thy ===== *)
theory Daemon_Service
  imports Prelude
begin

text \<open>
  How the daemon runs its tasks: the retrying decorator (\<^verbatim>\<open>src/app/daemon/services/decorators.py\<close>), the
  back-off strategies (\<^verbatim>\<open>service/task/backoff.py\<close>), the loop that restarts a failed task
  (\<^verbatim>\<open>Service._start_task\<close>), and the supervisor that runs whole services as tasks
  (\<^verbatim>\<open>src/app/daemon/supervisor.py\<close>).

  While a task sleeps the rest of the program goes on: what it does to the state is a parameter
  \<open>env\<close>, indexed by the number of the attempt that has just failed. The loop without a maximum may
  run forever; it is a partial function whose value is then \<^term>\<open>None\<close>.
\<close>

section \<open>Retrying a call\<close>

definition MAX_ATTEMPTS :: nat where
  "MAX_ATTEMPTS = 5"

definition square_backoff :: "nat \<Rightarrow> rat" where
  "square_backoff attempt_no = of_nat (attempt_no ^ 2)"

text \<open>The loop over the attempt numbers; the result carries the delays slept.\<close>

fun attempt_loop ::
  "nat \<Rightarrow> (exn \<Rightarrow> bool) \<Rightarrow> (nat \<Rightarrow> rat) \<Rightarrow> (nat \<Rightarrow> 's \<Rightarrow> 's) \<Rightarrow> ('s, 'a) act \<Rightarrow> nat list \<Rightarrow> 's \<Rightarrow>
   'a option res \<times> rat list \<times> 's" where
  "attempt_loop max_attempts retry backoff_strategy env f [] s = (Inr None, [], s)"
| "attempt_loop max_attempts retry backoff_strategy env f (attempt # rest) s =
     (case f s of
        (Inr x, s') \<Rightarrow> (Inr (Some x), [], s')
      | (Inl e, s') \<Rightarrow>
          if \<not> retry e \<or> attempt = max_attempts then (Inl e, [], s')
          else (case attempt_loop max_attempts retry backoff_strategy env f rest (env attempt s') of
                  (r, ds, s'') \<Rightarrow> (r, backoff_strategy attempt # ds, s'')))"

definition auto_retry ::
  "nat \<Rightarrow> (exn \<Rightarrow> bool) \<Rightarrow> (nat \<Rightarrow> rat) \<Rightarrow> (nat \<Rightarrow> 's \<Rightarrow> 's) \<Rightarrow> ('s, 'a) act \<Rightarrow> 's \<Rightarrow> 'a option res \<times> rat list \<times> 's" where
  "auto_retry max_attempts retry backoff_strategy env f =
     attempt_loop max_attempts retry backoff_strategy env f [1..<max_attempts + 1]"

text \<open>The state in which attempt \<open>n\<close> starts, when the first one starts in \<open>s\<close> with number \<open>k\<close>.\<close>

fun before_attempt :: "(nat \<Rightarrow> 's \<Rightarrow> 's) \<Rightarrow> ('s, 'a) act \<Rightarrow> nat \<Rightarrow> nat \<Rightarrow> 's \<Rightarrow> 's" where
  "before_attempt env f k 0 s = s"
| "before_attempt env f k (Suc n) s = before_attempt env f (Suc k) n (env k (snd (f s)))"

definition retryable :: "(exn \<Rightarrow> bool) \<Rightarrow> 'a res \<Rightarrow> bool" where
  "retryable retry r \<longleftrightarrow> (\<exists>e. r = Inl e \<and> retry e)"

lemma attempt_loop_stops:
  assumes "k \<le> m" "0 < k"
  shows "\<exists>n \<le> m - k. (\<forall>i < n. retryable retry (fst (f (before_attempt env f k i s)))) \<and>
     (n < m - k \<longrightarrow> \<not> retryable retry (fst (f (before_attempt env f k n s)))) \<and>
     attempt_loop m retry bo env f [k..<m + 1] s =
       (map_sum id Some (fst (f (before_attempt env f k n s))), map bo [k..<k + n], snd (f (before_attempt env f k n s)))"
  using assms
proof (induction "m - k" arbitrary: k s)
  case 0
  then have "[k..<m + 1] = [k]" "k = m" by auto
  then show ?case by (auto simp: upt_rec split: sum.splits prod.splits)
next
  case (Suc d)
  then have k: "k < m" and upt: "[k..<m + 1] = k # [Suc k..<m + 1]" by (auto simp: upt_rec)
  obtain r s' where f: "f s = (r, s')" by fastforce
  show ?case
  proof (cases "retryable retry r")
    case False
    then show ?thesis
      using f k unfolding upt by (intro exI [of _ 0]) (auto simp: retryable_def split: sum.splits)
  next
    case True
    then obtain e where e: "r = Inl e" "retry e" by (auto simp: retryable_def)
    have d: "d = m - Suc k" "Suc k \<le> m" "0 < Suc k" using Suc.hyps(2) k by simp_all
    obtain n where n: "n \<le> m - Suc k" "\<forall>i < n. retryable retry (fst (f (before_attempt env f (Suc k) i (env k s'))))"
        "n < m - Suc k \<longrightarrow> \<not> retryable retry (fst (f (before_attempt env f (Suc k) n (env k s'))))"
        "attempt_loop m retry bo env f [Suc k..<m + 1] (env k s') =
           (map_sum id Some (fst (f (before_attempt env f (Suc k) n (env k s')))), map bo [Suc k..<Suc k + n],
            snd (f (before_attempt env f (Suc k) n (env k s'))))"
      using Suc.hyps(1) [of "Suc k" "env k s'"] d k by blast
    have "\<forall>i < Suc n. retryable retry (fst (f (before_attempt env f k i s)))"
      using n(2) f True by (auto simp: less_Suc_eq_0_disj)
    moreover have "map bo [k..<k + Suc n] = bo k # map bo [Suc k..<Suc k + n]"
      by (simp add: upt_conv_Cons del: upt_Suc)
    ultimately show ?thesis
      using n(1,3,4) f e k unfolding upt by (intro exI [of _ "Suc n"]) (auto simp del: upt_Suc)
  qed
qed

section \<open>Back-off strategies\<close>

datatype backoff =
    ConstantBackoff rat
  | LinearBackoff rat rat rat
  | ExponentialBackoff rat rat rat rat

definition linear_backoff :: "rat \<Rightarrow> rat \<Rightarrow> backoff" where
  "linear_backoff step max_delay = LinearBackoff step max_delay 0"

definition exponential_backoff :: "rat \<Rightarrow> rat \<Rightarrow> rat \<Rightarrow> backoff" where
  "exponential_backoff base factor max_delay = ExponentialBackoff base factor max_delay base"

fun next_delay :: "backoff \<Rightarrow> rat \<times> backoff" where
  "next_delay (ConstantBackoff delay) = (delay, ConstantBackoff delay)"
| "next_delay (LinearBackoff step max_delay current) =
     (let current' = min (current + step) max_delay in (current', LinearBackoff step max_delay current'))"
| "next_delay (ExponentialBackoff base factor max_delay current) =
     (current, ExponentialBackoff base factor max_delay (min (current * factor) max_delay))"

fun reset_backoff :: "backoff \<Rightarrow> backoff" where
  "reset_backoff (ConstantBackoff delay) = ConstantBackoff delay"
| "reset_backoff (LinearBackoff step max_delay current) = LinearBackoff step max_delay 0"
| "reset_backoff (ExponentialBackoff base factor max_delay current) = ExponentialBackoff base factor max_delay base"

text \<open>The delays of the first \<open>n\<close> failures.\<close>

fun delays_of :: "nat \<Rightarrow> backoff \<Rightarrow> rat list" where
  "delays_of 0 b = []"
| "delays_of (Suc n) b = (case next_delay b of (d, b') \<Rightarrow> d # delays_of n b')"

lemma linear_delays:
  assumes "0 \<le> step" "current \<le> max_delay"
  shows "delays_of n (LinearBackoff step max_delay current) =
     map (\<lambda>i. min (current + of_nat (Suc i) * step) max_delay) [0..<n]"
  using assms(2)
proof (induction n arbitrary: current)
  case (Suc n)
  have "min (min (current + step) max_delay + of_nat (Suc i) * step) max_delay =
      min (current + of_nat (Suc (Suc i)) * step) max_delay" for i
  proof -
    have "0 \<le> of_nat (Suc i) * step" using assms(1) by simp
    then show ?thesis by (simp add: min_def algebra_simps)
  qed
  then show ?case
    using Suc.IH [of "min (current + step) max_delay"]
    by (simp add: Let_def upt_conv_Cons map_Suc_upt [symmetric] del: upt_Suc of_nat_Suc)
qed simp

lemma exponential_delays:
  assumes "1 \<le> factor" "0 \<le> current" "current \<le> max_delay"
  shows "delays_of n (ExponentialBackoff base factor max_delay current) =
     map (\<lambda>i. min (current * factor ^ i) max_delay) [0..<n]"
  using assms(2,3)
proof (induction n arbitrary: current)
  case (Suc n)
  have step: "min (min (current * factor) max_delay * factor ^ i) max_delay = min (current * factor ^ Suc i) max_delay" for i
  proof (cases "current * factor \<le> max_delay")
    case False
    have "1 \<le> factor ^ i" using assms(1) by simp
    then have "max_delay * 1 \<le> max_delay * factor ^ i" "current * factor * 1 \<le> current * factor * factor ^ i"
      using Suc.prems assms(1) by (intro mult_left_mono; simp)+
    with False show ?thesis by (simp add: min_def algebra_simps)
  qed (simp add: algebra_simps)
  have "0 \<le> min (current * factor) max_delay" using Suc.prems assms(1) by simp
  then show ?case
    using Suc.IH [of "min (current * factor) max_delay"] Suc.prems
    by (simp add: upt_conv_Cons map_Suc_upt [symmetric] step del: upt_Suc power_Suc)
qed simp

section \<open>Running a task until it stops\<close>

text \<open>A hook's exception is logged and forgotten; what it did to the state stays.\<close>

definition safe_hook :: "('s, unit) act option \<Rightarrow> 's \<Rightarrow> 's" where
  "safe_hook hook s = (case hook of None \<Rightarrow> s | Some h \<Rightarrow> snd (h s))"

record 's task_spec =
  factory :: "('s, unit) act"
  critical :: bool
  backoff :: "backoff option"
  max_retries :: "nat option"
  on_failure :: "exn \<Rightarrow> nat \<Rightarrow> ('s, unit) act option"
  on_max_retries_exceeded :: "nat \<Rightarrow> ('s, unit) act option"
  on_task_failure :: "exn \<Rightarrow> nat \<Rightarrow> ('s, unit) act option"
  on_critical_failure :: "exn \<Rightarrow> ('s, unit) act option"

definition is_cancelled :: "exn \<Rightarrow> bool" where
  "is_cancelled e \<longleftrightarrow> e = PyExc ''CancelledError''"

definition exhausted :: "'s task_spec \<Rightarrow> nat \<Rightarrow> bool" where
  "exhausted spec failures \<longleftrightarrow> (case max_retries spec of None \<Rightarrow> False | Some m \<Rightarrow> failures > m)"

definition failure_hooks :: "'s task_spec \<Rightarrow> exn \<Rightarrow> nat \<Rightarrow> 's \<Rightarrow> 's" where
  "failure_hooks spec e failures s = safe_hook (on_task_failure spec e failures) (safe_hook (on_failure spec e failures) s)"

definition delay_of :: "rat \<Rightarrow> backoff option \<Rightarrow> rat \<times> backoff option" where
  "delay_of default_backoff_delay bo =
     (case bo of None \<Rightarrow> (default_backoff_delay, None) | Some b \<Rightarrow> (case next_delay b of (d, b') \<Rightarrow> (d, Some b')))"

text \<open>The result of the loop, the number of failures, the delays slept and the state.\<close>

type_synonym 's run_result = "unit res \<times> nat \<times> rat list \<times> 's"

partial_function (option) runner ::
  "'s task_spec \<Rightarrow> rat \<Rightarrow> (nat \<Rightarrow> 's \<Rightarrow> 's) \<Rightarrow> nat \<Rightarrow> backoff option \<Rightarrow> rat list \<Rightarrow> 's \<Rightarrow> 's run_result option" where
  "runner spec dflt env failures bo delays s =
     (case factory spec s of
        (Inr _, s') \<Rightarrow> Some (Inr (), failures, delays, s')
      | (Inl e, s') \<Rightarrow>
          if is_cancelled e then Some (Inl e, failures, delays, s')
          else if critical spec then
            Some (Inl e, Suc failures, delays, safe_hook (on_critical_failure spec e) (failure_hooks spec e (Suc failures) s'))
          else if exhausted spec (Suc failures) then
            Some (Inr (), Suc failures, delays,
              safe_hook (on_max_retries_exceeded spec (Suc failures)) (failure_hooks spec e (Suc failures) s'))
          else runner spec dflt env (Suc failures) (snd (delay_of dflt bo)) (delays @ [fst (delay_of dflt bo)])
                 (env (Suc failures) (failure_hooks spec e (Suc failures) s')))"

definition start_task :: "'s task_spec \<Rightarrow> rat \<Rightarrow> (nat \<Rightarrow> 's \<Rightarrow> 's) \<Rightarrow> 's \<Rightarrow> 's run_result option" where
  "start_task spec dflt env s = runner spec dflt env 0 (backoff spec) [] s"

text \<open>A bounded task stops, and sleeps what its strategy says.\<close>

definition slept :: "rat \<Rightarrow> backoff option \<Rightarrow> nat \<Rightarrow> rat list" where
  "slept dflt bo k = (case bo of None \<Rightarrow> replicate k dflt | Some b \<Rightarrow> delays_of k b)"

lemma slept_0 [simp]: "slept dflt bo 0 = []"
  by (simp add: slept_def split: option.splits)

lemma slept_Suc: "slept dflt bo (Suc k) = fst (delay_of dflt bo) # slept dflt (snd (delay_of dflt bo)) k"
  by (simp add: slept_def delay_of_def split: option.splits prod.splits)

lemma runner_bounded:
  assumes "max_retries spec = Some m" "failures \<le> m"
  shows "\<exists>r n k s'. runner spec dflt env failures bo delays s = Some (r, n, delays @ slept dflt bo k, s') \<and>
     n \<le> Suc m \<and> k \<le> m - failures \<and> (\<forall>e. r = Inl e \<longrightarrow> is_cancelled e \<or> critical spec)"
  using assms(2)
proof (induction "m - failures" arbitrary: failures bo delays s rule: less_induct)
  case less
  obtain x s' where f: "factory spec s = (x, s')" by fastforce
  consider (stop) v where "x = Inr v" | (stop') e where "x = Inl e" "is_cancelled e \<or> critical spec \<or> exhausted spec (Suc failures)"
    | (again) e where "x = Inl e" "\<not> is_cancelled e" "\<not> critical spec" "\<not> exhausted spec (Suc failures)"
    by (cases x) auto
  then show ?case
  proof cases
    case again
    let ?d = "delay_of dflt bo" and ?s = "env (Suc failures) (failure_hooks spec (projl x) (Suc failures) s')"
    have le: "Suc failures \<le> m" using again(4) assms(1) by (simp add: exhausted_def)
    have "m - Suc failures < m - failures" using le by simp
    from less.hyps [OF this le, of "snd ?d" "delays @ [fst ?d]" ?s]
    obtain r n k t where "runner spec dflt env (Suc failures) (snd ?d) (delays @ [fst ?d]) ?s =
        Some (r, n, (delays @ [fst ?d]) @ slept dflt (snd ?d) k, t)" "n \<le> Suc m" "k \<le> m - Suc failures"
        "\<forall>e. r = Inl e \<longrightarrow> is_cancelled e \<or> critical spec"
      by blast
    then show ?thesis
      using again f le by (intro exI [of _ r] exI [of _ n] exI [of _ "Suc k"] exI [of _ t])
        (simp add: runner.simps [of spec dflt env failures] slept_Suc)
  next
    case stop
    then show ?thesis
      using f less.prems by (intro exI [of _ "Inr ()"] exI [of _ failures] exI [of _ 0] exI [of _ s'])
        (simp add: runner.simps [of spec dflt env failures])
  next
    case stop'
    then show ?thesis
      using f less.prems by (subst runner.simps) (auto intro!: exI [of _ "0 :: nat"])
  qed
qed

section \<open>Supervised services\<close>

text \<open>
  What the supervisor sees of a service: whether its \<^verbatim>\<open>_running\<close> flag is set, whether its name is
  listed, and the rest of the world.
\<close>

record 's supervised =
  sup_running :: bool
  sup_listed :: bool
  sup_world :: 's

definition in_world :: "('s, 'a) act \<Rightarrow> ('s supervised, 'a) act" where
  "in_world m s = (case m (sup_world s) of (r, w) \<Rightarrow> (r, s\<lparr>sup_world := w\<rparr>))"

text \<open>
  \<^verbatim>\<open>Service.start\<close>: the flag is set first, then \<^verbatim>\<open>_on_start\<close> runs, then
  the tasks are launched and \<^verbatim>\<open>_on_started\<close> runs (\<open>launch\<close>).
\<close>

definition service_start :: "('s, unit) act \<Rightarrow> ('s, unit) act \<Rightarrow> ('s supervised, unit) act" where
  "service_start on_start launch s =
     (if sup_running s then (Inl (PyExc ''RuntimeError''), s)
      else bindS (in_world on_start) (\<lambda>_. in_world launch) (s\<lparr>sup_running := True\<rparr>))"

text \<open>
  \<^verbatim>\<open>Service.stop\<close>: whatever the stop hook does, the task groups are closed; once that has succeeded the
  flag is reset and the last hook runs, whose exception wins.
\<close>

definition service_stop :: "('s, unit) act \<Rightarrow> ('s, unit) act \<Rightarrow> ('s, unit) act \<Rightarrow> ('s supervised, unit) act" where
  "service_stop on_stop close_groups on_stopped s =
     (if \<not> sup_running s then (Inr (), s)
      else (case in_world on_stop s of
              (r, s1) \<Rightarrow>
                (case in_world close_groups s1 of
                   (Inl e, s2) \<Rightarrow> (Inl e, s2)
                 | (Inr _, s2) \<Rightarrow>
                     (case in_world on_stopped (s2\<lparr>sup_running := False\<rparr>) of
                        (Inl e, s3) \<Rightarrow> (Inl e, s3)
                      | (Inr _, s3) \<Rightarrow> (r, s3)))))"

text \<open>A stopped service can be started again; a stop that cannot close the groups leaves it running.\<close>

lemma service_stop_running:
  assumes "service_stop on_stop close_groups on_stopped s = (r, s')"
  shows "sup_running s' \<longleftrightarrow> sup_running s \<and> (\<exists>e w. close_groups (snd (on_stop (sup_world s))) = (Inl e, w))"
  using assms
  by (cases "on_stop (sup_world s)"; cases "close_groups (snd (on_stop (sup_world s)))")
     (auto simp: service_stop_def in_world_def split: if_splits prod.splits sum.splits)

definition serve_forever :: "('s, unit) act \<Rightarrow> ('s supervised, unit) act" where
  "serve_forever wait_for_stop = in_world wait_for_stop"

text \<open>The task that \<^verbatim>\<open>register_service\<close> registers; in the end the name is taken off the list.\<close>

definition supervised_runner :: "('s, unit) act \<Rightarrow> ('s, unit) act \<Rightarrow> ('s, unit) act \<Rightarrow> ('s supervised, unit) act" where
  "supervised_runner on_start launch wait_for_stop s =
     (case bindS (service_start on_start launch) (\<lambda>_. serve_forever wait_for_stop) s of
        (r, s') \<Rightarrow> (r, s'\<lparr>sup_listed := False\<rparr>))"

text \<open>The daemon registers its services without a strategy and without a maximum.\<close>

definition daemon_task :: "('s, unit) act \<Rightarrow> ('s, unit) act \<Rightarrow> ('s, unit) act \<Rightarrow> 's supervised task_spec" where
  "daemon_task on_start launch wait_for_stop =
     \<lparr>factory = supervised_runner on_start launch wait_for_stop, critical = False, backoff = None, max_retries = None,
      on_failure = (\<lambda>_ _. None), on_max_retries_exceeded = (\<lambda>_. None), on_task_failure = (\<lambda>_ _. None),
      on_critical_failure = (\<lambda>_. None)\<rparr>"

lemma running_start_raises:
  "sup_running s \<Longrightarrow> supervised_runner on_start launch wait_for_stop s = (Inl (PyExc ''RuntimeError''), s\<lparr>sup_listed := False\<rparr>)"
  by (simp add: supervised_runner_def service_start_def bindS_def)

text \<open>Nobody stops a service that is no longer listed, so its flag stays.\<close>

definition unlisted_stays :: "(nat \<Rightarrow> 's supervised \<Rightarrow> 's supervised) \<Rightarrow> bool" where
  "unlisted_stays env \<longleftrightarrow>
     (\<forall>n s. \<not> sup_listed s \<longrightarrow> \<not> sup_listed (env n s) \<and> sup_running (env n s) = sup_running s)"

lemma runner_stuck:
  assumes env: "unlisted_stays env" and ret: "runner spec dflt env failures bo delays s = Some r"
    and "spec = daemon_task on_start launch wait_for_stop" "sup_running s" "\<not> sup_listed s"
  shows False
proof -
  have "spec = daemon_task on_start launch wait_for_stop \<longrightarrow> unlisted_stays env \<longrightarrow> sup_running s \<longrightarrow> \<not> sup_listed s \<longrightarrow> False"
  proof (rule runner.raw_induct [where P = "\<lambda>spec dflt env failures bo delays s r.
        spec = daemon_task on_start launch wait_for_stop \<longrightarrow> unlisted_stays env \<longrightarrow> sup_running s \<longrightarrow> \<not> sup_listed s \<longrightarrow> False",
        OF _ ret], intro impI)
    fix run spec dflt env failures bo delays and s :: "'a supervised" and y
    assume IH: "\<And>spec dflt env failures bo delays s y. run spec dflt env failures bo delays s = Some y \<Longrightarrow>
        spec = daemon_task on_start launch wait_for_stop \<longrightarrow> unlisted_stays env \<longrightarrow> sup_running s \<longrightarrow> \<not> sup_listed s \<longrightarrow> False"
      and a: "spec = daemon_task on_start launch wait_for_stop" "unlisted_stays env" "sup_running s" "\<not> sup_listed s"
      and eq: "(case factory spec s of
          (Inl e, s') \<Rightarrow>
            if is_cancelled e then Some (Inl e, failures, delays, s')
            else if critical spec then
              Some (Inl e, Suc failures, delays, safe_hook (on_critical_failure spec e) (failure_hooks spec e (Suc failures) s'))
            else if exhausted spec (Suc failures) then
              Some (Inr (), Suc failures, delays,
                safe_hook (on_max_retries_exceeded spec (Suc failures)) (failure_hooks spec e (Suc failures) s'))
            else run spec dflt env (Suc failures) (snd (delay_of dflt bo)) (delays @ [fst (delay_of dflt bo)])
                   (env (Suc failures) (failure_hooks spec e (Suc failures) s'))
        | (Inr _, s') \<Rightarrow> Some (Inr (), failures, delays, s')) = Some y"
    have "factory spec s = (Inl (PyExc ''RuntimeError''), s\<lparr>sup_listed := False\<rparr>)"
      using a by (simp add: daemon_task_def running_start_raises)
    moreover have "critical spec = False" "exhausted spec n = False" "failure_hooks spec e n t = t" for e n t
      using a(1) by (simp_all add: daemon_task_def exhausted_def failure_hooks_def safe_hook_def)
    ultimately have "run spec dflt env (Suc failures) (snd (delay_of dflt bo)) (delays @ [fst (delay_of dflt bo)])
        (env (Suc failures) (s\<lparr>sup_listed := False\<rparr>)) = Some y"
      using eq by (simp add: is_cancelled_def)
    moreover have "sup_running (env (Suc failures) (s\<lparr>sup_listed := False\<rparr>))"
        "\<not> sup_listed (env (Suc failures) (s\<lparr>sup_listed := False\<rparr>))"
      using a(2,3) by (simp_all add: unlisted_stays_def)
    ultimately show False using IH a(1,2) by blast
  qed
  with assms show False by blast
qed

end
