(* ===== verification/Daemon_Scheduler.thy ===== *)
theory Daemon_Scheduler
  imports Prelude "HOL-Library.Product_Lexorder"
begin

text \<open>
  The job scheduler of the daemon's services (\<^verbatim>\<open>service/scheduled.py\<close>): a heap of pairs of execution
  time and job, the set of active jobs, and the coroutines that handle them. Times are microseconds.
  The heap is kept as the sorted list of its items: \<^verbatim>\<open>heapq.heappop\<close> returns the least pair.

  The steps are the places where the event loop may switch: a message is loaded, the scheduler pops
  one job, a handler that has slept long enough takes a place of the semaphore, its job ends, and the
  handler puts the job back or forgets it.
\<close>

section \<open>State\<close>

record sched_cfg =
  job_concurrency :: nat
  job_interval_hours :: rat
  should_reschedule :: bool

datatype job_phase = Sleeping | Executing | Finished

record sched =
  clock :: int
  job_heap :: "(int \<times> int) list"
  active_job_ids :: "int set"
  handlers :: "(int \<times> int \<times> job_phase) list"

record job_load_instruction =
  execution_time :: "int option"
  last_execution :: "int option"
  interval_hours :: "rat option"
  skip :: bool

definition DEFAULT_JOB_CONCURRENCY :: nat where "DEFAULT_JOB_CONCURRENCY = 5"
definition DEFAULT_JOB_INTERVAL_HOURS :: rat where "DEFAULT_JOB_INTERVAL_HOURS = 24"

text \<open>\<^verbatim>\<open>timedelta(hours=h)\<close> in microseconds, rounded half to even.\<close>

definition timedelta_hours :: "rat \<Rightarrow> int" where
  "timedelta_hours h =
     (let x = h * 3600000000; f = floor x; d = x - of_int f in
      if d < 1 / 2 \<or> (d = 1 / 2 \<and> even f) then f else f + 1)"

section \<open>Operations\<close>

definition heappush :: "(int \<times> int) list \<Rightarrow> int \<times> int \<Rightarrow> (int \<times> int) list" where
  "heappush heap x = insort x heap"

definition get_latest_execution_time :: "sched \<Rightarrow> int" where
  "get_latest_execution_time st =
     (case job_heap st of [] \<Rightarrow> clock st | x # xs \<Rightarrow> foldl max (fst x) (map fst xs))"

text \<open>When to run a job; \<^term>\<open>None\<close> when it is not to be scheduled.\<close>

definition execution_time_of :: "sched_cfg \<Rightarrow> sched \<Rightarrow> job_load_instruction option \<Rightarrow> int option" where
  "execution_time_of cfg st instruction =
     (case instruction of
        None \<Rightarrow> Some (get_latest_execution_time st + 1)
      | Some i \<Rightarrow>
          if skip i then None
          else (case execution_time i of
                  Some t \<Rightarrow> Some t
                | None \<Rightarrow>
                    (case last_execution i of
                       None \<Rightarrow> Some (clock st)
                     | Some t \<Rightarrow>
                         Some (t + timedelta_hours
                           (case interval_hours i of
                              Some h \<Rightarrow> if h = 0 then job_interval_hours cfg else h
                            | None \<Rightarrow> job_interval_hours cfg)))))"

definition load_job :: "sched_cfg \<Rightarrow> int \<Rightarrow> job_load_instruction option \<Rightarrow> sched \<Rightarrow> sched" where
  "load_job cfg job_id instruction st =
     (case execution_time_of cfg st instruction of
        None \<Rightarrow> st
      | Some t \<Rightarrow> st\<lparr>job_heap := heappush (job_heap st) (t, job_id)\<rparr>)"

text \<open>One round of \<^verbatim>\<open>_job_scheduler\<close>. A job that is already active is dropped.\<close>

definition scheduler_pop :: "sched \<Rightarrow> sched" where
  "scheduler_pop st =
     (case job_heap st of
        [] \<Rightarrow> st
      | (t, job_id) # rest \<Rightarrow>
          if job_id \<in> active_job_ids st then st\<lparr>job_heap := rest\<rparr>
          else st\<lparr>job_heap := rest, active_job_ids := insert job_id (active_job_ids st),
                 handlers := handlers st @ [(job_id, t, Sleeping)]\<rparr>)"

definition executing :: "sched \<Rightarrow> nat" where
  "executing st = length (filter (\<lambda>(_, _, ph). ph = Executing) (handlers st))"

text \<open>The end of \<^verbatim>\<open>_handle_job\<close>.\<close>

definition finish_job :: "sched_cfg \<Rightarrow> int \<Rightarrow> sched \<Rightarrow> sched" where
  "finish_job cfg job_id st =
     st\<lparr>job_heap := (if should_reschedule cfg
                     then heappush (job_heap st) (clock st + timedelta_hours (job_interval_hours cfg), job_id)
                     else job_heap st),
        active_job_ids := active_job_ids st - {job_id},
        handlers := filter (\<lambda>(j, _). j \<noteq> job_id) (handlers st)\<rparr>"

inductive sched_step :: "sched_cfg \<Rightarrow> sched \<Rightarrow> sched \<Rightarrow> bool" for cfg where
  tick: "0 \<le> d \<Longrightarrow> sched_step cfg st (st\<lparr>clock := clock st + d\<rparr>)"
| message: "sched_step cfg st (load_job cfg job_id instruction st)"
| pop: "job_heap st \<noteq> [] \<Longrightarrow> sched_step cfg st (scheduler_pop st)"
| begin_job: "handlers st = before @ (j, t, Sleeping) # after \<Longrightarrow> t \<le> clock st \<Longrightarrow> executing st < job_concurrency cfg \<Longrightarrow>
    sched_step cfg st (st\<lparr>handlers := before @ (j, t, Executing) # after\<rparr>)"
| end_job: "handlers st = before @ (j, t, Executing) # after \<Longrightarrow>
    sched_step cfg st (st\<lparr>handlers := before @ (j, t, Finished) # after\<rparr>)"
| finish: "(j, t, Finished) \<in> set (handlers st) \<Longrightarrow> sched_step cfg st (finish_job cfg j st)"

inductive_cases sched_stepE: "sched_step cfg st st'"

definition sched_init :: sched where
  "sched_init = \<lparr>clock = 0, job_heap = [], active_job_ids = {}, handlers = []\<rparr>"

definition sched_reachable :: "sched_cfg \<Rightarrow> sched \<Rightarrow> bool" where
  "sched_reachable cfg st \<longleftrightarrow> (sched_step cfg)\<^sup>*\<^sup>* sched_init st"

section \<open>Single flight\<close>

definition sched_inv :: "sched_cfg \<Rightarrow> sched \<Rightarrow> bool" where
  "sched_inv cfg st \<longleftrightarrow>
     fst ` set (handlers st) = active_job_ids st \<and> distinct (map fst (handlers st)) \<and>
     executing st \<le> job_concurrency cfg \<and> sorted (job_heap st) \<and>
     (\<forall>(j, t, ph) \<in> set (handlers st). ph \<noteq> Sleeping \<longrightarrow> t \<le> clock st)"

lemma ids_without: "fst ` set (filter (\<lambda>(j', _). j' \<noteq> j) hs) = fst ` set hs - {j}"
  by (induction hs) auto

lemma sched_step_inv:
  assumes "sched_step cfg st st'" "sched_inv cfg st"
  shows "sched_inv cfg st'"
  using assms(1)
proof cases
  case (tick d)
  with assms(2) show ?thesis by (fastforce simp: sched_inv_def executing_def)
next
  case (message job_id instruction)
  with assms(2) show ?thesis
    by (simp add: sched_inv_def load_job_def heappush_def sorted_insort executing_def split: option.splits)
next
  case pop
  with assms(2) show ?thesis
    by (auto simp: sched_inv_def scheduler_pop_def executing_def split: list.splits)
next
  case (begin_job before j t after)
  with assms(2) show ?thesis by (auto simp: sched_inv_def executing_def)
next
  case (end_job before j t after)
  with assms(2) show ?thesis by (auto simp: sched_inv_def executing_def)
next
  case (finish j t)
  have "filter P (filter Q xs) = filter Q (filter P xs)" for P Q and xs :: "(int \<times> int \<times> job_phase) list"
    by (simp add: conj_commute)
  then have "executing (finish_job cfg j st) \<le> executing st"
    by (simp add: executing_def finish_job_def del: filter_filter)
  moreover have "fst ` set (handlers (finish_job cfg j st)) = active_job_ids st - {j}"
    using assms(2) by (simp add: sched_inv_def finish_job_def ids_without del: set_filter)
  moreover have "active_job_ids (finish_job cfg j st) = active_job_ids st - {j}" "sorted (job_heap (finish_job cfg j st))"
      "distinct (map fst (handlers (finish_job cfg j st)))" "clock (finish_job cfg j st) = clock st"
      "set (handlers (finish_job cfg j st)) \<subseteq> set (handlers st)"
    using assms(2) by (auto simp: sched_inv_def finish_job_def heappush_def sorted_insort distinct_map_filter)
  ultimately show ?thesis
    using finish(1) assms(2) unfolding sched_inv_def by auto
qed

lemma reachable_sched_inv: "sched_reachable cfg st \<Longrightarrow> sched_inv cfg st"
  unfolding sched_reachable_def
proof (induction rule: rtranclp_induct)
  case base
  show ?case by (simp add: sched_inv_def sched_init_def executing_def)
next
  case (step y z)
  then show ?case by (blast intro: sched_step_inv)
qed

section \<open>No job is lost, or one is\<close>

definition known_jobs :: "sched \<Rightarrow> int set" where
  "known_jobs st = snd ` set (job_heap st) \<union> active_job_ids st"

lemma periodic_known:
  assumes "should_reschedule cfg" "sched_step cfg st st'"
  shows "known_jobs st \<subseteq> known_jobs st'"
  using assms(2)
proof cases
  case (message job_id instruction)
  then show ?thesis by (auto simp: known_jobs_def load_job_def heappush_def set_insort_key split: option.splits)
next
  case pop
  then show ?thesis by (auto simp: known_jobs_def scheduler_pop_def split: list.splits)
next
  case (finish j t)
  with assms(1) show ?thesis by (auto simp: known_jobs_def finish_job_def heappush_def set_insort_key)
qed (auto simp: known_jobs_def)

text \<open>As many rounds as the heap has items make every queued job active.\<close>

lemma pop_active: "active_job_ids st \<subseteq> active_job_ids (scheduler_pop st)"
  by (auto simp: scheduler_pop_def split: list.splits)

lemma pops_active: "active_job_ids st \<subseteq> active_job_ids ((scheduler_pop ^^ n) st)"
  by (induction n) (use pop_active in fastforce)+

lemma scheduler_drains:
  "snd ` set (job_heap st) \<subseteq> active_job_ids ((scheduler_pop ^^ length (job_heap st)) st)"
proof (induction "job_heap st" arbitrary: st)
  case (Cons x heap)
  obtain t j where x: "x = (t, j)" by fastforce
  have h: "job_heap (scheduler_pop st) = heap" and j: "j \<in> active_job_ids (scheduler_pop st)"
    using Cons.hyps(2) [symmetric] x by (auto simp: scheduler_pop_def)
  have "(scheduler_pop ^^ length (job_heap st)) st = (scheduler_pop ^^ length heap) (scheduler_pop st)"
    using Cons.hyps(2) [symmetric] by (simp add: funpow_swap1)
  moreover have "snd ` set heap \<subseteq> active_job_ids ((scheduler_pop ^^ length heap) (scheduler_pop st))"
    using Cons.hyps(1) [of "scheduler_pop st"] h by simp
  moreover have "j \<in> active_job_ids ((scheduler_pop ^^ length heap) (scheduler_pop st))"
    using pops_active j by blast
  ultimately show ?case using Cons.hyps(2) [symmetric] x by auto
qed auto

end
