(* ===== verification/Daemon_Properties.thy ===== *)
theory Daemon_Properties
  imports Daemon_Service Daemon_Scheduler
begin

text \<open>
  Properties of the daemon, with instances: retrying and restarting of tasks, and the scheduler.
\<close>

section \<open>Retrying\<close>

text \<open>
  (C16) The retrying decorator ends: with at least one attempt allowed it calls the function at most
  that often; every call but the last failed with a retryable exception; the result and the state
  are those of the last call, which was not retryable unless it was the last allowed; between the
  calls it slept exactly the delays of its strategy, 30 seconds in all at most with the defaults.
\<close>
theorem auto_retry_ends:
  assumes "0 < max_attempts"
  shows "\<exists>n < max_attempts.
     (\<forall>i < n. retryable retry (fst (f (before_attempt env f 1 i s)))) \<and>
     (n < max_attempts - 1 \<longrightarrow> \<not> retryable retry (fst (f (before_attempt env f 1 n s)))) \<and>
     auto_retry max_attempts retry strategy env f s =
       (map_sum id Some (fst (f (before_attempt env f 1 n s))), map strategy [1..<1 + n], snd (f (before_attempt env f 1 n s))) \<and>
     (max_attempts = MAX_ATTEMPTS \<and> strategy = square_backoff \<longrightarrow> sum_list (map strategy [1..<1 + n]) \<le> 30)"
proof -
  obtain n where n: "n \<le> max_attempts - 1" "\<forall>i < n. retryable retry (fst (f (before_attempt env f 1 i s)))"
      "n < max_attempts - 1 \<longrightarrow> \<not> retryable retry (fst (f (before_attempt env f 1 n s)))"
      "attempt_loop max_attempts retry strategy env f [1..<max_attempts + 1] s =
        (map_sum id Some (fst (f (before_attempt env f 1 n s))), map strategy [1..<1 + n], snd (f (before_attempt env f 1 n s)))"
    using attempt_loop_stops [of 1 max_attempts retry f env s strategy] assms by auto
  have "sum_list (map square_backoff [1..<1 + n]) \<le> 30" if "max_attempts = MAX_ATTEMPTS"
  proof -
    have "n \<in> {0, 1, 2, 3, 4}" using n(1) that by (auto simp: MAX_ATTEMPTS_def)
    then show ?thesis by (auto simp: square_backoff_def upt_conv_Cons)
  qed
  moreover have "n < max_attempts" using n(1) assms by simp
  ultimately show ?thesis using n(2-4) unfolding auto_retry_def by blast
qed

definition demo_flaky :: "(nat, string) act" where
  "demo_flaky s = (if s < 2 then (Inl (PyExc ''ConnectTimeout''), Suc s) else (Inr ''done'', Suc s))"

theorem auto_retry_ends_witness:
  "\<exists>n < MAX_ATTEMPTS. auto_retry MAX_ATTEMPTS (\<lambda>e. e = PyExc ''ConnectTimeout'') square_backoff (\<lambda>_ s. s) demo_flaky 0 =
     (map_sum id Some (fst (demo_flaky (before_attempt (\<lambda>_ s. s) demo_flaky 1 n 0))), map square_backoff [1..<1 + n],
      snd (demo_flaky (before_attempt (\<lambda>_ s. s) demo_flaky 1 n 0)))"
proof -
  have "0 < MAX_ATTEMPTS" by (simp add: MAX_ATTEMPTS_def)
  from auto_retry_ends [OF this] show ?thesis by metis
qed

text \<open>A task with a maximum of retries stops, raising only when it is critical or cancelled.\<close>

theorem bounded_task_stops:
  assumes "max_retries spec = Some m"
  shows "\<exists>r n k s'. start_task spec dflt env s = Some (r, n, slept dflt (backoff spec) k, s') \<and> n \<le> Suc m \<and> k \<le> m \<and>
     (\<forall>e. r = Inl e \<longrightarrow> is_cancelled e \<or> critical spec)"
  using runner_bounded [OF assms, of 0 dflt env "backoff spec" "[]" s] by (auto simp: start_task_def)

text \<open>The strategies in closed form.\<close>

theorem backoff_closed_form:
  assumes "0 \<le> step" "0 \<le> max_delay" "1 \<le> factor" "0 \<le> base" "base \<le> max_delay"
  shows "delays_of n (linear_backoff step max_delay) = map (\<lambda>i. min (of_nat (Suc i) * step) max_delay) [0..<n]"
    and "delays_of n (exponential_backoff base factor max_delay) = map (\<lambda>i. min (base * factor ^ i) max_delay) [0..<n]"
  using linear_delays [OF assms(1,2)] exponential_delays [OF assms(3-5)]
  by (simp_all add: linear_backoff_def exponential_backoff_def)

text \<open>
  (C17) A supervised service whose start-up fails is lost: the flag set before the hook stays set, so
  every later attempt raises without running the start-up again, and the restart loop, which the
  daemon runs without a maximum and with no delay, never returns.
\<close>
theorem failed_start_never_recovers:
  assumes "on_start (sup_world s) = (Inl e, w)" "\<not> is_cancelled e" "\<not> sup_running s" "unlisted_stays env"
  shows "start_task (daemon_task on_start launch wait_for_stop) 0 env s = None \<and>
     (\<exists>s1. supervised_runner on_start launch wait_for_stop s = (Inl e, s1) \<and> sup_running s1 \<and> \<not> sup_listed s1) \<and>
     (\<forall>s2. sup_running s2 \<longrightarrow> supervised_runner on_start launch wait_for_stop s2 =
        (Inl (PyExc ''RuntimeError''), s2\<lparr>sup_listed := False\<rparr>))"
proof -
  let ?spec = "daemon_task on_start launch wait_for_stop"
  let ?s1 = "s\<lparr>sup_running := True, sup_world := w, sup_listed := False\<rparr>"
  have first: "supervised_runner on_start launch wait_for_stop s = (Inl e, ?s1)"
    using assms(1,3) by (simp add: supervised_runner_def service_start_def bindS_def in_world_def)
  have spec: "critical ?spec = False" "exhausted ?spec n = False" "failure_hooks ?spec x n t = t" "factory ?spec = supervised_runner on_start launch wait_for_stop"
      "backoff ?spec = None" for x n t
    by (simp_all add: daemon_task_def exhausted_def failure_hooks_def safe_hook_def)
  have "sup_running (env 1 ?s1)" "\<not> sup_listed (env 1 ?s1)"
    using assms(4) by (auto simp: unlisted_stays_def)
  then have "runner ?spec 0 env 1 bo ds (env 1 ?s1) = None" for bo ds
    using runner_stuck [OF assms(4)] by (metis not_None_eq)
  then have "start_task ?spec 0 env s = None"
    unfolding start_task_def spec by (subst runner.simps) (simp add: spec first assms(2))
  then show ?thesis using first running_start_raises by fastforce
qed

definition demo_on_start :: "(nat, unit) act" where
  "demo_on_start w = (Inl (PyExc ''ConnectionError''), Suc w)"

theorem failed_start_never_recovers_witness:
  "start_task (daemon_task demo_on_start (retS ()) (retS ())) 0 (\<lambda>_ s. s)
     \<lparr>sup_running = False, sup_listed = True, sup_world = 0\<rparr> = None"
  using failed_start_never_recovers [of demo_on_start "\<lparr>sup_running = False, sup_listed = True, sup_world = 0\<rparr>" _ _ "\<lambda>_ s. s"]
  by (simp add: demo_on_start_def is_cancelled_def unlisted_stays_def)

section \<open>The scheduler\<close>

text \<open>
  (C18) The scheduler never runs a job twice at the same time: in every reachable state each job has
  one handler at most, exactly the active jobs have one, no more than the configured number execute,
  and none starts before its time.
\<close>
theorem single_flight:
  assumes "sched_reachable cfg st"
  shows "distinct (map fst (handlers st)) \<and> fst ` set (handlers st) = active_job_ids st \<and>
     executing st \<le> job_concurrency cfg \<and> (\<forall>(j, t, ph) \<in> set (handlers st). ph = Executing \<longrightarrow> t \<le> clock st)"
  using reachable_sched_inv [OF assms] by (auto simp: sched_inv_def)

definition demo_cfg :: sched_cfg where
  "demo_cfg = \<lparr>job_concurrency = 5, job_interval_hours = 24, should_reschedule = False\<rparr>"

definition demo_now_instruction :: job_load_instruction where
  "demo_now_instruction = \<lparr>execution_time = Some 0, last_execution = None, interval_hours = None, skip = False\<rparr>"

lemma demo_run:
  "sched_reachable demo_cfg \<lparr>clock = 0, job_heap = [], active_job_ids = {7}, handlers = [(7, 0, Executing)]\<rparr>"
proof -
  let ?s1 = "\<lparr>clock = 0, job_heap = [(0, 7)], active_job_ids = {}, handlers = []\<rparr>"
  let ?s2 = "\<lparr>clock = 0, job_heap = [], active_job_ids = {7}, handlers = [(7, 0, Sleeping)]\<rparr>"
  have "sched_step demo_cfg sched_init ?s1"
    using message [of demo_cfg sched_init 7 "Some demo_now_instruction"]
    by (simp add: load_job_def execution_time_of_def demo_now_instruction_def heappush_def sched_init_def)
  moreover have "sched_step demo_cfg ?s1 ?s2"
    using pop [of ?s1 demo_cfg] by (simp add: scheduler_pop_def)
  moreover have "sched_step demo_cfg ?s2 \<lparr>clock = 0, job_heap = [], active_job_ids = {7}, handlers = [(7, 0, Executing)]\<rparr>"
    using begin_job [of ?s2 "[]" 7 0 "[]" demo_cfg] by (simp add: executing_def demo_cfg_def)
  ultimately show ?thesis
    unfolding sched_reachable_def by (meson rtranclp.rtrancl_into_rtrancl rtranclp.rtrancl_refl)
qed

theorem single_flight_witness:
  "executing \<lparr>clock = 0, job_heap = [], active_job_ids = {7}, handlers = [(7, 0, Executing)]\<rparr> \<le> job_concurrency demo_cfg"
  using single_flight [OF demo_run] by blast



text \<open>
  A one-off service can lose a message: one that arrives after the job's work has ended and before
  its handler has left the set of active jobs is dropped, and nothing remembers the job.
\<close>

theorem one_off_message_lost:
  assumes "\<not> should_reschedule cfg" "job_heap st = []" "handlers st = [(j, t, Finished)]" "active_job_ids st = {j}"
  shows "\<exists>st'. (sched_step cfg)\<^sup>*\<^sup>* (load_job cfg j (Some (demo_now_instruction\<lparr>execution_time := Some (clock st)\<rparr>)) st) st' \<and>
     j \<notin> known_jobs st' \<and> handlers st' = []"
proof -
  let ?s1 = "load_job cfg j (Some (demo_now_instruction\<lparr>execution_time := Some (clock st)\<rparr>)) st"
  have s1: "?s1 = st\<lparr>job_heap := [(clock st, j)]\<rparr>"
    using assms(2) by (simp add: load_job_def execution_time_of_def demo_now_instruction_def heappush_def)
  have "sched_step cfg ?s1 (scheduler_pop ?s1)" by (rule pop) (simp add: s1)
  moreover have s2: "scheduler_pop ?s1 = st\<lparr>job_heap := []\<rparr>"
    using assms(4) by (simp add: s1 scheduler_pop_def)
  moreover have "sched_step cfg (scheduler_pop ?s1) (finish_job cfg j (scheduler_pop ?s1))"
    using assms(3) by (intro finish [of _ t]) (simp add: s2)
  ultimately have "(sched_step cfg)\<^sup>*\<^sup>* ?s1 (finish_job cfg j (scheduler_pop ?s1))"
    by (meson converse_rtranclp_into_rtranclp rtranclp.rtrancl_refl)
  moreover have "j \<notin> known_jobs (finish_job cfg j (scheduler_pop ?s1))" "handlers (finish_job cfg j (scheduler_pop ?s1)) = []"
    using assms by (simp_all add: s2 known_jobs_def finish_job_def)
  ultimately show ?thesis by blast
qed

end
