(* ===== verification/Redis_Client.thy ===== *)
theory Redis_Client
  imports Redis_Hash
begin

text \<open>
  What the program builds on top of the Redis commands: the distributed lock and the paged scan of
  \<^verbatim>\<open>src/app/redis/rc.py\<close>, the rate limiting of outgoing calls (\<^verbatim>\<open>src/app/redis/decorators.py\<close>), and the
  token shared by the osu! API clients (\<^verbatim>\<open>src/app/osu_api/client/base.py\<close>). Times are seconds.
\<close>

section \<open>The lock\<close>

definition LOCK_EXPIRY :: rat where "LOCK_EXPIRY = 10"
definition LOCK_ACQUISITION_TIMEOUT :: rat where "LOCK_ACQUISITION_TIMEOUT = 10"
definition LOCK_ACQUISITION_RETRY_INTERVAL :: rat where "LOCK_ACQUISITION_RETRY_INTERVAL = 1"

text \<open>
  A client that enters \<^verbatim>\<open>lock_ctx\<close> draws a token and tries until its deadline. The lock is one key with
  an owner's token and a time at which the server forgets it.
\<close>

datatype client_phase = Outside | Trying rat | Inside rat | Left | TimedOut

record lock_state =
  lk_now :: rat
  lock_key :: "(string \<times> rat) option"
  lk_client :: "nat \<Rightarrow> client_phase"

definition lock_free :: "lock_state \<Rightarrow> bool" where
  "lock_free st \<longleftrightarrow> (case lock_key st of None \<Rightarrow> True | Some (_, e) \<Rightarrow> e \<le> lk_now st)"

text \<open>The script of the release: the key is deleted only when it still holds the client's token.\<close>

definition release_key :: "string \<Rightarrow> lock_state \<Rightarrow> (string \<times> rat) option" where
  "release_key token st =
     (case lock_key st of
        Some (t, e) \<Rightarrow> if lk_now st < e \<and> t = token then None else Some (t, e)
      | None \<Rightarrow> None)"

inductive lock_step :: "(nat \<Rightarrow> string) \<Rightarrow> rat \<Rightarrow> rat \<Rightarrow> lock_state \<Rightarrow> lock_state \<Rightarrow> bool" for token expiry timeout where
  tick: "0 \<le> d \<Longrightarrow> lock_step token expiry timeout st (st\<lparr>lk_now := lk_now st + d\<rparr>)"
| enter: "lk_client st i = Outside \<Longrightarrow>
    lock_step token expiry timeout st (st\<lparr>lk_client := (lk_client st)(i := Trying (lk_now st + timeout))\<rparr>)"
| acquire: "lk_client st i = Trying deadline \<Longrightarrow> lock_free st \<Longrightarrow>
    lock_step token expiry timeout st
      (st\<lparr>lock_key := Some (token i, lk_now st + expiry), lk_client := (lk_client st)(i := Inside (lk_now st + expiry))\<rparr>)"
| give_up: "lk_client st i = Trying deadline \<Longrightarrow> \<not> lock_free st \<Longrightarrow> deadline < lk_now st \<Longrightarrow>
    lock_step token expiry timeout st (st\<lparr>lk_client := (lk_client st)(i := TimedOut)\<rparr>)"
| release: "lk_client st i = Inside e \<Longrightarrow>
    lock_step token expiry timeout st (st\<lparr>lock_key := release_key (token i) st, lk_client := (lk_client st)(i := Left)\<rparr>)"

inductive_cases lock_stepE: "lock_step token expiry timeout st st'"

definition lock_init :: lock_state where
  "lock_init = \<lparr>lk_now = 0, lock_key = None, lk_client = (\<lambda>_. Outside)\<rparr>"

definition lock_reachable :: "(nat \<Rightarrow> string) \<Rightarrow> rat \<Rightarrow> rat \<Rightarrow> lock_state \<Rightarrow> bool" where
  "lock_reachable token expiry timeout st \<longleftrightarrow> (lock_step token expiry timeout)\<^sup>*\<^sup>* lock_init st"

text \<open>A client whose lease still runs owns the key.\<close>

definition lease_inv :: "(nat \<Rightarrow> string) \<Rightarrow> lock_state \<Rightarrow> bool" where
  "lease_inv token st \<longleftrightarrow> (\<forall>i e. lk_client st i = Inside e \<longrightarrow> lk_now st < e \<longrightarrow> lock_key st = Some (token i, e))"

lemma lease_inv_step:
  assumes "inj token" "lock_step token expiry timeout st st'" "lease_inv token st"
  shows "lease_inv token st'"
  using assms(2)
proof cases
  case (tick d)
  with assms(3) show ?thesis by (fastforce simp: lease_inv_def)
next
  case (enter i)
  with assms(3) show ?thesis by (auto simp: lease_inv_def split: if_splits)
next
  case (acquire i deadline)
  have "\<not> lk_now st < e" if "lk_client st j = Inside e" for j e
    using assms(3) that acquire(3) by (auto simp: lease_inv_def lock_free_def)
  with acquire(1) show ?thesis by (auto simp: lease_inv_def split: if_splits)
next
  case (give_up i deadline)
  with assms(3) show ?thesis by (auto simp: lease_inv_def split: if_splits)
next
  case (release i e)
  have "lock_key st' = Some (token j, e')" if "lk_client st' j = Inside e'" "lk_now st' < e'" for j e'
  proof -
    have "j \<noteq> i" "lk_client st j = Inside e'" "lk_now st < e'" using that release(1) by (auto split: if_splits)
    with assms(1,3) release(1) show ?thesis
      by (auto simp: lease_inv_def release_key_def dest: injD)
  qed
  then show ?thesis by (simp add: lease_inv_def)
qed

lemma reachable_lease:
  assumes "inj token" "lock_reachable token expiry timeout st"
  shows "lease_inv token st"
  using assms(2) unfolding lock_reachable_def
proof (induction rule: rtranclp_induct)
  case base
  show ?case by (simp add: lease_inv_def lock_init_def)
next
  case (step y z)
  from lease_inv_step [OF assms(1) step.hyps(2) step.IH] show ?case .
qed

text \<open>
  The loop of one client while nobody else touches a key that the server forgets at time \<open>held\<close>: the
  time at which it gets the lock, or at which it raises \<^verbatim>\<open>RedisLockTimeoutError\<close>.
\<close>

partial_function (option) acquire_loop :: "rat \<Rightarrow> rat \<Rightarrow> rat \<Rightarrow> rat \<Rightarrow> (rat + rat) option" where
  "acquire_loop retry_interval deadline held t =
     (if held \<le> t then Some (Inr t)
      else if deadline < t then Some (Inl t)
      else acquire_loop retry_interval deadline held (t + retry_interval))"

lemma acquire_loop_returns:
  assumes "0 < retry_interval"
  shows "\<exists>n r. acquire_loop retry_interval deadline held t = Some r \<and>
     (r = Inr (t + of_nat n * retry_interval) \<and> held \<le> t + of_nat n * retry_interval \<or>
      r = Inl (t + of_nat n * retry_interval) \<and> deadline < t + of_nat n * retry_interval) \<and>
     (\<forall>k < n. t + of_nat k * retry_interval < held \<and> t + of_nat k * retry_interval \<le> deadline)"
proof (induction "nat \<lceil>(held - t) / retry_interval\<rceil>" arbitrary: t rule: less_induct)
  case less
  show ?case
  proof (cases "held \<le> t \<or> deadline < t")
    case True
    then show ?thesis
      by (intro exI [of _ 0]) (auto simp: acquire_loop.simps [of retry_interval deadline held t])
  next
    case False
    let ?t = "t + retry_interval"
    have pos: "0 < (held - t) / retry_interval" using False assms by simp
    have "(held - ?t) / retry_interval = (held - t) / retry_interval - 1"
      using assms by (simp add: field_simps)
    then have "\<lceil>(held - ?t) / retry_interval\<rceil> = \<lceil>(held - t) / retry_interval\<rceil> - 1" by simp
    then have "nat \<lceil>(held - ?t) / retry_interval\<rceil> < nat \<lceil>(held - t) / retry_interval\<rceil>" using pos by simp
    from less.hyps [OF this] obtain n r where IH: "acquire_loop retry_interval deadline held ?t = Some r"
      "r = Inr (?t + of_nat n * retry_interval) \<and> held \<le> ?t + of_nat n * retry_interval \<or>
       r = Inl (?t + of_nat n * retry_interval) \<and> deadline < ?t + of_nat n * retry_interval"
      "\<forall>k < n. ?t + of_nat k * retry_interval < held \<and> ?t + of_nat k * retry_interval \<le> deadline" by blast
    have shift: "t + of_nat (Suc k) * retry_interval = ?t + of_nat k * retry_interval" for k
      by (simp add: algebra_simps)
    have "\<forall>k < Suc n. t + of_nat k * retry_interval < held \<and> t + of_nat k * retry_interval \<le> deadline"
    proof (intro allI impI)
      fix k
      assume "k < Suc n"
      then show "t + of_nat k * retry_interval < held \<and> t + of_nat k * retry_interval \<le> deadline"
        using IH(3) False shift by (cases k) (auto simp del: of_nat_Suc)
    qed
    with IH(1,2) False show ?thesis
      by (intro exI [of _ "Suc n"] exI [of _ r])
        (auto simp: acquire_loop.simps [of retry_interval deadline held t] shift simp del: of_nat_Suc)
  qed
qed

section \<open>Paged scan\<close>

text \<open>The loop of \<^verbatim>\<open>paginate_scan\<close> over the keys the server returns.\<close>

fun paginate_loop :: "int option \<Rightarrow> int \<Rightarrow> int \<Rightarrow> string list \<Rightarrow> string list \<Rightarrow> string list" where
  "paginate_loop limit offset scanned keys [] = keys"
| "paginate_loop limit offset scanned keys (key # rest) =
     (if scanned < offset then paginate_loop limit offset (scanned + 1) keys rest
      else (let keys' = keys @ [key] in
            if (case limit of Some l \<Rightarrow> int (length keys') \<ge> l | None \<Rightarrow> False) then keys'
            else paginate_loop limit offset scanned keys' rest))"

text \<open>Comparing with a missing offset raises, as soon as there is a key to compare for.\<close>

definition paginate_scan :: "int option \<Rightarrow> int option \<Rightarrow> string list \<Rightarrow> string list res" where
  "paginate_scan limit offset found =
     (case offset of
        Some off \<Rightarrow> Inr (paginate_loop limit off 0 [] found)
      | None \<Rightarrow> if found = [] then Inr [] else Inl (PyExc ''TypeError''))"

lemma paginate_loop_unlimited:
  "offset \<le> scanned \<Longrightarrow> paginate_loop None offset scanned keys found = keys @ found"
  by (induction found arbitrary: keys) simp_all

lemma paginate_loop_limited:
  assumes "offset \<le> scanned" "int (length keys) < max 1 l"
  shows "paginate_loop (Some l) offset scanned keys found = keys @ take (nat (max 1 l) - length keys) found"
  using assms(2)
proof (induction found arbitrary: keys)
  case (Cons key rest)
  show ?case
  proof (cases "int (length (keys @ [key])) \<ge> l")
    case True
    then have "nat (max 1 l) - length keys = 1" using Cons.prems by auto
    with True assms(1) show ?thesis by simp
  next
    case False
    then have "nat (max 1 l) - length keys = Suc (nat (max 1 l) - length (keys @ [key]))" by auto
    with False assms(1) Cons.IH [of "keys @ [key]"] show ?thesis by (simp add: max_def)
  qed
qed simp

lemma paginate_loop_skip:
  "0 \<le> scanned \<Longrightarrow> paginate_loop limit offset scanned keys found =
     paginate_loop limit offset (max scanned offset) keys (drop (nat (offset - scanned)) found)"
proof (induction found arbitrary: scanned)
  case (Cons key rest)
  show ?case
  proof (cases "scanned < offset")
    case True
    then have "nat (offset - scanned) = Suc (nat (offset - (scanned + 1)))" "max scanned offset = max (scanned + 1) offset" by auto
    with True Cons.IH [of "scanned + 1"] Cons.prems show ?thesis by simp
  next
    case False
    then have "max scanned offset = scanned" "nat (offset - scanned) = 0" by auto
    then show ?thesis by simp
  qed
qed simp

section \<open>Limiting outgoing calls\<close>

text \<open>
  \<^verbatim>\<open>rate_limit\<close>: calls are counted per calendar minute, under a key that every decorated function
  shares; the count of a call that is over the limit stays.
\<close>

definition RATE_LIMIT_COUNTER :: string where
  "RATE_LIMIT_COUNTER = ''rate_limit_counter''"

definition window_start :: "datetime \<Rightarrow> int" where
  "window_start d = midnight_ts (toordinal d) + hour d * 3600 + minute d * 60"

definition counter_key :: "int \<Rightarrow> string" where
  "counter_key w = hash_name RATE_LIMIT_COUNTER (py_str w)"

text \<open>\<^verbatim>\<open>int((window_end - now).total_seconds() + 1)\<close>, for a window that has not ended.\<close>

definition window_delta_seconds :: "int \<Rightarrow> datetime \<Rightarrow> int" where
  "window_delta_seconds window_size d =
     ((window_start d + window_size) * 1000000 - timestamp_us d) div 1000000 + 1"

datatype gate = Allowed | Blocked int

definition window_gate :: "'r redis_ops \<Rightarrow> int \<Rightarrow> int \<Rightarrow> datetime \<Rightarrow> ('r, gate) act" where
  "window_gate R limit_per_window window_size d =
     (let key = counter_key (window_start d); wait = window_delta_seconds window_size d in
      if limit_per_window \<le> 0 then retS Allowed
      else bindS (rincr R key) (\<lambda>current_count.
           bindS (if current_count = 1 then rexpire R key wait else retS ()) (\<lambda>_.
             retS (if current_count > limit_per_window then Blocked wait else Allowed))))"

text \<open>
  The gate of \<^verbatim>\<open>min_interval\<close>: the time of the last call of the function is read, the caller sleeps what is
  missing and reads the clock again (\<open>woken\<close>), and the time is stored. \<open>fr\<close> and \<open>pf\<close> are \<^verbatim>\<open>str\<close> and
  \<^verbatim>\<open>float\<close> of a floating point number.
\<close>

definition RATE_LIMIT_LAST_CALL :: string where
  "RATE_LIMIT_LAST_CALL = ''rate_limit_last_call''"

definition call_time :: "datetime \<Rightarrow> rat" where
  "call_time d = of_int (timestamp_us d) / 1000000"

definition last_call_key :: "string \<Rightarrow> string" where
  "last_call_key func_name = hash_name RATE_LIMIT_LAST_CALL func_name"

definition interval_gate ::
  "'r redis_ops \<Rightarrow> (rat \<Rightarrow> string) \<Rightarrow> (string \<Rightarrow> rat option) \<Rightarrow> rat \<Rightarrow> int \<Rightarrow> string \<Rightarrow> datetime \<Rightarrow> datetime \<Rightarrow> ('r, datetime) act" where
  "interval_gate R fr pf min_interval window_size func_name d woken s =
     (if min_interval \<le> 0 then (Inr d, s)
      else (case (case rget R s (last_call_key func_name) of
                    None \<Rightarrow> Inr d
                  | Some raw \<Rightarrow>
                      (case pf raw of
                         None \<Rightarrow> Inl (PyExc ''ValueError'')
                       | Some last_ts \<Rightarrow> Inr (if call_time d - last_ts < min_interval then woken else d))) of
              Inl e \<Rightarrow> (Inl e, s)
            | Inr t \<Rightarrow> bindS (rset_ex R (last_call_key func_name) (fr (call_time t)) window_size) (\<lambda>_. retS t) s))"

text \<open>
  The decorated call; the list holds the clock readings of its rounds, at the start and after the sleep
  of the first gate.
\<close>

fun rate_limited ::
  "'r redis_ops \<Rightarrow> (rat \<Rightarrow> string) \<Rightarrow> (string \<Rightarrow> rat option) \<Rightarrow> rat \<Rightarrow> int \<Rightarrow> int \<Rightarrow> bool \<Rightarrow> string \<Rightarrow>
   ('r, 'a) act \<Rightarrow> (datetime \<times> datetime) list \<Rightarrow> 'r \<Rightarrow> ('a res \<times> 'r) option" where
  "rate_limited R fr pf min_interval limit window_size auto_retry func_name f [] s = None"
| "rate_limited R fr pf min_interval limit window_size auto_retry func_name f ((d, woken) # ds) s =
     (case bindS (interval_gate R fr pf min_interval window_size func_name d woken) (window_gate R limit window_size) s of
        (Inl e, s') \<Rightarrow> Some (Inl e, s')
      | (Inr Allowed, s') \<Rightarrow> Some (f s')
      | (Inr (Blocked wait), s') \<Rightarrow>
          if auto_retry then rate_limited R fr pf min_interval limit window_size auto_retry func_name f ds s'
          else Some (Inl (PyExc ''RateLimitExceededError''), s'))"

text \<open>
  A call that passes the first gate after another of the same function is at least \<^verbatim>\<open>min_interval\<close> later,
  as long as the stored time has not been overwritten or forgotten in between.
\<close>

lemma interval_gate_spaces:
  assumes "interval_gate R fr pf min_interval window_size func_name d woken s = (Inr t, s')" "0 < min_interval"
    and "rget R s (last_call_key func_name) = Some (fr last_ts)" "pf (fr last_ts) = Some last_ts"
    and "call_time d - last_ts < min_interval \<Longrightarrow> call_time d + (min_interval - (call_time d - last_ts)) \<le> call_time woken"
  shows "last_ts + min_interval \<le> call_time t"
  using assms by (cases "call_time d - last_ts < min_interval") (auto simp: interval_gate_def bindS_eq_Inr)

text \<open>The gates of a sequence of calls.\<close>

fun run_gates :: "'r redis_ops \<Rightarrow> int \<Rightarrow> int \<Rightarrow> datetime list \<Rightarrow> 'r \<Rightarrow> gate res list \<times> 'r" where
  "run_gates R limit window_size [] s = ([], s)"
| "run_gates R limit window_size (d # ds) s =
     (case window_gate R limit window_size d s of
        (g, s') \<Rightarrow> (case run_gates R limit window_size ds s' of (gs, s'') \<Rightarrow> (g # gs, s'')))"

definition gate_inv :: "'r redis_ops \<Rightarrow> 'r \<Rightarrow> bool" where
  "gate_inv R s \<longleftrightarrow>
     (\<forall>w. rget R s (counter_key w) = None \<and> \<not> rexists R s (counter_key w) \<or> (\<exists>n. rget R s (counter_key w) = Some (py_str n)))"

definition count_of :: "'r redis_ops \<Rightarrow> 'r \<Rightarrow> int \<Rightarrow> int" where
  "count_of R s w = (case counter_at R s (counter_key w) of Some n \<Rightarrow> n | None \<Rightarrow> 0)"

lemma counter_key_inj [simp]: "counter_key a = counter_key b \<longleftrightarrow> a = b"
  by (simp add: counter_key_def)

definition counted_gate :: "'r redis_ops \<Rightarrow> int \<Rightarrow> int \<Rightarrow> datetime \<Rightarrow> 'r \<Rightarrow> gate \<Rightarrow> 'r \<Rightarrow> bool" where
  "counted_gate R limit window_size d s g s' \<longleftrightarrow>
     gate_inv R s' \<and> count_of R s' (window_start d) = count_of R s (window_start d) + 1 \<and>
     (\<forall>w. w \<noteq> window_start d \<longrightarrow> count_of R s' w = count_of R s w) \<and>
     (g = Allowed \<longleftrightarrow> count_of R s (window_start d) < limit)"

lemma window_gate_counts:
  assumes laws: "redis_string_laws R" and inv: "gate_inv R s" and lim: "0 < limit" and win: "60 \<le> window_size" "valid_datetime d"
  shows "\<exists>g s'. window_gate R limit window_size d s = (Inr g, s') \<and> counted_gate R limit window_size d s g s'"
proof -
  let ?k = "counter_key (window_start d)" and ?n = "count_of R s (window_start d)"
  have cnt: "counter_law R 1 (rincr R)" and ex: "expire_law R" using laws by (simp_all add: redis_string_laws_def)
  have c: "counter_at R s ?k = Some ?n" "rget R s ?k = None \<longrightarrow> \<not> rexists R s ?k"
    using inv [unfolded gate_inv_def, rule_format, of "window_start d"] by (auto simp: counter_at_def count_of_def)
  obtain s1 where s1: "rincr R ?k s = (Inr (?n + 1), s1)" "rget R s1 ?k = Some (py_str (?n + 1))" "same_but R ?k s s1"
    using cnt [unfolded counter_law_def, rule_format, OF c(1)] c(2) by blast
  have wait: "0 < window_delta_seconds window_size d"
  proof -
    have "0 \<le> (window_start d + window_size) * 1000000 - timestamp_us d"
      using win by (simp add: window_start_def timestamp_us_def seconds_of_day_def valid_datetime_def algebra_simps)
    then have "0 \<le> ((window_start d + window_size) * 1000000 - timestamp_us d) div 1000000"
      by (simp add: pos_imp_zdiv_nonneg_iff)
    then show ?thesis by (simp add: window_delta_seconds_def)
  qed
  obtain s2 where s2: "(if ?n + 1 = 1 then rexpire R ?k (window_delta_seconds window_size d) else retS ()) s1 = (Inr (), s2)"
      "rget R s2 ?k = rget R s1 ?k" "same_but R ?k s1 s2"
    using ex [unfolded expire_law_def, rule_format, OF wait, of ?k s1] by (cases "?n + 1 = 1") (auto simp: same_but_def)
  have run: "window_gate R limit window_size d s = (Inr (if ?n + 1 > limit then Blocked (window_delta_seconds window_size d) else Allowed), s2)"
    using lim s1(1) s2(1) by (simp add: window_gate_def bindS_def Let_def)
  have get: "rget R s2 (counter_key w) = (if w = window_start d then Some (py_str (?n + 1)) else rget R s (counter_key w))"
    "w \<noteq> window_start d \<Longrightarrow> rexists R s2 (counter_key w) = rexists R s (counter_key w)" for w
    using s1(2,3) s2(2,3) by (auto simp: same_but_def)
  then have "gate_inv R s2"
    using inv by (auto simp: gate_inv_def)
  moreover have "count_of R s2 w = (if w = window_start d then ?n + 1 else count_of R s w)" for w
    using get(1) by (simp add: count_of_def [of R s2] counter_at_def) (simp add: count_of_def counter_at_def)
  ultimately show ?thesis
    using run by (intro exI conjI) (auto simp: counted_gate_def split: if_splits)
qed

lemma run_gates_bounded:
  assumes "redis_string_laws R" "0 < limit" "60 \<le> window_size" "\<forall>d \<in> set ds. valid_datetime d"
    and "gate_inv R s" "run_gates R limit window_size ds s = (gs, s')"
  shows "length gs = length ds \<and>
     int (length (filter (\<lambda>(d, g). window_start d = w \<and> g = Inr Allowed) (zip ds gs))) \<le> max 0 (limit - count_of R s w)"
  using assms(4-6)
proof (induction ds arbitrary: s gs)
  case (Cons d ds)
  obtain g s1 where g: "window_gate R limit window_size d s = (Inr g, s1)" "counted_gate R limit window_size d s g s1"
    using window_gate_counts [OF assms(1) Cons.prems(2) assms(2,3), of d] Cons.prems(1) by auto
  obtain gs' where gs: "gs = Inr g # gs'" "run_gates R limit window_size ds s1 = (gs', s')"
    using Cons.prems(3) g(1) by (auto split: prod.splits)
  note c = g(2) [unfolded counted_gate_def]
  have IH: "length gs' = length ds \<and>
     int (length (filter (\<lambda>(d, g). window_start d = w \<and> g = Inr Allowed) (zip ds gs'))) \<le> max 0 (limit - count_of R s1 w)"
    using Cons.IH [of s1 gs'] Cons.prems(1) c gs(2) by simp
  show ?case
  proof (cases "window_start d = w \<and> g = Allowed")
    case True
    with IH c gs(1) show ?thesis by auto
  next
    case False
    then have "count_of R s w \<le> count_of R s1 w" using c by (cases "window_start d = w") auto
    with False IH gs(1) show ?thesis by auto
  qed
qed simp

section \<open>The token of the osu! API clients\<close>

definition OSU_CLIENT_OAUTH_TOKEN :: string where
  "OSU_CLIENT_OAUTH_TOKEN = ''osu_client_oauth_token''"

definition MAX_TOKEN_FETCH_RETRIES :: nat where
  "MAX_TOKEN_FETCH_RETRIES = 3"

text \<open>A client's own copy of the token and the server.\<close>

record 'r token_state =
  own_token :: "oauth_token option"
  token_redis :: 'r

definition token_valid :: "int \<Rightarrow> oauth_token \<Rightarrow> bool" where
  "token_valid t token \<longleftrightarrow> t < expires_at token"

definition get_valid_token_from_redis :: "'r redis_ops \<Rightarrow> int \<Rightarrow> 'r \<Rightarrow> oauth_token option" where
  "get_valid_token_from_redis R t r =
     (case rhgetall R r OSU_CLIENT_OAUTH_TOKEN of
        [] \<Rightarrow> None
      | d \<Rightarrow> (case token_deserialize d of Inl _ \<Rightarrow> None | Inr token \<Rightarrow> if token_valid t token then Some token else None))"

text \<open>\<^verbatim>\<open>refresh_token\<close>; \<open>fetch\<close> gives the outcome of each attempt.\<close>

fun refresh_loop :: "'r redis_ops \<Rightarrow> (nat \<Rightarrow> oauth_token res) \<Rightarrow> nat list \<Rightarrow> ('r token_state, unit) act" where
  "refresh_loop R fetch [] s = (Inr (), s)"
| "refresh_loop R fetch (attempt # rest) s =
     (case fetch attempt of
        Inr token \<Rightarrow>
          (case rhset R OSU_CLIENT_OAUTH_TOKEN (token_serialize token) (token_redis s) of
             (Inl e, r) \<Rightarrow> (Inl e, s\<lparr>token_redis := r\<rparr>)
           | (Inr _, r) \<Rightarrow> (Inr (), s\<lparr>own_token := Some token, token_redis := r\<rparr>))
      | Inl e \<Rightarrow>
          if e \<noteq> PyExc ''ReadTimeout'' then (Inl e, s)
          else if attempt < MAX_TOKEN_FETCH_RETRIES - 1 then refresh_loop R fetch rest s
          else (Inl (PyExc ''TimeoutError''), s))"

definition refresh_token :: "'r redis_ops \<Rightarrow> (nat \<Rightarrow> oauth_token res) \<Rightarrow> ('r token_state, unit) act" where
  "refresh_token R fetch = refresh_loop R fetch [0..<MAX_TOKEN_FETCH_RETRIES]"

text \<open>
  \<^verbatim>\<open>get_token\<close>. With the lock or, after its time-out, without it, the client looks for a valid token in
  Redis first and fetches one only when there is none.
\<close>

definition shared_token :: "'r redis_ops \<Rightarrow> int \<Rightarrow> (nat \<Rightarrow> oauth_token res) \<Rightarrow> ('r token_state, string) act" where
  "shared_token R t fetch s =
     (case get_valid_token_from_redis R t (token_redis s) of
        Some token \<Rightarrow> (Inr (access_token token), s\<lparr>own_token := Some token\<rparr>)
      | None \<Rightarrow>
          bindS (refresh_token R fetch) (\<lambda>_ s.
            case own_token s of
              Some token \<Rightarrow> (Inr (access_token token), s)
            | None \<Rightarrow> (Inl (PyExc ''AttributeError''), s)) s)"

definition get_token :: "'r redis_ops \<Rightarrow> int \<Rightarrow> (nat \<Rightarrow> oauth_token res) \<Rightarrow> ('r token_state, string) act" where
  "get_token R t fetch s =
     (case own_token s of
        Some token \<Rightarrow> if token_valid t token then (Inr (access_token token), s) else shared_token R t fetch s
      | None \<Rightarrow> shared_token R t fetch s)"

lemma refresh_stores:
  assumes "redis_hash_laws R" "refresh_loop R fetch as s = (Inr (), s')" "as \<noteq> []" "\<forall>a \<in> set as. a < MAX_TOKEN_FETCH_RETRIES"
    and "last as = MAX_TOKEN_FETCH_RETRIES - 1"
  shows "\<exists>token a. fetch a = Inr token \<and> own_token s' = Some token \<and>
     token_deserialize (rhgetall R (token_redis s') OSU_CLIENT_OAUTH_TOKEN) = Inr token"
  using assms(2-5)
proof (induction as)
  case (Cons a as)
  show ?case
  proof (cases "fetch a")
    case (Inl e)
    with Cons.prems have "a < MAX_TOKEN_FETCH_RETRIES - 1" "refresh_loop R fetch as s = (Inr (), s')"
      by (auto split: if_splits)
    with Cons show ?thesis by (auto split: if_splits)
  next
    case (Inr token)
    then obtain r where r: "rhset R OSU_CLIENT_OAUTH_TOKEN (token_serialize token) (token_redis s) = (Inr (), r)"
        "s' = s\<lparr>own_token := Some token, token_redis := r\<rparr>"
      using Cons.prems(1) by (auto split: prod.splits sum.splits)
    have "token_serialize token \<noteq> []" by (simp add: token_serialize_def token_fields_def)
    with r(1) assms(1) have "map_of (token_serialize token) \<subseteq>\<^sub>m map_of (rhgetall R r OSU_CLIENT_OAUTH_TOKEN)"
      unfolding redis_hash_laws_def hset_law_def by (metis map_le_map_add)
    moreover have "distinct (map fst (rhgetall R r OSU_CLIENT_OAUTH_TOKEN))"
      using assms(1) by (simp add: redis_hash_laws_def)
    ultimately have "token_deserialize (rhgetall R r OSU_CLIENT_OAUTH_TOKEN) = Inr token"
      by (intro token_codec.decode_encode) simp_all
    with Inr r(2) show ?thesis by auto
  qed
qed simp

text \<open>The token a client returns is its own from then on, and a later client finds it in Redis.\<close>

lemma get_token_shared:
  assumes "redis_hash_laws R" "get_token R t fetch s = (Inr a, s')"
  shows "\<exists>token. access_token token = a \<and> own_token s' = Some token \<and>
     (token_valid t token \<and> token_redis s' = token_redis s \<or>
      (\<exists>n. fetch n = Inr token) \<and> (token_valid t' token \<longrightarrow> get_valid_token_from_redis R t' (token_redis s') = Some token))"
proof -
  have shared: ?thesis if sh: "shared_token R t fetch s = (Inr a, s')"
  proof (cases "get_valid_token_from_redis R t (token_redis s)")
    case (Some token)
    then have "token_valid t token"
      by (auto simp: get_valid_token_from_redis_def split: list.splits sum.splits if_splits)
    with Some sh show ?thesis by (auto simp: shared_token_def)
  next
    case None
    obtain s1 where s1: "refresh_token R fetch s = (Inr (), s1)" "s' = s1" "map_option access_token (own_token s1) = Some a"
      using sh None by (auto simp: shared_token_def bindS_eq_Inr split: option.splits)
    have "\<exists>token n. fetch n = Inr token \<and> own_token s1 = Some token \<and>
        token_deserialize (rhgetall R (token_redis s1) OSU_CLIENT_OAUTH_TOKEN) = Inr token"
      using refresh_stores [OF assms(1) s1(1) [unfolded refresh_token_def]] by (simp add: MAX_TOKEN_FETCH_RETRIES_def)
    then obtain token n where token: "fetch n = Inr token" "own_token s1 = Some token"
        "token_deserialize (rhgetall R (token_redis s1) OSU_CLIENT_OAUTH_TOKEN) = Inr token" by blast
    moreover have "rhgetall R (token_redis s1) OSU_CLIENT_OAUTH_TOKEN \<noteq> []"
      using token(3) by (auto simp: token_deserialize_def need_str_def decode_items_def)
    ultimately show ?thesis
      using s1 by (auto simp: get_valid_token_from_redis_def split: list.splits)
  qed
  show ?thesis
    using assms(2) shared by (auto simp: get_token_def split: option.splits if_splits)
qed

end
