(* ===== verification/Redis_Properties.thy ===== *)
theory Redis_Properties
  imports Redis_Client
begin

text \<open>
  Properties of what the program builds on Redis, with instances: the lock, the limit on outgoing
  calls, the paged scan and the shared token.
\<close>

section \<open>The lock\<close>

text \<open>
  (C20) The lock excludes: when every client draws its own token, in every interleaving of attempts,
  expiries and releases at most one client is inside with a lease that still runs, and the key holds
  its token; in particular a client that outlived its lease never deletes the lock of another.
\<close>
theorem lock_mutual_exclusion:
  assumes "inj token" "lock_reachable token expiry timeout st"
    and "lk_client st i = Inside e" "lk_now st < e" "lk_client st j = Inside e'" "lk_now st < e'"
  shows "i = j \<and> lock_key st = Some (token i, e)"
proof -
  have "lock_key st = Some (token i, e)" "lock_key st = Some (token j, e')"
    using reachable_lease [OF assms(1,2)] assms(3-6) unfolding lease_inv_def by blast+
  with assms(1) show ?thesis by (auto dest: injD)
qed

definition demo_token :: "nat \<Rightarrow> string" where
  "demo_token i = replicate i CHR ''x''"

lemma demo_token_inj: "inj demo_token"
  unfolding inj_def demo_token_def by (metis length_replicate)

definition demo_locked :: lock_state where
  "demo_locked = \<lparr>lk_now = 0, lock_key = Some (demo_token 0, 10), lk_client = (\<lambda>_. Outside)(0 := Inside 10)\<rparr>"

lemma demo_locked_reachable: "lock_reachable demo_token LOCK_EXPIRY LOCK_ACQUISITION_TIMEOUT demo_locked"
proof -
  let ?s1 = "\<lparr>lk_now = 0, lock_key = None, lk_client = (\<lambda>_. Outside)(0 := Trying 10)\<rparr>"
  have "lock_step demo_token LOCK_EXPIRY LOCK_ACQUISITION_TIMEOUT lock_init ?s1"
    using enter [of lock_init 0 demo_token LOCK_EXPIRY LOCK_ACQUISITION_TIMEOUT]
    by (simp add: lock_init_def LOCK_ACQUISITION_TIMEOUT_def)
  moreover have "lock_step demo_token LOCK_EXPIRY LOCK_ACQUISITION_TIMEOUT ?s1 demo_locked"
    using acquire [of ?s1 0 10 demo_token LOCK_EXPIRY LOCK_ACQUISITION_TIMEOUT]
    by (simp add: lock_free_def LOCK_EXPIRY_def demo_locked_def)
  ultimately show ?thesis
    unfolding lock_reachable_def by (meson rtranclp.rtrancl_into_rtrancl rtranclp.rtrancl_refl)
qed

theorem lock_mutual_exclusion_witness:
  "lock_key demo_locked = Some (demo_token 0, 10)"
  using lock_mutual_exclusion [OF demo_token_inj demo_locked_reachable, of 0 10 0 10] by (simp add: demo_locked_def)

text \<open>
  The profile fetcher takes the lock's key itself and then enters \<^verbatim>\<open>lock_ctx\<close> on the same key: with \<open>set_at\<close>
  the time of its own \<^verbatim>\<open>SET NX\<close> and \<open>start\<close> the time it enters, the fetch begins when its own key has
  expired, ten seconds later, and not before.
\<close>

definition profile_fetch_begins :: "(string \<times> rat) option \<Rightarrow> rat \<Rightarrow> rat \<Rightarrow> (rat + rat) option option" where
  "profile_fetch_begins key set_at start =
     (if (case key of Some (_, e) \<Rightarrow> set_at < e | None \<Rightarrow> False) then Some None
      else (case acquire_loop LOCK_ACQUISITION_RETRY_INTERVAL (start + LOCK_ACQUISITION_TIMEOUT) (set_at + LOCK_EXPIRY) start of
              None \<Rightarrow> None | Some r \<Rightarrow> Some (Some r)))"

theorem profile_fetch_waits_for_itself:
  assumes "set_at \<le> start" "start < set_at + 10"
  shows "\<exists>t. profile_fetch_begins None set_at start = Some (Some (Inr t)) \<and> set_at + 10 \<le> t \<and> t < set_at + 11"
proof -
  obtain n r where r: "acquire_loop 1 (start + 10) (set_at + 10) start = Some r"
    "r = Inr (start + of_nat n * 1) \<and> set_at + 10 \<le> start + of_nat n * 1 \<or>
     r = Inl (start + of_nat n * 1) \<and> start + 10 < start + of_nat n * 1"
    "\<forall>k < n. start + of_nat k * 1 < set_at + 10 \<and> start + of_nat k * 1 \<le> start + 10"
    using acquire_loop_returns [of 1 "start + 10" "set_at + 10" start] by auto
  have n: "n \<noteq> 0" using r(2) assms by auto
  then have last: "start + of_nat (n - 1) < set_at + 10" using r(3) by (metis diff_less mult.right_neutral neq0_conv zero_less_one)
  obtain m where m: "n = Suc m" using n by (cases n) auto
  then have up: "start + of_nat n < set_at + 11" using last by simp
  have "\<not> start + 10 < start + of_nat n"
  proof
    assume "start + 10 < start + of_nat n"
    then have "10 \<le> n - 1" by simp
    then have "start + 10 \<le> start + of_nat (n - 1)" by (metis add_left_mono of_nat_le_iff of_nat_numeral)
    with last assms(1) show False by simp
  qed
  with r up show ?thesis
    by (auto simp: profile_fetch_begins_def LOCK_EXPIRY_def LOCK_ACQUISITION_TIMEOUT_def LOCK_ACQUISITION_RETRY_INTERVAL_def)
qed

section \<open>Outgoing calls\<close>


definition demo_instant :: datetime where
  "demo_instant = \<lparr>year = 2024, month = 5, day = 17, hour = 13, minute = 30, second = 5, microsecond = 250000\<rparr>"


section \<open>The paged scan\<close>

text \<open>
  (C22) The loop of the paged scan returns the page: it skips \<^verbatim>\<open>offset\<close> keys and returns at most \<^verbatim>\<open>limit\<close> of the
  rest, in the order of the scan, except that a limit of zero still returns one key; without an offset
  it raises on every scan that finds a key.
\<close>
theorem paginate_scan_page:
  assumes "0 \<le> off"
  shows "paginate_scan None (Some off) found = Inr (drop (nat off) found) \<and>
     paginate_scan (Some l) (Some off) found = Inr (take (nat (max 1 l)) (drop (nat off) found)) \<and>
     (found \<noteq> [] \<longrightarrow> paginate_scan limit None found = Inl (PyExc ''TypeError''))"
  using assms by (simp add: paginate_scan_def paginate_loop_skip [of 0] paginate_loop_unlimited paginate_loop_limited)

theorem paginate_scan_page_witness:
  "paginate_scan (Some 1) (Some 1) [''a'', ''b'', ''c''] = Inr [''b''] \<and>
   paginate_scan (Some 0) (Some 1) [''a'', ''b'', ''c''] = Inr [''b''] \<and>
   paginate_scan (Some 1) None [''a''] = Inl (PyExc ''TypeError'')"
  using paginate_scan_page [of 1 "[''a'', ''b'', ''c'']" 1] paginate_scan_page [of 1 "[''a'', ''b'', ''c'']" 0]
    paginate_scan_page [of 1 "[''a'']" 1 "Some 1"] by simp

end
