(* ===== verification/Access_Control.thy ===== *)
theory Access_Control
  imports Flow_Steps
begin

text \<open>
  Who may do what: the decorators of \<^verbatim>\<open>src/app/security/decorators\<close>, the overrides of
  \<^verbatim>\<open>src/app/security/overrides.py\<close>, roles (\<^verbatim>\<open>src/app/database/roles.py\<close>) and the visibility of queues
  (\<^verbatim>\<open>src/app/database/queue_access.py\<close>), and the decorated endpoints of requests and rules.

  The keyword arguments of a handler are a dictionary: path and query parameters, \<^verbatim>\<open>body\<close>, and
  \<^verbatim>\<open>user\<close> and \<^verbatim>\<open>token_info\<close> from the authentication. The rows the checks read (the roles of users, the
  owners and managers of queues) are a \<open>directory\<close>; the requests are those of the state.
\<close>

section \<open>The caller\<close>

text \<open>\<^verbatim>\<open>path.split(".")\<close>\<close>

fun py_split :: "char \<Rightarrow> string \<Rightarrow> string list" where
  "py_split c [] = [[]]"
| "py_split c (x # xs) =
     (if x = c then [] # py_split c xs
      else (case py_split c xs of [] \<Rightarrow> [[x]] | w # ws \<Rightarrow> (x # w) # ws))"

fun nested_value :: "string list \<Rightarrow> json \<Rightarrow> json res" where
  "nested_value [] v = Inr v"
| "nested_value (k # ks) v =
     (case v of
        JDict d \<Rightarrow> (case map_of d k of Some w \<Rightarrow> nested_value ks w | None \<Rightarrow> Inl (PyExc ''KeyError''))
      | _ \<Rightarrow> Inl (PyExc ''KeyError''))"

definition get_nested_value :: "dict \<Rightarrow> string \<Rightarrow> json res" where
  "get_nested_value data path = nested_value (py_split CHR ''.'' path) (JDict data)"

text \<open>Whether security is on, the header \<^verbatim>\<open>X-Debug-User-Id\<close> and the identity that stands in without it.\<close>

record auth_env =
  security_enabled :: bool
  debug_header :: "string option"
  dev_admin_user_id :: int

definition resolve_dev_caller_id :: "auth_env \<Rightarrow> int" where
  "resolve_dev_caller_id E =
     (case debug_header E of
        None \<Rightarrow> dev_admin_user_id E
      | Some h \<Rightarrow> (case py_int h of Inr n \<Rightarrow> n | Inl _ \<Rightarrow> dev_admin_user_id E))"

definition get_authenticated_user_id :: "auth_env \<Rightarrow> dict \<Rightarrow> string \<Rightarrow> json res" where
  "get_authenticated_user_id E kwargs user_lookup =
     (if \<not> security_enabled E then Inr (JInt (resolve_dev_caller_id E))
      else (case get_nested_value kwargs user_lookup of
              Inr u \<Rightarrow> Inr u
            | Inl _ \<Rightarrow>
                (case map_of kwargs ''token_info'' of
                   None \<Rightarrow> Inl (PyExc ''KeyError'')
                 | Some (JDict d) \<Rightarrow> (case map_of d ''sub'' of Some u \<Rightarrow> Inr u | None \<Rightarrow> Inl (PyExc ''KeyError''))
                 | Some _ \<Rightarrow> Inl (PyExc ''TypeError''))))"

definition strip_auth_info :: "dict \<Rightarrow> dict" where
  "strip_auth_info kwargs = filter (\<lambda>(k, _). k \<noteq> ''user'' \<and> k \<noteq> ''token_info'') kwargs"

definition dict_set :: "string \<Rightarrow> json \<Rightarrow> dict \<Rightarrow> dict" where
  "dict_set k v d = (k, v) # filter (\<lambda>(k', _). k' \<noteq> k) d"

lemma map_of_dict_set [simp]: "map_of (dict_set k v d) k' = (if k' = k then Some v else map_of d k')"
  by (induction d) (auto simp: dict_set_def)

definition with_authenticated_user_id :: "auth_env \<Rightarrow> (json \<Rightarrow> dict \<Rightarrow> ('s, 'a) act) \<Rightarrow> dict \<Rightarrow> ('s, 'a) act" where
  "with_authenticated_user_id E handler kwargs s =
     (case get_authenticated_user_id E kwargs ''user'' of
        Inr uid \<Rightarrow> handler uid kwargs s
      | Inl e \<Rightarrow> if e = PyExc ''KeyError'' then handler JNull kwargs s else (Inl e, s))"

section \<open>Roles and queues\<close>

definition USER :: string where "USER = ''user''"
definition ADMIN :: string where "ADMIN = ''admin''"

record queue_entry =
  qe_id :: int
  qe_user_id :: int
  qe_name :: string
  qe_description :: string
  qe_is_open :: bool
  qe_visibility :: int
  qe_managers :: "int list"

record directory =
  dir_roles :: "int \<Rightarrow> string list option"
  dir_queues :: "queue_entry list"
  dir_next :: int

text \<open>A query by identifier; a value that is no integer is refused by the database.\<close>

definition db_by_id :: "(int \<Rightarrow> 'a option) \<Rightarrow> json \<Rightarrow> 'a option res" where
  "db_by_id f j = (case j of JInt n \<Rightarrow> Inr (f n) | JNull \<Rightarrow> Inr None | _ \<Rightarrow> Inl (PyExc ''DataError''))"

definition find_queue :: "directory \<Rightarrow> int \<Rightarrow> queue_entry option" where
  "find_queue D n = find (\<lambda>q. qe_id q = n) (dir_queues D)"

definition get_user_roles :: "directory \<Rightarrow> json \<Rightarrow> string list res" where
  "get_user_roles D uid =
     (if uid = JNull then Inr []
      else bindR (db_by_id (dir_roles D) uid) (\<lambda>user.
        case user of
          None \<Rightarrow> Inr []
        | Some roles \<Rightarrow> if set roles \<subseteq> {USER, ADMIN} then Inr roles else Inl (PyExc ''ValueError'')))"

definition user_has_any_role :: "directory \<Rightarrow> json \<Rightarrow> string list \<Rightarrow> bool res" where
  "user_has_any_role D uid roles =
     bindR (get_user_roles D uid) (\<lambda>user_roles. Inr (list_ex (\<lambda>r. r \<in> set roles) user_roles))"

definition is_admin :: "directory \<Rightarrow> json \<Rightarrow> bool res" where
  "is_admin D uid = user_has_any_role D uid [ADMIN]"

definition owns_or_manages :: "json \<Rightarrow> queue_entry \<Rightarrow> bool" where
  "owns_or_manages caller q \<longleftrightarrow> JInt (qe_user_id q) = caller \<or> caller \<in> set (map JInt (qe_managers q))"

definition queue_visibility_where :: "directory \<Rightarrow> json \<Rightarrow> (queue_entry \<Rightarrow> bool) res" where
  "queue_visibility_where D caller =
     bindR (is_admin D caller) (\<lambda>admin.
       if admin then Inr (\<lambda>q. True)
       else if caller = JNull then Inr (\<lambda>q. qe_visibility q = 0)
       else Inr (\<lambda>q. qe_visibility q = 0 \<or> owns_or_manages caller q))"

definition is_queue_owner_or_manager :: "directory \<Rightarrow> int \<Rightarrow> json \<Rightarrow> bool res" where
  "is_queue_owner_or_manager D qid caller =
     bindR (is_admin D caller) (\<lambda>admin.
       if admin then Inr True
       else if caller = JNull then Inr False
       else Inr (list_ex (\<lambda>q. qe_id q = qid \<and> owns_or_manages caller q) (dir_queues D)))"

definition can_read_queue :: "directory \<Rightarrow> queue_entry \<Rightarrow> json \<Rightarrow> bool res" where
  "can_read_queue D queue caller =
     (if qe_visibility queue \<noteq> 2 then Inr True else is_queue_owner_or_manager D (qe_id queue) caller)"

section \<open>Overrides\<close>

definition need :: "dict \<Rightarrow> string \<Rightarrow> json res" where
  "need kwargs k = (case map_of kwargs k of Some v \<Rightarrow> Inr v | None \<Rightarrow> Inl (PyExc ''KeyError''))"

definition matching_user_id_override :: "string \<Rightarrow> string \<Rightarrow> dict \<Rightarrow> bool res" where
  "matching_user_id_override auth_lookup resource_lookup kwargs =
     bindR (get_nested_value kwargs auth_lookup) (\<lambda>auth.
     bindR (get_nested_value kwargs resource_lookup) (\<lambda>resource.
       Inr (auth = resource \<and> auth \<noteq> JNull \<and> resource \<noteq> JNull)))"

text \<open>The queue a call is about: named directly, or through a request (\<open>request_queue\<close>).\<close>

definition queue_owner_override :: "directory \<Rightarrow> (int \<Rightarrow> int option) \<Rightarrow> bool \<Rightarrow> dict \<Rightarrow> bool res" where
  "queue_owner_override D request_queue from_request kwargs =
     bindR (get_nested_value kwargs ''user'') (\<lambda>user.
     bindR (if \<not> from_request then bindR (need kwargs ''queue_id'') (db_by_id (find_queue D))
            else bindR (need kwargs ''request_id'') (\<lambda>rid.
                 bindR (db_by_id request_queue rid) (\<lambda>q. Inr (Option.bind q (find_queue D))))) (\<lambda>queue.
       Inr (case queue of None \<Rightarrow> False | Some q \<Rightarrow> user = JInt (qe_user_id q))))"

definition queue_manager_override :: "directory \<Rightarrow> (int \<Rightarrow> int option) \<Rightarrow> bool \<Rightarrow> dict \<Rightarrow> bool res" where
  "queue_manager_override D request_queue from_request kwargs =
     bindR (get_nested_value kwargs ''user'') (\<lambda>user.
     bindR (if \<not> from_request then bindR (need kwargs ''queue_id'') (\<lambda>j. db_by_id Some j)
            else bindR (need kwargs ''request_id'') (\<lambda>rid.
                 bindR (db_by_id request_queue rid) (\<lambda>q. Inr (map_option qe_id (Option.bind q (find_queue D)))))) (\<lambda>qid.
       case qid of None \<Rightarrow> Inr False | Some n \<Rightarrow> is_queue_owner_or_manager D n user))"

section \<open>Decorators\<close>

text \<open>\<^verbatim>\<open>except KeyError: raise ValueError\<close>\<close>

definition key_error_as_value_error :: "'a res \<Rightarrow> 'a res" where
  "key_error_as_value_error r = (case r of Inl e \<Rightarrow> Inl (if e = PyExc ''KeyError'' then PyExc ''ValueError'' else e) | Inr x \<Rightarrow> Inr x)"

definition role_authorization ::
  "auth_env \<Rightarrow> directory \<Rightarrow> string list \<Rightarrow> string list \<Rightarrow> ('s \<Rightarrow> dict \<Rightarrow> bool res) option \<Rightarrow>
   (dict \<Rightarrow> ('s, 'a) act) \<Rightarrow> dict \<Rightarrow> ('s, 'a) act" where
  "role_authorization E D required_roles one_of override handler kwargs s =
     bindS (liftS (key_error_as_value_error (get_authenticated_user_id E kwargs ''user''))) (\<lambda>uid.
     bindS (liftS (get_user_roles D uid)) (\<lambda>user_roles.
     let kwargs = dict_set ''user'' uid kwargs;
         meets = (if required_roles \<noteq> [] then list_all (\<lambda>r. r \<in> set user_roles) required_roles
                  else list_ex (\<lambda>r. r \<in> set user_roles) one_of)
     in bindS (liftS (if meets then Inr True else (case override of None \<Rightarrow> Inr False | Some ov \<Rightarrow> ov s kwargs))) (\<lambda>authorized.
          if \<not> authorized then raiseS (Forbidden NotAuthorized) else handler (strip_auth_info kwargs)))) s"

text \<open>\<^verbatim>\<open>_resolve_resource_owner\<close>; \<open>fetch\<close> looks up the resource by identifier.\<close>

definition resolve_resource_owner ::
  "dict \<Rightarrow> string \<Rightarrow> (string \<times> (int \<Rightarrow> json option)) option \<Rightarrow> json res" where
  "resolve_resource_owner kwargs resource_user_id_lookup resource =
     (case nested_value (py_split CHR ''.'' resource_user_id_lookup) (JDict kwargs) of
        Inr u \<Rightarrow> Inr u
      | Inl _ \<Rightarrow>
          (case resource of
             None \<Rightarrow> Inl (PyExc ''ValueError'')
           | Some (resource_id_lookup, fetch) \<Rightarrow>
               (case map_of kwargs resource_id_lookup of
                  None \<Rightarrow> Inl (PyExc ''ValueError'')
                | Some rid \<Rightarrow> bindR (db_by_id fetch rid) (\<lambda>row.
                    case row of
                      None \<Rightarrow> Inl (PyExc ''ValueError'')
                    | Some obj \<Rightarrow> key_error_as_value_error (nested_value (py_split CHR ''.'' resource_user_id_lookup) obj)))))"

definition ownership_authorization ::
  "auth_env \<Rightarrow> directory \<Rightarrow> string \<Rightarrow> string \<Rightarrow> (string \<times> ('s \<Rightarrow> int \<Rightarrow> json option)) option \<Rightarrow>
   (dict \<Rightarrow> ('s, 'a) act) \<Rightarrow> dict \<Rightarrow> ('s, 'a) act" where
  "ownership_authorization E D auth_lookup resource_user_id_lookup resource handler kwargs s =
     bindS (liftS (key_error_as_value_error (get_authenticated_user_id E kwargs auth_lookup))) (\<lambda>authorized.
     bindS (liftS (is_admin D authorized)) (\<lambda>admin.
       if admin then handler (strip_auth_info kwargs)
       else bindS (liftS (resolve_resource_owner kwargs resource_user_id_lookup
                            (map_option (\<lambda>(k, f). (k, f s)) resource))) (\<lambda>owner.
              if owner \<noteq> authorized then raiseS (Forbidden NotAuthorized) else handler (strip_auth_info kwargs)))) s"

text \<open>
  \<^verbatim>\<open>ownership_filter\<close>: the handler's data, a dictionary or a list of items, is cut down to what the caller
  owns, unless a role or the override lifts the filter.
\<close>

fun owned_items :: "string \<Rightarrow> json \<Rightarrow> json list \<Rightarrow> json list res" where
  "owned_items lookup uid [] = Inr []"
| "owned_items lookup uid (item # rest) =
     bindR (nested_value (py_split CHR ''.'' lookup) item) (\<lambda>owner.
     bindR (owned_items lookup uid rest) (\<lambda>kept. Inr (if owner = uid then item # kept else kept)))"

definition filter_owned :: "string \<Rightarrow> json \<Rightarrow> json \<Rightarrow> json res" where
  "filter_owned lookup uid data =
     (case data of
        JDict d \<Rightarrow> bindR (nested_value (py_split CHR ''.'' lookup) data) (\<lambda>owner. Inr (if owner = uid then data else JDict []))
      | JList items \<Rightarrow> bindR (owned_items lookup uid items) (\<lambda>kept. Inr (JList kept))
      | _ \<Rightarrow> Inl (PyExc ''ValueError''))"

definition ownership_filter ::
  "auth_env \<Rightarrow> directory \<Rightarrow> string \<Rightarrow> string \<Rightarrow> string list \<Rightarrow> ('s \<Rightarrow> dict \<Rightarrow> bool res) option \<Rightarrow>
   (dict \<Rightarrow> ('s, json \<times> int) act) \<Rightarrow> dict \<Rightarrow> ('s, json \<times> int) act" where
  "ownership_filter E D resource_lookup auth_lookup bypass_roles override handler kwargs s =
     bindS (liftS (key_error_as_value_error (get_authenticated_user_id E kwargs auth_lookup))) (\<lambda>uid.
     bindS (liftS (if bypass_roles = [] then Inr False else user_has_any_role D uid bypass_roles)) (\<lambda>bypass.
     bindS (liftS (if bypass then Inr True else (case override of None \<Rightarrow> Inr False | Some ov \<Rightarrow> ov s kwargs))) (\<lambda>lifted.
       if lifted then handler (strip_auth_info kwargs)
       else bindS (handler (strip_auth_info kwargs)) (\<lambda>(data, code).
              liftS (bindR (filter_owned resource_lookup uid data) (\<lambda>kept. Inr (kept, code))))))) s"

section \<open>What the checks decide\<close>

text \<open>The caller of an authenticated call.\<close>

definition auth_args :: "json \<Rightarrow> dict" where
  "auth_args user = [(''user'', user), (''token_info'', JDict [(''sub'', user)])]"

definition admin_user :: "directory \<Rightarrow> json \<Rightarrow> bool" where
  "admin_user D user \<longleftrightarrow> (\<exists>n roles. user = JInt n \<and> dir_roles D n = Some roles \<and> ADMIN \<in> set roles)"

lemma py_split_user [simp]: "py_split CHR ''.'' ''user'' = [''user'']" "py_split CHR ''.'' ''user_id'' = [''user_id'']"
  by simp_all

lemma lookup_user: "get_nested_value kwargs ''user'' = (case map_of kwargs ''user'' of Some v \<Rightarrow> Inr v | None \<Rightarrow> Inl (PyExc ''KeyError''))"
  by (simp add: get_nested_value_def split: option.splits)

lemma get_user_roles_admin: "get_user_roles D user = Inr roles \<Longrightarrow> ADMIN \<in> set roles \<Longrightarrow> admin_user D user"
  by (auto simp: get_user_roles_def admin_user_def db_by_id_def bindR_eq_Inr split: if_splits option.splits json.splits)

lemma is_admin_iff: "is_admin D user = Inr b \<Longrightarrow> b \<longleftrightarrow> admin_user D user"
  by (auto simp: is_admin_def user_has_any_role_def admin_user_def get_user_roles_def db_by_id_def bindR_eq_Inr list_ex_iff
      split: if_splits option.splits json.splits)

text \<open>A decorated handler runs only for an administrator or when the override says so.\<close>

lemma role_authorization_cases:
  assumes "role_authorization E D [ADMIN] one_of override handler kwargs s = (r, s')" "security_enabled E"
    and "map_of kwargs ''user'' = Some user"
  obtains (denied) e where "r = Inl e" "s' = s"
  | (admin) "admin_user D user" "handler (strip_auth_info (dict_set ''user'' user kwargs)) s = (r, s')"
  | (lifted) ov where "override = Some ov" "ov s (dict_set ''user'' user kwargs) = Inr True"
      "handler (strip_auth_info (dict_set ''user'' user kwargs)) s = (r, s')"
proof -
  have user: "get_authenticated_user_id E kwargs ''user'' = Inr user"
    using assms(2,3) by (simp add: get_authenticated_user_id_def lookup_user)
  show ?thesis
  proof (cases "get_user_roles D user")
    case (Inl e)
    with assms(1) user show ?thesis
      by (intro denied) (auto simp: role_authorization_def bindS_def key_error_as_value_error_def)
  next
    case (Inr roles)
    show ?thesis
    proof (cases "ADMIN \<in> set roles")
      case True
      with assms(1) user Inr show ?thesis
        by (intro admin) (auto simp: role_authorization_def bindS_def key_error_as_value_error_def Let_def get_user_roles_admin)
    next
      case False
      define ok where "ok = (case override of None \<Rightarrow> Inr False | Some ov \<Rightarrow> ov s (dict_set ''user'' user kwargs))"
      have run: "(r, s') = bindS (liftS ok) (\<lambda>authorized. if \<not> authorized then raiseS (Forbidden NotAuthorized)
          else handler (strip_auth_info (dict_set ''user'' user kwargs))) s"
        using assms(1) user Inr False
        by (simp add: role_authorization_def bindS_def [of "liftS (Inr x)" for x] key_error_as_value_error_def Let_def ok_def)
      consider e where "ok = Inl e" | "ok = Inr False" | "ok = Inr True" by (metis (full_types) sum.exhaust)
      then show ?thesis
      proof cases
        case 3
        then obtain ov where "override = Some ov" "ov s (dict_set ''user'' user kwargs) = Inr True"
          by (auto simp: ok_def split: option.splits)
        with run 3 show ?thesis by (intro lifted [of ov]) (simp_all add: bindS_def)
      qed (use run denied in \<open>auto simp: bindS_def\<close>)
    qed
  qed
qed

lemma find_queue_Some: "find_queue D n = Some q \<Longrightarrow> q \<in> set (dir_queues D) \<and> qe_id q = n"
  by (auto simp: find_queue_def find_Some_iff)

lemma owner_override_True:
  assumes "queue_owner_override D request_queue from_request kwargs = Inr True" "map_of kwargs ''user'' = Some user"
  shows "\<exists>n q. find_queue D n = Some q \<and> user = JInt (qe_user_id q) \<and>
     (if from_request then \<exists>rid. map_of kwargs ''request_id'' = Some (JInt rid) \<and> request_queue rid = Some n
      else map_of kwargs ''queue_id'' = Some (JInt n))"
  using assms
  by (auto simp: queue_owner_override_def lookup_user need_def db_by_id_def bindR_eq_Inr bind_eq_Some_conv
      split: if_splits option.splits json.splits)

lemma owner_or_manager_iff:
  assumes "is_queue_owner_or_manager D n user = Inr b"
  shows "b \<longleftrightarrow> admin_user D user \<or> (user \<noteq> JNull \<and> (\<exists>q \<in> set (dir_queues D). qe_id q = n \<and> owns_or_manages user q))"
  using assms is_admin_iff [of D user]
  by (auto simp: is_queue_owner_or_manager_def bindR_eq_Inr list_ex_iff split: if_splits)

lemma manager_override_True:
  assumes "queue_manager_override D request_queue True kwargs = Inr True" "map_of kwargs ''user'' = Some user"
  shows "admin_user D user \<or> (\<exists>n q. q \<in> set (dir_queues D) \<and> qe_id q = n \<and> owns_or_manages user q \<and>
     (\<exists>rid. map_of kwargs ''request_id'' = Some (JInt rid) \<and> request_queue rid = Some n))"
proof -
  obtain rid n q where q: "map_of kwargs ''request_id'' = Some (JInt rid)" "request_queue rid = Some n" "find_queue D n = Some q"
      "is_queue_owner_or_manager D (qe_id q) user = Inr True"
    using assms
    by (auto simp: queue_manager_override_def lookup_user need_def db_by_id_def bindR_eq_Inr bind_eq_Some_conv
        split: option.splits json.splits)
  have "qe_id q = n" using find_queue_Some [OF q(3)] by simp
  with q owner_or_manager_iff [OF q(4)] show ?thesis by auto
qed

end
