(* ===== verification/Access_Endpoints.thy ===== *)
theory Access_Endpoints
  imports Access_Control
begin

text \<open>
  The decorated endpoints that change requests and rules (\<^verbatim>\<open>src/api/v1/requests/__init__.py\<close>,
  \<^verbatim>\<open>src/api/v1/queues/rules.py\<close>) as calls of a user, and the endpoints that read queues and rules. A call
  is its operation with its arguments; what a sequence of calls of one user can change is the subject
  of the frame lemmas.
\<close>

section \<open>Calls\<close>

datatype api_call =
    PatchRequest int dict
  | DeleteRequest int
  | PostRule int dict
  | PatchRule int int dict
  | DeleteRule int int
  | PutRules int dict

fun call_args :: "api_call \<Rightarrow> dict" where
  "call_args (PatchRequest rid body) = [(''request_id'', JInt rid), (''body'', JDict body)]"
| "call_args (DeleteRequest rid) = [(''request_id'', JInt rid)]"
| "call_args (PostRule qid body) = [(''queue_id'', JInt qid), (''body'', JDict body)]"
| "call_args (PatchRule qid rid body) = [(''queue_id'', JInt qid), (''rule_id'', JInt rid), (''body'', JDict body)]"
| "call_args (DeleteRule qid rid) = [(''queue_id'', JInt qid), (''rule_id'', JInt rid)]"
| "call_args (PutRules qid body) = [(''queue_id'', JInt qid), (''body'', JDict body)]"

definition request_queue :: "'r sys \<Rightarrow> int \<Rightarrow> int option" where
  "request_queue s rid = map_option rq_queue_id (find (\<lambda>r. rq_id r = rid) (sys_requests s))"

fun call_override :: "directory \<Rightarrow> api_call \<Rightarrow> 'r sys \<Rightarrow> dict \<Rightarrow> bool res" where
  "call_override D (PatchRequest rid body) s kwargs = queue_manager_override D (request_queue s) True kwargs"
| "call_override D (DeleteRequest rid) s kwargs = queue_owner_override D (request_queue s) True kwargs"
| "call_override D _ s kwargs = queue_owner_override D (request_queue s) False kwargs"

definition on_rules :: "(rule_db, 'a) act \<Rightarrow> ('r sys, unit) act" where
  "on_rules m s = (case m (sys_rules s) of (r, db) \<Rightarrow> (map_sum id (\<lambda>_. ()) r, s\<lparr>sys_rules := db\<rparr>))"

fun call_handler :: "'r app \<Rightarrow> directory \<Rightarrow> api_call \<Rightarrow> ('r sys, unit) act" where
  "call_handler A D (PatchRequest rid body) = requests_patch rid body"
| "call_handler A D (DeleteRequest rid) = requests_delete A rid"
| "call_handler A D (PostRule qid body) =
     on_rules (rules_post (a_parse A) (a_registry A) (e_float_repr (a_env A)) (\<lambda>q. find_queue D q \<noteq> None) qid body)"
| "call_handler A D (PatchRule qid rid body) =
     on_rules (rules_patch (a_parse A) (a_registry A) (e_float_repr (a_env A)) (\<lambda>q. find_queue D q \<noteq> None) qid rid body)"
| "call_handler A D (DeleteRule qid rid) = on_rules (rules_delete (\<lambda>q. find_queue D q \<noteq> None) qid rid)"
| "call_handler A D (PutRules qid body) =
     on_rules (rules_put (a_parse A) (a_registry A) (e_float_repr (a_env A)) (\<lambda>q. find_queue D q \<noteq> None) qid body)"

definition run_call :: "auth_env \<Rightarrow> directory \<Rightarrow> 'r app \<Rightarrow> json \<Rightarrow> api_call \<Rightarrow> ('r sys, unit) act" where
  "run_call E D A user call =
     role_authorization E D [ADMIN] [] (Some (call_override D call)) (\<lambda>_. call_handler A D call) (call_args call @ auth_args user)"

fun run_calls :: "auth_env \<Rightarrow> directory \<Rightarrow> 'r app \<Rightarrow> json \<Rightarrow> api_call list \<Rightarrow> 'r sys \<Rightarrow> 'r sys" where
  "run_calls E D A user [] s = s"
| "run_calls E D A user (call # calls) s = run_calls E D A user calls (snd (run_call E D A user call s))"

text \<open>The queue a call is about.\<close>

fun call_queue :: "'r sys \<Rightarrow> api_call \<Rightarrow> int option" where
  "call_queue s (PatchRequest rid body) = request_queue s rid"
| "call_queue s (DeleteRequest rid) = request_queue s rid"
| "call_queue s (PostRule qid body) = Some qid"
| "call_queue s (PatchRule qid rid body) = Some qid"
| "call_queue s (DeleteRule qid rid) = Some qid"
| "call_queue s (PutRules qid body) = Some qid"

fun is_patch_request :: "api_call \<Rightarrow> bool" where
  "is_patch_request (PatchRequest rid body) = True"
| "is_patch_request _ = False"

definition owns_queue :: "directory \<Rightarrow> json \<Rightarrow> int \<Rightarrow> bool" where
  "owns_queue D user n \<longleftrightarrow> (\<exists>q \<in> set (dir_queues D). qe_id q = n \<and> user = JInt (qe_user_id q))"

definition manages_queue :: "directory \<Rightarrow> json \<Rightarrow> int \<Rightarrow> bool" where
  "manages_queue D user n \<longleftrightarrow> (\<exists>q \<in> set (dir_queues D). qe_id q = n \<and> user \<in> JInt ` set (qe_managers q))"

lemma run_call_cases:
  assumes "run_call E D A user call s = (r, s')" "security_enabled E"
  obtains (denied) e where "r = Inl e" "s' = s"
  | (admin) "admin_user D user" "call_handler A D call s = (r, s')"
  | (owner) n where "call_queue s call = Some n" "owns_queue D user n" "call_handler A D call s = (r, s')"
  | (manager) n where "is_patch_request call" "call_queue s call = Some n" "manages_queue D user n" "call_handler A D call s = (r, s')"
proof -
  let ?kw = "call_args call @ auth_args user"
  have user: "map_of ?kw ''user'' = Some user" by (cases call) (simp_all add: auth_args_def)
  have user': "map_of (dict_set ''user'' user ?kw) ''user'' = Some user" by simp
  note goals = denied admin owner manager
  show ?thesis
  proof (cases rule: role_authorization_cases [OF assms(1) [unfolded run_call_def] assms(2) user, case_names denied admin lifted])
    case (lifted ov)
    then have ov: "call_override D call s (dict_set ''user'' user ?kw) = Inr True" by simp
    show ?thesis
    proof (cases "is_patch_request call")
      case True
      then obtain rid body where call: "call = PatchRequest rid body" by (cases call) simp_all
      then consider "admin_user D user"
        | n q where "q \<in> set (dir_queues D)" "qe_id q = n" "owns_or_manages user q" "request_queue s rid = Some n"
        using manager_override_True [OF ov [unfolded call call_override.simps]] by (auto simp: call)
      then show ?thesis
      proof cases
        case 2
        then show ?thesis
          using goals(3) [of n] goals(4) [of n] lifted(3) call
          by (auto simp: owns_or_manages_def owns_queue_def manages_queue_def)
      qed (use goals(2) lifted(3) in simp)
    next
      case False
      then obtain n q where "find_queue D n = Some q" "user = JInt (qe_user_id q)" "call_queue s call = Some n"
        using ov owner_override_True [OF _ user', of D "request_queue s"] by (cases call) force+
      then show ?thesis
        using goals(3) [of n] lifted(3) find_queue_Some [of D n q] by (auto simp: owns_queue_def)
    qed
  qed (use goals(1,2) in auto)
qed

section \<open>What a call leaves alone\<close>

definition rules_of :: "int \<Rightarrow> rule_db \<Rightarrow> queue_rule list" where
  "rules_of n db = filter (\<lambda>r. rule_queue_id r = n) (db_rules db)"

definition requests_of :: "int \<Rightarrow> 'r sys \<Rightarrow> request_row list" where
  "requests_of n s = filter (\<lambda>r. rq_queue_id r = n) (sys_requests s)"

definition but_status :: "request_row \<Rightarrow> request_row" where
  "but_status r = r\<lparr>rq_status := PENDING\<rparr>"

lemma rules_of_insert: "qid \<noteq> n \<Longrightarrow> rules_of n (snd (insert_rules qid datas db)) = rules_of n db"
proof (induction datas arbitrary: db)
  case (Cons data datas)
  obtain r db1 where r: "insert_rule qid data db = (r, db1)" by fastforce
  then have "rules_of n db1 = rules_of n db" using Cons.prems by (auto simp: insert_rule_def Let_def rules_of_def)
  with Cons r show ?case by (auto simp: split_beta)
qed simp

lemma rules_of_create:
  assumes "qid \<noteq> n"
  shows "rules_of n (snd (create_rule G fr qid data db)) = rules_of n db"
  using assms by (auto simp: create_rule_def snd_bindS_lift insert_rule_def Let_def rules_of_def split: sum.splits)

lemma rules_of_upsert:
  assumes "qid \<noteq> n"
  shows "rules_of n (snd (upsert_rules G fr qid datas db)) = rules_of n db"
proof -
  have "rules_of n (delete_all_for_rule qid db) = rules_of n db"
    using assms by (auto simp: rules_of_def delete_all_for_rule_def intro: filter_cong)
  then show ?thesis
    using rules_of_insert [OF assms, of datas "delete_all_for_rule qid db"]
    by (auto simp: upsert_rules_def snd_bindS_lift split_beta split: sum.splits)
qed

text \<open>A rule found by queue and identifier is the only one with that identifier.\<close>

lemma get_rule_unique:
  assumes "get_rule db qid rid = Some rule" "distinct (map rule_id (db_rules db))" "r \<in> set (db_rules db)" "rule_id r = rid"
  shows "r = rule"
proof -
  have rule: "rule \<in> set (db_rules db)" "rule_id rule = rid" using get_rule_Some [OF assms(1)] by auto
  then show ?thesis using assms(2-4) by (metis distinct_map inj_onD)
qed

lemma rules_of_delete:
  assumes "qid \<noteq> n" "distinct (map rule_id (db_rules db))"
  shows "rules_of n (snd (delete_rule rid qid db)) = rules_of n db"
proof (cases "get_rule db qid rid")
  case (Some rule)
  then have "rule_queue_id rule = qid" using get_rule_Some by blast
  then have "rule_queue_id r = n \<Longrightarrow> r \<in> set (db_rules db) \<Longrightarrow> rule_id r \<noteq> rid" for r
    using get_rule_unique [OF Some assms(2)] assms(1) by blast
  then show ?thesis using Some by (auto simp: delete_rule_def rules_of_def intro: filter_cong)
qed (simp add: delete_rule_def)

lemma rules_of_replace:
  assumes "get_rule db qid (rule_id rule) = Some old" "rule_queue_id rule = qid" "qid \<noteq> n" "distinct (map rule_id (db_rules db))"
  shows "rules_of n (replace_rule rule db) = rules_of n db"
proof -
  have old: "rule_queue_id old = qid" using get_rule_Some [OF assms(1)] by blast
  have "filter (\<lambda>r. rule_queue_id r = n) (map (\<lambda>r. if rule_id r = rule_id rule then rule else r) xs) =
      filter (\<lambda>r. rule_queue_id r = n) xs" if "set xs \<subseteq> set (db_rules db)" for xs
    using that
  proof (induction xs)
    case (Cons x xs)
    have "x = old" if "rule_id x = rule_id rule" using get_rule_unique [OF assms(1,4) _ that] Cons.prems by simp
    with Cons old assms(2,3) show ?case by auto
  qed simp
  then show ?thesis by (simp add: rules_of_def replace_rule_def)
qed

lemma rules_of_update:
  assumes "qid \<noteq> n" "distinct (map rule_id (db_rules db))"
  shows "rules_of n (snd (update_rule parse G fr rid qid up db)) = rules_of n db"
proof (cases "get_rule db qid rid")
  case (Some rule)
  have "rule_id rule = rid" "rule_queue_id rule = qid" using get_rule_Some [OF Some] by auto
  then have "rules_of n (replace_rule (updated_rule rule up cfg) db) = rules_of n db" for cfg
    using Some assms by (intro rules_of_replace [of _ qid _ rule]) simp_all
  then show ?thesis using Some by (auto simp: update_rule_def snd_bindS_lift split: sum.splits option.splits)
qed (simp add: update_rule_def)

lemma rules_of_session: "rules_of n (snd (m db)) = rules_of n db \<Longrightarrow> rules_of n (snd (in_session m db)) = rules_of n db"
  by (auto simp: in_session_def split: prod.splits sum.splits)

lemmas rules_of_operations = rules_of_create rules_of_upsert rules_of_delete rules_of_update

lemma on_rules_sys: "sys_requests (snd (on_rules m s)) = sys_requests s" "sys_rules (snd (on_rules m s)) = snd (m (sys_rules s))"
  by (auto simp: on_rules_def split: prod.splits)

lemma rules_endpoint_frame:
  assumes "qid \<noteq> n" "distinct (map rule_id (db_rules db))"
  shows "rules_of n (snd (rules_post parse G fr queues qid body db)) = rules_of n db"
    and "rules_of n (snd (rules_patch parse G fr queues qid rid body db)) = rules_of n db"
    and "rules_of n (snd (rules_delete queues qid rid db)) = rules_of n db"
    and "rules_of n (snd (rules_put parse G fr queues qid body db)) = rules_of n db"
  using assms
  by (simp_all add: rules_post_def rules_patch_def rules_delete_def rules_put_def snd_require snd_bindS_lift snd_bindS_pure
      rules_of_session rules_of_operations split: sum.splits option.splits)

text \<open>A status update changes one row, a deletion removes one.\<close>

lemma requests_patch_rows:
  "\<exists>f. sys_requests (snd (requests_patch rid body s)) = map (\<lambda>r. if rq_id r = rid then f r else r) (sys_requests s) \<and>
     (\<forall>r. but_status (f r) = but_status r \<and> rq_queue_id (f r) = rq_queue_id r) \<and> sys_rules (snd (requests_patch rid body s)) = sys_rules s"
proof -
  have same: ?thesis if "snd (requests_patch rid body s) = s"
    using that by (intro exI [of _ "\<lambda>r. r"]) simp
  show ?thesis
  proof (cases "\<exists>n. snd (requests_patch rid body s) = update_request rid (\<lambda>r. r\<lparr>rq_status := n\<rparr>) s")
    case True
    then obtain n where "snd (requests_patch rid body s) = update_request rid (\<lambda>r. r\<lparr>rq_status := n\<rparr>) s" by blast
    then show ?thesis
      by (intro exI [of _ "\<lambda>r. r\<lparr>rq_status := n\<rparr>"]) (simp add: update_request_def but_status_def)
  next
    case False
    then have "snd (requests_patch rid body s) = s"
      by (auto simp: requests_patch_def snd_bindS_lift split: sum.splits option.splits json.splits)
    then show ?thesis by (rule same)
  qed
qed

lemma requests_delete_rows:
  "sys_requests (snd (requests_delete A rid s)) = sys_requests s \<or>
   sys_requests (snd (requests_delete A rid s)) = filter (\<lambda>r. rq_id r \<noteq> rid) (sys_requests s)"
  "sys_rules (snd (requests_delete A rid s)) = sys_rules s"
  by (auto simp: requests_delete_def on_redis_def bindS_def split: option.splits prod.splits sum.splits)

lemma request_row_queue:
  assumes "request_queue s rid = Some n" "requests_inv (sys_requests s) nxt" "r \<in> set (sys_requests s)" "rq_id r = rid"
  shows "rq_queue_id r = n"
proof -
  obtain r' where r': "find (\<lambda>r. rq_id r = rid) (sys_requests s) = Some r'" "rq_queue_id r' = n"
    using assms(1) by (auto simp: request_queue_def)
  then have "r' \<in> set (sys_requests s)" "rq_id r' = rid" by (auto simp: find_Some_iff)
  moreover have "inj_on rq_id (set (sys_requests s))" using assms(2) by (simp add: requests_inv_def distinct_map)
  ultimately have "r' = r" using inj_onD assms(3,4) by metis
  with r'(2) show ?thesis by simp
qed

text \<open>A call about one queue leaves every other queue alone; a status update changes nothing but statuses.\<close>

lemma call_handler_frame:
  assumes "flow_inv A s" "call_queue s call = Some m" "m \<noteq> n"
  shows "rules_of n (sys_rules (snd (call_handler A D call s))) = rules_of n (sys_rules s) \<and>
     requests_of n (snd (call_handler A D call s)) = requests_of n s"
proof -
  have ids: "distinct (map rule_id (db_rules (sys_rules s)))" and rows: "requests_inv (sys_requests s) (sys_next s)"
    using assms(1) by (simp_all add: flow_inv_def store_inv_def)
  show ?thesis
  proof (cases call)
    case (PatchRequest rid body)
    then have m: "request_queue s rid = Some m" using assms(2) by simp
    obtain f where f: "sys_requests (snd (requests_patch rid body s)) = map (\<lambda>r. if rq_id r = rid then f r else r) (sys_requests s)"
        "\<forall>r. rq_queue_id (f r) = rq_queue_id r" "sys_rules (snd (requests_patch rid body s)) = sys_rules s"
      using requests_patch_rows [of rid body s] by blast
    have "filter (\<lambda>r. rq_queue_id r = n) (map (\<lambda>r. if rq_id r = rid then f r else r) xs) = filter (\<lambda>r. rq_queue_id r = n) xs"
      if "set xs \<subseteq> set (sys_requests s)" for xs
      using that
    proof (induction xs)
      case (Cons x xs)
      then have "rq_id x = rid \<Longrightarrow> rq_queue_id x \<noteq> n"
        using request_row_queue [OF m rows, of x] assms(3) by auto
      with Cons f(2) show ?case by auto
    qed simp
    with PatchRequest f show ?thesis by (simp add: requests_of_def)
  next
    case (DeleteRequest rid)
    then have m: "request_queue s rid = Some m" using assms(2) by simp
    have "rq_queue_id r = n \<Longrightarrow> r \<in> set (sys_requests s) \<Longrightarrow> rq_id r \<noteq> rid" for r
      using request_row_queue [OF m rows] assms(3) by blast
    then have "filter (\<lambda>r. rq_queue_id r = n) (filter (\<lambda>r. rq_id r \<noteq> rid) (sys_requests s)) = filter (\<lambda>r. rq_queue_id r = n) (sys_requests s)"
      by (auto intro: filter_cong)
    with DeleteRequest requests_delete_rows [of A rid s] show ?thesis by (auto simp: requests_of_def)
  qed (use assms(2,3) rules_endpoint_frame [OF _ ids] in \<open>auto simp: on_rules_sys requests_of_def\<close>)
qed

lemma patch_request_frame:
  assumes "is_patch_request call"
  shows "sys_rules (snd (call_handler A D call s)) = sys_rules s \<and>
     map but_status (requests_of n (snd (call_handler A D call s))) = map but_status (requests_of n s)"
proof -
  obtain rid body where call: "call = PatchRequest rid body" using assms by (cases call) simp_all
  obtain f where f: "sys_requests (snd (requests_patch rid body s)) = map (\<lambda>r. if rq_id r = rid then f r else r) (sys_requests s)"
      "\<forall>r. but_status (f r) = but_status r \<and> rq_queue_id (f r) = rq_queue_id r" "sys_rules (snd (requests_patch rid body s)) = sys_rules s"
    using requests_patch_rows [of rid body s] by blast
  have "map but_status (filter (\<lambda>r. rq_queue_id r = n) (map (\<lambda>r. if rq_id r = rid then f r else r) xs)) =
      map but_status (filter (\<lambda>r. rq_queue_id r = n) xs)" for xs
    using f(2) by (induction xs) auto
  with f call show ?thesis by (simp add: requests_of_def)
qed

lemma on_rules_step:
  assumes "rules_step (a_parse A) (a_registry A) (e_float_repr (a_env A)) (sys_rules s) (snd (m (sys_rules s)))"
  shows "flow_step A s (snd (on_rules m s))"
proof -
  have "snd (on_rules m s) = s\<lparr>sys_rules := snd (m (sys_rules s))\<rparr>" by (simp add: on_rules_def split: prod.splits)
  then show ?thesis using flow_step.rules [OF assms] by simp
qed

lemma run_call_step: "snd (run_call E D A user call s) = s \<or> flow_step A s (snd (run_call E D A user call s))"
proof -
  have "snd (run_call E D A user call s) = s \<or> snd (run_call E D A user call s) = snd (call_handler A D call s)"
    by (auto simp: run_call_def role_authorization_def snd_bindS_lift Let_def split: sum.splits option.splits)
  moreover have "flow_step A s (snd (call_handler A D call s))"
    by (cases call) (simp_all add: flow_step.patch flow_step.delete on_rules_step rules_step.intros)
  ultimately show ?thesis by metis
qed

section \<open>Reading queues and rules\<close>

definition rules_search :: "directory \<Rightarrow> rule_db \<Rightarrow> int \<Rightarrow> json \<Rightarrow> queue_rule list res" where
  "rules_search D db qid caller =
     (case find_queue D qid of
        None \<Rightarrow> Inl (NotFound ''Queue'')
      | Some queue \<Rightarrow>
          bindR (can_read_queue D queue caller) (\<lambda>readable.
            if \<not> readable then Inl (NotFound ''Queue'')
            else bindR (is_queue_owner_or_manager D qid caller) (\<lambda>all.
              Inr (if all then get_rules db qid False else filter is_public (get_rules db qid False)))))"

definition rules_get :: "directory \<Rightarrow> rule_db \<Rightarrow> int \<Rightarrow> int \<Rightarrow> json \<Rightarrow> queue_rule res" where
  "rules_get D db qid rid caller =
     (case find_queue D qid of
        None \<Rightarrow> Inl (NotFound ''Queue'')
      | Some queue \<Rightarrow>
          bindR (can_read_queue D queue caller) (\<lambda>readable.
            if \<not> readable then Inl (NotFound ''Queue'')
            else (case get_rule db qid rid of
                    None \<Rightarrow> Inl (NotFound ''Rule'')
                  | Some rule \<Rightarrow>
                      if is_public rule then Inr rule
                      else bindR (is_queue_owner_or_manager D qid caller) (\<lambda>all.
                             if all then Inr rule else Inl (NotFound ''Rule'')))))"

definition queues_get :: "directory \<Rightarrow> int \<Rightarrow> json \<Rightarrow> queue_entry res" where
  "queues_get D qid caller =
     (case find_queue D qid of
        None \<Rightarrow> Inl (NotFound ''Queue'')
      | Some queue \<Rightarrow>
          bindR (can_read_queue D queue caller) (\<lambda>readable. if readable then Inr queue else Inl (Forbidden NotAuthorized)))"

definition queues_search :: "directory \<Rightarrow> json \<Rightarrow> queue_entry list res" where
  "queues_search D caller = bindR (queue_visibility_where D caller) (\<lambda>visible. Inr (filter visible (dir_queues D)))"

text \<open>\<^verbatim>\<open>_filter_public_rules\<close> on the dumped queue.\<close>

fun public_items :: "json list \<Rightarrow> json list res" where
  "public_items [] = Inr []"
| "public_items (rule # rest) =
     (case rule of
        JDict d \<Rightarrow> bindR (public_items rest) (\<lambda>kept. Inr (if truthy (dget d ''is_public'') then rule # kept else kept))
      | _ \<Rightarrow> Inl (PyExc ''AttributeError''))"

definition filter_public_rules :: "dict \<Rightarrow> dict res" where
  "filter_public_rules queue_data =
     (case dget queue_data ''rules'' of
        JList rules \<Rightarrow> bindR (public_items rules) (\<lambda>kept. Inr (dict_set ''rules'' (JList kept) queue_data))
      | _ \<Rightarrow> Inr queue_data)"

lemma public_items_public: "public_items rules = Inr kept \<Longrightarrow> JDict d \<in> set kept \<Longrightarrow> truthy (dget d ''is_public'')"
  by (induction rules arbitrary: kept) (auto simp: bindR_eq_Inr split: json.splits if_splits)

section \<open>Creating and changing queues\<close>

text \<open>Python's equality of a column with a JSON value; numbers and truth values compare by value.\<close>

definition json_eq :: "json \<Rightarrow> json \<Rightarrow> bool" where
  "json_eq a b \<longleftrightarrow> a = b \<or> (num_of a \<noteq> None \<and> num_of a = num_of b)"

fun queue_column :: "queue_entry \<Rightarrow> string \<Rightarrow> json" where
  "queue_column q k =
     (if k = ''name'' then JStr (qe_name q) else if k = ''description'' then JStr (qe_description q)
      else if k = ''visibility'' then JInt (qe_visibility q) else JBool (qe_is_open q))"

definition set_queue_column :: "string \<times> json \<Rightarrow> queue_entry \<Rightarrow> queue_entry res" where
  "set_queue_column kv q =
     (case kv of (k, v) \<Rightarrow>
        (case v of
           JStr x \<Rightarrow> if k = ''name'' then Inr (q\<lparr>qe_name := x\<rparr>)
                     else if k = ''description'' then Inr (q\<lparr>qe_description := x\<rparr>) else Inl (PyExc ''DataError'')
         | JInt n \<Rightarrow> if k = ''visibility'' then Inr (q\<lparr>qe_visibility := n\<rparr>) else Inl (PyExc ''DataError'')
         | JBool b \<Rightarrow> if k = ''is_open'' then Inr (q\<lparr>qe_is_open := b\<rparr>) else Inl (PyExc ''DataError'')
         | _ \<Rightarrow> Inl (PyExc ''DataError'')))"

fun set_queue_columns :: "dict \<Rightarrow> queue_entry \<Rightarrow> queue_entry res" where
  "set_queue_columns [] q = Inr q"
| "set_queue_columns (kv # rest) q = bindR (set_queue_column kv q) (set_queue_columns rest)"

text \<open>The constraint \<^verbatim>\<open>_user_and_name_uc\<close>.\<close>

definition name_taken :: "directory \<Rightarrow> queue_entry \<Rightarrow> bool" where
  "name_taken D q = list_ex (\<lambda>q'. qe_id q' \<noteq> qe_id q \<and> qe_user_id q' = qe_user_id q \<and> qe_name q' = qe_name q) (dir_queues D)"

definition put_queue :: "queue_entry \<Rightarrow> directory \<Rightarrow> directory" where
  "put_queue q D = D\<lparr>dir_queues := map (\<lambda>q'. if qe_id q' = qe_id q then q else q') (dir_queues D)\<rparr>"

definition queues_patch :: "int \<Rightarrow> dict \<Rightarrow> (directory, unit) act" where
  "queues_patch qid body D =
     bindS (liftS (bleach_body (Some [''name'', ''description'', ''visibility'', ''is_open'']) [] body)) (\<lambda>body D.
       case find_queue D qid of
         None \<Rightarrow> (Inl (NotFound ''Queue''), D)
       | Some queue \<Rightarrow>
           let delta = filter (\<lambda>(k, v). \<not> json_eq v (queue_column queue k)) body in
           if delta = [] then (Inr (), D)
           else (case set_queue_columns delta queue of
                   Inl e \<Rightarrow> (Inl e, D)
                 | Inr q \<Rightarrow> if name_taken D q then (Inl (PyExc ''IntegrityError''), D) else (Inr (), put_queue q D))) D"

definition queues_post :: "dict \<Rightarrow> (directory, unit) act" where
  "queues_post body D =
     (case (map_of body ''name'', map_of body ''user_id'') of
        (Some (JStr name), Some (JInt uid)) \<Rightarrow>
          if list_ex (\<lambda>q. qe_user_id q = uid \<and> qe_name q = name) (dir_queues D) then (Inl (Conflict ''Queue''), D)
          else if dir_roles D uid = None then (Inl (PyExc ''IntegrityError''), D)
          else (case (map_of body ''description'', dget_or body ''visibility'' (JInt 0)) of
                  (Some (JStr description), JInt visibility) \<Rightarrow>
                    (Inr (), D\<lparr>dir_queues := dir_queues D @ [\<lparr>qe_id = dir_next D, qe_user_id = uid, qe_name = name,
                        qe_description = description, qe_is_open = True, qe_visibility = visibility, qe_managers = []\<rparr>],
                      dir_next := dir_next D + 1\<rparr>)
                | (None, _) \<Rightarrow> (Inl (PyExc ''IntegrityError''), D)
                | _ \<Rightarrow> (Inl (PyExc ''DataError''), D))
      | (Some _, Some _) \<Rightarrow> (Inl (PyExc ''DataError''), D)
      | _ \<Rightarrow> (Inl (PyExc ''KeyError''), D))"

definition patch_queue_call :: "auth_env \<Rightarrow> json \<Rightarrow> int \<Rightarrow> dict \<Rightarrow> (directory, unit) act" where
  "patch_queue_call E user qid body D =
     role_authorization E D [ADMIN] [] (Some (\<lambda>D kwargs. queue_owner_override D (\<lambda>_. None) False kwargs)) (\<lambda>_. queues_patch qid body)
       ([(''queue_id'', JInt qid), (''body'', JDict body)] @ auth_args user) D"

definition post_queue_call :: "auth_env \<Rightarrow> json \<Rightarrow> dict \<Rightarrow> (directory, unit) act" where
  "post_queue_call E user body D =
     role_authorization E D [ADMIN] [] None (\<lambda>_. queues_post body) ((''body'', JDict body) # auth_args user) D"

text \<open>Identifiers are unique and below the sequence, and no owner has two queues of one name.\<close>

definition directory_inv :: "directory \<Rightarrow> bool" where
  "directory_inv D \<longleftrightarrow>
     distinct (map qe_id (dir_queues D)) \<and> (\<forall>q \<in> set (dir_queues D). qe_id q < dir_next D) \<and>
     distinct (map (\<lambda>q. (qe_user_id q, qe_name q)) (dir_queues D))"

lemma set_queue_columns_key:
  "set_queue_columns delta q = Inr q' \<Longrightarrow> qe_id q' = qe_id q \<and> qe_user_id q' = qe_user_id q \<and> qe_managers q' = qe_managers q"
proof (induction delta arbitrary: q)
  case (Cons kv delta)
  then obtain q1 where q1: "set_queue_column kv q = Inr q1" "set_queue_columns delta q1 = Inr q'"
    by (auto simp: bindR_eq_Inr)
  then have "qe_id q1 = qe_id q \<and> qe_user_id q1 = qe_user_id q \<and> qe_managers q1 = qe_managers q"
    by (auto simp: set_queue_column_def split: prod.splits json.splits if_splits)
  with Cons.IH [OF q1(2)] show ?case by simp
qed simp

lemma put_queue_inv:
  assumes "directory_inv D" "\<not> name_taken D q"
  shows "directory_inv (put_queue q D)"
proof -
  let ?f = "\<lambda>q'. if qe_id q' = qe_id q then q else q'" and ?key = "\<lambda>q. (qe_user_id q, qe_name q)"
  have ids: "map qe_id (map ?f xs) = map qe_id xs" for xs by (induction xs) auto
  have "distinct (map ?key (map ?f xs))"
    if "set xs \<subseteq> set (dir_queues D)" "distinct (map qe_id xs)" "distinct (map ?key xs)" for xs
    using that
  proof (induction xs)
    case (Cons x xs)
    have free: "?key x' \<noteq> ?key q" if "x' \<in> set (x # xs)" "qe_id x' \<noteq> qe_id q" for x'
      using assms(2) that Cons.prems(1) by (auto simp: name_taken_def list_ex_iff)
    have "?key (?f x) \<noteq> ?key (?f x')" if "x' \<in> set xs" for x'
    proof -
      have "qe_id x \<noteq> qe_id x'" using Cons.prems(2) that by auto
      moreover have "?key x \<noteq> ?key x'" using Cons.prems(3) that by force
      ultimately show ?thesis using free [of x] free [of x'] that by auto
    qed
    then have "?key (?f x) \<notin> ?key ` ?f ` set xs" by blast
    then show ?case using Cons by (simp add: image_image del: if_image_distrib)
  qed simp
  moreover have "qe_id q' < dir_next D" if "q' \<in> ?f ` set (dir_queues D)" for q'
    using that assms(1) by (auto simp: directory_inv_def split: if_splits)
  ultimately show ?thesis
    using assms(1) unfolding directory_inv_def put_queue_def by (simp add: ids del: map_map)
qed

lemma queues_patch_inv: "directory_inv D \<Longrightarrow> directory_inv (snd (queues_patch qid body D))"
  by (auto simp: queues_patch_def snd_bindS_lift Let_def put_queue_inv split: sum.splits option.splits)

lemma queues_post_inv:
  assumes "directory_inv D"
  shows "directory_inv (snd (queues_post body D))"
proof -
  have "directory_inv (D\<lparr>dir_queues := dir_queues D @ [q], dir_next := dir_next D + 1\<rparr>)"
    if "qe_id q = dir_next D" "\<not> list_ex (\<lambda>q'. qe_user_id q' = qe_user_id q \<and> qe_name q' = qe_name q) (dir_queues D)" for q
    using assms that by (auto simp: directory_inv_def list_ex_iff)
  with assms show ?thesis
    by (auto simp: queues_post_def split: option.splits json.splits)
qed

text \<open>What the listing shows, the queue endpoint returns.\<close>

lemma listed_readable:
  assumes "queue_visibility_where D caller = Inr visible" "visible q" "q \<in> set (dir_queues D)"
  shows "can_read_queue D q caller = Inr True"
proof -
  obtain admin where admin: "is_admin D caller = Inr admin" using assms(1) by (auto simp: queue_visibility_where_def bindR_eq_Inr)
  have "qe_visibility q = 2 \<Longrightarrow> admin \<or> (caller \<noteq> JNull \<and> owns_or_manages caller q)"
    using assms(1,2) admin by (auto simp: queue_visibility_where_def split: if_splits)
  with assms(3) admin show ?thesis
    by (auto simp: can_read_queue_def is_queue_owner_or_manager_def list_ex_iff)
qed

definition may_manage :: "directory \<Rightarrow> json \<Rightarrow> int \<Rightarrow> bool" where
  "may_manage D user n \<longleftrightarrow> admin_user D user \<or> owns_queue D user n \<or> manages_queue D user n"

lemma owner_or_manager_may:
  "is_queue_owner_or_manager D n user = Inr b \<Longrightarrow> b \<longleftrightarrow> may_manage D user n"
  using owner_or_manager_iff [of D n user b]
  by (auto simp: may_manage_def owns_queue_def manages_queue_def owns_or_manages_def)

end
