(* ===== verification/Access_Properties.thy ===== *)
theory Access_Properties
  imports Access_Endpoints Flow_Properties
begin

text \<open>
  Properties of the access control, with instances: what users who have no right to a queue cannot
  change and cannot see.
\<close>

section \<open>Fixture\<close>

definition demo_auth :: auth_env where
  "demo_auth = \<lparr>security_enabled = True, debug_header = None, dev_admin_user_id = 1\<rparr>"

definition demo_private :: queue_entry where
  "demo_private = \<lparr>qe_id = 7, qe_user_id = 10, qe_name = ''Queue A'', qe_description = [], qe_is_open = True,
     qe_visibility = 2, qe_managers = [11]\<rparr>"

definition demo_dir :: directory where
  "demo_dir = \<lparr>dir_roles = (\<lambda>u. if u = 1 then Some [ADMIN] else Some [USER]), dir_queues = [demo_private], dir_next = 8\<rparr>"

lemma demo_no_admin: "\<not> admin_user demo_dir (JInt 11)" "\<not> admin_user demo_dir (JInt 12)"
  by (auto simp: admin_user_def demo_dir_def USER_def ADMIN_def)

lemma demo_no_owner: "\<not> owns_queue demo_dir (JInt 11) 7" "\<not> owns_queue demo_dir (JInt 12) 7"
  by (auto simp: owns_queue_def demo_dir_def demo_private_def)

section \<open>Changes\<close>

text \<open>
  (C23) A queue is changed only by those entitled to it. Whatever sequence of decorated calls a user
  makes who is neither an administrator nor the owner of a queue, the rules of the queue stay as they
  are and of its requests at most the statuses change; when the user is no manager of the queue
  either, its requests stay as they are.
\<close>
theorem queue_access_enforced:
  assumes "app_ok A" "pydantic_sound (a_parse A)" "flow_reachable A s" "security_enabled E"
    and "\<not> admin_user D user" "\<not> owns_queue D user n"
  shows "rules_of n (sys_rules (run_calls E D A user calls s)) = rules_of n (sys_rules s) \<and>
     map but_status (requests_of n (run_calls E D A user calls s)) = map but_status (requests_of n s) \<and>
     (\<not> manages_queue D user n \<longrightarrow> requests_of n (run_calls E D A user calls s) = requests_of n s)"
  using assms(3)
proof (induction calls arbitrary: s)
  case (Cons call calls)
  define t where "t = snd (run_call E D A user call s)"
  have inv: "flow_inv A s" using reachable_flow_inv [OF assms(1,2) Cons.prems] .
  have "flow_reachable A t"
    using run_call_step [of E D A user call s] step_reachable [OF Cons.prems] Cons.prems by (auto simp: t_def)
  note later = Cons.IH [OF this]
  obtain r where run: "run_call E D A user call s = (r, t)" unfolding t_def by (metis surjective_pairing)
  have "rules_of n (sys_rules t) = rules_of n (sys_rules s) \<and> map but_status (requests_of n t) = map but_status (requests_of n s) \<and>
      (\<not> manages_queue D user n \<longrightarrow> requests_of n t = requests_of n s)"
  proof (cases rule: run_call_cases [OF run assms(4), case_names denied admin owner manager])
    case (owner m)
    then show ?thesis using call_handler_frame [OF inv owner(1), of n D] assms(6) by force
  next
    case (manager m)
    then have t: "snd (call_handler A D call s) = t" by simp
    show ?thesis
      using call_handler_frame [OF inv manager(2), of n D] patch_request_frame [OF manager(1), of A D s n] manager(3)
      unfolding t by (cases "m = n") auto
  qed (use assms(5) in simp_all)
  with later show ?case by (simp add: t_def [symmetric])
qed simp

theorem queue_access_enforced_witness:
  "requests_of 7 (run_calls demo_auth demo_dir demo_app (JInt 12) [DeleteRequest 1, PutRules 7 [(''rules'', JList [])]] demo_queued) =
   requests_of 7 demo_queued"
proof -
  have "\<not> manages_queue demo_dir (JInt 12) 7" by (auto simp: manages_queue_def demo_dir_def demo_private_def)
  moreover have "security_enabled demo_auth" by (simp add: demo_auth_def)
  ultimately show ?thesis
    using queue_access_enforced [OF demo_app_ok demo_sound demo_queued_reachable _ demo_no_admin(2) demo_no_owner(2)] by blast
qed

section \<open>Reading\<close>



end
