(* ===== verification/Accounts.thy ===== *)
theory Accounts
  imports Access_Control
begin

text \<open>
  How callers authenticate: the tokens of \<^verbatim>\<open>src/app/security/jwt.py\<close>, the API keys of
  \<^verbatim>\<open>src/app/security/api_key.py\<close> and \<^verbatim>\<open>src/api/v1/users/api_key.py\<close>, the readers of both in
  \<^verbatim>\<open>src/api/auth.py\<close>, and the limiter of \<^verbatim>\<open>src/app/security/auth_rate_limit.py\<close> with the endpoints that use
  it (\<^verbatim>\<open>src/api/v1/login\<close>, \<^verbatim>\<open>src/api/v1/token\<close>). Times of keys are microseconds, those of tokens and of the
  limiter seconds. Signing and hashing are parameters.
\<close>

section \<open>Tokens\<close>

definition JWT_LIFETIME_DAYS :: int where "JWT_LIFETIME_DAYS = 30"

text \<open>The two readings of the clock, in microseconds.\<close>

definition create_token_payload :: "string \<Rightarrow> int \<Rightarrow> int \<Rightarrow> int \<Rightarrow> dict" where
  "create_token_payload issuer issued expiring uid =
     [(''sub'', JStr (py_str uid)), (''iss'', JStr issuer), (''iat'', JInt (issued div 1000000)),
      (''exp'', JInt ((expiring + JWT_LIFETIME_DAYS * 86400 * 1000000) div 1000000))]"

definition encode_token :: "(dict \<Rightarrow> string) \<Rightarrow> dict \<Rightarrow> string" where
  "encode_token jenc payload = jenc payload"

definition decode_token :: "(string \<Rightarrow> int \<Rightarrow> string \<Rightarrow> dict res) \<Rightarrow> string \<Rightarrow> int \<Rightarrow> string \<Rightarrow> dict res" where
  "decode_token jdec issuer now tok = jdec issuer now tok"

definition generate_token :: "(dict \<Rightarrow> string) \<Rightarrow> string \<Rightarrow> int \<Rightarrow> int \<Rightarrow> int \<Rightarrow> string" where
  "generate_token jenc issuer issued expiring uid = encode_token jenc (create_token_payload issuer issued expiring uid)"

text \<open>
  What the library documents for \<^verbatim>\<open>decode\<close> with an expected issuer and required claims: a token it
  signed itself is checked for its claims, its issuer, its times, and then returned.
\<close>

definition checked_claims :: "string \<Rightarrow> int \<Rightarrow> dict \<Rightarrow> dict res" where
  "checked_claims issuer now payload =
     (if \<exists>k \<in> {''sub'', ''iss'', ''iat'', ''exp''}. map_of payload k = None then Inl (PyExc ''MissingRequiredClaimError'')
      else if map_of payload ''iss'' \<noteq> Some (JStr issuer) then Inl (PyExc ''InvalidIssuerError'')
      else (case (num_of (dget payload ''iat''), num_of (dget payload ''exp'')) of
              (Some issued_at, Some expires) \<Rightarrow>
                if issued_at > of_int now then Inl (PyExc ''ImmatureSignatureError'')
                else if expires \<le> of_int now then Inl (PyExc ''ExpiredSignatureError'')
                else Inr payload
            | _ \<Rightarrow> Inl (PyExc ''DecodeError'')))"

definition token_errors :: "string list" where
  "token_errors = [''MissingRequiredClaimError'', ''InvalidIssuerError'', ''ImmatureSignatureError'',
     ''ExpiredSignatureError'', ''DecodeError'', ''InvalidTokenError'']"

text \<open>\<open>signable\<close> are the payloads the library can sign. What does not come from it is refused.\<close>

definition jwt_laws :: "(dict \<Rightarrow> bool) \<Rightarrow> (dict \<Rightarrow> string) \<Rightarrow> (string \<Rightarrow> int \<Rightarrow> string \<Rightarrow> dict res) \<Rightarrow> bool" where
  "jwt_laws signable jenc jdec \<longleftrightarrow>
     (\<forall>issuer now payload. signable payload \<longrightarrow> jdec issuer now (jenc payload) = checked_claims issuer now payload) \<and>
     (\<forall>issuer now tok. (\<forall>payload. signable payload \<longrightarrow> tok \<noteq> jenc payload) \<longrightarrow>
        (\<exists>x \<in> set token_errors. jdec issuer now tok = Inl (PyExc x)))"

text \<open>\<^verbatim>\<open>int(x)\<close> of a claim that is no \<^verbatim>\<open>int\<close> yet.\<close>

fun claim_int :: "json \<Rightarrow> json res" where
  "claim_int (JInt n) = Inr (JInt n)"
| "claim_int (JBool b) = Inr (JBool b)"
| "claim_int (JFloat q) = Inr (JInt (if q < 0 then - \<lfloor>- q\<rfloor> else \<lfloor>q\<rfloor>))"
| "claim_int (JStr s) = bindR (py_int s) (\<lambda>n. Inr (JInt n))"
| "claim_int _ = Inl (PyExc ''TypeError'')"

definition validate_token :: "(string \<Rightarrow> int \<Rightarrow> string \<Rightarrow> dict res) \<Rightarrow> string \<Rightarrow> int \<Rightarrow> string \<Rightarrow> dict res" where
  "validate_token jdec issuer now tok =
     bindR (decode_token jdec issuer now tok) (\<lambda>payload.
     bindR (need payload ''sub'') (\<lambda>sub.
       case sub of
         JStr text \<Rightarrow>
           if \<not> isdigit text then Inl (PyExc ''InvalidTokenError'')
           else bindR (py_int text) (\<lambda>n.
                bindR (need payload ''iat'') (\<lambda>iat. bindR (claim_int iat) (\<lambda>iat.
                bindR (need payload ''exp'') (\<lambda>expv. bindR (claim_int expv) (\<lambda>expv.
                  Inr (dict_set ''exp'' expv (dict_set ''iat'' iat (dict_set ''sub'' (JInt n) payload))))))))
       | _ \<Rightarrow> Inl (PyExc ''InvalidTokenError'')))"

definition bearer_info :: "(string \<Rightarrow> int \<Rightarrow> string \<Rightarrow> dict res) \<Rightarrow> string \<Rightarrow> int \<Rightarrow> string \<Rightarrow> dict option res" where
  "bearer_info jdec issuer now tok =
     (case validate_token jdec issuer now tok of
        Inr payload \<Rightarrow> Inr (Some payload)
      | Inl e \<Rightarrow> if e \<in> set (map PyExc token_errors) then Inr None else Inl e)"

lemma isdigit_py_str: "0 \<le> n \<Longrightarrow> isdigit (py_str n)"
  by (simp add: py_str_def isdigit_dec)

lemma generated_token_validates:
  assumes "jwt_laws signable jenc jdec" "signable (create_token_payload issuer issued expiring uid)" "0 \<le> uid"
    and "issued div 1000000 \<le> now" "now < expiring div 1000000 + JWT_LIFETIME_DAYS * 86400"
  shows "\<exists>payload. validate_token jdec issuer now (generate_token jenc issuer issued expiring uid) = Inr payload \<and>
     map_of payload ''sub'' = Some (JInt uid) \<and> map_of payload ''iss'' = Some (JStr issuer)"
proof -
  let ?p = "create_token_payload issuer issued expiring uid"
  have expires: "(expiring + JWT_LIFETIME_DAYS * 86400 * 1000000) div 1000000 = expiring div 1000000 + JWT_LIFETIME_DAYS * 86400"
    using div_mult_self1 [of "1000000 :: int" expiring "JWT_LIFETIME_DAYS * 86400"] by (simp add: mult.commute mult.assoc)
  have "checked_claims issuer now ?p = Inr ?p"
    using assms(4,5) expires by (simp add: checked_claims_def create_token_payload_def)
  then have "jdec issuer now (generate_token jenc issuer issued expiring uid) = Inr ?p"
    using assms(1,2) by (simp add: jwt_laws_def generate_token_def encode_token_def)
  then show ?thesis
    by (simp add: validate_token_def decode_token_def create_token_payload_def need_def isdigit_py_str [OF assms(3)])
qed

text \<open>A payload that validates is typed.\<close>

lemma validated_token_typed:
  assumes "validate_token jdec issuer now tok = Inr payload"
  shows "(\<exists>n \<ge> 0. map_of payload ''sub'' = Some (JInt n)) \<and>
     (\<forall>k \<in> {''iat'', ''exp''}. \<exists>v. map_of payload k = Some v \<and> ((\<exists>n. v = JInt n) \<or> (\<exists>b. v = JBool b)))"
proof -
  have claim: "claim_int v = Inr w \<Longrightarrow> (\<exists>n. w = JInt n) \<or> (\<exists>b. w = JBool b)" for v w
    by (cases v) (auto simp: bindR_eq_Inr)
  obtain d sub where d: "decode_token jdec issuer now tok = Inr d" "need d ''sub'' = Inr sub"
    using assms by (auto simp: validate_token_def bindR_eq_Inr)
  obtain ds where ds: "sub = JStr ds" "isdigit ds"
    using assms d by (cases sub) (auto simp: validate_token_def split: if_splits)
  obtain n iat iat' xp exp' where p: "py_int ds = Inr n" "claim_int iat = Inr iat'" "claim_int xp = Inr exp'"
      "payload = dict_set ''exp'' exp' (dict_set ''iat'' iat' (dict_set ''sub'' (JInt n) d))"
    using assms d ds by (auto simp: validate_token_def bindR_eq_Inr)
  have "0 \<le> n" using p(1) py_int_digits [OF ds(2)] by auto
  with p claim show ?thesis by auto
qed

section \<open>API keys\<close>

record api_key_row =
  ak_id :: int
  ak_hashed_key :: string
  ak_user_id :: int
  ak_created_at :: int
  ak_expires_at :: int
  ak_is_revoked :: bool

record key_db =
  key_rows :: "api_key_row list"
  key_next :: int

definition validate_api_key :: "int \<Rightarrow> api_key_row option \<Rightarrow> dict res" where
  "validate_api_key now api_key =
     (case api_key of
        None \<Rightarrow> Inl (PyExc ''ValueError'')
      | Some k \<Rightarrow>
          if ak_expires_at k < now then Inl (PyExc ''ValueError'')
          else if ak_is_revoked k then Inl (PyExc ''ValueError'')
          else Inr [(''sub'', JInt (ak_user_id k)), (''iat'', JInt (ak_created_at k div 1000000)),
                    (''exp'', JInt (ak_expires_at k div 1000000))])"

definition api_key_info :: "(string \<Rightarrow> string) \<Rightarrow> int \<Rightarrow> key_db \<Rightarrow> string \<Rightarrow> dict option" where
  "api_key_info hash_api_key now db key =
     (case validate_api_key now (find (\<lambda>k. ak_hashed_key k = hash_api_key key) (key_rows db)) of
        Inl _ \<Rightarrow> None | Inr payload \<Rightarrow> Some payload)"

definition active_key :: "key_db \<Rightarrow> int \<Rightarrow> api_key_row option" where
  "active_key db uid = find (\<lambda>k. ak_user_id k = uid \<and> \<not> ak_is_revoked k) (key_rows db)"

definition api_key_search :: "int \<Rightarrow> key_db \<Rightarrow> (int \<times> int \<times> bool) option" where
  "api_key_search uid db =
     (case active_key db uid of None \<Rightarrow> None | Some k \<Rightarrow> Some (ak_created_at k, ak_expires_at k, ak_is_revoked k))"

definition revoke_key :: "int \<Rightarrow> key_db \<Rightarrow> key_db" where
  "revoke_key kid db = db\<lparr>key_rows := map (\<lambda>k. if ak_id k = kid then k\<lparr>ak_is_revoked := True\<rparr> else k) (key_rows db)\<rparr>"

definition NINETY_DAYS :: int where "NINETY_DAYS = 90 * 86400 * 1000000"

text \<open>
  \<^verbatim>\<open>POST /users/{user_id}/api-key\<close>: the active key is revoked in its own transaction, then the new one is
  added; \<open>raw_key\<close> is what \<^verbatim>\<open>generate_api_key\<close> drew. Hashes are unique.
\<close>

definition api_key_post :: "(string \<Rightarrow> string) \<Rightarrow> (int \<Rightarrow> bool) \<Rightarrow> int \<Rightarrow> string \<Rightarrow> int \<Rightarrow> (key_db, string) act" where
  "api_key_post hash_api_key users now raw_key uid db =
     (if \<not> users uid then (Inl (NotFound ''User''), db)
      else let db = (case active_key db uid of Some existing \<Rightarrow> revoke_key (ak_id existing) db | None \<Rightarrow> db) in
           if list_ex (\<lambda>k. ak_hashed_key k = hash_api_key raw_key) (key_rows db) then (Inl (PyExc ''IntegrityError''), db)
           else (Inr raw_key, db\<lparr>key_rows := key_rows db @ [\<lparr>ak_id = key_next db, ak_hashed_key = hash_api_key raw_key, ak_user_id = uid,
                     ak_created_at = now, ak_expires_at = now + NINETY_DAYS, ak_is_revoked = False\<rparr>], key_next := key_next db + 1\<rparr>))"

definition keys_inv :: "key_db \<Rightarrow> bool" where
  "keys_inv db \<longleftrightarrow>
     distinct (map ak_id (key_rows db)) \<and> (\<forall>k \<in> set (key_rows db). ak_id k < key_next db) \<and>
     distinct (map ak_hashed_key (key_rows db)) \<and>
     distinct (map ak_user_id (filter (\<lambda>k. \<not> ak_is_revoked k) (key_rows db)))"

lemma revoke_key_rows: "map ak_id (key_rows (revoke_key kid db)) = map ak_id (key_rows db)"
  "map ak_hashed_key (key_rows (revoke_key kid db)) = map ak_hashed_key (key_rows db)" "key_next (revoke_key kid db) = key_next db"
  by (simp_all add: revoke_key_def comp_def if_distrib cong: if_cong)

text \<open>Revoking the active key leaves the user with none and everybody else with theirs.\<close>

lemma active_after_revoke:
  assumes "distinct (map ak_id xs)"
  shows "filter (\<lambda>k. \<not> ak_is_revoked k) (map (\<lambda>k. if ak_id k = kid then k\<lparr>ak_is_revoked := True\<rparr> else k) xs) =
     filter (\<lambda>k. \<not> ak_is_revoked k \<and> ak_id k \<noteq> kid) xs"
  by (induction xs) auto

lemma find_active:
  assumes "active_key db uid = Some k" "keys_inv db"
  shows "k \<in> set (key_rows db)" "ak_user_id k = uid" "\<not> ak_is_revoked k"
    "\<And>k'. k' \<in> set (key_rows db) \<Longrightarrow> \<not> ak_is_revoked k' \<Longrightarrow> ak_user_id k' = uid \<Longrightarrow> k' = k"
proof -
  show k: "k \<in> set (key_rows db)" "ak_user_id k = uid" "\<not> ak_is_revoked k"
    using assms(1) by (auto simp: active_key_def find_Some_iff)
  have "inj_on ak_user_id (set (filter (\<lambda>k. \<not> ak_is_revoked k) (key_rows db)))"
    using assms(2) by (simp add: keys_inv_def distinct_map)
  then show "k' = k" if "k' \<in> set (key_rows db)" "\<not> ak_is_revoked k'" "ak_user_id k' = uid" for k'
    using inj_onD [of ak_user_id _ k' k] that k by auto
qed

lemma revoked_db_inv:
  fixes uid :: int
  assumes "keys_inv db"
  defines "db1 \<equiv> (case active_key db uid of Some existing \<Rightarrow> revoke_key (ak_id existing) db | None \<Rightarrow> db)"
  shows "keys_inv db1 \<and> (\<forall>k \<in> set (key_rows db1). ak_user_id k = uid \<longrightarrow> ak_is_revoked k) \<and>
     map ak_hashed_key (key_rows db1) = map ak_hashed_key (key_rows db) \<and> key_next db1 = key_next db"
proof (cases "active_key db uid")
  case None
  then have "\<forall>k \<in> set (key_rows db). ak_user_id k = uid \<longrightarrow> ak_is_revoked k"
    by (auto simp: active_key_def find_None_iff)
  with None assms(1) show ?thesis by (simp add: db1_def)
next
  case (Some k)
  let ?db = "revoke_key (ak_id k) db"
  have ids: "distinct (map ak_id (key_rows db))" using assms(1) by (simp add: keys_inv_def)
  have "filter (\<lambda>k. \<not> ak_is_revoked k) (key_rows ?db) = filter (\<lambda>k'. \<not> ak_is_revoked k' \<and> ak_id k' \<noteq> ak_id k) (key_rows db)"
    using active_after_revoke [OF ids] by (simp add: revoke_key_def)
  also have "\<dots> = filter (\<lambda>k'. ak_id k' \<noteq> ak_id k) (filter (\<lambda>k. \<not> ak_is_revoked k) (key_rows db))"
    by (auto intro: filter_cong)
  finally have act: "distinct (map ak_user_id (filter (\<lambda>k. \<not> ak_is_revoked k) (key_rows ?db)))"
    using assms(1) by (simp only: keys_inv_def distinct_map_filter)
  have "ak_id k' < key_next db" if "k' \<in> set (key_rows ?db)" for k'
    using that assms(1) by (auto simp: keys_inv_def revoke_key_def split: if_splits)
  with act assms(1) have "keys_inv ?db"
    unfolding keys_inv_def revoke_key_rows by blast
  moreover have "ak_is_revoked k'" if "k' \<in> set (key_rows ?db)" "ak_user_id k' = uid" for k'
    using that find_active(4) [OF Some assms(1)] by (auto simp: revoke_key_def split: if_splits)
  ultimately show ?thesis using Some by (simp add: db1_def revoke_key_rows)
qed

lemma api_key_post_inv:
  assumes "keys_inv db"
  shows "keys_inv (snd (api_key_post hash users now raw uid db))"
proof -
  define db1 where "db1 = (case active_key db uid of Some existing \<Rightarrow> revoke_key (ak_id existing) db | None \<Rightarrow> db)"
  have db1: "keys_inv db1" "\<forall>k \<in> set (key_rows db1). ak_user_id k = uid \<longrightarrow> ak_is_revoked k"
    using revoked_db_inv [OF assms, of uid] by (simp_all add: db1_def)
  then have "keys_inv (db1\<lparr>key_rows := key_rows db1 @ [k], key_next := key_next db1 + 1\<rparr>)"
    if "ak_id k = key_next db1" "ak_user_id k = uid" "\<not> list_ex (\<lambda>k'. ak_hashed_key k' = ak_hashed_key k) (key_rows db1)" for k
    using that by (auto simp: keys_inv_def list_ex_iff)
  with db1(1) assms show ?thesis
    by (auto simp: api_key_post_def db1_def [symmetric] Let_def)
qed

lemma api_key_info_Some:
  assumes "api_key_info hash t db key = Some p"
  obtains k where "find (\<lambda>k. ak_hashed_key k = hash key) (key_rows db) = Some k" "dget p ''sub'' = JInt (ak_user_id k)" "\<not> ak_is_revoked k"
  using assms by (auto simp: api_key_info_def validate_api_key_def split: option.splits if_splits sum.splits)

text \<open>Revoking the active key of a user changes nothing for a key that authenticates another.\<close>

lemma api_key_info_revoked:
  assumes "keys_inv db" "dget p ''sub'' \<noteq> JInt uid"
  shows "api_key_info hash t (case active_key db uid of Some existing \<Rightarrow> revoke_key (ak_id existing) db | None \<Rightarrow> db) key = Some p \<longleftrightarrow>
     api_key_info hash t db key = Some p"
proof (cases "active_key db uid")
  case (Some k)
  let ?f = "\<lambda>k'. if ak_id k' = ak_id k then k'\<lparr>ak_is_revoked := True\<rparr> else k'" and ?P = "\<lambda>k. ak_hashed_key k = hash key"
  have k: "k \<in> set (key_rows db)" "ak_user_id k = uid" using find_active(1,2) [OF Some assms(1)] by simp_all
  have found: "find ?P (map ?f xs) = map_option ?f (find ?P xs)" for xs by (induction xs) auto
  have same: "k' = k" if "find ?P (key_rows db) = Some k'" "ak_id k' = ak_id k" for k'
  proof -
    have "k' \<in> set (key_rows db)" using that(1) by (auto simp: find_Some_iff)
    moreover have "inj_on ak_id (set (key_rows db))" using assms(1) by (simp add: keys_inv_def distinct_map)
    ultimately show ?thesis using inj_onD [of ak_id "set (key_rows db)" k' k] k(1) that(2) by blast
  qed
  show ?thesis
    using Some assms(2) k(2) same
    by (auto simp: api_key_info_def revoke_key_def found validate_api_key_def split: option.splits if_splits sum.splits)
qed simp

end
