(* ===== verification/Auth_Limiter.thy ===== *)
theory Auth_Limiter
  imports Accounts
begin

text \<open>
  The limiter of the authentication endpoints (\<^verbatim>\<open>src/app/security/auth_rate_limit.py\<close>) and the endpoints
  behind it: the start of a login, the inspection of a token, and the exchange of an authorisation
  code for a token. \<open>now\<close> is \<^verbatim>\<open>int(time.time())\<close>.
\<close>

section \<open>The limiter\<close>

definition WINDOW_SIZE :: int where "WINDOW_SIZE = 60"
definition MAX_REQUESTS :: int where "MAX_REQUESTS = 10"
definition FAILURE_LOCKOUT :: int where "FAILURE_LOCKOUT = 3600"
definition MAX_FAILURES :: int where "MAX_FAILURES = 20"

lemmas limiter_constants = WINDOW_SIZE_def MAX_REQUESTS_def FAILURE_LOCKOUT_def MAX_FAILURES_def

definition lockout_key :: "string \<Rightarrow> string" where "lockout_key ip = ''auth_lockout:'' @ ip"
definition failures_key :: "string \<Rightarrow> string" where "failures_key ip = ''auth_failures:'' @ ip"

definition window_key :: "string \<Rightarrow> int \<Rightarrow> string" where
  "window_key ip now = ''auth_window:'' @ ip @ '':'' @ py_str (now div WINDOW_SIZE)"

definition window_check :: "'r redis_ops \<Rightarrow> string \<Rightarrow> int \<Rightarrow> ('r, bool \<times> int option) act" where
  "window_check R ip now =
     bindS (rincr R (window_key ip now)) (\<lambda>current.
     bindS (if current = 1 then rexpire R (window_key ip now) WINDOW_SIZE else retS ()) (\<lambda>_.
       retS (if current > MAX_REQUESTS then (False, Some (WINDOW_SIZE - now mod WINDOW_SIZE)) else (True, None))))"

definition limiter_check :: "'r redis_ops \<Rightarrow> string \<Rightarrow> int \<Rightarrow> ('r, bool \<times> int option) act" where
  "limiter_check R ip now s =
     (case rttl R s (lockout_key ip) of
        Some remaining \<Rightarrow> if remaining > 0 then (Inr (False, Some remaining), s) else window_check R ip now s
      | None \<Rightarrow> window_check R ip now s)"

definition record_failure :: "'r redis_ops \<Rightarrow> string \<Rightarrow> ('r, unit) act" where
  "record_failure R ip =
     bindS (rincr R (failures_key ip)) (\<lambda>failures.
     bindS (if failures = 1 then rexpire R (failures_key ip) FAILURE_LOCKOUT else retS ()) (\<lambda>_.
       if failures \<ge> MAX_FAILURES then rset_ex R (lockout_key ip) ''1'' FAILURE_LOCKOUT else retS ()))"

definition record_success :: "'r redis_ops \<Rightarrow> string \<Rightarrow> ('r, unit) act" where
  "record_success R ip = rdelete R (failures_key ip)"

section \<open>The endpoints behind it\<close>

definition CSRF_STATE :: string where "CSRF_STATE = ''csrf_state''"
definition STATE_EXPIRES_IN :: int where "STATE_EXPIRES_IN = 300"

text \<open>A handler that runs only when the limiter lets it.\<close>

definition limited :: "'r redis_ops \<Rightarrow> string \<Rightarrow> int \<Rightarrow> ('r, 'a) act \<Rightarrow> ('r, 'a) act" where
  "limited R ip now handler =
     bindS (limiter_check R ip now) (\<lambda>(allowed, retry_after). if \<not> allowed then raiseS (PyExc ''TooManyRequests'') else handler)"

definition login_search :: "'r redis_ops \<Rightarrow> string \<Rightarrow> int \<Rightarrow> string \<Rightarrow> ('r, string) act" where
  "login_search R ip now csrf =
     limited R ip now
       (bindS (rset_ex R (hash_name CSRF_STATE csrf) ''valid'' STATE_EXPIRES_IN) (\<lambda>_.
        bindS (record_success R ip) (\<lambda>_. retS csrf)))"

definition token_search ::
  "'r redis_ops \<Rightarrow> (string \<Rightarrow> int \<Rightarrow> string \<Rightarrow> dict res) \<Rightarrow> string \<Rightarrow> string \<Rightarrow> int \<Rightarrow> string \<Rightarrow> ('r, dict) act" where
  "token_search R jdec issuer ip now tok =
     limited R ip now
       (case validate_token jdec issuer now tok of
          Inr claims \<Rightarrow> bindS (record_success R ip) (\<lambda>_. retS claims)
        | Inl e \<Rightarrow>
            if e \<in> set (map PyExc token_errors)
            then bindS (record_failure R ip) (\<lambda>_. raiseS (BadRequest ''Invalid or expired JWT''))
            else raiseS e)"

text \<open>
  The state of the exchange: Redis, the users, whether their score fetching is on and has run, and the
  stored osu! tokens with their expiry in microseconds.
\<close>

record 'r auth_state =
  au_redis :: 'r
  au_users :: "int list"
  au_score_tasks :: "(int \<times> bool \<times> bool) list"
  au_tokens :: "(int \<times> string \<times> string \<times> int) list"

definition on_auth :: "('r, 'a) act \<Rightarrow> ('r auth_state, 'a) act" where
  "on_auth m s = (case m (au_redis s) of (r, x) \<Rightarrow> (r, s\<lparr>au_redis := x\<rparr>))"

text \<open>\<^verbatim>\<open>db.add(User)\<close> with the event that gives a new user a score fetcher task, switched off.\<close>

definition ensure_user :: "int \<Rightarrow> 'r auth_state \<Rightarrow> 'r auth_state" where
  "ensure_user uid s =
     (if uid \<in> set (au_users s) then s
      else s\<lparr>au_users := au_users s @ [uid], au_score_tasks := au_score_tasks s @ [(uid, False, False)]\<rparr>)"

definition enable_first_fetch :: "int \<Rightarrow> ('r auth_state, unit) act" where
  "enable_first_fetch uid s =
     (case map_of (au_score_tasks s) uid of
        None \<Rightarrow> (Inl (PyExc ''AttributeError''), s)
      | Some (enabled, fetched) \<Rightarrow>
          (Inr (), if \<not> enabled \<and> \<not> fetched
                   then s\<lparr>au_score_tasks := map (\<lambda>(u, e, f). (u, e \<or> u = uid, f)) (au_score_tasks s)\<rparr> else s))"

definition filled :: "string option \<Rightarrow> bool" where
  "filled x \<longleftrightarrow> (case x of Some v \<Rightarrow> v \<noteq> [] | None \<Rightarrow> False)"

text \<open>
  \<^verbatim>\<open>POST /token\<close>. \<open>fetch\<close> is the exchange of the code with osu! (access and refresh token and the expiry),
  \<open>own_id\<close> the identity behind an access token, \<open>now_us\<close> the clock when the osu! token is stored.
\<close>

definition token_post ::
  "'r redis_ops \<Rightarrow> (dict \<Rightarrow> string) \<Rightarrow> string \<Rightarrow> (string \<Rightarrow> string) \<Rightarrow> (string \<Rightarrow> (string \<times> string \<times> int) res) \<Rightarrow> (string \<Rightarrow> int res) \<Rightarrow>
   string \<Rightarrow> int \<Rightarrow> int \<Rightarrow> string option \<Rightarrow> string option \<Rightarrow> ('r auth_state, string) act" where
  "token_post R jenc issuer encrypt_token fetch own_id ip now now_us authcode csrf =
     bindS (on_auth (limiter_check R ip now)) (\<lambda>(allowed, retry_after).
     if \<not> allowed then raiseS (PyExc ''TooManyRequests'')
     else if \<not> filled authcode then bindS (on_auth (record_failure R ip)) (\<lambda>_. raiseS (BadRequest ''Missing code in body''))
     else if \<not> filled csrf then bindS (on_auth (record_failure R ip)) (\<lambda>_. raiseS (BadRequest ''Missing state in body''))
     else readS (\<lambda>s.
       let key = hash_name CSRF_STATE (the csrf); stored = rget R (au_redis s) key in
       bindS (on_auth (if stored = None then retS () else rdelete R key)) (\<lambda>_.
       if stored \<noteq> Some ''valid'' then raiseS (BadRequest ''Invalid or expired state'')
       else bindS (liftS (case fetch (the authcode) of
                            Inl e \<Rightarrow> Inl (if e = PyExc ''OAuthError'' then PyExc ''OsuOAuthError'' else e) | Inr x \<Rightarrow> Inr x)) (\<lambda>(access, refresh, expires).
            bindS (liftS (own_id access)) (\<lambda>uid.
            bindS (\<lambda>s. (Inr (), ensure_user uid s)) (\<lambda>_.
            bindS (enable_first_fetch uid) (\<lambda>_.
            bindS (\<lambda>s. (Inr (), s\<lparr>au_tokens := au_tokens s @ [(uid, encrypt_token access, encrypt_token refresh, now_us)]\<rparr>)) (\<lambda>_.
            bindS (on_auth (record_success R ip)) (\<lambda>_.
              retS (generate_token jenc issuer now_us now_us uid))))))))))"

section \<open>What the limiter does\<close>

definition set_ex_law :: "'r redis_ops \<Rightarrow> bool" where
  "set_ex_law R \<longleftrightarrow>
     (\<forall>s k v t. 0 < t \<longrightarrow>
        (\<exists>s'. rset_ex R k v t s = (Inr (), s') \<and> rget R s' k = Some v \<and> rttl R s' k = Some t \<and> same_but R k s s'))"

lemma mem_set_ex: "set_ex_law mem_redis"
  by (simp add: set_ex_law_def mem_defs same_but_def map_of_mem_put)

text \<open>The number of failures on record; the key holds a counter or nothing.\<close>

definition failures_at :: "'r redis_ops \<Rightarrow> string \<Rightarrow> 'r \<Rightarrow> int \<Rightarrow> bool" where
  "failures_at R ip s n \<longleftrightarrow>
     counter_at R s (failures_key ip) = Some n \<and> (rget R s (failures_key ip) = None \<longrightarrow> \<not> rexists R s (failures_key ip))"

lemma limiter_keys_differ [simp]:
  "lockout_key ip \<noteq> failures_key ip" "failures_key ip \<noteq> lockout_key ip" "window_key ip now \<noteq> failures_key ip"
  "failures_key ip \<noteq> window_key ip now" "window_key ip now \<noteq> lockout_key ip" "lockout_key ip \<noteq> window_key ip now"
  by (simp_all add: lockout_key_def failures_key_def window_key_def)

lemma failures_key_csrf [simp]: "hash_name CSRF_STATE c \<noteq> failures_key ip" "failures_key ip \<noteq> hash_name CSRF_STATE c"
  "hash_name CSRF_STATE c \<noteq> lockout_key ip" "lockout_key ip \<noteq> hash_name CSRF_STATE c"
  by (simp_all add: hash_name_def CSRF_STATE_def failures_key_def lockout_key_def)

lemma failures_at_other: "same_but R k s s' \<Longrightarrow> k \<noteq> failures_key ip \<Longrightarrow> failures_at R ip s' n = failures_at R ip s n"
  by (simp add: failures_at_def same_but_def counter_at_def)

text \<open>Counting, with a lifetime given by the first.\<close>

lemma incr_then_expire:
  assumes "redis_string_laws R" "counter_at R s k = Some n" "rget R s k = None \<longrightarrow> \<not> rexists R s k" "0 < t"
  obtains s1 s2 where "rincr R k s = (Inr (n + 1), s1)" "(if n + 1 = 1 then rexpire R k t else retS ()) s1 = (Inr (), s2)"
    "rget R s2 k = Some (py_str (n + 1))" "same_but R k s s2"
proof -
  have incr: "counter_law R 1 (rincr R)" and expire: "expire_law R" using assms(1) by (auto simp: redis_string_laws_def)
  obtain s1 where s1: "rincr R k s = (Inr (n + 1), s1)" "rget R s1 k = Some (py_str (n + 1))" "same_but R k s s1"
    using incr [unfolded counter_law_def, rule_format, OF assms(2)] assms(3) by auto
  obtain s2 where "rexpire R k t s1 = (Inr (), s2)" "rget R s2 k = rget R s1 k" "same_but R k s1 s2"
    using expire [unfolded expire_law_def, rule_format, OF assms(4), of k s1] by auto
  then show ?thesis using that [OF s1(1), of "if n + 1 = 1 then s2 else s1"] s1 by (auto simp: same_but_def)
qed

lemma record_failure_effect:
  assumes "redis_string_laws R" "set_ex_law R" "failures_at R ip s n" "0 \<le> n"
  shows "\<exists>s'. record_failure R ip s = (Inr (), s') \<and> failures_at R ip s' (n + 1) \<and>
     rttl R s' (lockout_key ip) = (if n + 1 \<ge> MAX_FAILURES then Some FAILURE_LOCKOUT else rttl R s (lockout_key ip))"
proof -
  let ?k = "failures_key ip"
  have pos: "0 < FAILURE_LOCKOUT" by (simp add: FAILURE_LOCKOUT_def)
  obtain s1 s2 where s1: "rincr R ?k s = (Inr (n + 1), s1)" and s2: "(if n + 1 = 1 then rexpire R ?k FAILURE_LOCKOUT else retS ()) s1 = (Inr (), s2)"
      "rget R s2 ?k = Some (py_str (n + 1))" "same_but R ?k s s2"
    using incr_then_expire [OF assms(1) _ _ pos, of s ?k n] assms(3) by (auto simp: failures_at_def)
  have f2: "failures_at R ip s2 (n + 1)" using s2(2) by (simp add: failures_at_def counter_at_def)
  show ?thesis
  proof (cases "n + 1 \<ge> MAX_FAILURES")
    case True
    obtain s3 where s3: "rset_ex R (lockout_key ip) ''1'' FAILURE_LOCKOUT s2 = (Inr (), s3)" "rttl R s3 (lockout_key ip) = Some FAILURE_LOCKOUT"
        "same_but R (lockout_key ip) s2 s3"
      using assms(2) [unfolded set_ex_law_def, rule_format, OF pos, of "lockout_key ip" "''1''" s2] by auto
    then have "failures_at R ip s3 (n + 1)" using failures_at_other [OF s3(3)] f2 by simp
    moreover have "record_failure R ip s = (Inr (), s3)"
      using s1 s2(1) s3(1) True by (simp add: record_failure_def bindS_def)
    ultimately show ?thesis using s3(2) True by auto
  next
    case False
    then have "record_failure R ip s = (Inr (), s2)" using s1 s2(1) by (simp add: record_failure_def bindS_def)
    then show ?thesis using False f2 s2(3) by (auto simp: same_but_def)
  qed
qed

fun failures_in_a_row :: "'r redis_ops \<Rightarrow> string \<Rightarrow> nat \<Rightarrow> 'r \<Rightarrow> 'r" where
  "failures_in_a_row R ip 0 s = s"
| "failures_in_a_row R ip (Suc m) s = snd (record_failure R ip (failures_in_a_row R ip m s))"

lemma failures_count:
  assumes "redis_string_laws R" "set_ex_law R" "failures_at R ip s 0"
  shows "failures_at R ip (failures_in_a_row R ip m s) (int m) \<and>
     rttl R (failures_in_a_row R ip m s) (lockout_key ip) = (if int m \<ge> MAX_FAILURES then Some FAILURE_LOCKOUT else rttl R s (lockout_key ip))"
proof (induction m)
  case 0
  then show ?case using assms(3) by (simp add: MAX_FAILURES_def)
next
  case (Suc m)
  then obtain s' where "record_failure R ip (failures_in_a_row R ip m s) = (Inr (), s')" "failures_at R ip s' (int m + 1)"
      "rttl R s' (lockout_key ip) = (if int m + 1 \<ge> MAX_FAILURES then Some FAILURE_LOCKOUT
        else rttl R (failures_in_a_row R ip m s) (lockout_key ip))"
    using record_failure_effect [OF assms(1,2), of ip _ "int m"] by auto
  with Suc show ?case by (auto simp: add.commute)
qed

text \<open>A login that the limiter lets through forgets the failures and leaves the lockout alone.\<close>

lemma window_check_frame:
  assumes "redis_string_laws R" "window_check R ip now s = (r, s')" "counter_at R s (window_key ip now) = Some n"
    "rget R s (window_key ip now) = None \<longrightarrow> \<not> rexists R s (window_key ip now)"
  shows "same_but R (window_key ip now) s s'"
proof -
  have "0 < WINDOW_SIZE" by (simp add: WINDOW_SIZE_def)
  from incr_then_expire [OF assms(1,3,4) this] obtain s1 s2 where "rincr R (window_key ip now) s = (Inr (n + 1), s1)"
      "(if n + 1 = 1 then rexpire R (window_key ip now) WINDOW_SIZE else retS ()) s1 = (Inr (), s2)" "same_but R (window_key ip now) s s2"
    by blast
  then show ?thesis using assms(2) by (simp add: window_check_def bindS_def)
qed

text \<open>The window's counters hold numbers or nothing.\<close>

definition windows_ok :: "'r redis_ops \<Rightarrow> string \<Rightarrow> 'r \<Rightarrow> bool" where
  "windows_ok R ip s \<longleftrightarrow>
     (\<forall>now. (\<exists>n. counter_at R s (window_key ip now) = Some n) \<and>
        (rget R s (window_key ip now) = None \<longrightarrow> \<not> rexists R s (window_key ip now)))"

text \<open>A login that the limiter lets through forgets the failures and locks nobody out.\<close>

lemma login_forgets_failures:
  assumes "redis_string_laws R" "set_ex_law R" "windows_ok R ip s" "login_search R ip now csrf s = (Inr x, s')"
  shows "failures_at R ip s' 0 \<and> rttl R s' (lockout_key ip) = rttl R s (lockout_key ip)"
proof -
  obtain s1 where chk: "limiter_check R ip now s = (Inr (True, None), s1)"
    using assms(4) by (auto simp: login_search_def limited_def limiter_check_def window_check_def bindS_eq_Inr
        split: option.splits if_splits prod.splits)
  then have "window_check R ip now s = (Inr (True, None), s1)"
    by (auto simp: limiter_check_def split: option.splits if_splits)
  then have s1: "same_but R (window_key ip now) s s1"
    using window_check_frame [OF assms(1), of ip now s] assms(3) unfolding windows_ok_def by blast
  obtain s2 where s2: "rset_ex R (hash_name CSRF_STATE csrf) ''valid'' STATE_EXPIRES_IN s1 = (Inr (), s2)" "same_but R (hash_name CSRF_STATE csrf) s1 s2"
    using assms(2) [unfolded set_ex_law_def, rule_format, of STATE_EXPIRES_IN "hash_name CSRF_STATE csrf" "''valid''" s1]
    by (auto simp: STATE_EXPIRES_IN_def)
  have "delete_law R" using assms(1) by (simp add: redis_string_laws_def)
  then obtain s3 where s3: "rdelete R (failures_key ip) s2 = (Inr (), s3)" "rget R s3 (failures_key ip) = None"
      "\<not> rexists R s3 (failures_key ip)" "same_but R (failures_key ip) s2 s3"
    unfolding delete_law_def by blast
  have "s' = s3"
    using assms(4) chk s2(1) s3(1) by (simp add: login_search_def limited_def bindS_def record_success_def)
  with s1 s2(2) s3 show ?thesis by (auto simp: failures_at_def counter_at_def same_but_def)
qed

end
