(* ===== verification/Account_Properties.thy ===== *)
theory Account_Properties
  imports Auth_Limiter Flow_Properties
begin

text \<open>Properties of tokens, API keys and the limiter of the authentication endpoints, with instances.\<close>

section \<open>Tokens\<close>

text \<open>
  (C25) A token identifies its user for thirty days: what \<^verbatim>\<open>generate_token\<close> signs for a user, \<^verbatim>\<open>validate_token\<close>
  accepts from the second of its issue until thirty days after, and returns the user's number as an
  integer; afterwards the bearer check answers \<^verbatim>\<open>None\<close>. The claims of any accepted token are typed.
\<close>
theorem token_identifies_user:
  assumes "jwt_laws signable jenc jdec" "signable (create_token_payload issuer issued expiring uid)" "0 \<le> uid" "issued \<le> expiring"
  defines "t \<equiv> generate_token jenc issuer issued expiring uid"
    and "last_second \<equiv> expiring div 1000000 + JWT_LIFETIME_DAYS * 86400"
  shows "(issued div 1000000 \<le> now \<and> now < last_second \<longrightarrow>
            (\<exists>payload. bearer_info jdec issuer now t = Inr (Some payload) \<and> map_of payload ''sub'' = Some (JInt uid))) \<and>
     (last_second \<le> now \<longrightarrow> bearer_info jdec issuer now t = Inr None) \<and>
     (\<forall>other payload. validate_token jdec issuer now other = Inr payload \<longrightarrow>
        (\<exists>n \<ge> 0. map_of payload ''sub'' = Some (JInt n)) \<and>
        (\<forall>k \<in> {''iat'', ''exp''}. \<exists>v. map_of payload k = Some v \<and> ((\<exists>n. v = JInt n) \<or> (\<exists>b. v = JBool b))))"
proof -
  let ?p = "create_token_payload issuer issued expiring uid"
  have "bearer_info jdec issuer now t = Inr None" if "last_second \<le> now"
  proof -
    have "issued div 1000000 \<le> expiring div 1000000" using assms(4) by (simp add: zdiv_mono1)
    then have "issued div 1000000 \<le> now" using that by (simp add: last_second_def JWT_LIFETIME_DAYS_def)
    moreover have "(expiring + JWT_LIFETIME_DAYS * 86400 * 1000000) div 1000000 \<le> now"
      using that by (simp add: last_second_def JWT_LIFETIME_DAYS_def)
    ultimately have "checked_claims issuer now ?p = Inl (PyExc ''ExpiredSignatureError'')"
      by (simp add: checked_claims_def create_token_payload_def)
    then have "jdec issuer now t = Inl (PyExc ''ExpiredSignatureError'')"
      using assms(1,2) by (simp add: jwt_laws_def t_def generate_token_def encode_token_def)
    then show ?thesis by (simp add: bearer_info_def validate_token_def decode_token_def token_errors_def)
  qed
  moreover have "\<exists>payload. bearer_info jdec issuer now t = Inr (Some payload) \<and> map_of payload ''sub'' = Some (JInt uid)"
    if "issued div 1000000 \<le> now" "now < last_second"
    using generated_token_validates [OF assms(1-3) that [unfolded last_second_def]] by (auto simp: bearer_info_def t_def)
  ultimately show ?thesis using validated_token_typed by blast
qed

text \<open>A library for the instance: the payload's JSON text serves as its own signature.\<close>

definition demo_signable :: "dict \<Rightarrow> bool" where
  "demo_signable p \<longleftrightarrow> json_wf (JDict p)"

definition demo_sign :: "dict \<Rightarrow> string" where
  "demo_sign p = dumps ratio_text (JDict p)"

definition demo_verify :: "string \<Rightarrow> int \<Rightarrow> string \<Rightarrow> dict res" where
  "demo_verify issuer now t =
     (case loads parse_ratio t of
        Inr (JDict p) \<Rightarrow> if demo_signable p \<and> demo_sign p = t then checked_claims issuer now p else Inl (PyExc ''DecodeError'')
      | _ \<Rightarrow> Inl (PyExc ''DecodeError''))"

lemma demo_jwt: "jwt_laws demo_signable demo_sign demo_verify"
  unfolding jwt_laws_def
proof (intro conjI allI impI)
  show "demo_verify issuer now (demo_sign p) = checked_claims issuer now p" if "demo_signable p" for issuer now p
    using that loads_dumps [OF ratio_float_text, of "JDict p"] by (simp add: demo_verify_def demo_sign_def demo_signable_def)
  show "\<exists>x \<in> set token_errors. demo_verify issuer now t = Inl (PyExc x)" if "\<forall>p. demo_signable p \<longrightarrow> t \<noteq> demo_sign p" for issuer now t
    using that by (auto simp: demo_verify_def token_errors_def split: sum.splits json.splits)
qed

theorem token_identifies_user_witness:
  "\<exists>payload. bearer_info demo_verify ''app'' 100 (generate_token demo_sign ''app'' 100000000 100000000 42) = Inr (Some payload) \<and>
     map_of payload ''sub'' = Some (JInt 42)"
proof -
  have "demo_signable (create_token_payload ''app'' 100000000 100000000 42)"
    by (simp add: demo_signable_def create_token_payload_def)
  from token_identifies_user [OF demo_jwt this, of 100] show ?thesis by (simp add: JWT_LIFETIME_DAYS_def)
qed

section \<open>API keys\<close>

text \<open>
  Rotating an API key: afterwards the new key authenticates its user for ninety days, no other
  key authenticates that user any more, keys of other users are as good as before, and the table
  still has at most one key per user that is not revoked.
\<close>
theorem api_key_rotation:
  assumes "keys_inv db" "api_key_post hash users now raw_key uid db = (Inr key, db')"
  shows "keys_inv db' \<and> key = raw_key \<and>
     (t \<le> now + NINETY_DAYS \<longrightarrow> (\<exists>p. api_key_info hash t db' key = Some p \<and> dget p ''sub'' = JInt uid)) \<and>
     (\<forall>other p. api_key_info hash t db' other = Some p \<and> dget p ''sub'' = JInt uid \<longrightarrow> hash other = hash key) \<and>
     (\<forall>other p. hash other \<noteq> hash key \<and> dget p ''sub'' \<noteq> JInt uid \<longrightarrow>
        (api_key_info hash t db' other = Some p \<longleftrightarrow> api_key_info hash t db other = Some p))"
proof -
  define db1 where "db1 = (case active_key db uid of Some existing \<Rightarrow> revoke_key (ak_id existing) db | None \<Rightarrow> db)"
  define new where "new = \<lparr>ak_id = key_next db1, ak_hashed_key = hash raw_key, ak_user_id = uid, ak_created_at = now,
      ak_expires_at = now + NINETY_DAYS, ak_is_revoked = False\<rparr>"
  have db1: "keys_inv db1" "\<forall>k \<in> set (key_rows db1). ak_user_id k = uid \<longrightarrow> ak_is_revoked k"
      "map ak_hashed_key (key_rows db1) = map ak_hashed_key (key_rows db)"
    using revoked_db_inv [OF assms(1), of uid] by (simp_all add: db1_def)
  have db': "key = raw_key" "key_rows db' = key_rows db1 @ [new]" "\<forall>k \<in> set (key_rows db1). ak_hashed_key k \<noteq> hash raw_key"
    using assms(2) by (auto simp: api_key_post_def db1_def [symmetric] new_def Let_def list_ex_iff split: if_splits)
  have found: "find (\<lambda>k. ak_hashed_key k = hash other) (key_rows db') =
      (if hash other = hash raw_key then Some new else find (\<lambda>k. ak_hashed_key k = hash other) (key_rows db1))" for other
  proof -
    have "find P (xs @ [new]) = (case find P xs of Some k \<Rightarrow> Some k | None \<Rightarrow> if P new then Some new else None)" for P xs
      by (induction xs) auto
    moreover have "hash other = hash raw_key \<Longrightarrow> find (\<lambda>k. ak_hashed_key k = hash other) (key_rows db1) = None"
      using db'(3) by (auto simp: find_None_iff)
    ultimately show ?thesis by (auto simp: db'(2) new_def split: option.splits)
  qed
  have old: "api_key_info hash t db1 other = Some p \<longleftrightarrow> api_key_info hash t db other = Some p" if "dget p ''sub'' \<noteq> JInt uid" for other p
    using api_key_info_revoked [OF assms(1) that, of hash t other] by (simp add: db1_def)
  have "hash other = hash key" if info: "api_key_info hash t db' other = Some p" "dget p ''sub'' = JInt uid" for other p
  proof (rule ccontr)
    assume "hash other \<noteq> hash key"
    then have "find (\<lambda>k. ak_hashed_key k = hash other) (key_rows db') = find (\<lambda>k. ak_hashed_key k = hash other) (key_rows db1)"
      using found [of other] db'(1) by simp
    with info obtain k where "find (\<lambda>k. ak_hashed_key k = hash other) (key_rows db1) = Some k" "ak_user_id k = uid" "\<not> ak_is_revoked k"
      using api_key_info_Some [OF info(1)] by force
    then show False using db1(2) by (auto simp: find_Some_iff)
  qed
  moreover have "\<exists>p. api_key_info hash t db' key = Some p \<and> dget p ''sub'' = JInt uid" if "t \<le> now + NINETY_DAYS"
    using that found [of key] db'(1) by (simp add: api_key_info_def validate_api_key_def new_def)
  moreover have "keys_inv db'" using api_key_post_inv [OF assms(1), of hash users now raw_key uid] assms(2) by simp
  moreover have "api_key_info hash t db' other = Some p \<longleftrightarrow> api_key_info hash t db other = Some p"
    if "hash other \<noteq> hash key" "dget p ''sub'' \<noteq> JInt uid" for other p
    using old [OF that(2), of other] found [of other] that(1) db'(1) by (simp add: api_key_info_def)
  ultimately show ?thesis using db'(1) by blast
qed

definition demo_keys :: key_db where
  "demo_keys = \<lparr>key_rows = [\<lparr>ak_id = 1, ak_hashed_key = ''old'', ak_user_id = 42, ak_created_at = 0, ak_expires_at = 9,
     ak_is_revoked = False\<rparr>], key_next = 2\<rparr>"

theorem api_key_rotation_witness:
  "\<exists>p. api_key_info id 5 (snd (api_key_post id (\<lambda>_. True) 0 ''new'' 42 demo_keys)) ''new'' = Some p \<and> dget p ''sub'' = JInt 42"
proof -
  have inv: "keys_inv demo_keys" by (simp add: keys_inv_def demo_keys_def)
  have "fst (api_key_post id (\<lambda>_. True) 0 ''new'' 42 demo_keys) = Inr ''new''"
    by (simp add: api_key_post_def active_key_def revoke_key_def demo_keys_def)
  then have "api_key_post id (\<lambda>_. True) 0 ''new'' 42 demo_keys = (Inr ''new'', snd (api_key_post id (\<lambda>_. True) 0 ''new'' 42 demo_keys))"
    by (metis prod.collapse)
  from api_key_rotation [OF inv this, of 5] show ?thesis by (simp add: NINETY_DAYS_def)
qed

section \<open>The limiter\<close>

text \<open>
  Failed attempts lock an address out: from a clean record the lockout is untouched by the first
  nineteen failures in a row, and from the twentieth on every check is refused for an hour, without
  touching the server.
\<close>
theorem failures_lock_out:
  assumes "redis_string_laws R" "set_ex_law R" "failures_at R ip s 0"
  shows "rttl R (failures_in_a_row R ip m s) (lockout_key ip) =
       (if 20 \<le> m then Some 3600 else rttl R s (lockout_key ip)) \<and>
     (20 \<le> m \<longrightarrow> limiter_check R ip now (failures_in_a_row R ip m s) = (Inr (False, Some 3600), failures_in_a_row R ip m s))"
  using failures_count [OF assms, of m] by (auto simp: limiter_check_def limiter_constants)

theorem failures_lock_out_witness:
  "limiter_check mem_redis ''1.2.3.4'' 0 (failures_in_a_row mem_redis ''1.2.3.4'' 25 []) =
     (Inr (False, Some 3600), failures_in_a_row mem_redis ''1.2.3.4'' 25 [])"
proof -
  have "failures_at mem_redis ''1.2.3.4'' [] 0" by (simp add: failures_at_def counter_at_def mem_redis_def mem_get_def)
  from failures_lock_out [OF mem_redis_laws mem_set_ex this, of 25 0] show ?thesis by simp
qed

text \<open>
  The lockout is not reached by an attacker who starts a login, which needs no credentials, before
  every nineteenth attempt: each login that the limiter lets through sets the record back to zero, so
  that another nineteen failures leave the lockout untouched.
\<close>

theorem login_resets_lockout:
  assumes "redis_string_laws R" "set_ex_law R" "windows_ok R ip s" "login_search R ip now csrf s = (Inr x, s')" "m < 20"
  shows "rttl R (failures_in_a_row R ip m s') (lockout_key ip) = rttl R s (lockout_key ip)"
  using login_forgets_failures [OF assms(1-4)] failures_count [OF assms(1,2), of ip s' m] assms(5)
  by (simp add: limiter_constants)

end
