(* ===== verification/Fetchers.thy ===== *)
theory Fetchers
  imports Daemon_Scheduler Daemon_Service Redis_Client
begin

text \<open>
  The services that fetch profiles and scores from osu! (\<^verbatim>\<open>scheduled_fetcher.py\<close>, \<^verbatim>\<open>profile_fetcher.py\<close>,
  \<^verbatim>\<open>score_fetcher.py\<close> under \<^verbatim>\<open>src/app/daemon/services\<close>): what they load into the scheduler at start-up, how
  they pace their calls, and their jobs. Rows come from \<^verbatim>\<open>get_many\<close> of \<^verbatim>\<open>src/app/database/crud/r.py\<close>, in
  the order of the primary key.
\<close>

section \<open>Reading several rows\<close>

definition QUERY_MIN_LIMIT :: int where "QUERY_MIN_LIMIT = 1"
definition QUERY_MAX_LIMIT :: int where "QUERY_MAX_LIMIT = 100"
definition QUERY_DEFAULT_LIMIT :: int where "QUERY_DEFAULT_LIMIT = 50"

definition clamp :: "int \<Rightarrow> int \<Rightarrow> int \<Rightarrow> int" where
  "clamp v lo hi = max lo (min v hi)"

definition get_many :: "int \<Rightarrow> int \<Rightarrow> bool \<Rightarrow> 'a list \<Rightarrow> 'a list" where
  "get_many limit offset backwards rows =
     (let results = take (nat (clamp limit QUERY_MIN_LIMIT QUERY_MAX_LIMIT)) (drop (nat offset) rows) in
      if backwards then rev results else results)"

lemma get_many_length: "length (get_many limit offset backwards rows) \<le> 100"
proof -
  have "nat (clamp limit QUERY_MIN_LIMIT QUERY_MAX_LIMIT) \<le> 100"
    by (simp add: clamp_def QUERY_MIN_LIMIT_def QUERY_MAX_LIMIT_def)
  then show ?thesis by (simp add: get_many_def Let_def min_def)
qed

lemma get_many_default: "get_many QUERY_DEFAULT_LIMIT 0 False rows = take 50 rows"
  by (simp add: get_many_def clamp_def QUERY_MIN_LIMIT_def QUERY_MAX_LIMIT_def QUERY_DEFAULT_LIMIT_def)

section \<open>Loading jobs at start-up\<close>

record fetcher_task =
  ft_id :: int
  ft_user_id :: int
  ft_enabled :: bool
  ft_last_fetch :: "int option"

text \<open>\<^verbatim>\<open>ProfileFetcher._preload_jobs\<close>; \<open>missing\<close> are the users without a profile.\<close>

definition profile_instruction :: "sched \<Rightarrow> int list \<Rightarrow> fetcher_task \<Rightarrow> job_load_instruction" where
  "profile_instruction st missing record =
     \<lparr>execution_time = (if ft_user_id record \<in> set missing then Some (clock st) else None),
      last_execution = ft_last_fetch record, interval_hours = None, skip = False\<rparr>"

definition score_instruction :: "fetcher_task \<Rightarrow> job_load_instruction" where
  "score_instruction record = \<lparr>execution_time = None, last_execution = ft_last_fetch record, interval_hours = None, skip = False\<rparr>"

fun load_all :: "sched_cfg \<Rightarrow> (sched \<Rightarrow> fetcher_task \<Rightarrow> job_load_instruction) \<Rightarrow> fetcher_task list \<Rightarrow> sched \<Rightarrow> sched" where
  "load_all cfg instr [] st = st"
| "load_all cfg instr (record # rest) st =
     load_all cfg instr rest (if ft_enabled record then load_job cfg (ft_id record) (Some (instr st record)) st else st)"

definition profile_preload_jobs :: "sched_cfg \<Rightarrow> fetcher_task list \<Rightarrow> int list \<Rightarrow> sched \<Rightarrow> sched" where
  "profile_preload_jobs cfg tasks users_without_profile st =
     load_all cfg (\<lambda>st. profile_instruction st (get_many QUERY_DEFAULT_LIMIT 0 False users_without_profile))
       (get_many QUERY_DEFAULT_LIMIT 0 False (filter ft_enabled tasks)) st"

definition score_preload_jobs :: "sched_cfg \<Rightarrow> fetcher_task list \<Rightarrow> sched \<Rightarrow> sched" where
  "score_preload_jobs cfg tasks st =
     load_all cfg (\<lambda>_. score_instruction) (get_many QUERY_DEFAULT_LIMIT 0 False (filter ft_enabled tasks)) st"

lemma load_job_ids:
  assumes "\<not> skip i"
  shows "snd ` set (job_heap (load_job cfg j (Some i) st)) = insert j (snd ` set (job_heap st))"
  using assms by (auto simp: load_job_def execution_time_of_def heappush_def set_insort_key split: option.splits)

lemma load_all_ids:
  assumes "\<And>st r. \<not> skip (instr st r)"
  shows "snd ` set (job_heap (load_all cfg instr records st)) = ft_id ` set (filter ft_enabled records) \<union> snd ` set (job_heap st)"
  by (induction records arbitrary: st) (auto simp: load_job_ids assms)

lemma preload_ids:
  "snd ` set (job_heap (profile_preload_jobs cfg tasks missing st)) = ft_id ` set (take 50 (filter ft_enabled tasks)) \<union> snd ` set (job_heap st)"
  "snd ` set (job_heap (score_preload_jobs cfg tasks st)) = ft_id ` set (take 50 (filter ft_enabled tasks)) \<union> snd ` set (job_heap st)"
proof -
  have enabled: "filter ft_enabled (take n (filter ft_enabled tasks)) = take n (filter ft_enabled tasks)" for n
    by (rule filter_True) (auto dest: in_set_takeD)
  show "snd ` set (job_heap (profile_preload_jobs cfg tasks missing st)) = ft_id ` set (take 50 (filter ft_enabled tasks)) \<union> snd ` set (job_heap st)"
    unfolding profile_preload_jobs_def get_many_default
    by (subst load_all_ids) (simp_all add: enabled profile_instruction_def)
  show "snd ` set (job_heap (score_preload_jobs cfg tasks st)) = ft_id ` set (take 50 (filter ft_enabled tasks)) \<union> snd ` set (job_heap st)"
    unfolding score_preload_jobs_def get_many_default
    by (subst load_all_ids) (simp_all add: enabled score_instruction_def)
qed

section \<open>Waiting for a record\<close>

text \<open>
  \<^verbatim>\<open>_get_pending_record\<close>: the table is polled, after \<open>t\<close> seconds with the answer \<open>lookup t\<close>, until the
  record is there or the time is up.
\<close>

partial_function (option) get_pending_record ::
  "(rat \<Rightarrow> fetcher_task option) \<Rightarrow> rat \<Rightarrow> rat \<Rightarrow> rat \<Rightarrow> fetcher_task res option" where
  "get_pending_record lookup timeout interval_seconds t =
     (if \<not> t < timeout then Some (Inl (PyExc ''TimeoutError''))
      else (case lookup t of
              Some record \<Rightarrow> Some (Inr record)
            | None \<Rightarrow> get_pending_record lookup timeout interval_seconds (t + interval_seconds)))"

lemma get_pending_record_returns:
  assumes "0 < interval_seconds"
  shows "\<exists>n r. get_pending_record lookup timeout interval_seconds t = Some r \<and>
     (\<forall>k < n. lookup (t + of_nat k * interval_seconds) = None) \<and>
     (case r of Inr record \<Rightarrow> lookup (t + of_nat n * interval_seconds) = Some record \<and> t + of_nat n * interval_seconds < timeout
      | Inl e \<Rightarrow> e = PyExc ''TimeoutError'' \<and> timeout \<le> t + of_nat n * interval_seconds)"
proof (induction "nat \<lceil>(timeout - t) / interval_seconds\<rceil>" arbitrary: t rule: less_induct)
  case less
  consider (found) row where "t < timeout" "lookup t = Some row" | (again) "t < timeout" "lookup t = None"
    | (over) "\<not> t < timeout" by (cases "lookup t") auto
  then show ?case
  proof cases
    case (found row)
    then have "get_pending_record lookup timeout interval_seconds t = Some (Inr row)"
      by (subst get_pending_record.simps) simp
    with found show ?thesis
      by (intro exI [of _ 0] exI [of _ "Inr row"]) simp
  next
    case again
    then have True: "t < timeout \<and> lookup t = None" by simp
    have "(timeout - (t + interval_seconds)) / interval_seconds = (timeout - t) / interval_seconds - 1"
      using assms by (simp add: field_simps)
    moreover have "0 < (timeout - t) / interval_seconds" using True assms by simp
    ultimately have "nat \<lceil>(timeout - (t + interval_seconds)) / interval_seconds\<rceil> < nat \<lceil>(timeout - t) / interval_seconds\<rceil>"
      by (simp add: ceiling_diff_one)
    from less.hyps [OF this] obtain n r where n: "get_pending_record lookup timeout interval_seconds (t + interval_seconds) = Some r"
        "\<forall>k < n. lookup (t + interval_seconds + of_nat k * interval_seconds) = None"
        "case r of Inr record \<Rightarrow> lookup (t + interval_seconds + of_nat n * interval_seconds) = Some record \<and>
            t + interval_seconds + of_nat n * interval_seconds < timeout
          | Inl e \<Rightarrow> e = PyExc ''TimeoutError'' \<and> timeout \<le> t + interval_seconds + of_nat n * interval_seconds" by blast
    have shift: "t + interval_seconds + of_nat k * interval_seconds = t + of_nat (Suc k) * interval_seconds" for k
      by (simp add: algebra_simps)
    have "lookup (t + of_nat k * interval_seconds) = None" if "k < Suc n" for k
      using that n(2) True by (cases k) (auto simp: shift simp del: of_nat_Suc)
    with n True show ?thesis
      by (intro exI [of _ "Suc n"] exI [of _ r]) (subst get_pending_record.simps, auto simp: shift simp del: of_nat_Suc split: sum.splits)
  next
    case over
    then have "get_pending_record lookup timeout interval_seconds t = Some (Inl (PyExc ''TimeoutError''))"
      by (subst get_pending_record.simps) simp
    with over show ?thesis
      by (intro exI [of _ 0] exI [of _ "Inl (PyExc ''TimeoutError'')"]) simp
  qed
qed

definition FALLBACK_DELAY_HOURS :: rat where "FALLBACK_DELAY_HOURS = 24"
definition PENDING_RECORD_TIMEOUT_SECONDS :: rat where "PENDING_RECORD_TIMEOUT_SECONDS = 60"

text \<open>\<^verbatim>\<open>_resolve_job_instruction\<close>; \<open>now\<close> is the clock after the wait.\<close>

definition resolve_job_instruction :: "(rat \<Rightarrow> fetcher_task option) \<Rightarrow> int \<Rightarrow> job_load_instruction res option" where
  "resolve_job_instruction lookup now =
     (case get_pending_record lookup PENDING_RECORD_TIMEOUT_SECONDS (1 / 2) 0 of
        None \<Rightarrow> None
      | Some (Inr record) \<Rightarrow> Some (Inr (score_instruction record))
      | Some (Inl e) \<Rightarrow>
          Some (if e = PyExc ''TimeoutError''
                then Inr \<lparr>execution_time = Some (now + timedelta_hours FALLBACK_DELAY_HOURS), last_execution = None,
                          interval_hours = None, skip = False\<rparr>
                else Inl e))"

section \<open>Pacing\<close>

text \<open>
  \<^verbatim>\<open>_respect_rate_limit\<close>, in seconds: under its lock the caller sleeps until the spacing since the last
  request has passed. \<open>extra\<close> is what the sleep takes longer than asked, \<open>later\<close> when the lock is free.
\<close>

definition respect_rate_limit :: "rat \<Rightarrow> rat \<Rightarrow> rat \<Rightarrow> rat option \<Rightarrow> rat" where
  "respect_rate_limit spacing extra now last_request =
     (case last_request of
        None \<Rightarrow> now
      | Some t \<Rightarrow> let remaining = spacing - (now - t) in if remaining > 0 then now + remaining + extra else now)"

fun request_times :: "rat \<Rightarrow> (rat \<times> rat) list \<Rightarrow> rat option \<Rightarrow> rat list" where
  "request_times spacing [] last_request = []"
| "request_times spacing ((now, extra) # calls) last_request =
     (let t = respect_rate_limit spacing extra now last_request in t # request_times spacing calls (Some t))"

lemma request_times_spaced:
  assumes "\<forall>(now, extra) \<in> set calls. 0 \<le> extra" "request_times spacing calls last_request = ts"
  shows "successively (\<lambda>a b. a + spacing \<le> b) (case last_request of None \<Rightarrow> ts | Some t \<Rightarrow> t # ts)"
  using assms
proof (induction calls arbitrary: last_request ts)
  case Nil
  then show ?case by (cases last_request) simp_all
next
  case (Cons call calls)
  obtain now extra where call: "call = (now, extra)" by fastforce
  let ?t = "respect_rate_limit spacing extra now last_request"
  have ts: "ts = ?t # request_times spacing calls (Some ?t)" using Cons.prems call by (auto simp: Let_def)
  have "successively (\<lambda>a b. a + spacing \<le> b) (?t # request_times spacing calls (Some ?t))"
    using Cons.IH [of "Some ?t"] Cons.prems by simp
  moreover have "t + spacing \<le> ?t" if "last_request = Some t" for t
    using that Cons.prems(1) call by (auto simp: respect_rate_limit_def Let_def)
  ultimately show ?case using ts by (cases last_request) (auto simp: successively_Cons)
qed

section \<open>Profiles\<close>

text \<open>
  What of a fetched profile differs from the stored one. The user page is compared by its raw text,
  because osu! renders the same text differently.
\<close>

definition page_raw :: "json \<Rightarrow> json res" where
  "page_raw j = (case j of JDict d \<Rightarrow> Inr (dget d ''raw'') | _ \<Rightarrow> Inl (PyExc ''AttributeError''))"

definition field_differs :: "dict \<Rightarrow> string \<times> json \<Rightarrow> bool res" where
  "field_differs old kv =
     (case kv of (key, val) \<Rightarrow>
        (case map_of old key of
           None \<Rightarrow> Inl (PyExc ''KeyError'')
         | Some old_value \<Rightarrow>
             if key = ''page'' \<and> old_value \<noteq> JNull
             then bindR (page_raw val) (\<lambda>a. bindR (page_raw old_value) (\<lambda>b. Inr (a \<noteq> b)))
             else Inr (val \<noteq> old_value)))"

fun profile_delta :: "dict \<Rightarrow> dict \<Rightarrow> dict res" where
  "profile_delta old [] = Inr []"
| "profile_delta old (kv # rest) =
     bindR (field_differs old kv) (\<lambda>differs.
     bindR (profile_delta old rest) (\<lambda>delta. Inr (if differs then kv # delta else delta)))"

text \<open>The stored profiles by user, and the records of the fetcher.\<close>

record profile_state =
  ps_profiles :: "(int \<times> dict) list"
  ps_tasks :: "fetcher_task list"

definition set_profile :: "int \<Rightarrow> dict \<Rightarrow> profile_state \<Rightarrow> profile_state" where
  "set_profile uid p s = s\<lparr>ps_profiles := (uid, p) # filter (\<lambda>(u, _). u \<noteq> uid) (ps_profiles s)\<rparr>"

definition update_fields :: "dict \<Rightarrow> dict \<Rightarrow> dict" where
  "update_fields delta old = map (\<lambda>(k, v). (k, case map_of delta k of Some w \<Rightarrow> w | None \<Rightarrow> v)) old"

definition disable_task :: "int \<Rightarrow> profile_state \<Rightarrow> profile_state" where
  "disable_task rid s = s\<lparr>ps_tasks := map (\<lambda>t. if ft_id t = rid then t\<lparr>ft_enabled := False\<rparr> else t) (ps_tasks s)\<rparr>"

text \<open>The part of a profile job under its lock; \<open>fetched\<close> is the parsed answer of osu!.\<close>

definition store_profile :: "int \<Rightarrow> dict \<Rightarrow> (profile_state, unit) act" where
  "store_profile uid profile_dict s =
     (case map_of (ps_profiles s) uid of
        None \<Rightarrow> (Inr (), set_profile uid profile_dict s)
      | Some old \<Rightarrow>
          (case profile_delta old (profile_dict @ [(''is_restricted'', JBool False)]) of
             Inl e \<Rightarrow> (Inl e, s)
           | Inr delta \<Rightarrow> (Inr (), if delta = [] then s else set_profile uid (update_fields delta old) s)))"

text \<open>
  \<^verbatim>\<open>ProfileFetcher._execute_job\<close>. \<open>locked\<close> says that another job holds the key of the user, \<open>entered\<close> that
  the lock was acquired in time.
\<close>

definition profile_execute_job ::
  "bool \<Rightarrow> bool \<Rightarrow> (int \<Rightarrow> dict res) \<Rightarrow> int \<Rightarrow> (profile_state, unit) act" where
  "profile_execute_job locked entered fetched record_id s =
     (case find (\<lambda>t. ft_id t = record_id) (ps_tasks s) of
        None \<Rightarrow> (Inl (PyExc ''ValueError''), s)
      | Some record \<Rightarrow>
          if locked \<or> \<not> entered then (Inr (), s)
          else (case bindS (liftS (fetched (ft_user_id record))) (store_profile (ft_user_id record)) s of
                  (Inr _, s') \<Rightarrow> (Inr (), s')
                | (Inl e, s') \<Rightarrow>
                    if e = PyExc ''HTTPStatusError'' then (Inr (), disable_task record_id s')
                    else if e = PyExc ''ReadTimeout'' then (Inr (), s')
                    else (Inl e, s')))"

definition on_job_success :: "int \<Rightarrow> int \<Rightarrow> profile_state \<Rightarrow> profile_state" where
  "on_job_success now rid s = s\<lparr>ps_tasks := map (\<lambda>t. if ft_id t = rid then t\<lparr>ft_last_fetch := Some now\<rparr> else t) (ps_tasks s)\<rparr>"

lemma profile_delta_lookup:
  assumes "profile_delta old new = Inr delta" "distinct (map fst new)"
  shows "map_of delta k = (case map_of new k of
      Some v \<Rightarrow> if field_differs old (k, v) = Inr True then Some v else None | None \<Rightarrow> None)"
  using assms
proof (induction new arbitrary: delta)
  case (Cons kv new)
  obtain k' v' where kv: "kv = (k', v')" by fastforce
  obtain differs delta' where d: "field_differs old kv = Inr differs" "profile_delta old new = Inr delta'"
      "delta = (if differs then kv # delta' else delta')"
    using Cons.prems(1) by (auto simp: bindR_eq_Inr)
  have none: "map_of new k' = None" using Cons.prems(2) kv by (simp add: map_of_eq_None_iff)
  with Cons.IH [OF d(2)] Cons.prems(2) d kv show ?case by (auto split: option.splits)
qed simp

text \<open>After a successful store the profile agrees with the answer, up to the rendering of the page.\<close>

lemma store_profile_agrees:
  assumes "store_profile uid new s = (Inr (), s')" "distinct (map fst (new @ [(''is_restricted'', JBool False)]))"
    and "map_of (ps_profiles s) uid = Some old" "map_of (new @ [(''is_restricted'', JBool False)]) k = Some v" "map_of old k \<noteq> None"
  shows "\<exists>p w. map_of (ps_profiles s') uid = Some p \<and> map_of p k = Some w \<and>
     (w = v \<or> k = ''page'' \<and> (\<exists>raw. page_raw w = Inr raw \<and> page_raw v = Inr raw))"
proof -
  let ?new = "new @ [(''is_restricted'', JBool False)]"
  obtain delta where delta: "profile_delta old ?new = Inr delta"
      "s' = (if delta = [] then s else set_profile uid (update_fields delta old) s)"
    using assms(1,3) by (auto simp: store_profile_def split: sum.splits)
  obtain ov where ov: "map_of old k = Some ov" using assms(5) by auto
  have known: "\<exists>b. field_differs old (k, v) = Inr b"
  proof -
    have "(k, v) \<in> set xs \<Longrightarrow> profile_delta old xs = Inr d \<Longrightarrow> \<exists>b. field_differs old (k, v) = Inr b" for xs d
      by (induction xs arbitrary: d) (auto simp: bindR_eq_Inr)
    from this [OF map_of_SomeD [OF assms(4)] delta(1)] show ?thesis .
  qed
  then obtain b where b: "field_differs old (k, v) = Inr b" by blast
  define w where "w = (if b then v else ov)"
  have "map_of delta k = (if b then Some v else None)"
    using profile_delta_lookup [OF delta(1) assms(2), of k] assms(4) b by simp
  moreover have "map_of (update_fields delta old) k = Some (case map_of delta k of Some w \<Rightarrow> w | None \<Rightarrow> ov)"
    using ov by (induction old) (auto simp: update_fields_def)
  ultimately have upd: "map_of (update_fields delta old) k = Some w" by (simp add: w_def)
  moreover have "delta = [] \<Longrightarrow> w = ov" using \<open>map_of delta k = _\<close> by (auto simp: w_def split: if_splits)
  ultimately have "\<exists>p. map_of (ps_profiles s') uid = Some p \<and> map_of p k = Some w"
    using delta(2) assms(3) ov by (auto simp: set_profile_def)
  moreover have "w = v \<or> k = ''page'' \<and> (\<exists>raw. page_raw w = Inr raw \<and> page_raw v = Inr raw)"
    using b ov by (auto simp: w_def field_differs_def bindR_eq_Inr split: if_splits)
  ultimately show ?thesis by blast
qed

section \<open>Scores\<close>

text \<open>
  \<^verbatim>\<open>ScoreFetcher._execute_job\<close>. The projection \<^verbatim>\<open>_select="beatmap_id"\<close> yields plain numbers, on which the
  set comprehension then asks for an attribute. A score is its beatmap and its data.
\<close>

fun eligible_beatmap_ids :: "int list \<Rightarrow> int list res" where
  "eligible_beatmap_ids [] = Inr []"
| "eligible_beatmap_ids (lb # rest) = Inl (PyExc ''AttributeError'')"

record score_state =
  sc_leaderboards :: "(int \<times> int \<times> int) list"
  sc_snapshots :: "(int \<times> int) list"
  sc_scores :: "(int \<times> int \<times> dict) list"

text \<open>The leaderboard of the latest snapshot: snapshots are pairs of identifier and beatmap, leaderboards
  of identifier, beatmap and snapshot.\<close>

definition resolve_leaderboard :: "score_state \<Rightarrow> int \<Rightarrow> int option" where
  "resolve_leaderboard s beatmap_id =
     (case rev (sort (map fst (filter (\<lambda>(i, b). b = beatmap_id) (sc_snapshots s)))) of
        [] \<Rightarrow> None
      | snapshot # _ \<Rightarrow> map_option fst (find (\<lambda>(_, b, sn). b = beatmap_id \<and> sn = snapshot) (sc_leaderboards s)))"

fun post_scores :: "int \<Rightarrow> int list \<Rightarrow> (int \<times> dict) res list \<Rightarrow> score_state \<Rightarrow> score_state" where
  "post_scores uid eligible [] s = s"
| "post_scores uid eligible (score # rest) s =
     post_scores uid eligible rest
       (case score of
          Inl _ \<Rightarrow> s
        | Inr (beatmap_id, data) \<Rightarrow>
            if beatmap_id \<notin> set eligible then s
            else (case resolve_leaderboard s beatmap_id of
                    None \<Rightarrow> s
                  | Some lb \<Rightarrow> s\<lparr>sc_scores := sc_scores s @ [(uid, lb, data)]\<rparr>))"

definition score_execute_job ::
  "fetcher_task list \<Rightarrow> (int \<Rightarrow> (int \<times> dict) res list res) \<Rightarrow> int \<Rightarrow> (score_state, unit) act" where
  "score_execute_job tasks recent record_id s =
     (case find (\<lambda>t. ft_id t = record_id) tasks of
        None \<Rightarrow> (Inl (PyExc ''ValueError''), s)
      | Some record \<Rightarrow>
          bindS (liftS (recent (ft_user_id record))) (\<lambda>scores.
          bindS (liftS (eligible_beatmap_ids (get_many QUERY_DEFAULT_LIMIT 0 False (map (\<lambda>(_, b, _). b) (sc_leaderboards s))))) (\<lambda>eligible s.
            (Inr (), post_scores (ft_user_id record) eligible scores s))) s)"

lemma post_scores_none: "post_scores uid [] scores s = s"
  by (induction scores arbitrary: s) (auto split: sum.splits prod.splits)

end
