(* ===== verification/Fetcher_Properties.thy ===== *)
theory Fetcher_Properties
  imports Fetchers
begin

text \<open>What the fetcher services achieve, and what they do not.\<close>

lemma store_profile_frame:
  assumes "store_profile uid new s = (r, s')"
  shows "ps_tasks s' = ps_tasks s" "u \<noteq> uid \<Longrightarrow> map_of (ps_profiles s') u = map_of (ps_profiles s) u"
    and "map_of (ps_profiles s) uid = None \<Longrightarrow> r = Inr () \<and> map_of (ps_profiles s') uid = Some new"
proof -
  have others: "map_of (filter (\<lambda>(w, _). w \<noteq> uid) ps) u = map_of ps u" if "u \<noteq> uid" for ps :: "(int \<times> dict) list" and u
    using that by (induction ps) auto
  show "ps_tasks s' = ps_tasks s" "u \<noteq> uid \<Longrightarrow> map_of (ps_profiles s') u = map_of (ps_profiles s) u"
    and "map_of (ps_profiles s) uid = None \<Longrightarrow> r = Inr () \<and> map_of (ps_profiles s') uid = Some new"
    using assms by (auto simp: store_profile_def set_profile_def others split: option.splits sum.splits if_splits)
qed

lemma profile_job_stores:
  assumes "find (\<lambda>t. ft_id t = rid) (ps_tasks s) = Some row" "fetched (ft_user_id row) = Inr new"
    and "profile_execute_job False True fetched rid s = (Inr (), s')"
  shows "store_profile (ft_user_id row) new s = (Inr (), s') \<or>
     (\<exists>e s1. store_profile (ft_user_id row) new s = (Inl e, s1) \<and> e \<in> {PyExc ''HTTPStatusError'', PyExc ''ReadTimeout''})"
  using assms by (cases "store_profile (ft_user_id row) new s")
    (auto simp: profile_execute_job_def bindS_def liftS_def split: sum.splits if_splits)

lemma profile_delta_errors:
  "profile_delta old new = Inl e \<Longrightarrow> e \<in> {PyExc ''KeyError'', PyExc ''AttributeError''}"
proof (induction new)
  case (Cons kv new)
  have raw: "page_raw j = Inl e' \<Longrightarrow> e' = PyExc ''AttributeError''" for j e'
    by (cases j) (auto simp: page_raw_def)
  have "field_differs old kv = Inl e' \<Longrightarrow> e' \<in> {PyExc ''KeyError'', PyExc ''AttributeError''}" for e'
    by (cases kv) (auto simp: field_differs_def bindR_def split: option.splits if_splits sum.splits dest: raw)
  with Cons show ?case by (auto simp: bindR_def split: sum.splits)
qed simp

lemma store_profile_errors:
  "store_profile uid new s = (Inl e, s') \<Longrightarrow> e \<in> {PyExc ''KeyError'', PyExc ''AttributeError''}"
  by (auto simp: store_profile_def split: option.splits sum.splits dest: profile_delta_errors)

lemma profile_job_stored:
  assumes "find (\<lambda>t. ft_id t = rid) (ps_tasks s) = Some row" "fetched (ft_user_id row) = Inr new"
    and "profile_execute_job False True fetched rid s = (Inr (), s')"
  shows "store_profile (ft_user_id row) new s = (Inr (), s')"
  using profile_job_stores [OF assms] by (auto dest: store_profile_errors)

text \<open>
  A profile job that had its lock and an answer from osu! and returns leaves a stored profile that agrees
  with the answer in every field, the user page up to its rendering; a first profile is stored as it came.
  The profiles of the other users and the fetcher records are not touched.
\<close>
theorem profile_job_synchronises:
  assumes "find (\<lambda>t. ft_id t = rid) (ps_tasks s) = Some row" "fetched (ft_user_id row) = Inr new"
    and "profile_execute_job False True fetched rid s = (Inr (), s')"
    and "distinct (map fst (new @ [(''is_restricted'', JBool False)]))"
  shows "(map_of (ps_profiles s) (ft_user_id row) = None \<longrightarrow> map_of (ps_profiles s') (ft_user_id row) = Some new) \<and>
     (\<forall>old k v. map_of (ps_profiles s) (ft_user_id row) = Some old \<and> map_of new k = Some v \<and> map_of old k \<noteq> None \<longrightarrow>
        (\<exists>p w. map_of (ps_profiles s') (ft_user_id row) = Some p \<and> map_of p k = Some w \<and>
          (w = v \<or> k = ''page'' \<and> (\<exists>raw. page_raw w = Inr raw \<and> page_raw v = Inr raw)))) \<and>
     ps_tasks s' = ps_tasks s \<and>
     (\<forall>u. u \<noteq> ft_user_id row \<longrightarrow> map_of (ps_profiles s') u = map_of (ps_profiles s) u)"
proof -
  note stored = profile_job_stored [where fetched = fetched, OF assms(1-3)]
  note frame = store_profile_frame [OF stored]
  have "\<exists>p w. map_of (ps_profiles s') (ft_user_id row) = Some p \<and> map_of p k = Some w \<and>
        (w = v \<or> k = ''page'' \<and> (\<exists>raw. page_raw w = Inr raw \<and> page_raw v = Inr raw))"
    if "map_of (ps_profiles s) (ft_user_id row) = Some old" "map_of new k = Some v" "map_of old k \<noteq> None" for old k v
    using store_profile_agrees [OF stored assms(4), of old k v] that by simp
  with frame show ?thesis by blast
qed

theorem profile_job_synchronises_witness:
  "let row = \<lparr>ft_id = 1, ft_user_id = 7, ft_enabled = True, ft_last_fetch = None\<rparr>;
       s = \<lparr>ps_profiles = [(7, [(''username'', JStr ''old''), (''is_restricted'', JBool False)]), (8, [])], ps_tasks = [row]\<rparr>;
       s' = snd (profile_execute_job False True (\<lambda>_. Inr [(''username'', JStr ''new'')]) 1 s)
   in ps_tasks s' = [row] \<and> map_of (ps_profiles s') 8 = Some [] \<and>
      (\<exists>p w. map_of (ps_profiles s') 7 = Some p \<and> map_of p ''username'' = Some w \<and> w = JStr ''new'')"
proof -
  let ?row = "\<lparr>ft_id = 1, ft_user_id = 7, ft_enabled = True, ft_last_fetch = None\<rparr>"
  let ?s = "\<lparr>ps_profiles = [(7, [(''username'', JStr ''old''), (''is_restricted'', JBool False)]), (8, [])], ps_tasks = [?row]\<rparr>"
  let ?f = "\<lambda>_::int. Inr [(''username'', JStr ''new'')] :: dict res"
  have run: "profile_execute_job False True ?f 1 ?s = (Inr (), snd (profile_execute_job False True ?f 1 ?s))"
    by (simp add: profile_execute_job_def bindS_def liftS_def store_profile_def field_differs_def bindR_def)
  have row: "find (\<lambda>t. ft_id t = 1) (ps_tasks ?s) = Some ?row" by simp
  note job = profile_job_synchronises [where fetched = ?f, OF row _ run, of "[(''username'', JStr ''new'')]", simplified]
  from job have "\<forall>old k v. map_of (ps_profiles ?s) 7 = Some old \<and> map_of [(''username'', JStr ''new'')] k = Some v \<and> map_of old k \<noteq> None \<longrightarrow>
        (\<exists>p w. map_of (ps_profiles (snd (profile_execute_job False True ?f 1 ?s))) 7 = Some p \<and> map_of p k = Some w \<and>
          (w = v \<or> k = ''page'' \<and> (\<exists>raw. page_raw w = Inr raw \<and> page_raw v = Inr raw)))" by simp
  from this [rule_format, of "[(''username'', JStr ''old''), (''is_restricted'', JBool False)]" "''username''" "JStr ''new''"]
  show ?thesis using job by (simp add: Let_def)
qed

text \<open>
  No run of the score fetcher stores a score. As soon as one leaderboard exists, every job of an
  existing record that got an answer from osu! raises, because the set of eligible beatmaps is built by
  reading an attribute of plain numbers.
\<close>
theorem scores_never_stored:
  "sc_scores (snd (score_execute_job tasks recent rid s)) = sc_scores s \<and>
     (find (\<lambda>t. ft_id t = rid) tasks = Some row \<and> recent (ft_user_id row) = Inr scores \<and> sc_leaderboards s \<noteq> [] \<longrightarrow>
        fst (score_execute_job tasks recent rid s) = Inl (PyExc ''AttributeError''))"
proof -
  have raises: "xs \<noteq> [] \<Longrightarrow> eligible_beatmap_ids (get_many QUERY_DEFAULT_LIMIT 0 False xs) = Inl (PyExc ''AttributeError'')" for xs
    by (cases xs) (simp_all add: get_many_default)
  have "sc_scores (snd (score_execute_job tasks recent rid s)) = sc_scores s"
  proof (cases "sc_leaderboards s")
    case Nil
    then show ?thesis
      by (simp add: score_execute_job_def bindS_def liftS_def get_many_default post_scores_none split: option.split sum.split)
  next
    case (Cons lb lbs)
    then show ?thesis
      by (simp add: score_execute_job_def bindS_def liftS_def raises split: option.split sum.split)
  qed
  then show ?thesis
    by (simp add: score_execute_job_def bindS_def liftS_def raises)
qed

theorem scores_never_stored_witness:
  "fst (score_execute_job [\<lparr>ft_id = 1, ft_user_id = 7, ft_enabled = True, ft_last_fetch = None\<rparr>]
      (\<lambda>_. Inr [Inr (75, [])]) 1 \<lparr>sc_leaderboards = [(5, 75, 3)], sc_snapshots = [(3, 75)], sc_scores = []\<rparr>) = Inl (PyExc ''AttributeError'')"
  using scores_never_stored [of "[\<lparr>ft_id = 1, ft_user_id = 7, ft_enabled = True, ft_last_fetch = None\<rparr>]"
      "\<lambda>_. Inr [Inr (75, [])]" 1 "\<lparr>sc_leaderboards = [(5, 75, 3)], sc_snapshots = [(3, 75)], sc_scores = []\<rparr>"
      "\<lparr>ft_id = 1, ft_user_id = 7, ft_enabled = True, ft_last_fetch = None\<rparr>" "[Inr (75, [])]"] by simp

text \<open>
  At start-up the fetchers schedule the first fifty enabled records and no other: the query has no limit
  of its own and gets the default of \<open>get_many\<close>.
\<close>
theorem startup_schedules_fifty:
  assumes "distinct (map ft_id (filter ft_enabled tasks))" "job_heap st = []"
  shows "card (snd ` set (job_heap (score_preload_jobs cfg tasks st))) = min 50 (length (filter ft_enabled tasks))"
    and "card (snd ` set (job_heap (profile_preload_jobs cfg tasks missing st))) = min 50 (length (filter ft_enabled tasks))"
proof -
  let ?ids = "take 50 (map ft_id (filter ft_enabled tasks))"
  have "distinct ?ids" using assms(1) by (rule distinct_take)
  then have "card (set ?ids) = min 50 (length (filter ft_enabled tasks))"
    by (simp only: distinct_card) (simp add: min.commute)
  with assms(2) show "card (snd ` set (job_heap (score_preload_jobs cfg tasks st))) = min 50 (length (filter ft_enabled tasks))"
    and "card (snd ` set (job_heap (profile_preload_jobs cfg tasks missing st))) = min 50 (length (filter ft_enabled tasks))"
    by (simp_all add: preload_ids take_map)
qed

text \<open>
  Whatever the arrival times of the callers and however long their sleeps overrun, two requests to osu!
  are never closer than the spacing.
\<close>
theorem requests_paced:
  assumes "\<forall>(now, extra) \<in> set calls. 0 \<le> extra"
  shows "successively (\<lambda>a b. a + spacing \<le> b) (request_times spacing calls None)"
  using request_times_spaced [OF assms HOL.refl, where last_request = None] by simp

end
