(* ===== verification/Bytes_Codec.thy ===== *)
theory Bytes_Codec
  imports Prelude "HOL-Library.Word"
begin

text \<open>
  Byte strings and the part of Python's \<^verbatim>\<open>struct\<close> and \<^verbatim>\<open>str.encode\<close> that the binary format of search
  queries uses. A byte is an 8-bit word; a Python string is the list of its code points. A reader takes
  the whole byte string and an offset and returns a value and the next offset, as the \<^verbatim>\<open>deserialize\<close>
  methods do.
\<close>

unbundle bit_operations_syntax

type_synonym bytes = "8 word list"
type_synonym 'a reader = "bytes \<Rightarrow> nat \<Rightarrow> ('a \<times> nat) res"
type_synonym pystr = "nat list"

section \<open>Fixed-width integers\<close>

definition pack_B :: "int \<Rightarrow> bytes res" where
  "pack_B n = (if 0 \<le> n \<and> n \<le> 255 then Inr [word_of_int n] else Inl (PyExc ''struct.error''))"

definition pack_b :: "int \<Rightarrow> bytes res" where
  "pack_b n = (if -128 \<le> n \<and> n \<le> 127 then Inr [word_of_int n] else Inl (PyExc ''struct.error''))"

definition pack_H :: "int \<Rightarrow> bytes res" where
  "pack_H n = (if 0 \<le> n \<and> n \<le> 65535 then Inr [word_of_int (n div 256), word_of_int (n mod 256)] else Inl (PyExc ''struct.error''))"

definition pack_bool :: "bool \<Rightarrow> bytes" where
  "pack_bool b = [of_bool b]"

definition unpack_B :: "int reader" where
  "unpack_B data i = (if i < length data then Inr (uint (data ! i), i + 1) else Inl (PyExc ''struct.error''))"

definition unpack_b :: "int reader" where
  "unpack_b data i = (if i < length data then Inr (sint (data ! i), i + 1) else Inl (PyExc ''struct.error''))"

definition unpack_H :: "int reader" where
  "unpack_H data i = (if i + 1 < length data then Inr (256 * uint (data ! i) + uint (data ! (i + 1)), i + 2) else Inl (PyExc ''struct.error''))"

definition unpack_bool :: "bool reader" where
  "unpack_bool data i = (if i < length data then Inr (data ! i \<noteq> 0, i + 1) else Inl (PyExc ''struct.error''))"

section \<open>Readers\<close>

text \<open>The reader finds the value wherever the bytes stand, and stops right behind them.\<close>

definition reads :: "'a reader \<Rightarrow> bytes \<Rightarrow> 'a \<Rightarrow> bool" where
  "reads f bs x \<longleftrightarrow> (\<forall>pre post. f (pre @ bs @ post) (length pre) = Inr (x, length pre + length bs))"

definition bind_reader :: "'a reader \<Rightarrow> ('a \<Rightarrow> 'b reader) \<Rightarrow> 'b reader" where
  "bind_reader f g data i = bindR (f data i) (\<lambda>(x, j). g x data j)"

definition return_reader :: "'a \<Rightarrow> 'a reader" where
  "return_reader x data i = Inr (x, i)"

definition fail_reader :: "exn \<Rightarrow> 'a reader" where
  "fail_reader e data i = Inl e"

lemma readsD: "reads f bs x \<Longrightarrow> f (pre @ bs @ post) (length pre) = Inr (x, length pre + length bs)"
  by (simp add: reads_def)

lemma reads_whole: "reads f bs x \<Longrightarrow> f bs 0 = Inr (x, length bs)"
  using readsD [of f bs x "[]" "[]"] by simp

lemma reads_return [intro]: "reads (return_reader x) [] x"
  by (simp add: reads_def return_reader_def)

lemma reads_bind:
  assumes "reads f bs x" "reads (g x) cs y"
  shows "reads (bind_reader f g) (bs @ cs) y"
  unfolding reads_def
proof (intro allI)
  fix pre post
  have "f (pre @ (bs @ cs) @ post) (length pre) = Inr (x, length pre + length bs)"
    using readsD [OF assms(1), of pre "cs @ post"] by simp
  moreover have "g x (pre @ (bs @ cs) @ post) (length pre + length bs) = Inr (y, length pre + length bs + length cs)"
    using readsD [OF assms(2), of "pre @ bs" post] by simp
  ultimately show "bind_reader f g (pre @ (bs @ cs) @ post) (length pre) = Inr (y, length pre + length (bs @ cs))"
    by (simp add: bind_reader_def)
qed

lemma reads_bind_last: "reads f bs x \<Longrightarrow> reads (g x) [] y \<Longrightarrow> reads (bind_reader f g) bs y"
  using reads_bind [of f bs x g "[]" y] by simp

lemma reads_byte: "reads f [b] x \<longleftrightarrow> (\<forall>pre post. f (pre @ b # post) (length pre) = Inr (x, length pre + 1))"
  by (simp add: reads_def)

lemma reads_unpack_B: "pack_B n = Inr bs \<Longrightarrow> reads unpack_B bs n"
  by (auto simp: pack_B_def reads_def unpack_B_def nth_append unsigned_of_int take_bit_int_eq_self split: if_splits)

lemma reads_unpack_b: "pack_b n = Inr bs \<Longrightarrow> reads unpack_b bs n"
  by (auto simp: pack_b_def reads_def unpack_b_def nth_append signed_of_int signed_take_bit_int_eq_self split: if_splits)

lemma reads_unpack_H: "pack_H n = Inr bs \<Longrightarrow> reads unpack_H bs n"
  by (auto simp: pack_H_def reads_def unpack_H_def nth_append unsigned_of_int take_bit_int_eq_self split: if_splits)

lemma reads_unpack_bool: "reads unpack_bool (pack_bool b) b"
  by (simp add: pack_bool_def reads_def unpack_bool_def nth_append)

section \<open>Counted sequences\<close>

text \<open>\<^verbatim>\<open>for _ in range(n)\<close> over a reader; one byte for the length, then the items.\<close>

fun read_many :: "nat \<Rightarrow> 'a reader \<Rightarrow> 'a list reader" where
  "read_many 0 f = return_reader []"
| "read_many (Suc n) f = bind_reader f (\<lambda>x. bind_reader (read_many n f) (\<lambda>xs. return_reader (x # xs)))"

definition write_counted :: "('a \<Rightarrow> bytes res) \<Rightarrow> 'a list \<Rightarrow> bytes res" where
  "write_counted put xs =
     bindR (pack_B (int (length xs))) (\<lambda>n. bindR (map_res put xs) (\<lambda>chunks. Inr (n @ concat chunks)))"

definition read_counted :: "'a reader \<Rightarrow> 'a list reader" where
  "read_counted get = bind_reader unpack_B (\<lambda>n. read_many (nat n) get)"

text \<open>What a writer and a reader promise each other on the values that are \<open>ok\<close>.\<close>

locale codec =
  fixes put :: "'a \<Rightarrow> bytes res" and get :: "'a reader" and ok :: "'a \<Rightarrow> bool"
  assumes round_trip: "ok x \<Longrightarrow> put x = Inr bs \<Longrightarrow> reads get bs x"
begin

lemma many: "\<forall>x \<in> set xs. ok x \<Longrightarrow> map_res put xs = Inr chunks \<Longrightarrow> reads (read_many (length xs) get) (concat chunks) xs"
proof (induction xs arbitrary: chunks)
  case (Cons x xs)
  then obtain b cs where c: "put x = Inr b" "map_res put xs = Inr cs" "chunks = b # cs"
    by (auto simp: bindR_eq_Inr)
  have "reads (read_many (length xs) get) (concat cs) xs" using Cons c by simp
  then have "reads (bind_reader (read_many (length xs) get) (\<lambda>xs. return_reader (x # xs))) (concat cs) (x # xs)"
    by (rule reads_bind_last) (rule reads_return)
  with round_trip [OF _ c(1)] Cons.prems(1) c(3) show ?case by (auto intro: reads_bind)
qed auto

lemma counted: "\<forall>x \<in> set xs. ok x \<Longrightarrow> write_counted put xs = Inr bs \<Longrightarrow> reads (read_counted get) bs xs"
  by (auto simp: write_counted_def read_counted_def bindR_eq_Inr intro!: reads_bind reads_unpack_B many)

lemma whole: "ok x \<Longrightarrow> put x = Inr bs \<Longrightarrow> get bs 0 = Inr (x, length bs)"
  by (rule reads_whole) (rule round_trip)

end

lemma write_counted_length: "write_counted put xs = Inr bs \<Longrightarrow> length xs \<le> 255"
  by (auto simp: write_counted_def bindR_eq_Inr pack_B_def split: if_splits)

interpretation byte_codec: codec pack_B unpack_B "\<lambda>_. True"
  by unfold_locales (rule reads_unpack_B)

interpretation short_codec: codec pack_H unpack_H "\<lambda>_. True"
  by unfold_locales (rule reads_unpack_H)

section \<open>Flags\<close>

text \<open>\<^verbatim>\<open>presence |= flag\<close> over the members of an \<^verbatim>\<open>IntFlag\<close>, whose values are the powers of two in order.\<close>

fun flags_from :: "nat \<Rightarrow> bool list \<Rightarrow> int" where
  "flags_from k [] = 0"
| "flags_from k (b # bs) = (if b then push_bit k 1 else 0) OR flags_from (k + 1) bs"

definition has_flag :: "int \<Rightarrow> nat \<Rightarrow> bool" where
  "has_flag presence k \<longleftrightarrow> presence AND push_bit k 1 \<noteq> 0"

lemma bit_flags_from: "bit (flags_from k bs) j \<longleftrightarrow> k \<le> j \<and> j - k < length bs \<and> bs ! (j - k)"
proof (induction bs arbitrary: k)
  case (Cons b bs)
  have head: "bit (if b then push_bit k 1 else 0 :: int) j \<longleftrightarrow> b \<and> j = k"
    by (auto simp: push_bit_eq_mult bit_exp_iff)
  consider "j < k" | "j = k" | m where "j = k + 1 + m" by (metis Suc_eq_plus1 less_imp_Suc_add linorder_cases add_Suc add_Suc_right)
  then show ?case using Cons.IH [of "k + 1"] head by cases (simp_all add: bit_or_iff)
qed simp

lemma has_flag_iff: "has_flag n k \<longleftrightarrow> bit n k"
  by (simp add: has_flag_def push_bit_eq_mult and_exp_eq_0_iff_not_bit)

lemma has_flag_flags: "has_flag (flags_from 0 bs) k \<longleftrightarrow> k < length bs \<and> bs ! k"
  by (simp add: has_flag_iff bit_flags_from)

lemma flags_from_bounds: "0 \<le> flags_from k bs" "flags_from k bs < 2 ^ (k + length bs)"
proof -
  show nonneg: "0 \<le> flags_from k bs"
    by (induction bs arbitrary: k) (auto simp: or_nonnegative_int_iff)
  have "take_bit (k + length bs) (flags_from k bs) = flags_from k bs"
    by (rule bit_eqI) (auto simp: bit_take_bit_iff bit_flags_from)
  then show "flags_from k bs < 2 ^ (k + length bs)"
    using take_bit_int_less_exp [of "k + length bs" "flags_from k bs"] by simp
qed

lemma reads_flags_B: "length bs \<le> 8 \<Longrightarrow> \<exists>enc. pack_B (flags_from 0 bs) = Inr enc"
  using flags_from_bounds [of 0 bs] power_increasing [of "length bs" 8 "2::int"] by (simp add: pack_B_def)

lemma reads_flags_H: "length bs \<le> 16 \<Longrightarrow> \<exists>enc. pack_H (flags_from 0 bs) = Inr enc"
  using flags_from_bounds [of 0 bs] power_increasing [of "length bs" 16 "2::int"] by (simp add: pack_H_def)

section \<open>UTF-8\<close>

text \<open>
  \<^verbatim>\<open>str.encode()\<close> and \<^verbatim>\<open>bytes.decode()\<close>: surrogates cannot be encoded; the decoder accepts only shortest
  forms, no surrogates and nothing above U+10FFFF.
\<close>

definition b8 :: "nat \<Rightarrow> 8 word" where
  "b8 n = word_of_nat n"

definition utf8_char :: "nat \<Rightarrow> bytes res" where
  "utf8_char c =
     (if c < 0x80 then Inr [b8 c]
      else if c < 0x800 then Inr [b8 (0xC0 + c div 64), b8 (0x80 + c mod 64)]
      else if 0xD800 \<le> c \<and> c \<le> 0xDFFF then Inl (PyExc ''UnicodeEncodeError'')
      else if c < 0x10000 then Inr [b8 (0xE0 + c div 4096), b8 (0x80 + c div 64 mod 64), b8 (0x80 + c mod 64)]
      else if c < 0x110000 then Inr [b8 (0xF0 + c div 262144), b8 (0x80 + c div 4096 mod 64), b8 (0x80 + c div 64 mod 64), b8 (0x80 + c mod 64)]
      else Inl (PyExc ''UnicodeEncodeError''))"

definition utf8_encode :: "pystr \<Rightarrow> bytes res" where
  "utf8_encode s = bindR (map_res utf8_char s) (\<lambda>chunks. Inr (concat chunks))"

definition continuation :: "8 word \<Rightarrow> bool" where
  "continuation b \<longleftrightarrow> 0x80 \<le> unat b \<and> unat b < 0xC0"

definition low6 :: "8 word \<Rightarrow> nat" where
  "low6 b = unat b - 0x80"

definition utf8_next :: "bytes \<Rightarrow> (nat \<times> bytes) option" where
  "utf8_next bs =
     (case bs of
        [] \<Rightarrow> None
      | b # bs1 \<Rightarrow>
          (let v = unat b in
           if v < 0x80 then Some (v, bs1)
           else if 0xC2 \<le> v \<and> v < 0xE0 then
             (case bs1 of
                b1 # bs2 \<Rightarrow> if continuation b1 then Some ((v - 0xC0) * 64 + low6 b1, bs2) else None
              | [] \<Rightarrow> None)
           else if 0xE0 \<le> v \<and> v < 0xF0 then
             (case bs1 of
                b1 # b2 # bs3 \<Rightarrow>
                  let c = (v - 0xE0) * 4096 + low6 b1 * 64 + low6 b2 in
                  if continuation b1 \<and> continuation b2 \<and> 0x800 \<le> c \<and> \<not> (0xD800 \<le> c \<and> c \<le> 0xDFFF) then Some (c, bs3) else None
              | _ \<Rightarrow> None)
           else if 0xF0 \<le> v \<and> v < 0xF5 then
             (case bs1 of
                b1 # b2 # b3 # bs4 \<Rightarrow>
                  let c = (v - 0xF0) * 262144 + low6 b1 * 4096 + low6 b2 * 64 + low6 b3 in
                  if continuation b1 \<and> continuation b2 \<and> continuation b3 \<and> 0x10000 \<le> c \<and> c < 0x110000 then Some (c, bs4) else None
              | _ \<Rightarrow> None)
           else None))"

lemma utf8_next_shorter: "utf8_next bs = Some (c, rest) \<Longrightarrow> length rest < length bs"
  by (auto simp: utf8_next_def Let_def split: list.splits if_splits)

function utf8_decode :: "bytes \<Rightarrow> pystr res" where
  "utf8_decode bs =
     (if bs = [] then Inr []
      else (case utf8_next bs of
              None \<Rightarrow> Inl (PyExc ''UnicodeDecodeError'')
            | Some (c, rest) \<Rightarrow> bindR (utf8_decode rest) (\<lambda>s. Inr (c # s))))"
  by pat_completeness auto
termination by (relation "measure length") (auto simp: utf8_next_shorter)

declare utf8_decode.simps [simp del]

lemma unat_b8 [simp]: "n < 256 \<Longrightarrow> unat (b8 n) = n"
  by (simp add: b8_def unat_of_nat take_bit_nat_eq_self)

lemma continuation_b8 [simp]: "n < 64 \<Longrightarrow> continuation (b8 (128 + n))" "n < 64 \<Longrightarrow> low6 (b8 (128 + n)) = n"
  by (simp_all add: continuation_def low6_def)

lemma split_at_64:
  fixes c :: nat
  shows "c div 64 * 64 + c mod 64 = c"
    and "c div 4096 * 4096 + c div 64 mod 64 * 64 + c mod 64 = c"
    and "c div 262144 * 262144 + c div 4096 mod 64 * 4096 + c div 64 mod 64 * 64 + c mod 64 = c"
proof -
  show one: "c div 64 * 64 + c mod 64 = c" by simp
  have "c div 64 = c div 4096 * 64 + c div 64 mod 64"
    using div_mult_mod_eq [of "c div 64" 64] by (simp add: div_mult2_eq [symmetric])
  with one show two: "c div 4096 * 4096 + c div 64 mod 64 * 64 + c mod 64 = c" by linarith
  have "c div 4096 = c div 262144 * 64 + c div 4096 mod 64"
    using div_mult_mod_eq [of "c div 4096" 64] by (simp add: div_mult2_eq [symmetric])
  with two show "c div 262144 * 262144 + c div 4096 mod 64 * 4096 + c div 64 mod 64 * 64 + c mod 64 = c" by linarith
qed

lemma utf8_next_char:
  assumes "utf8_char c = Inr enc"
  shows "utf8_next (enc @ rest) = Some (c, rest)"
proof -
  consider "c < 128" | "128 \<le> c" "c < 2048" | "2048 \<le> c" "c < 65536" "\<not> (0xD800 \<le> c \<and> c \<le> 0xDFFF)" | "65536 \<le> c" "c < 1114112"
    using assms by (fastforce simp: utf8_char_def split: if_splits)
  then show ?thesis
  proof cases
    case 1
    with assms show ?thesis by (auto simp: utf8_char_def utf8_next_def)
  next
    case 2
    then have "c div 64 < 32" "2 \<le> c div 64" by auto
    with 2 assms split_at_64(1) [of c] show ?thesis by (auto simp: utf8_char_def utf8_next_def Let_def)
  next
    case 3
    then have "c div 4096 < 16" by auto
    with 3 assms split_at_64(2) [of c] show ?thesis by (auto simp: utf8_char_def utf8_next_def Let_def)
  next
    case 4
    then have "c div 262144 < 5" by auto
    with 4 assms split_at_64(3) [of c] show ?thesis by (auto simp: utf8_char_def utf8_next_def Let_def)
  qed
qed

lemma utf8_char_nonempty: "utf8_char c = Inr enc \<Longrightarrow> enc \<noteq> []"
  by (auto simp: utf8_char_def split: if_splits)

theorem utf8_round_trip: "utf8_encode s = Inr bs \<Longrightarrow> utf8_decode bs = Inr s"
proof (induction s arbitrary: bs)
  case Nil
  then show ?case by (simp add: utf8_encode_def utf8_decode.simps)
next
  case (Cons c s)
  then obtain enc rest where r: "utf8_char c = Inr enc" "utf8_encode s = Inr rest" "bs = enc @ rest"
    by (auto simp: utf8_encode_def bindR_eq_Inr)
  with Cons.IH utf8_next_char [OF r(1), of rest] utf8_char_nonempty [OF r(1)] show ?case
    by (subst utf8_decode.simps) simp
qed

end
