(* ===== verification/Search_Values.thy ===== *)
theory Search_Values
  imports Bytes_Codec
begin

text \<open>
  The scalar values of search conditions and their binary form (\<^verbatim>\<open>src/app/search/datastructures/conditions.py\<close>):
  variable-length integers, the ZigZag mapping, and \<^verbatim>\<open>serialize_condition_value\<close> with its inverse.
\<close>

section \<open>Variable-length integers\<close>

text \<open>\<^verbatim>\<open>bytearray.append\<close> raises for a negative number.\<close>

function encode_varint :: "int \<Rightarrow> bytes res" where
  "encode_varint v =
     (if v > 0x7F then bindR (encode_varint (drop_bit 7 v)) (\<lambda>rest. Inr (word_of_int ((v AND 0x7F) OR 0x80) # rest))
      else if 0 \<le> v then Inr [word_of_int v]
      else Inl (PyExc ''ValueError''))"
  by pat_completeness auto
termination
proof (relation "measure nat")
  fix v :: int
  assume "v > 0x7F"
  then have "v div 128 < v" by (intro int_div_less_self) simp_all
  with \<open>v > 0x7F\<close> show "(drop_bit 7 v, v) \<in> measure nat" by (simp add: drop_bit_eq_div)
qed simp

declare encode_varint.simps [simp del]

function decode_varint_loop :: "bytes \<Rightarrow> nat \<Rightarrow> nat \<Rightarrow> int \<Rightarrow> (int \<times> nat) res" where
  "decode_varint_loop data i shift result =
     (if i < length data
      then (let byte = uint (data ! i); result' = result OR push_bit shift (byte AND 0x7F) in
            if byte AND 0x80 = 0 then Inr (result', i + 1) else decode_varint_loop data (i + 1) (shift + 7) result')
      else Inl (PyExc ''IndexError''))"
  by pat_completeness auto
termination by (relation "measure (\<lambda>(data, i, _, _). length data - i)") auto

declare decode_varint_loop.simps [simp del]

definition decode_varint :: "int reader" where
  "decode_varint data i = decode_varint_loop data i 0 0"

lemma low_seven: "(v :: int) AND 0x7F = take_bit 7 v"
  by (simp add: take_bit_eq_mask mask_eq_exp_minus_1)

lemma marked_byte:
  fixes v :: int
  shows "uint (word_of_int ((v AND 0x7F) OR 0x80) :: 8 word) AND 0x7F = take_bit 7 v"
    and "uint (word_of_int ((v AND 0x7F) OR 0x80) :: 8 word) AND 0x80 \<noteq> 0"
proof -
  have marker: "bit (0x80 :: int) n \<longleftrightarrow> n = 7" for n
    using bit_exp_iff [of 7 n, where ?'a = int] by auto
  show "uint (word_of_int ((v AND 0x7F) OR 0x80) :: 8 word) AND 0x7F = take_bit 7 v"
    unfolding low_seven by (rule bit_eqI) (auto simp: unsigned_of_int bit_take_bit_iff bit_or_iff marker)
  have "bit (uint (word_of_int ((v AND 0x7F) OR 0x80) :: 8 word) AND 0x80) 7"
    unfolding low_seven by (simp add: unsigned_of_int bit_and_iff bit_take_bit_iff bit_or_iff marker)
  then show "uint (word_of_int ((v AND 0x7F) OR 0x80) :: 8 word) AND 0x80 \<noteq> 0" by auto
qed

lemma last_byte:
  fixes v :: int
  assumes "0 \<le> v" "\<not> v > 0x7F"
  shows "uint (word_of_int v :: 8 word) AND 0x7F = v" "uint (word_of_int v :: 8 word) AND 0x80 = 0"
proof -
  have id: "take_bit 7 v = v" using assms by (simp add: take_bit_int_eq_self)
  have whole: "uint (word_of_int v :: 8 word) = v" using assms by (simp add: unsigned_of_int take_bit_int_eq_self)
  then show "uint (word_of_int v :: 8 word) AND 0x7F = v" by (simp add: low_seven id)
  have "(v AND push_bit 7 1 = 0) \<longleftrightarrow> \<not> bit v 7"
    using and_exp_eq_0_iff_not_bit [of v 7] by (simp add: push_bit_eq_mult)
  moreover have "\<not> bit v 7" by (subst id [symmetric]) (simp add: bit_take_bit_iff)
  ultimately show "uint (word_of_int v :: 8 word) AND 0x80 = 0" by (simp add: whole push_bit_eq_mult)
qed

lemma push_split: "push_bit shift (take_bit 7 v) OR push_bit (shift + 7) (drop_bit 7 v) = push_bit shift (v :: int)"
proof (rule bit_eqI)
  fix n
  consider "n < shift + 7" | m where "n = shift + 7 + m" by (metis le_iff_add not_le)
  then show "bit (push_bit shift (take_bit 7 v) OR push_bit (shift + 7) (drop_bit 7 v)) n \<longleftrightarrow> bit (push_bit shift v) n"
    by cases (auto simp: bit_or_iff bit_push_bit_iff bit_take_bit_iff bit_drop_bit_eq)
qed

lemma decode_varint_loop_encode:
  "encode_varint v = Inr bs \<Longrightarrow>
     decode_varint_loop (pre @ bs @ post) (length pre) shift acc = Inr (acc OR push_bit shift v, length pre + length bs)"
proof (induction v arbitrary: bs pre shift acc rule: encode_varint.induct)
  case (1 v)
  show ?case
  proof (cases "v > 0x7F")
    case True
    with "1.prems" obtain rest where rest: "encode_varint (drop_bit 7 v) = Inr rest"
        "bs = word_of_int ((v AND 0x7F) OR 0x80) # rest"
      by (subst (asm) encode_varint.simps) (auto simp: bindR_eq_Inr)
    let ?b = "word_of_int ((v AND 0x7F) OR 0x80) :: 8 word"
    have "decode_varint_loop (pre @ bs @ post) (length pre) shift acc =
        decode_varint_loop ((pre @ [?b]) @ rest @ post) (length (pre @ [?b])) (shift + 7) (acc OR push_bit shift (take_bit 7 v))"
      by (subst decode_varint_loop.simps) (simp add: rest(2) nth_append marked_byte Let_def del: push_bit_and)
    also have "\<dots> = Inr ((acc OR push_bit shift (take_bit 7 v)) OR push_bit (shift + 7) (drop_bit 7 v), length (pre @ [?b]) + length rest)"
      by (rule "1.IH" [OF True rest(1)])
    finally show ?thesis by (simp add: rest(2) or.assoc push_split)
  next
    case False
    with "1.prems" have "0 \<le> v" "bs = [word_of_int v]"
      by (subst (asm) encode_varint.simps; simp split: if_splits)+
    with False show ?thesis
      by (subst decode_varint_loop.simps) (simp add: nth_append last_byte Let_def del: push_bit_and)
  qed
qed

lemma varint_reads: "encode_varint v = Inr bs \<Longrightarrow> reads decode_varint bs v"
  by (simp add: reads_def decode_varint_def decode_varint_loop_encode)

lemma encode_varint_total: "(\<exists>bs. encode_varint v = Inr bs) \<longleftrightarrow> 0 \<le> v"
proof (induction v rule: encode_varint.induct)
  case (1 v)
  then show ?case by (subst encode_varint.simps) (auto simp: bindR_eq_Inr)
qed

lemma encode_varint_error: "\<not> 0 \<le> v \<Longrightarrow> encode_varint v = Inl (PyExc ''ValueError'')"
  by (subst encode_varint.simps) simp

section \<open>ZigZag\<close>

definition encode_zigzag :: "int \<Rightarrow> int" where
  "encode_zigzag n = push_bit 1 n XOR drop_bit 63 n"

definition decode_zigzag :: "int \<Rightarrow> int" where
  "decode_zigzag n = drop_bit 1 n XOR - (n AND 1)"

lemma drop_bit_sign:
  assumes "- (2 ^ 63) \<le> n" "n < 2 ^ 63"
  shows "drop_bit 63 n = (if n < 0 then -1 else (0 :: int))"
proof -
  have "n div 2 ^ 63 = - 1" if "n < 0"
    using that assms by (intro int_div_pos_eq [where r = "n + 2 ^ 63"]) auto
  then show ?thesis using assms by (auto simp: drop_bit_eq_div)
qed

lemma zigzag_round_trip:
  assumes "- (2 ^ 63) \<le> n" "n < 2 ^ 63"
  shows "decode_zigzag (encode_zigzag n) = n" "0 \<le> encode_zigzag n"
proof -
  have sign: "drop_bit 63 n = (if n < 0 then -1 else 0)" using drop_bit_sign [OF assms] .
  show "0 \<le> encode_zigzag n"
    by (simp add: encode_zigzag_def sign push_bit_eq_mult not_int_def flip: not_def)
  show "decode_zigzag (encode_zigzag n) = n"
  proof (cases "n < 0")
    case True
    have "encode_zigzag n = NOT (push_bit 1 n)" using True by (simp add: encode_zigzag_def sign)
    then have zz: "encode_zigzag n = 2 * (- n - 1) + 1" by (simp add: push_bit_eq_mult not_int_def)
    have "drop_bit 1 (encode_zigzag n) = - n - 1" "encode_zigzag n AND 1 = 1"
      unfolding zz by (simp add: drop_bit_eq_div, simp only: and_one_eq mod_mult_self4 one_mod_two_eq_one)
    then show ?thesis by (simp add: decode_zigzag_def not_int_def)
  next
    case False
    then have "encode_zigzag n = push_bit 1 n" by (simp add: encode_zigzag_def sign)
    then show ?thesis by (simp add: decode_zigzag_def push_bit_eq_mult drop_bit_eq_div and_one_eq)
  qed
qed

section \<open>Condition values\<close>

text \<open>
  \<^verbatim>\<open>ConditionValue\<close>. A float is the number it denotes; a datetime is whether it is aware and its wall
  clock in microseconds.
\<close>

datatype cond_value = PInt int | PFloat rat | PStr pystr | PBool bool | PDate bool int

datatype float_kind = Half | Single | Double

fun float_width :: "float_kind \<Rightarrow> nat" where
  "float_width Half = 2"
| "float_width Single = 4"
| "float_width Double = 8"

text \<open>
  What is left to numpy and the platform: whether a float survives the conversion to a format, its bytes
  in that format, and \<^verbatim>\<open>int(value.timestamp() * 1000)\<close> and \<^verbatim>\<open>datetime.fromtimestamp(millis / 1000)\<close>.
\<close>

record num_env =
  fits :: "float_kind \<Rightarrow> rat \<Rightarrow> bool"
  pack_float :: "float_kind \<Rightarrow> rat \<Rightarrow> bytes"
  unpack_float :: "float_kind \<Rightarrow> bytes \<Rightarrow> rat"
  to_millis :: "bool \<Rightarrow> int \<Rightarrow> int"
  of_millis :: "int \<Rightarrow> int res"

text \<open>\<^verbatim>\<open>struct\<close> writes a float of a format in its width and reads it back; whole seconds of a process on UTC
  are exact in double precision.\<close>

definition num_laws :: "num_env \<Rightarrow> bool" where
  "num_laws E \<longleftrightarrow>
     (\<forall>k x. fits E k x \<longrightarrow> length (pack_float E k x) = float_width k \<and> unpack_float E k (pack_float E k x) = x) \<and>
     (\<forall>s. 0 \<le> s \<and> s < 2 ^ 37 \<longrightarrow> to_millis E False (s * 1000000) = s * 1000 \<and> of_millis E (s * 1000) = Inr (s * 1000000))"

definition read_float :: "num_env \<Rightarrow> float_kind \<Rightarrow> rat reader" where
  "read_float E k data i =
     (if i + float_width k \<le> length data
      then Inr (unpack_float E k (take (float_width k) (drop i data)), i + float_width k)
      else Inl (PyExc ''struct.error''))"

text \<open>\<^verbatim>\<open>data[offset:offset + length].decode()\<close>: a slice past the end is shorter, the offset is not.\<close>

definition read_text :: "nat \<Rightarrow> pystr reader" where
  "read_text n data i = bindR (utf8_decode (take n (drop i data))) (\<lambda>s. Inr (s, i + n))"

definition SIGNED_CHAR :: int where "SIGNED_CHAR = 1"
definition SIGNED_VARINT :: int where "SIGNED_VARINT = 2"
definition UNSIGNED_CHAR :: int where "UNSIGNED_CHAR = 3"
definition UNSIGNED_VARINT :: int where "UNSIGNED_VARINT = 4"
definition HALF_FLOAT :: int where "HALF_FLOAT = 5"
definition FLOAT :: int where "FLOAT = 6"
definition DOUBLE :: int where "DOUBLE = 7"
definition STR_ID :: int where "STR_ID = 8"
definition BOOL :: int where "BOOL = 9"
definition DATETIME :: int where "DATETIME = 10"

lemmas type_ids = SIGNED_CHAR_def SIGNED_VARINT_def UNSIGNED_CHAR_def UNSIGNED_VARINT_def HALF_FLOAT_def FLOAT_def
  DOUBLE_def STR_ID_def BOOL_def DATETIME_def

definition tagged :: "int \<Rightarrow> bytes res \<Rightarrow> bytes res" where
  "tagged type_id payload = bindR (pack_B type_id) (\<lambda>t. bindR payload (\<lambda>p. Inr (t @ p)))"

fun serialize_condition_value :: "num_env \<Rightarrow> cond_value \<Rightarrow> bytes res" where
  "serialize_condition_value E (PInt n) =
     (if 0 \<le> n \<and> n \<le> 255 then tagged UNSIGNED_CHAR (pack_B n)
      else if -128 \<le> n \<and> n \<le> 127 then tagged SIGNED_CHAR (pack_b n)
      else if n \<ge> 0 then tagged UNSIGNED_VARINT (encode_varint n)
      else tagged SIGNED_VARINT (encode_varint (encode_zigzag n)))"
| "serialize_condition_value E (PFloat x) =
     (if fits E Half x then tagged HALF_FLOAT (Inr (pack_float E Half x))
      else if fits E Single x then tagged FLOAT (Inr (pack_float E Single x))
      else if fits E Double x then tagged DOUBLE (Inr (pack_float E Double x))
      else Inl (PyExc ''ValueError''))"
| "serialize_condition_value E (PStr s) =
     bindR (utf8_encode s) (\<lambda>encoded. tagged STR_ID (bindR (encode_varint (int (length encoded))) (\<lambda>n. Inr (n @ encoded))))"
| "serialize_condition_value E (PBool b) = tagged BOOL (Inr (pack_bool b))"
| "serialize_condition_value E (PDate aware t) = tagged DATETIME (encode_varint (to_millis E aware t))"

definition deserialize_condition_value :: "num_env \<Rightarrow> cond_value reader" where
  "deserialize_condition_value E =
     bind_reader unpack_B (\<lambda>type_id.
       if type_id = SIGNED_CHAR then bind_reader unpack_b (\<lambda>n. return_reader (PInt n))
       else if type_id = SIGNED_VARINT then bind_reader decode_varint (\<lambda>zz. return_reader (PInt (decode_zigzag zz)))
       else if type_id = UNSIGNED_CHAR then bind_reader unpack_B (\<lambda>n. return_reader (PInt n))
       else if type_id = UNSIGNED_VARINT then bind_reader decode_varint (\<lambda>n. return_reader (PInt n))
       else if type_id = HALF_FLOAT then bind_reader (read_float E Half) (\<lambda>x. return_reader (PFloat x))
       else if type_id = FLOAT then bind_reader (read_float E Single) (\<lambda>x. return_reader (PFloat x))
       else if type_id = DOUBLE then bind_reader (read_float E Double) (\<lambda>x. return_reader (PFloat x))
       else if type_id = STR_ID then bind_reader decode_varint (\<lambda>n. bind_reader (read_text (nat n)) (\<lambda>s. return_reader (PStr s)))
       else if type_id = BOOL then bind_reader unpack_bool (\<lambda>b. return_reader (PBool b))
       else if type_id = DATETIME then bind_reader decode_varint (\<lambda>millis data i.
         bindR (of_millis E millis) (\<lambda>t. Inr (PDate False t, i)))
       else fail_reader (PyExc ''ValueError''))"

text \<open>The values that come back as they went in.\<close>

fun value_ok :: "cond_value \<Rightarrow> bool" where
  "value_ok (PInt n) \<longleftrightarrow> - (2 ^ 63) \<le> n"
| "value_ok (PDate aware t) \<longleftrightarrow> \<not> aware \<and> 0 \<le> t \<and> t mod 1000000 = 0 \<and> t < 2 ^ 37 * 1000000"
| "value_ok _ \<longleftrightarrow> True"

lemma reads_float:
  assumes "num_laws E" "fits E k x"
  shows "reads (read_float E k) (pack_float E k x) x"
  using assms by (auto simp: num_laws_def reads_def read_float_def)

lemma reads_text: "utf8_encode s = Inr bs \<Longrightarrow> reads (read_text (length bs)) bs s"
  by (auto simp: reads_def read_text_def utf8_round_trip)

lemma reads_tagged:
  assumes "tagged t payload = Inr bs" "\<And>p. payload = Inr p \<Longrightarrow> reads (g t) p x"
  shows "reads (bind_reader unpack_B g) bs x"
  using assms by (auto simp: tagged_def bindR_eq_Inr intro!: reads_bind reads_unpack_B)

lemma integer_round_trip:
  assumes "serialize_condition_value E (PInt n) = Inr bs" "- (2 ^ 63) \<le> n"
  shows "reads (deserialize_condition_value E) bs (PInt n)"
proof -
  consider (unsigned) "tagged UNSIGNED_CHAR (pack_B n) = Inr bs" | (signed) "tagged SIGNED_CHAR (pack_b n) = Inr bs"
    | (big) "tagged UNSIGNED_VARINT (encode_varint n) = Inr bs"
    | (negative) "n < 0" "tagged SIGNED_VARINT (encode_varint (encode_zigzag n)) = Inr bs"
    using assms(1) by (auto split: if_splits)
  then show ?thesis
  proof cases
    case negative
    then have "decode_zigzag (encode_zigzag n) = n" using assms(2) by (intro zigzag_round_trip) auto
    with negative(2) show ?thesis
      unfolding deserialize_condition_value_def
      by (elim reads_tagged) (auto simp: type_ids intro!: reads_bind_last varint_reads)
  qed (unfold deserialize_condition_value_def; elim reads_tagged;
       auto simp: type_ids intro!: reads_bind_last reads_unpack_B reads_unpack_b varint_reads)+
qed

lemma float_round_trip:
  assumes "num_laws E" "serialize_condition_value E (PFloat x) = Inr bs"
  shows "reads (deserialize_condition_value E) bs (PFloat x)"
proof -
  consider "fits E Half x" "tagged HALF_FLOAT (Inr (pack_float E Half x)) = Inr bs"
    | "fits E Single x" "tagged FLOAT (Inr (pack_float E Single x)) = Inr bs"
    | "fits E Double x" "tagged DOUBLE (Inr (pack_float E Double x)) = Inr bs"
    using assms(2) by (auto split: if_splits)
  then show ?thesis
    unfolding deserialize_condition_value_def
    by cases (elim reads_tagged; auto simp: type_ids intro!: reads_bind_last reads_float assms(1))+
qed

lemma date_round_trip:
  assumes "num_laws E" "value_ok (PDate aware t)" "serialize_condition_value E (PDate aware t) = Inr bs"
  shows "reads (deserialize_condition_value E) bs (PDate aware t)"
proof -
  let ?s = "t div 1000000"
  have t: "t = ?s * 1000000" "0 \<le> ?s" "?s < 2 ^ 37" "\<not> aware" using assms(2) by auto
  then have law: "to_millis E aware t = ?s * 1000" "of_millis E (?s * 1000) = Inr t"
    using assms(1) by (auto simp: num_laws_def)
  from assms(3) have "tagged DATETIME (encode_varint (?s * 1000)) = Inr bs" by (simp add: law)
  then show ?thesis
    unfolding deserialize_condition_value_def
  proof (elim reads_tagged, goal_cases)
    case (1 p)
    have "reads (\<lambda>data i. bindR (of_millis E (?s * 1000)) (\<lambda>t. Inr (PDate False t, i))) [] (PDate aware t)"
      using t(4) by (simp add: law reads_def)
    with varint_reads [OF 1] show ?case by (auto simp: type_ids intro!: reads_bind_last)
  qed
qed

lemma value_round_trip:
  assumes "num_laws E" "value_ok v" "serialize_condition_value E v = Inr bs"
  shows "reads (deserialize_condition_value E) bs v"
proof (cases v)
  case (PStr s)
  with assms(3) obtain enc n where e: "utf8_encode s = Inr enc" "encode_varint (int (length enc)) = Inr n" "tagged STR_ID (Inr (n @ enc)) = Inr bs"
    by (auto simp: bindR_eq_Inr tagged_def)
  have "reads (bind_reader (read_text (length enc)) (\<lambda>s. return_reader (PStr s))) enc (PStr s)"
    by (rule reads_bind_last [OF reads_text [OF e(1)]]) (rule reads_return)
  then have "reads (bind_reader decode_varint (\<lambda>n. bind_reader (read_text (nat n)) (\<lambda>s. return_reader (PStr s)))) (n @ enc) (PStr s)"
    by (intro reads_bind [OF varint_reads [OF e(2)]]) simp
  with e(3) show ?thesis
    unfolding deserialize_condition_value_def PStr by (elim reads_tagged) (auto simp: type_ids)
next
  case (PBool b)
  with assms(3) have "tagged BOOL (Inr (pack_bool b)) = Inr bs" by simp
  then show ?thesis
    unfolding deserialize_condition_value_def PBool
    by (elim reads_tagged) (auto simp: type_ids intro!: reads_bind_last reads_unpack_bool)
qed (use assms integer_round_trip float_round_trip date_round_trip in auto)

text \<open>Under the laws of the platform the values form a codec.\<close>

interpretation value_codec: codec "serialize_condition_value E" "deserialize_condition_value E" "\<lambda>v. num_laws E \<and> value_ok v" for E
  by unfold_locales (auto intro: value_round_trip)

text \<open>Outside the range the ZigZag mapping assumes, another number comes back.\<close>

lemma zigzag_out_of_range: "decode_zigzag (encode_zigzag (- (2 ^ 63) - 1)) \<noteq> - (2 ^ 63) - 1"
  by code_simp

end
