(* ===== verification/Search_Conditions.thy ===== *)
theory Search_Conditions
  imports Search_Values
begin

text \<open>
  The conditions on one field of a search filter (\<^verbatim>\<open>Conditions\<close> in \<^verbatim>\<open>src/app/search/datastructures/conditions.py\<close>):
  their validation and their binary form.
\<close>

section \<open>Data\<close>

record conditions =
  c_eq :: "cond_value option"
  c_neq :: "cond_value option"
  c_lt :: "cond_value option"
  c_lte :: "cond_value option"
  c_gt :: "cond_value option"
  c_gte :: "cond_value option"
  c_in :: "cond_value list option"
  c_not_in :: "cond_value list option"
  c_is_null :: "bool option"
  c_regex :: "pystr option"
  c_not_regex :: "pystr option"
  c_set :: "string list"

text \<open>The input of a field and of the whole model: decoded JSON with strings as code points.\<close>

datatype cond_input = CNone | CVal cond_value | CList "cond_value list"
datatype cond_raw = RDict "(string \<times> cond_input) list" | RInput cond_input

text \<open>\<^verbatim>\<open>datetime.fromisoformat\<close> (awareness and wall clock), \<^verbatim>\<open>re.search\<close> and the number of groups of a pattern
  that compiles.\<close>

record text_env =
  iso_datetime :: "pystr \<Rightarrow> (bool \<times> int) option"
  re_search :: "string \<Rightarrow> pystr \<Rightarrow> bool"
  re_groups :: "pystr \<Rightarrow> nat option"

definition invalid :: exn where
  "invalid = PyExc ''ValidationError''"

section \<open>Before the fields\<close>

definition normalize_shorthand :: "cond_raw \<Rightarrow> (string \<times> cond_input) list res" where
  "normalize_shorthand raw =
     (case raw of
        RDict d \<Rightarrow> Inr d
      | RInput (CVal v) \<Rightarrow> Inr [(''eq'', CVal v)]
      | RInput CNone \<Rightarrow> Inr [(''is_null'', CVal (PBool True))]
      | RInput (CList _) \<Rightarrow> Inl (PyExc ''TypeError''))"

definition condition_keys :: "string list" where
  "condition_keys = [''eq'', ''neq'', ''lt'', ''lte'', ''gt'', ''gte'', ''in'', ''not_in'', ''is_null'', ''regex'', ''not_regex'']"

definition validate_condition_keys :: "(string \<times> cond_input) list \<Rightarrow> unit res" where
  "validate_condition_keys d = guardR (set (map fst d) \<subseteq> set condition_keys) invalid"

section \<open>The fields\<close>

definition parse_datetime :: "text_env \<Rightarrow> cond_value \<Rightarrow> cond_value" where
  "parse_datetime T v =
     (case v of PStr s \<Rightarrow> (case iso_datetime T s of Some (aware, t) \<Rightarrow> PDate aware t | None \<Rightarrow> PStr s) | _ \<Rightarrow> v)"

datatype value_type = IntT | FloatT | StrT | BoolT | DateT

fun type_of :: "cond_value \<Rightarrow> value_type" where
  "type_of (PInt _) = IntT"
| "type_of (PFloat _) = FloatT"
| "type_of (PStr _) = StrT"
| "type_of (PBool _) = BoolT"
| "type_of (PDate _ _) = DateT"

fun validate_sequence_types :: "cond_value list \<Rightarrow> unit res" where
  "validate_sequence_types [] = Inr ()"
| "validate_sequence_types (base # vs) = guardR (\<forall>v \<in> set vs. type_of v = type_of base) invalid"

definition codes :: "string \<Rightarrow> pystr" where
  "codes s = map of_char s"

fun contains :: "pystr \<Rightarrow> pystr \<Rightarrow> bool" where
  "contains needle [] \<longleftrightarrow> needle = []"
| "contains needle (c # s) \<longleftrightarrow> take (length needle) (c # s) = needle \<or> contains needle s"

definition MAX_REGEX_LENGTH :: nat where "MAX_REGEX_LENGTH = 100"
definition MAX_GROUPS :: nat where "MAX_GROUPS = 10"

text \<open>Regular expressions, with a tilde for the backslash.\<close>

definition rx :: "string \<Rightarrow> string" where
  "rx s = map (\<lambda>c. if c = CHR ''~'' then CHR 0x5C else c) s"

definition DANGEROUS_PATTERNS :: "string list" where
  "DANGEROUS_PATTERNS = map rx [''~(~?<=.*?~)'', ''~(~?<!.*?~)'', ''~~~d+'', ''~(~?P<.*?>'', ''~(~?[^:=!#]'']"

definition SUSPICIOUS_PATTERNS :: "string list" where
  "SUSPICIOUS_PATTERNS =
     map rx [''~(~s*~.~*~s*~)~+'', ''~(~s*~.~+~s*~)~+'', ''~(~s*.+~*~s*~)~+'', ''~(~s*~.~*~s*~)~{2,}'', ''(~.~*){2,}'']"

text \<open>The white space of \<^verbatim>\<open>str.strip\<close>.\<close>

definition blank :: "nat \<Rightarrow> bool" where
  "blank c \<longleftrightarrow> 9 \<le> c \<and> c \<le> 13 \<or> 28 \<le> c \<and> c \<le> 32 \<or> c \<in> {0x85, 0xA0, 0x1680, 0x2028, 0x2029, 0x202F, 0x205F, 0x3000} \<or> 0x2000 \<le> c \<and> c \<le> 0x200A"

definition validate_regex :: "text_env \<Rightarrow> pystr \<Rightarrow> pystr res" where
  "validate_regex T s =
     bindR (guardR (length s \<le> MAX_REGEX_LENGTH) invalid) (\<lambda>_.
     bindR (guardR (\<not> list_all blank s) invalid) (\<lambda>_.
     bindR (guardR (\<not> (re_search T (rx ''~.~*~.~*'') s \<or> contains (codes ''.+'') s \<and> length s < 10)) invalid) (\<lambda>_.
     bindR (guardR (\<not> re_search T (rx ''~([^)]*[+*]~)[+*]'') s) invalid) (\<lambda>_.
     bindR (guardR (\<forall>p \<in> set DANGEROUS_PATTERNS. \<not> re_search T p s) invalid) (\<lambda>_.
     bindR (guardR (\<forall>p \<in> set SUSPICIOUS_PATTERNS. \<not> re_search T p s) invalid) (\<lambda>_.
       case re_groups T s of
         None \<Rightarrow> Inl invalid
       | Some n \<Rightarrow> if n > MAX_GROUPS then Inl invalid else Inr s))))))"

fun scalar_field :: "text_env \<Rightarrow> cond_input option \<Rightarrow> cond_value option res" where
  "scalar_field T None = Inr None"
| "scalar_field T (Some CNone) = Inr None"
| "scalar_field T (Some (CVal v)) = Inr (Some (parse_datetime T v))"
| "scalar_field T (Some (CList _)) = Inl invalid"

fun sequence_field :: "text_env \<Rightarrow> cond_input option \<Rightarrow> cond_value list option res" where
  "sequence_field T None = Inr None"
| "sequence_field T (Some CNone) = Inr None"
| "sequence_field T (Some (CVal _)) = Inl invalid"
| "sequence_field T (Some (CList vs)) =
     (let parsed = map (parse_datetime T) vs in bindR (validate_sequence_types parsed) (\<lambda>_. Inr (Some parsed)))"

text \<open>What \<^verbatim>\<open>bool\<close> accepts of scalar input.\<close>

definition lower :: "nat \<Rightarrow> nat" where
  "lower c = (if 65 \<le> c \<and> c \<le> 90 then c + 32 else c)"

fun bool_of :: "cond_value \<Rightarrow> bool res" where
  "bool_of (PBool b) = Inr b"
| "bool_of (PInt n) = (if n = 0 then Inr False else if n = 1 then Inr True else Inl invalid)"
| "bool_of (PFloat x) = (if x = 0 then Inr False else if x = 1 then Inr True else Inl invalid)"
| "bool_of (PStr s) =
     (if map lower s \<in> set (map codes [''0'', ''off'', ''f'', ''false'', ''n'', ''no'']) then Inr False
      else if map lower s \<in> set (map codes [''1'', ''on'', ''t'', ''true'', ''y'', ''yes'']) then Inr True else Inl invalid)"
| "bool_of (PDate _ _) = Inl invalid"

fun bool_field :: "cond_input option \<Rightarrow> bool option res" where
  "bool_field None = Inr None"
| "bool_field (Some CNone) = Inr None"
| "bool_field (Some (CVal v)) = bindR (bool_of v) (\<lambda>b. Inr (Some b))"
| "bool_field (Some (CList _)) = Inl invalid"

fun regex_field :: "text_env \<Rightarrow> cond_input option \<Rightarrow> pystr option res" where
  "regex_field T None = Inr None"
| "regex_field T (Some CNone) = Inr None"
| "regex_field T (Some (CVal (PStr s))) = bindR (validate_regex T s) (\<lambda>s. Inr (Some s))"
| "regex_field T (Some _) = Inl invalid"

section \<open>After the fields\<close>

fun as_number :: "cond_value \<Rightarrow> rat option" where
  "as_number (PInt n) = Some (of_int n)"
| "as_number (PFloat x) = Some x"
| "as_number (PBool b) = Some (of_bool b)"
| "as_number _ = None"

definition py_eq :: "cond_value \<Rightarrow> cond_value \<Rightarrow> bool" where
  "py_eq a b =
     (case (as_number a, as_number b) of
        (Some x, Some y) \<Rightarrow> x = y
      | _ \<Rightarrow> a = b)"

text \<open>\<^verbatim>\<open>a >= b\<close> and \<^verbatim>\<open>a > b\<close>; values of different kinds, and naive with aware datetimes, cannot be ordered.\<close>

definition py_order :: "(rat \<Rightarrow> rat \<Rightarrow> bool) \<Rightarrow> (pystr \<Rightarrow> pystr \<Rightarrow> bool) \<Rightarrow> (int \<Rightarrow> int \<Rightarrow> bool) \<Rightarrow> cond_value \<Rightarrow> cond_value \<Rightarrow> bool res" where
  "py_order numbers texts dates a b =
     (case (as_number a, as_number b) of
        (Some x, Some y) \<Rightarrow> Inr (numbers x y)
      | _ \<Rightarrow> (case (a, b) of
                (PStr s, PStr t) \<Rightarrow> Inr (texts s t)
              | (PDate w t, PDate w' t') \<Rightarrow> if w = w' then Inr (dates t t') else Inl (PyExc ''TypeError'')
              | _ \<Rightarrow> Inl (PyExc ''TypeError'')))"

definition py_ge :: "cond_value \<Rightarrow> cond_value \<Rightarrow> bool res" where
  "py_ge = py_order (\<ge>) (\<ge>) (\<ge>)"

definition py_gt :: "cond_value \<Rightarrow> cond_value \<Rightarrow> bool res" where
  "py_gt = py_order (>) (>) (>)"

definition present :: "'a option list \<Rightarrow> 'a list" where
  "present vs = concat (map (\<lambda>x. case x of None \<Rightarrow> [] | Some v \<Rightarrow> [v]) vs)"

definition values_for_validation :: "conditions \<Rightarrow> cond_value list" where
  "values_for_validation c =
     present [c_eq c, c_neq c, c_lt c, c_lte c, c_gt c, c_gte c] @
     (case c_in c of None \<Rightarrow> [] | Some vs \<Rightarrow> vs) @ (case c_not_in c of None \<Rightarrow> [] | Some vs \<Rightarrow> vs)"

fun ensure_comparable_types :: "cond_value list \<Rightarrow> unit res" where
  "ensure_comparable_types [] = Inr ()"
| "ensure_comparable_types (base # vs) =
     guardR (\<forall>v \<in> set vs. (as_number base \<noteq> None \<and> as_number v \<noteq> None) \<or> type_of v = type_of base) invalid"

definition some_condition :: "conditions \<Rightarrow> bool" where
  "some_condition c \<longleftrightarrow>
     c_eq c \<noteq> None \<or> c_neq c \<noteq> None \<or> c_lt c \<noteq> None \<or> c_lte c \<noteq> None \<or> c_gt c \<noteq> None \<or> c_gte c \<noteq> None \<or>
     c_in c \<noteq> None \<or> c_not_in c \<noteq> None \<or> c_is_null c \<noteq> None \<or> c_regex c \<noteq> None \<or> c_not_regex c \<noteq> None"

text \<open>\<^verbatim>\<open>if a is not None and b is not None and a >= b: raise\<close>\<close>

definition reject_if :: "(cond_value \<Rightarrow> cond_value \<Rightarrow> bool res) \<Rightarrow> cond_value option \<Rightarrow> cond_value option \<Rightarrow> unit res" where
  "reject_if bad a b =
     (case (a, b) of
        (Some x, Some y) \<Rightarrow> bindR (bad x y) (\<lambda>holds. guardR (\<not> holds) invalid)
      | _ \<Rightarrow> Inr ())"

definition validate_equality :: "conditions \<Rightarrow> unit res" where
  "validate_equality c =
     (case c_eq c of
        None \<Rightarrow> Inr ()
      | Some v \<Rightarrow>
          bindR (case c_neq c of Some w \<Rightarrow> guardR (\<not> py_eq w v) invalid | None \<Rightarrow> Inr ()) (\<lambda>_.
          bindR (case c_in c of Some (w # ws) \<Rightarrow> guardR (\<exists>x \<in> set (w # ws). py_eq x v) invalid | _ \<Rightarrow> Inr ()) (\<lambda>_.
            case c_not_in c of Some ws \<Rightarrow> guardR (\<not> (\<exists>x \<in> set ws. py_eq x v)) invalid | None \<Rightarrow> Inr ())))"

definition validate_logic :: "conditions \<Rightarrow> unit res" where
  "validate_logic c =
     bindR (guardR (some_condition c) invalid) (\<lambda>_.
     bindR (ensure_comparable_types (values_for_validation c)) (\<lambda>_.
     bindR (guardR (\<not> (c_is_null c = Some True \<and> length (c_set c) > 1)) invalid) (\<lambda>_.
     bindR (validate_equality c) (\<lambda>_.
     bindR (guardR (\<not> (c_gt c \<noteq> None \<and> c_gte c \<noteq> None)) invalid) (\<lambda>_.
     bindR (guardR (\<not> (c_lt c \<noteq> None \<and> c_lte c \<noteq> None)) invalid) (\<lambda>_.
     bindR (reject_if py_ge (c_gt c) (c_lt c)) (\<lambda>_.
     bindR (reject_if py_ge (c_gt c) (c_lte c)) (\<lambda>_.
     bindR (reject_if py_ge (c_gte c) (c_lt c)) (\<lambda>_.
       reject_if py_gt (c_gte c) (c_lte c))))))))))"

text \<open>\<^verbatim>\<open>Conditions.model_validate\<close>. A dictionary has each key once.\<close>

definition conditions_of :: "text_env \<Rightarrow> (string \<times> cond_input) list \<Rightarrow> conditions res" where
  "conditions_of T d =
     bindR (scalar_field T (map_of d ''eq'')) (\<lambda>a. bindR (scalar_field T (map_of d ''neq'')) (\<lambda>b.
     bindR (scalar_field T (map_of d ''lt'')) (\<lambda>l. bindR (scalar_field T (map_of d ''lte'')) (\<lambda>le.
     bindR (scalar_field T (map_of d ''gt'')) (\<lambda>g. bindR (scalar_field T (map_of d ''gte'')) (\<lambda>ge.
     bindR (sequence_field T (map_of d ''in'')) (\<lambda>i. bindR (sequence_field T (map_of d ''not_in'')) (\<lambda>n.
     bindR (bool_field (map_of d ''is_null'')) (\<lambda>nul.
     bindR (regex_field T (map_of d ''regex'')) (\<lambda>r. bindR (regex_field T (map_of d ''not_regex'')) (\<lambda>nr.
       Inr \<lparr>c_eq = a, c_neq = b, c_lt = l, c_lte = le, c_gt = g, c_gte = ge, c_in = i, c_not_in = n,
            c_is_null = nul, c_regex = r, c_not_regex = nr, c_set = map fst d\<rparr>)))))))))))"

definition conditions_validate :: "text_env \<Rightarrow> cond_raw \<Rightarrow> conditions res" where
  "conditions_validate T raw =
     bindR (case raw of RDict d \<Rightarrow> validate_condition_keys d | _ \<Rightarrow> Inr ()) (\<lambda>_.
     bindR (normalize_shorthand raw) (\<lambda>d.
     bindR (conditions_of T d) (\<lambda>c.
     bindR (validate_logic c) (\<lambda>_. Inr c))))"

section \<open>Binary form\<close>

datatype field_value = FScalar cond_value | FSeq "cond_value list" | FBool bool
datatype field_kind = KScalar | KSeq | KBool

definition field_kinds :: "field_kind list" where
  "field_kinds = [KScalar, KScalar, KScalar, KScalar, KScalar, KScalar, KSeq, KSeq, KBool, KScalar, KScalar]"

text \<open>The attributes in the order of \<^verbatim>\<open>ConditionFieldFlag\<close>.\<close>

definition field_values :: "conditions \<Rightarrow> field_value option list" where
  "field_values c =
     [map_option FScalar (c_eq c), map_option FScalar (c_neq c), map_option FScalar (c_lt c), map_option FScalar (c_lte c),
      map_option FScalar (c_gt c), map_option FScalar (c_gte c), map_option FSeq (c_in c), map_option FSeq (c_not_in c),
      map_option FBool (c_is_null c), map_option (FScalar \<circ> PStr) (c_regex c), map_option (FScalar \<circ> PStr) (c_not_regex c)]"

fun put_field :: "num_env \<Rightarrow> field_value \<Rightarrow> bytes res" where
  "put_field E (FScalar v) = serialize_condition_value E v"
| "put_field E (FSeq vs) = write_counted (serialize_condition_value E) vs"
| "put_field E (FBool b) = Inr (pack_bool b)"

definition conditions_serialize :: "num_env \<Rightarrow> conditions \<Rightarrow> bytes res" where
  "conditions_serialize E c =
     bindR (map_res (put_field E) (present (field_values c))) (\<lambda>chunks.
     bindR (pack_H (flags_from 0 (map (\<lambda>v. v \<noteq> None) (field_values c)))) (\<lambda>presence. Inr (presence @ concat chunks)))"

fun get_field :: "num_env \<Rightarrow> field_kind \<Rightarrow> field_value reader" where
  "get_field E KScalar = bind_reader (deserialize_condition_value E) (\<lambda>v. return_reader (FScalar v))"
| "get_field E KSeq = bind_reader (read_counted (deserialize_condition_value E)) (\<lambda>vs. return_reader (FSeq vs))"
| "get_field E KBool = bind_reader unpack_bool (\<lambda>b. return_reader (FBool b))"

fun read_fields :: "num_env \<Rightarrow> int \<Rightarrow> nat \<Rightarrow> field_kind list \<Rightarrow> field_value option list reader" where
  "read_fields E presence k [] = return_reader []"
| "read_fields E presence k (kind # kinds) =
     (if has_flag presence k
      then bind_reader (get_field E kind) (\<lambda>v. bind_reader (read_fields E presence (k + 1) kinds) (\<lambda>vs. return_reader (Some v # vs)))
      else bind_reader (read_fields E presence (k + 1) kinds) (\<lambda>vs. return_reader (None # vs)))"

fun as_input :: "field_value \<Rightarrow> cond_input" where
  "as_input (FScalar v) = CVal v"
| "as_input (FSeq vs) = CList vs"
| "as_input (FBool b) = CVal (PBool b)"

definition values_dict :: "field_value option list \<Rightarrow> (string \<times> cond_input) list" where
  "values_dict vs = concat (map (\<lambda>(k, x). case x of None \<Rightarrow> [] | Some v \<Rightarrow> [(k, as_input v)]) (zip condition_keys vs))"

definition conditions_deserialize :: "num_env \<Rightarrow> text_env \<Rightarrow> conditions reader" where
  "conditions_deserialize E T =
     bind_reader unpack_H (\<lambda>presence.
     bind_reader (read_fields E presence 0 field_kinds) (\<lambda>vs data i.
       bindR (conditions_validate T (RDict (values_dict vs))) (\<lambda>c. Inr (c, i))))"

section \<open>What validation establishes\<close>

text \<open>Validated fields pass their validators again, unchanged.\<close>

definition settled :: "text_env \<Rightarrow> conditions \<Rightarrow> bool" where
  "settled T c \<longleftrightarrow>
     (\<forall>v \<in> set (values_for_validation c). parse_datetime T v = v) \<and>
     (\<forall>vs. c_in c = Some vs \<or> c_not_in c = Some vs \<longrightarrow> validate_sequence_types vs = Inr ()) \<and>
     (\<forall>s. c_regex c = Some s \<or> c_not_regex c = Some s \<longrightarrow> validate_regex T s = Inr s)"

lemma parse_datetime_idem [simp]: "parse_datetime T (parse_datetime T v) = parse_datetime T v"
  by (auto simp: parse_datetime_def split: cond_value.splits option.splits)

lemma validate_regex_same: "validate_regex T s = Inr t \<Longrightarrow> t = s"
  by (auto simp: validate_regex_def bindR_eq_Inr split: option.splits if_splits)

lemma scalar_field_settled: "scalar_field T x = Inr (Some v) \<Longrightarrow> parse_datetime T v = v \<and> x \<noteq> None"
  by (cases "(T, x)" rule: scalar_field.cases) auto

lemma sequence_field_settled:
  "sequence_field T x = Inr (Some vs) \<Longrightarrow> map (parse_datetime T) vs = vs \<and> validate_sequence_types vs = Inr () \<and> x \<noteq> None"
  by (cases "(T, x)" rule: sequence_field.cases) (auto simp: Let_def bindR_eq_Inr)

lemma bool_field_settled: "bool_field x = Inr (Some b) \<Longrightarrow> x \<noteq> None"
  by (cases x) auto

lemma regex_field_settled: "regex_field T x = Inr (Some s) \<Longrightarrow> validate_regex T s = Inr s \<and> x \<noteq> None"
  by (cases "(T, x)" rule: regex_field.cases) (auto simp: bindR_eq_Inr dest: validate_regex_same)

lemmas field_settled = scalar_field_settled sequence_field_settled bool_field_settled regex_field_settled

lemma present_iff: "x \<in> set (present vs) \<longleftrightarrow> Some x \<in> set vs"
  by (force simp: present_def split: option.splits)

lemma conditions_of_settled:
  assumes "conditions_of T d = Inr c"
  shows "settled T c"
proof -
  from assms obtain
    a: "scalar_field T (map_of d ''eq'') = Inr (c_eq c)" "scalar_field T (map_of d ''neq'') = Inr (c_neq c)"
      "scalar_field T (map_of d ''lt'') = Inr (c_lt c)" "scalar_field T (map_of d ''lte'') = Inr (c_lte c)"
      "scalar_field T (map_of d ''gt'') = Inr (c_gt c)" "scalar_field T (map_of d ''gte'') = Inr (c_gte c)"
    and b: "sequence_field T (map_of d ''in'') = Inr (c_in c)" "sequence_field T (map_of d ''not_in'') = Inr (c_not_in c)"
    and r: "regex_field T (map_of d ''regex'') = Inr (c_regex c)" "regex_field T (map_of d ''not_regex'') = Inr (c_not_regex c)"
    by (auto simp: conditions_of_def bindR_eq_Inr)
  have seq: "parse_datetime T v = v" if "c_in c = Some vs \<or> c_not_in c = Some vs" "v \<in> set vs" for v vs
    using that b sequence_field_settled [of T _ vs] map_eq_conv [of "parse_datetime T" vs id] by auto
  have "parse_datetime T v = v" if "v \<in> set (values_for_validation c)" for v
    using that a seq scalar_field_settled [of T _ v]
    by (auto simp: values_for_validation_def present_iff split: option.splits) (metis seq)+
  with b r show ?thesis by (auto simp: settled_def dest: sequence_field_settled regex_field_settled)
qed

lemma conditions_of_keys:
  assumes "conditions_of T d = Inr c"
  shows "c_set c = map fst d" and "set (map fst (values_dict (field_values c))) \<subseteq> set (c_set c)"
proof -
  show set: "c_set c = map fst d" using assms by (auto simp: conditions_of_def bindR_eq_Inr)
  have key: "map_of d k \<noteq> None \<Longrightarrow> k \<in> set (c_set c)" for k
    by (simp add: set map_of_eq_None_iff)
  show "set (map fst (values_dict (field_values c))) \<subseteq> set (c_set c)"
    using assms by (auto simp: conditions_of_def bindR_eq_Inr values_dict_def field_values_def condition_keys_def
        split: option.splits dest!: field_settled key simp: set [unfolded list.set_map])
qed

lemma map_of_present:
  assumes "distinct ks" "length ks = length vs"
  shows "map_of (concat (map (\<lambda>(k, x). case x of None \<Rightarrow> [] | Some v \<Rightarrow> [(k, f v)]) (zip ks vs))) k =
     Option.bind (map_of (zip ks vs) k) (map_option f)"
  using assms(2,1)
proof (induction ks vs rule: list_induct2)
  case (Cons k' ks x vs)
  then have "map_of (zip ks vs) k' = None" by (auto simp: map_of_eq_None_iff dest: set_zip_leftD)
  with Cons.IH Cons.prems show ?case by (cases "k = k'"; cases x) simp_all
qed simp

lemma values_dict_lookup:
  "map_of (values_dict (field_values c)) k = Option.bind (map_of (zip condition_keys (field_values c)) k) (map_option as_input)"
  unfolding values_dict_def by (rule map_of_present) (simp_all add: condition_keys_def field_values_def)

lemma conditions_of_values:
  assumes "settled T c"
  shows "conditions_of T (values_dict (field_values c)) = Inr (c\<lparr>c_set := map fst (values_dict (field_values c))\<rparr>)"
proof -
  have scalar: "scalar_field T (map_option (as_input \<circ> FScalar) x) = Inr x"
    if "x \<in> {c_eq c, c_neq c, c_lt c, c_lte c, c_gt c, c_gte c}" for x
    using assms that by (cases x) (auto simp: settled_def values_for_validation_def present_iff)
  have seq: "sequence_field T (map_option (as_input \<circ> FSeq) x) = Inr x" if "x \<in> {c_in c, c_not_in c}" for x
  proof (cases x)
    case (Some vs)
    with assms that have "\<forall>v \<in> set vs. parse_datetime T v = v" "validate_sequence_types vs = Inr ()"
      by (auto simp: settled_def values_for_validation_def)
    with Some show ?thesis by (simp add: map_idI)
  qed simp
  have regex: "regex_field T (map_option (as_input \<circ> (FScalar \<circ> PStr)) x) = Inr x" if "x \<in> {c_regex c, c_not_regex c}" for x
    using assms that by (cases x) (auto simp: settled_def)
  have bool: "bool_field (map_option (as_input \<circ> FBool) x) = Inr x" for x
    by (cases x) simp_all
  have at: "map_of (zip condition_keys (field_values c)) = map_of (zip condition_keys
      [map_option FScalar (c_eq c), map_option FScalar (c_neq c), map_option FScalar (c_lt c), map_option FScalar (c_lte c),
       map_option FScalar (c_gt c), map_option FScalar (c_gte c), map_option FSeq (c_in c), map_option FSeq (c_not_in c),
       map_option FBool (c_is_null c), map_option (FScalar \<circ> PStr) (c_regex c), map_option (FScalar \<circ> PStr) (c_not_regex c)])"
    by (simp only: field_values_def)
  show ?thesis
    unfolding conditions_of_def values_dict_lookup at
    by (simp add: condition_keys_def option.map_comp scalar seq regex bool)
qed

lemma validate_logic_set:
  assumes "validate_logic c = Inr ()" "c_is_null c = Some True \<Longrightarrow> length s \<le> 1"
  shows "validate_logic (c\<lparr>c_set := s\<rparr>) = Inr ()"
proof -
  have "some_condition (c\<lparr>c_set := s\<rparr>) = some_condition c" by (simp add: some_condition_def)
  moreover have "values_for_validation (c\<lparr>c_set := s\<rparr>) = values_for_validation c" by (simp add: values_for_validation_def)
  moreover have "validate_equality (c\<lparr>c_set := s\<rparr>) = validate_equality c"
    by (cases "c_eq c") (simp_all add: validate_equality_def)
  ultimately show ?thesis using assms by (auto simp: validate_logic_def bindR_eq_Inr)
qed

definition written :: "conditions \<Rightarrow> conditions" where
  "written c = c\<lparr>c_set := map fst (values_dict (field_values c))\<rparr>"

lemma distinct_values_dict: "distinct (map fst (values_dict (field_values c)))"
proof -
  have "map fst (concat (map (\<lambda>(k, x). case x of None \<Rightarrow> [] | Some v \<Rightarrow> [(k, f v)]) xs)) = map fst (filter (\<lambda>(k, x). x \<noteq> None) xs)"
    for f :: "field_value \<Rightarrow> cond_input" and xs :: "(string \<times> field_value option) list"
    by (induction xs) (auto split: option.splits)
  moreover have "distinct (map fst (zip condition_keys (field_values c)))"
    by (simp add: condition_keys_def field_values_def)
  ultimately show ?thesis by (simp only: values_dict_def distinct_map_filter)
qed

lemma conditions_revalidate:
  assumes "conditions_validate T raw = Inr c"
  shows "conditions_validate T (RDict (values_dict (field_values c))) = Inr (written c)"
proof -
  from assms obtain d where d: "conditions_of T d = Inr c" "validate_logic c = Inr ()"
    by (auto simp: conditions_validate_def bindR_eq_Inr)
  let ?names = "map fst (values_dict (field_values c))"
  have "validate_logic (written c) = Inr ()"
    unfolding written_def
  proof (rule validate_logic_set [OF d(2)])
    assume "c_is_null c = Some True"
    with d(2) have "length (c_set c) \<le> 1" by (auto simp: validate_logic_def bindR_eq_Inr)
    moreover have "length ?names = card (set ?names)" using distinct_card [OF distinct_values_dict] by simp
    moreover have "card (set ?names) \<le> card (set (c_set c))"
      by (rule card_mono) (use conditions_of_keys(2) [OF d(1)] in auto)
    ultimately show "length ?names \<le> 1" using card_length [of "c_set c"] by simp
  qed
  moreover have "set ?names \<subseteq> set condition_keys"
    by (auto simp: values_dict_def split: option.splits dest: set_zip_leftD)
  ultimately show ?thesis
    using conditions_of_values [OF conditions_of_settled [OF d(1)]]
    by (simp add: conditions_validate_def validate_condition_keys_def normalize_shorthand_def written_def)
qed

section \<open>Round trip\<close>

fun of_kind :: "field_kind \<Rightarrow> field_value \<Rightarrow> bool" where
  "of_kind KScalar (FScalar v) \<longleftrightarrow> value_ok v"
| "of_kind KSeq (FSeq vs) \<longleftrightarrow> list_all value_ok vs"
| "of_kind KBool (FBool b) \<longleftrightarrow> True"
| "of_kind _ _ \<longleftrightarrow> False"

lemma field_round_trip:
  assumes "num_laws E" "of_kind kind v" "put_field E v = Inr bs"
  shows "reads (get_field E kind) bs v"
  using assms
  by (cases "(kind, v)" rule: of_kind.cases)
    (auto simp: list_all_iff intro!: reads_bind_last value_codec.round_trip value_codec.counted reads_unpack_bool)

lemma fields_round_trip:
  assumes "num_laws E" "length kinds = length vs" "list_all2 (\<lambda>kind x. \<forall>v. x = Some v \<longrightarrow> of_kind kind v) kinds vs"
    and "\<And>j. j < length vs \<Longrightarrow> has_flag presence (k + j) = (vs ! j \<noteq> None)"
    and "map_res (put_field E) (present vs) = Inr chunks"
  shows "reads (read_fields E presence k kinds) (concat chunks) vs"
  using assms(2-)
proof (induction kinds vs arbitrary: k chunks rule: list_induct2)
  case Nil
  then show ?case by (auto simp: present_def)
next
  case (Cons kind kinds x vs)
  have flags: "has_flag presence (k + 1 + j) = (vs ! j \<noteq> None)" if "j < length vs" for j
    using Cons.prems(2) [of "Suc j"] that by simp
  have head: "has_flag presence k = (x \<noteq> None)" using Cons.prems(2) [of 0] by simp
  have kinds: "list_all2 (\<lambda>kind x. \<forall>v. x = Some v \<longrightarrow> of_kind kind v) kinds vs" using Cons.prems(1) by simp
  show ?case
  proof (cases x)
    case None
    then have "map_res (put_field E) (present vs) = Inr chunks" using Cons.prems(3) by (simp add: present_def)
    with Cons.IH [where k = "k + 1", OF kinds flags] None head show ?thesis by (auto intro!: reads_bind_last)
  next
    case (Some v)
    then obtain b cs where c: "put_field E v = Inr b" "map_res (put_field E) (present vs) = Inr cs" "chunks = b # cs"
      using Cons.prems(3) by (auto simp: present_def bindR_eq_Inr)
    have "reads (get_field E kind) b v" using field_round_trip [OF assms(1) _ c(1)] Cons.prems(1) Some by simp
    moreover have "reads (bind_reader (read_fields E presence (k + 1) kinds) (\<lambda>vs. return_reader (Some v # vs))) (concat cs) (Some v # vs)"
      by (rule reads_bind_last [OF Cons.IH [where k = "k + 1", OF kinds flags c(2)] reads_return])
    ultimately show ?thesis using Some head c(3) by (auto intro!: reads_bind)
  qed
qed

lemma conditions_round_trip:
  assumes "num_laws E" "conditions_validate T raw = Inr c" "\<forall>v \<in> set (values_for_validation c). value_ok v"
    and "conditions_serialize E c = Inr bs"
  shows "reads (conditions_deserialize E T) bs (written c)"
proof -
  let ?vs = "field_values c"
  obtain chunks p where s: "map_res (put_field E) (present ?vs) = Inr chunks"
      "pack_H (flags_from 0 (map (\<lambda>v. v \<noteq> None) ?vs)) = Inr p" "bs = p @ concat chunks"
    using assms(4) by (auto simp: conditions_serialize_def bindR_eq_Inr)
  have len: "length field_kinds = length ?vs" by (simp add: field_kinds_def field_values_def)
  have kinds: "list_all2 (\<lambda>kind x. \<forall>v. x = Some v \<longrightarrow> of_kind kind v) field_kinds ?vs"
    using assms(3) by (auto simp: field_kinds_def field_values_def values_for_validation_def present_iff list_all_iff)
  have "reads (read_fields E (flags_from 0 (map (\<lambda>v. v \<noteq> None) ?vs)) 0 field_kinds) (concat chunks) ?vs"
    by (rule fields_round_trip [OF assms(1) len kinds _ s(1)]) (simp add: has_flag_flags)
  moreover have "reads (\<lambda>data i. bindR (conditions_validate T (RDict (values_dict ?vs))) (\<lambda>c. Inr (c, i))) [] (written c)"
    by (simp add: reads_def conditions_revalidate [OF assms(2)])
  ultimately show ?thesis
    unfolding conditions_deserialize_def s(3)
    by (intro reads_bind [OF reads_unpack_H [OF s(2)]] reads_bind_last)
qed

end
