(* ===== verification/Search_Schema.thy ===== *)
theory Search_Schema
  imports Search_Conditions
begin

text \<open>
  A search query and its binary form (\<^verbatim>\<open>src/app/search/datastructures\<close>, \<^verbatim>\<open>src/app/search/enums\<close> and
  \<^verbatim>\<open>src/app/search/mappings.py\<close>): scopes, searchable fields, sorting, weights, terms, filters.
\<close>

section \<open>Enumerations\<close>

datatype scope = BEATMAPS | BEATMAPSETS | SCORES | QUEUES | REQUESTS

definition scope_ids :: "(scope \<times> int) list" where
  "scope_ids = [(BEATMAPS, 1), (BEATMAPSETS, 2), (REQUESTS, 4), (QUEUES, 5)]"

definition scope_id :: "scope \<Rightarrow> int res" where
  "scope_id s = (case map_of scope_ids s of Some n \<Rightarrow> Inr n | None \<Rightarrow> Inl (PyExc ''ValueError''))"

definition scope_of_id :: "int \<Rightarrow> scope res" where
  "scope_of_id n = (case find (\<lambda>(_, m). m = n) scope_ids of Some (s, _) \<Rightarrow> Inr s | None \<Rightarrow> Inl (PyExc ''ValueError''))"

datatype model_class = PROFILE | BEATMAP_SNAPSHOT | BEATMAPSET_SNAPSHOT | QUEUE | REQUEST

text \<open>The members of \<^verbatim>\<open>ModelField\<close> in their order; the value of a member is its model and public field name.\<close>

record model_field =
  mf_class :: model_class
  mf_field :: string

definition profile_fields :: "string list" where
  "profile_fields =
    [''avatar_url'', ''username'', ''country_code'', ''graveyard_beatmapset_count'', ''loved_beatmapset_count'', ''pending_beatmapset_count'',
     ''ranked_beatmapset_count'', ''is_restricted'', ''total_maps'', ''total_kudosu'']"

definition beatmap_snapshot_fields :: "string list" where
  "beatmap_snapshot_fields =
    [''beatmap_id'', ''user_id'', ''accuracy'', ''ar'', ''bpm'', ''checksum'', ''count_circles'', ''count_sliders'', ''count_spinners'', ''cs'',
     ''deleted_at'', ''difficulty_rating'', ''drain'', ''hit_length'', ''is_scoreable'', ''last_updated'', ''max_combo'', ''mode'', ''mode_int'',
     ''passcount'', ''playcount'', ''ranked'', ''status'', ''total_length'', ''url'', ''version'']"

definition beatmapset_snapshot_fields :: "string list" where
  "beatmapset_snapshot_fields =
    [''beatmapset_id'', ''user_id'', ''artist'', ''artist_unicode'', ''bpm'', ''can_be_hyped'', ''creator'', ''deleted_at'', ''discussion_enabled'',
     ''discussion_locked'', ''favourite_count'', ''is_scoreable'', ''last_updated'', ''legacy_thread_url'', ''nsfw'', ''offset'', ''play_count'',
     ''preview_url'', ''ranked'', ''rating'', ''source'', ''spotlight'', ''status'', ''submitted_date'', ''tags'', ''title'', ''title_unicode'',
     ''track_id'', ''video'', ''availability_download_disabled'', ''availability_more_information'', ''description_description'', ''genre_id'',
     ''genre_name'', ''hype_current'', ''hype_required'', ''language_id'', ''language_name'', ''nominations_summary_current'',
     ''nominations_summary_required_meta_main_ruleset'', ''nominations_summary_required_meta_non_main_ruleset'', ''num_difficulties'',
     ''sr_gaps_min'', ''sr_gaps_max'', ''sr_gaps_avg'', ''hit_lengths_min'', ''hit_lengths_max'', ''hit_lengths_avg'']"

definition queue_fields :: "string list" where
  "queue_fields =
    [''user_id'', ''name'', ''description'', ''created_at'', ''updated_at'', ''is_open'', ''visibility'']"

definition request_fields :: "string list" where
  "request_fields =
    [''user_id'', ''beatmapset_id'', ''queue_id'', ''comment'', ''mv_checked'', ''created_at'', ''updated_at'', ''status'']"

definition fields_of :: "model_class \<Rightarrow> string list \<Rightarrow> model_field list" where
  "fields_of m = map (\<lambda>f. \<lparr>mf_class = m, mf_field = f\<rparr>)"

definition model_fields :: "model_field list" where
  "model_fields = fields_of PROFILE profile_fields @ fields_of BEATMAP_SNAPSHOT beatmap_snapshot_fields @
     fields_of BEATMAPSET_SNAPSHOT beatmapset_snapshot_fields @ fields_of QUEUE queue_fields @ fields_of REQUEST request_fields"

definition mf_alias :: "model_field \<Rightarrow> string option" where
  "mf_alias f = (if f = \<lparr>mf_class = BEATMAPSET_SNAPSHOT, mf_field = ''description_description''\<rparr> then Some ''description'' else None)"

text \<open>\<^verbatim>\<open>ModelFieldId[field.name]\<close>, counted from one, and its inverse.\<close>

fun position :: "'a \<Rightarrow> 'a list \<Rightarrow> nat option" where
  "position x [] = None"
| "position x (y # ys) = (if y = x then Some 0 else map_option Suc (position x ys))"

definition model_field_id :: "model_field \<Rightarrow> int res" where
  "model_field_id f = (case position f model_fields of Some i \<Rightarrow> Inr (int i + 1) | None \<Rightarrow> Inl (PyExc ''KeyError''))"

definition model_field_of_id :: "int \<Rightarrow> model_field res" where
  "model_field_of_id n =
     (if 1 \<le> n \<and> n \<le> int (length model_fields) then Inr (model_fields ! nat (n - 1)) else Inl (PyExc ''ValueError''))"

text \<open>
  \<^verbatim>\<open>ModelField.from_model_field_name\<close> compares its first argument with \<^verbatim>\<open>is\<close>, so that the name of a category
  matches no member.
\<close>

datatype class_arg = ClassArg model_class | NameArg string

definition from_model_field_name :: "class_arg \<Rightarrow> string \<Rightarrow> model_field res" where
  "from_model_field_name m name =
     (case find (\<lambda>f. m = ClassArg (mf_class f) \<and> (name = mf_field f \<or> mf_alias f = Some name)) model_fields of
        Some f \<Rightarrow> Inr f
      | None \<Rightarrow> Inl (PyExc ''ValueError''))"

lemma position_nth: "x \<in> set xs \<Longrightarrow> \<exists>i. position x xs = Some i \<and> i < length xs \<and> xs ! i = x"
  by (induction xs) auto

lemma model_fields_length: "length model_fields = 99"
  by (simp add: model_fields_def fields_of_def profile_fields_def beatmap_snapshot_fields_def beatmapset_snapshot_fields_def
      queue_fields_def request_fields_def)

lemma model_field_id_round_trip:
  assumes "f \<in> set model_fields"
  shows "\<exists>n. model_field_id f = Inr n \<and> 1 \<le> n \<and> n \<le> 99 \<and> model_field_of_id n = Inr f"
  using position_nth [OF assms]
  by (auto simp: model_field_id_def model_field_of_id_def model_fields_length)

lemma scope_id_round_trip: "scope_id s = Inr n \<Longrightarrow> scope_of_id n = Inr s \<and> 0 \<le> n \<and> n \<le> 255"
  by (cases s) (auto simp: scope_id_def scope_of_id_def scope_ids_def)

section \<open>Sorting\<close>

datatype sorting_order = ASCENDING | DESCENDING

record sorting_option =
  so_field :: model_field
  so_order :: "sorting_order option"

definition sorting_order_id :: "sorting_order \<Rightarrow> int" where
  "sorting_order_id s = (case s of ASCENDING \<Rightarrow> 1 | DESCENDING \<Rightarrow> 2)"

definition sorting_order_of_id :: "int \<Rightarrow> sorting_order res" where
  "sorting_order_of_id n = (if n = 1 then Inr ASCENDING else if n = 2 then Inr DESCENDING else Inl (PyExc ''ValueError''))"

definition sorting_option_serialize :: "sorting_option \<Rightarrow> bytes res" where
  "sorting_option_serialize s =
     bindR (model_field_id (so_field s)) (\<lambda>field_id.
     case so_order s of
       None \<Rightarrow> Inl (PyExc ''AttributeError'')
     | Some dir \<Rightarrow> bindR (pack_B field_id) (\<lambda>a. bindR (pack_B (sorting_order_id dir)) (\<lambda>b. Inr (a @ b))))"

definition sorting_option_deserialize :: "sorting_option reader" where
  "sorting_option_deserialize =
     bind_reader unpack_B (\<lambda>field_id. bind_reader unpack_B (\<lambda>order_id data i.
       bindR (model_field_of_id field_id) (\<lambda>field.
       bindR (sorting_order_of_id order_id) (\<lambda>dir. Inr (\<lparr>so_field = field, so_order = Some dir\<rparr>, i)))))"

definition sorting_serialize :: "sorting_option list \<Rightarrow> bytes res" where
  "sorting_serialize = write_counted sorting_option_serialize"

definition sorting_deserialize :: "sorting_option list reader" where
  "sorting_deserialize = read_counted sorting_option_deserialize"

interpretation sorting_codec: codec sorting_option_serialize sorting_option_deserialize "\<lambda>s. so_field s \<in> set model_fields"
proof unfold_locales
  fix s bs
  assume known: "so_field s \<in> set model_fields" and put: "sorting_option_serialize s = Inr bs"
  obtain n where n: "model_field_id (so_field s) = Inr n" "1 \<le> n" "n \<le> 99" "model_field_of_id n = Inr (so_field s)"
    using model_field_id_round_trip [OF known] by blast
  obtain w a b where w: "so_order s = Some w" "pack_B n = Inr a" "pack_B (sorting_order_id w) = Inr b" "bs = a @ b"
    using put n(1) by (auto simp: sorting_option_serialize_def bindR_eq_Inr split: option.splits)
  have "sorting_order_of_id (sorting_order_id w) = Inr w" by (cases w) (simp_all add: sorting_order_id_def sorting_order_of_id_def)
  moreover have "s = \<lparr>so_field = so_field s, so_order = Some w\<rparr>" using w(1) by (cases s) simp
  ultimately have "reads (\<lambda>data i. bindR (model_field_of_id n) (\<lambda>field.
      bindR (sorting_order_of_id (sorting_order_id w)) (\<lambda>dir. Inr (\<lparr>so_field = field, so_order = Some dir\<rparr>, i)))) [] s"
    by (simp add: reads_def n(4))
  then show "reads sorting_option_deserialize bs s"
    unfolding sorting_option_deserialize_def w(4)
    by (intro reads_bind [OF reads_unpack_B [OF w(2)]] reads_bind_last [OF reads_unpack_B [OF w(3)]])
qed

section \<open>Differences from the defaults\<close>

text \<open>
  Multipliers and weights are written alike: a flag for each number that differs from its default, a
  second flag for each explicit \<^verbatim>\<open>None\<close>, and the numbers as signed bytes. \<open>used\<close> says which fields are written.
\<close>

definition changed :: "bool list \<Rightarrow> int option list \<Rightarrow> int option list \<Rightarrow> bool list" where
  "changed used defaults vs = map2 (\<lambda>u (d, v). u \<and> v \<noteq> d \<and> v \<noteq> None) used (zip defaults vs)"

definition nulled :: "bool list \<Rightarrow> int option list \<Rightarrow> int option list \<Rightarrow> bool list" where
  "nulled used defaults vs = map2 (\<lambda>u (d, v). u \<and> v \<noteq> d \<and> v = None) used (zip defaults vs)"

fun put_changes :: "bool list \<Rightarrow> int option list \<Rightarrow> int option list \<Rightarrow> bytes res" where
  "put_changes (u # us) (d # ds) (v # vs) =
     bindR (if u \<and> v \<noteq> d then (case v of Some n \<Rightarrow> pack_b n | None \<Rightarrow> Inr []) else Inr []) (\<lambda>b.
     bindR (put_changes us ds vs) (\<lambda>bs. Inr (b @ bs)))"
| "put_changes _ _ _ = Inr []"

fun read_changes :: "int \<Rightarrow> int \<Rightarrow> nat \<Rightarrow> int option list \<Rightarrow> int option list reader" where
  "read_changes presence nulls k [] = return_reader []"
| "read_changes presence nulls k (d # ds) =
     (if has_flag presence k
      then bind_reader unpack_b (\<lambda>n. bind_reader (read_changes presence nulls (k + 1) ds) (\<lambda>vs. return_reader (Some n # vs)))
      else bind_reader (read_changes presence nulls (k + 1) ds)
             (\<lambda>vs. return_reader ((if has_flag nulls k then None else d) # vs)))"

text \<open>What is read back: fields that are not written have their defaults.\<close>

definition kept :: "bool list \<Rightarrow> int option list \<Rightarrow> int option list \<Rightarrow> int option list" where
  "kept used defaults vs = map2 (\<lambda>u (d, v). if u then v else d) used (zip defaults vs)"

lemma changes_round_trip:
  assumes "length used = length defaults" "length defaults = length vs" "put_changes used defaults vs = Inr bs"
    and "\<And>j. j < length vs \<Longrightarrow> has_flag presence (k + j) = changed used defaults vs ! j"
    and "\<And>j. j < length vs \<Longrightarrow> has_flag nulls (k + j) = nulled used defaults vs ! j"
  shows "reads (read_changes presence nulls k defaults) bs (kept used defaults vs)"
  using assms
proof (induction used defaults vs arbitrary: k bs rule: list_induct3)
  case Nil
  then show ?case by (auto simp: kept_def)
next
  case (Cons u us d ds v vs)
  have flags: "has_flag presence (k + 1 + j) = changed us ds vs ! j" "has_flag nulls (k + 1 + j) = nulled us ds vs ! j"
    if "j < length vs" for j
    using Cons.prems(2,3) [of "Suc j"] that by (simp_all add: changed_def nulled_def)
  have head: "has_flag presence k = (u \<and> v \<noteq> d \<and> v \<noteq> None)" "has_flag nulls k = (u \<and> v \<noteq> d \<and> v = None)"
    using Cons.prems(2,3) [of 0] by (simp_all add: changed_def nulled_def)
  obtain b rest where b: "(if u \<and> v \<noteq> d then (case v of Some n \<Rightarrow> pack_b n | None \<Rightarrow> Inr []) else Inr []) = Inr b"
      "put_changes us ds vs = Inr rest" "bs = b @ rest"
    using Cons.prems(1) by (auto simp: bindR_eq_Inr)
  have tail: "reads (bind_reader (read_changes presence nulls (k + 1) ds) (\<lambda>vs. return_reader (x # vs))) rest (x # kept us ds vs)" for x
    by (rule reads_bind_last [OF Cons.IH [OF b(2) flags] reads_return])
  have kept: "kept (u # us) (d # ds) (v # vs) = (if u then v else d) # kept us ds vs" by (simp add: kept_def)
  show ?case
  proof (cases "has_flag presence k")
    case True
    with head obtain n where n: "v = Some n" "u" "v \<noteq> d" by auto
    with b(1) have "pack_b n = Inr b" by simp
    from reads_bind [OF reads_unpack_b [OF this] tail] True n kept b(3) show ?thesis by simp
  next
    case False
    with head b(1) have "b = []" by (auto split: option.splits if_splits)
    moreover have "(if has_flag nulls k then None else d) = (if u then v else d)" using False head by auto
    ultimately show ?thesis using False tail [of "if u then v else d"] kept b(3) by simp
  qed
qed

lemma changed_length [simp]: "length used = length ds \<Longrightarrow> length ds = length vs \<Longrightarrow> length (changed used ds vs) = length vs"
  "length used = length ds \<Longrightarrow> length ds = length vs \<Longrightarrow> length (nulled used ds vs) = length vs"
  by (simp_all add: changed_def nulled_def)

section \<open>Pattern multipliers\<close>

record pattern_multipliers =
  exact :: "int option"
  prefix :: "int option"
  suffix :: "int option"
  substring :: "int option"

definition multiplier_defaults :: "int option list" where
  "multiplier_defaults = [Some 5, Some 4, Some 3, Some 2]"

definition multipliers :: "pattern_multipliers \<Rightarrow> int option list" where
  "multipliers p = [exact p, prefix p, suffix p, substring p]"

definition signed_byte :: "int option \<Rightarrow> bool" where
  "signed_byte v = (case v of None \<Rightarrow> True | Some n \<Rightarrow> -128 \<le> n \<and> n \<le> 127)"

text \<open>The constructor, with the validator \<^verbatim>\<open>at_least_one_not_null\<close>.\<close>

definition pattern_multipliers_of :: "int option list \<Rightarrow> pattern_multipliers res" where
  "pattern_multipliers_of vs =
     bindR (guardR (list_all signed_byte vs) invalid) (\<lambda>_.
     bindR (guardR (\<exists>v \<in> set vs. v \<noteq> None) (PyExc ''AllValuesNullError'')) (\<lambda>_.
       Inr \<lparr>exact = vs ! 0, prefix = vs ! 1, suffix = vs ! 2, substring = vs ! 3\<rparr>))"

text \<open>\<^verbatim>\<open>get_patterns\<close>: the \<^verbatim>\<open>LIKE\<close> patterns of a term with their multipliers.\<close>

definition get_patterns :: "pattern_multipliers \<Rightarrow> pystr \<Rightarrow> (string \<times> pystr \<times> int option) list" where
  "get_patterns p needle =
     [(''exact'', needle, exact p), (''prefix'', needle @ codes ''%'', prefix p), (''suffix'', codes ''%'' @ needle, suffix p),
      (''substring'', codes ''%'' @ needle @ codes ''%'', substring p)]"

definition pattern_serialize :: "pattern_multipliers \<Rightarrow> bytes res" where
  "pattern_serialize p =
     (let used = [True, True, True, True]; vs = multipliers p in
      bindR (put_changes used multiplier_defaults vs) (\<lambda>chunks.
      bindR (pack_B (flags_from 0 (changed used multiplier_defaults vs))) (\<lambda>presence.
      bindR (pack_B (flags_from 0 (nulled used multiplier_defaults vs))) (\<lambda>nulls.
        Inr (presence @ nulls @ chunks)))))"

definition pattern_deserialize :: "pattern_multipliers reader" where
  "pattern_deserialize =
     bind_reader unpack_B (\<lambda>presence. bind_reader unpack_B (\<lambda>nulls.
     bind_reader (read_changes presence nulls 0 multiplier_defaults) (\<lambda>vs data i.
       bindR (pattern_multipliers_of vs) (\<lambda>p. Inr (p, i)))))"

definition pattern_ok :: "pattern_multipliers \<Rightarrow> bool" where
  "pattern_ok p \<longleftrightarrow> pattern_multipliers_of (multipliers p) = Inr p"

interpretation pattern_codec: codec pattern_serialize pattern_deserialize pattern_ok
proof unfold_locales
  fix p bs
  assume ok: "pattern_ok p" and put: "pattern_serialize p = Inr bs"
  let ?used = "[True, True, True, True]" and ?vs = "multipliers p"
  obtain chunks a b where s: "put_changes ?used multiplier_defaults ?vs = Inr chunks"
      "pack_B (flags_from 0 (changed ?used multiplier_defaults ?vs)) = Inr a"
      "pack_B (flags_from 0 (nulled ?used multiplier_defaults ?vs)) = Inr b" "bs = a @ b @ chunks"
    using put by (auto simp: pattern_serialize_def Let_def bindR_eq_Inr)
  have len: "length ?used = length multiplier_defaults" "length multiplier_defaults = length ?vs"
    by (simp_all add: multiplier_defaults_def multipliers_def)
  have "reads (read_changes (flags_from 0 (changed ?used multiplier_defaults ?vs)) (flags_from 0 (nulled ?used multiplier_defaults ?vs))
      0 multiplier_defaults) chunks (kept ?used multiplier_defaults ?vs)"
    by (rule changes_round_trip [OF len s(1)]) (simp_all add: has_flag_flags changed_length [OF len])
  moreover have "kept ?used multiplier_defaults ?vs = ?vs" by (simp add: kept_def multiplier_defaults_def multipliers_def)
  moreover have "reads (\<lambda>data i. bindR (pattern_multipliers_of ?vs) (\<lambda>p. Inr (p, i))) [] p"
    using ok by (simp add: reads_def pattern_ok_def)
  ultimately show "reads pattern_deserialize bs p"
    unfolding pattern_deserialize_def s(4)
    by (intro reads_bind [OF reads_unpack_B [OF s(2)]] reads_bind [OF reads_unpack_B [OF s(3)]] reads_bind_last) simp_all
qed

section \<open>Field weights\<close>

record beatmap_weights =
  w_version :: "int option"

record beatmapset_weights =
  w_title :: "int option"
  w_title_unicode :: "int option"
  w_artist :: "int option"
  w_artist_unicode :: "int option"
  w_creator :: "int option"
  w_source :: "int option"
  w_tags :: "int option"
  w_description :: "int option"

record queue_weights =
  w_name :: "int option"
  w_queue_description :: "int option"

record request_weights =
  w_comment :: "int option"

record field_weights =
  w_beatmap :: beatmap_weights
  w_beatmapset :: beatmapset_weights
  w_queue :: queue_weights
  w_request :: request_weights

definition weights :: "field_weights \<Rightarrow> int option list" where
  "weights w =
     (let b = w_beatmapset w in
      [w_version (w_beatmap w), w_title b, w_title_unicode b, w_artist b, w_artist_unicode b, w_creator b, w_source b, w_tags b,
       w_description b, w_name (w_queue w), w_queue_description (w_queue w), w_comment (w_request w)])"

definition weight_defaults :: "int option list" where
  "weight_defaults = map Some [2, 5, 5, 4, 4, 3, 2, 1, 0, 6, 0, 0]"

definition field_weights_of :: "int option list \<Rightarrow> field_weights res" where
  "field_weights_of vs =
     bindR (guardR (list_all signed_byte vs) invalid) (\<lambda>_. Inr
       \<lparr>w_beatmap = \<lparr>w_version = vs ! 0\<rparr>,
        w_beatmapset = \<lparr>w_title = vs ! 1, w_title_unicode = vs ! 2, w_artist = vs ! 3, w_artist_unicode = vs ! 4, w_creator = vs ! 5,
                        w_source = vs ! 6, w_tags = vs ! 7, w_description = vs ! 8\<rparr>,
        w_queue = \<lparr>w_name = vs ! 9, w_queue_description = vs ! 10\<rparr>,
        w_request = \<lparr>w_comment = vs ! 11\<rparr>\<rparr>)"

text \<open>
  Which of the twelve fields belong to a category of the scope, from \<^verbatim>\<open>SCOPE_CATEGORIES_MAPPING\<close>. For scores
  the mapping holds an ellipsis, in which nothing can be looked up.
\<close>

definition scope_fields :: "scope \<Rightarrow> bool list res" where
  "scope_fields s =
     (let beatmaps = replicate 9 True in
      case s of
        SCORES \<Rightarrow> Inl (PyExc ''TypeError'')
      | QUEUES \<Rightarrow> Inr (beatmaps @ [True, True, True])
      | REQUESTS \<Rightarrow> Inr (beatmaps @ [False, False, True])
      | _ \<Rightarrow> Inr (beatmaps @ [False, False, False]))"

definition weights_validate_against_scope :: "scope \<Rightarrow> field_weights \<Rightarrow> unit res" where
  "weights_validate_against_scope s w =
     bindR (scope_fields s) (\<lambda>used.
       guardR (\<exists>(u, v) \<in> set (zip used (weights w)). u \<and> v \<noteq> None) (PyExc ''AllValuesNullError''))"

definition weights_serialize :: "scope \<Rightarrow> field_weights \<Rightarrow> bytes res" where
  "weights_serialize s w =
     bindR (scope_fields s) (\<lambda>used.
     bindR (put_changes used weight_defaults (weights w)) (\<lambda>chunks.
     bindR (pack_H (flags_from 0 (changed used weight_defaults (weights w)))) (\<lambda>presence.
     bindR (pack_H (flags_from 0 (nulled used weight_defaults (weights w)))) (\<lambda>nulls.
       Inr (presence @ nulls @ chunks)))))"

definition weights_deserialize :: "field_weights reader" where
  "weights_deserialize =
     bind_reader unpack_H (\<lambda>presence. bind_reader unpack_H (\<lambda>nulls.
     bind_reader (read_changes presence nulls 0 weight_defaults) (\<lambda>vs data i.
       bindR (field_weights_of vs) (\<lambda>w. Inr (w, i)))))"

definition weights_ok :: "field_weights \<Rightarrow> bool" where
  "weights_ok w \<longleftrightarrow> field_weights_of (weights w) = Inr w"

text \<open>The weights a query keeps: the scope's own, and the defaults elsewhere.\<close>

definition weights_kept :: "scope \<Rightarrow> field_weights \<Rightarrow> field_weights" where
  "weights_kept s w =
     (case scope_fields s of
        Inl _ \<Rightarrow> w
      | Inr used \<Rightarrow> (case field_weights_of (kept used weight_defaults (weights w)) of Inr w' \<Rightarrow> w' | Inl _ \<Rightarrow> w))"

lemma scope_fields_length: "scope_fields s = Inr used \<Longrightarrow> length used = 12"
  by (cases s) (auto simp: scope_fields_def Let_def)

lemma weights_length [simp]: "length (weights w) = 12" "length weight_defaults = 12"
  by (simp_all add: weights_def weight_defaults_def Let_def)

lemma weights_of_weights: "field_weights_of vs = Inr w \<Longrightarrow> length vs = 12 \<Longrightarrow> weights w = vs"
  by (auto simp: field_weights_of_def weights_def Let_def bindR_eq_Inr numeral_eq_Suc length_Suc_conv)

lemma kept_signed: "length used = 12 \<Longrightarrow> weights_ok w \<Longrightarrow> list_all signed_byte (kept used weight_defaults (weights w))"
proof -
  assume len: "length used = 12" and ok: "weights_ok w"
  have def: "list_all signed_byte weight_defaults" by (simp add: weight_defaults_def signed_byte_def)
  have vs: "list_all signed_byte (weights w)" using ok by (simp add: weights_ok_def field_weights_of_def bindR_eq_Inr)
  show ?thesis
    using def vs len by (auto simp: list_all_length kept_def)
qed

lemma weights_round_trip:
  assumes "weights_ok w" "weights_serialize s w = Inr bs"
  shows "reads weights_deserialize bs (weights_kept s w)" "weights_ok (weights_kept s w)"
proof -
  obtain used chunks a b where s: "scope_fields s = Inr used" "put_changes used weight_defaults (weights w) = Inr chunks"
      "pack_H (flags_from 0 (changed used weight_defaults (weights w))) = Inr a"
      "pack_H (flags_from 0 (nulled used weight_defaults (weights w))) = Inr b" "bs = a @ b @ chunks"
    using assms(2) by (auto simp: weights_serialize_def bindR_eq_Inr)
  let ?kept = "kept used weight_defaults (weights w)"
  have len: "length used = length weight_defaults" "length weight_defaults = length (weights w)"
    using scope_fields_length [OF s(1)] by simp_all
  obtain w' where w': "field_weights_of ?kept = Inr w'"
    using kept_signed [OF _ assms(1)] len by (simp add: field_weights_of_def)
  then have kept: "weights_kept s w = w'" by (simp add: weights_kept_def s(1))
  have "weights w' = ?kept" by (rule weights_of_weights [OF w']) (use len in \<open>simp add: kept_def\<close>)
  with w' kept show "weights_ok (weights_kept s w)" by (simp add: weights_ok_def)
  have "reads (read_changes (flags_from 0 (changed used weight_defaults (weights w))) (flags_from 0 (nulled used weight_defaults (weights w)))
      0 weight_defaults) chunks ?kept"
    by (rule changes_round_trip [OF len s(2)]) (simp_all add: has_flag_flags changed_length [OF len])
  moreover have "reads (\<lambda>data i. bindR (field_weights_of ?kept) (\<lambda>w. Inr (w, i))) [] w'"
    by (simp add: reads_def w')
  ultimately show "reads weights_deserialize bs (weights_kept s w)"
    unfolding weights_deserialize_def s(5) kept
    by (intro reads_bind [OF reads_unpack_H [OF s(3)]] reads_bind [OF reads_unpack_H [OF s(4)]] reads_bind_last) simp_all
qed

section \<open>Search terms\<close>

record search_terms =
  st_terms :: "pystr list"
  st_case_sensitive :: bool
  st_patterns :: pattern_multipliers
  st_weights :: field_weights

datatype raw_terms = TermText pystr | TermList "pystr list"

text \<open>The validator and the length limit of the field; \<^verbatim>\<open>shlex.split\<close> is a parameter.\<close>

definition validate_terms :: "(pystr \<Rightarrow> pystr list option) \<Rightarrow> raw_terms \<Rightarrow> pystr list res" where
  "validate_terms shlex raw =
     bindR (case raw of TermList ts \<Rightarrow> Inr ts | TermText s \<Rightarrow> (case shlex s of Some ts \<Rightarrow> Inr ts | None \<Rightarrow> Inl invalid)) (\<lambda>parsed.
     let terms = filter (\<lambda>t. \<not> list_all blank t) parsed in
     bindR (guardR (terms \<noteq> []) invalid) (\<lambda>_.
     bindR (guardR (list_all (\<lambda>t. length t \<le> 255) terms) invalid) (\<lambda>_. Inr terms)))"

definition put_text :: "bytes \<Rightarrow> bytes res" where
  "put_text encoded = bindR (pack_B (int (length encoded))) (\<lambda>n. Inr (n @ encoded))"

definition terms_serialize :: "scope \<Rightarrow> search_terms \<Rightarrow> bytes res" where
  "terms_serialize s st =
     bindR (map_res utf8_encode (st_terms st)) (\<lambda>encoded_terms.
     bindR (write_counted put_text encoded_terms) (\<lambda>term_data.
     bindR (pack_B (if st_case_sensitive st then 1 else 0)) (\<lambda>flag_byte.
     bindR (pattern_serialize (st_patterns st)) (\<lambda>patterns.
     bindR (weights_serialize s (st_weights st)) (\<lambda>ws. Inr (term_data @ flag_byte @ patterns @ ws))))))"

definition get_text :: "pystr reader" where
  "get_text = bind_reader unpack_B (\<lambda>n. read_text (nat n))"

definition terms_deserialize :: "(pystr \<Rightarrow> pystr list option) \<Rightarrow> search_terms reader" where
  "terms_deserialize shlex =
     bind_reader (read_counted get_text) (\<lambda>terms.
     bind_reader unpack_B (\<lambda>flags.
     bind_reader pattern_deserialize (\<lambda>patterns.
     bind_reader weights_deserialize (\<lambda>ws data i.
       bindR (validate_terms shlex (TermList terms)) (\<lambda>ts.
         Inr (\<lparr>st_terms = ts, st_case_sensitive = has_flag flags 0, st_patterns = patterns, st_weights = ws\<rparr>, i))))))"

definition terms_ok :: "search_terms \<Rightarrow> bool" where
  "terms_ok st \<longleftrightarrow> validate_terms (\<lambda>_. None) (TermList (st_terms st)) = Inr (st_terms st) \<and> pattern_ok (st_patterns st) \<and> weights_ok (st_weights st)"

definition put_term :: "pystr \<Rightarrow> bytes res" where
  "put_term t = bindR (utf8_encode t) put_text"

interpretation term_codec: codec put_term get_text "\<lambda>_. True"
  by unfold_locales (auto simp: put_term_def put_text_def get_text_def bindR_eq_Inr intro!: reads_bind reads_unpack_B reads_text)

lemma put_terms: "map_res utf8_encode ts = Inr encs \<Longrightarrow> write_counted put_text encs = Inr bs \<Longrightarrow> write_counted put_term ts = Inr bs"
proof -
  have "map_res utf8_encode ts = Inr encs \<Longrightarrow> map_res put_term ts = map_res put_text encs \<and> length ts = length encs" for ts encs
    by (induction ts arbitrary: encs) (auto simp: bindR_eq_Inr put_term_def)
  then show "map_res utf8_encode ts = Inr encs \<Longrightarrow> write_counted put_text encs = Inr bs \<Longrightarrow> write_counted put_term ts = Inr bs"
    by (simp add: write_counted_def)
qed

text \<open>The terms as the query keeps them: with the weights of the scope.\<close>

definition terms_kept :: "scope \<Rightarrow> search_terms \<Rightarrow> search_terms" where
  "terms_kept s st = st\<lparr>st_weights := weights_kept s (st_weights st)\<rparr>"

lemma terms_round_trip:
  assumes "terms_ok st" "terms_serialize s st = Inr bs"
  shows "reads (terms_deserialize shlex) bs (terms_kept s st)"
proof -
  obtain encs a b c d where s: "map_res utf8_encode (st_terms st) = Inr encs" "write_counted put_text encs = Inr a"
      "pack_B (if st_case_sensitive st then 1 else 0) = Inr b" "pattern_serialize (st_patterns st) = Inr c"
      "weights_serialize s (st_weights st) = Inr d" "bs = a @ b @ c @ d"
    using assms(2) by (auto simp: terms_serialize_def bindR_eq_Inr)
  have flag: "has_flag (if st_case_sensitive st then 1 else 0) 0 = st_case_sensitive st" by (simp add: has_flag_iff)
  have terms: "validate_terms shlex (TermList (st_terms st)) = Inr (st_terms st)"
    using assms(1) by (simp add: terms_ok_def validate_terms_def)
  have "reads (\<lambda>data i. bindR (validate_terms shlex (TermList (st_terms st))) (\<lambda>ts.
         Inr (\<lparr>st_terms = ts, st_case_sensitive = has_flag (if st_case_sensitive st then 1 else 0) 0,
               st_patterns = st_patterns st, st_weights = weights_kept s (st_weights st)\<rparr>, i))) [] (terms_kept s st)"
    by (simp add: reads_def terms flag terms_kept_def)
  moreover have "reads (read_counted get_text) a (st_terms st)"
    by (rule term_codec.counted [OF _ put_terms [OF s(1,2)]]) simp
  ultimately show ?thesis
    using assms(1) unfolding terms_deserialize_def s(6) terms_ok_def
    by (intro reads_bind [where x = "st_terms st"] reads_bind [OF reads_unpack_B [OF s(3)]]
        reads_bind [OF pattern_codec.round_trip [OF _ s(4)]] reads_bind_last [OF weights_round_trip(1) [OF _ s(5)]]) auto
qed

section \<open>Filters\<close>

datatype filter_node = FCond conditions | FNested "(string \<times> filter_node) list"

type_synonym field_filters = "(string \<times> filter_node) list"

record filters_schema =
  f_profile :: "field_filters option"
  f_beatmap :: "field_filters option"
  f_beatmapset :: "field_filters option"
  f_queue :: "field_filters option"
  f_request :: "field_filters option"

text \<open>\<^verbatim>\<open>SearchableFieldCategory\<close>: the public name and the model of each category, in order.\<close>

definition categories :: "(string \<times> model_class) list" where
  "categories = [(''profile'', PROFILE), (''beatmap'', BEATMAP_SNAPSHOT), (''beatmapset'', BEATMAPSET_SNAPSHOT), (''queue'', QUEUE), (''request'', REQUEST)]"

definition category_filters :: "filters_schema \<Rightarrow> field_filters option list" where
  "category_filters f = [f_profile f, f_beatmap f, f_beatmapset f, f_queue f, f_request f]"

definition put_node :: "num_env \<Rightarrow> string \<Rightarrow> string \<times> filter_node \<Rightarrow> bytes res" where
  "put_node E category kv =
     bindR (from_model_field_name (NameArg category) (fst kv)) (\<lambda>field.
     bindR (model_field_id field) (\<lambda>n.
     bindR (pack_H n) (\<lambda>a.
     bindR (case snd kv of FCond c \<Rightarrow> conditions_serialize E c | FNested _ \<Rightarrow> Inl (PyExc ''TypeError'')) (\<lambda>b. Inr (a @ b)))))"

definition field_filters_serialize :: "num_env \<Rightarrow> string \<Rightarrow> field_filters \<Rightarrow> bytes res" where
  "field_filters_serialize E category = write_counted (put_node E category)"

text \<open>A category counts as enabled when its mapping is not empty.\<close>

definition enabled :: "field_filters option \<Rightarrow> bool" where
  "enabled ff \<longleftrightarrow> ff \<noteq> None \<and> ff \<noteq> Some []"

fun put_categories :: "num_env \<Rightarrow> (string \<times> model_class) list \<Rightarrow> field_filters option list \<Rightarrow> bytes res" where
  "put_categories E ((name, _) # cats) (ff # ffs) =
     bindR (case ff of Some (kv # rest) \<Rightarrow> field_filters_serialize E name (kv # rest) | _ \<Rightarrow> Inr []) (\<lambda>b.
     bindR (put_categories E cats ffs) (\<lambda>bs. Inr (b @ bs)))"
| "put_categories E _ _ = Inr []"

definition filters_serialize :: "num_env \<Rightarrow> filters_schema \<Rightarrow> bytes res" where
  "filters_serialize E f =
     bindR (put_categories E categories (category_filters f)) (\<lambda>chunks.
     bindR (pack_B (flags_from 0 (map enabled (category_filters f)))) (\<lambda>presence. Inr (presence @ chunks)))"

text \<open>\<^verbatim>\<open>values[field_name] = value\<close>: a key keeps its first place and its last value.\<close>

definition dict_put :: "(string \<times> 'a) list \<Rightarrow> string \<times> 'a \<Rightarrow> (string \<times> 'a) list" where
  "dict_put d kv = (if fst kv \<in> fst ` set d then map (\<lambda>(k, v). if k = fst kv then kv else (k, v)) d else d @ [kv])"

definition get_node :: "num_env \<Rightarrow> text_env \<Rightarrow> (string \<times> filter_node) reader" where
  "get_node E T =
     bind_reader unpack_H (\<lambda>n data i. bindR (model_field_of_id n) (\<lambda>field.
       bind_reader (conditions_deserialize E T) (\<lambda>c. return_reader (mf_field field, FCond c)) data i))"

text \<open>Without any field the constructor gets no root value.\<close>

definition field_filters_deserialize :: "num_env \<Rightarrow> text_env \<Rightarrow> field_filters reader" where
  "field_filters_deserialize E T =
     bind_reader (read_counted (get_node E T)) (\<lambda>kvs.
       if kvs = [] then fail_reader invalid else return_reader (foldl dict_put [] kvs))"

text \<open>What the validator needs of a model: its columns and hybrid properties, the inner types of its
  annotations, and the models its relationships lead to.\<close>

record model_meta =
  m_attributes :: "string list"
  m_annotation :: "string \<Rightarrow> value_type option"
  m_relationship :: "string \<Rightarrow> model_class option option"

text \<open>\<^verbatim>\<open>validate_type\<close> on scalars: \<^verbatim>\<open>bool\<close> is an \<^verbatim>\<open>int\<close>, and an \<^verbatim>\<open>int\<close> is accepted for a \<^verbatim>\<open>float\<close>.\<close>

fun validate_type :: "value_type \<Rightarrow> cond_value \<Rightarrow> bool" where
  "validate_type FloatT v \<longleftrightarrow> type_of v \<in> {FloatT, IntT, BoolT}"
| "validate_type IntT v \<longleftrightarrow> type_of v \<in> {IntT, BoolT}"
| "validate_type t v \<longleftrightarrow> type_of v = t"

fun validate_against_sqlalchemy_model :: "(model_class \<Rightarrow> model_meta) \<Rightarrow> model_class \<Rightarrow> field_filters \<Rightarrow> unit res"
  and validate_node :: "(model_class \<Rightarrow> model_meta) \<Rightarrow> model_class \<Rightarrow> string \<Rightarrow> filter_node \<Rightarrow> unit res" where
  "validate_against_sqlalchemy_model M m [] = Inr ()"
| "validate_against_sqlalchemy_model M m ((name, node) # rest) =
     bindR (validate_node M m name node) (\<lambda>_. validate_against_sqlalchemy_model M m rest)"
| "validate_node M m name (FCond c) =
     (if name \<in> set (m_attributes (M m))
      then (case from_model_field_name (ClassArg m) name of
              Inl _ \<Rightarrow> Inl (PyExc ''FieldNotSupportedError'')
            | Inr field \<Rightarrow>
                (case m_annotation (M m) (case mf_alias field of Some a \<Rightarrow> a | None \<Rightarrow> name) of
                   None \<Rightarrow> Inl (PyExc ''FieldNotSupportedError'')
                 | Some t \<Rightarrow> guardR (\<forall>v \<in> set (values_for_validation c). validate_type t v) (PyExc ''FieldValidationError'')))
      else if m_relationship (M m) name \<noteq> None then Inl (PyExc ''FieldValidationError'')
      else Inl (PyExc ''FieldNotSupportedError''))"
| "validate_node M m name (FNested ff) =
     (if name \<in> set (m_attributes (M m))
      then (case from_model_field_name (ClassArg m) name of
              Inl _ \<Rightarrow> Inl (PyExc ''FieldNotSupportedError'')
            | Inr field \<Rightarrow>
                if m_annotation (M m) (case mf_alias field of Some a \<Rightarrow> a | None \<Rightarrow> name) = None
                then Inl (PyExc ''FieldNotSupportedError'') else Inl (PyExc ''AttributeError''))
      else (case m_relationship (M m) name of
              None \<Rightarrow> Inl (PyExc ''FieldNotSupportedError'')
            | Some None \<Rightarrow> Inl (PyExc ''FieldNotSupportedError'')
            | Some (Some related) \<Rightarrow> validate_against_sqlalchemy_model M related ff))"

text \<open>
  \<^verbatim>\<open>FiltersSchema.validate_filters\<close> on raw input. A nested mapping is read as conditions, so filters over
  relationships cannot be given this way. A shorthand list raises a \<^verbatim>\<open>TypeError\<close> of its own.
\<close>

datatype raw_filters = NoFilters | RawFilters "(string \<times> cond_raw) list" | OtherFilters

definition validate_field :: "text_env \<Rightarrow> string \<times> cond_raw \<Rightarrow> (string \<times> filter_node) res" where
  "validate_field T kv =
     (case conditions_validate T (snd kv) of
        Inr c \<Rightarrow> Inr (fst kv, FCond c)
      | Inl e \<Rightarrow> if e = PyExc ''TypeError'' then Inl e else Inl (PyExc ''FieldConditionValidationError''))"

fun validate_filters :: "text_env \<Rightarrow> (model_class \<Rightarrow> model_meta) \<Rightarrow> (string \<times> raw_filters) list \<Rightarrow> (string \<times> field_filters) list res" where
  "validate_filters T M [] = Inr []"
| "validate_filters T M ((category, raw) # rest) =
     (case map_of categories category of
        None \<Rightarrow> Inl (PyExc ''UnknownFieldCategoryError'')
      | Some m \<Rightarrow>
          (case raw of
             NoFilters \<Rightarrow> validate_filters T M rest
           | OtherFilters \<Rightarrow> Inl (PyExc ''TypeError'')
           | RawFilters d \<Rightarrow>
               bindR (map_res (validate_field T) d) (\<lambda>ff.
               bindR (validate_against_sqlalchemy_model M m ff) (\<lambda>_.
               bindR (validate_filters T M rest) (\<lambda>validated. Inr ((category, ff) # validated))))))"

lemma validated_nodes:
  "validate_against_sqlalchemy_model M m ff = Inr () \<Longrightarrow> (name, node) \<in> set ff \<Longrightarrow> validate_node M m name node = Inr ()"
  by (induction ff) (auto simp: bindR_eq_Inr)

lemma validate_filters_sound:
  assumes "validate_filters T M raw = Inr validated" "(category, ff) \<in> set validated" "(name, node) \<in> set ff"
  shows "\<exists>m c x. map_of categories category = Some m \<and> node = FCond c \<and> conditions_validate T x = Inr c \<and> validate_node M m name (FCond c) = Inr ()"
  using assms
proof (induction raw arbitrary: validated)
  case (Cons entry raw)
  obtain cat r where entry: "entry = (cat, r)" by fastforce
  have fields: "map_res (validate_field T) d = Inr ff \<Longrightarrow> (name, node) \<in> set ff \<Longrightarrow> \<exists>c x. node = FCond c \<and> conditions_validate T x = Inr c" for d ff
    by (induction d arbitrary: ff) (auto simp: bindR_eq_Inr validate_field_def split: sum.splits if_splits, blast)
  show ?case
  proof (cases "(category, ff) \<in> set validated \<and> (\<exists>v. validate_filters T M raw = Inr v \<and> (category, ff) \<in> set v)")
    case True
    then show ?thesis using Cons.IH Cons.prems(3) by blast
  next
    case False
    with Cons.prems entry obtain m d where m: "map_of categories category = Some m" "map_res (validate_field T) d = Inr ff"
        "validate_against_sqlalchemy_model M m ff = Inr ()"
      by (auto simp: bindR_eq_Inr split: option.splits raw_filters.splits)
    with fields [OF m(2) Cons.prems(3)] validated_nodes [OF m(3) Cons.prems(3)] show ?thesis by blast
  qed
qed simp

text \<open>The constructor with \<^verbatim>\<open>FieldFilters\<close> instances.\<close>

definition filters_of :: "(model_class \<Rightarrow> model_meta) \<Rightarrow> field_filters option list \<Rightarrow> filters_schema res" where
  "filters_of M ffs =
     bindR (for_each (\<lambda>((_, m), ff). case ff of None \<Rightarrow> Inr () | Some x \<Rightarrow> validate_against_sqlalchemy_model M m x) (zip categories ffs)) (\<lambda>_.
       Inr \<lparr>f_profile = ffs ! 0, f_beatmap = ffs ! 1, f_beatmapset = ffs ! 2, f_queue = ffs ! 3, f_request = ffs ! 4\<rparr>)"

fun get_categories :: "num_env \<Rightarrow> text_env \<Rightarrow> int \<Rightarrow> nat \<Rightarrow> nat \<Rightarrow> field_filters option list reader" where
  "get_categories E T presence k 0 = return_reader []"
| "get_categories E T presence k (Suc n) =
     (if has_flag presence k
      then bind_reader (field_filters_deserialize E T) (\<lambda>ff.
             bind_reader (get_categories E T presence (k + 1) n) (\<lambda>ffs. return_reader (Some ff # ffs)))
      else bind_reader (get_categories E T presence (k + 1) n) (\<lambda>ffs. return_reader (None # ffs)))"

definition filters_deserialize :: "num_env \<Rightarrow> text_env \<Rightarrow> (model_class \<Rightarrow> model_meta) \<Rightarrow> filters_schema reader" where
  "filters_deserialize E T M =
     bind_reader unpack_B (\<lambda>presence.
     bind_reader (get_categories E T presence 0 5) (\<lambda>ffs data i. bindR (filters_of M ffs) (\<lambda>f. Inr (f, i))))"

definition no_filters :: filters_schema where
  "no_filters = \<lparr>f_profile = None, f_beatmap = None, f_beatmapset = None, f_queue = None, f_request = None\<rparr>"

lemma field_filters_never_serialized:
  assumes "ff \<noteq> []"
  shows "field_filters_serialize E category ff \<in> {Inl (PyExc ''ValueError''), Inl (PyExc ''struct.error'')}"
proof -
  obtain kv rest where "ff = kv # rest" using assms by (cases ff) auto
  moreover have "from_model_field_name (NameArg category) name = Inl (PyExc ''ValueError'')" for name
    by (simp add: from_model_field_name_def find_None_iff [THEN iffD2])
  ultimately show ?thesis
    by (auto simp: field_filters_serialize_def write_counted_def put_node_def pack_B_def bindR_def)
qed

lemma filters_serialize_iff:
  "(\<exists>bs. filters_serialize E f = Inr bs) \<longleftrightarrow> (\<forall>ff \<in> set (category_filters f). \<not> enabled ff)"
proof -
  have never: "field_filters_serialize E name (kv # rest) \<noteq> Inr b" for name kv rest b
    using field_filters_never_serialized [of "kv # rest" E name] by auto
  have "(\<exists>b. put_categories E cats ffs = Inr b) \<longleftrightarrow> (\<forall>ff \<in> set ffs. \<not> enabled ff)" if "length cats = length ffs" for cats ffs
    using that
  proof (induction cats ffs rule: list_induct2)
    case (Cons cat cats ff ffs)
    obtain name m where "cat = (name, m)" by fastforce
    with Cons never show ?case by (auto simp: enabled_def bindR_eq_Inr split: option.splits list.splits)
  qed simp
  from this [of categories "category_filters f"] have "(\<exists>b. put_categories E categories (category_filters f) = Inr b) \<longleftrightarrow> (\<forall>ff \<in> set (category_filters f). \<not> enabled ff)"
    by (simp add: categories_def category_filters_def)
  moreover have "\<exists>enc. pack_B (flags_from 0 (map enabled (category_filters f))) = Inr enc"
    by (rule reads_flags_B) (simp add: category_filters_def)
  ultimately show ?thesis by (auto simp: filters_serialize_def bindR_eq_Inr)
qed

lemma filters_round_trip:
  assumes "filters_serialize E f = Inr bs"
  shows "reads (filters_deserialize E T M) bs no_filters"
proof -
  have off: "\<forall>ff \<in> set (category_filters f). \<not> enabled ff" using assms filters_serialize_iff by blast
  have "\<forall>ff \<in> set ffs. \<not> enabled ff \<Longrightarrow> put_categories E cats ffs = Inr []" for cats ffs
  proof (induction E cats ffs rule: put_categories.induct)
    case (1 E name m cats ff ffs)
    then have "ff = None \<or> ff = Some []" by (auto simp: enabled_def)
    with 1 show ?case by auto
  qed simp_all
  with off have "put_categories E categories (category_filters f) = Inr []" by blast
  moreover have "flags_from 0 (map enabled (category_filters f)) = 0"
    using off by (simp add: category_filters_def)
  ultimately have bs: "pack_B 0 = Inr bs" using assms by (auto simp: filters_serialize_def bindR_eq_Inr)
  have "reads (get_categories E T 0 k n) [] (replicate n None)" for k n
    by (induction n arbitrary: k) (auto simp: has_flag_def intro!: reads_bind_last)
  moreover have "reads (\<lambda>data i. bindR (filters_of M (replicate 5 None)) (\<lambda>f. Inr (f, i))) [] no_filters"
    by (simp add: reads_def filters_of_def categories_def no_filters_def numeral_eq_Suc)
  ultimately show ?thesis
    unfolding filters_deserialize_def by (intro reads_bind_last [OF reads_unpack_B [OF bs]] reads_bind_last)
qed

section \<open>The query\<close>

record search_schema =
  s_scope :: scope
  s_terms :: "search_terms option"
  s_sorting :: "sorting_option list option"
  s_filters :: "filters_schema option"

definition validate_search :: "search_schema \<Rightarrow> unit res" where
  "validate_search q = (case s_terms q of None \<Rightarrow> Inr () | Some st \<Rightarrow> weights_validate_against_scope (s_scope q) (st_weights st))"

text \<open>A sorting schema has a length, so an empty one counts as absent.\<close>

definition sorted_by :: "search_schema \<Rightarrow> sorting_option list option" where
  "sorted_by q = (if s_sorting q = Some [] then None else s_sorting q)"

definition optional :: "('a \<Rightarrow> bytes res) \<Rightarrow> 'a option \<Rightarrow> bytes res" where
  "optional put x = (case x of None \<Rightarrow> Inr [] | Some v \<Rightarrow> put v)"

definition search_serialize :: "num_env \<Rightarrow> search_schema \<Rightarrow> bytes res" where
  "search_serialize E q =
     bindR (bindR (scope_id (s_scope q)) pack_B) (\<lambda>scope_byte.
     bindR (optional (terms_serialize (s_scope q)) (s_terms q)) (\<lambda>a.
     bindR (optional sorting_serialize (sorted_by q)) (\<lambda>b.
     bindR (optional (filters_serialize E) (s_filters q)) (\<lambda>c.
     bindR (pack_B (flags_from 0 [s_terms q \<noteq> None, sorted_by q \<noteq> None, s_filters q \<noteq> None])) (\<lambda>presence.
       Inr (scope_byte @ presence @ a @ b @ c))))))"

definition when_flag :: "bool \<Rightarrow> 'a reader \<Rightarrow> 'a option reader" where
  "when_flag b get = (if b then bind_reader get (\<lambda>x. return_reader (Some x)) else return_reader None)"

record search_env =
  se_num :: num_env
  se_text :: text_env
  se_shlex :: "pystr \<Rightarrow> pystr list option"
  se_meta :: "model_class \<Rightarrow> model_meta"

definition read_search :: "search_env \<Rightarrow> search_schema reader" where
  "read_search V =
     bind_reader unpack_B (\<lambda>scope_byte.
     bind_reader unpack_B (\<lambda>presence data i.
       bindR (scope_of_id scope_byte) (\<lambda>s.
       bind_reader (when_flag (has_flag presence 0) (terms_deserialize (se_shlex V))) (\<lambda>terms.
       bind_reader (when_flag (has_flag presence 1) sorting_deserialize) (\<lambda>sorting.
       bind_reader (when_flag (has_flag presence 2) (filters_deserialize (se_num V) (se_text V) (se_meta V))) (\<lambda>filters.
         return_reader \<lparr>s_scope = s, s_terms = terms, s_sorting = sorting, s_filters = filters\<rparr>))) data i)))"

definition search_deserialize :: "search_env \<Rightarrow> bytes \<Rightarrow> search_schema res" where
  "search_deserialize V data =
     bindR (read_search V data 0) (\<lambda>(q, i).
     bindR (guardR (i = length data) (PyExc ''ValueError'')) (\<lambda>_.
     bindR (validate_search q) (\<lambda>_. Inr q)))"

definition search_ok :: "search_schema \<Rightarrow> bool" where
  "search_ok q \<longleftrightarrow> validate_search q = Inr () \<and> (\<forall>st. s_terms q = Some st \<longrightarrow> terms_ok st) \<and>
     (\<forall>ss. s_sorting q = Some ss \<longrightarrow> (\<forall>s \<in> set ss. so_field s \<in> set model_fields))"

text \<open>The query as it is read back.\<close>

definition search_kept :: "search_schema \<Rightarrow> search_schema" where
  "search_kept q = q\<lparr>s_terms := map_option (terms_kept (s_scope q)) (s_terms q), s_sorting := sorted_by q,
     s_filters := map_option (\<lambda>_. no_filters) (s_filters q)\<rparr>"

lemma optional_reads:
  assumes "optional put x = Inr bs" "\<And>v b. x = Some v \<Longrightarrow> put v = Inr b \<Longrightarrow> reads get b (f v)"
  shows "reads (when_flag (x \<noteq> None) get) bs (map_option f x)"
  using assms by (cases x) (auto simp: optional_def when_flag_def intro!: reads_bind_last)

lemma kept_valid: "weights_validate_against_scope s w = Inr () \<Longrightarrow> weights_ok w \<Longrightarrow> weights_validate_against_scope s (weights_kept s w) = Inr ()"
proof -
  assume valid: "weights_validate_against_scope s w = Inr ()" and ok: "weights_ok w"
  then obtain used where used: "scope_fields s = Inr used" by (auto simp: weights_validate_against_scope_def bindR_eq_Inr)
  let ?kept = "kept used weight_defaults (weights w)"
  have len: "length used = 12" using scope_fields_length [OF used] .
  obtain w' where w': "field_weights_of ?kept = Inr w'"
    using kept_signed [OF len ok] by (simp add: field_weights_of_def)
  then have kept: "weights_kept s w = w'" "weights w' = ?kept"
    using weights_of_weights [OF w'] len by (simp_all add: weights_kept_def used kept_def)
  obtain i where "i < 12" "used ! i" "weights w ! i \<noteq> None"
    using valid used len by (auto simp: weights_validate_against_scope_def set_zip) metis
  then have "used ! i \<and> ?kept ! i \<noteq> None" using len by (simp add: kept_def)
  moreover have "(used ! i, ?kept ! i) \<in> set (zip used (weights w'))"
    using \<open>i < 12\<close> len kept(2) weights_length(1) [of w'] by (auto simp: set_zip)
  ultimately have "\<exists>(u, v) \<in> set (zip used (weights w')). u \<and> v \<noteq> None" by blast
  with used kept(1) show ?thesis by (simp add: weights_validate_against_scope_def)
qed

theorem search_round_trip:
  assumes "search_ok q" "search_serialize (se_num V) q = Inr bs"
  shows "search_deserialize V bs = Inr (search_kept q)"
proof -
  let ?fl = "[s_terms q \<noteq> None, sorted_by q \<noteq> None, s_filters q \<noteq> None]"
  obtain n sb a b c p where s: "scope_id (s_scope q) = Inr n" "pack_B n = Inr sb" "optional (terms_serialize (s_scope q)) (s_terms q) = Inr a"
      "optional sorting_serialize (sorted_by q) = Inr b" "optional (filters_serialize (se_num V)) (s_filters q) = Inr c"
      "pack_B (flags_from 0 ?fl) = Inr p" "bs = sb @ p @ a @ b @ c"
    using assms(2) by (auto simp: search_serialize_def bindR_eq_Inr)
  have sid: "scope_of_id n = Inr (s_scope q)" using scope_id_round_trip [OF s(1)] by simp
  have flags: "has_flag (flags_from 0 ?fl) 0 = (s_terms q \<noteq> None)" "has_flag (flags_from 0 ?fl) 1 = (sorted_by q \<noteq> None)"
    "has_flag (flags_from 0 ?fl) 2 = (s_filters q \<noteq> None)"
    unfolding has_flag_flags by simp_all
  have terms: "reads (when_flag (s_terms q \<noteq> None) (terms_deserialize (se_shlex V))) a (map_option (terms_kept (s_scope q)) (s_terms q))"
    using assms(1) by (intro optional_reads [OF s(3)] terms_round_trip) (auto simp: search_ok_def)
  have sorting: "reads (when_flag (sorted_by q \<noteq> None) sorting_deserialize) b (sorted_by q)"
    using optional_reads [OF s(4), of sorting_deserialize "\<lambda>x. x"] assms(1) sorting_codec.counted
    by (auto simp: search_ok_def sorted_by_def sorting_serialize_def sorting_deserialize_def option.map_ident split: if_splits)
  have filters: "reads (when_flag (s_filters q \<noteq> None) (filters_deserialize (se_num V) (se_text V) (se_meta V))) c (map_option (\<lambda>_. no_filters) (s_filters q))"
    by (rule optional_reads [OF s(5)]) (rule filters_round_trip)
  have "reads (\<lambda>data i. bindR (scope_of_id n) (\<lambda>s.
       bind_reader (when_flag (has_flag (flags_from 0 ?fl) 0) (terms_deserialize (se_shlex V))) (\<lambda>terms.
       bind_reader (when_flag (has_flag (flags_from 0 ?fl) 1) sorting_deserialize) (\<lambda>sorting.
       bind_reader (when_flag (has_flag (flags_from 0 ?fl) 2) (filters_deserialize (se_num V) (se_text V) (se_meta V))) (\<lambda>filters.
         return_reader \<lparr>s_scope = s, s_terms = terms, s_sorting = sorting, s_filters = filters\<rparr>))) data i)) (a @ b @ c) (search_kept q)"
    unfolding sid bindR_Inr flags
    by (intro reads_bind [OF terms] reads_bind [OF sorting] reads_bind_last [OF filters])
      (auto simp: search_kept_def reads_def return_reader_def)
  then have "reads (read_search V) bs (search_kept q)"
    unfolding read_search_def s(7) by (intro reads_bind [OF reads_unpack_B [OF s(2)]] reads_bind [OF reads_unpack_B [OF s(6)]])
  moreover have "validate_search (search_kept q) = Inr ()"
    using assms(1) by (auto simp: search_ok_def validate_search_def search_kept_def terms_kept_def terms_ok_def kept_valid split: option.splits)
  ultimately show ?thesis by (simp add: search_deserialize_def reads_whole)
qed

end
