(* ===== verification/Search_Query.thy ===== *)
theory Search_Query
  imports Search_Schema Access_Endpoints Auth_Limiter
begin

text \<open>
  Compressed queries (\<^verbatim>\<open>src/app/search/compression.py\<close>): Base64 as the standard library has it, with the
  lenient decoder, and brotli as a parameter.
\<close>

section \<open>Base64\<close>

definition alphabet :: string where
  "alphabet = ''ABCDEFGHIJKLMNOPQRSTUVWXYZabcdefghijklmnopqrstuvwxyz0123456789-_''"

definition b64_char :: "nat \<Rightarrow> char" where
  "b64_char n = alphabet ! n"

text \<open>\<^verbatim>\<open>base64.urlsafe_b64encode\<close>\<close>

fun urlsafe_b64encode :: "nat list \<Rightarrow> string" where
  "urlsafe_b64encode [] = []"
| "urlsafe_b64encode [a] = [b64_char (a div 4), b64_char (a mod 4 * 16), CHR ''='', CHR ''='']"
| "urlsafe_b64encode [a, b] = [b64_char (a div 4), b64_char (a mod 4 * 16 + b div 16), b64_char (b mod 16 * 4), CHR ''='']"
| "urlsafe_b64encode (a # b # c # rest) =
     [b64_char (a div 4), b64_char (a mod 4 * 16 + b div 16), b64_char (b mod 16 * 4 + c div 64), b64_char (c mod 64)] @ urlsafe_b64encode rest"

definition rstrip_pad :: "string \<Rightarrow> string" where
  "rstrip_pad s = rev (dropWhile (\<lambda>c. c = CHR ''='') (rev s))"

text \<open>The value of a character for the decoder, which also knows the standard alphabet.\<close>

definition b64_value :: "char \<Rightarrow> nat option" where
  "b64_value c = (if c = CHR ''+'' then Some 62 else if c = CHR ''/'' then Some 63 else map_of (zip alphabet [0..<64]) c)"

text \<open>
  The loop of the lenient decoder: other characters are skipped, a sufficient run of pads ends the input.
  \<open>pos\<close> counts the characters of the current group, \<open>left\<close> holds the bits not written yet.
\<close>

fun b64_loop :: "nat \<Rightarrow> nat \<Rightarrow> nat \<Rightarrow> string \<Rightarrow> nat list res" where
  "b64_loop pos left pads [] = (if pos = 0 then Inr [] else Inl (PyExc ''binascii.Error''))"
| "b64_loop pos left pads (c # s) =
     (if c = CHR ''=''
      then (if pos \<ge> 2 then (if pos + (pads + 1) \<ge> 4 then Inr [] else b64_loop pos left (pads + 1) s)
            else b64_loop pos left pads s)
      else (case b64_value c of
              None \<Rightarrow> b64_loop pos left pads s
            | Some v \<Rightarrow>
                if pos = 0 then b64_loop 1 v 0 s
                else if pos = 1 then bindR (b64_loop 2 (v mod 16) 0 s) (\<lambda>out. Inr ((left * 4 + v div 16) # out))
                else if pos = 2 then bindR (b64_loop 3 (v mod 4) 0 s) (\<lambda>out. Inr ((left * 16 + v div 4) # out))
                else bindR (b64_loop 0 0 0 s) (\<lambda>out. Inr ((left * 64 + v) # out))))"

definition urlsafe_b64decode :: "string \<Rightarrow> nat list res" where
  "urlsafe_b64decode s = (if \<exists>c \<in> set s. 128 \<le> (of_char c :: nat) then Inl (PyExc ''ValueError'') else b64_loop 0 0 0 s)"

lemma alphabet_facts:
  "\<forall>n \<in> set [0..<64]. b64_value (b64_char n) = Some n \<and> b64_char n \<noteq> CHR ''='' \<and> (of_char (b64_char n) :: nat) < 128"
  by code_simp

lemma b64_value_char [simp]: "n < 64 \<Longrightarrow> b64_value (b64_char n) = Some n" "n < 64 \<Longrightarrow> b64_char n \<noteq> CHR ''=''"
  "n < 64 \<Longrightarrow> (of_char (b64_char n) :: nat) < 128"
  using alphabet_facts by auto

definition unpadded :: "nat list \<Rightarrow> string" where
  "unpadded bs = rstrip_pad (urlsafe_b64encode bs)"

lemma rstrip_pad_simps:
  "rstrip_pad [] = []" "c \<noteq> CHR ''='' \<Longrightarrow> rstrip_pad (s @ [c]) = s @ [c]" "rstrip_pad (s @ [CHR ''='']) = rstrip_pad s"
  by (simp_all add: rstrip_pad_def)

lemma rstrip_pad_append: "c \<noteq> CHR ''='' \<Longrightarrow> rstrip_pad (s @ c # t) = s @ c # rstrip_pad t"
  by (induction t rule: rev_induct) (auto simp: rstrip_pad_def dropWhile_append)

lemma unpadded_simps:
  assumes "a < 256" "b < 256" "c < 256"
  shows "unpadded [] = []"
    and "unpadded [a] = [b64_char (a div 4), b64_char (a mod 4 * 16)]"
    and "unpadded [a, b] = [b64_char (a div 4), b64_char (a mod 4 * 16 + b div 16), b64_char (b mod 16 * 4)]"
    and "unpadded (a # b # c # rest) =
      [b64_char (a div 4), b64_char (a mod 4 * 16 + b div 16), b64_char (b mod 16 * 4 + c div 64), b64_char (c mod 64)] @ unpadded rest"
proof -
  have bounds: "a mod 4 * 16 < 64" "b mod 16 * 4 < 64" "c mod 64 < 64" by linarith+
  show "unpadded [] = []" by (simp add: unpadded_def rstrip_pad_def)
  show "unpadded [a] = [b64_char (a div 4), b64_char (a mod 4 * 16)]"
    using bounds by (simp add: unpadded_def rstrip_pad_def)
  show "unpadded [a, b] = [b64_char (a div 4), b64_char (a mod 4 * 16 + b div 16), b64_char (b mod 16 * 4)]"
    using bounds by (simp add: unpadded_def rstrip_pad_def)
  show "unpadded (a # b # c # rest) =
      [b64_char (a div 4), b64_char (a mod 4 * 16 + b div 16), b64_char (b mod 16 * 4 + c div 64), b64_char (c mod 64)] @ unpadded rest"
    using rstrip_pad_append [of "b64_char (c mod 64)" "[b64_char (a div 4), b64_char (a mod 4 * 16 + b div 16), b64_char (b mod 16 * 4 + c div 64)]"
        "urlsafe_b64encode rest"] bounds by (simp add: unpadded_def)
qed

lemma pads: "replicate 2 x = [x, x]" "replicate 3 x = [x, x, x]"
  by (simp_all only: numeral_2_eq_2 numeral_3_eq_3 replicate_Suc replicate_0)

text \<open>As many pads as \<^verbatim>\<open>len(q) % 4\<close> says are always enough, though one too many groups of three.\<close>

lemma b64_loop_unpadded:
  assumes "\<forall>b \<in> set bs. b < 256"
  shows "b64_loop 0 0 0 (unpadded bs @ replicate (length (unpadded bs) mod 4) (CHR ''='')) = Inr bs"
  using assms
proof (induction bs rule: urlsafe_b64encode.induct)
  case 1
  show ?case using unpadded_simps [of 0 0 0] by simp
next
  case (2 a)
  then have a: "a < 256" by simp
  then have "a div 4 < 64" "a mod 4 * 16 < 64" by linarith+
  moreover have "a div 4 * 4 + a mod 4 = a" by simp
  ultimately show ?case using a unpadded_simps(2) [of a 0 0] by (simp add: pads)
next
  case (3 a b)
  then have ab: "a < 256" "b < 256" by simp_all
  then have "a div 4 < 64" "a mod 4 * 16 + b div 16 < 64" "b mod 16 * 4 < 64" by linarith+
  moreover have "a div 4 * 4 + a mod 4 = a" "b div 16 * 16 + b mod 16 = b" by simp_all
  moreover have "(a mod 4 * 16 + b div 16) div 16 = a mod 4" "(a mod 4 * 16 + b div 16) mod 16 = b div 16" using ab by simp_all
  ultimately show ?case using ab unpadded_simps(3) [of a b 0] by (simp add: pads)
next
  case (4 a b c rest)
  have ab: "a < 256" "b < 256" "c < 256" using 4 by simp_all
  have bounds: "a div 4 < 64" "a mod 4 * 16 + b div 16 < 64" "b mod 16 * 4 + c div 64 < 64" "c mod 64 < 64" using ab by linarith+
  have parts: "a div 4 * 4 + a mod 4 = a" "b div 16 * 16 + b mod 16 = b" "c div 64 * 64 + c mod 64 = c" by simp_all
  have mods: "(a mod 4 * 16 + b div 16) div 16 = a mod 4" "(a mod 4 * 16 + b div 16) mod 16 = b div 16"
    "(b mod 16 * 4 + c div 64) div 4 = b mod 16" "(b mod 16 * 4 + c div 64) mod 4 = c div 64" using ab by auto
  have len: "(4 + n) mod 4 = n mod (4 :: nat)" for n by simp
  show ?case
    using 4 unpadded_simps(4) [OF ab, of rest] bounds parts mods by (simp add: len)
qed

lemma unpadded_ascii: "\<forall>b \<in> set bs. b < 256 \<Longrightarrow> c \<in> set (unpadded bs) \<Longrightarrow> (of_char c :: nat) < 128"
proof (induction bs rule: urlsafe_b64encode.induct)
  case 1
  then show ?case using unpadded_simps [of 0 0 0] by simp
next
  case (2 a)
  then have "a div 4 < 64" "a mod 4 * 16 < 64" by auto
  with 2 show ?case using unpadded_simps(2) [of a 0 0] by auto
next
  case (3 a b)
  then have ab: "a < 256" "b < 256" by simp_all
  then have "a div 4 < 64" "a mod 4 * 16 + b div 16 < 64" "b mod 16 * 4 < 64" by linarith+
  with 3 ab show ?case using unpadded_simps(3) [of a b 0] by auto
next
  case (4 a b c rest)
  then have ab: "a < 256" "b < 256" "c < 256" by simp_all
  then have "a div 4 < 64" "a mod 4 * 16 + b div 16 < 64" "b mod 16 * 4 + c div 64 < 64" "c mod 64 < 64" by linarith+
  with 4 show ?case using unpadded_simps(4) [OF ab, of rest] by auto
qed

section \<open>Compressed queries\<close>

definition compress_query :: "(bytes \<Rightarrow> bytes) \<Rightarrow> bytes \<Rightarrow> string" where
  "compress_query brotli q = rstrip_pad (urlsafe_b64encode (map unat (brotli q)))"

definition decompress_query :: "(bytes \<Rightarrow> bytes option) \<Rightarrow> string \<Rightarrow> bytes res" where
  "decompress_query unbrotli q =
     (case urlsafe_b64decode (q @ replicate (length q mod 4) (CHR ''='')) of
        Inl _ \<Rightarrow> Inl (PyExc ''ValueError'')
      | Inr compressed \<Rightarrow>
          (case unbrotli (map word_of_nat compressed) of None \<Rightarrow> Inl (PyExc ''ValueError'') | Some bs \<Rightarrow> Inr bs))"

definition brotli_law :: "(bytes \<Rightarrow> bytes) \<Rightarrow> (bytes \<Rightarrow> bytes option) \<Rightarrow> bool" where
  "brotli_law brotli unbrotli \<longleftrightarrow> (\<forall>bs. unbrotli (brotli bs) = Some bs)"

lemma compress_round_trip:
  assumes "brotli_law brotli unbrotli"
  shows "decompress_query unbrotli (compress_query brotli bs) = Inr bs"
proof -
  let ?c = "map unat (brotli bs)"
  have small: "\<forall>b \<in> set ?c. b < 256" by (auto simp: less_le_trans [OF unsigned_less])
  have "\<not> (\<exists>c \<in> set (unpadded ?c @ replicate (length (unpadded ?c) mod 4) (CHR ''='')). 128 \<le> (of_char c :: nat))"
    using unpadded_ascii [OF small] by (auto simp: not_le)
  moreover have "map word_of_nat ?c = brotli bs" by (simp add: comp_def)
  ultimately show ?thesis
    using assms b64_loop_unpadded [OF small]
    by (simp add: decompress_query_def compress_query_def urlsafe_b64decode_def brotli_law_def flip: unpadded_def)
qed

end
