(* ===== verification/Search_Endpoint.thy ===== *)
theory Search_Endpoint
  imports Search_Query
begin

text \<open>
  The cache of search results, pagination, and the endpoints that create and run searches
  (\<^verbatim>\<open>src/app/search/cache.py\<close>, \<^verbatim>\<open>src/api/pagination.py\<close>, \<^verbatim>\<open>src/api/v1/search/__init__.py\<close>).
\<close>

section \<open>Pagination\<close>

text \<open>\<^verbatim>\<open>request_url.rsplit("?", 1)[0]\<close>\<close>

definition url_base :: "string \<Rightarrow> string" where
  "url_base url =
     (if CHR ''?'' \<in> set url then rev (tl (dropWhile (\<lambda>c. c \<noteq> CHR ''?'') (rev url))) else url)"

definition page_link :: "string \<Rightarrow> int \<Rightarrow> int \<Rightarrow> string \<Rightarrow> string" where
  "page_link base off lm rel =
     ''<'' @ base @ ''?offset='' @ py_str off @ ''&limit='' @ py_str lm @ ''>; rel='' @ [CHR 0x22] @ rel @ [CHR 0x22]"

definition next_offset :: "int \<Rightarrow> int \<Rightarrow> int \<Rightarrow> int option" where
  "next_offset tot lm off = (if off + lm < tot then Some (off + lm) else None)"

definition prev_offset :: "int \<Rightarrow> int \<Rightarrow> int option" where
  "prev_offset lm off = (if off > 0 then Some (max 0 (off - lm)) else None)"

definition build_pagination_response :: "'d \<Rightarrow> int \<Rightarrow> int \<Rightarrow> int \<Rightarrow> string \<Rightarrow> 'd \<times> int \<times> (string \<times> string) list" where
  "build_pagination_response data tot lm off url =
     (let base = url_base url;
          links = (case next_offset tot lm off of Some n \<Rightarrow> [page_link base n lm ''next''] | None \<Rightarrow> []) @
                  (case prev_offset lm off of Some n \<Rightarrow> [page_link base n lm ''prev''] | None \<Rightarrow> [])
      in (data, 200,
          [(''Content-Type'', ''application/json''), (''X-Total-Count'', py_str tot), (''X-Page-Size'', py_str lm)] @
          (if links = [] then [] else [(''Link'', join '', '' links)])))"

text \<open>The offsets a client visits that follows the next links.\<close>

function visited :: "int \<Rightarrow> int \<Rightarrow> int \<Rightarrow> int list" where
  "visited tot lm off =
     (if 0 < lm then off # (case next_offset tot lm off of None \<Rightarrow> [] | Some n \<Rightarrow> visited tot lm n) else [off])"
  by pat_completeness auto
termination
  by (relation "measure (\<lambda>(tot, lm, off). nat (tot - off))") (auto simp: next_offset_def split: if_splits)

declare visited.simps [simp del]

lemma visited_pages:
  assumes "0 < lm" "0 \<le> off" "off \<le> int (length rows)"
  shows "concat (map (\<lambda>n. take (nat lm) (drop (nat n) rows)) (visited (int (length rows)) lm off)) = drop (nat off) rows"
  using assms
proof (induction "int (length rows)" lm off rule: visited.induct)
  case (1 lm off)
  show ?case
  proof (cases "off + lm < int (length rows)")
    case True
    then have follow: "next_offset (int (length rows)) lm off = Some (off + lm)" by (simp add: next_offset_def)
    have "concat (map (\<lambda>n. take (nat lm) (drop (nat n) rows)) (visited (int (length rows)) lm (off + lm))) = drop (nat (off + lm)) rows"
      using "1.hyps" [OF "1.prems"(1) follow] "1.prems" True by simp
    moreover have "nat (off + lm) = nat lm + nat off" using "1.prems" by simp
    ultimately show ?thesis
      using follow "1.prems" by (subst visited.simps) (simp flip: drop_drop)
  next
    case False
    then show ?thesis using "1.prems" by (subst visited.simps) (simp add: next_offset_def)
  qed
qed

section \<open>The cache\<close>

definition scope_name :: "scope \<Rightarrow> string" where
  "scope_name s = (case s of BEATMAPS \<Rightarrow> ''BEATMAPS'' | BEATMAPSETS \<Rightarrow> ''BEATMAPSETS'' | SCORES \<Rightarrow> ''SCORES'' | QUEUES \<Rightarrow> ''QUEUES'' | REQUESTS \<Rightarrow> ''REQUESTS'')"

definition scope_value :: "scope \<Rightarrow> string" where
  "scope_value s = (case s of BEATMAPS \<Rightarrow> ''beatmaps'' | BEATMAPSETS \<Rightarrow> ''beatmapsets'' | SCORES \<Rightarrow> ''scores'' | QUEUES \<Rightarrow> ''queues'' | REQUESTS \<Rightarrow> ''requests'')"

definition CacheTTLConfig :: "(string \<times> int) list" where
  "CacheTTLConfig = [(''BEATMAP'', 120), (''BEATMAPSET'', 300), (''PROFILE'', 60), (''REQUEST'', 180), (''QUEUE'', 300), (''SCORE'', 60), (''USER'', 120)]"

definition CACHE_PREFIX :: string where "CACHE_PREFIX = ''search_cache''"
definition MAX_VALUE_SIZE :: nat where "MAX_VALUE_SIZE = 1024 * 1024"

definition get_ttl :: "scope \<Rightarrow> int res" where
  "get_ttl s = (case map_of CacheTTLConfig (scope_name s) of Some n \<Rightarrow> Inr n | None \<Rightarrow> Inl (PyExc ''KeyError''))"

text \<open>
  What the endpoint runs on: the codecs, Redis, the rendering of the list of terms, SHA-256, JSON, the rows
  the composed query matches and the queue a row is, the response schema, and the authentication.
\<close>

record ('r, 'row, 'doc) search_app =
  sa_env :: search_env
  sa_brotli :: "bytes \<Rightarrow> bytes"
  sa_unbrotli :: "bytes \<Rightarrow> bytes option"
  sa_redis :: "'r redis_ops"
  sa_show :: "pystr list \<Rightarrow> string"
  sa_sha256 :: "string \<Rightarrow> string"
  sa_dumps :: "'doc list \<times> int \<Rightarrow> string res"
  sa_loads :: "string \<Rightarrow> ('doc list \<times> int) res"
  sa_parse :: "string \<Rightarrow> search_schema res"
  sa_include :: "scope \<Rightarrow> unit res"
  sa_matches :: "search_schema \<Rightarrow> 'row list res"
  sa_queue :: "'row \<Rightarrow> queue_entry"
  sa_dump :: "'row list \<Rightarrow> 'doc list"
  sa_bearer :: "string \<Rightarrow> dict option res"
  sa_api_key :: "string \<Rightarrow> dict option"

definition cache_key :: "('r, 'row, 'doc) search_app \<Rightarrow> scope \<Rightarrow> string \<Rightarrow> string \<Rightarrow> string \<Rightarrow> int \<Rightarrow> int \<Rightarrow> string" where
  "cache_key A s terms sorting filters lm off =
     (let raw = scope_value s @ '':'' @ terms @ '':'' @ sorting @ '':'' @ filters @ '':'' @ py_str lm @ '':'' @ py_str off in
      CACHE_PREFIX @ '':'' @ scope_value s @ '':'' @ take 16 (sa_sha256 A raw))"

definition cache_get :: "('r, 'row, 'doc) search_app \<Rightarrow> string \<Rightarrow> ('r, ('doc list \<times> int) option) act" where
  "cache_get A key =
     readS (\<lambda>s. case rget (sa_redis A) s key of
                  None \<Rightarrow> retS None
                | Some data \<Rightarrow> if data = '''' then retS None else bindS (liftS (sa_loads A data)) (\<lambda>x. retS (Some x)))"

definition cache_set :: "('r, 'row, 'doc) search_app \<Rightarrow> scope \<Rightarrow> string \<Rightarrow> 'doc list \<times> int \<Rightarrow> ('r, unit) act" where
  "cache_set A s key page_data =
     bindS (liftS (sa_dumps A page_data)) (\<lambda>serialized.
       if length serialized > MAX_VALUE_SIZE then retS ()
       else bindS (liftS (get_ttl s)) (\<lambda>ttl. rset_ex (sa_redis A) key serialized ttl))"

lemma no_ttl: "get_ttl s = Inl (PyExc ''KeyError'')"
  by (cases s) (simp_all add: get_ttl_def CacheTTLConfig_def scope_name_def)

section \<open>Running a search\<close>

definition SCOPES_REQUIRING_AUTH :: "scope list" where
  "SCOPES_REQUIRING_AUTH = [QUEUES, REQUESTS]"

record search_request =
  sr_q :: string
  sr_compressed :: bool
  sr_reversed :: bool
  sr_limit :: int
  sr_offset :: int
  sr_authorization :: string
  sr_api_key :: "string option"

definition ascii_lower :: "char \<Rightarrow> char" where
  "ascii_lower c = (let n = of_char c in if 65 \<le> n \<and> n \<le> (90 :: nat) then char_of (n + 32) else c)"

definition authenticate_for_scope :: "('r, 'row, 'doc) search_app \<Rightarrow> scope \<Rightarrow> search_request \<Rightarrow> json res" where
  "authenticate_for_scope A s r =
     (if s \<notin> set SCOPES_REQUIRING_AUTH then Inr JNull
      else bindR
        (if take 7 (map ascii_lower (sr_authorization r)) = ''bearer '' then sa_bearer A (strip (drop 7 (sr_authorization r)))
         else (case sr_api_key r of Some key \<Rightarrow> if key = '''' then Inr None else Inr (sa_api_key A key) | None \<Rightarrow> Inr None))
        (\<lambda>token_info.
           case token_info of
             None \<Rightarrow> Inl (PyExc ''Unauthorized'')
           | Some info \<Rightarrow> bindR (need info ''sub'') claim_int))"

definition decode_search :: "('r, 'row, 'doc) search_app \<Rightarrow> search_request \<Rightarrow> search_schema res" where
  "decode_search A r =
     (if sr_compressed r
      then bindR (decompress_query (sa_unbrotli A) (sr_q r)) (search_deserialize (sa_env A))
      else sa_parse A (sr_q r))"

text \<open>\<^verbatim>\<open>json.dumps\<close> does not know the schema classes.\<close>

definition sorting_text :: "search_schema \<Rightarrow> string res" where
  "sorting_text q = (if sorted_by q = None then Inr '''' else Inl (PyExc ''TypeError''))"

definition filters_text :: "search_schema \<Rightarrow> string res" where
  "filters_text q = (if s_filters q = None then Inr '''' else Inl (PyExc ''TypeError''))"

definition engine_page :: "int \<Rightarrow> int \<Rightarrow> 'row list \<Rightarrow> 'row list res" where
  "engine_page lm off rows =
     (if lm < 0 \<or> off < 0 then Inl (PyExc ''TypeError'') else Inr (take (nat lm) (drop (nat off) rows)))"

definition request_key :: "('r, 'row, 'doc) search_app \<Rightarrow> search_schema \<Rightarrow> search_request \<Rightarrow> string" where
  "request_key A q r =
     cache_key A (s_scope q) (case s_terms q of None \<Rightarrow> '''' | Some st \<Rightarrow> sa_show A (st_terms st)) '''' '''' (sr_limit r) (sr_offset r)"

definition visible_rows :: "('r, 'row, 'doc) search_app \<Rightarrow> directory \<Rightarrow> search_schema \<Rightarrow> json \<Rightarrow> 'row list res" where
  "visible_rows A D q caller =
     bindR (sa_matches A q) (\<lambda>rows.
       if s_scope q = QUEUES
       then bindR (queue_visibility_where D caller) (\<lambda>visible. Inr (filter (\<lambda>row. visible (sa_queue A row)) rows))
       else Inr rows)"

definition run_engine :: "('r, 'row, 'doc) search_app \<Rightarrow> directory \<Rightarrow> search_schema \<Rightarrow> json \<Rightarrow> search_request \<Rightarrow> ('r, 'doc list \<times> int) act" where
  "run_engine A D q caller r =
     bindS (liftS (visible_rows A D q caller)) (\<lambda>rows.
     bindS (liftS (engine_page (sr_limit r) (sr_offset r) rows)) (\<lambda>page.
     let docs = sa_dump A page; docs = (if sr_reversed r then rev docs else docs); tot = int (length rows) in
     bindS (if s_scope q = QUEUES then retS () else cache_set A (s_scope q) (request_key A q r) (docs, tot)) (\<lambda>_.
       retS (docs, tot))))"

definition search_body :: "('r, 'row, 'doc) search_app \<Rightarrow> directory \<Rightarrow> search_request \<Rightarrow> ('r, 'doc list \<times> int) act" where
  "search_body A D r =
     bindS (liftS (decode_search A r)) (\<lambda>q.
     bindS (liftS (authenticate_for_scope A (s_scope q) r)) (\<lambda>caller.
     bindS (liftS (sa_include A (s_scope q))) (\<lambda>_.
     bindS (liftS (sorting_text q)) (\<lambda>_.
     bindS (liftS (filters_text q)) (\<lambda>_.
     bindS (if s_scope q = QUEUES then retS None else cache_get A (request_key A q r)) (\<lambda>cached.
       case cached of
         Some page_data \<Rightarrow> retS page_data
       | None \<Rightarrow> run_engine A D q caller r))))))"

definition EXCEPTIONS :: "string list" where
  "EXCEPTIONS = [''ValueError'', ''TypeError'', ''FieldValidationError'', ''FieldNotSupportedError'', ''FieldConditionValidationError'',
     ''UnknownFieldCategoryError'', ''AllValuesNullError'', ''DeepObjectValidationError'']"

text \<open>The classes below \<^verbatim>\<open>ValueError\<close> that the codecs raise.\<close>

definition value_errors :: "string list" where
  "value_errors = [''ValidationError'', ''UnicodeDecodeError'', ''UnicodeEncodeError'', ''binascii.Error'', ''JSONDecodeError'']"

definition search_bad_request :: "'a res \<Rightarrow> 'a res" where
  "search_bad_request x =
     (case x of
        Inl (PyExc e) \<Rightarrow> if e \<in> set (EXCEPTIONS @ value_errors) then Inl (BadRequest e) else Inl (PyExc e)
      | _ \<Rightarrow> x)"

definition search_get ::
  "('r, 'row, 'doc) search_app \<Rightarrow> directory \<Rightarrow> string \<Rightarrow> search_request \<Rightarrow> ('r, 'doc list \<times> int \<times> (string \<times> string) list) act" where
  "search_get A D url r s =
     (case search_body A D r s of
        (Inr (docs, tot), s') \<Rightarrow> (Inr (build_pagination_response docs tot (sr_limit r) (sr_offset r) url), s')
      | (Inl e, s') \<Rightarrow> (search_bad_request (Inl e), s'))"

section \<open>Creating a search\<close>

definition search_post :: "('r, 'row, 'doc) search_app \<Rightarrow> search_schema res \<Rightarrow> string res" where
  "search_post A body =
     search_bad_request (bindR body (\<lambda>q. bindR (search_serialize (se_num (sa_env A)) q) (\<lambda>bs. Inr (compress_query (sa_brotli A) bs))))"

section \<open>What the endpoints do\<close>

lemma search_bad_request_Inr [simp]: "search_bad_request x = Inr y \<longleftrightarrow> x = Inr y"
  by (auto simp: search_bad_request_def split: sum.splits exn.splits)

lemma search_bad_request_Inl: "\<exists>e'. search_bad_request (Inl e) = Inl e'"
  by (cases e) (simp_all add: search_bad_request_def)

lemma search_link:
  assumes "brotli_law (sa_brotli A) (sa_unbrotli A)" "search_ok q" "search_post A (Inr q) = Inr text"
  shows "decode_search A (r\<lparr>sr_q := text, sr_compressed := True\<rparr>) = Inr (search_kept q)"
  using assms search_round_trip [of q "sa_env A"] by (auto simp: search_post_def decode_search_def bindR_eq_Inr compress_round_trip)

lemma ordered_or_filtered_fails:
  assumes "decode_search A r = Inr q" "sorted_by q \<noteq> None \<or> s_filters q \<noteq> None"
  shows "\<exists>e. search_get A D url r s = (Inl e, s)"
proof -
  have "\<exists>e. search_body A D r s = (Inl e, s)"
    using assms by (cases "authenticate_for_scope A (s_scope q) r"; cases "sa_include A (s_scope q)")
      (auto simp: search_body_def bindS_def sorting_text_def filters_text_def)
  then obtain e where "search_body A D r s = (Inl e, s)" by blast
  then show ?thesis using search_bad_request_Inl [of e] by (auto simp: search_get_def)
qed

lemma run_engine_fails:
  assumes "s_scope q \<noteq> QUEUES" "\<And>p text. sa_dumps A p = Inr text \<Longrightarrow> length text \<le> MAX_VALUE_SIZE"
  shows "\<exists>e. run_engine A D q caller r s = (Inl e, s)"
proof -
  have "\<exists>e. cache_set A (s_scope q) key p s = (Inl e, s)" for key p
    using assms(2) [of p] by (cases "sa_dumps A p") (auto simp: cache_set_def bindS_def no_ttl)
  with assms(1) show ?thesis
    by (auto simp: run_engine_def Let_def bindS_def split: sum.splits prod.splits) (metis Inl_Inr_False prod.inject)+
qed

lemma uncached_search_fails:
  assumes "decode_search A r = Inr q" "s_scope q \<noteq> QUEUES" "rget (sa_redis A) s (request_key A q r) = None"
    and "\<And>p text. sa_dumps A p = Inr text \<Longrightarrow> length text \<le> MAX_VALUE_SIZE"
  shows "\<exists>e. search_get A D url r s = (Inl e, s)"
proof -
  have "\<exists>e. search_body A D r s = (Inl e, s)"
    using assms(1-3) run_engine_fails [OF assms(2,4)]
    by (auto simp: search_body_def bindS_def cache_get_def split: sum.splits)
  then obtain e where "search_body A D r s = (Inl e, s)" by blast
  then show ?thesis using search_bad_request_Inl [of e] by (auto simp: search_get_def)
qed

lemma queue_search_succeeds:
  assumes "search_get A D url r s = (Inr (docs, status_code, headers), s')" "decode_search A r = Inr q" "s_scope q = QUEUES"
  shows "\<exists>caller visible rows. authenticate_for_scope A QUEUES r = Inr caller \<and> queue_visibility_where D caller = Inr visible \<and>
     sa_matches A q = Inr rows \<and> s' = s \<and>
     (let page = take (nat (sr_limit r)) (drop (nat (sr_offset r)) (filter (\<lambda>row. visible (sa_queue A row)) rows)) in
      docs = (if sr_reversed r then rev (sa_dump A page) else sa_dump A page))"
  using assms
  by (auto simp: search_get_def search_body_def run_engine_def visible_rows_def engine_page_def build_pagination_response_def
      bindS_def bindR_eq_Inr Let_def split: sum.splits prod.splits if_splits)

end
