(* ===== verification/Search_Properties.thy ===== *)
theory Search_Properties
  imports Search_Endpoint
begin

text \<open>What holds of search queries, their links and the endpoint that runs them.\<close>

section \<open>A platform to run on\<close>

definition demo_num :: num_env where
  "demo_num = \<lparr>fits = (\<lambda>k x. 0 \<le> x \<and> x < 256 \<and> of_int \<lfloor>x\<rfloor> = x),
     pack_float = (\<lambda>k x. word_of_int \<lfloor>x\<rfloor> # replicate (float_width k - 1) 0),
     unpack_float = (\<lambda>k bs. of_int (uint (hd bs))),
     to_millis = (\<lambda>_ t. t div 1000), of_millis = (\<lambda>m. Inr (m * 1000))\<rparr>"

definition demo_text :: text_env where
  "demo_text = \<lparr>iso_datetime = (\<lambda>_. None), re_search = (\<lambda>_ _. False), re_groups = (\<lambda>_. Some 0)\<rparr>"

definition demo_meta :: "model_class \<Rightarrow> model_meta" where
  "demo_meta _ = \<lparr>m_attributes = [''bpm'', ''ranked''], m_annotation = (\<lambda>f. if f = ''bpm'' then Some FloatT else Some IntT),
     m_relationship = (\<lambda>_. None)\<rparr>"

lemma demo_num_laws: "num_laws demo_num"
proof -
  have "(unsigned (word_of_int \<lfloor>x\<rfloor> :: 8 word) :: rat) = of_int \<lfloor>x\<rfloor>" if "0 \<le> x" "x < 256" for x :: rat
  proof -
    have "uint (word_of_int \<lfloor>x\<rfloor> :: 8 word) = \<lfloor>x\<rfloor>" using that by (simp add: unsigned_of_int take_bit_int_eq_self floor_less_iff)
    then have "(of_int (uint (word_of_int \<lfloor>x\<rfloor> :: 8 word)) :: rat) = of_int \<lfloor>x\<rfloor>" by (simp only:)
    then show ?thesis by simp
  qed
  moreover have "length (word_of_int \<lfloor>x\<rfloor> # replicate (float_width k - 1) 0) = float_width k" for x :: rat and k
    by (cases k) simp_all
  ultimately show ?thesis by (auto simp: num_laws_def demo_num_def)
qed

section \<open>Conditions\<close>

text \<open>
  Validated conditions survive the binary format: whatever stands around them, reading what was written
  returns conditions with the same values for every operator and stops right behind them, provided that
  integers are at least \<open>-2\<^sup>6\<^sup>3\<close> and datetimes naive, not before 1970 and whole seconds.
\<close>
theorem conditions_survive:
  assumes "num_laws E" "conditions_validate T raw = Inr c" "\<forall>v \<in> set (values_for_validation c). value_ok v"
    and "conditions_serialize E c = Inr bs"
  shows "\<exists>c'. conditions_deserialize E T (pre @ bs @ post) (length pre) = Inr (c', length pre + length bs) \<and>
     field_values c' = field_values c \<and> set (c_set c') \<subseteq> set (c_set c)"
proof -
  have "reads (conditions_deserialize E T) bs (written c)" using conditions_round_trip [OF assms] .
  moreover have "field_values (written c) = field_values c" by (simp add: written_def field_values_def)
  moreover obtain d where "conditions_of T d = Inr c" using assms(2) by (auto simp: conditions_validate_def bindR_eq_Inr)
  then have "set (c_set (written c)) \<subseteq> set (c_set c)" using conditions_of_keys(2) by (auto simp: written_def)
  ultimately show ?thesis by (auto dest: readsD)
qed

definition demo_conditions :: cond_raw where
  "demo_conditions = RDict [(''gte'', CVal (PInt (-300))), (''in'', CList [PInt 5, PInt 70000]), (''neq'', CNone)]"

theorem conditions_survive_witness:
  "\<exists>c bs c'. conditions_validate demo_text demo_conditions = Inr c \<and> conditions_serialize demo_num c = Inr bs \<and>
     conditions_deserialize demo_num demo_text ([255] @ bs @ []) 1 = Inr (c', 1 + length bs) \<and>
     c_gte c' = Some (PInt (-300)) \<and> c_in c' = Some [PInt 5, PInt 70000]"
proof -
  define c where "c = \<lparr>c_eq = None, c_neq = None, c_lt = None, c_lte = None, c_gt = None, c_gte = Some (PInt (-300)),
    c_in = Some [PInt 5, PInt 70000], c_not_in = None, c_is_null = None, c_regex = None, c_not_regex = None, c_set = [''gte'', ''in'', ''neq'']\<rparr>"
  have valid: "conditions_validate demo_text demo_conditions = Inr c" unfolding c_def by code_simp
  have c: "c_gte c = Some (PInt (-300))" "c_in c = Some [PInt 5, PInt 70000]" "values_for_validation c = [PInt (-300), PInt 5, PInt 70000]"
      "map (\<lambda>v. v \<noteq> None) (field_values c) = [False, False, False, False, False, True, True, False, False, False, False]"
      "present (field_values c) = [FScalar (PInt (-300)), FSeq [PInt 5, PInt 70000]]"
    by (simp_all add: c_def values_for_validation_def present_def field_values_def)
  have "\<exists>bs. encode_varint (encode_zigzag (-300)) = Inr bs" unfolding encode_varint_total by code_simp
  moreover have "\<exists>bs. encode_varint 70000 = Inr bs" unfolding encode_varint_total by simp
  moreover obtain p where p: "pack_H (flags_from 0 (map (\<lambda>v. v \<noteq> None) (field_values c))) = Inr p"
    using reads_flags_H [of "map (\<lambda>v. v \<noteq> None) (field_values c)"] unfolding c(4) by auto
  ultimately obtain bs where bs: "conditions_serialize demo_num c = Inr bs"
    unfolding conditions_serialize_def p c(5) by (auto simp: write_counted_def tagged_def pack_B_def type_ids)
  have "\<forall>v \<in> set (values_for_validation c). value_ok v" by (simp add: c(3))
  from conditions_survive [OF demo_num_laws valid this bs, of "[255]" "[]"] obtain c' where
      c': "conditions_deserialize demo_num demo_text ([255] @ bs @ []) (length [255 :: 8 word]) = Inr (c', length [255 :: 8 word] + length bs)"
        "field_values c' = field_values c" by blast
  from c'(2) have "c_gte c' = c_gte c" "c_in c' = c_in c"
    by (auto simp: field_values_def dest!: option.inj_map_strong [rotated])
  with valid c bs c'(1) show ?thesis by auto
qed

section \<open>Filters\<close>

text \<open>
  Accepted filters are typed: every field of every category is a searchable field of the model of its
  category, its conditions passed their own validation, and every value in them has the type of the
  column (an \<^verbatim>\<open>int\<close> also where a \<^verbatim>\<open>float\<close> is stored).
\<close>
theorem accepted_filters_typed:
  assumes "validate_filters T M raw = Inr validated" "(category, ff) \<in> set validated" "(name, node) \<in> set ff"
  shows "\<exists>m c x f t. map_of categories category = Some m \<and> node = FCond c \<and> conditions_validate T x = Inr c \<and>
     f \<in> set model_fields \<and> mf_class f = m \<and> (mf_field f = name \<or> mf_alias f = Some name) \<and>
     m_annotation (M m) (case mf_alias f of Some a \<Rightarrow> a | None \<Rightarrow> name) = Some t \<and>
     (\<forall>v \<in> set (values_for_validation c). validate_type t v)"
proof -
  obtain m c x where m: "map_of categories category = Some m" "node = FCond c" "conditions_validate T x = Inr c"
      "validate_node M m name (FCond c) = Inr ()"
    using validate_filters_sound [OF assms] by blast
  from m(4) obtain f t where f: "from_model_field_name (ClassArg m) name = Inr f"
      "m_annotation (M m) (case mf_alias f of Some a \<Rightarrow> a | None \<Rightarrow> name) = Some t"
      "\<forall>v \<in> set (values_for_validation c). validate_type t v"
    by (auto split: if_splits sum.splits option.splits)
  from f(1) have "find (\<lambda>f. ClassArg m = ClassArg (mf_class f) \<and> (name = mf_field f \<or> mf_alias f = Some name)) model_fields = Some f"
    by (auto simp: from_model_field_name_def split: option.splits)
  then have "f \<in> set model_fields" "mf_class f = m" "mf_field f = name \<or> mf_alias f = Some name"
    by (auto simp: find_Some_iff)
  with m(1-3) f(2,3) show ?thesis by blast
qed

theorem accepted_filters_typed_witness:
  "\<exists>ff node f. validate_filters demo_text demo_meta [(''beatmap'', RawFilters [(''bpm'', RInput (CVal (PInt 180)))])] = Inr [(''beatmap'', ff)] \<and>
     ff = [(''bpm'', node)] \<and> f \<in> set model_fields \<and> mf_class f = BEATMAP_SNAPSHOT \<and> mf_field f = ''bpm''"
proof -
  let ?raw = "[(''beatmap'', RawFilters [(''bpm'', RInput (CVal (PInt 180)))])]"
  let ?c = "\<lparr>c_eq = Some (PInt 180), c_neq = None, c_lt = None, c_lte = None, c_gt = None, c_gte = None, c_in = None, c_not_in = None,
     c_is_null = None, c_regex = None, c_not_regex = None, c_set = [''eq'']\<rparr>"
  have ok: "validate_filters demo_text demo_meta ?raw = Inr [(''beatmap'', [(''bpm'', FCond ?c)])]" by code_simp
  from accepted_filters_typed [OF ok, of "''beatmap''" "[(''bpm'', FCond ?c)]" "''bpm''" "FCond ?c"]
  obtain m f where f: "map_of categories ''beatmap'' = Some m" "f \<in> set model_fields" "mf_class f = m" "mf_field f = ''bpm'' \<or> mf_alias f = Some ''bpm''"
    by auto
  then have "mf_class f = BEATMAP_SNAPSHOT" "mf_field f = ''bpm''" by (auto simp: categories_def mf_alias_def split: if_splits)
  with ok f(2) show ?thesis by blast
qed

section \<open>Links\<close>

text \<open>
  A search link leads back to its query: what the endpoint hands out for a valid query decodes to a query
  with the same scope, terms, case sensitivity, multipliers and sorting, the same weights in the
  categories of the scope and the default weights elsewhere; the filters come back empty, because only
  empty filters can be written. The padding that is cut off is restored with pads to spare (C26).
\<close>
theorem search_link_decodes:
  assumes "brotli_law (sa_brotli A) (sa_unbrotli A)" "search_ok q" "search_post A (Inr q) = Inr link"
  shows "\<exists>q'. decode_search A (r\<lparr>sr_q := link, sr_compressed := True\<rparr>) = Inr q' \<and> s_scope q' = s_scope q \<and> s_sorting q' = sorted_by q \<and>
     (s_terms q' = None \<longleftrightarrow> s_terms q = None) \<and>
     (\<forall>st st'. s_terms q = Some st \<and> s_terms q' = Some st' \<longrightarrow>
        st_terms st' = st_terms st \<and> st_case_sensitive st' = st_case_sensitive st \<and> st_patterns st' = st_patterns st \<and>
        (\<forall>used i. scope_fields (s_scope q) = Inr used \<and> i < 12 \<longrightarrow>
           weights (st_weights st') ! i = (if used ! i then weights (st_weights st) else weight_defaults) ! i)) \<and>
     (\<forall>f. s_filters q = Some f \<longrightarrow> s_filters q' = Some no_filters \<and> (\<forall>ff \<in> set (category_filters f). \<not> enabled ff))"
proof -
  note decoded = search_link [OF assms, of r]
  have weights: "weights (weights_kept (s_scope q) w) ! i = (if used ! i then weights w else weight_defaults) ! i"
    if scope: "scope_fields (s_scope q) = Inr used" and i: "i < 12" and ok: "weights_ok w" for used i w
  proof -
    have len: "length used = 12" using scope_fields_length [OF scope] .
    obtain w' where w': "field_weights_of (kept used weight_defaults (weights w)) = Inr w'"
      using kept_signed [OF len ok] by (simp add: field_weights_of_def)
    then have "weights_kept (s_scope q) w = w'" by (simp add: weights_kept_def scope)
    moreover have "weights w' = kept used weight_defaults (weights w)"
      by (rule weights_of_weights [OF w']) (simp add: kept_def len)
    ultimately show ?thesis using i len by (simp add: kept_def)
  qed
  have "\<forall>ff \<in> set (category_filters f). \<not> enabled ff" if "s_filters q = Some f" for f
    using assms(3) that filters_serialize_iff [of "se_num (sa_env A)" f]
    by (auto simp: search_post_def search_serialize_def optional_def bindR_eq_Inr)
  with decoded weights assms(2) show ?thesis
    by (intro exI [of _ "search_kept q"]) (auto simp: search_kept_def terms_kept_def search_ok_def terms_ok_def)
qed

definition demo_patterns :: pattern_multipliers where
  "demo_patterns = \<lparr>exact = Some 5, prefix = None, suffix = Some 3, substring = Some (-7)\<rparr>"

definition demo_weights :: field_weights where
  "demo_weights = \<lparr>w_beatmap = \<lparr>w_version = Some 9\<rparr>,
     w_beatmapset = \<lparr>w_title = None, w_title_unicode = Some 5, w_artist = Some 4, w_artist_unicode = Some 4, w_creator = Some 3,
       w_source = Some 2, w_tags = Some 1, w_description = Some 0\<rparr>,
     w_queue = \<lparr>w_name = Some 6, w_queue_description = Some 0\<rparr>, w_request = \<lparr>w_comment = Some 0\<rparr>\<rparr>"

definition demo_query :: search_schema where
  "demo_query = \<lparr>s_scope = BEATMAPSETS,
     s_terms = Some \<lparr>st_terms = [codes ''camellia''], st_case_sensitive = True, st_patterns = demo_patterns, st_weights = demo_weights\<rparr>,
     s_sorting = Some [\<lparr>so_field = \<lparr>mf_class = BEATMAPSET_SNAPSHOT, mf_field = ''bpm''\<rparr>, so_order = Some DESCENDING\<rparr>],
     s_filters = None\<rparr>"

definition demo_search_env :: search_env where
  "demo_search_env = \<lparr>se_num = demo_num, se_text = demo_text, se_shlex = (\<lambda>_. None), se_meta = demo_meta\<rparr>"

definition demo_queue :: "int \<Rightarrow> int \<Rightarrow> int \<Rightarrow> queue_entry" where
  "demo_queue n owner visibility = \<lparr>qe_id = n, qe_user_id = owner, qe_name = ''q'', qe_description = [], qe_is_open = True,
     qe_visibility = visibility, qe_managers = []\<rparr>"

definition demo_app_search :: "((string \<times> string) list, queue_entry, int) search_app" where
  "demo_app_search = \<lparr>sa_env = demo_search_env, sa_brotli = (\<lambda>bs. bs), sa_unbrotli = Some,
     sa_redis = \<lparr>rget = map_of, rttl = (\<lambda>_ _. None), rhgetall = (\<lambda>_ _. []), rexists = (\<lambda>s k. map_of s k \<noteq> None),
       rset_nx_ex = (\<lambda>k v _. retS True), rset_ex = (\<lambda>k v _ s. (Inr (), (k, v) # s)), rincr = (\<lambda>_. retS 1), rdecr = (\<lambda>_. retS 0),
       rexpire = (\<lambda>_ _. retS ()), rdelete = (\<lambda>_. retS ()), rhset = (\<lambda>_ _. retS ()), rpublish = (\<lambda>_ _. retS ())\<rparr>,
     sa_show = (\<lambda>_. ''terms''), sa_sha256 = (\<lambda>x. x), sa_dumps = (\<lambda>_. Inr ''page''), sa_loads = (\<lambda>_. Inr ([], 0)),
     sa_parse = (\<lambda>_. Inr \<lparr>s_scope = QUEUES, s_terms = None, s_sorting = None, s_filters = None\<rparr>), sa_include = (\<lambda>_. Inr ()),
     sa_matches = (\<lambda>_. Inr [demo_queue 1 7 2, demo_queue 2 8 2, demo_queue 3 8 0]), sa_queue = (\<lambda>q. q), sa_dump = map qe_id,
     sa_bearer = (\<lambda>_. Inr (Some [(''sub'', JInt 7)])), sa_api_key = (\<lambda>_. None)\<rparr>"

definition demo_search_request :: search_request where
  "demo_search_request = \<lparr>sr_q = [], sr_compressed = False, sr_reversed = False, sr_limit = 50, sr_offset = 0,
     sr_authorization = ''Bearer t'', sr_api_key = None\<rparr>"

lemma demo_query_ok: "search_ok demo_query"
proof -
  have "validate_search demo_query = Inr ()" by code_simp
  moreover have "validate_terms (\<lambda>_. None) (TermList [codes ''camellia'']) = Inr [codes ''camellia'']"
    by (simp add: validate_terms_def codes_def blank_def)
  moreover have "pattern_ok demo_patterns"
    by (simp add: pattern_ok_def pattern_multipliers_of_def demo_patterns_def multipliers_def signed_byte_def)
  moreover have "weights_ok demo_weights"
    by (simp add: weights_ok_def field_weights_of_def demo_weights_def weights_def signed_byte_def)
  moreover have "\<lparr>mf_class = BEATMAPSET_SNAPSHOT, mf_field = ''bpm''\<rparr> \<in> set model_fields"
    by (simp add: model_fields_def fields_of_def beatmapset_snapshot_fields_def)
  ultimately show ?thesis by (simp add: search_ok_def terms_ok_def demo_query_def)
qed

lemma demo_law: "brotli_law (sa_brotli demo_app_search) (sa_unbrotli demo_app_search)"
  by (simp add: brotli_law_def demo_app_search_def)

lemma demo_link: "\<exists>link. search_post demo_app_search (Inr demo_query) = Inr link"
proof -
  have "\<not> isRaise (search_post demo_app_search (Inr demo_query))" by code_simp
  then show ?thesis by (cases "search_post demo_app_search (Inr demo_query)") auto
qed

theorem search_link_decodes_witness:
  "\<exists>link q'. search_post demo_app_search (Inr demo_query) = Inr link \<and>
     decode_search demo_app_search (demo_search_request\<lparr>sr_q := link, sr_compressed := True\<rparr>) = Inr q' \<and> s_sorting q' = s_sorting demo_query"
proof -
  obtain link where link: "search_post demo_app_search (Inr demo_query) = Inr link" using demo_link by blast
  from search_link_decodes [OF demo_law demo_query_ok link, of demo_search_request] link show ?thesis
    by (auto simp: sorted_by_def demo_query_def)
qed

section \<open>The endpoint\<close>



text \<open>
  A search over queues shows only what the caller may read: when it succeeds, the caller was
  authenticated, the rows on the page are among the rows that match, and each of them is a queue the
  caller may also read on its own (C28).
\<close>
theorem queue_search_private:
  assumes "search_get A D url r s = (Inr (docs, status_code, headers), s')" "decode_search A r = Inr q" "s_scope q = QUEUES"
    and "sa_matches A q = Inr rows" "\<forall>row \<in> set rows. sa_queue A row \<in> set (dir_queues D)"
  shows "\<exists>caller page. authenticate_for_scope A QUEUES r = Inr caller \<and> set page \<subseteq> set rows \<and>
     docs = (if sr_reversed r then rev (sa_dump A page) else sa_dump A page) \<and> s' = s \<and>
     (\<forall>row \<in> set page. can_read_queue D (sa_queue A row) caller = Inr True)"
proof -
  obtain caller visible where c: "authenticate_for_scope A QUEUES r = Inr caller" "queue_visibility_where D caller = Inr visible" "s' = s"
      "let page = take (nat (sr_limit r)) (drop (nat (sr_offset r)) (filter (\<lambda>row. visible (sa_queue A row)) rows)) in
       docs = (if sr_reversed r then rev (sa_dump A page) else sa_dump A page)"
    using queue_search_succeeds [OF assms(1-3)] assms(4) by auto
  let ?page = "take (nat (sr_limit r)) (drop (nat (sr_offset r)) (filter (\<lambda>row. visible (sa_queue A row)) rows))"
  have page: "row \<in> set rows" "visible (sa_queue A row)" if "row \<in> set ?page" for row
    using in_set_dropD [OF in_set_takeD [OF that]] by simp_all
  then have "\<forall>row \<in> set ?page. can_read_queue D (sa_queue A row) caller = Inr True"
    using assms(5) listed_readable [OF c(2)] by blast
  moreover have "set ?page \<subseteq> set rows" using page by blast
  moreover have "docs = (if sr_reversed r then rev (sa_dump A ?page) else sa_dump A ?page)" using c(4) unfolding Let_def .
  ultimately show ?thesis using c(1,3) by blast
qed

definition demo_directory :: directory where
  "demo_directory = \<lparr>dir_roles = (\<lambda>_. None), dir_queues = [demo_queue 1 7 2, demo_queue 2 8 2, demo_queue 3 8 0], dir_next = 4\<rparr>"

theorem queue_search_private_witness:
  "\<exists>page headers. search_get demo_app_search demo_directory ''/search'' demo_search_request [] = (Inr ([1, 3], 200, headers), []) \<and>
     [1, 3] = map qe_id page \<and> (\<forall>row \<in> set page. can_read_queue demo_directory row (JInt 7) = Inr True)"
proof -
  have run: "search_get demo_app_search demo_directory ''/search'' demo_search_request [] =
      (Inr ([1, 3], 200, [(''Content-Type'', ''application/json''), (''X-Total-Count'', ''2''), (''X-Page-Size'', ''50'')]), [])"
    by code_simp
  have auth: "authenticate_for_scope demo_app_search QUEUES demo_search_request = Inr (JInt 7)" by code_simp
  have parts: "sa_queue demo_app_search = (\<lambda>q. q)" "sa_dump demo_app_search = map qe_id" "\<not> sr_reversed demo_search_request"
    by (simp_all add: demo_app_search_def demo_search_request_def)
  have "decode_search demo_app_search demo_search_request = Inr \<lparr>s_scope = QUEUES, s_terms = None, s_sorting = None, s_filters = None\<rparr>"
    by (simp add: decode_search_def demo_app_search_def demo_search_request_def)
  note q = this
  have rows: "sa_matches demo_app_search \<lparr>s_scope = QUEUES, s_terms = None, s_sorting = None, s_filters = None\<rparr> =
      Inr [demo_queue 1 7 2, demo_queue 2 8 2, demo_queue 3 8 0]"
    by (simp add: demo_app_search_def)
  have known: "\<forall>row \<in> set [demo_queue 1 7 2, demo_queue 2 8 2, demo_queue 3 8 0]. sa_queue demo_app_search row \<in> set (dir_queues demo_directory)"
    by (simp add: parts demo_directory_def)
  have scope: "s_scope \<lparr>s_scope = QUEUES, s_terms = None, s_sorting = None, s_filters = None\<rparr> = QUEUES" by simp
  obtain caller page where "authenticate_for_scope demo_app_search QUEUES demo_search_request = Inr caller"
      "[1, 3] = (if sr_reversed demo_search_request then rev (sa_dump demo_app_search page) else sa_dump demo_app_search page)"
      "\<forall>row \<in> set page. can_read_queue demo_directory (sa_queue demo_app_search row) caller = Inr True"
    using queue_search_private [OF run q scope rows known] by blast
  then have "[1, 3] = map qe_id page" "\<forall>row \<in> set page. can_read_queue demo_directory row (JInt 7) = Inr True"
    using auth parts by simp_all
  with run show ?thesis by (intro exI conjI)
qed

end
