(* ===== verification/Crud_Read.thy ===== *)
theory Crud_Read
  imports Access_Control Fetchers
begin

text \<open>
  Reading from the database (\<^verbatim>\<open>src/app/database/crud/r.py\<close>): how a statement is built from the arguments of
  \<^verbatim>\<open>db.get\<close> and \<^verbatim>\<open>db.get_many\<close>. A statement is data: the entity or columns it selects, joins, conditions,
  order, loading options and page. What SQLAlchemy knows of a model is a \<open>mapper\<close>; the models are a type
  parameter. What a statement returns is up to PostgreSQL and is a parameter.
\<close>

section \<open>Models\<close>

record column_info =
  ci_name :: string
  ci_primary_key :: bool
  ci_nullable :: bool
  ci_default :: bool
  ci_autoincrement :: bool
  ci_unique :: bool
  ci_string :: bool

record 'm relation =
  rel_target :: 'm
  rel_uselist :: bool
  rel_lazy :: bool

record 'm mapper =
  mp_name :: string
  mp_columns :: "column_info list"
  mp_relationships :: "(string \<times> 'm relation) list"
  mp_hybrids :: "(string \<times> bool) list"
  mp_constraints :: "string list list"

definition required_columns :: "'m mapper \<Rightarrow> string list" where
  "required_columns m =
     map ci_name (filter (\<lambda>c. \<not> ci_primary_key c \<and> \<not> ci_nullable c \<and> \<not> ci_default c \<or> ci_primary_key c \<and> \<not> ci_autoincrement c) (mp_columns m))"

definition column_names :: "'m mapper \<Rightarrow> string list" where "column_names m = map ci_name (mp_columns m)"
definition relationship_names :: "'m mapper \<Rightarrow> string list" where "relationship_names m = map fst (mp_relationships m)"
definition hybrid_property_names :: "'m mapper \<Rightarrow> string list" where "hybrid_property_names m = map fst (mp_hybrids m)"

definition all_names :: "'m mapper \<Rightarrow> string list" where
  "all_names m = column_names m @ relationship_names m @ hybrid_property_names m"

definition primary_keys :: "'m mapper \<Rightarrow> string list" where
  "primary_keys m = map ci_name (filter ci_primary_key (mp_columns m))"

definition attribute_names :: "'m mapper \<Rightarrow> string list" where
  "attribute_names m = column_names m @ hybrid_property_names m"

section \<open>Statements\<close>

datatype filter_operator = EQ | NEQ | GT | LT | GTE | LTE | IN | NOT_IN | IS_NULL | REGEX | NOT_REGEX

datatype 'm condition =
    Compare filter_operator 'm string json
  | AnyOf 'm string "'m condition list"
  | HasOne 'm string "'m condition list"

datatype load_kind = Selectin | Joined

datatype 'm load_option =
    Eager load_kind 'm string "'m load_option list"
  | Noload 'm string

record ('m, 'w) statement =
  st_model :: 'm
  st_targets :: "string list option"
  st_joins :: "('m \<times> 'w option) list"
  st_where :: "'w list"
  st_conditions :: "'m condition list"
  st_order :: "('m \<times> string \<times> bool) list"
  st_search :: "(string list \<times> string \<times> string list) option"
  st_options :: "'m load_option list"
  st_excluded :: "((load_kind \<times> string) list \<times> string) list"
  st_limit :: "int option"
  st_offset :: int

section \<open>Parts of a statement\<close>

definition select_model :: "'m \<Rightarrow> ('m, 'w) statement" where
  "select_model m = \<lparr>st_model = m, st_targets = None, st_joins = [], st_where = [], st_conditions = [], st_order = [], st_search = None,
     st_options = [], st_excluded = [], st_limit = None, st_offset = 0\<rparr>"

definition apply_select :: "('m \<Rightarrow> 'm mapper) \<Rightarrow> 'm \<Rightarrow> string list \<Rightarrow> ('m, 'w) statement res" where
  "apply_select M m names =
     bindR (map_res (\<lambda>name.
       if name \<notin> set (all_names (M m)) then Inl (PyExc ''ValueError'')
       else if name \<in> set (relationship_names (M m)) then Inl (PyExc ''ValueError'')
       else Inr name) names) (\<lambda>targets. Inr ((select_model m)\<lparr>st_targets := Some targets\<rparr>))"

text \<open>
  The forms of a join: one model, one model with a condition, or a list of these. A model in a list is
  replaced by a list that holds a tuple, which \<^verbatim>\<open>Select.join\<close> refuses.
\<close>

datatype ('m, 'w) join_arg =
    JoinModel 'm
  | JoinOn 'm 'w
  | JoinList "('m \<times> 'w option) option list"
  | JoinOther

definition apply_join :: "('m, 'w) join_arg \<Rightarrow> ('m, 'w) statement \<Rightarrow> ('m, 'w) statement res" where
  "apply_join j s =
     (case j of
        JoinModel m \<Rightarrow> Inr (s\<lparr>st_joins := [(m, None)]\<rparr>)
      | JoinOn m w \<Rightarrow> Inr (s\<lparr>st_joins := [(m, Some w)]\<rparr>)
      | JoinList ts \<Rightarrow>
          if None \<in> set ts then Inl (PyExc ''TypeError'')
          else if \<exists>t \<in> set ts. map_option snd t = Some None then Inl (PyExc ''ArgumentError'')
          else Inr (s\<lparr>st_joins := map the ts\<rparr>)
      | JoinOther \<Rightarrow> Inl (PyExc ''TypeError''))"

definition apply_where :: "'w list \<Rightarrow> ('m, 'w) statement \<Rightarrow> ('m, 'w) statement" where
  "apply_where ws s = s\<lparr>st_where := st_where s @ ws\<rparr>"

text \<open>\<^verbatim>\<open>prefix, attr_name = field.split(".", 1)\<close>\<close>

definition split_field :: "string \<Rightarrow> (string \<times> string) res" where
  "split_field f =
     (if CHR ''.'' \<in> set f then Inr (takeWhile (\<lambda>c. c \<noteq> CHR ''.'') f, tl (dropWhile (\<lambda>c. c \<noteq> CHR ''.'') f))
      else Inl (PyExc ''ValueError''))"

definition sorting_target :: "('m \<Rightarrow> 'm mapper) \<Rightarrow> 'm \<Rightarrow> ('m \<times> 'w option) list \<Rightarrow> string \<Rightarrow> 'm res" where
  "sorting_target M m joins prefix =
     (if prefix = mp_name (M m) then Inr m
      else (case find (\<lambda>(j, _). mp_name (M j) = prefix) (rev joins) of Some (j, _) \<Rightarrow> Inr j | None \<Rightarrow> Inl (PyExc ''ValueError'')))"

definition sorting_clause :: "('m \<Rightarrow> 'm mapper) \<Rightarrow> 'm \<Rightarrow> ('m \<times> 'w option) list \<Rightarrow> json \<Rightarrow> ('m \<times> string \<times> bool) res" where
  "sorting_clause M m joins item =
     (case item of
        JDict d \<Rightarrow>
          (let field = dget d ''field''; order = dget_or d ''order'' (JStr ''asc'') in
           if \<not> truthy field then Inl (PyExc ''ValueError'')
           else (case field of
               JStr f \<Rightarrow>
                 bindR (split_field f) (\<lambda>(prefix, attr).
                 bindR (sorting_target M m joins prefix) (\<lambda>target.
                 if attr \<notin> set (attribute_names (M target)) then Inl (PyExc ''ValueError'')
                 else if order = JStr ''asc'' then Inr (target, attr, False)
                 else if order = JStr ''desc'' then Inr (target, attr, True)
                 else Inl (PyExc ''ValueError'')))
             | _ \<Rightarrow> Inl (PyExc ''AttributeError'')))
      | _ \<Rightarrow> Inl (PyExc ''TypeError''))"

definition apply_sorting :: "('m \<Rightarrow> 'm mapper) \<Rightarrow> 'm \<Rightarrow> json \<Rightarrow> ('m, 'w) statement \<Rightarrow> ('m, 'w) statement res" where
  "apply_sorting M m sorting s =
     (case sorting of
        JList items \<Rightarrow> bindR (map_res (sorting_clause M m (st_joins s)) items) (\<lambda>clauses. Inr (s\<lparr>st_order := clauses\<rparr>))
      | _ \<Rightarrow> Inl (PyExc ''TypeError''))"

section \<open>Filters\<close>

definition operator_names :: "(string \<times> filter_operator) list" where
  "operator_names = [(''EQ'', EQ), (''NEQ'', NEQ), (''GT'', GT), (''LT'', LT), (''GTE'', GTE), (''LTE'', LTE), (''IN'', IN), (''NOT_IN'', NOT_IN),
     (''IS_NULL'', IS_NULL), (''REGEX'', REGEX), (''NOT_REGEX'', NOT_REGEX)]"

definition ascii_upper :: "char \<Rightarrow> char" where
  "ascii_upper c = (let n = of_char c in if 97 \<le> n \<and> n \<le> (122 :: nat) then char_of (n - 32) else c)"

definition operator_from_name :: "string \<Rightarrow> filter_operator res" where
  "operator_from_name name = (case map_of operator_names (map ascii_upper name) of Some x \<Rightarrow> Inr x | None \<Rightarrow> Inl (PyExc ''ValueError''))"

text \<open>
  \<^verbatim>\<open>get_filter_condition\<close> on a column. SQLAlchemy refuses to order by null or a truth value, and needs a list
  for membership.
\<close>

definition unordered :: "json \<Rightarrow> bool" where
  "unordered v = (case v of JNull \<Rightarrow> True | JBool _ \<Rightarrow> True | _ \<Rightarrow> False)"

definition is_list :: "json \<Rightarrow> bool" where
  "is_list v = (case v of JList _ \<Rightarrow> True | _ \<Rightarrow> False)"

definition get_filter_condition :: "filter_operator \<Rightarrow> 'm \<Rightarrow> string \<Rightarrow> json \<Rightarrow> 'm condition res" where
  "get_filter_condition f m column v =
     (if f \<in> {GT, LT, GTE, LTE} \<and> unordered v then Inl (PyExc ''ArgumentError'')
      else if f \<in> {IN, NOT_IN} \<and> \<not> is_list v then Inl (PyExc ''ArgumentError'')
      else Inr (Compare f m column v))"

fun parse_filters :: "('m \<Rightarrow> 'm mapper) \<Rightarrow> 'm \<Rightarrow> dict \<Rightarrow> 'm condition list res" where
  "parse_filters M m [] = Inr []"
| "parse_filters M m ((attr, v) # rest) =
     bindR
       (if attr \<in> set (attribute_names (M m)) then
          (case v of
             JDict ops \<Rightarrow> map_res (\<lambda>(name, x). bindR (operator_from_name name) (\<lambda>f. get_filter_condition f m attr x)) ops
           | _ \<Rightarrow> bindR (get_filter_condition EQ m attr v) (\<lambda>c. Inr [c]))
        else (case map_of (mp_relationships (M m)) attr of
            Some rel \<Rightarrow>
              (case v of
                 JDict sub \<Rightarrow>
                   bindR (parse_filters M (rel_target rel) sub) (\<lambda>nested.
                     Inr (if nested = [] then [] else [if rel_uselist rel then AnyOf m attr nested else HasOne m attr nested]))
               | _ \<Rightarrow> Inl (PyExc ''TypeError''))
          | None \<Rightarrow> Inl (PyExc ''ValueError'')))
       (\<lambda>conds. bindR (parse_filters M m rest) (\<lambda>more. Inr (conds @ more)))"

definition apply_filters :: "('m \<Rightarrow> 'm mapper) \<Rightarrow> 'm \<Rightarrow> dict \<Rightarrow> ('m, 'w) statement \<Rightarrow> ('m, 'w) statement res" where
  "apply_filters M m filters s = bindR (parse_filters M m filters) (\<lambda>conds. Inr (s\<lparr>st_conditions := st_conditions s @ conds\<rparr>))"

text \<open>\<^verbatim>\<open>Select.filter_by\<close> raises for a keyword that is no attribute of the entity.\<close>

definition filter_by :: "('m \<Rightarrow> 'm mapper) \<Rightarrow> 'm \<Rightarrow> dict \<Rightarrow> ('m, 'w) statement \<Rightarrow> ('m, 'w) statement res" where
  "filter_by M m kwargs s =
     bindR (map_res (\<lambda>(k, v). if k \<in> set (all_names (M m)) then Inr (Compare EQ m k v) else Inl (PyExc ''InvalidRequestError'')) kwargs) (\<lambda>conds.
       Inr (s\<lparr>st_conditions := st_conditions s @ conds\<rparr>))"

section \<open>Search\<close>

fun split_whitespace :: "string \<Rightarrow> string list" where
  "split_whitespace [] = []"
| "split_whitespace (c # rest) =
     (if is_space c then split_whitespace rest
      else (case (rest, split_whitespace rest) of
              ([], _) \<Rightarrow> [[c]]
            | (c' # _, ws) \<Rightarrow> if is_space c' then [c] # ws else (case ws of w # ws' \<Rightarrow> (c # w) # ws' | [] \<Rightarrow> [[c]])))"

definition apply_search_simple :: "('m \<Rightarrow> 'm mapper) \<Rightarrow> 'm \<Rightarrow> string \<Rightarrow> ('m, 'w) statement \<Rightarrow> ('m, 'w) statement" where
  "apply_search_simple M m search s =
     (let string_columns = map ci_name (filter ci_string (mp_columns (M m))) @ map fst (filter snd (mp_hybrids (M m))) in
      if string_columns = [] then s else s\<lparr>st_search := Some (string_columns, search, split_whitespace search)\<rparr>)"

text \<open>
  The search engine joins its own table expressions; it is a parameter that is absent for a model that no
  scope searches.
\<close>

type_synonym ('m, 'w) search_engine = "'m \<Rightarrow> (string \<Rightarrow> bool \<Rightarrow> ('m, 'w) statement \<Rightarrow> ('m, 'w) statement res) option"

definition apply_search ::
  "('m \<Rightarrow> 'm mapper) \<Rightarrow> ('m, 'w) search_engine \<Rightarrow> 'm \<Rightarrow> string \<Rightarrow> string \<Rightarrow> bool \<Rightarrow> ('m, 'w) statement \<Rightarrow> ('m, 'w) statement res" where
  "apply_search M E m search search_mode relevance s =
     (let search = strip search in
      if search = [] then Inr s
      else if search_mode = ''engine'' then
        (case E m of Some run \<Rightarrow> run search relevance s | None \<Rightarrow> Inr (apply_search_simple M m search s))
      else Inr (apply_search_simple M m search s))"

section \<open>Loading of relationships\<close>

definition kind_of :: "'m relation \<Rightarrow> load_kind" where
  "kind_of rel = (if rel_uselist rel then Selectin else Joined)"

fun parse_includes :: "('m \<Rightarrow> 'm mapper) \<Rightarrow> 'm \<Rightarrow> dict \<Rightarrow> 'm load_option list res" where
  "parse_includes M m [] = Inr []"
| "parse_includes M m ((attr, v) # rest) =
     bindR
       (case map_of (mp_relationships (M m)) attr of
          Some rel \<Rightarrow>
            (case v of
               JBool True \<Rightarrow> Inr [Eager (kind_of rel) m attr []]
             | JBool False \<Rightarrow> Inr [Noload m attr]
             | JDict sub \<Rightarrow> bindR (parse_includes M (rel_target rel) sub) (\<lambda>opts. Inr [Eager (kind_of rel) m attr opts])
             | _ \<Rightarrow> Inl (PyExc ''TypeError''))
        | None \<Rightarrow> if attr \<in> set (attribute_names (M m)) then Inr [] else Inl (PyExc ''ValueError''))
       (\<lambda>opts. bindR (parse_includes M m rest) (\<lambda>more. Inr (opts @ more)))"

definition apply_include :: "('m \<Rightarrow> 'm mapper) \<Rightarrow> 'm \<Rightarrow> dict \<Rightarrow> ('m, 'w) statement \<Rightarrow> ('m, 'w) statement res" where
  "apply_include M m inc s = bindR (parse_includes M m inc) (\<lambda>opts. Inr (s\<lparr>st_options := opts\<rparr>))"

lemma size_included: "map_of inc k = Some v \<Longrightarrow> size v < size (JDict inc)"
  by (induction inc) (auto split: if_splits)

lemma included_nonempty: "map_of inc k = Some v \<Longrightarrow> size (JDict []) < size (JDict inc)"
  by (cases inc) auto

text \<open>
  The lazy relationships that a statement must not load, each with the path of loaded relationships that
  leads to it.
\<close>

function exclude_unincluded :: "('m \<Rightarrow> 'm mapper) \<Rightarrow> 'm \<Rightarrow> dict \<Rightarrow> (load_kind \<times> string) list \<Rightarrow> ((load_kind \<times> string) list \<times> string) list res" where
  "exclude_unincluded M m inc base =
     bindR (map_res (\<lambda>(k, rel).
       case map_of inc k of
         None \<Rightarrow> Inr [(base, k)]
       | Some v \<Rightarrow>
           (case v of
              JBool False \<Rightarrow> Inr [(base, k)]
            | JDict [] \<Rightarrow> Inr [(base, k)]
            | JBool True \<Rightarrow> exclude_unincluded M (rel_target rel) [] (base @ [(kind_of rel, k)])
            | JDict sub \<Rightarrow> exclude_unincluded M (rel_target rel) sub (base @ [(kind_of rel, k)])
            | _ \<Rightarrow> Inl (PyExc ''TypeError'')))
       (filter (\<lambda>(_, rel). rel_lazy rel) (mp_relationships (M m)))) (\<lambda>found. Inr (concat found))"
  by pat_completeness auto
termination
  by (relation "measure (\<lambda>(M, m, inc, base). size (JDict inc))") (use size_included included_nonempty in \<open>auto simp del: json.size\<close>)

declare exclude_unincluded.simps [simp del]

definition apply_exclude_lazy :: "('m \<Rightarrow> 'm mapper) \<Rightarrow> 'm \<Rightarrow> dict option \<Rightarrow> ('m, 'w) statement \<Rightarrow> ('m, 'w) statement res" where
  "apply_exclude_lazy M m inc s =
     bindR (exclude_unincluded M m (case inc of None \<Rightarrow> [] | Some d \<Rightarrow> d) []) (\<lambda>xs. Inr (s\<lparr>st_excluded := xs\<rparr>))"

section \<open>Reading\<close>

record ('m, 'w) read_args =
  ra_select :: "string list"
  ra_join :: "('m, 'w) join_arg option"
  ra_where :: "'w list option"
  ra_sorting :: "json option"
  ra_filters :: "dict option"
  ra_search :: "string option"
  ra_search_mode :: string
  ra_search_relevance :: bool
  ra_include :: "dict option"
  ra_limit :: int
  ra_offset :: int
  ra_reversed :: bool

definition optionally :: "('a \<Rightarrow> 's \<Rightarrow> 's res) \<Rightarrow> 'a option \<Rightarrow> 's \<Rightarrow> 's res" where
  "optionally f x s = (case x of None \<Rightarrow> Inr s | Some y \<Rightarrow> f y s)"

definition construct_stmt ::
  "('m \<Rightarrow> 'm mapper) \<Rightarrow> ('m, 'w) search_engine \<Rightarrow> 'm \<Rightarrow> ('m, 'w) read_args \<Rightarrow> dict \<Rightarrow> ('m, 'w) statement res" where
  "construct_stmt M E m a kwargs =
     bindR (if ra_select a \<noteq> [] then apply_select M m (ra_select a) else Inr (select_model m)) (\<lambda>s.
     bindR (optionally apply_join (ra_join a) s) (\<lambda>s.
     bindR (optionally (\<lambda>ws s. Inr (apply_where ws s)) (ra_where a) s) (\<lambda>s.
     bindR (case ra_sorting a of Some x \<Rightarrow> apply_sorting M m x s
            | None \<Rightarrow> Inr (s\<lparr>st_order := map (\<lambda>k. (m, k, False)) (primary_keys (M m))\<rparr>)) (\<lambda>s.
     bindR (optionally (apply_filters M m) (ra_filters a) s) (\<lambda>s.
     bindR (filter_by M m kwargs s) (\<lambda>s.
     bindR (case ra_search a of Some x \<Rightarrow>
               if x \<noteq> [] then apply_search M E m x (ra_search_mode a) (ra_search_relevance a \<and> ra_sorting a = None) s else Inr s
            | None \<Rightarrow> Inr s) (\<lambda>s.
     bindR (case ra_include a of Some d \<Rightarrow> if d \<noteq> [] \<and> ra_select a = [] then apply_include M m d s else Inr s | None \<Rightarrow> Inr s) (\<lambda>s.
       if ra_select a = [] then apply_exclude_lazy M m (ra_include a) s else Inr s))))))))"

text \<open>The rows that PostgreSQL returns for a statement, as a parameter; \<^verbatim>\<open>session.scalar\<close> takes the first.\<close>

definition crud_get ::
  "('m \<Rightarrow> 'm mapper) \<Rightarrow> ('m, 'w) search_engine \<Rightarrow> (('m, 'w) statement \<Rightarrow> 'row list res) \<Rightarrow> 'm \<Rightarrow> ('m, 'w) read_args \<Rightarrow> dict \<Rightarrow> 'row option res" where
  "crud_get M E db m a kwargs =
     bindR (construct_stmt M E m a kwargs) (\<lambda>s.
     bindR (db (s\<lparr>st_offset := ra_offset a\<rparr>)) (\<lambda>rows. Inr (case rows of [] \<Rightarrow> None | r # _ \<Rightarrow> Some r)))"

definition crud_get_many ::
  "('m \<Rightarrow> 'm mapper) \<Rightarrow> ('m, 'w) search_engine \<Rightarrow> (('m, 'w) statement \<Rightarrow> 'row list res) \<Rightarrow> 'm \<Rightarrow> ('m, 'w) read_args \<Rightarrow> dict \<Rightarrow> 'row list res" where
  "crud_get_many M E db m a kwargs =
     bindR (construct_stmt M E m a kwargs) (\<lambda>s.
     bindR (db (s\<lparr>st_limit := Some (clamp (ra_limit a) QUERY_MIN_LIMIT QUERY_MAX_LIMIT), st_offset := ra_offset a\<rparr>)) (\<lambda>rows.
       Inr (if ra_reversed a then rev rows else rows)))"

text \<open>With \<^verbatim>\<open>_count\<close> neither limit nor offset is applied.\<close>

definition crud_get_counted ::
  "('m \<Rightarrow> 'm mapper) \<Rightarrow> ('m, 'w) search_engine \<Rightarrow> (('m, 'w) statement \<Rightarrow> 'row list res) \<Rightarrow> 'm \<Rightarrow> ('m, 'w) read_args \<Rightarrow> dict \<Rightarrow> ('row list \<times> nat) res" where
  "crud_get_counted M E db m a kwargs =
     bindR (construct_stmt M E m a kwargs) (\<lambda>s. bindR (db s) (\<lambda>rows. Inr (rows, length rows)))"

end
