(* ===== verification/Crud_Statements.thy ===== *)
theory Crud_Statements
  imports Crud_Read
begin

text \<open>
  What holds of the statements that the read layer builds: every attribute they mention belongs to its
  model, and every lazy relationship within reach is decided.
\<close>

section \<open>Well-formed statements\<close>

fun condition_on :: "('m \<Rightarrow> 'm mapper) \<Rightarrow> 'm \<Rightarrow> 'm condition \<Rightarrow> bool" where
  "condition_on M m (Compare f m' c v) \<longleftrightarrow> m' = m \<and> c \<in> set (all_names (M m))"
| "condition_on M m (AnyOf m' k conds) \<longleftrightarrow> m' = m \<and>
     (case map_of (mp_relationships (M m)) k of
        Some rel \<Rightarrow> rel_uselist rel \<and> (\<forall>c \<in> set conds. condition_on M (rel_target rel) c) | None \<Rightarrow> False)"
| "condition_on M m (HasOne m' k conds) \<longleftrightarrow> m' = m \<and>
     (case map_of (mp_relationships (M m)) k of
        Some rel \<Rightarrow> \<not> rel_uselist rel \<and> (\<forall>c \<in> set conds. condition_on M (rel_target rel) c) | None \<Rightarrow> False)"

fun option_on :: "('m \<Rightarrow> 'm mapper) \<Rightarrow> 'm \<Rightarrow> 'm load_option \<Rightarrow> bool" where
  "option_on M m (Noload m' k) \<longleftrightarrow> m' = m \<and> k \<in> set (relationship_names (M m))"
| "option_on M m (Eager kd m' k opts) \<longleftrightarrow> m' = m \<and>
     (case map_of (mp_relationships (M m)) k of
        Some rel \<Rightarrow> kd = kind_of rel \<and> (\<forall>x \<in> set opts. option_on M (rel_target rel) x) | None \<Rightarrow> False)"

definition order_on :: "('m \<Rightarrow> 'm mapper) \<Rightarrow> 'm \<Rightarrow> ('m \<times> 'w option) list \<Rightarrow> 'm \<times> string \<times> bool \<Rightarrow> bool" where
  "order_on M m joins = (\<lambda>(t, attr, _). (t = m \<or> t \<in> fst ` set joins) \<and> attr \<in> set (attribute_names (M t)))"

definition typed_statement :: "('m \<Rightarrow> 'm mapper) \<Rightarrow> ('m, 'w) statement \<Rightarrow> bool" where
  "typed_statement M s \<longleftrightarrow>
     (\<forall>names. st_targets s = Some names \<longrightarrow> set names \<subseteq> set (attribute_names (M (st_model s)))) \<and>
     (\<forall>c \<in> set (st_conditions s). condition_on M (st_model s) c) \<and>
     (\<forall>x \<in> set (st_order s). order_on M (st_model s) (st_joins s) x) \<and>
     (\<forall>x \<in> set (st_options s). option_on M (st_model s) x)"

lemma map_res_set: "map_res f xs = Inr ys \<Longrightarrow> y \<in> set ys \<longleftrightarrow> (\<exists>x \<in> set xs. f x = Inr y)"
  by (induction xs arbitrary: ys) (auto simp: bindR_eq_Inr)

lemma map_res_each: "map_res f xs = Inr ys \<Longrightarrow> x \<in> set xs \<Longrightarrow> \<exists>y. f x = Inr y"
  by (induction xs arbitrary: ys) (auto simp: bindR_eq_Inr)

lemma names_in: "c \<in> set (attribute_names M) \<Longrightarrow> c \<in> set (all_names M)"
  by (auto simp: attribute_names_def all_names_def)

lemma filter_condition_on:
  assumes "get_filter_condition f m c v = Inr x" "c \<in> set (attribute_names (M m))"
  shows "condition_on M m x"
  using assms by (auto simp: get_filter_condition_def names_in split: if_splits)

lemma parse_filters_on:
  assumes "parse_filters M m fs = Inr conds" "c \<in> set conds"
  shows "condition_on M m c"
  using assms
proof (induction M m fs arbitrary: conds c rule: parse_filters.induct)
  case (2 M m attr v rest)
  obtain here more where parts: "conds = here @ more" "parse_filters M m rest = Inr more" and
      h: "(if attr \<in> set (attribute_names (M m)) then
          (case v of
             JDict ops \<Rightarrow> map_res (\<lambda>(name, x). bindR (operator_from_name name) (\<lambda>f. get_filter_condition f m attr x)) ops
           | _ \<Rightarrow> bindR (get_filter_condition EQ m attr v) (\<lambda>c. Inr [c]))
        else (case map_of (mp_relationships (M m)) attr of
            Some rel \<Rightarrow>
              (case v of
                 JDict sub \<Rightarrow>
                   bindR (parse_filters M (rel_target rel) sub) (\<lambda>nested.
                     Inr (if nested = [] then [] else [if rel_uselist rel then AnyOf m attr nested else HasOne m attr nested]))
               | _ \<Rightarrow> Inl (PyExc ''TypeError''))
          | None \<Rightarrow> Inl (PyExc ''ValueError''))) = Inr here"
    using "2.prems"(1) by (auto simp: bindR_eq_Inr)
  have "condition_on M m c" if "c \<in> set here"
  proof (cases "attr \<in> set (attribute_names (M m))")
    case True
    note attr = this
    show ?thesis
    proof (cases "\<exists>ops. v = JDict ops")
      case True
      then show ?thesis using h attr that filter_condition_on by (fastforce simp: bindR_eq_Inr map_res_set)
    next
      case False
      then have "bindR (get_filter_condition EQ m attr v) (\<lambda>c. Inr [c]) = Inr here" using h attr by (cases v) auto
      then show ?thesis using attr that filter_condition_on by (fastforce simp: bindR_eq_Inr)
    qed
  next
    case False
    then obtain rel sub nested where r: "map_of (mp_relationships (M m)) attr = Some rel" "v = JDict sub"
        "parse_filters M (rel_target rel) sub = Inr nested"
        "here = (if nested = [] then [] else [if rel_uselist rel then AnyOf m attr nested else HasOne m attr nested])"
      using h by (auto simp: bindR_eq_Inr split: option.splits json.splits)
    have "condition_on M (rel_target rel) x" if "x \<in> set nested" for x
      using "2.IH"(1) [OF False r(1,2,3) that] .
    with that r show ?thesis by (auto split: if_splits)
  qed
  moreover have "condition_on M m c" if "c \<in> set more" using "2.IH"(2) parts(2) h that by (simp add: bindR_eq_Inr)
  ultimately show ?case using "2.prems"(2) parts(1) by auto
qed simp

lemma parse_includes_on:
  assumes "parse_includes M m inc = Inr opts" "x \<in> set opts"
  shows "option_on M m x"
  using assms
proof (induction M m inc arbitrary: opts x rule: parse_includes.induct)
  case (2 M m attr v rest)
  show ?case
  proof (cases "map_of (mp_relationships (M m)) attr")
    case None
    with "2.prems" "2.IH"(2) show ?thesis by (auto simp: bindR_eq_Inr split: if_splits)
  next
    case (Some rel)
    then have "attr \<in> set (relationship_names (M m))" by (force simp: relationship_names_def dest: map_of_SomeD)
    with Some "2.prems" "2.IH" show ?thesis
      by (auto simp: bindR_eq_Inr split: json.splits bool.splits)
  qed
qed simp

lemma sorting_clause_on:
  assumes "sorting_clause M m joins item = Inr x"
  shows "order_on M m joins x"
proof -
  obtain d f prefix attr target where parts: "item = JDict d" "dget d ''field'' = JStr f" "split_field f = Inr (prefix, attr)"
      "sorting_target M m joins prefix = Inr target" "attr \<in> set (attribute_names (M target))" "fst x = target" "fst (snd x) = attr"
    using assms by (auto simp: sorting_clause_def Let_def bindR_eq_Inr split: json.splits if_splits)
  have "j \<in> fst ` set joins" if "find f (rev joins) = Some (j, w)" for f j w
    using that by (metis find_Some_iff image_eqI fst_conv nth_mem set_rev)
  then have "target = m \<or> target \<in> fst ` set joins"
    using parts(4) by (auto simp: sorting_target_def split: if_splits option.splits)
  with parts(5-7) show ?thesis by (cases x) (auto simp: order_on_def)
qed

definition typed_for :: "('m \<Rightarrow> 'm mapper) \<Rightarrow> 'm \<Rightarrow> ('m, 'w) statement \<Rightarrow> bool" where
  "typed_for M m s \<longleftrightarrow> typed_statement M s \<and> st_model s = m"

text \<open>What the search engine adds keeps a statement well-formed.\<close>

definition engine_typed :: "('m \<Rightarrow> 'm mapper) \<Rightarrow> ('m, 'w) search_engine \<Rightarrow> bool" where
  "engine_typed M E \<longleftrightarrow> (\<forall>m run q r s s'. E m = Some run \<longrightarrow> run q r s = Inr s' \<longrightarrow> typed_for M m s \<longrightarrow> typed_for M m s')"

lemma typed_start:
  assumes "(if names \<noteq> [] then apply_select M m names else Inr (select_model m)) = Inr s"
  shows "typed_for M m s \<and> st_order s = []"
proof (cases "names = []")
  case True
  with assms show ?thesis by (auto simp: typed_for_def typed_statement_def select_model_def)
next
  case False
  then obtain ts where "map_res (\<lambda>name. if name \<notin> set (all_names (M m)) then Inl (PyExc ''ValueError'')
       else if name \<in> set (relationship_names (M m)) then Inl (PyExc ''ValueError'') else Inr name) names = Inr ts"
      "s = (select_model m)\<lparr>st_targets := Some ts\<rparr>"
    using assms by (auto simp: apply_select_def bindR_eq_Inr)
  from map_res_set [OF this(1)] this(2) show ?thesis
    by (auto simp: typed_for_def typed_statement_def select_model_def all_names_def attribute_names_def split: if_splits)
qed

lemma typed_parts:
  "typed_for M m s \<Longrightarrow> st_order s = [] \<Longrightarrow> optionally apply_join j s = Inr s' \<Longrightarrow> typed_for M m s' \<and> st_order s' = []"
  "typed_for M m s \<Longrightarrow> st_order s = [] \<Longrightarrow> optionally (\<lambda>ws s. Inr (apply_where ws s)) w s = Inr s' \<Longrightarrow> typed_for M m s' \<and> st_order s' = []"
  "typed_for M m s \<Longrightarrow> apply_exclude_lazy M m i s = Inr s' \<Longrightarrow> typed_for M m s'"
  by (auto simp: typed_for_def typed_statement_def optionally_def apply_join_def apply_where_def apply_exclude_lazy_def bindR_eq_Inr
      split: option.splits join_arg.splits if_splits)

lemma typed_sorting:
  assumes "typed_for M m s" "(case x of Some x \<Rightarrow> apply_sorting M m x s
       | None \<Rightarrow> Inr (s\<lparr>st_order := map (\<lambda>k. (m, k, False)) (primary_keys (M m))\<rparr>)) = Inr s'"
  shows "typed_for M m s'"
proof (cases x)
  case None
  with assms show ?thesis
    by (auto simp: typed_for_def typed_statement_def order_on_def primary_keys_def attribute_names_def column_names_def)
next
  case (Some y)
  with assms obtain items clauses where "map_res (sorting_clause M m (st_joins s)) items = Inr clauses" "s' = s\<lparr>st_order := clauses\<rparr>"
    by (auto simp: apply_sorting_def bindR_eq_Inr split: json.splits)
  with assms(1) map_res_set [OF this(1)] sorting_clause_on show ?thesis by (fastforce simp: typed_for_def typed_statement_def)
qed

lemma typed_filters:
  assumes "typed_for M m s" "optionally (apply_filters M m) f s = Inr s'"
  shows "typed_for M m s'"
  using assms parse_filters_on [of M m]
  by (auto simp: typed_for_def typed_statement_def optionally_def apply_filters_def bindR_eq_Inr split: option.splits)

lemma typed_filter_by:
  assumes "typed_for M m s" "filter_by M m kwargs s = Inr s'"
  shows "typed_for M m s'"
proof -
  obtain conds where c: "map_res (\<lambda>(k, v). if k \<in> set (all_names (M m)) then Inr (Compare EQ m k v) else Inl (PyExc ''InvalidRequestError'')) kwargs = Inr conds"
      "s' = s\<lparr>st_conditions := st_conditions s @ conds\<rparr>"
    using assms(2) by (auto simp: filter_by_def bindR_eq_Inr)
  with assms(1) map_res_set [OF c(1)] show ?thesis by (auto simp: typed_for_def typed_statement_def split: if_splits)
qed

lemma typed_search:
  assumes "typed_for M m s" "engine_typed M E" "apply_search M E m q md r s = Inr s'"
  shows "typed_for M m s'"
proof -
  have "typed_for M m (apply_search_simple M m x s)" for x
    using assms(1) by (auto simp: apply_search_simple_def Let_def typed_for_def typed_statement_def)
  with assms show ?thesis
    unfolding apply_search_def Let_def engine_typed_def by (auto split: if_splits option.splits)
qed

lemma typed_include:
  assumes "typed_for M m s" "apply_include M m d s = Inr s'"
  shows "typed_for M m s'"
  using assms parse_includes_on [of M m] by (auto simp: apply_include_def bindR_eq_Inr typed_for_def typed_statement_def)

lemma construct_typed:
  assumes "construct_stmt M E m a kwargs = Inr s" "engine_typed M E"
  shows "typed_for M m s"
proof -
  from assms(1) obtain s1 s2 s3 s4 s5 s6 s7 s8 where
      1: "(if ra_select a \<noteq> [] then apply_select M m (ra_select a) else Inr (select_model m)) = Inr s1" and
      2: "optionally apply_join (ra_join a) s1 = Inr s2" and 3: "optionally (\<lambda>ws s. Inr (apply_where ws s)) (ra_where a) s2 = Inr s3" and
      4: "(case ra_sorting a of Some x \<Rightarrow> apply_sorting M m x s3
            | None \<Rightarrow> Inr (s3\<lparr>st_order := map (\<lambda>k. (m, k, False)) (primary_keys (M m))\<rparr>)) = Inr s4" and
      5: "optionally (apply_filters M m) (ra_filters a) s4 = Inr s5" and 6: "filter_by M m kwargs s5 = Inr s6" and
      7: "(case ra_search a of Some x \<Rightarrow>
               if x \<noteq> [] then apply_search M E m x (ra_search_mode a) (ra_search_relevance a \<and> ra_sorting a = None) s6 else Inr s6
            | None \<Rightarrow> Inr s6) = Inr s7" and
      8: "(case ra_include a of Some d \<Rightarrow> if d \<noteq> [] \<and> ra_select a = [] then apply_include M m d s7 else Inr s7 | None \<Rightarrow> Inr s7) = Inr s8" and
      9: "(if ra_select a = [] then apply_exclude_lazy M m (ra_include a) s8 else Inr s8) = Inr s"
    unfolding construct_stmt_def bindR_eq_Inr by blast
  have "typed_for M m s1" "st_order s1 = []" using typed_start [OF 1] by auto
  then have "typed_for M m s2" "st_order s2 = []" using typed_parts(1) [OF _ _ 2] by auto
  then have "typed_for M m s3" using typed_parts(2) [OF _ _ 3] by auto
  then have "typed_for M m s6" using typed_sorting [OF _ 4] typed_filters [OF _ 5] typed_filter_by [OF _ 6] by blast
  then have "typed_for M m s7" using 7 typed_search [OF _ assms(2)] by (auto split: option.splits if_splits)
  then have "typed_for M m s8" using 8 typed_include by (fastforce split: option.splits if_splits)
  then show ?thesis using 9 typed_parts(3) by (auto split: if_splits)
qed

section \<open>Lazy relationships\<close>

text \<open>The includes of a relationship that is loaded.\<close>

definition included :: "dict \<Rightarrow> string \<Rightarrow> dict option" where
  "included inc k =
     (case map_of inc k of
        Some (JBool True) \<Rightarrow> Some []
      | Some (JDict sub) \<Rightarrow> if sub = [] then None else Some sub
      | _ \<Rightarrow> None)"

definition lazy_relationships :: "'m mapper \<Rightarrow> (string \<times> 'm relation) list" where
  "lazy_relationships m = filter (\<lambda>(_, rel). rel_lazy rel) (mp_relationships m)"

text \<open>The model that a path of loaded relationships leads to, and what is included there.\<close>

fun follow :: "('m \<Rightarrow> 'm mapper) \<Rightarrow> 'm \<Rightarrow> dict \<Rightarrow> (load_kind \<times> string) list \<Rightarrow> ('m \<times> dict) option" where
  "follow M m inc [] = Some (m, inc)"
| "follow M m inc ((kd, k) # path) =
     (case map_of (lazy_relationships (M m)) k of
        Some rel \<Rightarrow> (case included inc k of Some sub \<Rightarrow> if kd = kind_of rel then follow M (rel_target rel) sub path else None | None \<Rightarrow> None)
      | None \<Rightarrow> None)"

definition undecided :: "('m \<Rightarrow> 'm mapper) \<Rightarrow> 'm \<Rightarrow> dict \<Rightarrow> (load_kind \<times> string) list \<Rightarrow> string \<Rightarrow> bool" where
  "undecided M m inc path k \<longleftrightarrow>
     (\<exists>m' inc'. follow M m inc path = Some (m', inc') \<and> k \<in> fst ` set (lazy_relationships (M m')) \<and> included inc' k = None)"

lemma undecided_simps:
  "undecided M m inc [] k \<longleftrightarrow> k \<in> fst ` set (lazy_relationships (M m)) \<and> included inc k = None"
  "undecided M m inc ((kd, k') # path) k \<longleftrightarrow>
     (\<exists>rel sub. map_of (lazy_relationships (M m)) k' = Some rel \<and> included inc k' = Some sub \<and> kd = kind_of rel \<and> undecided M (rel_target rel) sub path k)"
  by (auto simp: undecided_def split: option.splits if_splits)

lemma undecided_unfold:
  assumes "distinct (relationship_names (M m))"
  shows "(\<exists>path. p = base @ path \<and> undecided M m inc path k) \<longleftrightarrow>
     (\<exists>k' rel. (k', rel) \<in> set (lazy_relationships (M m)) \<and> (if included inc k' = None then p = base \<and> k = k'
        else \<exists>path. p = base @ (kind_of rel, k') # path \<and> undecided M (rel_target rel) (the (included inc k')) path k))" (is "?here \<longleftrightarrow> ?split")
proof
  have keys: "map_of (lazy_relationships (M m)) k' = Some rel \<longleftrightarrow> (k', rel) \<in> set (lazy_relationships (M m))" for k' rel
    using assms by (intro map_of_eq_Some_iff) (auto simp: lazy_relationships_def relationship_names_def distinct_map_filter)
  show ?split if ?here
  proof -
    from that obtain path where "p = base @ path" "undecided M m inc path k" by blast
    then show ?thesis by (cases path) (force simp: undecided_simps keys)+
  qed
  show ?here if ?split
  proof -
    from that obtain k' rel where mem: "(k', rel) \<in> set (lazy_relationships (M m))" and
      c: "if included inc k' = None then p = base \<and> k = k'
        else \<exists>path. p = base @ (kind_of rel, k') # path \<and> undecided M (rel_target rel) (the (included inc k')) path k" by blast
    show ?thesis
    proof (cases "included inc k'")
      case None
      with c mem have "p = base @ []" "undecided M m inc [] k" by (force simp: undecided_simps)+
      then show ?thesis by blast
    next
      case (Some sub)
      with c obtain path where "p = base @ (kind_of rel, k') # path" "undecided M (rel_target rel) sub path k" by auto
      moreover from this Some mem have "undecided M m inc ((kind_of rel, k') # path) k" by (auto simp: undecided_simps keys)
      ultimately show ?thesis by blast
    qed
  qed
qed

lemma excluded_exactly:
  assumes "exclude_unincluded M m inc base = Inr xs" "\<And>m. distinct (relationship_names (M m))"
  shows "(p, k) \<in> set xs \<longleftrightarrow> (\<exists>path. p = base @ path \<and> undecided M m inc path k)"
  using assms
proof (induction M m inc base arbitrary: xs p k rule: exclude_unincluded.induct)
  case (1 M m inc base)
  define f where "f = (\<lambda>(k, rel).
       case map_of inc k of
         None \<Rightarrow> Inr [(base, k)]
       | Some v \<Rightarrow>
           (case v of
              JBool False \<Rightarrow> Inr [(base, k)]
            | JDict [] \<Rightarrow> Inr [(base, k)]
            | JBool True \<Rightarrow> exclude_unincluded M (rel_target rel) [] (base @ [(kind_of rel, k)])
            | JDict sub \<Rightarrow> exclude_unincluded M (rel_target rel) sub (base @ [(kind_of rel, k)])
            | _ \<Rightarrow> Inl (PyExc ''TypeError'')))"
  obtain found where found: "map_res f (lazy_relationships (M m)) = Inr found" "xs = concat found"
    using "1.prems"(1) unfolding exclude_unincluded.simps [of M m inc base] f_def lazy_relationships_def by (auto simp: bindR_eq_Inr)
  have one: "(p, k) \<in> set ys \<longleftrightarrow> (if included inc k' = None then p = base \<and> k = k'
      else \<exists>path. p = base @ (kind_of rel, k') # path \<and> undecided M (rel_target rel) (the (included inc k')) path k)"
    if mem: "(k', rel) \<in> set (lazy_relationships (M m))" and ys: "f (k', rel) = Inr ys" for k' rel ys
  proof (cases "included inc k'")
    case None
    then have "ys = [(base, k')]" using ys by (auto simp: f_def included_def split: option.splits json.splits bool.splits if_splits list.splits)
    with None show ?thesis by auto
  next
    case (Some sub)
    have mem': "(k', rel) \<in> set (filter (\<lambda>(_, rel). rel_lazy rel) (mp_relationships (M m)))" using mem by (simp add: lazy_relationships_def)
    have "(p, k) \<in> set ys \<longleftrightarrow> (\<exists>path. p = (base @ [(kind_of rel, k')]) @ path \<and> undecided M (rel_target rel) sub path k)"
    proof (cases "map_of inc k' = Some (JBool True)")
      case True
      with Some ys have "sub = []" "exclude_unincluded M (rel_target rel) [] (base @ [(kind_of rel, k')]) = Inr ys"
        by (auto simp: f_def included_def)
      then show ?thesis using "1.IH"(1) [OF mem' HOL.refl True HOL.refl _ _ "1.prems"(2)] by blast
    next
      case False
      with Some have dict: "map_of inc k' = Some (JDict sub)" "sub \<noteq> []"
        by (auto simp: included_def split: option.splits json.splits bool.splits if_splits)
      then obtain x y where "sub = x # y" by (cases sub) auto
      with ys dict have "exclude_unincluded M (rel_target rel) sub (base @ [(kind_of rel, k')]) = Inr ys" by (auto simp: f_def)
      then show ?thesis using "1.IH"(2) dict mem' "1.prems"(2) \<open>sub = x # y\<close> by blast
    qed
    with Some show ?thesis by simp
  qed
  have "(p, k) \<in> set xs \<longleftrightarrow> (\<exists>k' rel ys. (k', rel) \<in> set (lazy_relationships (M m)) \<and> f (k', rel) = Inr ys \<and> (p, k) \<in> set ys)"
    unfolding found(2) using map_res_set [OF found(1)] by (auto simp: set_concat) (metis surj_pair)
  also have "\<dots> \<longleftrightarrow> (\<exists>k' rel. (k', rel) \<in> set (lazy_relationships (M m)) \<and> (if included inc k' = None then p = base \<and> k = k'
      else \<exists>path. p = base @ (kind_of rel, k') # path \<and> undecided M (rel_target rel) (the (included inc k')) path k))"
    using one map_res_each [OF found(1)] by (metis (no_types, lifting))
  also have "\<dots> \<longleftrightarrow> (\<exists>path. p = base @ path \<and> undecided M m inc path k)"
    by (rule undecided_unfold [OF "1.prems"(2), symmetric])
  finally show ?case .
qed

end
