(* ===== verification/Api_Utils.thy ===== *)
theory Api_Utils
  imports Crud_Statements
begin

text \<open>
  What the handlers of the API share (\<^verbatim>\<open>src/api/utils.py\<close>, \<^verbatim>\<open>src/api/decorators.py\<close>): the normalisation of
  query arguments, the coercion of path arguments, and the tree of fields that a response includes.
\<close>

section \<open>Query arguments\<close>

definition pop_auth_info :: "dict \<Rightarrow> dict \<times> dict" where
  "pop_auth_info kwargs =
     (filter (\<lambda>(k, _). k \<in> {''user'', ''token_info''}) kwargs, filter (\<lambda>(k, _). k \<notin> {''user'', ''token_info''}) kwargs)"

definition query_params :: "bool \<Rightarrow> string list" where
  "query_params many =
     (if \<not> many then [''include'']
      else [''sorting'', ''filters'', ''search'', ''search_mode'', ''search_relevance'', ''include'', ''limit'', ''offset'', ''reversed''])"

definition prime_query_kwargs :: "bool \<Rightarrow> dict \<Rightarrow> dict" where
  "prime_query_kwargs many kwargs =
     filter (\<lambda>(k, _). k \<notin> set (query_params many)) kwargs @
     map (\<lambda>(k, v). (''_'' @ k, v)) (filter (\<lambda>(k, _). k \<in> set (query_params many)) kwargs)"

definition api_query :: "bool \<Rightarrow> bool \<Rightarrow> (dict \<Rightarrow> 'a) \<Rightarrow> dict \<Rightarrow> 'a" where
  "api_query many secured handler kwargs =
     (let (auth_info, rest) = pop_auth_info kwargs; primed = prime_query_kwargs many rest in
      handler (if secured then primed @ auth_info else primed))"

section \<open>Coercion\<close>

text \<open>Annotations; a concrete type is known by the function it applies to a value.\<close>

datatype annotation =
    AnyA
  | BoolA
  | ConcreteA "json \<Rightarrow> json option"
  | OptionalA annotation
  | UnionA "annotation list"
  | LiteralA "json list"
  | ListA annotation
  | OtherA

definition coerce_bool :: "json \<Rightarrow> json" where
  "coerce_bool v =
     (case v of
        JStr s \<Rightarrow> (let l = map (\<lambda>c. let n = of_char c in if 65 \<le> n \<and> n \<le> (90 :: nat) then char_of (n + 32) else c) s in
          if l \<in> {''true'', ''1'', ''yes'', ''on''} then JBool True
          else if l \<in> {''false'', ''0'', ''no'', ''off''} then JBool False else JBool (truthy v))
      | _ \<Rightarrow> JBool (truthy v))"

definition as_list :: "json \<Rightarrow> json list" where
  "as_list v = (case v of JList xs \<Rightarrow> xs | _ \<Rightarrow> [v])"

definition first_success :: "'a res list \<Rightarrow> 'a res" where
  "first_success rs = (case find (\<lambda>r. \<not> isRaise r) rs of Some r \<Rightarrow> r | None \<Rightarrow> Inl (PyExc ''TypeError''))"

fun coerce_value :: "annotation \<Rightarrow> json \<Rightarrow> json res" where
  "coerce_value AnyA v = Inr v"
| "coerce_value BoolA v = Inr (if v = JNull then JNull else coerce_bool v)"
| "coerce_value (ConcreteA conv) v =
     (if v = JNull then Inr JNull else (case conv v of Some w \<Rightarrow> Inr w | None \<Rightarrow> Inl (PyExc ''TypeError'')))"
| "coerce_value (OptionalA a) v = (if v = JNull then Inr JNull else coerce_value a v)"
| "coerce_value (UnionA as) v = (if v = JNull then Inr JNull else first_success (map (\<lambda>a. coerce_value a v) as))"
| "coerce_value (LiteralA vs) v = (if v = JNull then Inr JNull else if v \<in> set vs then Inr v else Inl (PyExc ''TypeError''))"
| "coerce_value (ListA a) v =
     (if v = JNull then Inr JNull else bindR (map_res (coerce_value a) (as_list v)) (\<lambda>xs. Inr (JList xs)))"
| "coerce_value OtherA v = (if v = JNull then Inr JNull else Inl (PyExc ''TypeError''))"

definition coerce_int :: "json \<Rightarrow> json option" where
  "coerce_int v =
     (case v of
        JInt n \<Rightarrow> Some (JInt n)
      | JBool b \<Rightarrow> Some (JInt (if b then 1 else 0))
      | JFloat q \<Rightarrow> Some (JInt (if q < 0 then - \<lfloor>- q\<rfloor> else \<lfloor>q\<rfloor>))
      | JStr s \<Rightarrow> (case py_int s of Inr n \<Rightarrow> Some (JInt n) | Inl _ \<Rightarrow> None)
      | _ \<Rightarrow> None)"

text \<open>\<^verbatim>\<open>@coerce_arguments(snapshot_number={"latest": -1})\<close> on the value that the path has.\<close>

definition coerce_snapshot_number :: "json option \<Rightarrow> int res" where
  "coerce_snapshot_number arg =
     (case arg of
        None \<Rightarrow> Inr (-1)
      | Some v \<Rightarrow>
          if v = JStr ''latest'' then Inr (-1)
          else bindR (coerce_value (ConcreteA coerce_int) v) (\<lambda>w. case w of JInt n \<Rightarrow> Inr n | _ \<Rightarrow> Inl (PyExc ''TypeError'')))"

section \<open>The fields of a response\<close>

text \<open>A field is enabled or not, and is a plain field or has fields of its own.\<close>

datatype include_node = INode (enabled_by: json) (inner: "(string \<times> include_node) list option")

type_synonym include_tree = "(string \<times> include_node) list"

definition of_type :: "string \<Rightarrow> json \<Rightarrow> bool" where
  "of_type t j = (case j of JDict d \<Rightarrow> dget d ''type'' = JStr t | _ \<Rightarrow> False)"

definition default_of :: "json \<Rightarrow> json" where
  "default_of j = (case j of JDict d \<Rightarrow> dget_or d ''default'' (JBool False) | _ \<Rightarrow> JBool False)"

definition ends_with :: "string \<Rightarrow> string \<Rightarrow> bool" where
  "ends_with s t \<longleftrightarrow> length t \<le> length s \<and> drop (length s - length t) s = t"

definition properties_of :: "dict \<Rightarrow> dict" where
  "properties_of d = (case map_of d ''properties'' of Some (JDict p) \<Rightarrow> p | _ \<Rightarrow> d)"

lemma size_properties: "size (JDict (properties_of d)) \<le> size (JDict d)"
  unfolding properties_of_def using size_included [of d "''properties''"] by (auto split: option.splits json.splits simp del: json.size intro: less_imp_le)

lemma size_find: "find P xs = Some x \<Longrightarrow> size x < size (JList xs)"
  by (induction xs) (auto split: if_splits)

definition the_dict :: "json option \<Rightarrow> dict" where
  "the_dict j = (case j of Some (JDict d) \<Rightarrow> d | _ \<Rightarrow> [])"

lemma size_the_dict: "size (JDict (the_dict (find P xs))) \<le> size (JList xs)"
  using size_find [of P xs] by (auto simp: the_dict_def split: option.splits json.splits)

lemma size_field: "(k, v) \<in> set d \<Longrightarrow> size v < size (JDict d)"
  by (induction d) auto

lemma size_alternatives:
  assumes "(name, JDict sd) \<in> set (properties_of d)" "map_of sd ''oneOf'' = Some (JList alts)"
  shows "size (JDict (the_dict (find P alts))) < size (JDict d)"
  using size_the_dict [of P alts] size_included [OF assms(2)] size_field [OF assms(1)] size_properties [of d] by linarith

function extract_default_include :: "dict \<Rightarrow> include_tree res" where
  "extract_default_include d =
     (if d = [] then Inr []
      else if (case dget_or d ''title'' (JStr []) of JStr t \<Rightarrow> ends_with t ''Shallow'' | _ \<Rightarrow> False) then Inl (PyExc ''RuntimeError'')
      else bindR (map_res (\<lambda>(name, schema).
          case schema of
            JDict sd \<Rightarrow>
              if of_type ''boolean'' schema then Inr [(name, INode (default_of schema) None)]
              else (case map_of sd ''oneOf'' of
                  Some (JList alts) \<Rightarrow>
                    bindR (extract_default_include (the_dict (find (of_type ''object'') alts))) (\<lambda>nested.
                      Inr [(name, INode (case find (of_type ''boolean'') alts of Some b \<Rightarrow> default_of b | None \<Rightarrow> JBool False) (Some nested))])
                | _ \<Rightarrow> Inr [])
          | _ \<Rightarrow> Inl (PyExc ''AttributeError'')) (properties_of d)) (\<lambda>found. Inr (concat found)))"
  by pat_completeness auto
termination
  by (relation "measure (\<lambda>d. size (JDict d))") (use size_alternatives in \<open>auto simp del: json.size\<close>)

declare extract_default_include.simps [simp del]

definition append_res :: "'a list res \<Rightarrow> 'a list res \<Rightarrow> 'a list res" where
  "append_res xs ys = bindR xs (\<lambda>x. bindR ys (\<lambda>y. Inr (x @ y)))"

fun merge_include :: "include_tree \<Rightarrow> dict option \<Rightarrow> include_tree res" where
  "merge_include ts None = Inr ts"
| "merge_include [] (Some ov) = Inr []"
| "merge_include ((k, INode en sub) # rest) (Some ov) =
     append_res
       (case map_of ov k of
          None \<Rightarrow> Inr [(k, INode en sub)]
        | Some (JBool b) \<Rightarrow> Inr [(k, INode (JBool b) sub)]
        | Some (JDict d) \<Rightarrow>
            (case sub of
               Some ts \<Rightarrow> bindR (merge_include ts (Some d)) (\<lambda>merged. Inr [(k, INode (JBool True) (Some merged))])
             | None \<Rightarrow> Inl (PyExc ''AttributeError''))
        | Some _ \<Rightarrow> Inr [])
       (merge_include rest (Some ov))"

text \<open>What the formatting sees of an object: its attributes, the items of a collection, or neither.\<close>

datatype py_object = Object "(string \<times> py_object) list" | Items "py_object list" | NoneObject | Plain

definition getattr :: "py_object \<Rightarrow> string \<Rightarrow> py_object option" where
  "getattr obj k = (case obj of Object as \<Rightarrow> map_of as k | _ \<Rightarrow> None)"

datatype include_out = ITrue | INested "(string \<times> include_out) list" | IEach "(string \<times> include_out) list"

text \<open>\<^verbatim>\<open>child_obj\<close>: the first item of a collection, the collection itself when it is empty, or the value.\<close>

definition child_object :: "py_object option \<Rightarrow> (py_object \<times> bool) option" where
  "child_object v =
     (case v of
        None \<Rightarrow> None
      | Some NoneObject \<Rightarrow> None
      | Some (Items xs) \<Rightarrow> Some (if xs = [] then Items [] else hd xs, True)
      | Some x \<Rightarrow> Some (x, False))"

fun format_include :: "py_object \<Rightarrow> include_tree \<Rightarrow> (string \<times> include_out) list" where
  "format_include obj [] = []"
| "format_include obj ((field, INode en sub) # rest) =
     (if \<not> truthy en then []
      else (case sub of
          None \<Rightarrow> [(field, ITrue)]
        | Some ts \<Rightarrow>
            (case child_object (getattr obj field) of
               None \<Rightarrow> []
             | Some (x, each) \<Rightarrow> [(field, if each then IEach (format_include x ts) else INested (format_include x ts))]))) @
     format_include obj rest"

definition build_pydantic_include :: "py_object \<Rightarrow> dict \<Rightarrow> dict option \<Rightarrow> (string \<times> include_out) list res" where
  "build_pydantic_include obj include_schema request_include =
     bindR (extract_default_include include_schema) (\<lambda>defaults.
     bindR (merge_include defaults request_include) (\<lambda>merged. Inr (format_include obj merged)))"

section \<open>Only declared fields are included\<close>

text \<open>Whether a request turns a field on, and what it says of the fields below.\<close>

definition asked :: "dict option \<Rightarrow> string \<Rightarrow> json \<Rightarrow> bool" where
  "asked ov k en =
     (case ov of None \<Rightarrow> truthy en | Some d \<Rightarrow>
        (case map_of d k of None \<Rightarrow> truthy en | Some (JBool b) \<Rightarrow> b | Some (JDict _) \<Rightarrow> True | Some _ \<Rightarrow> False))"

definition below :: "dict option \<Rightarrow> string \<Rightarrow> dict option" where
  "below ov k = (case ov of None \<Rightarrow> None | Some d \<Rightarrow> (case map_of d k of Some (JDict e) \<Rightarrow> Some e | _ \<Rightarrow> None))"

fun allowed_out :: "include_tree \<Rightarrow> dict option \<Rightarrow> string \<times> include_out \<Rightarrow> bool" where
  "allowed_out ts ov (k, x) \<longleftrightarrow>
     (\<exists>(k', node) \<in> set ts. k' = k \<and> asked ov k (enabled_by node) \<and>
        (case x of
           ITrue \<Rightarrow> inner node = None
         | INested os \<Rightarrow> (case inner node of Some sub \<Rightarrow> (\<forall>y \<in> set os. allowed_out sub (below ov k) y) | None \<Rightarrow> False)
         | IEach os \<Rightarrow> (case inner node of Some sub \<Rightarrow> (\<forall>y \<in> set os. allowed_out sub (below ov k) y) | None \<Rightarrow> False)))"

text \<open>How a merged tree comes from the defaults.\<close>

definition node_from :: "include_tree \<Rightarrow> dict option \<Rightarrow> string \<Rightarrow> include_tree option \<Rightarrow> bool" where
  "node_from ts ov k sub \<longleftrightarrow>
     (\<exists>en0 sub0. (k, INode en0 sub0) \<in> set ts \<and> asked ov k en0 \<and>
        (case sub of None \<Rightarrow> sub0 = None | Some ms' \<Rightarrow> \<exists>ts'. sub0 = Some ts' \<and> merge_include ts' (below ov k) = Inr ms'))"

lemma node_from_mono: "node_from ts ov k sub \<Longrightarrow> set ts \<subseteq> set ts' \<Longrightarrow> node_from ts' ov k sub"
  unfolding node_from_def by blast

definition merged_from :: "include_tree \<Rightarrow> dict option \<Rightarrow> include_tree \<Rightarrow> bool" where
  "merged_from ts ov ms \<longleftrightarrow>
     (\<forall>k en sub. (k, INode en sub) \<in> set ms \<longrightarrow> truthy en \<longrightarrow> node_from ts ov k sub)"

lemma merged_from_mono: "merged_from ts ov ms \<Longrightarrow> set ts \<subseteq> set ts' \<Longrightarrow> set ms' \<subseteq> set ms \<Longrightarrow> merged_from ts' ov ms'"
  unfolding merged_from_def using node_from_mono by blast

lemma merged_from_append: "merged_from ts ov a \<Longrightarrow> merged_from ts ov b \<Longrightarrow> merged_from ts ov (a @ b)"
  unfolding merged_from_def by auto

lemma append_res_Inr: "append_res xs ys = Inr zs \<longleftrightarrow> (\<exists>x y. xs = Inr x \<and> ys = Inr y \<and> zs = x @ y)"
  by (auto simp: append_res_def bindR_eq_Inr)

lemma merge_include_from:
  assumes "merge_include ts ov = Inr ms"
  shows "merged_from ts ov ms"
proof (cases ov)
  case None
  then have "ms = ts" using assms by simp
  then show ?thesis using None unfolding merged_from_def node_from_def asked_def below_def by (force split: option.splits)
next
  case (Some d)
  show ?thesis using assms unfolding Some
  proof (induction ts arbitrary: ms)
    case (Cons t rest)
    obtain k en sub where t: "t = (k, INode en sub)" by (metis include_node.exhaust surj_pair)
    obtain here more where parts: "ms = here @ more" "merge_include rest (Some d) = Inr more" and
        h: "(case map_of d k of
          None \<Rightarrow> Inr [(k, INode en sub)]
        | Some (JBool b) \<Rightarrow> Inr [(k, INode (JBool b) sub)]
        | Some (JDict d) \<Rightarrow>
            (case sub of
               Some ts \<Rightarrow> bindR (merge_include ts (Some d)) (\<lambda>merged. Inr [(k, INode (JBool True) (Some merged))])
             | None \<Rightarrow> Inl (PyExc ''AttributeError''))
        | Some _ \<Rightarrow> Inr []) = Inr here"
      using Cons.prems unfolding t by (auto simp: append_res_Inr)
    have "merged_from [t] (Some d) here"
      using h unfolding merged_from_def node_from_def asked_def below_def t
      by (auto simp: bindR_eq_Inr split: option.splits json.splits)
    then have "merged_from (t # rest) (Some d) here" by (rule merged_from_mono) auto
    moreover have "merged_from (t # rest) (Some d) more" using Cons.IH [OF parts(2)] by (rule merged_from_mono) auto
    ultimately show ?case unfolding parts(1) by (rule merged_from_append)
  qed (simp add: merged_from_def)
qed

lemma format_include_allowed:
  assumes "merged_from ts ov ms" "y \<in> set (format_include obj ms)"
  shows "allowed_out ts ov y"
  using assms
proof (induction obj ms arbitrary: ts ov y rule: format_include.induct)
  case (2 obj field en sub rest)
  have rest: "merged_from ts ov rest" using "2.prems"(1) by (rule merged_from_mono) auto
  show ?case
  proof (cases "y \<in> set (format_include obj rest)")
    case True
    then show ?thesis using "2.IH" rest by blast
  next
    case False
    then have on: "truthy en" using "2.prems"(2) by (auto split: if_splits)
    with "2.prems"(1) obtain en0 sub0 where n: "(field, INode en0 sub0) \<in> set ts" "asked ov field en0"
        "case sub of None \<Rightarrow> sub0 = None | Some ms' \<Rightarrow> \<exists>ts'. sub0 = Some ts' \<and> merge_include ts' (below ov field) = Inr ms'"
      unfolding merged_from_def node_from_def by (meson list.set_intros(1))
    show ?thesis
    proof (cases sub)
      case None
      then have "y = (field, ITrue)" using False on "2.prems"(2) by auto
      then show ?thesis using n None by (auto intro!: bexI [OF _ n(1)])
    next
      case (Some ms')
      with n(3) obtain ts' where ts': "sub0 = Some ts'" "merged_from ts' (below ov field) ms'" by (auto dest: merge_include_from)
      obtain x each where c: "child_object (getattr obj field) = Some (x, each)"
          "y = (field, if each then IEach (format_include x ms') else INested (format_include x ms'))"
        using False on "2.prems"(2) Some by (cases "child_object (getattr obj field)") auto
      have "allowed_out ts' (below ov field) z" if "z \<in> set (format_include x ms')" for z
        using "2.IH"(1) [OF _ Some c(1) HOL.refl _ ts'(2) that] "2.IH"(2) [OF _ Some c(1) HOL.refl _ ts'(2) that] on by (cases each) simp_all
      then show ?thesis using n ts'(1) c(2) by (auto intro!: bexI [OF _ n(1)])
    qed
  qed
qed simp

lemma build_include_allowed:
  assumes "build_pydantic_include obj schema ov = Inr out" "y \<in> set out"
  shows "\<exists>ts. extract_default_include schema = Inr ts \<and> allowed_out ts ov y"
proof -
  from assms(1) obtain ts ms where "extract_default_include schema = Inr ts" "merge_include ts ov = Inr ms" "out = format_include obj ms"
    by (auto simp: build_pydantic_include_def bindR_eq_Inr)
  with format_include_allowed [OF merge_include_from, of ts ov ms y obj] assms(2) show ?thesis by auto
qed

end
