(* ===== verification/Actions.thy ===== *)
theory Actions
  imports Prelude
begin

text \<open>
  Actions over lists, handlers of exceptions, and the properties of the state that an action keeps.
\<close>

section \<open>Actions over lists and exceptions\<close>

fun mapS :: "('a \<Rightarrow> ('s, 'b) act) \<Rightarrow> 'a list \<Rightarrow> ('s, 'b list) act" where
  "mapS f [] = retS []"
| "mapS f (x # xs) = bindS (f x) (\<lambda>y. bindS (mapS f xs) (\<lambda>ys. retS (y # ys)))"

lemma mapS_cong [fundef_cong]: "xs = ys \<Longrightarrow> (\<And>x. x \<in> set ys \<Longrightarrow> f x = g x) \<Longrightarrow> mapS f xs = mapS g ys"
  by (induction ys arbitrary: xs) auto

text \<open>\<^verbatim>\<open>try: m except name: h\<close>\<close>

definition on_exn :: "string \<Rightarrow> ('s, 'a) act \<Rightarrow> ('s, 'a) act \<Rightarrow> ('s, 'a) act" where
  "on_exn name m h s =
     (case m s of (Inl e, s') \<Rightarrow> if e = PyExc name then h s' else (Inl e, s') | (Inr x, s') \<Rightarrow> (Inr x, s'))"

definition changeS :: "('s \<Rightarrow> 's) \<Rightarrow> ('s, unit) act" where
  "changeS f s = (Inr (), f s)"

section \<open>Actions that keep a property\<close>

definition always :: "('s \<Rightarrow> bool) \<Rightarrow> ('s, 'a) act \<Rightarrow> bool" where
  "always P m \<longleftrightarrow> (\<forall>s. P s \<longrightarrow> P (snd (m s)))"

named_theorems always_intros

lemma always_pure [simp, always_intros]: "always P (retS x)" "always P (raiseS e)" "always P (liftS r)"
  by (simp_all add: always_def)

lemma always_bind [always_intros]: "always P m \<Longrightarrow> (\<And>x. always P (f x)) \<Longrightarrow> always P (bindS m f)"
  unfolding always_def using bindS_invariant [of P _ m f] by blast

lemma always_read [always_intros]: "(\<And>s. always P (f s)) \<Longrightarrow> always P (readS f)"
  by (simp add: always_def)

lemma always_change: "(\<And>s. P s \<Longrightarrow> P (f s)) \<Longrightarrow> always P (changeS f)"
  by (simp add: always_def changeS_def)

lemma always_mapS [always_intros]: "(\<And>x. always P (f x)) \<Longrightarrow> always P (mapS f xs)"
  by (induction xs) (auto intro!: always_intros)

lemma always_on_exn [always_intros]:
  assumes "always P m" "always P h"
  shows "always P (on_exn n m h)"
  unfolding always_def
proof (intro allI impI)
  fix s assume "P s"
  obtain r s' where m: "m s = (r, s')" by (cases "m s")
  have "P s'" using assms(1) \<open>P s\<close> m unfolding always_def by (metis snd_conv)
  moreover have "P (snd (h s'))" using assms(2) \<open>P s'\<close> unfolding always_def by blast
  ultimately show "P (snd (on_exn n m h s))" using m by (cases r) (simp_all add: on_exn_def)
qed

lemma always_if [always_intros]: "always P m \<Longrightarrow> always P m' \<Longrightarrow> always P (if c then m else m')"
  by simp

lemma always_option [always_intros]: "(x = None \<Longrightarrow> always P m) \<Longrightarrow> (\<And>y. x = Some y \<Longrightarrow> always P (f y)) \<Longrightarrow> always P (case x of None \<Rightarrow> m | Some y \<Rightarrow> f y)"
  by (cases x) simp_all

lemma always_let [always_intros]: "always P (f x) \<Longrightarrow> always P (Let x f)"
  by simp

end
