(* ===== verification/Archive.thy ===== *)
theory Archive
  imports Fetchers Actions
begin

text \<open>
  The archive of beatmapset versions (\<^verbatim>\<open>src/app/beatmaps/manager.py\<close>) with the database events that number
  the versions and keep the listings (\<^verbatim>\<open>src/app/database/events/beatmap_snapshot.py\<close>,
  \<^verbatim>\<open>beatmapset_snapshot.py\<close>). The osu! API, the lock, MD5, pydantic and the clock are the fields of
  \<open>archive_env\<close>; tables are lists of rows in the order of their insertion.
\<close>

section \<open>The data\<close>

text \<open>The payloads of the osu! API: the keys the manager reads, and the whole dictionary for the schemas.\<close>

record osu_beatmap =
  ob_id :: int
  ob_beatmapset_id :: int
  ob_user_id :: int
  ob_checksum :: string
  ob_owners :: "(int \<times> dict) list"
  ob_top_tag_ids :: "int list"
  ob_raw :: dict

record osu_beatmapset =
  os_id :: int
  os_user_id :: int
  os_user :: dict
  os_tags :: string
  os_beatmaps :: "osu_beatmap list"
  os_raw :: dict

record archive_env =
  av_beatmapset :: "int \<Rightarrow> osu_beatmapset res"
  av_user :: "int \<Rightarrow> dict res"
  av_tags :: "(int \<times> dict) list res"
  av_file :: "int \<Rightarrow> string res"
  av_lock :: "string \<Rightarrow> unit res"
  av_md5 :: "string \<Rightarrow> string"
  av_now :: int
  av_blank_slate :: dict
  av_profile_schema :: "dict \<Rightarrow> dict res"
  av_beatmap_schema :: "dict \<Rightarrow> dict res"
  av_beatmapset_schema :: "dict \<Rightarrow> dict res"
  av_beatmap_view :: "dict \<Rightarrow> dict res"
  av_beatmapset_view :: "dict \<Rightarrow> dict res"

record profile_row =
  pr_id :: int
  pr_user_id :: int
  pr_data :: dict

record beatmap_snapshot =
  bs_id :: int
  bs_beatmap_id :: int
  bs_number :: int
  bs_checksum :: string
  bs_data :: dict
  bs_tags :: "int list"
  bs_owners :: "int list"

record beatmapset_snapshot =
  ss_id :: int
  ss_beatmapset_id :: int
  ss_number :: int
  ss_checksum :: string
  ss_data :: dict
  ss_beatmaps :: "int list"
  ss_tags :: "int list"

record archived_request =
  aq_id :: int
  aq_beatmapset_id :: int
  aq_snapshot_id :: int

text \<open>A version: its identifier, what it is a version of, its number and its checksum.\<close>

type_synonym version_info = "int \<times> int \<times> int \<times> string"

record changelog =
  snapshotted_beatmapset :: "version_info option"
  snapshotted_beatmaps :: "version_info list"
  updated_beatmapset :: "(int \<times> dict) option"
  updated_beatmaps :: "(int \<times> dict) list"

definition no_changes :: changelog where
  "no_changes = \<lparr>snapshotted_beatmapset = None, snapshotted_beatmaps = [], updated_beatmapset = None, updated_beatmaps = []\<rparr>"

record archive =
  ar_users :: "int list"
  ar_profile_tasks :: "(int \<times> int option) list"
  ar_score_tasks :: "int list"
  ar_profiles :: "profile_row list"
  ar_beatmapsets :: "(int \<times> int) list"
  ar_beatmaps :: "(int \<times> int) list"
  ar_bm :: "beatmap_snapshot list"
  ar_bms :: "beatmapset_snapshot list"
  ar_bm_listings :: "(int \<times> int) list"
  ar_bms_listings :: "(int \<times> int) list"
  ar_requests :: "archived_request list"
  ar_beatmap_tags :: "(int \<times> dict) list"
  ar_beatmapset_tags :: "(int \<times> string) list"
  ar_next_profile :: int
  ar_next_bm :: int
  ar_next_bms :: int
  ar_next_tag :: int
  ar_files :: "((int \<times> int) \<times> string) list"
  ar_changelog :: changelog

definition bm_info :: "beatmap_snapshot \<Rightarrow> version_info" where
  "bm_info r = (bs_id r, bs_beatmap_id r, bs_number r, bs_checksum r)"

definition bms_info :: "beatmapset_snapshot \<Rightarrow> version_info" where
  "bms_info r = (ss_id r, ss_beatmapset_id r, ss_number r, ss_checksum r)"

definition OSU_USER_PROFILE :: string where "OSU_USER_PROFILE = ''osu_user_profile''"
definition CACHED_BEATMAPSET :: string where "CACHED_BEATMAPSET = ''cached_beatmapset''"

definition combine_checksums :: "archive_env \<Rightarrow> string list \<Rightarrow> string" where
  "combine_checksums A cs = av_md5 A (concat cs)"

definition set_checksum :: "archive_env \<Rightarrow> osu_beatmapset \<Rightarrow> string" where
  "set_checksum A d = combine_checksums A (map ob_checksum (os_beatmaps d))"

section \<open>Events of the database\<close>

text \<open>The number after the largest one, \<^verbatim>\<open>(max or 0) + 1\<close>.\<close>

definition next_number :: "int list \<Rightarrow> int" where
  "next_number ns = (if ns = [] then 0 else Max (set ns)) + 1"

text \<open>Insert or update the row of a listing.\<close>

definition relist :: "int \<Rightarrow> int \<Rightarrow> (int \<times> int) list \<Rightarrow> (int \<times> int) list" where
  "relist k i rows =
     (if k \<in> fst ` set rows then map (\<lambda>(k', j). if k' = k then (k', i) else (k', j)) rows else rows @ [(k, i)])"

definition beatmap_snapshot_before_insert :: "archive \<Rightarrow> int \<Rightarrow> int" where
  "beatmap_snapshot_before_insert s b = next_number (map bs_number (filter (\<lambda>r. bs_beatmap_id r = b) (ar_bm s)))"

definition beatmap_snapshot_after_insert :: "beatmap_snapshot \<Rightarrow> archive \<Rightarrow> archive" where
  "beatmap_snapshot_after_insert r s = s\<lparr>ar_bm_listings := relist (bs_beatmap_id r) (bs_id r) (ar_bm_listings s)\<rparr>"

definition beatmapset_snapshot_before_insert :: "archive \<Rightarrow> int \<Rightarrow> int" where
  "beatmapset_snapshot_before_insert s b = next_number (map ss_number (filter (\<lambda>r. ss_beatmapset_id r = b) (ar_bms s)))"

definition older_snapshot_ids :: "beatmapset_snapshot \<Rightarrow> archive \<Rightarrow> int list" where
  "older_snapshot_ids r s = map ss_id (filter (\<lambda>o'. ss_beatmapset_id o' = ss_beatmapset_id r \<and> ss_number o' < ss_number r) (ar_bms s))"

definition beatmapset_snapshot_after_insert :: "beatmapset_snapshot \<Rightarrow> archive \<Rightarrow> archive" where
  "beatmapset_snapshot_after_insert r s =
     s\<lparr>ar_bms_listings := relist (ss_beatmapset_id r) (ss_id r) (ar_bms_listings s),
       ar_requests := map (\<lambda>q. if aq_beatmapset_id q = ss_beatmapset_id r \<and> aq_snapshot_id q \<in> set (older_snapshot_ids r s)
                               then q\<lparr>aq_snapshot_id := ss_id r\<rparr> else q) (ar_requests s)\<rparr>"

definition add_user :: "int \<Rightarrow> (archive, unit) act" where
  "add_user uid = changeS (\<lambda>s. s\<lparr>ar_users := ar_users s @ [uid], ar_score_tasks := ar_score_tasks s @ [uid],
                                  ar_profile_tasks := ar_profile_tasks s @ [(uid, None)]\<rparr>)"

definition insert_bm :: "beatmap_snapshot \<Rightarrow> archive \<Rightarrow> archive" where
  "insert_bm r s =
     (let r = r\<lparr>bs_id := ar_next_bm s, bs_number := beatmap_snapshot_before_insert s (bs_beatmap_id r)\<rparr> in
      beatmap_snapshot_after_insert r (s\<lparr>ar_bm := ar_bm s @ [r], ar_next_bm := ar_next_bm s + 1\<rparr>))"

definition insert_bms :: "beatmapset_snapshot \<Rightarrow> archive \<Rightarrow> archive" where
  "insert_bms r s =
     (let r = r\<lparr>ss_id := ar_next_bms s, ss_number := beatmapset_snapshot_before_insert s (ss_beatmapset_id r)\<rparr> in
      beatmapset_snapshot_after_insert r (s\<lparr>ar_bms := ar_bms s @ [r], ar_next_bms := ar_next_bms s + 1\<rparr>))"

text \<open>
  \<^verbatim>\<open>db.add\<close> resolves a row with the same checksum, leaves its columns as they are and sets the
  relationships; otherwise a row is inserted, under the foreign key to what it is a version of.
\<close>

definition unusable_session :: exn where
  "unusable_session = PyExc ''PendingRollbackError''"

definition relate_bm :: "int \<Rightarrow> int list \<Rightarrow> int list \<Rightarrow> beatmap_snapshot list \<Rightarrow> beatmap_snapshot list" where
  "relate_bm i tags owners = map (\<lambda>r. if bs_id r = i then r\<lparr>bs_tags := tags, bs_owners := owners\<rparr> else r)"

definition relate_bms :: "int \<Rightarrow> int list \<Rightarrow> int list \<Rightarrow> beatmapset_snapshot list \<Rightarrow> beatmapset_snapshot list" where
  "relate_bms i bms tags = map (\<lambda>r. if ss_id r = i then r\<lparr>ss_beatmaps := bms, ss_tags := tags\<rparr> else r)"

definition add_bm :: "beatmap_snapshot \<Rightarrow> (archive, beatmap_snapshot) act" where
  "add_bm r = readS (\<lambda>s.
     case find (\<lambda>r'. bs_checksum r' = bs_checksum r) (ar_bm s) of
       Some r' \<Rightarrow> bindS (changeS (\<lambda>s. s\<lparr>ar_bm := relate_bm (bs_id r') (bs_tags r) (bs_owners r) (ar_bm s)\<rparr>))
                   (\<lambda>_. retS (r'\<lparr>bs_tags := bs_tags r, bs_owners := bs_owners r\<rparr>))
     | None \<Rightarrow> if bs_beatmap_id r \<notin> fst ` set (ar_beatmaps s) then raiseS (PyExc ''IntegrityError'')
               else bindS (changeS (insert_bm r)) (\<lambda>_. readS (\<lambda>s. retS (last (ar_bm s)))))"

definition add_bms :: "beatmapset_snapshot \<Rightarrow> (archive, beatmapset_snapshot) act" where
  "add_bms r = readS (\<lambda>s.
     case find (\<lambda>r'. ss_checksum r' = ss_checksum r) (ar_bms s) of
       Some r' \<Rightarrow> bindS (changeS (\<lambda>s. s\<lparr>ar_bms := relate_bms (ss_id r') (ss_beatmaps r) (ss_tags r) (ar_bms s)\<rparr>))
                   (\<lambda>_. retS (r'\<lparr>ss_beatmaps := ss_beatmaps r, ss_tags := ss_tags r\<rparr>))
     | None \<Rightarrow> if ss_beatmapset_id r \<notin> fst ` set (ar_beatmapsets s) then raiseS (PyExc ''IntegrityError'')
               else bindS (changeS (insert_bms r)) (\<lambda>_. readS (\<lambda>s. retS (last (ar_bms s)))))"

section \<open>Users and profiles\<close>

definition get_profile :: "int \<Rightarrow> archive \<Rightarrow> profile_row option" where
  "get_profile uid s = find (\<lambda>p. pr_user_id p = uid) (ar_profiles s)"

text \<open>
  \<^verbatim>\<open>db.add(Profile, ..)\<close> resolves a profile of the same user and leaves it as it is. A violated foreign key
  makes the session unusable, so that the query of the handler raises.
\<close>

definition add_profile :: "int \<Rightarrow> dict \<Rightarrow> (archive, profile_row) act" where
  "add_profile uid data = readS (\<lambda>s.
     case get_profile uid s of
       Some p \<Rightarrow> retS p
     | None \<Rightarrow>
         if uid \<notin> set (ar_users s) then raiseS unusable_session
         else let p = \<lparr>pr_id = ar_next_profile s, pr_user_id = uid, pr_data = data\<rparr> in
              bindS (changeS (\<lambda>s. s\<lparr>ar_profiles := ar_profiles s @ [p], ar_next_profile := ar_next_profile s + 1\<rparr>)) (\<lambda>_. retS p))"

definition touch_profile_task :: "archive_env \<Rightarrow> int \<Rightarrow> (archive, unit) act" where
  "touch_profile_task A uid =
     changeS (\<lambda>s. s\<lparr>ar_profile_tasks := map (\<lambda>(u, t). if u = uid then (u, Some (av_now A)) else (u, t)) (ar_profile_tasks s)\<rparr>)"

definition populate_profile :: "archive_env \<Rightarrow> int \<Rightarrow> dict \<Rightarrow> bool \<Rightarrow> (archive, profile_row) act" where
  "populate_profile A uid restricted_user_dict is_restricted =
     bindS (liftS (av_lock A (hash_name LOCK (hash_name OSU_USER_PROFILE (py_str uid))))) (\<lambda>_. readS (\<lambda>s.
       case (get_profile uid s, is_restricted) of
         (Some p, False) \<Rightarrow> retS p
       | _ \<Rightarrow>
         bindS (if \<not> is_restricted then bindS (liftS (av_user A uid)) (\<lambda>user_dict. liftS (av_profile_schema A user_dict))
                else liftS (av_profile_schema A ([(''id'', JInt uid), (''is_restricted'', JBool True)] @ restricted_user_dict @ av_blank_slate A)))
           (\<lambda>profile_dict.
         bindS (add_profile uid profile_dict) (\<lambda>p.
         bindS (touch_profile_task A uid) (\<lambda>_. retS p)))))"

definition populate_user :: "archive_env \<Rightarrow> int \<Rightarrow> (archive, profile_row) act" where
  "populate_user A uid =
     bindS (readS (\<lambda>s. if uid \<in> set (ar_users s) then retS () else add_user uid)) (\<lambda>_.
       on_exn ''HTTPError'' (populate_profile A uid [] False) (raiseS (PyExc ''RestrictedUserError'')))"

definition populate_owner :: "archive_env \<Rightarrow> int \<times> dict \<Rightarrow> (archive, profile_row) act" where
  "populate_owner A owner =
     on_exn ''RestrictedUserError'' (populate_user A (fst owner)) (populate_profile A (fst owner) (snd owner) True)"

definition populate_owner_profiles :: "archive_env \<Rightarrow> (int \<times> dict) list \<Rightarrow> (archive, profile_row list) act" where
  "populate_owner_profiles A owners = mapS (populate_owner A) owners"

section \<open>Beatmapsets and beatmaps\<close>

definition populate_beatmap :: "archive_env \<Rightarrow> osu_beatmap \<Rightarrow> (archive, unit) act" where
  "populate_beatmap A d =
     bindS (on_exn ''RestrictedUserError'' (populate_user A (ob_user_id d)) (populate_profile A (ob_user_id d) [] True)) (\<lambda>_.
     readS (\<lambda>s.
       if ob_id d \<in> fst ` set (ar_beatmaps s) then retS ()
       else if ob_beatmapset_id d \<notin> fst ` set (ar_beatmapsets s) then raiseS unusable_session
       else changeS (\<lambda>s. s\<lparr>ar_beatmaps := ar_beatmaps s @ [(ob_id d, ob_beatmapset_id d)]\<rparr>)))"

definition populate_beatmapset :: "archive_env \<Rightarrow> osu_beatmapset \<Rightarrow> (archive, unit) act" where
  "populate_beatmapset A d =
     bindS (liftS (av_lock A (hash_name LOCK (hash_name CACHED_BEATMAPSET (py_str (os_id d)))))) (\<lambda>_.
     bindS (on_exn ''RestrictedUserError'' (populate_user A (os_user_id d)) (populate_profile A (os_user_id d) (os_user d) True)) (\<lambda>_.
     bindS (readS (\<lambda>s. if os_id d \<in> fst ` set (ar_beatmapsets s) then retS ()
                       else changeS (\<lambda>s. s\<lparr>ar_beatmapsets := ar_beatmapsets s @ [(os_id d, os_user_id d)]\<rparr>))) (\<lambda>_.
     bindS (mapS (populate_beatmap A) (os_beatmaps d)) (\<lambda>_. retS ()))))"

section \<open>Tags\<close>

fun split_spaces :: "string \<Rightarrow> string list" where
  "split_spaces [] = [[]]"
| "split_spaces (c # cs) =
     (if c = CHR '' '' then [] # split_spaces cs
      else (case split_spaces cs of w # ws \<Rightarrow> (c # w) # ws | [] \<Rightarrow> [[c]]))"

definition populate_beatmapset_tag :: "string \<Rightarrow> (archive, int) act" where
  "populate_beatmapset_tag tag = readS (\<lambda>s.
     case find (\<lambda>(_, name). name = tag) (ar_beatmapset_tags s) of
       Some (i, _) \<Rightarrow> retS i
     | None \<Rightarrow> bindS (changeS (\<lambda>s. s\<lparr>ar_beatmapset_tags := ar_beatmapset_tags s @ [(ar_next_tag s, tag)], ar_next_tag := ar_next_tag s + 1\<rparr>))
                 (\<lambda>_. retS (ar_next_tag s)))"

text \<open>The iteration over the set of tags is in the order of their first occurrence.\<close>

definition populate_beatmapset_tags :: "string \<Rightarrow> (archive, int list) act" where
  "populate_beatmapset_tags tags_str =
     mapS populate_beatmapset_tag (remdups (filter (\<lambda>t. t \<noteq> []) (map strip (split_spaces tags_str))))"

definition sync_tag :: "int \<times> dict \<Rightarrow> (archive, unit) act" where
  "sync_tag tag = changeS (\<lambda>s.
     case map_of (ar_beatmap_tags s) (fst tag) of
       None \<Rightarrow> s\<lparr>ar_beatmap_tags := ar_beatmap_tags s @ [tag]\<rparr>
     | Some old \<Rightarrow> if old = snd tag then s else s\<lparr>ar_beatmap_tags := map (\<lambda>(i, d). if i = fst tag then tag else (i, d)) (ar_beatmap_tags s)\<rparr>)"

definition update_beatmap_tags_from_osu :: "archive_env \<Rightarrow> (archive, unit) act" where
  "update_beatmap_tags_from_osu A = bindS (liftS (av_tags A)) (\<lambda>tags. bindS (mapS sync_tag tags) (\<lambda>_. retS ()))"

definition fetch_beatmap_tag :: "archive_env \<Rightarrow> int \<Rightarrow> (archive, int option) act" where
  "fetch_beatmap_tag A t = readS (\<lambda>s.
     if t \<in> fst ` set (ar_beatmap_tags s) then retS (Some t)
     else bindS (update_beatmap_tags_from_osu A) (\<lambda>_. readS (\<lambda>s.
            retS (if t \<in> fst ` set (ar_beatmap_tags s) then Some t else None))))"

definition populate_beatmap_tags :: "archive_env \<Rightarrow> int list \<Rightarrow> (archive, int list) act" where
  "populate_beatmap_tags A ids = bindS (mapS (fetch_beatmap_tag A) ids) (\<lambda>found. retS (List.map_filter id found))"

section \<open>New versions\<close>

definition owners_of :: "osu_beatmap \<Rightarrow> (int \<times> dict) list" where
  "owners_of d = (if ob_owners d = [] then [(ob_user_id d, [(''id'', JInt (ob_user_id d))])] else ob_owners d)"

definition log_changes :: "(changelog \<Rightarrow> changelog) \<Rightarrow> (archive, unit) act" where
  "log_changes f = changeS (\<lambda>s. s\<lparr>ar_changelog := f (ar_changelog s)\<rparr>)"

definition snapshot_beatmap :: "archive_env \<Rightarrow> osu_beatmap \<Rightarrow> (archive, int) act" where
  "snapshot_beatmap A d = readS (\<lambda>s.
     case find (\<lambda>r. bs_checksum r = ob_checksum d) (ar_bm s) of
       Some r \<Rightarrow> retS (bs_id r)
     | None \<Rightarrow>
         bindS (liftS (av_beatmap_schema A ((''beatmap_id'', JInt (ob_id d)) # ob_raw d))) (\<lambda>data.
         bindS (populate_beatmap_tags A (ob_top_tag_ids d)) (\<lambda>tags.
         bindS (populate_owner_profiles A (owners_of d)) (\<lambda>owners.
         bindS (add_bm \<lparr>bs_id = 0, bs_beatmap_id = ob_id d, bs_number = 0, bs_checksum = ob_checksum d, bs_data = data,
                        bs_tags = tags, bs_owners = map pr_id owners\<rparr>) (\<lambda>r.
         bindS (log_changes (\<lambda>c. c\<lparr>snapshotted_beatmaps := snapshotted_beatmaps c @ [bm_info r]\<rparr>)) (\<lambda>_. retS (bs_id r)))))))"

definition snapshot_beatmaps :: "archive_env \<Rightarrow> osu_beatmap list \<Rightarrow> (archive, int list) act" where
  "snapshot_beatmaps A ds = mapS (snapshot_beatmap A) ds"

definition snapshot_beatmapset :: "archive_env \<Rightarrow> osu_beatmapset \<Rightarrow> (archive, unit) act" where
  "snapshot_beatmapset A d =
     bindS (liftS (av_beatmapset_schema A
         ([(''beatmapset_id'', JInt (os_id d)), (''checksum'', JStr (set_checksum A d))] @ os_raw d))) (\<lambda>data.
     bindS (snapshot_beatmaps A (os_beatmaps d)) (\<lambda>bms.
     bindS (populate_beatmapset_tags (os_tags d)) (\<lambda>tags.
     bindS (add_bms \<lparr>ss_id = 0, ss_beatmapset_id = os_id d, ss_number = 0, ss_checksum = set_checksum A d, ss_data = data,
                     ss_beatmaps = bms, ss_tags = tags\<rparr>) (\<lambda>r.
       log_changes (\<lambda>c. c\<lparr>snapshotted_beatmapset := Some (bms_info r)\<rparr>)))))"

section \<open>Changes of a version\<close>

definition BEATMAP_UPDATABLE_FIELDS :: "string list" where
  "BEATMAP_UPDATABLE_FIELDS = [''failtimes'', ''is_scoreable'', ''last_updated'', ''owners'', ''passcount'', ''playcount'', ''ranked'',
     ''status'', ''top_tag_ids'', ''user_id'']"

definition BEATMAPSET_UPDATABLE_FIELDS :: "string list" where
  "BEATMAPSET_UPDATABLE_FIELDS = [''availability'', ''can_be_hyped'', ''current_nominations'', ''description'', ''discussion_enabled'',
     ''discussion_locked'', ''favourite_count'', ''genre'', ''hype'', ''is_scoreable'', ''language'', ''last_updated'',
     ''nominations_summary'', ''nsfw'', ''offset'', ''pack_tags'', ''play_count'', ''ranked'', ''ratings'', ''spotlight'', ''status'', ''track_id'']"

definition delta :: "string list \<Rightarrow> dict \<Rightarrow> dict \<Rightarrow> dict" where
  "delta names new old = [(f, dget new f). f \<leftarrow> names, dget new f \<noteq> dget old f]"

definition dict_update :: "dict \<Rightarrow> dict \<Rightarrow> dict" where
  "dict_update d changes = fold (\<lambda>(k, v). AList.update k v) changes d"

text \<open>\<^verbatim>\<open>BeatmapOsuApiSchema.from_snapshot\<close>: what the osu! API would say of a stored beatmap.\<close>

definition from_snapshot :: "archive \<Rightarrow> beatmap_snapshot \<Rightarrow> dict" where
  "from_snapshot s r =
     [(''id'', JInt (bs_beatmap_id r)),
      (''owners'', JList (map (\<lambda>p. JDict [(''id'', JInt (pr_user_id p)), (''username'', dget (pr_data p) ''username'')])
         (filter (\<lambda>p. pr_id p \<in> set (bs_owners r)) (ar_profiles s)))),
      (''top_tag_ids'', JList (map (\<lambda>t. JDict [(''tag_id'', JInt t)]) (bs_tags r)))] @ bs_data r"

definition store_bm :: "int \<Rightarrow> (beatmap_snapshot \<Rightarrow> beatmap_snapshot) \<Rightarrow> (archive, unit) act" where
  "store_bm i f = changeS (\<lambda>s. s\<lparr>ar_bm := map (\<lambda>r. if bs_id r = i then f r else r) (ar_bm s)\<rparr>)"

definition update_beatmap :: "archive_env \<Rightarrow> osu_beatmap \<Rightarrow> (archive, unit) act" where
  "update_beatmap A d = readS (\<lambda>s.
     case find (\<lambda>r. bs_checksum r = ob_checksum d) (ar_bm s) of
       None \<Rightarrow> raiseS (PyExc ''ValidationError'')
     | Some r \<Rightarrow>
         bindS (liftS (av_beatmap_view A (from_snapshot s r))) (\<lambda>old.
         bindS (liftS (av_beatmap_view A (ob_raw d))) (\<lambda>new.
           let changes = delta BEATMAP_UPDATABLE_FIELDS new old;
               columns = filter (\<lambda>(k, _). k \<notin> {''top_tag_ids'', ''owners''}) changes in
           if changes = [] then retS ()
           else bindS (store_bm (bs_id r) (\<lambda>r. r\<lparr>bs_data := dict_update (bs_data r) columns\<rparr>)) (\<lambda>_.
             bindS (populate_beatmap_tags A (ob_top_tag_ids d)) (\<lambda>tag_ids.
             bindS (populate_owner_profiles A (owners_of d)) (\<lambda>owners. readS (\<lambda>s.
             let tags = take (nat QUERY_DEFAULT_LIMIT) (sort (filter (\<lambda>i. i \<in> set tag_ids) (map fst (ar_beatmap_tags s))));
                 profiles = take (nat QUERY_DEFAULT_LIMIT) (sort (filter (\<lambda>i. i \<in> set (map pr_id owners)) (map pr_id (ar_profiles s)))) in
             bindS (store_bm (bs_id r) (\<lambda>r. r\<lparr>bs_tags := tags, bs_owners := profiles\<rparr>)) (\<lambda>_.
               log_changes (\<lambda>c. c\<lparr>updated_beatmaps := updated_beatmaps c @ [(bs_beatmap_id r, changes)]\<rparr>)))))))))"

definition update_beatmaps :: "archive_env \<Rightarrow> osu_beatmap list \<Rightarrow> (archive, unit) act" where
  "update_beatmaps A ds = bindS (mapS (update_beatmap A) ds) (\<lambda>_. retS ())"

definition from_set_snapshot :: "beatmapset_snapshot \<Rightarrow> dict" where
  "from_set_snapshot r = (''id'', JInt (ss_id r)) # ss_data r"

definition store_bms :: "int \<Rightarrow> (beatmapset_snapshot \<Rightarrow> beatmapset_snapshot) \<Rightarrow> (archive, unit) act" where
  "store_bms i f = changeS (\<lambda>s. s\<lparr>ar_bms := map (\<lambda>r. if ss_id r = i then f r else r) (ar_bms s)\<rparr>)"

definition update_beatmapset :: "archive_env \<Rightarrow> osu_beatmapset \<Rightarrow> (archive, unit) act" where
  "update_beatmapset A d =
     bindS (update_beatmaps A (os_beatmaps d)) (\<lambda>_. readS (\<lambda>s.
       case find (\<lambda>r. ss_checksum r = set_checksum A d) (rev (ar_bms s)) of
         None \<Rightarrow> raiseS (PyExc ''ValidationError'')
       | Some r \<Rightarrow>
           bindS (liftS (av_beatmapset_view A (from_set_snapshot r))) (\<lambda>old.
           bindS (liftS (av_beatmapset_view A (os_raw d))) (\<lambda>new.
             let changes = delta BEATMAPSET_UPDATABLE_FIELDS new old in
             if changes = [] then retS ()
             else bindS (store_bms (ss_id r) (\<lambda>r. r\<lparr>ss_data := dict_update (ss_data r) changes\<rparr>)) (\<lambda>_.
               log_changes (\<lambda>c. c\<lparr>updated_beatmapset := Some (ss_beatmapset_id r, changes)\<rparr>))))))"

section \<open>Files and the archive process\<close>

text \<open>The newest version of the beatmap is the one with the largest identifier.\<close>

definition download_beatmap_file :: "archive_env \<Rightarrow> int \<Rightarrow> (archive, unit) act" where
  "download_beatmap_file A b = readS (\<lambda>s.
     case find (\<lambda>r. bs_beatmap_id r = b) (rev (ar_bm s)) of
       None \<Rightarrow> raiseS (PyExc ''AttributeError'')
     | Some r \<Rightarrow> bindS (liftS (av_file A b)) (\<lambda>content.
         changeS (\<lambda>s. s\<lparr>ar_files := AList.update (b, bs_number r) content (ar_files s)\<rparr>)))"

definition download_beatmap_files :: "archive_env \<Rightarrow> int list \<Rightarrow> (archive, unit) act" where
  "download_beatmap_files A ids = bindS (mapS (download_beatmap_file A) ids) (\<lambda>_. retS ())"

definition archive_session :: "archive_env \<Rightarrow> int \<Rightarrow> bool \<Rightarrow> (archive, unit) act" where
  "archive_session A bid download =
     bindS (liftS (av_beatmapset A bid)) (\<lambda>d.
     bindS (populate_beatmapset A d) (\<lambda>_. readS (\<lambda>s.
       if set_checksum A d \<notin> ss_checksum ` set (ar_bms s)
       then bindS (snapshot_beatmapset A d) (\<lambda>_.
         if download then readS (\<lambda>s. download_beatmap_files A (map (fst \<circ> snd) (snapshotted_beatmaps (ar_changelog s)))) else retS ())
       else update_beatmapset A d)))"

text \<open>
  The session commits when its block is left normally and rolls back when it raises. Files and the
  sequences that identifiers come from do not roll back.
\<close>

definition rolled_back :: "archive \<Rightarrow> archive \<Rightarrow> archive" where
  "rolled_back s s' =
     s\<lparr>ar_next_profile := ar_next_profile s', ar_next_bm := ar_next_bm s', ar_next_bms := ar_next_bms s', ar_next_tag := ar_next_tag s',
       ar_files := ar_files s', ar_changelog := ar_changelog s'\<rparr>"

definition archive_beatmapset :: "archive_env \<Rightarrow> int \<Rightarrow> bool \<Rightarrow> (archive, changelog) act" where
  "archive_beatmapset A bid download s =
     (case archive_session A bid download (s\<lparr>ar_changelog := no_changes\<rparr>) of
        (Inr _, s') \<Rightarrow> (Inr (ar_changelog s'), s'\<lparr>ar_changelog := no_changes\<rparr>)
      | (Inl e, s') \<Rightarrow> (Inl e, rolled_back s s'))"

end
