(* ===== verification/Archive_Versions.thy ===== *)
theory Archive_Versions
  imports Archive
begin

text \<open>
  What the archive keeps of its versions. The two tables of versions share one contract, the locale \<open>version_table\<close>.
\<close>

section \<open>Versions\<close>

abbreviation "vi_id \<equiv> fst :: version_info \<Rightarrow> int"

definition vi_of :: "version_info \<Rightarrow> int" where "vi_of v = fst (snd v)"
definition vi_number :: "version_info \<Rightarrow> int" where "vi_number v = fst (snd (snd v))"
definition vi_checksum :: "version_info \<Rightarrow> string" where "vi_checksum v = snd (snd (snd v))"

lemma vi_simps [simp]: "vi_of (i, b, n, c) = b" "vi_number (i, b, n, c) = n" "vi_checksum (i, b, n, c) = c"
  by (simp_all add: vi_of_def vi_number_def vi_checksum_def)

definition versions_of :: "int \<Rightarrow> version_info list \<Rightarrow> version_info list" where
  "versions_of b rows = filter (\<lambda>v. vi_of v = b) rows"

definition latest :: "int \<Rightarrow> version_info list \<Rightarrow> int option" where
  "latest b rows = (if versions_of b rows = [] then None else Some (vi_id (last (versions_of b rows))))"

text \<open>
  The contract of a table of versions: identifiers increase, checksums are unique, the versions of each
  thing are numbered from one without gaps, and its listing names the newest.
\<close>

definition versions_ok :: "version_info list \<Rightarrow> (int \<times> int) list \<Rightarrow> int \<Rightarrow> bool" where
  "versions_ok rows listing nxt \<longleftrightarrow>
     sorted_wrt (<) (map vi_id rows @ [nxt]) \<and> distinct (map vi_checksum rows) \<and>
     (\<forall>b. map vi_number (versions_of b rows) = map int [1..<Suc (length (versions_of b rows))]) \<and>
     (\<forall>b. map_of listing b = latest b rows)"

lemma versions_of_append [simp]: "versions_of b (rows @ [v]) = versions_of b rows @ (if vi_of v = b then [v] else [])"
  by (simp add: versions_of_def)

lemma latest_append: "latest b (rows @ [v]) = (if vi_of v = b then Some (vi_id v) else latest b rows)"
  by (simp add: latest_def)

lemma next_number_upto: "next_number (map int [1..<Suc n]) = int (Suc n)"
proof (cases n)
  case (Suc m)
  have "Max (set (map int [1..<Suc n])) = int n"
    using Suc by (intro Max_eqI) auto
  then show ?thesis using Suc by (simp add: next_number_def del: upt_Suc)
qed (simp add: next_number_def)

lemma map_of_relist: "map_of (relist k i rows) b = (if b = k then Some i else map_of rows b)"
proof (cases "k \<in> fst ` set rows")
  case True
  have "map_of (map (\<lambda>(k', j). if k' = k then (k', i) else (k', j)) rows) b = (if b = k \<and> k \<in> fst ` set rows then Some i else map_of rows b)"
    by (induction rows) (force split: prod.splits)+
  with True show ?thesis by (simp add: relist_def)
next
  case False
  then have "map_of rows k = None" by (simp add: map_of_eq_None_iff)
  with False show ?thesis by (auto simp: relist_def map_add_def split: option.splits)
qed

locale version_table =
  fixes rows :: "'s \<Rightarrow> version_info list" and listing :: "'s \<Rightarrow> (int \<times> int) list" and next_id :: "'s \<Rightarrow> int"
    and put :: "'row \<Rightarrow> 's \<Rightarrow> 's" and about :: "'row \<Rightarrow> int" and digest :: "'row \<Rightarrow> string"
  assumes rows_put: "rows (put r s) =
      rows s @ [(next_id s, about r, next_number (map vi_number (versions_of (about r) (rows s))), digest r)]"
    and listing_put: "listing (put r s) = relist (about r) (next_id s) (listing s)"
    and next_put: "next_id (put r s) = next_id s + 1"
begin

lemma put_number:
  assumes "versions_ok (rows s) (listing s) (next_id s)"
  shows "rows (put r s) = rows s @ [(next_id s, about r, int (Suc (length (versions_of (about r) (rows s)))), digest r)]"
proof -
  have "map vi_number (versions_of (about r) (rows s)) = map int [1..<Suc (length (versions_of (about r) (rows s)))]"
    using assms by (simp add: versions_ok_def)
  then show ?thesis unfolding rows_put by (simp only: next_number_upto)
qed

lemma put_ok:
  assumes "versions_ok (rows s) (listing s) (next_id s)" "digest r \<notin> vi_checksum ` set (rows s)"
  shows "versions_ok (rows (put r s)) (listing (put r s)) (next_id (put r s))"
  using assms(2) assms(1) unfolding put_number [OF assms(1)] listing_put next_put
  by (auto simp: versions_ok_def latest_append map_of_relist sorted_wrt_append)

lemma put_latest: "latest b (rows (put r s)) = (if b = about r then Some (next_id s) else latest b (rows s))"
  by (simp add: rows_put latest_append)

end

interpretation bm_table: version_table "\<lambda>s. map bm_info (ar_bm s)" ar_bm_listings ar_next_bm insert_bm bs_beatmap_id bs_checksum
proof unfold_locales
  fix r and s :: archive
  have "filter (\<lambda>v. vi_of v = b) (map bm_info (ar_bm s)) = map bm_info (filter (\<lambda>r. bs_beatmap_id r = b) (ar_bm s))" for b
    by (simp add: filter_map comp_def bm_info_def)
  then show "map bm_info (ar_bm (insert_bm r s)) = map bm_info (ar_bm s) @
      [(ar_next_bm s, bs_beatmap_id r, next_number (map vi_number (versions_of (bs_beatmap_id r) (map bm_info (ar_bm s)))), bs_checksum r)]"
    by (simp add: insert_bm_def Let_def beatmap_snapshot_after_insert_def beatmap_snapshot_before_insert_def bm_info_def versions_of_def comp_def)
qed (simp_all add: insert_bm_def Let_def beatmap_snapshot_after_insert_def)

interpretation bms_table: version_table "\<lambda>s. map bms_info (ar_bms s)" ar_bms_listings ar_next_bms insert_bms ss_beatmapset_id ss_checksum
proof unfold_locales
  fix r and s :: archive
  have "filter (\<lambda>v. vi_of v = b) (map bms_info (ar_bms s)) = map bms_info (filter (\<lambda>r. ss_beatmapset_id r = b) (ar_bms s))" for b
    by (simp add: filter_map comp_def bms_info_def)
  then show "map bms_info (ar_bms (insert_bms r s)) = map bms_info (ar_bms s) @
      [(ar_next_bms s, ss_beatmapset_id r, next_number (map vi_number (versions_of (ss_beatmapset_id r) (map bms_info (ar_bms s)))), ss_checksum r)]"
    by (simp add: insert_bms_def Let_def beatmapset_snapshot_after_insert_def beatmapset_snapshot_before_insert_def bms_info_def versions_of_def comp_def)
qed (simp_all add: insert_bms_def Let_def beatmapset_snapshot_after_insert_def)

section \<open>The invariant of the archive\<close>

definition requests_ok :: "archive \<Rightarrow> bool" where
  "requests_ok s \<longleftrightarrow> (\<forall>q \<in> set (ar_requests s). latest (aq_beatmapset_id q) (map bms_info (ar_bms s)) = Some (aq_snapshot_id q))"

definition archive_ok :: "archive \<Rightarrow> bool" where
  "archive_ok s \<longleftrightarrow>
     versions_ok (map bm_info (ar_bm s)) (ar_bm_listings s) (ar_next_bm s) \<and>
     versions_ok (map bms_info (ar_bms s)) (ar_bms_listings s) (ar_next_bms s) \<and> requests_ok s"

text \<open>What the invariant depends on.\<close>

definition versions :: "archive \<Rightarrow> version_info list \<times> version_info list \<times> (int \<times> int) list \<times> (int \<times> int) list \<times> archived_request list \<times> int \<times> int \<times>
    version_info list \<times> version_info option" where
  "versions s = (map bm_info (ar_bm s), map bms_info (ar_bms s), ar_bm_listings s, ar_bms_listings s, ar_requests s, ar_next_bm s, ar_next_bms s,
     snapshotted_beatmaps (ar_changelog s), snapshotted_beatmapset (ar_changelog s))"

definition on_versions :: "(archive \<Rightarrow> bool) \<Rightarrow> bool" where
  "on_versions P \<longleftrightarrow> (\<forall>s s'. versions s' = versions s \<longrightarrow> P s \<longrightarrow> P s')"

lemma always_versions: "on_versions P \<Longrightarrow> (\<And>s. versions (f s) = versions s) \<Longrightarrow> always P (changeS f)"
  unfolding on_versions_def by (intro always_change) blast

text \<open>The parts of the process that only add users, profiles, beatmapsets, beatmaps and tags.\<close>

lemma populating_keeps_profiles:
  assumes "on_versions P"
  shows "always P (add_user uid)" "always P (add_profile uid data)" "always P (touch_profile_task A uid)"
  unfolding add_user_def add_profile_def touch_profile_task_def
  by (auto intro!: always_intros always_versions [OF assms] simp: versions_def)

lemma populate_profile_keeps:
  assumes "on_versions P"
  shows "always P (populate_profile A uid d restricted)"
  unfolding populate_profile_def
  by (cases restricted) (auto intro!: always_intros populating_keeps_profiles [OF assms] split: option.splits)

lemma populate_user_keeps:
  assumes "on_versions P"
  shows "always P (populate_user A uid)" "always P (populate_owner A owner)" "always P (populate_owner_profiles A owners)"
  unfolding populate_user_def populate_owner_def populate_owner_profiles_def
  by (intro always_intros populating_keeps_profiles [OF assms] populate_profile_keeps [OF assms])+

lemma populate_beatmapset_keeps:
  assumes "on_versions P"
  shows "always P (populate_beatmapset A d)"
  unfolding populate_beatmapset_def populate_beatmap_def
  by (intro always_intros populate_user_keeps [OF assms] populate_profile_keeps [OF assms] always_versions [OF assms])
    (simp_all add: versions_def)

lemma populate_tags_keeps:
  assumes "on_versions P"
  shows "always P (populate_beatmapset_tags tags)" "always P (populate_beatmap_tags A ids)"
proof -
  have "always P (populate_beatmapset_tag tag)" for tag
    unfolding populate_beatmapset_tag_def by (auto intro!: always_intros always_versions [OF assms] simp: versions_def split: option.splits)
  then show "always P (populate_beatmapset_tags tags)" unfolding populate_beatmapset_tags_def by (intro always_intros)
  have "always P (sync_tag t)" for t
    unfolding sync_tag_def by (auto intro!: always_versions [OF assms] simp: versions_def split: option.splits)
  then show "always P (populate_beatmap_tags A ids)"
    unfolding populate_beatmap_tags_def fetch_beatmap_tag_def update_beatmap_tags_from_osu_def by (intro always_intros)
qed

lemma log_keeps:
  assumes "on_versions P"
  shows "always P (log_changes (\<lambda>c. c\<lparr>updated_beatmaps := f c\<rparr>))" "always P (log_changes (\<lambda>c. c\<lparr>updated_beatmapset := g c\<rparr>))"
  unfolding log_changes_def by (rule always_versions [OF assms], simp add: versions_def)+

lemma store_keeps:
  assumes "on_versions P"
  shows "(\<And>r. bm_info (f r) = bm_info r) \<Longrightarrow> always P (store_bm i f)" "(\<And>r. bms_info (g r) = bms_info r) \<Longrightarrow> always P (store_bms i g)"
  unfolding store_bm_def store_bms_def by (auto intro!: always_versions [OF assms] simp: versions_def)

lemma update_keeps:
  assumes "on_versions P"
  shows "always P (update_beatmapset A d)"
proof -
  have "always P (update_beatmap A b)" for b
    unfolding update_beatmap_def Let_def
    by (intro always_intros store_keeps [OF assms] log_keeps [OF assms] populate_tags_keeps [OF assms] populate_user_keeps [OF assms])
      (simp_all add: bm_info_def)
  then show ?thesis
    unfolding update_beatmapset_def update_beatmaps_def Let_def
    by (intro always_intros store_keeps [OF assms] log_keeps [OF assms]) (simp_all add: bms_info_def)
qed

lemma download_keeps: "on_versions P \<Longrightarrow> always P (download_beatmap_files A ids)"
  unfolding download_beatmap_files_def download_beatmap_file_def
  by (intro always_intros always_versions) (simp_all add: versions_def)

section \<open>Inserting a version\<close>

lemma insert_bm_ok:
  assumes "archive_ok s" "bs_checksum r \<notin> bs_checksum ` set (ar_bm s)"
  shows "archive_ok (insert_bm r s)"
proof -
  have "bs_checksum r \<notin> vi_checksum ` set (map bm_info (ar_bm s))" using assms(2) by (auto simp: bm_info_def)
  then show ?thesis
    using assms(1) bm_table.put_ok [of s r]
    by (simp add: archive_ok_def requests_ok_def insert_bm_def Let_def beatmap_snapshot_after_insert_def)
qed

lemma latest_is_older:
  assumes "versions_ok (map bms_info (ar_bms s)) l n" "latest b (map bms_info (ar_bms s)) = Some i"
  shows "\<exists>o' \<in> set (ar_bms s). ss_id o' = i \<and> ss_beatmapset_id o' = b \<and> ss_number o' = int (length (versions_of b (map bms_info (ar_bms s))))"
proof -
  let ?vs = "versions_of b (map bms_info (ar_bms s))"
  have ne: "?vs \<noteq> []" and i: "vi_id (last ?vs) = i" using assms(2) by (auto simp: latest_def split: if_splits)
  have "vi_number (last ?vs) = last (map vi_number ?vs)" using ne by (simp add: last_map)
  also have "map vi_number ?vs = map int [1..<Suc (length ?vs)]" using assms(1) by (simp add: versions_ok_def)
  also have "last (map int [1..<Suc (length ?vs)]) = int (length ?vs)" using ne by (simp add: last_map Suc_le_eq)
  finally have num: "vi_number (last ?vs) = int (length ?vs)" .
  have "last ?vs \<in> set ?vs" using ne by simp
  then obtain o' where "o' \<in> set (ar_bms s)" "bms_info o' = last ?vs" "ss_beatmapset_id o' = b"
    by (auto simp: versions_of_def bms_info_def)
  with i num show ?thesis by (intro bexI [of _ o']) (auto simp: bms_info_def dest: sym)
qed

lemma insert_bms_ok:
  assumes "archive_ok s" "ss_checksum r \<notin> ss_checksum ` set (ar_bms s)"
  shows "archive_ok (insert_bms r s)"
proof -
  let ?b = "ss_beatmapset_id r" and ?vs = "versions_of (ss_beatmapset_id r) (map bms_info (ar_bms s))"
  have vok: "versions_ok (map bms_info (ar_bms s)) (ar_bms_listings s) (ar_next_bms s)" using assms(1) by (simp add: archive_ok_def)
  have fresh: "ss_checksum r \<notin> vi_checksum ` set (map bms_info (ar_bms s))" using assms(2) by (auto simp: bms_info_def)
  have num: "beatmapset_snapshot_before_insert s ?b = int (Suc (length ?vs))"
    using bms_table.put_number [OF vok, of r] by (simp add: insert_bms_def Let_def beatmapset_snapshot_after_insert_def bms_info_def)
  define older where "older = ss_id ` {o' \<in> set (ar_bms s). ss_beatmapset_id o' = ?b \<and> ss_number o' < beatmapset_snapshot_before_insert s ?b}"
  have requests: "ar_requests (insert_bms r s) =
      map (\<lambda>q. if aq_beatmapset_id q = ?b \<and> aq_snapshot_id q \<in> older then q\<lparr>aq_snapshot_id := ar_next_bms s\<rparr> else q) (ar_requests s)"
    by (simp add: insert_bms_def Let_def beatmapset_snapshot_after_insert_def older_snapshot_ids_def older_def)
  have "requests_ok (insert_bms r s)"
    unfolding requests_ok_def
  proof
    fix q assume "q \<in> set (ar_requests (insert_bms r s))"
    then obtain q0 where q0: "q0 \<in> set (ar_requests s)" and
      q: "q = (if aq_beatmapset_id q0 = ?b \<and> aq_snapshot_id q0 \<in> older then q0\<lparr>aq_snapshot_id := ar_next_bms s\<rparr> else q0)"
      unfolding requests set_map by blast
    have old: "latest (aq_beatmapset_id q0) (map bms_info (ar_bms s)) = Some (aq_snapshot_id q0)"
      using assms(1) q0 by (simp add: archive_ok_def requests_ok_def)
    show "latest (aq_beatmapset_id q) (map bms_info (ar_bms (insert_bms r s))) = Some (aq_snapshot_id q)"
    proof (cases "aq_beatmapset_id q0 = ?b")
      case True
      then have "aq_snapshot_id q0 \<in> older" using latest_is_older [OF vok, of ?b] old unfolding older_def num by force
      with True show ?thesis by (simp add: bms_table.put_latest q)
    next
      case False
      with old show ?thesis by (simp add: bms_table.put_latest q)
    qed
  qed
  with assms(1) bms_table.put_ok [OF vok fresh] show ?thesis
    by (simp add: archive_ok_def insert_bms_def Let_def beatmapset_snapshot_after_insert_def)
qed

section \<open>The archive process\<close>

text \<open>A state that satisfies the invariant and has used at least the given identifiers.\<close>

definition sound_from :: "int \<Rightarrow> int \<Rightarrow> archive \<Rightarrow> bool" where
  "sound_from n m s \<longleftrightarrow> archive_ok s \<and> n \<le> ar_next_bm s \<and> m \<le> ar_next_bms s"

lemma sound_on_versions: "on_versions (sound_from n m)" "on_versions (\<lambda>s. versions s = v)"
  by (auto simp: on_versions_def sound_from_def archive_ok_def requests_ok_def versions_def)

lemma unchanged:
  assumes "\<And>P. on_versions P \<Longrightarrow> always P m" "m s = (r, s')"
  shows "versions s' = versions s"
  using assms(1) [OF sound_on_versions(2), of "versions s"] assms(2) by (auto simp: always_def dest!: spec [of _ s])

lemma find_fresh: "find (\<lambda>r. f r = c) rows = None \<longleftrightarrow> c \<notin> f ` set rows"
  by (auto simp: find_None_iff)

lemma insert_next:
  "ar_next_bm (insert_bm r s) = ar_next_bm s + 1" "ar_next_bms (insert_bm r s) = ar_next_bms s"
  "ar_next_bm (insert_bms r' s) = ar_next_bm s" "ar_next_bms (insert_bms r' s) = ar_next_bms s + 1"
  by (simp_all add: insert_bm_def insert_bms_def Let_def beatmap_snapshot_after_insert_def beatmapset_snapshot_after_insert_def)

lemma add_bm_sound: "always (sound_from n m) (add_bm r)"
proof -
  have "sound_from n m (snd (add_bm r s))" if s: "sound_from n m s" for s
  proof (cases "find (\<lambda>r'. bs_checksum r' = bs_checksum r) (ar_bm s)")
    case None
    then have "bs_checksum r \<notin> bs_checksum ` set (ar_bm s)" by (simp only: find_fresh not_False_eq_True)
    with None show ?thesis
      using s insert_bm_ok [of s r] by (auto simp: add_bm_def bindS_def changeS_def sound_from_def insert_next)
  next
    case (Some r')
    have "versions (s\<lparr>ar_bm := relate_bm (bs_id r') (bs_tags r) (bs_owners r) (ar_bm s)\<rparr>) = versions s"
      by (simp add: versions_def relate_bm_def bm_info_def)
    with s sound_on_versions(1) [of n m] Some show ?thesis by (auto simp: add_bm_def bindS_def changeS_def on_versions_def)
  qed
  then show ?thesis by (simp add: always_def)
qed

lemma add_bms_sound: "always (sound_from n m) (add_bms r)"
proof -
  have "sound_from n m (snd (add_bms r s))" if s: "sound_from n m s" for s
  proof (cases "find (\<lambda>r'. ss_checksum r' = ss_checksum r) (ar_bms s)")
    case None
    then have "ss_checksum r \<notin> ss_checksum ` set (ar_bms s)" by (simp only: find_fresh not_False_eq_True)
    with None show ?thesis
      using s insert_bms_ok [of s r] by (auto simp: add_bms_def bindS_def changeS_def sound_from_def insert_next)
  next
    case (Some r')
    have "versions (s\<lparr>ar_bms := relate_bms (ss_id r') (ss_beatmaps r) (ss_tags r) (ar_bms s)\<rparr>) = versions s"
      by (simp add: versions_def relate_bms_def bms_info_def)
    with s sound_on_versions(1) [of n m] Some show ?thesis by (auto simp: add_bms_def bindS_def changeS_def on_versions_def)
  qed
  then show ?thesis by (simp add: always_def)
qed

lemma log_sound: "always (sound_from n m) (log_changes f)"
  unfolding log_changes_def by (rule always_change) (simp add: sound_from_def archive_ok_def requests_ok_def)

lemma session_sound: "always (sound_from n m) (archive_session A bid download)"
proof -
  have "always (sound_from n m) (snapshot_beatmap A d)" for d
    unfolding snapshot_beatmap_def
    by (intro always_intros add_bm_sound log_sound populate_tags_keeps [OF sound_on_versions(1)] populate_user_keeps [OF sound_on_versions(1)])
  then have "always (sound_from n m) (snapshot_beatmapset A d)" for d
    unfolding snapshot_beatmapset_def snapshot_beatmaps_def
    by (intro always_intros add_bms_sound log_sound populate_tags_keeps [OF sound_on_versions(1)])
  then show ?thesis
    unfolding archive_session_def
    by (intro always_intros populate_beatmapset_keeps [OF sound_on_versions(1)] update_keeps [OF sound_on_versions(1)]
        download_keeps [OF sound_on_versions(1)])
qed

lemma rolled_back_ok:
  assumes "archive_ok s" "ar_next_bm s \<le> ar_next_bm s'" "ar_next_bms s \<le> ar_next_bms s'"
  shows "archive_ok (rolled_back s s')"
proof -
  have "sorted_wrt (<) (xs @ [n]) \<Longrightarrow> n \<le> n' \<Longrightarrow> sorted_wrt (<) (xs @ [n'])" for xs and n n' :: int
    by (auto simp: sorted_wrt_append)
  with assms show ?thesis by (auto simp: archive_ok_def versions_ok_def requests_ok_def rolled_back_def)
qed

lemma archive_beatmapset_ok:
  assumes "archive_ok s"
  shows "archive_ok (snd (archive_beatmapset A bid download s))"
proof -
  let ?s = "s\<lparr>ar_changelog := no_changes\<rparr>"
  obtain r s' where run: "archive_session A bid download ?s = (r, s')" by (cases "archive_session A bid download ?s")
  have "sound_from (ar_next_bm s) (ar_next_bms s) ?s" using assms by (simp add: sound_from_def archive_ok_def requests_ok_def)
  then have "sound_from (ar_next_bm s) (ar_next_bms s) s'"
    using session_sound [of "ar_next_bm s" "ar_next_bms s" A bid download] run by (auto simp: always_def dest!: spec [of _ ?s])
  then have "archive_ok s'" "archive_ok (rolled_back s s')" using assms by (auto simp: sound_from_def intro: rolled_back_ok)
  moreover have "archive_ok (s'\<lparr>ar_changelog := no_changes\<rparr>) = archive_ok s'" by (simp add: archive_ok_def requests_ok_def)
  ultimately show ?thesis by (simp add: archive_beatmapset_def run split: sum.splits)
qed

section \<open>What a successful run does\<close>

text \<open>New beatmap versions are appended and logged, and nothing else of the versions changes.\<close>

definition extends :: "archive \<Rightarrow> archive \<Rightarrow> bool" where
  "extends s s' \<longleftrightarrow> archive_ok s' \<and> map bms_info (ar_bms s') = map bms_info (ar_bms s) \<and> ar_next_bms s' = ar_next_bms s \<and>
     (\<exists>new. map bm_info (ar_bm s') = map bm_info (ar_bm s) @ new \<and>
            snapshotted_beatmaps (ar_changelog s') = snapshotted_beatmaps (ar_changelog s) @ new)"

lemma extends_refl: "archive_ok s \<Longrightarrow> versions s' = versions s \<Longrightarrow> extends s s'"
  by (auto simp: extends_def versions_def archive_ok_def requests_ok_def)

lemma extends_trans: "extends s s1 \<Longrightarrow> extends s1 s2 \<Longrightarrow> extends s s2"
  by (auto simp: extends_def)

definition has_version :: "archive \<Rightarrow> string \<Rightarrow> int \<Rightarrow> bool" where
  "has_version s c i \<longleftrightarrow> (\<exists>b n. (i, b, n, c) \<in> set (map bm_info (ar_bm s)))"

lemma has_version_extends: "has_version s c i \<Longrightarrow> extends s s' \<Longrightarrow> has_version s' c i"
  unfolding has_version_def extends_def by (metis UnCI set_append)

lemma checksums_of:
  "bs_checksum ` set (ar_bm s) = vi_checksum ` set (map bm_info (ar_bm s))" "ss_checksum ` set (ar_bms s) = vi_checksum ` set (map bms_info (ar_bms s))"
  by (simp_all add: image_image bm_info_def bms_info_def)

lemma add_bm_new:
  assumes "add_bm r s = (Inr r', s1)" "archive_ok s" "bs_checksum r \<notin> bs_checksum ` set (ar_bm s)"
  shows "s1 = insert_bm r s" "bm_info r' = last (map bm_info (ar_bm s1))"
    "map bm_info (ar_bm s1) = map bm_info (ar_bm s) @ [bm_info r']" "bs_checksum r' = bs_checksum r"
proof -
  have none: "find (\<lambda>r'. bs_checksum r' = bs_checksum r) (ar_bm s) = None" using assms(3) by (simp only: find_fresh not_False_eq_True)
  show s1: "s1 = insert_bm r s" and "bm_info r' = last (map bm_info (ar_bm s1))"
    using assms(1) none by (auto simp: add_bm_def bindS_def changeS_def insert_bm_def Let_def beatmap_snapshot_after_insert_def split: if_splits)
  then show "map bm_info (ar_bm s1) = map bm_info (ar_bm s) @ [bm_info r']"
    using bm_table.rows_put [of r s] by simp
  show "bs_checksum r' = bs_checksum r"
    using assms(1) none by (auto simp: add_bm_def bindS_def changeS_def insert_bm_def Let_def beatmap_snapshot_after_insert_def split: if_splits)
qed

lemma snapshot_beatmap_effect:
  assumes run: "snapshot_beatmap A d s = (Inr i, s')" and ok: "archive_ok s"
  shows "extends s s' \<and> has_version s' (ob_checksum d) i"
proof (cases "find (\<lambda>r. bs_checksum r = ob_checksum d) (ar_bm s)")
  case (Some r)
  then have "r \<in> set (ar_bm s)" "bs_checksum r = ob_checksum d" by (auto simp: find_Some_iff)
  then have "(bs_id r, bs_beatmap_id r, bs_number r, ob_checksum d) \<in> set (map bm_info (ar_bm s))"
    by (auto simp: bm_info_def image_iff intro!: bexI [of _ r])
  moreover have "i = bs_id r" "s' = s" using run Some by (auto simp: snapshot_beatmap_def)
  ultimately show ?thesis using ok by (auto simp: has_version_def intro: extends_refl)
next
  case None
  obtain tags s1 owners s2 data r s3 where
      t: "populate_beatmap_tags A (ob_top_tag_ids d) s = (Inr tags, s1)" and
      w: "populate_owner_profiles A (owners_of d) s1 = (Inr owners, s2)" and
      a: "add_bm \<lparr>bs_id = 0, bs_beatmap_id = ob_id d, bs_number = 0, bs_checksum = ob_checksum d, bs_data = data, bs_tags = tags,
            bs_owners = map pr_id owners\<rparr> s2 = (Inr r, s3)" and
      l: "s' = s3\<lparr>ar_changelog := (ar_changelog s3)\<lparr>snapshotted_beatmaps := snapshotted_beatmaps (ar_changelog s3) @ [bm_info r]\<rparr>\<rparr>" "i = bs_id r"
    using run None by (auto simp: snapshot_beatmap_def bindS_eq_Inr log_changes_def changeS_def)
  have v: "versions s2 = versions s"
    using unchanged [OF populate_tags_keeps(2) t] unchanged [OF populate_user_keeps(3) w] by simp
  then have ok2: "archive_ok s2" using ok by (auto simp: versions_def archive_ok_def requests_ok_def)
  have "ob_checksum d \<notin> bs_checksum ` set (ar_bm s)" using None by (simp only: find_fresh not_False_eq_True)
  then have fresh: "ob_checksum d \<notin> bs_checksum ` set (ar_bm s2)" unfolding checksums_of using v by (simp add: versions_def del: set_map)
  note new = add_bm_new [OF a ok2, simplified, OF fresh]
  have "archive_ok s3" unfolding new(1) by (rule insert_bm_ok [OF ok2]) (simp add: fresh)
  moreover have "ar_bms s3 = ar_bms s2" "ar_next_bms s3 = ar_next_bms s2" "ar_changelog s3 = ar_changelog s2"
    unfolding new(1) by (simp_all add: insert_bm_def Let_def beatmap_snapshot_after_insert_def)
  ultimately have "extends s s'" using v new(3) by (simp add: extends_def l versions_def archive_ok_def requests_ok_def)
  moreover have "has_version s' (ob_checksum d) i"
    unfolding has_version_def using new(3,4) by (auto simp: l bm_info_def)
  ultimately show ?thesis by blast
qed

lemma snapshot_beatmaps_effect:
  assumes "snapshot_beatmaps A ds s = (Inr ids, s')" "archive_ok s"
  shows "extends s s' \<and> list_all2 (\<lambda>d i. has_version s' (ob_checksum d) i) ds ids"
  using assms unfolding snapshot_beatmaps_def
proof (induction ds arbitrary: s ids)
  case Nil
  then show ?case by (auto intro: extends_refl)
next
  case (Cons d ds)
  then obtain i s1 js where d: "snapshot_beatmap A d s = (Inr i, s1)" "mapS (snapshot_beatmap A) ds s1 = (Inr js, s')" "ids = i # js"
    by (auto simp: bindS_eq_Inr)
  have one: "extends s s1" "has_version s1 (ob_checksum d) i" using snapshot_beatmap_effect [OF d(1) Cons.prems(2)] by auto
  then have "archive_ok s1" by (simp add: extends_def)
  with Cons.IH [OF d(2)] have rest: "extends s1 s'" "list_all2 (\<lambda>d i. has_version s' (ob_checksum d) i) ds js" by auto
  then show ?case using one d(3) by (auto intro: extends_trans has_version_extends)
qed

lemma snapshot_beatmapset_effect:
  assumes run: "snapshot_beatmapset A d s = (Inr u, s')" and ok: "archive_ok s" and fresh: "set_checksum A d \<notin> ss_checksum ` set (ar_bms s)"
    and "snapshotted_beatmaps (ar_changelog s) = []"
  shows "\<exists>v. v = (ar_next_bms s, os_id d, int (Suc (length (versions_of (os_id d) (map bms_info (ar_bms s))))), set_checksum A d) \<and>
     archive_ok s' \<and> map bms_info (ar_bms s') = map bms_info (ar_bms s) @ [v] \<and> snapshotted_beatmapset (ar_changelog s') = Some v \<and>
     map bm_info (ar_bm s') = map bm_info (ar_bm s) @ snapshotted_beatmaps (ar_changelog s') \<and>
     list_all2 (\<lambda>b i. has_version s' (ob_checksum b) i) (os_beatmaps d) (ss_beatmaps (last (ar_bms s')))"
proof -
  obtain bms s1 tags s2 data r s3 where
      b: "snapshot_beatmaps A (os_beatmaps d) s = (Inr bms, s1)" and
      t: "populate_beatmapset_tags (os_tags d) s1 = (Inr tags, s2)" and
      a: "add_bms \<lparr>ss_id = 0, ss_beatmapset_id = os_id d, ss_number = 0, ss_checksum = set_checksum A d, ss_data = data,
            ss_beatmaps = bms, ss_tags = tags\<rparr> s2 = (Inr r, s3)" and
      l: "s' = s3\<lparr>ar_changelog := (ar_changelog s3)\<lparr>snapshotted_beatmapset := Some (bms_info r)\<rparr>\<rparr>"
    using run by (auto simp: snapshot_beatmapset_def bindS_eq_Inr log_changes_def changeS_def)
  have e: "extends s s1" "list_all2 (\<lambda>b i. has_version s1 (ob_checksum b) i) (os_beatmaps d) bms"
    using snapshot_beatmaps_effect [OF b ok] by auto
  have v: "versions s2 = versions s1" by (rule unchanged [OF populate_tags_keeps(1) t])
  have ok2: "archive_ok s2" using e(1) v by (auto simp: extends_def versions_def archive_ok_def requests_ok_def)
  have rows2: "map bms_info (ar_bms s2) = map bms_info (ar_bms s)" "ar_next_bms s2 = ar_next_bms s"
    using e(1) v by (simp_all add: extends_def versions_def)
  have fresh2: "set_checksum A d \<notin> ss_checksum ` set (ar_bms s2)" using fresh unfolding checksums_of rows2 .
  then have none: "find (\<lambda>r'. ss_checksum r' = set_checksum A d) (ar_bms s2) = None" by (simp only: find_fresh not_False_eq_True)
  define r0 where "r0 = \<lparr>ss_id = 0, ss_beatmapset_id = os_id d, ss_number = 0, ss_checksum = set_checksum A d, ss_data = data, ss_beatmaps = bms, ss_tags = tags\<rparr>"
  have s3: "s3 = insert_bms r0 s2" and r: "r = last (ar_bms s3)"
    using a none by (auto simp: r0_def add_bms_def bindS_def changeS_def split: if_splits)
  let ?v = "(ar_next_bms s, os_id d, int (Suc (length (versions_of (os_id d) (map bms_info (ar_bms s))))), set_checksum A d)"
  have ok3: "archive_ok s3" unfolding s3 by (rule insert_bms_ok [OF ok2]) (simp add: r0_def fresh2)
  have "map bms_info (ar_bms s3) = map bms_info (ar_bms s2) @ [?v]"
    unfolding s3 using bms_table.put_number [of s2 r0] ok2 rows2 by (simp add: archive_ok_def r0_def)
  then have rows3: "map bms_info (ar_bms s3) = map bms_info (ar_bms s) @ [?v]" by (simp only: rows2)
  then have "ar_bms s3 \<noteq> []" by auto
  then have info: "bms_info r = ?v" using arg_cong [OF rows3, of last] by (simp add: r last_map)
  have same: "ar_bm s3 = ar_bm s2" "ar_changelog s3 = ar_changelog s2" "ss_beatmaps (last (ar_bms s3)) = bms"
    unfolding s3 by (simp_all add: insert_bms_def Let_def beatmapset_snapshot_after_insert_def r0_def)
  have "map bm_info (ar_bm s2) = map bm_info (ar_bm s) @ snapshotted_beatmaps (ar_changelog s2)"
    using e(1) v assms(4) by (auto simp: extends_def versions_def)
  moreover have "has_version s' c i = has_version s1 c i" for c i
    using v by (simp add: has_version_def l same versions_def del: set_map)
  ultimately show ?thesis
    using rows3 info ok3 e(2) by (simp add: l same archive_ok_def requests_ok_def)
qed

definition newest :: "int \<Rightarrow> archive \<Rightarrow> int option" where
  "newest b s = map_option bs_number (find (\<lambda>r. bs_beatmap_id r = b) (rev (ar_bm s)))"

lemma download_effect:
  assumes "mapS (download_beatmap_file A) ids s = (Inr us, s')"
  shows "ar_bm s' = ar_bm s \<and> ar_bms s' = ar_bms s \<and>
     (\<forall>b n c. newest b s = Some n \<and> av_file A b = Inr c \<and> (b \<in> set ids \<or> map_of (ar_files s) (b, n) = Some c) \<longrightarrow> map_of (ar_files s') (b, n) = Some c) \<and>
     (\<forall>b \<in> set ids. \<exists>n c. newest b s = Some n \<and> av_file A b = Inr c)"
  using assms
proof (induction ids arbitrary: s us)
  case (Cons b ids)
  obtain s1 us' where first: "download_beatmap_file A b s = (Inr (), s1)" and rest: "mapS (download_beatmap_file A) ids s1 = (Inr us', s')"
    using Cons.prems by (auto simp: bindS_eq_Inr)
  obtain r c where r: "find (\<lambda>r. bs_beatmap_id r = b) (rev (ar_bm s)) = Some r" "av_file A b = Inr c"
      "s1 = s\<lparr>ar_files := AList.update (b, bs_number r) c (ar_files s)\<rparr>"
    using first by (auto simp: bindS_eq_Inr download_beatmap_file_def changeS_def split: option.splits)
  have "newest x s1 = newest x s" for x by (simp add: newest_def r(3))
  moreover have here: "newest b s = Some (bs_number r)" by (simp add: newest_def r(1))
  moreover have "map_of (ar_files s1) (x, n) = Some c'"
    if "newest x s = Some n" "av_file A x = Inr c'" "x = b \<or> map_of (ar_files s) (x, n) = Some c'" for x n c'
    using that here r(2) by (auto simp: r(3) update_conv')
  ultimately show ?case using Cons.IH [OF rest] r(2,3) by auto
qed simp

end
