(* ===== verification/Archive_Properties.thy ===== *)
theory Archive_Properties
  imports Archive_Versions
begin

text \<open>Properties of the archive: its invariant in every reachable state, what a run does, and what it does not.\<close>

section \<open>Reachable states\<close>

text \<open>A new request is bound to the newest version of its beatmapset (\<^verbatim>\<open>request_before_insert\<close>).\<close>

definition insert_request :: "int \<Rightarrow> int \<Rightarrow> (archive, unit) act" where
  "insert_request i b = readS (\<lambda>s.
     let ids = map ss_id (filter (\<lambda>r. ss_beatmapset_id r = b) (ar_bms s)) in
     if ids = [] then raiseS (PyExc ''ValueError'')
     else changeS (\<lambda>s. s\<lparr>ar_requests := ar_requests s @ [\<lparr>aq_id = i, aq_beatmapset_id = b, aq_snapshot_id = Max (set ids)\<rparr>]\<rparr>))"

definition empty_archive :: archive where
  "empty_archive = \<lparr>ar_users = [], ar_profile_tasks = [], ar_score_tasks = [], ar_profiles = [], ar_beatmapsets = [], ar_beatmaps = [],
     ar_bm = [], ar_bms = [], ar_bm_listings = [], ar_bms_listings = [], ar_requests = [], ar_beatmap_tags = [], ar_beatmapset_tags = [],
     ar_next_profile = 1, ar_next_bm = 1, ar_next_bms = 1, ar_next_tag = 1, ar_files = [], ar_changelog = no_changes\<rparr>"

text \<open>
  The states that runs of the archive process, whatever the osu! API answers and whether they succeed or
  fail, and new requests lead to.
\<close>

inductive archived :: "archive \<Rightarrow> bool" where
  start: "archived empty_archive"
| archive: "archived s \<Longrightarrow> archived (snd (archive_beatmapset A bid download s))"
| request: "archived s \<Longrightarrow> archived (snd (insert_request i b s))"

lemma last_is_Max: "sorted_wrt (<) xs \<Longrightarrow> xs \<noteq> [] \<Longrightarrow> Max (set xs) = last xs" for xs :: "int list"
  by (cases xs rule: rev_cases) (auto simp: sorted_wrt_append less_imp_le intro!: Max_eqI)

lemma insert_request_ok:
  assumes "archive_ok s"
  shows "archive_ok (snd (insert_request i b s))"
proof -
  let ?ids = "map ss_id (filter (\<lambda>r. ss_beatmapset_id r = b) (ar_bms s))" and ?rows = "map bms_info (ar_bms s)"
  have ids: "?ids = map vi_id (versions_of b ?rows)" by (simp add: versions_of_def filter_map comp_def bms_info_def)
  have "sorted_wrt (<) (map vi_id ?rows)" using assms by (simp add: archive_ok_def versions_ok_def sorted_wrt_append)
  then have "sorted_wrt (<) ?ids" unfolding ids versions_of_def by (simp add: sorted_wrt_map sorted_wrt_filter)
  then have "latest b ?rows = Some (Max (set ?ids))" if "?ids \<noteq> []"
    using that last_is_Max [of ?ids] unfolding ids by (auto simp: latest_def last_map)
  with assms show ?thesis
    by (auto simp: insert_request_def Let_def changeS_def archive_ok_def requests_ok_def)
qed

lemma archived_ok: "archived s \<Longrightarrow> archive_ok s"
proof (induction rule: archived.induct)
  case start
  show ?case by (simp add: archive_ok_def versions_ok_def requests_ok_def empty_archive_def versions_of_def latest_def)
qed (simp_all add: archive_beatmapset_ok insert_request_ok)

section \<open>An instance\<close>

text \<open>A beatmapset of two beatmaps, of which the second has the given checksum.\<close>

definition demo_beatmap :: "int \<Rightarrow> string \<Rightarrow> osu_beatmap" where
  "demo_beatmap b c = \<lparr>ob_id = b, ob_beatmapset_id = 5, ob_user_id = 7, ob_checksum = c, ob_owners = [], ob_top_tag_ids = [3],
     ob_raw = [(''status'', JStr ''pending'')]\<rparr>"

definition demo_osu :: "string \<Rightarrow> archive_env" where
  "demo_osu c = \<lparr>av_beatmapset = (\<lambda>b. Inr \<lparr>os_id = b, os_user_id = 7, os_user = [], os_tags = ''jazz  piano'',
       os_beatmaps = [demo_beatmap 50 ''a'', demo_beatmap 51 c], os_raw = []\<rparr>),
     av_user = (\<lambda>_. Inr [(''username'', JStr ''mapper'')]), av_tags = Inr [(3, [(''name'', JStr ''tech'')])],
     av_file = (\<lambda>_. Inr (''file of '' @ c)), av_lock = (\<lambda>_. Inr ()), av_md5 = (\<lambda>x. x), av_now = 0, av_blank_slate = [],
     av_profile_schema = Inr, av_beatmap_schema = Inr, av_beatmapset_schema = Inr, av_beatmap_view = Inr, av_beatmapset_view = Inr\<rparr>"
definition demo_archived :: archive where
  "demo_archived = snd (archive_beatmapset (demo_osu ''b'') 5 True empty_archive)"

lemma demo_archived_reachable: "archived (snd (insert_request 1 5 demo_archived))"
  unfolding demo_archived_def by (intro archived.intros)

section \<open>Properties\<close>

text \<open>
  In every reachable state, for beatmaps and for beatmapsets: identifiers increase and checksums are
  unique, the versions are numbered from one without gaps in the order of their insertion, the listing
  names the newest version; and every request refers to the newest version of its beatmapset (C29).
\<close>
theorem versions_invariant:
  assumes "archived s"
  shows "versions_ok (map bm_info (ar_bm s)) (ar_bm_listings s) (ar_next_bm s) \<and>
     versions_ok (map bms_info (ar_bms s)) (ar_bms_listings s) (ar_next_bms s) \<and>
     (\<forall>q \<in> set (ar_requests s). latest (aq_beatmapset_id q) (map bms_info (ar_bms s)) = Some (aq_snapshot_id q) \<and>
        map_of (ar_bms_listings s) (aq_beatmapset_id q) = Some (aq_snapshot_id q))"
  using archived_ok [OF assms] by (auto simp: archive_ok_def requests_ok_def versions_ok_def)

lemma known_version_kept:
  assumes run: "archive_beatmapset A bid download s = (Inr changes, s')" and payload: "av_beatmapset A bid = Inr d"
    and known: "set_checksum A d \<in> ss_checksum ` set (ar_bms s)"
  shows "map bms_info (ar_bms s') = map bms_info (ar_bms s) \<and> map bm_info (ar_bm s') = map bm_info (ar_bm s) \<and>
     ar_bms_listings s' = ar_bms_listings s \<and> ar_bm_listings s' = ar_bm_listings s \<and>
     snapshotted_beatmapset changes = None \<and> snapshotted_beatmaps changes = []"
proof -
  let ?s = "s\<lparr>ar_changelog := no_changes\<rparr>"
  obtain u u2 s1 s2 where s': "s' = s1\<lparr>ar_changelog := no_changes\<rparr>" "changes = ar_changelog s1" and
      pop: "populate_beatmapset A d ?s = (Inr u2, s2)" and
      rest: "(if set_checksum A d \<notin> ss_checksum ` set (ar_bms s2)
         then bindS (snapshot_beatmapset A d) (\<lambda>_. if download then readS (\<lambda>s. download_beatmap_files A (map (fst \<circ> snd) (snapshotted_beatmaps (ar_changelog s)))) else retS ())
         else update_beatmapset A d) s2 = (Inr u, s1)"
    using run payload by (auto simp: archive_beatmapset_def archive_session_def bindS_eq_Inr split: prod.splits sum.splits)
  have v: "versions s2 = versions ?s" by (rule unchanged [OF populate_beatmapset_keeps pop])
  then have "ss_checksum ` set (ar_bms s2) = ss_checksum ` set (ar_bms s)" unfolding checksums_of by (simp add: versions_def del: set_map)
  with rest known have upd: "update_beatmapset A d s2 = (Inr u, s1)" by simp
  from unchanged [OF update_keeps upd] v show ?thesis by (simp add: s' versions_def no_changes_def)
qed

text \<open>
  When a beatmapset is changed back to what an older version has, the run adds nothing: the listing
  and the requests keep naming the newer version, although it is no longer what osu! has.
\<close>
theorem reverted_version_not_listed:
  assumes "archived s" "archive_beatmapset A bid download s = (Inr changes, s')" "av_beatmapset A bid = Inr d"
    and "(i, os_id d, n, set_checksum A d) \<in> set (map bms_info (ar_bms s))" "n < int (length (versions_of (os_id d) (map bms_info (ar_bms s))))"
  shows "\<exists>j m c. map_of (ar_bms_listings s') (os_id d) = Some j \<and> (j, os_id d, m, c) \<in> set (map bms_info (ar_bms s')) \<and> n < m \<and> c \<noteq> set_checksum A d"
proof -
  let ?rows = "map bms_info (ar_bms s)"
  have "set_checksum A d \<in> vi_checksum ` set ?rows" by (rule image_eqI [OF _ assms(4)]) simp
  then have same: "map bms_info (ar_bms s') = ?rows" "ar_bms_listings s' = ar_bms_listings s"
    using known_version_kept [OF assms(2,3)] unfolding checksums_of by blast+
  have ok: "versions_ok ?rows (ar_bms_listings s) (ar_next_bms s)" using archived_ok [OF assms(1)] by (simp add: archive_ok_def)
  have "(i, os_id d, n, set_checksum A d) \<in> set (versions_of (os_id d) ?rows)" using assms(4) by (simp add: versions_of_def)
  then have "versions_of (os_id d) ?rows \<noteq> []" by auto
  then obtain j where j: "latest (os_id d) ?rows = Some j" by (simp add: latest_def)
  then have listed: "map_of (ar_bms_listings s) (os_id d) = Some j" using ok by (simp add: versions_ok_def)
  obtain r where r: "r \<in> set (ar_bms s)" "ss_id r = j" "ss_beatmapset_id r = os_id d" "ss_number r = int (length (versions_of (os_id d) ?rows))"
    using latest_is_older [OF ok j] by blast
  have mem: "(j, os_id d, ss_number r, ss_checksum r) \<in> set ?rows" using r by (force simp: bms_info_def)
  have "inj_on vi_checksum (set ?rows)" using ok unfolding versions_ok_def distinct_map [of vi_checksum] by blast
  then have "ss_checksum r \<noteq> set_checksum A d"
    using inj_onD [of vi_checksum "set ?rows", OF _ _ assms(4) mem] assms(5) r(4) by auto
  with mem listed assms(5) r(4) show ?thesis unfolding same by auto
qed

theorem versions_invariant_witness:
  "ar_requests (snd (insert_request 1 5 demo_archived)) = [\<lparr>aq_id = 1, aq_beatmapset_id = 5, aq_snapshot_id = 1\<rparr>] \<and>
   map_of (ar_bms_listings (snd (insert_request 1 5 demo_archived))) 5 = Some 1"
proof -
  have "ar_requests (snd (insert_request 1 5 demo_archived)) = [\<lparr>aq_id = 1, aq_beatmapset_id = 5, aq_snapshot_id = 1\<rparr>]" by code_simp
  with versions_invariant [OF demo_archived_reachable] show ?thesis by simp
qed

text \<open>The downloads after a new version touch no version and store the file of each new beatmap version.\<close>

lemma downloads_stored:
  assumes "(if download then readS (\<lambda>s. download_beatmap_files A (map (fst \<circ> snd) (snapshotted_beatmaps (ar_changelog s)))) else retS ()) s = (Inr u, s')"
  shows "versions s' = versions s \<and> ar_bms s' = ar_bms s \<and> (\<forall>b. newest b s' = newest b s) \<and>
    (download \<longrightarrow> (\<forall>v \<in> set (snapshotted_beatmaps (ar_changelog s)).
       \<exists>n c. newest (vi_of v) s = Some n \<and> av_file A (vi_of v) = Inr c \<and> map_of (ar_files s') (vi_of v, n) = Some c))"
proof (intro conjI impI ballI)
  show "versions s' = versions s" using assms unchanged [OF download_keeps] by (cases download) auto
  show "ar_bms s' = ar_bms s" "\<forall>b. newest b s' = newest b s"
    using assms by (cases download; auto simp: download_beatmap_files_def bindS_eq_Inr newest_def dest!: download_effect)+
  fix v assume "download" "v \<in> set (snapshotted_beatmaps (ar_changelog s))"
  moreover from assms \<open>download\<close> obtain us where
      "mapS (download_beatmap_file A) (map (fst \<circ> snd) (snapshotted_beatmaps (ar_changelog s))) s = (Inr us, s')"
    by (auto simp: download_beatmap_files_def bindS_eq_Inr)
  from download_effect [OF this] calculation(2)
  show "\<exists>n c. newest (vi_of v) s = Some n \<and> av_file A (vi_of v) = Inr c \<and> map_of (ar_files s') (vi_of v, n) = Some c"
    by (fastforce simp: vi_of_def)
qed

text \<open>
  A run that succeeds leaves the archive with the content that osu! reported. When no version has its
  checksum, one version is added: it has the next number, the listing names it, it refers to versions of all
  its beatmaps, exactly the new ones among them are added, the changelog says so, and with downloads the
  files of the new ones are stored. Otherwise no version is added and the listings stay (C30).
\<close>
theorem archive_adds_version:
  assumes "archived s" "archive_beatmapset A bid download s = (Inr changes, s')" "av_beatmapset A bid = Inr d"
  shows "if set_checksum A d \<notin> ss_checksum ` set (ar_bms s)
     then \<exists>i. let v = (i, os_id d, int (Suc (length (versions_of (os_id d) (map bms_info (ar_bms s))))), set_checksum A d) in
       map bms_info (ar_bms s') = map bms_info (ar_bms s) @ [v] \<and> map_of (ar_bms_listings s') (os_id d) = Some i \<and>
       snapshotted_beatmapset changes = Some v \<and> map bm_info (ar_bm s') = map bm_info (ar_bm s) @ snapshotted_beatmaps changes \<and>
       list_all2 (\<lambda>b j. has_version s' (ob_checksum b) j) (os_beatmaps d) (ss_beatmaps (last (ar_bms s'))) \<and>
       (download \<longrightarrow> (\<forall>v \<in> set (snapshotted_beatmaps changes). \<exists>n c. newest (vi_of v) s' = Some n \<and> av_file A (vi_of v) = Inr c \<and>
          map_of (ar_files s') (vi_of v, n) = Some c))
     else map bms_info (ar_bms s') = map bms_info (ar_bms s) \<and> map bm_info (ar_bm s') = map bm_info (ar_bm s) \<and>
       ar_bms_listings s' = ar_bms_listings s \<and> ar_bm_listings s' = ar_bm_listings s \<and>
       snapshotted_beatmapset changes = None \<and> snapshotted_beatmaps changes = []"
proof -
  let ?s = "s\<lparr>ar_changelog := no_changes\<rparr>"
  obtain u s1 where run: "archive_session A bid download ?s = (Inr u, s1)" and s': "s' = s1\<lparr>ar_changelog := no_changes\<rparr>" and log: "changes = ar_changelog s1"
    using assms(2) by (auto simp: archive_beatmapset_def split: prod.splits sum.splits)
  obtain u2 s2 where pop: "populate_beatmapset A d ?s = (Inr u2, s2)"
    using run assms(3) by (auto simp: archive_session_def bindS_eq_Inr)
  have v: "versions s2 = versions ?s" by (rule unchanged [OF populate_beatmapset_keeps pop])
  have ok: "archive_ok s2" using archived_ok [OF assms(1)] v by (auto simp: versions_def archive_ok_def requests_ok_def)
  have rows: "map bms_info (ar_bms s2) = map bms_info (ar_bms s)" "map bm_info (ar_bm s2) = map bm_info (ar_bm s)"
    "ar_bms_listings s2 = ar_bms_listings s" "ar_bm_listings s2 = ar_bm_listings s"
    "snapshotted_beatmaps (ar_changelog s2) = []" "snapshotted_beatmapset (ar_changelog s2) = None"
    using v by (simp_all add: versions_def no_changes_def)
  have known: "ss_checksum ` set (ar_bms s2) = ss_checksum ` set (ar_bms s)" unfolding checksums_of rows ..
  show ?thesis
  proof (cases "set_checksum A d \<notin> ss_checksum ` set (ar_bms s)")
    case True
    with known run pop assms(3) obtain u3 s3 where snap: "snapshot_beatmapset A d s2 = (Inr u3, s3)" and
        rest: "(if download then readS (\<lambda>s. download_beatmap_files A (map (fst \<circ> snd) (snapshotted_beatmaps (ar_changelog s)))) else retS ()) s3 = (Inr u, s1)"
      by (auto simp: archive_session_def bindS_eq_Inr)
    from snapshot_beatmapset_effect [OF snap ok _ rows(5)] True known obtain w where
      w: "w = (ar_next_bms s2, os_id d, int (Suc (length (versions_of (os_id d) (map bms_info (ar_bms s))))), set_checksum A d)"
        "archive_ok s3" "map bms_info (ar_bms s3) = map bms_info (ar_bms s) @ [w]" "snapshotted_beatmapset (ar_changelog s3) = Some w"
        "map bm_info (ar_bm s3) = map bm_info (ar_bm s) @ snapshotted_beatmaps (ar_changelog s3)"
        "list_all2 (\<lambda>b i. has_version s3 (ob_checksum b) i) (os_beatmaps d) (ss_beatmaps (last (ar_bms s3)))"
      unfolding rows by auto
    note loaded = downloads_stored [OF rest]
    have "map_of (ar_bms_listings s3) (os_id d) = Some (ar_next_bms s2)"
      using w(2,3) by (simp add: archive_ok_def versions_ok_def latest_append w(1))
    moreover have "has_version s' = has_version s3"
      using loaded by (intro HOL.ext) (simp add: has_version_def s' versions_def del: set_map)
    then have "list_all2 (\<lambda>b i. has_version s' (ob_checksum b) i) (os_beatmaps d) (ss_beatmaps (last (ar_bms s')))" using w(6) loaded by (simp add: s')
    moreover have "\<exists>n c. newest (vi_of v) s' = Some n \<and> av_file A (vi_of v) = Inr c \<and> map_of (ar_files s') (vi_of v, n) = Some c"
      if "download" "v \<in> set (snapshotted_beatmaps changes)" for v
    proof -
      have "v \<in> set (snapshotted_beatmaps (ar_changelog s3))" using that(2) loaded by (simp add: log versions_def)
      then show ?thesis using that(1) loaded by (auto simp: s' newest_def)
    qed
    ultimately show ?thesis using True w loaded by (auto simp: Let_def s' log versions_def)
  next
    case False
    then show ?thesis using known_version_kept [OF assms(2,3)] by simp
  qed
qed

theorem archive_adds_version_witness:
  "\<exists>changes s'. archive_beatmapset (demo_osu ''c'') 5 True (snd (insert_request 1 5 demo_archived)) = (Inr changes, s') \<and>
     snapshotted_beatmaps changes = [(3, 51, 2, ''c'')] \<and>
     map bms_info (ar_bms s') = [(1, 5, 1, ''ab''), (2, 5, 2, ''ac'')] \<and>
     map bm_info (ar_bm s') = [(1, 50, 1, ''a''), (2, 51, 1, ''b''), (3, 51, 2, ''c'')]"
proof -
  let ?s = "snd (insert_request 1 5 demo_archived)"
  have result: "fst (archive_beatmapset (demo_osu ''c'') 5 True ?s) =
      Inr \<lparr>snapshotted_beatmapset = Some (2, 5, 2, ''ac''), snapshotted_beatmaps = [(3, 51, 2, ''c'')], updated_beatmapset = None, updated_beatmaps = []\<rparr>"
    by code_simp
  then obtain s' where run: "archive_beatmapset (demo_osu ''c'') 5 True ?s =
      (Inr \<lparr>snapshotted_beatmapset = Some (2, 5, 2, ''ac''), snapshotted_beatmaps = [(3, 51, 2, ''c'')], updated_beatmapset = None, updated_beatmaps = []\<rparr>, s')"
    by (cases "archive_beatmapset (demo_osu ''c'') 5 True ?s") simp
  define d where "d = \<lparr>os_id = 5, os_user_id = 7, os_user = [], os_tags = ''jazz  piano'', os_beatmaps = [demo_beatmap 50 ''a'', demo_beatmap 51 ''c''], os_raw = []\<rparr>"
  have d: "av_beatmapset (demo_osu ''c'') 5 = Inr d" by (simp add: demo_osu_def d_def)
  have sum: "set_checksum (demo_osu ''c'') d = ''ac''" by (simp add: set_checksum_def combine_checksums_def demo_osu_def d_def demo_beatmap_def)
  have old: "map bms_info (ar_bms ?s) = [(1, 5, 1, ''ab'')]" "map bm_info (ar_bm ?s) = [(1, 50, 1, ''a''), (2, 51, 1, ''b'')]" by code_simp+
  have "set_checksum (demo_osu ''c'') d \<notin> ss_checksum ` set (ar_bms ?s)" unfolding checksums_of old sum by simp
  with archive_adds_version [OF demo_archived_reachable run d] run show ?thesis
    unfolding old by (auto simp: Let_def)
qed

end
