(* ===== verification/Listing_Endpoints.thy ===== *)
theory Listing_Endpoints
  imports Api_Utils Archive_Properties
begin

text \<open>
  The endpoints that read beatmaps, beatmapsets, their versions, listings and tags, leaderboards, scores,
  profiles and users (\<^verbatim>\<open>src/api/v1\<close>). The rows of a statement, the response schemas and the include
  schemas of the specification are the fields of \<open>api\<close>.
\<close>

section \<open>The models and the application\<close>

datatype model = USER | ROLE | PROFILE | API_KEY | OAUTH_TOKEN | SCORE_FETCHER_TASK | PROFILE_FETCHER_TASK | BEATMAP | BEATMAP_SNAPSHOT
  | BEATMAP_LISTING | BEATMAPSET | BEATMAPSET_SNAPSHOT | BEATMAPSET_LISTING | LEADERBOARD | SCORE | QUEUE | REQUEST | BEATMAPSET_TAG
  | BEATMAP_TAG | QUEUE_RULE

record ('w, 'row) api =
  ap_models :: "model \<Rightarrow> model mapper"
  ap_engine :: "(model, 'w) search_engine"
  ap_db :: "(model, 'w) statement \<Rightarrow> 'row list res"
  ap_include_schema :: "model \<Rightarrow> dict"
  ap_object :: "'row \<Rightarrow> py_object"
  ap_column :: "'row \<Rightarrow> string \<Rightarrow> json"
  ap_related :: "'row \<Rightarrow> string \<Rightarrow> 'row list"
  ap_dump :: "model \<Rightarrow> (string \<times> include_out) list \<Rightarrow> 'row \<Rightarrow> json res"
  ap_joined :: "model \<Rightarrow> 'w"

type_synonym response = "json \<times> int"

section \<open>Arguments\<close>

definition no_args :: "('m, 'w) read_args" where
  "no_args = \<lparr>ra_select = [], ra_join = None, ra_where = None, ra_sorting = None, ra_filters = None, ra_search = None,
     ra_search_mode = ''simple'', ra_search_relevance = False, ra_include = None, ra_limit = QUERY_DEFAULT_LIMIT, ra_offset = 0, ra_reversed = False\<rparr>"

definition read_params :: "string list" where
  "read_params = [''_select'', ''_join'', ''_where'', ''_sorting'', ''_filters'', ''_search'', ''_search_mode'', ''_search_relevance'', ''_include'',
     ''_limit'', ''_offset'', ''_reversed'', ''_count'']"

definition dict_arg :: "json option \<Rightarrow> dict option" where
  "dict_arg v = (case v of Some (JDict d) \<Rightarrow> Some d | _ \<Rightarrow> None)"

definition int_arg :: "int \<Rightarrow> json option \<Rightarrow> int" where
  "int_arg n v = (case v of Some (JInt i) \<Rightarrow> i | _ \<Rightarrow> n)"

definition text_arg :: "json option \<Rightarrow> string option" where
  "text_arg v = (case v of Some (JStr s) \<Rightarrow> Some s | _ \<Rightarrow> None)"

text \<open>How the keyword arguments of a handler bind to the parameters of \<^verbatim>\<open>db.get\<close> and \<^verbatim>\<open>db.get_many\<close>; the others filter.\<close>

definition args_of :: "dict \<Rightarrow> ('m, 'w) read_args" where
  "args_of kwargs = no_args
     \<lparr>ra_sorting := map_of kwargs ''_sorting'', ra_filters := dict_arg (map_of kwargs ''_filters''), ra_search := text_arg (map_of kwargs ''_search''),
      ra_search_mode := (case text_arg (map_of kwargs ''_search_mode'') of Some s \<Rightarrow> s | None \<Rightarrow> ''simple''),
      ra_search_relevance := truthy (dget kwargs ''_search_relevance''), ra_include := dict_arg (map_of kwargs ''_include''),
      ra_limit := int_arg QUERY_DEFAULT_LIMIT (map_of kwargs ''_limit''), ra_offset := int_arg 0 (map_of kwargs ''_offset''),
      ra_reversed := truthy (dget kwargs ''_reversed'')\<rparr>"

definition filters_of :: "dict \<Rightarrow> dict" where
  "filters_of kwargs = filter (\<lambda>(k, _). k \<notin> set read_params) kwargs"

definition db_get :: "('w, 'row) api \<Rightarrow> model \<Rightarrow> dict \<Rightarrow> 'row option res" where
  "db_get A m kwargs = crud_get (ap_models A) (ap_engine A) (ap_db A) m (args_of kwargs) (filters_of kwargs)"

definition db_get_many :: "('w, 'row) api \<Rightarrow> model \<Rightarrow> (model, 'w) join_arg option \<Rightarrow> dict \<Rightarrow> 'row list res" where
  "db_get_many A m j kwargs =
     crud_get_many (ap_models A) (ap_engine A) (ap_db A) m ((args_of kwargs)\<lparr>ra_join := j\<rparr>) (filters_of kwargs)"

definition dump_all :: "('w, 'row) api \<Rightarrow> model \<Rightarrow> dict \<Rightarrow> 'row list \<Rightarrow> response res" where
  "dump_all A m kwargs rows =
     (case rows of
        [] \<Rightarrow> Inr (JList [], 200)
      | r # _ \<Rightarrow>
          bindR (build_pydantic_include (ap_object A r) (ap_include_schema A m) (dict_arg (map_of kwargs ''_include''))) (\<lambda>inc.
          bindR (map_res (ap_dump A m inc) rows) (\<lambda>docs. Inr (JList docs, 200))))"

definition dump_one :: "('w, 'row) api \<Rightarrow> model \<Rightarrow> string \<Rightarrow> dict \<Rightarrow> 'row option \<Rightarrow> response res" where
  "dump_one A m what kwargs found =
     (case found of
        None \<Rightarrow> Inl (NotFound what)
      | Some r \<Rightarrow>
          bindR (build_pydantic_include (ap_object A r) (ap_include_schema A m) (dict_arg (map_of kwargs ''_include''))) (\<lambda>inc.
          bindR (ap_dump A m inc r) (\<lambda>doc. Inr (doc, 200))))"

section \<open>Lists and single rows\<close>

definition beatmaps_search :: "('w, 'row) api \<Rightarrow> dict \<Rightarrow> response res" where
  "beatmaps_search A = api_query True False (\<lambda>kw. bindR (db_get_many A BEATMAP None kw) (dump_all A BEATMAP kw))"

definition beatmaps_get :: "('w, 'row) api \<Rightarrow> int \<Rightarrow> dict \<Rightarrow> response res" where
  "beatmaps_get A i = api_query False False (\<lambda>kw. bindR (db_get A BEATMAP ((''id'', JInt i) # kw)) (dump_one A BEATMAP ''beatmap'' kw))"

definition beatmapsets_search :: "('w, 'row) api \<Rightarrow> dict \<Rightarrow> response res" where
  "beatmapsets_search A = api_query True False (\<lambda>kw. bindR (db_get_many A BEATMAPSET None kw) (dump_all A BEATMAPSET kw))"

text \<open>The identifier is not passed to the query.\<close>

definition beatmapsets_get :: "('w, 'row) api \<Rightarrow> int \<Rightarrow> dict \<Rightarrow> response res" where
  "beatmapsets_get A i = api_query False False (\<lambda>kw. bindR (db_get A BEATMAPSET kw) (dump_one A BEATMAPSET ''beatmapset'' kw))"

definition beatmap_listings_search :: "('w, 'row) api \<Rightarrow> dict \<Rightarrow> response res" where
  "beatmap_listings_search A = api_query True False (\<lambda>kw.
     bindR (db_get_many A BEATMAP_SNAPSHOT (Some (JoinOn BEATMAP_LISTING (ap_joined A BEATMAP_LISTING))) kw) (dump_all A BEATMAP_SNAPSHOT kw))"

definition beatmapset_listings_search :: "('w, 'row) api \<Rightarrow> dict \<Rightarrow> response res" where
  "beatmapset_listings_search A = api_query True False (\<lambda>kw.
     bindR (db_get_many A BEATMAPSET_SNAPSHOT (Some (JoinOn BEATMAPSET_LISTING (ap_joined A BEATMAPSET_LISTING))) kw) (dump_all A BEATMAPSET_SNAPSHOT kw))"

definition beatmap_tags_search :: "('w, 'row) api \<Rightarrow> dict \<Rightarrow> response res" where
  "beatmap_tags_search A = api_query True False (\<lambda>kw. bindR (db_get_many A BEATMAP_TAG None kw) (dump_all A BEATMAP_TAG kw))"

definition beatmap_tags_get :: "('w, 'row) api \<Rightarrow> int \<Rightarrow> dict \<Rightarrow> response res" where
  "beatmap_tags_get A i = api_query False False (\<lambda>kw. bindR (db_get A BEATMAP_TAG ((''id'', JInt i) # kw)) (dump_one A BEATMAP_TAG ''beatmap tag'' kw))"

definition beatmapset_tags_search :: "('w, 'row) api \<Rightarrow> dict \<Rightarrow> response res" where
  "beatmapset_tags_search A = api_query True False (\<lambda>kw. bindR (db_get_many A BEATMAPSET_TAG None kw) (dump_all A BEATMAPSET_TAG kw))"

definition beatmapset_tags_get :: "('w, 'row) api \<Rightarrow> int \<Rightarrow> dict \<Rightarrow> response res" where
  "beatmapset_tags_get A i = api_query False False (\<lambda>kw. bindR (db_get A BEATMAPSET_TAG ((''id'', JInt i) # kw)) (dump_one A BEATMAPSET_TAG ''beatmapset tag'' kw))"

definition beatmap_snapshots_search :: "('w, 'row) api \<Rightarrow> int \<Rightarrow> dict \<Rightarrow> response res" where
  "beatmap_snapshots_search A b = api_query True False (\<lambda>kw.
     bindR (db_get_many A BEATMAP_SNAPSHOT None ((''beatmap_id'', JInt b) # kw)) (dump_all A BEATMAP_SNAPSHOT kw))"

definition beatmapset_snapshots_search :: "('w, 'row) api \<Rightarrow> int \<Rightarrow> dict \<Rightarrow> response res" where
  "beatmapset_snapshots_search A b = api_query True False (\<lambda>kw.
     bindR (db_get_many A BEATMAPSET_SNAPSHOT None ((''beatmapset_id'', JInt b) # kw)) (dump_all A BEATMAPSET_SNAPSHOT kw))"

definition scores_search :: "('w, 'row) api \<Rightarrow> dict \<Rightarrow> response res" where
  "scores_search A = api_query True False (\<lambda>kw. bindR (db_get_many A SCORE None kw) (dump_all A SCORE kw))"

definition scores_get :: "('w, 'row) api \<Rightarrow> int \<Rightarrow> dict \<Rightarrow> response res" where
  "scores_get A i = api_query False False (\<lambda>kw. bindR (db_get A SCORE ((''id'', JInt i) # kw)) (dump_one A SCORE ''score'' kw))"

definition profiles_search :: "('w, 'row) api \<Rightarrow> dict \<Rightarrow> response res" where
  "profiles_search A = api_query True False (\<lambda>kw. bindR (db_get_many A PROFILE None kw) (dump_all A PROFILE kw))"

definition requests_search :: "('w, 'row) api \<Rightarrow> dict \<Rightarrow> response res" where
  "requests_search A = api_query True False (\<lambda>kw. bindR (db_get_many A REQUEST None kw) (dump_all A REQUEST kw))"

section \<open>Versions by number\<close>

text \<open>
  A negative number counts from the newest version. The order is passed as \<^verbatim>\<open>_order_by\<close>, which
  \<^verbatim>\<open>db.get\<close> does not know.
\<close>

definition get_version :: "('w, 'row) api \<Rightarrow> model \<Rightarrow> string \<Rightarrow> int \<Rightarrow> int \<Rightarrow> dict \<Rightarrow> 'row option res" where
  "get_version A m key i number kw =
     (if number < 0
      then db_get A m ([(key, JInt i), (''_order_by'', JStr ''snapshot_number desc''), (''_offset'', JInt (\<bar>number\<bar> - 1))] @ kw)
      else db_get A m ([(key, JInt i), (''snapshot_number'', JInt number)] @ kw))"

definition beatmap_snapshots_get :: "('w, 'row) api \<Rightarrow> int \<Rightarrow> json option \<Rightarrow> dict \<Rightarrow> response res" where
  "beatmap_snapshots_get A b number = api_query False False (\<lambda>kw.
     bindR (coerce_snapshot_number number) (\<lambda>n.
     bindR (get_version A BEATMAP_SNAPSHOT ''beatmap_id'' b n kw) (dump_one A BEATMAP_SNAPSHOT ''beatmap snapshot'' kw)))"

definition beatmapset_snapshots_get :: "('w, 'row) api \<Rightarrow> int \<Rightarrow> json option \<Rightarrow> dict \<Rightarrow> response res" where
  "beatmapset_snapshots_get A b number = api_query False False (\<lambda>kw.
     bindR (coerce_snapshot_number number) (\<lambda>n.
     bindR (get_version A BEATMAPSET_SNAPSHOT ''beatmapset_id'' b n kw) (dump_one A BEATMAPSET_SNAPSHOT ''beatmapset snapshot'' kw)))"

definition found :: "string \<Rightarrow> 'a option \<Rightarrow> 'a res" where
  "found what x = (case x of None \<Rightarrow> Inl (NotFound what) | Some y \<Rightarrow> Inr y)"

definition get_leaderboard :: "('w, 'row) api \<Rightarrow> int \<Rightarrow> 'row \<Rightarrow> dict \<Rightarrow> 'row option res" where
  "get_leaderboard A b snapshot kw =
     db_get A LEADERBOARD ([(''beatmap_id'', JInt b), (''beatmap_snapshot_id'', ap_column A snapshot ''id'')] @ kw)"

definition leaderboard_search :: "('w, 'row) api \<Rightarrow> int \<Rightarrow> json option \<Rightarrow> dict \<Rightarrow> response res" where
  "leaderboard_search A b number = api_query False False (\<lambda>kw.
     bindR (coerce_snapshot_number number) (\<lambda>n.
     bindR (get_version A BEATMAP_SNAPSHOT ''beatmap_id'' b n []) (\<lambda>x.
     bindR (found ''beatmap snapshot'' x) (\<lambda>snapshot.
     bindR (get_leaderboard A b snapshot kw) (dump_one A LEADERBOARD ''leaderboard'' kw)))))"

definition snapshot_scores_search :: "('w, 'row) api \<Rightarrow> int \<Rightarrow> json option \<Rightarrow> dict \<Rightarrow> response res" where
  "snapshot_scores_search A b number = api_query True False (\<lambda>kw.
     bindR (coerce_snapshot_number number) (\<lambda>n.
     bindR (get_version A BEATMAP_SNAPSHOT ''beatmap_id'' b n []) (\<lambda>x.
     bindR (found ''beatmap snapshot'' x) (\<lambda>snapshot.
     bindR (get_leaderboard A b snapshot [(''_include'', JDict [(''scores'', JBool True)])]) (\<lambda>y.
     bindR (found ''leaderboard'' y) (\<lambda>leaderboard. dump_all A SCORE kw (ap_related A leaderboard ''scores'')))))))"

section \<open>Files\<close>

definition get_path :: "archive \<Rightarrow> int \<Rightarrow> int \<Rightarrow> (int \<times> int) res" where
  "get_path s b n = (if (b, n) \<in> fst ` set (ar_files s) then Inr (b, n) else Inl (PyExc ''FileNotFoundError''))"

definition get_file :: "archive \<Rightarrow> int \<Rightarrow> int \<Rightarrow> string res" where
  "get_file s b n = (case map_of (ar_files s) (b, n) of Some c \<Rightarrow> Inr c | None \<Rightarrow> Inl (PyExc ''FileNotFoundError''))"

definition column_int :: "('w, 'row) api \<Rightarrow> 'row \<Rightarrow> string \<Rightarrow> int" where
  "column_int A r k = (case ap_column A r k of JInt n \<Rightarrow> n | _ \<Rightarrow> 0)"

definition beatmap_osu_search :: "('w, 'row) api \<Rightarrow> archive \<Rightarrow> int \<Rightarrow> json option \<Rightarrow> string res" where
  "beatmap_osu_search A s b number =
     bindR (coerce_snapshot_number number) (\<lambda>n.
     bindR (get_version A BEATMAP_SNAPSHOT ''beatmap_id'' b n []) (\<lambda>x.
     bindR (found ''beatmap snapshot'' x) (\<lambda>snapshot.
     bindR (get_path s b (column_int A snapshot ''snapshot_number'')) (\<lambda>path. get_file s (fst path) (snd path)))))"

text \<open>\<^verbatim>\<open>get_zip\<close>: the files by name.\<close>

definition get_zip :: "('w, 'row) api \<Rightarrow> archive \<Rightarrow> int \<Rightarrow> int \<Rightarrow> (string \<times> string) list res" where
  "get_zip A s b number =
     bindR (get_version A BEATMAPSET_SNAPSHOT ''beatmapset_id'' b number [(''_include'', JDict [(''beatmap_snapshots'', JBool True)])]) (\<lambda>x.
       case x of
         None \<Rightarrow> Inl (PyExc ''ValueError'')
       | Some snapshot \<Rightarrow> map_res (\<lambda>r.
           bindR (get_path s (column_int A r ''beatmap_id'') (column_int A r ''snapshot_number'')) (\<lambda>path.
           bindR (get_file s (fst path) (snd path)) (\<lambda>content. Inr (py_str (fst path) @ ''.osu'', content)))) (ap_related A snapshot ''beatmap_snapshots''))"

definition beatmapset_zip_search :: "('w, 'row) api \<Rightarrow> archive \<Rightarrow> int \<Rightarrow> json option \<Rightarrow> (string \<times> string) list res" where
  "beatmapset_zip_search A s b number =
     bindR (coerce_snapshot_number number) (\<lambda>n.
       case get_zip A s b n of
         Inl (PyExc e) \<Rightarrow> if e = ''ValueError'' then Inl (NotFound ''beatmapset snapshot'') else Inl (PyExc e)
       | r \<Rightarrow> r)"

section \<open>Archiving a beatmapset\<close>

definition update_counts :: "changelog \<Rightarrow> int \<times> int \<times> int" where
  "update_counts c =
     (case updated_beatmapset c of Some (_, d) \<Rightarrow> int (length d) | None \<Rightarrow> 0,
      sum_list (map (\<lambda>(_, d). int (length d)) (updated_beatmaps c)), int (length (updated_beatmaps c)))"

definition archive_message :: "changelog \<Rightarrow> string \<times> int" where
  "archive_message c =
     (if snapshotted_beatmapset c \<noteq> None \<or> snapshotted_beatmaps c \<noteq> []
      then (''Snapshotted '' @ py_str (int (length (snapshotted_beatmaps c))) @ '' beatmap(s)'', 201)
      else if updated_beatmapset c \<noteq> None \<or> updated_beatmaps c \<noteq> []
      then (let (a, b, n) = update_counts c in
            (''Updated '' @ py_str a @ '' field(s) in the beatmapset and '' @ py_str b @ '' field(s) in '' @ py_str n @ '' beatmap(s)'', 200))
      else (''The beatmapset and its beatmaps are fully up-to-date'', 200))"

text \<open>The handler behind its decorators; \<open>error_status\<close> is the status of the response that osu! failed with.\<close>

definition beatmapsets_post :: "archive_env \<Rightarrow> int \<Rightarrow> dict \<Rightarrow> (archive, (changelog option \<times> string) \<times> int) act" where
  "beatmapsets_post A error_status body =
     bindS (liftS (case map_of body ''id'' of Some (JInt i) \<Rightarrow> Inr i | _ \<Rightarrow> Inl (PyExc ''KeyError''))) (\<lambda>i s.
       case archive_beatmapset A i True s of
         (Inr c, s') \<Rightarrow> (Inr ((Some c, fst (archive_message c)), snd (archive_message c)), s')
       | (Inl e, s') \<Rightarrow> if e = PyExc ''HTTPStatusError'' then (Inr ((None, ''osu! API Error''), error_status), s') else (Inl e, s'))"

end
