(* ===== verification/Endpoint_Properties.thy ===== *)
theory Endpoint_Properties
  imports Listing_Endpoints
begin

text \<open>What holds of the statements, the responses and the endpoints that read versions.\<close>

section \<open>An instance\<close>

definition demo_column :: "string \<Rightarrow> column_info" where
  "demo_column k = \<lparr>ci_name = k, ci_primary_key = (k = ''id''), ci_nullable = False, ci_default = False, ci_autoincrement = True,
     ci_unique = False, ci_string = False\<rparr>"

definition demo_mapper :: "string \<Rightarrow> string list \<Rightarrow> (string \<times> model relation) list \<Rightarrow> model mapper" where
  "demo_mapper name columns rels = \<lparr>mp_name = name, mp_columns = map demo_column columns, mp_relationships = rels, mp_hybrids = [], mp_constraints = []\<rparr>"

definition to_many :: "model \<Rightarrow> model relation" where
  "to_many m = \<lparr>rel_target = m, rel_uselist = True, rel_lazy = True\<rparr>"

definition demo_models :: "model \<Rightarrow> model mapper" where
  "demo_models m =
     (case m of
        BEATMAPSET_SNAPSHOT \<Rightarrow> demo_mapper ''BeatmapsetSnapshot'' [''id'', ''beatmapset_id'', ''snapshot_number'']
          [(''beatmap_snapshots'', to_many BEATMAP_SNAPSHOT), (''beatmapset_tags'', to_many BEATMAPSET_TAG)]
      | BEATMAP_SNAPSHOT \<Rightarrow> demo_mapper ''BeatmapSnapshot'' [''id'', ''beatmap_id'', ''snapshot_number'']
          [(''beatmapset_snapshots'', to_many BEATMAPSET_SNAPSHOT), (''beatmap_tags'', to_many BEATMAP_TAG)]
      | _ \<Rightarrow> demo_mapper ''Other'' [''id''] [])"

definition demo_api :: "(unit, int) api" where
  "demo_api = \<lparr>ap_models = demo_models, ap_engine = (\<lambda>_. None), ap_db = (\<lambda>_. Inr [1]),
     ap_include_schema = (\<lambda>_. [(''properties'', JDict [(''id'', JDict [(''type'', JStr ''boolean''), (''default'', JBool True)]),
       (''checksum'', JDict [(''type'', JStr ''boolean'')])])]),
     ap_object = (\<lambda>_. Object []), ap_column = (\<lambda>_ _. JInt 1), ap_related = (\<lambda>_ _. []), ap_dump = (\<lambda>_ _ n. Inr (JInt n)), ap_joined = (\<lambda>_. ())\<rparr>"

section \<open>Statements\<close>



section \<open>Responses\<close>



section \<open>The newest version\<close>

lemma unknown_keyword_fails:
  assumes "k \<in> fst ` set kwargs" "k \<notin> set (all_names (M m))"
  shows "\<exists>e. construct_stmt M E m a kwargs = Inl e"
proof -
  have "\<exists>e. filter_by M m kwargs s = Inl e" for s
  proof (cases "filter_by M m kwargs s")
    case (Inr s')
    then obtain conds where "map_res (\<lambda>(k, v). if k \<in> set (all_names (M m)) then Inr (Compare EQ m k v) else Inl (PyExc ''InvalidRequestError'')) kwargs = Inr conds"
      by (auto simp: filter_by_def bindR_eq_Inr)
    from map_res_each [OF this] assms show ?thesis by force
  qed simp
  then have "construct_stmt M E m a kwargs \<noteq> Inr s" for s
    unfolding construct_stmt_def bindR_eq_Inr by (metis Inl_Inr_False)
  then show ?thesis by (cases "construct_stmt M E m a kwargs") auto
qed

lemma negative_version_fails:
  assumes "n < 0" "''_order_by'' \<notin> set (all_names (ap_models A m))"
  shows "\<exists>e. get_version A m key i n kw = Inl e"
proof -
  have "''_order_by'' \<in> fst ` set (filters_of ([(key, JInt i), (''_order_by'', JStr ''snapshot_number desc''), (''_offset'', JInt (\<bar>n\<bar> - 1))] @ kw))"
    by (force simp: filters_of_def read_params_def)
  from unknown_keyword_fails [where M = "ap_models A", OF this assms(2)] assms(1) show ?thesis
    unfolding get_version_def db_get_def crud_get_def by (metis bindR_Inl)
qed

text \<open>
  No endpoint can serve the newest version of a beatmap or beatmapset: with the path argument
  \<^verbatim>\<open>latest\<close>, any negative number or no number at all, every lookup of a version fails, because it passes a
  keyword that is no attribute of the model. And the endpoint for one beatmapset answers the same
  whatever identifier it is given.
\<close>
theorem latest_version_unreachable:
  assumes "coerce_snapshot_number number = Inr n" "n < 0"
    and "''_order_by'' \<notin> set (all_names (ap_models A BEATMAP_SNAPSHOT))" "''_order_by'' \<notin> set (all_names (ap_models A BEATMAPSET_SNAPSHOT))"
  shows "(\<exists>e. beatmap_snapshots_get A b number kw = Inl e) \<and> (\<exists>e. beatmapset_snapshots_get A b number kw = Inl e) \<and>
     (\<exists>e. leaderboard_search A b number kw = Inl e) \<and> (\<exists>e. snapshot_scores_search A b number kw = Inl e) \<and>
     (\<exists>e. beatmap_osu_search A s b number = Inl e) \<and> (\<exists>e. beatmapset_zip_search A s b number = Inl e) \<and>
     beatmapsets_get A i kw = beatmapsets_get A j kw"
proof -
  note fails = negative_version_fails [OF assms(2,3)] negative_version_fails [OF assms(2,4)]
  have bind: "\<exists>e. bindR x f = Inl e" if "\<exists>e. x = Inl e" for x :: "'x res" and f :: "'x \<Rightarrow> 'y res" using that by auto
  have "\<exists>e. beatmap_snapshots_get A b number kw = Inl e" "\<exists>e. beatmapset_snapshots_get A b number kw = Inl e"
    "\<exists>e. leaderboard_search A b number kw = Inl e" "\<exists>e. snapshot_scores_search A b number kw = Inl e" "\<exists>e. beatmap_osu_search A s b number = Inl e"
    unfolding beatmap_snapshots_get_def beatmapset_snapshots_get_def leaderboard_search_def snapshot_scores_search_def beatmap_osu_search_def
      api_query_def Let_def split_beta assms(1) bindR_Inr by (intro bind fails)+
  moreover have "\<exists>e. get_zip A s b n = Inl e" unfolding get_zip_def by (intro bind fails)
  then have "\<exists>e. beatmapset_zip_search A s b number = Inl e"
    by (auto simp: beatmapset_zip_search_def assms(1) split: exn.splits)
  ultimately show ?thesis by (simp add: beatmapsets_get_def)
qed

theorem latest_version_unreachable_witness:
  "\<exists>e. beatmap_snapshots_get demo_api 5 (Some (JStr ''latest'')) [] = Inl e"
proof -
  have "coerce_snapshot_number (Some (JStr ''latest'')) = Inr (-1)" by (simp add: coerce_snapshot_number_def)
  from latest_version_unreachable [OF this, of demo_api 5 "[]"] show ?thesis
    by (simp add: demo_api_def demo_models_def demo_mapper_def demo_column_def all_names_def column_names_def relationship_names_def
        hybrid_property_names_def)
qed

end
