(* ===== verification/Crud_Write.thy ===== *)
theory Crud_Write
  imports Crud_Statements Actions "HOL-Library.Sublist"
begin

text \<open>
  Writing to the database (\<^verbatim>\<open>src/app/database/crud/c.py\<close>, \<^verbatim>\<open>u.py\<close>, \<^verbatim>\<open>d.py\<close>, \<^verbatim>\<open>decorators.py\<close>): creation that resolves
  existing rows, updates by primary key, guarded deletion, and the sessions they run in. The session of
  SQLAlchemy is the record \<open>orm\<close> of the calls the code makes.
\<close>

section \<open>The session\<close>

text \<open>Values of keyword arguments: values of columns, instances, dictionaries and lists of them. A query of
  the session is an action, since it flushes pending changes first. Sets of attribute names are read in
  the order of the mapper.\<close>

datatype 'o pyval = Val json | Obj 'o | Dict "(string \<times> 'o pyval) list" | Seq "'o pyval list"

type_synonym 'o fields = "(string \<times> 'o pyval) list"

record ('m, 'o, 's) orm =
  o_where :: "'m \<Rightarrow> 'o fields \<Rightarrow> ('s, 'o list) act"
  o_where_in :: "'m \<Rightarrow> (string \<times> 'o pyval list) list \<Rightarrow> ('s, 'o list) act"
  o_get :: "'m \<Rightarrow> int \<Rightarrow> ('s, 'o option) act"
  o_new :: "'m \<Rightarrow> ('s, 'o) act"
  o_set :: "'o \<Rightarrow> string \<Rightarrow> 'o pyval \<Rightarrow> ('s, unit) act"
  o_relate :: "'o \<Rightarrow> string \<Rightarrow> 'o list \<Rightarrow> ('s, unit) act"
  o_relate_one :: "'o \<Rightarrow> string \<Rightarrow> 'o option \<Rightarrow> ('s, unit) act"
  o_elsewhere :: "'o \<Rightarrow> 's \<Rightarrow> bool"
  o_add :: "'o \<Rightarrow> ('s, unit) act"
  o_flush :: "('s, unit) act"
  o_refresh :: "'o \<Rightarrow> ('s, unit) act"
  o_delete :: "'o \<Rightarrow> ('s, unit) act"

definition ensure_same_session :: "('m, 'o, 's) orm \<Rightarrow> 'o \<Rightarrow> ('s, unit) act" where
  "ensure_same_session D x = readS (\<lambda>s. if o_elsewhere D x s then raiseS (PyExc ''RuntimeError'') else retS ())"

section \<open>Creation\<close>

definition unique_sets :: "'m mapper \<Rightarrow> string list list" where
  "unique_sets m = remdups (map (\<lambda>c. [ci_name c]) (filter ci_unique (mp_columns m)) @ mp_constraints m)"

definition given :: "'o fields \<Rightarrow> string list \<Rightarrow> bool" where
  "given data ks \<longleftrightarrow> set ks \<subseteq> fst ` set data"

definition lookup_by :: "('m, 'o, 's) orm \<Rightarrow> 'm \<Rightarrow> 'o fields \<Rightarrow> string list \<Rightarrow> ('s, 'o option) act" where
  "lookup_by D m data ks = bindS (o_where D m (map (\<lambda>k. (k, the (map_of data k))) ks)) (\<lambda>rows.
     case rows of
       [] \<Rightarrow> retS None
     | x # _ \<Rightarrow> bindS (ensure_same_session D x) (\<lambda>_. retS (Some x)))"

fun lookup_first :: "('m, 'o, 's) orm \<Rightarrow> 'm \<Rightarrow> 'o fields \<Rightarrow> string list list \<Rightarrow> ('s, 'o option) act" where
  "lookup_first D m data [] = retS None"
| "lookup_first D m data (ks # rest) =
     (if given data ks
      then bindS (lookup_by D m data ks) (\<lambda>found. case found of Some x \<Rightarrow> retS (Some x) | None \<Rightarrow> lookup_first D m data rest)
      else lookup_first D m data rest)"

definition lookup_instance :: "('m \<Rightarrow> 'm mapper) \<Rightarrow> ('m, 'o, 's) orm \<Rightarrow> 'm \<Rightarrow> 'o fields \<Rightarrow> ('s, 'o option) act" where
  "lookup_instance M D m data = lookup_first D m data (primary_keys (M m) # unique_sets (M m))"

definition create_instance :: "('m \<Rightarrow> 'm mapper) \<Rightarrow> ('m, 'o, 's) orm \<Rightarrow> 'm \<Rightarrow> 'o fields \<Rightarrow> ('s, 'o) act" where
  "create_instance M D m data =
     bindS (o_new D m) (\<lambda>x.
     bindS (mapS (\<lambda>k. case map_of data k of Some v \<Rightarrow> o_set D x k v | None \<Rightarrow> retS ()) (column_names (M m))) (\<lambda>_. retS x))"

lemma size_data: "map_of data k = Some v \<Longrightarrow> size v < size (Dict data)"
  by (induction data) (auto split: if_splits)

lemma size_item: "v \<in> set vs \<Longrightarrow> size v < size (Seq vs)"
  by (induction vs) auto

text \<open>What a loop over a value reads: the items of a list, the keys of a dictionary, the characters of a string.\<close>

fun iterated :: "'o pyval \<Rightarrow> 'o pyval list res" where
  "iterated (Seq vs) = Inr vs"
| "iterated (Dict d) = Inr (map (\<lambda>(k, _). Val (JStr k)) d)"
| "iterated (Val (JStr s)) = Inr (map (\<lambda>c. Val (JStr [c])) s)"
| "iterated _ = Inl (PyExc ''TypeError'')"

lemma size_iterated: "iterated v = Inr vs \<Longrightarrow> Dict d \<in> set vs \<Longrightarrow> size (Dict d) < size v"
  using size_item [of "Dict d"] by (cases v rule: iterated.cases) auto

text \<open>
  A scalar relationship that is given as an instance is checked but not assigned.
\<close>

function resolve_or_create :: "('m \<Rightarrow> 'm mapper) \<Rightarrow> ('m, 'o, 's) orm \<Rightarrow> 'm \<Rightarrow> 'o fields \<Rightarrow> ('s, 'o) act" where
  "resolve_or_create M D m data =
     bindS (lookup_instance M D m data) (\<lambda>found.
     bindS (case found of Some x \<Rightarrow> retS x | None \<Rightarrow> create_instance M D m data) (\<lambda>x.
     bindS (mapS (\<lambda>(key, rel).
       case map_of data key of
         None \<Rightarrow> retS ()
       | Some v \<Rightarrow>
           if rel_uselist rel then
             (case iterated v of
                Inl e \<Rightarrow> raiseS e
              | Inr vs \<Rightarrow>
                  bindS (mapS (\<lambda>item.
                    case item of
                      Dict d \<Rightarrow> resolve_or_create M D (rel_target rel) d
                    | Obj y \<Rightarrow> bindS (ensure_same_session D y) (\<lambda>_. retS y)
                    | _ \<Rightarrow> raiseS (PyExc ''NoInspectionAvailable'')) vs) (o_relate D x key))
           else
             (case v of
                Dict d \<Rightarrow> bindS (resolve_or_create M D (rel_target rel) d) (\<lambda>y. o_relate_one D x key (Some y))
              | Obj y \<Rightarrow> ensure_same_session D y
              | Val j \<Rightarrow> if j = JNull then o_relate_one D x key None else raiseS (PyExc ''NoInspectionAvailable'')
              | Seq _ \<Rightarrow> raiseS (PyExc ''NoInspectionAvailable'')))
       (mp_relationships (M m))) (\<lambda>_. retS x)))"
  by pat_completeness auto
termination
proof (relation "measure (\<lambda>(M, D, m, data). size (Dict data))")
qed (use size_data size_iterated less_trans in \<open>(fastforce simp del: pyval.size)+\<close>)

declare resolve_or_create.simps [simp del]

definition value_exn :: exn where "value_exn = PyExc ''ValueError''"

definition missing_columns :: "'m mapper \<Rightarrow> 'o fields \<Rightarrow> string list" where
  "missing_columns m data = filter (\<lambda>k. k \<notin> fst ` set data) (required_columns m)"

text \<open>\<^verbatim>\<open>@ensure_required()\<close>\<close>

definition ensure_required :: "'m mapper \<Rightarrow> 'o fields \<Rightarrow> ('s, 'a) act \<Rightarrow> ('s, 'a) act" where
  "ensure_required m data f = (if missing_columns m data \<noteq> [] then raiseS value_exn else f)"

definition writable_names :: "'m mapper \<Rightarrow> string list" where
  "writable_names m = column_names m @ relationship_names m"

definition known_attributes :: "'m mapper \<Rightarrow> 'o fields \<Rightarrow> bool" where
  "known_attributes m data \<longleftrightarrow> (\<forall>(k, _) \<in> set data. k \<in> set (writable_names m))"

definition add_instance :: "('m \<Rightarrow> 'm mapper) \<Rightarrow> ('m, 'o, 's) orm \<Rightarrow> 'm \<Rightarrow> 'o fields \<Rightarrow> ('s, 'o) act" where
  "add_instance M D m kwargs =
     ensure_required (M m) kwargs
       (if kwargs = [] \<and> required_columns (M m) \<noteq> [] then raiseS value_exn
        else if \<not> known_attributes (M m) kwargs then raiseS value_exn
        else bindS (resolve_or_create M D m kwargs) (\<lambda>x.
             bindS (o_add D x) (\<lambda>_. bindS (o_flush D) (\<lambda>_. bindS (o_refresh D x) (\<lambda>_. retS x)))))"

text \<open>\<^verbatim>\<open>col not in d\<close> for a value that need not be a dictionary.\<close>

fun lacks :: "'o pyval \<Rightarrow> string \<Rightarrow> bool res" where
  "lacks (Dict d) k = Inr (k \<notin> fst ` set d)"
| "lacks (Seq vs) k = Inr (\<forall>v \<in> set vs. v \<noteq> Val (JStr k))"
| "lacks (Val (JStr s)) k = Inr (k \<notin> set (sublists s))"
| "lacks _ k = Inl (PyExc ''TypeError'')"

definition ensure_required_many :: "'m mapper \<Rightarrow> 'o pyval list \<Rightarrow> unit res" where
  "ensure_required_many m data =
     for_each (\<lambda>d. bindR (map_res (lacks d) (required_columns m)) (\<lambda>missing. guardR (True \<notin> set missing) value_exn)) data"

text \<open>Several rows: all are resolved before any of them is added.\<close>

definition resolve_item :: "('m \<Rightarrow> 'm mapper) \<Rightarrow> ('m, 'o, 's) orm \<Rightarrow> 'm \<Rightarrow> 'o pyval \<Rightarrow> ('s, 'o) act" where
  "resolve_item M D m item =
     (case item of
        Dict d \<Rightarrow>
          if d = [] \<and> required_columns (M m) \<noteq> [] then raiseS value_exn
          else if \<not> known_attributes (M m) d then raiseS value_exn
          else resolve_or_create M D m d
      | _ \<Rightarrow> raiseS (PyExc ''TypeError''))"

definition add_instances :: "('m \<Rightarrow> 'm mapper) \<Rightarrow> ('m, 'o, 's) orm \<Rightarrow> 'm \<Rightarrow> 'o pyval list \<Rightarrow> ('s, 'o list) act" where
  "add_instances M D m data =
     bindS (liftS (ensure_required_many (M m) data)) (\<lambda>_.
       if data = [] then retS []
       else bindS (mapS (resolve_item M D m) data) (\<lambda>xs.
            bindS (mapS (o_add D) xs) (\<lambda>_. bindS (o_flush D) (\<lambda>_. bindS (mapS (o_refresh D) xs) (\<lambda>_. retS xs)))))"

section \<open>Updates\<close>

text \<open>Attributes are set one after the other, each after its own check.\<close>

fun set_attributes :: "'m mapper \<Rightarrow> ('m, 'o, 's) orm \<Rightarrow> 'o \<Rightarrow> 'o fields \<Rightarrow> ('s, unit) act" where
  "set_attributes m D x [] = retS ()"
| "set_attributes m D x ((k, v) # rest) =
     (if k \<notin> set (writable_names m) then raiseS value_exn
      else bindS (o_set D x k v) (\<lambda>_. set_attributes m D x rest))"

definition update_loaded :: "('m \<Rightarrow> 'm mapper) \<Rightarrow> ('m, 'o, 's) orm \<Rightarrow> 'm \<Rightarrow> int \<Rightarrow> 'o fields \<Rightarrow> ('s, 'o) act" where
  "update_loaded M D m pk changes = bindS (o_get D m pk) (\<lambda>found.
     case found of
       None \<Rightarrow> raiseS value_exn
     | Some x \<Rightarrow> bindS (set_attributes (M m) D x changes) (\<lambda>_. retS x))"

text \<open>A primary key is any \<^verbatim>\<open>int\<close>, so a boolean is one.\<close>

definition int_key :: "json \<Rightarrow> int option" where
  "int_key pk = (case pk of JInt i \<Rightarrow> Some i | JBool b \<Rightarrow> Some (if b then 1 else 0) | _ \<Rightarrow> None)"

definition update_instance :: "('m \<Rightarrow> 'm mapper) \<Rightarrow> ('m, 'o, 's) orm \<Rightarrow> 'm \<Rightarrow> json \<Rightarrow> 'o fields \<Rightarrow> ('s, 'o) act" where
  "update_instance M D m pk kwargs =
     (if kwargs = [] then raiseS value_exn
      else (case int_key pk of
          Some i \<Rightarrow> bindS (update_loaded M D m i kwargs) (\<lambda>x. bindS (o_flush D) (\<lambda>_. bindS (o_refresh D x) (\<lambda>_. retS x)))
        | None \<Rightarrow> raiseS (PyExc ''TypeError'')))"

definition update_item :: "json \<times> 'o pyval \<Rightarrow> (int \<times> 'o fields) option" where
  "update_item = (\<lambda>(pk, d). case (int_key pk, d) of (Some i, Dict changes) \<Rightarrow> Some (i, changes) | _ \<Rightarrow> None)"

definition update_instances :: "('m \<Rightarrow> 'm mapper) \<Rightarrow> ('m, 'o, 's) orm \<Rightarrow> 'm \<Rightarrow> (json \<times> 'o pyval) list \<Rightarrow> ('s, 'o list) act" where
  "update_instances M D m data =
     (if data = [] then retS []
      else if None \<in> set (map update_item data) then raiseS (PyExc ''TypeError'')
      else bindS (mapS (\<lambda>item. case update_item item of Some (i, changes) \<Rightarrow> update_loaded M D m i changes | None \<Rightarrow> raiseS (PyExc ''TypeError'')) data) (\<lambda>xs.
           bindS (o_flush D) (\<lambda>_. bindS (mapS (o_refresh D) xs) (\<lambda>_. retS xs))))"

section \<open>Deletion\<close>

definition delete_instance :: "('m \<Rightarrow> 'm mapper) \<Rightarrow> ('m, 'o, 's) orm \<Rightarrow> 'm \<Rightarrow> 'o fields \<Rightarrow> ('s, unit) act" where
  "delete_instance M D m kwargs =
     (if kwargs = [] then raiseS value_exn
      else if \<exists>(k, _) \<in> set kwargs. k \<notin> set (attribute_names (M m)) then raiseS value_exn
      else bindS (o_where D m kwargs) (\<lambda>rows.
        case rows of
          [x] \<Rightarrow> bindS (o_delete D x) (\<lambda>_. o_flush D)
        | _ \<Rightarrow> raiseS value_exn))"

definition membership :: "'o pyval \<Rightarrow> 'o pyval list" where
  "membership v = (case v of
     Val (JStr s) \<Rightarrow> [v]
   | _ \<Rightarrow> (case iterated v of Inr vs \<Rightarrow> vs | Inl _ \<Rightarrow> [v]))"

text \<open>The keys are read in order: an empty list ends the deletion before later keys are checked.\<close>

fun delete_conditions :: "'m mapper \<Rightarrow> 'o fields \<Rightarrow> (string \<times> 'o pyval list) list option res" where
  "delete_conditions m [] = Inr (Some [])"
| "delete_conditions m ((k, v) # rest) =
     (if k \<notin> set (attribute_names m) then Inl value_exn
      else if membership v = [] then Inr None
      else bindR (delete_conditions m rest) (\<lambda>c. Inr (map_option (\<lambda>cnds. (k, membership v) # cnds) c)))"

definition delete_instances :: "('m \<Rightarrow> 'm mapper) \<Rightarrow> ('m, 'o, 's) orm \<Rightarrow> 'm \<Rightarrow> 'o fields \<Rightarrow> ('s, int) act" where
  "delete_instances M D m kwargs =
     (if kwargs = [] then raiseS value_exn
      else bindS (liftS (delete_conditions (M m) kwargs)) (\<lambda>conds.
        case conds of
          None \<Rightarrow> retS 0
        | Some cnds \<Rightarrow> bindS (o_where_in D m cnds) (\<lambda>rows.
            if rows = [] then retS 0
            else bindS (mapS (o_delete D) rows) (\<lambda>_. bindS (o_flush D) (\<lambda>_. retS (int (length rows)))))))"

section \<open>Sessions\<close>

text \<open>
  The active session of the current task, and what a new session does: it commits when its block is
  left normally and rolls back when the block or the commit raises.
\<close>

record ('sess, 's) session_state =
  sn_active :: "'sess option"
  sn_state :: 's

record ('sess, 's) session_ops =
  so_open :: "bool \<Rightarrow> ('s, 'sess) act"
  so_commit :: "'sess \<Rightarrow> ('s, unit) act"
  so_rollback :: "'sess \<Rightarrow> 's \<Rightarrow> 's"
  so_autoflush :: "'sess \<Rightarrow> bool"

definition in_state :: "('s, 'a) act \<Rightarrow> (('sess, 's) session_state, 'a) act" where
  "in_state m st = (case m (sn_state st) of (r, s) \<Rightarrow> (r, st\<lparr>sn_state := s\<rparr>))"

definition with_session :: "('sess, 's) session_ops \<Rightarrow> bool \<Rightarrow> ('sess \<Rightarrow> (('sess, 's) session_state, 'a) act) \<Rightarrow> (('sess, 's) session_state, 'a) act" where
  "with_session P autoflush block =
     bindS (in_state (so_open P autoflush)) (\<lambda>x st.
       case bindS (block x) (\<lambda>r. bindS (in_state (so_commit P x)) (\<lambda>_. retS r)) st of
         (Inr r, st') \<Rightarrow> (Inr r, st')
       | (Inl e, st') \<Rightarrow> (Inl e, st'\<lparr>sn_state := so_rollback P x (sn_state st')\<rparr>))"

definition enforce_autoflush :: "('sess, 's) session_ops \<Rightarrow> bool \<Rightarrow> 'sess \<Rightarrow> ('st, unit) act" where
  "enforce_autoflush P autoflush_allowed x =
     (if \<not> autoflush_allowed \<and> so_autoflush P x then raiseS (PyExc ''RuntimeError'') else retS ())"

definition with_active :: "'sess \<Rightarrow> (('sess, 's) session_state, 'a) act \<Rightarrow> (('sess, 's) session_state, 'a) act" where
  "with_active x f st = (case f (st\<lparr>sn_active := Some x\<rparr>) of (r, st') \<Rightarrow> (r, st'\<lparr>sn_active := sn_active st\<rparr>))"

definition session_manager ::
  "('sess, 's) session_ops \<Rightarrow> bool \<Rightarrow> 'sess option \<Rightarrow> ('sess \<Rightarrow> (('sess, 's) session_state, 'a) act) \<Rightarrow> (('sess, 's) session_state, 'a) act" where
  "session_manager P autoflush_allowed passed func =
     (case passed of
        Some x \<Rightarrow> bindS (enforce_autoflush P autoflush_allowed x) (\<lambda>_. with_active x (func x))
      | None \<Rightarrow> readS (\<lambda>st.
          case sn_active st of
            Some x \<Rightarrow> bindS (enforce_autoflush P autoflush_allowed x) (\<lambda>_. func x)
          | None \<Rightarrow> with_session P autoflush_allowed (\<lambda>x.
              bindS (enforce_autoflush P autoflush_allowed x) (\<lambda>_. with_active x (func x)))))"

text \<open>The public operations, each under \<^verbatim>\<open>@session_manager()\<close>; \<open>D x\<close> are the calls on the session \<open>x\<close>.\<close>

definition db_add where
  "db_add M P D m passed kwargs = session_manager P True passed (\<lambda>x. in_state (add_instance M (D x) m kwargs))"

definition db_add_many where
  "db_add_many M P D m passed data = session_manager P True passed (\<lambda>x. in_state (add_instances M (D x) m data))"

definition db_update where
  "db_update M P D m passed pk kwargs = session_manager P True passed (\<lambda>x. in_state (update_instance M (D x) m pk kwargs))"

definition db_update_many where
  "db_update_many M P D m passed data = session_manager P True passed (\<lambda>x. in_state (update_instances M (D x) m data))"

definition db_delete where
  "db_delete M P D m passed kwargs = session_manager P True passed (\<lambda>x. in_state (delete_instance M (D x) m kwargs))"

definition db_delete_many where
  "db_delete_many M P D m passed kwargs = session_manager P True passed (\<lambda>x. in_state (delete_instances M (D x) m kwargs))"

end
