(* ===== verification/Crud_Properties.thy ===== *)
theory Crud_Properties
  imports Crud_Write
begin

text \<open>
  What the write operations guarantee to their callers: what they refuse leaves the session as it was, a
  deletion of one row deletes that row only, a row that exists is returned as it is, and an operation
  that opens its own session is all or nothing.
\<close>

section \<open>Nothing is committed by the calls on a session\<close>

text \<open>
  \<open>durable\<close> is what other sessions see. SQLAlchemy's calls on a session change it only when the session
  commits.
\<close>

definition uncommitted :: "('m, 'o, 's) orm \<Rightarrow> ('s \<Rightarrow> 'd) \<Rightarrow> bool" where
  "uncommitted D durable \<longleftrightarrow> (\<forall>d.
     (\<forall>m data. always (\<lambda>s. durable s = d) (o_where D m data)) \<and>
     (\<forall>m conds. always (\<lambda>s. durable s = d) (o_where_in D m conds)) \<and>
     (\<forall>m pk. always (\<lambda>s. durable s = d) (o_get D m pk)) \<and>
     (\<forall>m. always (\<lambda>s. durable s = d) (o_new D m)) \<and>
     (\<forall>x k v. always (\<lambda>s. durable s = d) (o_set D x k v)) \<and>
     (\<forall>x k ys. always (\<lambda>s. durable s = d) (o_relate D x k ys)) \<and>
     (\<forall>x k y. always (\<lambda>s. durable s = d) (o_relate_one D x k y)) \<and>
     (\<forall>x. always (\<lambda>s. durable s = d) (o_add D x)) \<and>
     always (\<lambda>s. durable s = d) (o_flush D) \<and>
     (\<forall>x. always (\<lambda>s. durable s = d) (o_refresh D x)) \<and>
     (\<forall>x. always (\<lambda>s. durable s = d) (o_delete D x)))"

lemma uncommitted_ops [always_intros]:
  assumes "uncommitted D durable"
  shows "always (\<lambda>s. durable s = d) (o_where D m data)" "always (\<lambda>s. durable s = d) (o_where_in D m conds)"
    "always (\<lambda>s. durable s = d) (o_get D m pk)" "always (\<lambda>s. durable s = d) (o_new D m)"
    "always (\<lambda>s. durable s = d) (o_set D x k v)" "always (\<lambda>s. durable s = d) (o_relate D x k ys)"
    "always (\<lambda>s. durable s = d) (o_relate_one D x k y)" "always (\<lambda>s. durable s = d) (o_add D x)"
    "always (\<lambda>s. durable s = d) (o_flush D)" "always (\<lambda>s. durable s = d) (o_refresh D x)"
    "always (\<lambda>s. durable s = d) (o_delete D x)"
  using assms by (simp_all add: uncommitted_def)

lemma always_prod [always_intros]: "(\<And>a b. p = (a, b) \<Longrightarrow> always P (f a b)) \<Longrightarrow> always P (case p of (a, b) \<Rightarrow> f a b)"
  by (cases p) simp

lemma always_mapS_mem: "(\<And>x. x \<in> set xs \<Longrightarrow> always P (f x)) \<Longrightarrow> always P (mapS f xs)"
  by (induction xs) (auto intro!: always_intros)

lemma ensure_same_session_always [always_intros]: "always P (ensure_same_session D x)"
  unfolding ensure_same_session_def by (intro always_intros)

lemma lookup_by_always [always_intros]:
  "uncommitted D durable \<Longrightarrow> always (\<lambda>s. durable s = d) (lookup_by D m data ks)"
  unfolding lookup_by_def by (auto intro!: always_intros split: list.split)

lemma lookup_first_always [always_intros]:
  "uncommitted D durable \<Longrightarrow> always (\<lambda>s. durable s = d) (lookup_first D m data kss)"
  by (induction kss) (auto intro!: always_intros)

lemma create_instance_always [always_intros]:
  "uncommitted D durable \<Longrightarrow> always (\<lambda>s. durable s = d) (create_instance M D m data)"
  unfolding create_instance_def by (intro always_intros | assumption)+

lemma resolve_or_create_always [always_intros]:
  assumes "uncommitted D durable"
  shows "always (\<lambda>s. durable s = d) (resolve_or_create M D m data)"
proof (induction "size (Dict data)" arbitrary: m data rule: less_induct)
  case less
  have one: "always (\<lambda>s. durable s = d) (resolve_or_create M D m' dict)" if "map_of data key = Some (Dict dict)" for key m' dict
    using less.hyps [of dict] size_data [OF that] by simp
  have many: "always (\<lambda>s. durable s = d) (resolve_or_create M D m' dict)"
    if "map_of data key = Some v" "iterated v = Inr vs" "Dict dict \<in> set vs" for key v vs m' dict
    using less.hyps [of dict] size_iterated [OF that(2,3)] size_data [OF that(1)] by simp
  show ?case
    unfolding resolve_or_create.simps [of M D m data] lookup_instance_def
    by (intro always_intros assms
        | (auto intro!: always_intros always_mapS_mem assms split: pyval.split sum.split intro: one many; fail))+
qed

lemma set_attributes_always [always_intros]:
  "uncommitted D durable \<Longrightarrow> always (\<lambda>s. durable s = d) (set_attributes m D x changes)"
  by (induction m D x changes rule: set_attributes.induct) (auto intro!: always_intros)

lemma update_loaded_always [always_intros]:
  "uncommitted D durable \<Longrightarrow> always (\<lambda>s. durable s = d) (update_loaded M D m pk changes)"
  unfolding update_loaded_def by (intro always_intros | assumption)+

lemma add_instance_always: "uncommitted D durable \<Longrightarrow> always (\<lambda>s. durable s = d) (add_instance M D m kwargs)"
  unfolding add_instance_def ensure_required_def by (intro always_intros | assumption)+

lemma add_instances_always: "uncommitted D durable \<Longrightarrow> always (\<lambda>s. durable s = d) (add_instances M D m data)"
  unfolding add_instances_def resolve_item_def
  by (intro always_intros | assumption | (auto intro!: always_intros split: pyval.split; fail))+

lemma update_instance_always: "uncommitted D durable \<Longrightarrow> always (\<lambda>s. durable s = d) (update_instance M D m pk kwargs)"
  unfolding update_instance_def by (intro always_intros | assumption)+

lemma update_instances_always: "uncommitted D durable \<Longrightarrow> always (\<lambda>s. durable s = d) (update_instances M D m data)"
  unfolding update_instances_def by (intro always_intros | assumption)+

lemma delete_instance_always: "uncommitted D durable \<Longrightarrow> always (\<lambda>s. durable s = d) (delete_instance M D m kwargs)"
  unfolding delete_instance_def by (intro always_intros | assumption | (auto intro!: always_intros split: list.split; fail))+

lemma delete_instances_always: "uncommitted D durable \<Longrightarrow> always (\<lambda>s. durable s = d) (delete_instances M D m kwargs)"
  unfolding delete_instances_def by (intro always_intros | assumption)+

lemmas operation_always =
  add_instance_always add_instances_always update_instance_always update_instances_always
  delete_instance_always delete_instances_always

section \<open>Sessions\<close>

text \<open>Opening a session, rolling it back and a commit that fails leave what other sessions see.\<close>

definition transactional :: "('sess, 's) session_ops \<Rightarrow> ('s \<Rightarrow> 'd) \<Rightarrow> bool" where
  "transactional P durable \<longleftrightarrow>
     (\<forall>a s. durable (snd (so_open P a s)) = durable s) \<and>
     (\<forall>x s. durable (so_rollback P x s) = durable s) \<and>
     (\<forall>x s e s'. so_commit P x s = (Inl e, s') \<longrightarrow> durable s' = durable s)"

lemma in_state_run: "m (sn_state st) = (r, s) \<Longrightarrow> in_state m st = (r, st\<lparr>sn_state := s\<rparr>)"
  by (simp add: in_state_def)

lemma in_state_active [simp]: "sn_active (snd (in_state m st)) = sn_active st"
  by (simp add: in_state_def split: prod.split)

lemma in_state_always:
  assumes "always (\<lambda>s. durable s = d) m" "durable (sn_state st) = d"
  shows "durable (sn_state (snd (in_state m st))) = d"
  using assms by (auto simp: in_state_def always_def split: prod.split)

lemma with_active_run: "with_active x f st = (fst (f (st\<lparr>sn_active := Some x\<rparr>)), (snd (f (st\<lparr>sn_active := Some x\<rparr>)))\<lparr>sn_active := sn_active st\<rparr>)"
  by (simp add: with_active_def split: prod.split)

text \<open>An operation that is given a session leaves its changes to the owner of the session.\<close>

lemma joined_session:
  assumes "always (\<lambda>s. durable s = durable (sn_state st)) (m x)" "passed = Some x \<or> passed = None \<and> sn_active st = Some x"
  shows "durable (sn_state (snd (session_manager P a passed (\<lambda>x. in_state (m x)) st))) = durable (sn_state st) \<and>
    sn_active (snd (session_manager P a passed (\<lambda>x. in_state (m x)) st)) = sn_active st"
  using assms(2) in_state_always [OF assms(1), of st] in_state_always [OF assms(1), of "st\<lparr>sn_active := Some x\<rparr>"]
  by (auto simp: session_manager_def enforce_autoflush_def with_active_run bindS_def)

text \<open>An operation that opens its own session either commits it or changes nothing for other sessions.\<close>

lemma own_session:
  assumes "transactional P durable" "\<And>x d. always (\<lambda>s. durable s = d) (m x)" "sn_active st = None"
    and run: "session_manager P a None (\<lambda>x. in_state (m x)) st = (Inl e, st')"
  shows "durable (sn_state st') = durable (sn_state st) \<and> sn_active st' = None"
proof -
  obtain r s1 where op: "so_open P a (sn_state st) = (r, s1)" by (cases "so_open P a (sn_state st)")
  have d1: "durable s1 = durable (sn_state st)" using assms(1) op unfolding transactional_def by (metis snd_conv)
  show ?thesis
  proof (cases r)
    case (Inl e')
    then show ?thesis using run op d1 assms(3) by (auto simp: session_manager_def with_session_def bindS_def in_state_def)
  next
    case (Inr x)
    obtain r2 s2 where f: "m x s1 = (r2, s2)" by (cases "m x s1")
    have d2: "durable s2 = durable s1" using assms(2) [of "durable s1" x] f unfolding always_def by (metis snd_conv)
    obtain r3 s3 where c: "so_commit P x s2 = (r3, s3)" by (cases "so_commit P x s2")
    have d3: "r3 = Inl e' \<Longrightarrow> durable s3 = durable s2" for e' using assms(1) c unfolding transactional_def by blast
    have rb: "durable (so_rollback P x s) = durable s" for s using assms(1) unfolding transactional_def by blast
    show ?thesis
      using run op f c d1 d2 d3 rb assms(3) Inr
      by (cases r2; cases r3)
        (auto simp: session_manager_def with_session_def bindS_def in_state_def enforce_autoflush_def with_active_run split: if_splits)
  qed
qed

text \<open>A call within a session, without one of its own, runs in it as part of the caller's work.\<close>

lemma nested_session:
  assumes "sn_active st = None"
  shows "session_manager P a None (\<lambda>x. bindS (session_manager P a None g) (k x)) st =
    session_manager P a None (\<lambda>x. bindS (g x) (k x)) st"
proof -
  have *: "bindS (enforce_autoflush P a x) (\<lambda>_. with_active x (bindS (session_manager P a None g) (k x))) =
    bindS (enforce_autoflush P a x) (\<lambda>_. with_active x (bindS (g x) (k x)))" for x
    by (rule HOL.ext) (auto simp: bindS_def enforce_autoflush_def with_active_run session_manager_def)
  show ?thesis
    using assms by (simp add: * session_manager_def [of P a None "\<lambda>x. bindS (session_manager P a None g) (k x)"]
      session_manager_def [of P a None "\<lambda>x. bindS (g x) (k x)"])
qed

section \<open>Rows that exist\<close>

text \<open>The key sets are tried in order, the primary key first; the first that is given and matches decides.\<close>

lemma lookup_first_found:
  assumes "kss = pre @ ks # post" "\<forall>ks' \<in> set pre. given data ks' \<longrightarrow> lookup_by D m data ks' s = (Inr None, s)"
    and "given data ks" "lookup_by D m data ks s = (Inr (Some x), s')"
  shows "lookup_first D m data kss s = (Inr (Some x), s')"
  using assms(1,2)
proof (induction pre arbitrary: kss)
  case Nil
  then show ?case using assms(3,4) by (simp add: bindS_def)
next
  case (Cons k pre)
  then show ?case by (cases "given data k") (simp_all add: bindS_def)
qed

lemma mapS_idle: "(\<And>x s. x \<in> set xs \<Longrightarrow> f x s = (Inr (), s)) \<Longrightarrow> mapS f xs s = (Inr (map (\<lambda>_. ()) xs), s)"
  by (induction xs) (simp_all add: bindS_def)

lemma bindS_mapS_idle:
  "(\<And>x s. x \<in> set xs \<Longrightarrow> f x s = (Inr (), s)) \<Longrightarrow> bindS (mapS f xs) (\<lambda>_. retS y) s = (Inr y, s)"
  by (simp add: bindS_def mapS_idle)

lemma resolve_found:
  assumes "lookup_instance M D m data s = (Inr (Some x), s')" "\<forall>key \<in> set (relationship_names (M m)). map_of data key = None"
  shows "resolve_or_create M D m data s = (Inr x, s')"
proof -
  have none: "map_of data key = None" if "(key, rel) \<in> set (mp_relationships (M m))" for key rel
    using assms(2) that by (force simp: relationship_names_def)
  show ?thesis
    unfolding resolve_or_create.simps [of M D m data] bindS_Inr [of "lookup_instance M D m data", OF assms(1)]
    by (simp add: bindS_def [of "retS x"]) (rule bindS_mapS_idle, auto simp: none)
qed


section \<open>A store in memory\<close>

text \<open>Sessions over a list of rows with a committed copy, on which the guarantees are evaluated.\<close>

record store =
  live :: "(nat \<times> string \<times> nat fields) list"
  saved :: "(nat \<times> string \<times> nat fields) list"

definition matching :: "string \<Rightarrow> (nat fields \<Rightarrow> bool) \<Rightarrow> store \<Rightarrow> nat list" where
  "matching m p s = map fst (filter (\<lambda>(_, m', cols). m' = m \<and> p cols) (live s))"

definition assign :: "nat \<Rightarrow> string \<Rightarrow> nat pyval \<Rightarrow> store \<Rightarrow> store" where
  "assign x k v s = s\<lparr>live := map (\<lambda>(i, m, cols). (i, m, if i = x then (k, v) # cols else cols)) (live s)\<rparr>"

definition memory :: "(string, nat, store) orm" where
  "memory = \<lparr>
     o_where = (\<lambda>m data s. (Inr (matching m (\<lambda>cols. \<forall>(k, v) \<in> set data. map_of cols k = Some v) s), s)),
     o_where_in = (\<lambda>m conds s. (Inr (matching m (\<lambda>cols. \<forall>(k, vs) \<in> set conds. map_of cols k \<in> Some ` set vs) s), s)),
     o_get = (\<lambda>m pk s. (Inr (find (\<lambda>i. int i = pk) (matching m (\<lambda>_. True) s)), s)),
     o_new = (\<lambda>m s. let i = Suc (Max (set (0 # map fst (live s)))) in (Inr i, s\<lparr>live := live s @ [(i, m, [])]\<rparr>)),
     o_set = (\<lambda>x k v. changeS (assign x k v)),
     o_relate = (\<lambda>x k ys. changeS (assign x k (Seq (map Obj ys)))),
     o_relate_one = (\<lambda>x k y. changeS (assign x k (case y of None \<Rightarrow> Val JNull | Some y \<Rightarrow> Obj y))),
     o_elsewhere = (\<lambda>_ _. False),
     o_add = (\<lambda>_. retS ()), o_flush = retS (), o_refresh = (\<lambda>_. retS ()),
     o_delete = (\<lambda>x. changeS (\<lambda>s. s\<lparr>live := filter (\<lambda>(i, _). i \<noteq> x) (live s)\<rparr>))\<rparr>"

definition memory_sessions :: "(unit, store) session_ops" where
  "memory_sessions = \<lparr>so_open = (\<lambda>_. retS ()), so_commit = (\<lambda>_. changeS (\<lambda>s. s\<lparr>saved := live s\<rparr>)),
     so_rollback = (\<lambda>_ s. s\<lparr>live := saved s\<rparr>), so_autoflush = (\<lambda>_. True)\<rparr>"

lemma memory_uncommitted: "uncommitted memory saved"
  by (simp add: uncommitted_def memory_def always_def changeS_def assign_def Let_def)

lemma memory_transactional: "transactional memory_sessions saved"
  by (simp add: transactional_def memory_sessions_def changeS_def)

definition plain_column :: "string \<Rightarrow> bool \<Rightarrow> bool \<Rightarrow> column_info" where
  "plain_column name pk unique = \<lparr>ci_name = name, ci_primary_key = pk, ci_nullable = False, ci_default = False,
     ci_autoincrement = pk, ci_unique = unique, ci_string = \<not> pk\<rparr>"

text \<open>The table of tags: an identifier, a unique name and a description.\<close>

definition tag_mapper :: "string \<Rightarrow> string mapper" where
  "tag_mapper m = \<lparr>mp_name = m, mp_columns = [plain_column ''id'' True False, plain_column ''name'' False True, plain_column ''description'' False False],
     mp_relationships = [], mp_hybrids = [], mp_constraints = []\<rparr>"

definition tag_row :: "int \<Rightarrow> string \<Rightarrow> string \<Rightarrow> nat fields" where
  "tag_row i n d = [(''id'', Val (JInt i)), (''name'', Val (JStr n)), (''description'', Val (JStr d))]"

definition two_tags :: store where
  "two_tags = (let rows = [(1, ''BeatmapTag'', tag_row 1 ''tech'' ''a''), (2, ''BeatmapTag'', tag_row 2 ''stream'' ''a'')] in \<lparr>live = rows, saved = rows\<rparr>)"

lemmas tag_simps =
  tag_mapper_def plain_column_def tag_row_def two_tags_def Let_def memory_def matching_def
  missing_columns_def required_columns_def known_attributes_def writable_names_def column_names_def relationship_names_def
  attribute_names_def hybrid_property_names_def primary_keys_def unique_sets_def

section \<open>The guarantees\<close>

text \<open>
  Whatever the write operations refuse is refused before anything is written: creation without a
  required column or with an unknown attribute, and deletion without a filter or with an unknown one,
  raise a ValueError and leave the session exactly as it was; a deletion of one row deletes the only
  row that matches, and when none or several match it raises a ValueError with nothing but its query
  done; an update by a key that is not an integer or without any field touches nothing.
\<close>

theorem writes_guarded:
  "(missing_columns (M m) kwargs \<noteq> [] \<or> \<not> known_attributes (M m) kwargs \<longrightarrow> add_instance M D m kwargs s = (Inl value_exn, s)) \<and>
   (kwargs = [] \<or> \<not> fst ` set kwargs \<subseteq> set (attribute_names (M m)) \<longrightarrow> delete_instance M D m kwargs s = (Inl value_exn, s)) \<and>
   (o_where D m kwargs s = (Inr rows, s') \<and> length rows \<noteq> 1 \<longrightarrow> delete_instance M D m kwargs s \<in> {(Inl value_exn, s), (Inl value_exn, s')}) \<and>
   (o_where D m kwargs s = (Inr [x], s') \<and> kwargs \<noteq> [] \<and> fst ` set kwargs \<subseteq> set (attribute_names (M m)) \<longrightarrow>
      delete_instance M D m kwargs s = bindS (o_delete D x) (\<lambda>_. o_flush D) s') \<and>
   (kwargs = [] \<or> int_key pk = None \<longrightarrow> snd (update_instance M D m pk kwargs s) = s \<and> isRaise (fst (update_instance M D m pk kwargs s)))"
proof -
  have names: "(\<exists>(k, _) \<in> set kwargs. k \<notin> set (attribute_names (M m))) \<longleftrightarrow> \<not> fst ` set kwargs \<subseteq> set (attribute_names (M m))"
    by auto
  show ?thesis
    unfolding delete_instance_def names
    by (auto simp: add_instance_def ensure_required_def update_instance_def bindS_def split: list.split)
qed

theorem writes_guarded_witness:
  "(missing_columns (tag_mapper ''BeatmapTag'') [(''name'', Val (JStr ''tech'') :: nat pyval)] \<noteq> [] \<and>
    add_instance tag_mapper memory ''BeatmapTag'' [(''name'', Val (JStr ''tech''))] two_tags = (Inl value_exn, two_tags)) \<and>
   delete_instance tag_mapper memory ''BeatmapTag'' [(''colour'', Val JNull)] two_tags = (Inl value_exn, two_tags) \<and>
   (o_where memory ''BeatmapTag'' [(''description'', Val (JStr ''a''))] two_tags = (Inr [1, 2], two_tags) \<and>
    delete_instance tag_mapper memory ''BeatmapTag'' [(''description'', Val (JStr ''a''))] two_tags = (Inl value_exn, two_tags)) \<and>
   live (snd (delete_instance tag_mapper memory ''BeatmapTag'' [(''name'', Val (JStr ''tech''))] two_tags)) =
     [(2, ''BeatmapTag'', tag_row 2 ''stream'' ''a'')] \<and>
   snd (update_instance tag_mapper memory ''BeatmapTag'' JNull [(''name'', Val (JStr ''x''))] two_tags) = two_tags"
proof -
  note g = writes_guarded [of tag_mapper "''BeatmapTag''" _ memory two_tags]
  have missing: "missing_columns (tag_mapper ''BeatmapTag'') [(''name'', Val (JStr ''tech'') :: nat pyval)] \<noteq> []"
    by (simp add: tag_simps)
  moreover have "add_instance tag_mapper memory ''BeatmapTag'' [(''name'', Val (JStr ''tech''))] two_tags = (Inl value_exn, two_tags)"
    using g [of "[(''name'', Val (JStr ''tech''))]"] missing by blast
  moreover have "delete_instance tag_mapper memory ''BeatmapTag'' [(''colour'', Val JNull)] two_tags = (Inl value_exn, two_tags)"
    using g [of "[(''colour'', Val JNull)]"] by (simp add: tag_simps)
  moreover have both: "o_where memory ''BeatmapTag'' [(''description'', Val (JStr ''a''))] two_tags = (Inr [1, 2], two_tags)"
    by (simp add: tag_simps)
  moreover have "delete_instance tag_mapper memory ''BeatmapTag'' [(''description'', Val (JStr ''a''))] two_tags = (Inl value_exn, two_tags)"
    using g [of "[(''description'', Val (JStr ''a''))]" "[1, 2]" two_tags] both by auto
  moreover have one: "o_where memory ''BeatmapTag'' [(''name'', Val (JStr ''tech''))] two_tags = (Inr [1], two_tags)"
    by (simp add: tag_simps)
  have "delete_instance tag_mapper memory ''BeatmapTag'' [(''name'', Val (JStr ''tech''))] two_tags =
      bindS (o_delete memory 1) (\<lambda>_. o_flush memory) two_tags"
    using g [of "[(''name'', Val (JStr ''tech''))]" _ two_tags 1] one by (simp add: tag_mapper_def plain_column_def attribute_names_def column_names_def)
  then have "live (snd (delete_instance tag_mapper memory ''BeatmapTag'' [(''name'', Val (JStr ''tech''))] two_tags)) =
      [(2, ''BeatmapTag'', tag_row 2 ''stream'' ''a'')]"
    by (simp add: tag_simps bindS_def changeS_def)
  moreover have "snd (update_instance tag_mapper memory ''BeatmapTag'' JNull [(''name'', Val (JStr ''x''))] two_tags) = two_tags"
    using g [of "[(''name'', Val (JStr ''x''))]" _ _ _ JNull] by (simp add: int_key_def)
  ultimately show ?thesis by blast
qed

text \<open>
  Creation resolves before it creates: when all columns of the primary key, or of a unique column
  or constraint, are given and a row has these values, no key set tried earlier matching, that row is
  what \<^verbatim>\<open>add\<close> returns, and none of the other given columns is assigned: the session only sees the row
  added, flushed and refreshed.
\<close>

theorem existing_row_returned:
  assumes "missing_columns (M m) kwargs = []" "known_attributes (M m) kwargs"
    and "\<forall>key \<in> set (relationship_names (M m)). map_of kwargs key = None"
    and "primary_keys (M m) # unique_sets (M m) = pre @ ks # post" "given kwargs ks"
    and "\<forall>ks' \<in> set pre. given kwargs ks' \<longrightarrow> lookup_by D m kwargs ks' s = (Inr None, s)"
    and "lookup_by D m kwargs ks s = (Inr (Some x), s')"
  shows "add_instance M D m kwargs s =
    bindS (o_add D x) (\<lambda>_. bindS (o_flush D) (\<lambda>_. bindS (o_refresh D x) (\<lambda>_. retS x))) s'"
proof -
  have "lookup_instance M D m kwargs s = (Inr (Some x), s')"
    unfolding lookup_instance_def using lookup_first_found [OF assms(4,6,5,7)] .
  then have "resolve_or_create M D m kwargs s = (Inr x, s')" using assms(3) by (rule resolve_found)
  moreover have "\<not> (kwargs = [] \<and> required_columns (M m) \<noteq> [])"
    using assms(1) by (auto simp: missing_columns_def filter_empty_conv)
  ultimately show ?thesis using assms(1,2) by (auto simp: add_instance_def ensure_required_def bindS_def)
qed

theorem existing_row_returned_witness:
  "add_instance tag_mapper memory ''BeatmapTag'' [(''name'', Val (JStr ''tech'')), (''description'', Val (JStr ''new''))] two_tags = (Inr 1, two_tags)"
proof -
  let ?kwargs = "[(''name'', Val (JStr ''tech'')), (''description'', Val (JStr ''new''))] :: nat fields"
  have "add_instance tag_mapper memory ''BeatmapTag'' ?kwargs two_tags =
      bindS (o_add memory 1) (\<lambda>_. bindS (o_flush memory) (\<lambda>_. bindS (o_refresh memory 1) (\<lambda>_. retS 1))) two_tags"
    by (rule existing_row_returned [where pre = "[[''id'']]" and ks = "[''name'']" and post = "[]"])
      (simp_all add: tag_simps given_def lookup_by_def bindS_def ensure_same_session_def)
  then show ?thesis by (simp add: memory_def bindS_def)
qed

text \<open>The operations that a caller runs with or without a session.\<close>

datatype ('m, 'o) write_call =
    Add 'm "'o fields"
  | AddMany 'm "'o pyval list"
  | Update 'm json "'o fields"
  | UpdateMany 'm "(json \<times> 'o pyval) list"
  | Delete 'm "'o fields"
  | DeleteMany 'm "'o fields"

definition forget :: "'r res \<times> 's \<Rightarrow> unit res \<times> 's" where
  "forget p = (map_sum id (\<lambda>_. ()) (fst p), snd p)"

fun run_call where
  "run_call M P D passed (Add m kwargs) st = forget (db_add M P D m passed kwargs st)"
| "run_call M P D passed (AddMany m data) st = forget (db_add_many M P D m passed data st)"
| "run_call M P D passed (Update m pk kwargs) st = forget (db_update M P D m passed pk kwargs st)"
| "run_call M P D passed (UpdateMany m data) st = forget (db_update_many M P D m passed data st)"
| "run_call M P D passed (Delete m kwargs) st = forget (db_delete M P D m passed kwargs st)"
| "run_call M P D passed (DeleteMany m kwargs) st = forget (db_delete_many M P D m passed kwargs st)"

lemmas db_defs = db_add_def db_add_many_def db_update_def db_update_many_def db_delete_def db_delete_many_def

lemma forget_simps [simp]: "snd (forget p) = snd p" "isRaise (fst (forget p)) \<longleftrightarrow> isRaise (fst p)"
  by (cases p; cases "fst p"; simp add: forget_def)+

lemma own_call:
  assumes "transactional P durable" "sn_active st = None" "isRaise (fst (session_manager P a None (\<lambda>x. in_state (m x)) st))"
    and "\<And>x d. always (\<lambda>s. durable s = d) (m x)"
  shows "durable (sn_state (snd (session_manager P a None (\<lambda>x. in_state (m x)) st))) = durable (sn_state st) \<and>
    sn_active (snd (session_manager P a None (\<lambda>x. in_state (m x)) st)) = None"
  using assms(3) own_session [OF assms(1,4,2)]
  by (cases "session_manager P a None (\<lambda>x. in_state (m x)) st") (auto elim!: isRaise.elims)

lemma joined_call:
  assumes "passed \<noteq> None \<or> sn_active st \<noteq> None" "\<And>x d. always (\<lambda>s. durable s = d) (m x)"
  shows "durable (sn_state (snd (session_manager P a passed (\<lambda>x. in_state (m x)) st))) = durable (sn_state st) \<and>
    sn_active (snd (session_manager P a passed (\<lambda>x. in_state (m x)) st)) = sn_active st"
proof -
  have "\<exists>x. passed = Some x \<or> passed = None \<and> sn_active st = Some x" using assms(1) by (cases passed) auto
  then show ?thesis using joined_session [of durable st m, OF assms(2)] by blast
qed



end
