(* ===== verification/Query_Params.thy ===== *)
theory Query_Params
  imports Api_Utils
begin

text \<open>
  The parsing of query parameters (\<^verbatim>\<open>src/app/patches/uri_parsing.py\<close>): keys with brackets become nested
  objects, and the texts of \<^verbatim>\<open>include\<close>, \<^verbatim>\<open>sorting\<close> and \<^verbatim>\<open>filters\<close> become values. What the parser takes from
  connexion is the record \<open>connexion\<close>. Reading a float or an ISO date is a function from texts.
\<close>

section \<open>Keys with brackets\<close>

text \<open>The entry of a schema, which is a dictionary.\<close>

definition sget :: "json \<Rightarrow> string \<Rightarrow> json option" where
  "sget j k = (case j of JDict d \<Rightarrow> map_of d k | _ \<Rightarrow> None)"

definition sdict :: "json \<Rightarrow> string \<Rightarrow> json" where
  "sdict j k = (case sget j k of Some v \<Rightarrow> v | None \<Rightarrow> JDict [])"

definition type_of :: "json \<Rightarrow> string option" where
  "type_of j = (case sget j ''type'' of Some (JStr t) \<Rightarrow> Some t | _ \<Rightarrow> None)"

definition is_dict :: "json \<Rightarrow> bool" where
  "is_dict j = (case j of JDict _ \<Rightarrow> True | _ \<Rightarrow> False)"

text \<open>\<^verbatim>\<open>re.findall\<close> of a bracket, characters that are no brackets, and the closing bracket.\<close>

fun bracketed :: "string option \<Rightarrow> string \<Rightarrow> string list" where
  "bracketed within_part [] = []"
| "bracketed None (c # rest) = (if c = CHR ''['' then bracketed (Some []) rest else bracketed None rest)"
| "bracketed (Some part) (c # rest) =
     (if c = CHR ''['' then bracketed (Some []) rest
      else if c = CHR '']'' then rev part # bracketed None rest
      else bracketed (Some (c # part)) rest)"

definition key_path :: "string \<Rightarrow> string list" where
  "key_path k = bracketed None k"

definition branches :: "json \<Rightarrow> json list option" where
  "branches schema = (case sget schema ''oneOf'' of Some (JList bs) \<Rightarrow> Some bs | _ \<Rightarrow> None)"

lemma size_branch: "branches schema = Some bs \<Longrightarrow> b \<in> set bs \<Longrightarrow> size b < size schema"
proof -
  assume "branches schema = Some bs" "b \<in> set bs"
  then obtain d where d: "schema = JDict d" "map_of d ''oneOf'' = Some (JList bs)"
    by (auto simp: branches_def sget_def split: json.splits option.splits)
  have "size b < size (JList bs)" using \<open>b \<in> set bs\<close> by (induction bs) auto
  then show "size b < size schema" using size_included [OF d(2)] d(1) by simp
qed

text \<open>\<^verbatim>\<open>next((b for b in schema["oneOf"] if b.get("type") == "object"), schema["oneOf"][0])\<close>, repeatedly.\<close>

function object_branch :: "json \<Rightarrow> json res" where
  "object_branch schema =
     (case branches schema of
        None \<Rightarrow> Inr schema
      | Some [] \<Rightarrow> Inl (PyExc ''IndexError'')
      | Some (b # bs) \<Rightarrow>
          object_branch (case find (\<lambda>x. type_of x = Some ''object'') (b # bs) of Some x \<Rightarrow> x | None \<Rightarrow> b))"
  by pat_completeness auto
termination
  by (relation "measure size") (use size_branch in \<open>fastforce simp: find_Some_iff split: option.splits if_splits\<close>)+

declare object_branch.simps [simp del]

fun schema_at :: "json \<Rightarrow> string list \<Rightarrow> json res" where
  "schema_at schema [] = Inr schema"
| "schema_at schema (k # ks) =
     bindR (object_branch schema) (\<lambda>s. schema_at (sdict (sdict s ''properties'') k) ks)"

text \<open>The values of a key; a single value counts as a list of one.\<close>

definition listed :: "json \<Rightarrow> json list" where
  "listed v = (case v of JList vs \<Rightarrow> vs | _ \<Rightarrow> [v])"

definition unlisted :: "json list \<Rightarrow> json res" where
  "unlisted vs = (case vs of [] \<Rightarrow> Inl (PyExc ''IndexError'') | [v] \<Rightarrow> Inr v | _ \<Rightarrow> Inr (JList vs))"

fun nest :: "string list \<Rightarrow> json \<Rightarrow> json" where
  "nest [] v = v"
| "nest (k # ks) v = JDict [(k, nest ks v)]"

definition starts_with :: "string \<Rightarrow> string \<Rightarrow> bool" where
  "starts_with s t \<longleftrightarrow> take (length t) s = t"

definition root_of :: "string list \<Rightarrow> string \<Rightarrow> string" where
  "root_of names k =
     (case filter (\<lambda>name. starts_with k name \<and> CHR ''['' \<in> set k) names of
        [] \<Rightarrow> takeWhile (\<lambda>c. c \<noteq> CHR ''['') k
      | found \<Rightarrow> if last found = [] then takeWhile (\<lambda>c. c \<noteq> CHR ''['') k else last found)"

definition leaf_value :: "string \<Rightarrow> json \<Rightarrow> json list \<Rightarrow> json res" where
  "leaf_value k last_schema vs =
     (if type_of last_schema = Some ''array''
      then Inr (JList (case vs of
          [JStr s] \<Rightarrow> if starts_with k ''filters'' then map JStr (py_split (CHR '','') s) else vs
        | _ \<Rightarrow> vs))
      else unlisted vs)"

definition make_deep_object ::
  "(string \<times> json) list \<Rightarrow> (string \<Rightarrow> bool) \<Rightarrow> string \<Rightarrow> json \<Rightarrow> (string \<times> json \<times> bool) res" where
  "make_deep_object param_schemas deep_style k v =
     (if k \<in> fst ` set param_schemas \<or> \<not> deep_style (root_of (map fst param_schemas) k)
      then bindR (unlisted (listed v)) (\<lambda>x.
        Inr (if k \<in> fst ` set param_schemas then k else root_of (map fst param_schemas) k, x, False))
      else
        let root = root_of (map fst param_schemas) k; path = key_path k;
            schema = (case map_of param_schemas root of Some s \<Rightarrow> s | None \<Rightarrow> JDict []) in
        if path = [] then Inl (PyExc ''IndexError'')
        else bindR (schema_at schema path) (\<lambda>last_schema.
             bindR (leaf_value k last_schema (listed v)) (\<lambda>x. Inr (root, JList [nest path x], True))))"

section \<open>Includes\<close>

definition affirmative_literals :: "string list" where
  "affirmative_literals = [''true'', ''t'', ''yes'', ''y'']"

definition negative_literals :: "string list" where
  "negative_literals = [''false'', ''f'', ''no'', ''n'']"

definition resolve_oneof :: "json \<Rightarrow> json \<Rightarrow> json res" where
  "resolve_oneof schema data =
     (case branches schema of
        None \<Rightarrow> Inr schema
      | Some bs \<Rightarrow>
          (case find (\<lambda>b.
             type_of b = Some ''object'' \<and> is_dict data \<or>
             type_of b = Some ''array'' \<and> is_list data \<or>
             type_of b = Some ''boolean'' \<and>
               (case data of JBool _ \<Rightarrow> True | JStr s \<Rightarrow> lower s \<in> set (affirmative_literals @ negative_literals) | _ \<Rightarrow> False)) bs of
             Some b \<Rightarrow> Inr b
           | None \<Rightarrow> (case bs of [] \<Rightarrow> Inl (PyExc ''IndexError'') | b # _ \<Rightarrow> Inr b)))"

definition child_schema :: "json \<Rightarrow> string \<Rightarrow> json" where
  "child_schema schema k =
     (case sget (sdict schema ''properties'') k of
        Some s \<Rightarrow> s
      | None \<Rightarrow> (case sget schema ''additionalProperties'' of Some (JDict d) \<Rightarrow> JDict d | _ \<Rightarrow> JDict []))"

fun cast_include :: "json \<Rightarrow> json \<Rightarrow> json res" where
  "cast_include (JStr s) schema =
     Inr (if lower s \<in> set affirmative_literals then JBool True
          else if lower s \<in> set negative_literals then JBool False else JStr s)"
| "cast_include (JDict d) schema =
     bindR (resolve_oneof schema (JDict d)) (\<lambda>schema.
     bindR (map_res (\<lambda>(k, v). bindR (cast_include v (child_schema schema k)) (\<lambda>w. Inr (k, w))) d) (\<lambda>d. Inr (JDict d)))"
| "cast_include (JList xs) schema =
     bindR (map_res (\<lambda>v. cast_include v (sdict schema ''items'')) xs) (\<lambda>xs. Inr (JList xs))"
| "cast_include v schema = Inr v"

definition coerce_include :: "json \<Rightarrow> json \<Rightarrow> json res" where
  "coerce_include param v =
     (let schema = (case sget param ''schema'' of Some s \<Rightarrow> s | None \<Rightarrow> param) in
      case v of JList [x] \<Rightarrow> cast_include x schema | _ \<Rightarrow> cast_include v schema)"

section \<open>Sorting\<close>

definition sorting_items :: "(string \<Rightarrow> rat option) \<Rightarrow> json \<Rightarrow> json list res" where
  "sorting_items pf v =
     (case v of
        JStr s \<Rightarrow> (case loads pf s of Inr (JList xs) \<Rightarrow> Inr xs | Inr x \<Rightarrow> Inr [x] | Inl _ \<Rightarrow> Inr [JStr s])
      | JList xs \<Rightarrow> Inr xs
      | JDict d \<Rightarrow> Inr (map (JStr \<circ> fst) d)
      | _ \<Rightarrow> Inl (PyExc ''TypeError''))"

definition coerce_sorting :: "(string \<Rightarrow> rat option) \<Rightarrow> json \<Rightarrow> json list res" where
  "coerce_sorting pf v =
     (if \<not> truthy v then Inr []
      else bindR (sorting_items pf v) (\<lambda>items.
           map_res (\<lambda>item. case item of JStr s \<Rightarrow> loads pf s | _ \<Rightarrow> Inr item) (filter (\<lambda>item. item \<noteq> JNull) items)))"

section \<open>Filters\<close>

text \<open>Values that may be dates.\<close>

datatype 'd qval =
    QNull | QBool bool | QInt int | QFloat rat | QStr string | QDate 'd
  | QList "'d qval list" | QDict "(string \<times> 'd qval) list"

fun of_json :: "json \<Rightarrow> 'd qval" where
  "of_json JNull = QNull"
| "of_json (JBool b) = QBool b"
| "of_json (JInt n) = QInt n"
| "of_json (JFloat q) = QFloat q"
| "of_json (JStr s) = QStr s"
| "of_json (JList xs) = QList (map of_json xs)"
| "of_json (JDict d) = QDict (map (\<lambda>(k, v). (k, of_json v)) d)"

text \<open>\<^verbatim>\<open>data.replace("Z", "+00:00")\<close>\<close>

definition zulu :: "string \<Rightarrow> string" where
  "zulu s = concat (map (\<lambda>c. if c = CHR ''Z'' then ''+00:00'' else [c]) s)"

record 'd readers =
  fromisoformat :: "string \<Rightarrow> 'd option"
  float_of :: "string \<Rightarrow> rat option"

definition cast_text :: "'d readers \<Rightarrow> string \<Rightarrow> 'd qval" where
  "cast_text R s =
     (if lower s = ''true'' then QBool True
      else if lower s = ''false'' then QBool False
      else (case fromisoformat R (zulu s) of
          Some d \<Rightarrow> QDate d
        | None \<Rightarrow>
            if CHR ''.'' \<in> set s then (case float_of R s of Some q \<Rightarrow> QFloat q | None \<Rightarrow> QStr s)
            else (case py_int s of Inr n \<Rightarrow> QInt n | Inl _ \<Rightarrow> QStr s)))"

fun cast_filter :: "'d readers \<Rightarrow> json \<Rightarrow> 'd qval" where
  "cast_filter R (JStr s) = cast_text R s"
| "cast_filter R (JDict d) = QDict (map (\<lambda>(k, v). (k, cast_filter R v)) d)"
| "cast_filter R (JList xs) = QList (map (cast_filter R) xs)"
| "cast_filter R v = of_json v"

definition coerce_filters :: "'d readers \<Rightarrow> json \<Rightarrow> 'd qval" where
  "coerce_filters R v = (case v of JList [x] \<Rightarrow> cast_filter R x | _ \<Rightarrow> cast_filter R v)"

section \<open>All parameters\<close>

text \<open>
  The definitions and schemas of the parameters of an operation, and the steps that connexion does: joining
  repeated values, splitting lists, and its own coercion, which leaves a value that does not fit.
\<close>

record connexion =
  param_defns :: "(string \<times> json) list"
  param_schemas :: "(string \<times> json) list"
  cx_duplicates :: "json \<Rightarrow> json \<Rightarrow> string \<Rightarrow> json"
  cx_split :: "json \<Rightarrow> json \<Rightarrow> string \<Rightarrow> json"
  cx_coerce :: "json \<Rightarrow> json \<Rightarrow> json"

definition schema_type :: "json \<Rightarrow> json res" where
  "schema_type s = (case sget s ''type'' of Some t \<Rightarrow> Inr t | None \<Rightarrow> Inl (PyExc ''KeyError''))"

definition split_array :: "connexion \<Rightarrow> string \<Rightarrow> string \<Rightarrow> json \<Rightarrow> json \<Rightarrow> json \<Rightarrow> json res" where
  "split_array C location k defn schema v =
     (if \<not> truthy schema then Inr v
      else bindR (schema_type schema) (\<lambda>t.
        Inr (if t = JStr ''array'' \<and> k \<noteq> ''sorting'' then cx_split C (cx_duplicates C v defn location) defn location else v)))"

definition coerce_param :: "connexion \<Rightarrow> 'd readers \<Rightarrow> string \<Rightarrow> json \<Rightarrow> json \<Rightarrow> 'd qval res" where
  "coerce_param C R k defn v =
     (if k = ''include'' then bindR (if defn = JNull then Inl (PyExc ''AttributeError'') else coerce_include defn v) (\<lambda>w. Inr (of_json w))
      else if k = ''sorting'' then bindR (coerce_sorting (float_of R) v) (\<lambda>items. Inr (QList (map of_json items)))
      else if k = ''filters'' then Inr (coerce_filters R v)
      else Inr (of_json (cx_coerce C defn v)))"

definition resolve_param :: "connexion \<Rightarrow> 'd readers \<Rightarrow> string \<Rightarrow> string \<times> json \<Rightarrow> (string \<times> 'd qval) res" where
  "resolve_param C R location = (\<lambda>(k, v).
     let defn = (case map_of (param_defns C) k of Some d \<Rightarrow> d | None \<Rightarrow> JNull);
         schema = (case map_of (param_schemas C) k of Some s \<Rightarrow> s | None \<Rightarrow> JNull) in
     if \<not> truthy defn \<and> \<not> truthy schema then Inr (k, of_json v)
     else bindR (split_array C location k defn schema (if location = ''path'' \<and> type_of schema = Some ''array'' then JList [v] else v)) (\<lambda>w.
          bindR (coerce_param C R k defn w) (\<lambda>x. Inr (k, x))))"

definition resolve_params :: "connexion \<Rightarrow> 'd readers \<Rightarrow> string \<Rightarrow> dict \<Rightarrow> (string \<times> 'd qval) list res" where
  "resolve_params C R location params = map_res (resolve_param C R location) params"

end
