(* ===== verification/Param_Validators.thy ===== *)
theory Param_Validators
  imports Query_Params
begin

text \<open>
  The validation of query parameters (\<^verbatim>\<open>src/app/patches/parameter.py\<close>, \<^verbatim>\<open>src/app/patches/validators\<close>) against the
  schemas of the specification (\<^verbatim>\<open>src/app/spec/schema.py\<close>). An error of validation has the path or the index of
  the value; any other exception of a validator is a \<open>Crash\<close>.
\<close>

section \<open>Errors\<close>

datatype param_msg =
    ExpectedDict
  | UnknownFilterField
  | NoConditionSchema
  | ExpectedNestedFilter
  | Expected string string
  | ExpectedIso string
  | InvalidFilterSchema
  | UnknownIncludeField
  | RecursiveInclude
  | ExpectedBoolean
  | NestedNotAllowed
  | BooleanNotAllowed
  | CannotBe bool
  | ExpectedBooleanOrObject
  | ExpectedNestedInclude
  | InvalidIncludeSchema
  | FieldNotIn
  | OrderNotIn
  | UnexpectedKeys "string list"

datatype param_error =
    Deep "string list" param_msg
  | AtIndex nat param_msg
  | Crash string

text \<open>The name of the type of a value, and \<^verbatim>\<open>value in enum\<close> with the equality of Python.\<close>

fun type_name :: "'d qval \<Rightarrow> string" where
  "type_name QNull = ''NoneType''"
| "type_name (QBool _) = ''bool''"
| "type_name (QInt _) = ''int''"
| "type_name (QFloat _) = ''float''"
| "type_name (QStr _) = ''str''"
| "type_name (QDate _) = ''datetime''"
| "type_name (QList _) = ''list''"
| "type_name (QDict _) = ''dict''"

fun qnum :: "'d qval \<Rightarrow> rat option" where
  "qnum (QBool b) = Some (if b then 1 else 0)"
| "qnum (QInt n) = Some (of_int n)"
| "qnum (QFloat q) = Some q"
| "qnum _ = None"

definition q_eq :: "'d qval \<Rightarrow> 'd qval \<Rightarrow> bool" where
  "q_eq v w = (case (qnum v, qnum w) of (Some a, Some b) \<Rightarrow> a = b | (None, None) \<Rightarrow> v = w | _ \<Rightarrow> False)"

definition q_in :: "'d qval \<Rightarrow> json list \<Rightarrow> bool" where
  "q_in v enum \<longleftrightarrow> (\<exists>e \<in> set enum. q_eq v (of_json e))"

definition enum_of :: "json \<Rightarrow> json list option" where
  "enum_of j = (case sget j ''enum'' of Some (JList es) \<Rightarrow> Some es | _ \<Rightarrow> None)"

section \<open>Sorting\<close>

definition hashable :: "'d qval \<Rightarrow> bool" where
  "hashable v = (case v of QList _ \<Rightarrow> False | QDict _ \<Rightarrow> False | _ \<Rightarrow> True)"

definition q_truthy :: "'d qval \<Rightarrow> bool" where
  "q_truthy v =
     (case v of QNull \<Rightarrow> False | QBool b \<Rightarrow> b | QInt n \<Rightarrow> n \<noteq> 0 | QFloat q \<Rightarrow> q \<noteq> 0 | QStr s \<Rightarrow> s \<noteq> []
      | QDate _ \<Rightarrow> True | QList xs \<Rightarrow> xs \<noteq> [] | QDict d \<Rightarrow> d \<noteq> [])"

definition q_get :: "(string \<times> 'd qval) list \<Rightarrow> string \<Rightarrow> 'd qval \<Rightarrow> 'd qval" where
  "q_get d k absent = (case map_of d k of Some v \<Rightarrow> v | None \<Rightarrow> absent)"

definition sorting_enum :: "json \<Rightarrow> string \<Rightarrow> json list \<Rightarrow> json list" where
  "sorting_enum schema k absent =
     (case enum_of (sdict (sdict (sdict schema ''items'') ''properties'') k) of Some es \<Rightarrow> es | None \<Rightarrow> absent)"

definition validate_item :: "json \<Rightarrow> nat \<times> 'd qval \<Rightarrow> param_error + unit" where
  "validate_item schema = (\<lambda>(i, item).
     case item of
       QDict d \<Rightarrow>
         let field = q_get d ''field'' QNull; order = q_get d ''order'' (QStr ''asc'') in
         bindR (if \<not> q_truthy field then Inl (AtIndex i FieldNotIn)
                else if \<not> hashable field then Inl (Crash ''TypeError'')
                else guardR (q_in field (sorting_enum schema ''field'' [])) (AtIndex i FieldNotIn)) (\<lambda>_.
         bindR (if \<not> hashable order then Inl (Crash ''TypeError'')
                else guardR (q_in order (sorting_enum schema ''order'' [JStr ''asc'', JStr ''desc''])) (AtIndex i OrderNotIn)) (\<lambda>_.
           let extra = filter (\<lambda>k. k \<notin> {''field'', ''order''}) (map fst d) in
           guardR (extra = []) (AtIndex i (UnexpectedKeys extra))))
     | _ \<Rightarrow> Inl (Crash ''AttributeError''))"

definition validate_sorting :: "'d qval \<Rightarrow> json \<Rightarrow> param_error + unit" where
  "validate_sorting sorting schema =
     (case sorting of
        QList items \<Rightarrow> for_each (validate_item schema) (enumerate 0 items)
      | _ \<Rightarrow> Inl (Crash ''AttributeError''))"

section \<open>Filters\<close>

text \<open>The branches of \<^verbatim>\<open>oneOf\<close>, until one matches; a branch may be skipped, and the last error of validation is kept.\<close>

fun first_match :: "param_error \<Rightarrow> (json \<Rightarrow> (param_error + unit) option) \<Rightarrow> json list \<Rightarrow> param_error + unit" where
  "first_match e f [] = Inl e"
| "first_match e f (b # bs) =
     (case f b of
        None \<Rightarrow> first_match e f bs
      | Some (Inr _) \<Rightarrow> Inr ()
      | Some (Inl (Crash n)) \<Rightarrow> Inl (Crash n)
      | Some (Inl e') \<Rightarrow> first_match e' f bs)"

lemma first_match_cong [fundef_cong]:
  "e = e' \<Longrightarrow> bs = bs' \<Longrightarrow> (\<And>b. b \<in> set bs' \<Longrightarrow> f b = g b) \<Longrightarrow> first_match e f bs = first_match e' g bs'"
  by (induction bs' arbitrary: bs e e') (auto split: option.splits sum.splits param_error.splits)

definition is_qdict :: "'d qval \<Rightarrow> bool" where
  "is_qdict v = (case v of QDict _ \<Rightarrow> True | _ \<Rightarrow> False)"

lemma size_qdict: "(k, v) \<in> set d \<Longrightarrow> size v < size (QDict d)"
  by (induction d) auto

lemma size_qlist: "v \<in> set vs \<Longrightarrow> size v < size (QList vs)"
  by (induction vs) auto

lemma size_enumerated: "(i, v) \<in> set (enumerate n vs) \<Longrightarrow> size v < size (QList vs)"
  using size_qlist [of v vs] by (auto simp: enumerate_eq_zip dest: set_zip_rightD)

function (sequential) validate_filters :: "'d readers \<Rightarrow> string list \<Rightarrow> json \<Rightarrow> 'd qval \<Rightarrow> param_error + unit"
  and validate_value :: "'d readers \<Rightarrow> string list \<Rightarrow> json \<Rightarrow> 'd qval \<Rightarrow> param_error + unit" where
  "validate_filters R path schema (QDict d) =
     for_each (\<lambda>(k, v).
       case sget (sdict schema ''properties'') k of
         None \<Rightarrow> Inl (Deep (path @ [k]) UnknownFilterField)
       | Some prop \<Rightarrow>
           (case branches prop of
              Some bs \<Rightarrow> first_match (Deep (path @ [k]) NoConditionSchema) (\<lambda>b.
                if type_of b = Some ''object''
                then if is_qdict v then Some (validate_filters R (path @ [k]) b v) else None
                else if is_qdict v then None else Some (validate_value R (path @ [k]) b v)) bs
            | None \<Rightarrow> validate_value R (path @ [k]) prop v)) d"
| "validate_filters R path schema v = Inl (Deep path ExpectedDict)"
| "validate_value R path schema v =
     (if type_of schema = Some ''object''
      then if is_qdict v then validate_filters R path schema v else Inl (Deep path ExpectedNestedFilter)
      else if type_of schema = Some ''array''
      then (case v of
          QList vs \<Rightarrow> for_each (\<lambda>(i, x). validate_value R (path @ [py_str (int i)]) (sdict schema ''items'') x) (enumerate 0 vs)
        | _ \<Rightarrow> Inl (Deep path (Expected ''array'' (type_name v))))
      else if type_of schema = Some ''string''
      then (case v of
          QStr s \<Rightarrow>
            if sget schema ''format'' = Some (JStr ''date-time'') \<and> fromisoformat R (zulu s) = None
            then Inl (Deep path (ExpectedIso s)) else Inr ()
        | _ \<Rightarrow> Inl (Deep path (Expected ''string'' (type_name v))))
      else if type_of schema = Some ''integer''
      then guardR (type_name v \<in> {''int'', ''bool''}) (Deep path (Expected ''integer'' (type_name v)))
      else if type_of schema = Some ''number''
      then guardR (type_name v \<in> {''int'', ''bool'', ''float''}) (Deep path (Expected ''number'' (type_name v)))
      else if type_of schema = Some ''boolean''
      then guardR (type_name v = ''bool'') (Deep path (Expected ''boolean'' (type_name v)))
      else if type_of schema = Some ''null''
      then guardR (v = QNull) (Deep path (Expected ''null'' (type_name v)))
      else Inl (Deep path InvalidFilterSchema))"
  by pat_completeness auto
termination
proof (relation "measure (\<lambda>x. case x of Inl (R, path, schema, v) \<Rightarrow> 2 * size v | Inr (R, path, schema, v) \<Rightarrow> 2 * size v + 1)")
qed (use size_qdict size_enumerated in \<open>fastforce simp del: qval.size\<close>)+

declare validate_value.simps [simp del]

section \<open>Includes\<close>

definition last_branch :: "string \<Rightarrow> json list \<Rightarrow> json option" where
  "last_branch t bs = find (\<lambda>b. type_of b = Some t) (rev bs)"

definition include_properties :: "json \<Rightarrow> json" where
  "include_properties schema = (case sget schema ''properties'' of Some p \<Rightarrow> p | None \<Rightarrow> schema)"

fun validate_include :: "string list \<Rightarrow> json \<Rightarrow> 'd qval \<Rightarrow> param_error + unit" where
  "validate_include path schema (QDict d) =
     for_each (\<lambda>(k, v).
       case sget (include_properties schema) k of
         None \<Rightarrow> Inl (Deep (path @ [k]) UnknownIncludeField)
       | Some prop \<Rightarrow>
           if type_of prop = Some ''boolean'' then
             (case enum_of prop of
                Some es \<Rightarrow> if \<not> q_in v es then Inl (Deep (path @ [k]) RecursiveInclude)
                           else guardR (type_name v = ''bool'') (Deep (path @ [k]) ExpectedBoolean)
              | None \<Rightarrow> guardR (type_name v = ''bool'') (Deep (path @ [k]) ExpectedBoolean))
           else (case branches prop of
             Some bs \<Rightarrow>
               (case v of
                  QDict _ \<Rightarrow>
                    (case last_branch ''object'' bs of
                       None \<Rightarrow> Inl (Deep (path @ [k]) NestedNotAllowed)
                     | Some b \<Rightarrow> validate_include (path @ [k]) b v)
                | QBool on \<Rightarrow>
                    (case last_branch ''boolean'' bs of
                       None \<Rightarrow> Inl (Deep (path @ [k]) BooleanNotAllowed)
                     | Some b \<Rightarrow>
                         (case enum_of b of Some es \<Rightarrow> guardR (q_in v es) (Deep (path @ [k]) (CannotBe on)) | None \<Rightarrow> Inr ()))
                | _ \<Rightarrow> Inl (Deep (path @ [k]) ExpectedBooleanOrObject))
           | None \<Rightarrow>
               if type_of prop = Some ''object''
               then if is_qdict v then validate_include (path @ [k]) prop v else Inl (Deep (path @ [k]) ExpectedNestedInclude)
               else Inl (Deep (path @ [k]) InvalidIncludeSchema))) d"
| "validate_include path schema v = Inl (Crash ''AttributeError'')"

section \<open>Schemas by name\<close>

definition get_schema_by_suffix :: "dict \<Rightarrow> string \<Rightarrow> string option \<Rightarrow> string option \<Rightarrow> json res" where
  "get_schema_by_suffix schemas suffix model_name schema_name =
     bindR (case (model_name, schema_name) of
        (Some _, Some _) \<Rightarrow> Inl (PyExc ''ValueError'')
      | (Some m, None) \<Rightarrow> Inr (m @ suffix)
      | (None, Some n) \<Rightarrow> if ends_with n suffix then Inr n else Inl (PyExc ''ValueError'')
      | (None, None) \<Rightarrow> Inl (PyExc ''ValueError'')) (\<lambda>name.
     case map_of schemas name of
       Some s \<Rightarrow> if truthy s then Inr s else Inl (PyExc ''ValueError'')
     | None \<Rightarrow> Inl (PyExc ''ValueError''))"

definition get_filter_schema :: "dict \<Rightarrow> string option \<Rightarrow> string option \<Rightarrow> json res" where
  "get_filter_schema schemas = get_schema_by_suffix schemas ''Filter''"

definition get_include_schema :: "dict \<Rightarrow> string option \<Rightarrow> string option \<Rightarrow> json res" where
  "get_include_schema schemas = get_schema_by_suffix schemas ''Include''"

section \<open>The validator\<close>

text \<open>What the framework sees of a failed validation: a bad request, or an exception that nobody handles.\<close>

datatype param_failure = BadParameter param_error | Unhandled string

definition bad_request :: "param_error + unit \<Rightarrow> param_failure + unit" where
  "bad_request r =
     (case r of
        Inr u \<Rightarrow> Inr u
      | Inl (Crash n) \<Rightarrow> Inl (Unhandled n)
      | Inl e \<Rightarrow> Inl (BadParameter e))"

definition titled_schema :: "(string option \<Rightarrow> string option \<Rightarrow> json res) \<Rightarrow> json \<Rightarrow> param_failure + json" where
  "titled_schema lookup param =
     (case sget (sdict param ''schema'') ''title'' of
        Some (JStr t) \<Rightarrow> (case lookup None (Some t) of Inr s \<Rightarrow> Inr s | Inl _ \<Rightarrow> Inl (Unhandled ''ValueError''))
      | Some _ \<Rightarrow> Inl (Unhandled ''ValueError'')
      | None \<Rightarrow> Inl (Unhandled ''KeyError''))"

record 'd validator =
  va_readers :: "'d readers"
  va_schemas :: dict
  va_base_path :: string
  va_validate :: "json \<Rightarrow> 'd qval option \<Rightarrow> param_failure + unit"

text \<open>The endpoint of the search validates its own includes.\<close>

definition search_path :: "'d validator \<Rightarrow> string" where
  "search_path V = rev (dropWhile (\<lambda>c. c = CHR ''/'') (rev (va_base_path V))) @ ''/search''"

definition validate_query_parameter ::
  "'d validator \<Rightarrow> string \<Rightarrow> string \<Rightarrow> json \<Rightarrow> (string \<times> 'd qval) list \<Rightarrow> param_failure + unit" where
  "validate_query_parameter V scope_path name param query =
     (case map_of query name of
        Some v \<Rightarrow>
          if name = ''sorting'' \<and> q_truthy v then bad_request (validate_sorting v (sdict param ''schema''))
          else if name = ''filters'' \<and> q_truthy v
          then bindR (titled_schema (get_filter_schema (va_schemas V)) param) (\<lambda>s. bad_request (validate_filters (va_readers V) [] s v))
          else if name = ''include'' \<and> q_truthy v
          then if ends_with scope_path (search_path V) then Inr ()
               else bindR (titled_schema (get_include_schema (va_schemas V)) param) (\<lambda>s. bad_request (validate_include [] s v))
          else va_validate V param (Some v)
      | None \<Rightarrow> va_validate V param None)"

end
