(* ===== verification/Spec_Shallow.thy ===== *)
theory Spec_Shallow
  imports Param_Validators
begin

text \<open>
  The expansion of the placeholders in the schemas of the specification (\<^verbatim>\<open>src/app/spec/shallow.py\<close>). The
  two functions call each other along the properties and along the titles; the fuel is the depth of the
  stack, at whose end Python raises RecursionError.
\<close>

section \<open>Expansion\<close>

definition SCHEMAS_WITH_SHALLOW_REFS :: "string list" where
  "SCHEMAS_WITH_SHALLOW_REFS = [''Beatmap'', ''BeatmapSnapshot'', ''Beatmapset'', ''BeatmapsetSnapshot'', ''Leaderboard'',
     ''BeatmapFilter'', ''BeatmapSnapshotFilter'', ''BeatmapsetFilter'', ''BeatmapsetSnapshotFilter'',
     ''BeatmapInclude'', ''BeatmapSnapshotInclude'', ''BeatmapsetInclude'', ''BeatmapsetSnapshotInclude'', ''LeaderboardInclude'', ''RequestInclude'']"

definition disabled_nested_obj :: json where
  "disabled_nested_obj = JDict [(''type'', JStr ''boolean''), (''enum'', JList [JBool False]), (''default'', JBool False),
     (''description'', JStr ''*This nested include has been disabled to prevent infinite recursion*'')]"

definition title_of :: "json \<Rightarrow> string option" where
  "title_of j = (case sget j ''title'' of Some (JStr t) \<Rightarrow> Some t | _ \<Rightarrow> None)"

definition is_shallow :: "string option \<Rightarrow> bool" where
  "is_shallow t = (case t of Some s \<Rightarrow> ends_with s ''Shallow'' | None \<Rightarrow> False)"

definition is_include :: "string \<Rightarrow> bool" where
  "is_include t = ends_with t ''Include''"

definition base_title :: "string \<Rightarrow> string" where
  "base_title t = take (length t - 7) t"

text \<open>A cycle: a property of an include becomes a disabled one, any other property is dropped.\<close>

definition cycle_result :: "string list \<Rightarrow> json option" where
  "cycle_result stack = (if is_include (last stack) then Some disabled_nested_obj else None)"

definition with_entry :: "string \<Rightarrow> json \<Rightarrow> json \<Rightarrow> json" where
  "with_entry k v j = (case j of JDict d \<Rightarrow> JDict (AList.update k v d) | _ \<Rightarrow> j)"

definition keep_resolved :: "(string \<times> json option) list \<Rightarrow> (string \<times> json) list" where
  "keep_resolved rs = [(k, x). (k, Some x) \<leftarrow> rs]"

definition branch_results :: "string list \<Rightarrow> json option list \<Rightarrow> json list res" where
  "branch_results stack rs =
     (if None \<in> set rs \<and> stack = [] then Inl (PyExc ''IndexError'')
      else Inr (concat (map (\<lambda>r. case r of Some x \<Rightarrow> [x] | None \<Rightarrow> if is_include (last stack) then [disabled_nested_obj] else []) rs)))"

text \<open>The stack with the title of a schema, unless it is there already.\<close>

definition entered :: "json \<Rightarrow> string list \<Rightarrow> string list option" where
  "entered schema stack =
     (case title_of schema of Some t \<Rightarrow> if t \<in> set stack then None else Some (stack @ [t]) | None \<Rightarrow> Some stack)"

text \<open>What an object stands for: a decided result, or the schema to expand in its place.\<close>

definition object_target :: "dict \<Rightarrow> json \<Rightarrow> string list \<Rightarrow> json option + json" where
  "object_target schemas p stack =
     (case title_of p of
        Some t \<Rightarrow>
          if ends_with t ''Shallow'' then
            (if base_title t \<in> set stack then Inl (cycle_result stack)
             else (case map_of schemas (base_title t) of None \<Rightarrow> Inl None | Some s \<Rightarrow> Inr s))
          else (case map_of schemas t of Some s \<Rightarrow> Inr s | None \<Rightarrow> Inr p)
      | None \<Rightarrow> Inr p)"

fun resolve_schema :: "nat \<Rightarrow> dict \<Rightarrow> json \<Rightarrow> string list \<Rightarrow> json option res"
  and resolve_property :: "nat \<Rightarrow> dict \<Rightarrow> json \<Rightarrow> string list \<Rightarrow> json option res" where
  "resolve_schema 0 schemas schema stack = Inl (PyExc ''RecursionError'')"
| "resolve_schema (Suc n) schemas schema stack =
     (case entered schema stack of
        None \<Rightarrow> Inr (cycle_result stack)
      | Some stack' \<Rightarrow>
          (case sget schema ''properties'' of
             Some (JDict ps) \<Rightarrow>
               bindR (map_res (\<lambda>(k, p). bindR (resolve_property n schemas p stack') (\<lambda>r. Inr (k, r))) ps) (\<lambda>rs.
                 Inr (Some (with_entry ''properties'' (JDict (keep_resolved rs)) schema)))
           | _ \<Rightarrow> Inr (Some schema)))"
| "resolve_property 0 schemas p stack = Inl (PyExc ''RecursionError'')"
| "resolve_property (Suc n) schemas p stack =
     (if type_of p = Some ''object'' then
        (case object_target schemas p stack of Inl r \<Rightarrow> Inr r | Inr s \<Rightarrow> resolve_schema n schemas s stack)
      else if type_of p = Some ''array'' then
        bindR (resolve_property n schemas (sdict p ''items'') stack) (\<lambda>r. Inr (map_option (\<lambda>x. with_entry ''items'' x p) r))
      else (case branches p of
          Some bs \<Rightarrow>
            bindR (map_res (\<lambda>b. if type_of b = Some ''boolean'' then Inr (Some b) else resolve_property n schemas b stack) bs) (\<lambda>rs.
            bindR (branch_results stack rs) (\<lambda>bs'. Inr (Some (with_entry ''oneOf'' (JList bs') p))))
        | None \<Rightarrow> Inr (Some p)))"

declare resolve_schema.simps [simp del] resolve_property.simps [simp del]

text \<open>The listed schemas are expanded one after the other, each with those expanded before it.\<close>

fun expand_all :: "nat \<Rightarrow> string list \<Rightarrow> dict \<Rightarrow> dict res" where
  "expand_all n [] schemas = Inr schemas"
| "expand_all n (name # names) schemas =
     (case map_of schemas name of
        None \<Rightarrow> expand_all n names schemas
      | Some s \<Rightarrow> bindR (resolve_schema n schemas s []) (\<lambda>r.
          expand_all n names (AList.update name (case r of Some x \<Rightarrow> x | None \<Rightarrow> JNull) schemas)))"

section \<open>Parameters\<close>

definition fix_param :: "dict \<Rightarrow> json \<Rightarrow> json" where
  "fix_param schemas param =
     (case title_of (sdict param ''schema'') of
        Some t \<Rightarrow> (case map_of schemas t of
            Some s \<Rightarrow> if t \<in> set SCHEMAS_WITH_SHALLOW_REFS then with_entry ''schema'' s param else param
          | None \<Rightarrow> param)
      | None \<Rightarrow> param)"

definition fix_params :: "dict \<Rightarrow> json \<Rightarrow> json" where
  "fix_params schemas params = (case params of JList ps \<Rightarrow> JList (map (fix_param schemas) ps) | _ \<Rightarrow> params)"

definition fix_parameters :: "dict \<Rightarrow> json \<Rightarrow> json" where
  "fix_parameters schemas item =
     (case sget item ''parameters'' of Some ps \<Rightarrow> with_entry ''parameters'' (fix_params schemas ps) item | None \<Rightarrow> item)"

definition http_methods :: "string list" where
  "http_methods = [''get'', ''put'', ''post'', ''delete'', ''options'', ''head'', ''patch'', ''trace'']"

definition fix_path :: "dict \<Rightarrow> json \<Rightarrow> json" where
  "fix_path schemas item =
     (case fix_parameters schemas item of
        JDict d \<Rightarrow> JDict (map (\<lambda>(k, v). (k, if k \<in> set http_methods then fix_parameters schemas v else v)) d)
      | j \<Rightarrow> j)"

record openapi_spec =
  sp_schemas :: dict
  sp_paths :: dict
  sp_security :: "json option"

definition propagate_to_parameters :: "openapi_spec \<Rightarrow> openapi_spec" where
  "propagate_to_parameters S = S\<lparr>sp_paths := map (\<lambda>(k, v). (k, fix_path (sp_schemas S) v)) (sp_paths S)\<rparr>"

definition populate_shallow_refs :: "nat \<Rightarrow> string list \<Rightarrow> openapi_spec \<Rightarrow> openapi_spec res" where
  "populate_shallow_refs n order S =
     bindR (expand_all n order (sp_schemas S)) (\<lambda>schemas. Inr (propagate_to_parameters (S\<lparr>sp_schemas := schemas\<rparr>)))"

end
