(* ===== verification/Spec_Expansion.thy ===== *)
theory Spec_Expansion
  imports Spec_Shallow
begin

text \<open>
  The expansion of the schemas ends, and no placeholder is left in an expanded schema, when the schemas that
  titles refer to are objects with titles of their own.
\<close>

section \<open>Deeper stacks\<close>

lemma map_res_mono:
  assumes "map_res f xs = Inr ys" "\<And>x y. x \<in> set xs \<Longrightarrow> f x = Inr y \<Longrightarrow> g x = Inr y"
  shows "map_res g xs = Inr ys"
  using assms by (induction xs arbitrary: ys) (auto simp: bindR_eq_Inr)

lemma resolve_Suc:
  "(\<forall>schema stack r. resolve_schema n schemas schema stack = Inr r \<longrightarrow> resolve_schema (Suc n) schemas schema stack = Inr r) \<and>
   (\<forall>p stack r. resolve_property n schemas p stack = Inr r \<longrightarrow> resolve_property (Suc n) schemas p stack = Inr r)"
proof (induction n)
  case (Suc n)
  then have schema: "resolve_schema (Suc n) schemas s st = Inr r" if "resolve_schema n schemas s st = Inr r" for s st r using that by blast
  from Suc have one: "resolve_property (Suc n) schemas p st = Inr r" if "resolve_property n schemas p st = Inr r" for p st r using that by blast
  have props: "map_res (\<lambda>(k, p). bindR (resolve_property (Suc n) schemas p st) (\<lambda>r. Inr (k, r))) ps = Inr rs"
    if "map_res (\<lambda>(k, p). bindR (resolve_property n schemas p st) (\<lambda>r. Inr (k, r))) ps = Inr rs" for st ps rs
    using that by (rule map_res_mono) (auto simp: bindR_eq_Inr one)
  have alts: "map_res (\<lambda>b. if type_of b = Some ''boolean'' then Inr (Some b) else resolve_property (Suc n) schemas b st) bs = Inr rs"
    if "map_res (\<lambda>b. if type_of b = Some ''boolean'' then Inr (Some b) else resolve_property n schemas b st) bs = Inr rs" for bs rs st
    using that by (rule map_res_mono) (auto simp: one split: if_splits)
  have "resolve_schema (Suc (Suc n)) schemas s st = Inr r" if "resolve_schema (Suc n) schemas s st = Inr r" for s st r
    using that unfolding resolve_schema.simps(2) by (auto simp: bindR_eq_Inr split: option.splits json.splits dest: props)
  moreover have "resolve_property (Suc (Suc n)) schemas p st = Inr r" if run: "resolve_property (Suc n) schemas p st = Inr r" for p st r
  proof -
    consider (object) "type_of p = Some ''object''" | (array) "type_of p = Some ''array''"
      | (other) "type_of p \<noteq> Some ''object''" "type_of p \<noteq> Some ''array''" by blast
    then show ?thesis
    proof cases
      case object
      then show ?thesis using run schema by (simp add: resolve_property.simps(2) [of n] resolve_property.simps(2) [of "Suc n"] split: sum.splits)
    next
      case array
      then show ?thesis using run one
        by (auto simp: bindR_eq_Inr resolve_property.simps(2) [of n _ p] resolve_property.simps(2) [of "Suc n" _ p])
    next
      case other
      then show ?thesis using run alts
        by (cases "branches p") (auto simp: bindR_eq_Inr resolve_property.simps(2) [of n _ p] resolve_property.simps(2) [of "Suc n" _ p])
    qed
  qed
  ultimately show ?case by blast
qed (simp add: resolve_schema.simps(1) resolve_property.simps(1))

lemma resolve_mono:
  "resolve_schema n schemas schema stack = Inr r \<Longrightarrow> n \<le> m \<Longrightarrow> resolve_schema m schemas schema stack = Inr r"
  "resolve_property n schemas p stack = Inr r \<Longrightarrow> n \<le> m \<Longrightarrow> resolve_property m schemas p stack = Inr r"
  using resolve_Suc by (induction m) (auto simp: le_Suc_eq)

section \<open>Placeholders\<close>

lemma size_sget: "sget j k = Some v \<Longrightarrow> size v < size j"
  using size_included by (auto simp: sget_def split: json.splits)

lemma size_property: "sget j ''properties'' = Some (JDict ps) \<Longrightarrow> (k, p) \<in> set ps \<Longrightarrow> size p < size j"
  using size_sget [of j "''properties''" "JDict ps"] size_field [of k p ps] by simp

lemma size_items: "type_of j = Some t \<Longrightarrow> size (sdict j ''items'') < size j"
proof (cases "sget j ''items''")
  case None
  assume "type_of j = Some t"
  then obtain d where d: "j = JDict d" by (cases j) (auto simp: type_of_def sget_def)
  moreover have "d \<noteq> []" using \<open>type_of j = Some t\<close> by (auto simp: type_of_def sget_def d)
  ultimately show ?thesis using None by (cases d) (simp_all add: sdict_def)
qed (simp add: sdict_def size_sget)

text \<open>No placeholder is left where the expansion looks: in the properties of objects, the items of arrays and the alternatives.\<close>

function expanded :: "json \<Rightarrow> bool" where
  "expanded j \<longleftrightarrow>
     (if type_of j = Some ''object'' then \<not> is_shallow (title_of j) \<and>
        (case sget j ''properties'' of Some (JDict ps) \<Rightarrow> \<forall>(k, p) \<in> set ps. expanded p | _ \<Rightarrow> True)
      else if type_of j = Some ''array'' then expanded (sdict j ''items'')
      else (case branches j of Some bs \<Rightarrow> \<forall>b \<in> set bs. type_of b = Some ''boolean'' \<or> expanded b | None \<Rightarrow> True))"
  by pat_completeness auto
termination
  by (relation "measure size") (auto intro: size_property size_items size_branch)

declare expanded.simps [simp del]

text \<open>The titles of all objects in a schema; the dictionary of the properties is none.\<close>

definition own_title :: "json \<Rightarrow> string list" where
  "own_title j = (if type_of j = Some ''object'' then (case title_of j of Some t \<Rightarrow> [t] | None \<Rightarrow> []) else [])"

fun object_titles :: "json \<Rightarrow> string list" where
  "object_titles (JDict d) = own_title (JDict d) @
     concat (map (\<lambda>(k, v).
       case v of JDict ps \<Rightarrow> if k = ''properties'' then concat (map (\<lambda>(_, p). object_titles p) ps) else object_titles v
       | _ \<Rightarrow> object_titles v) d)"
| "object_titles (JList xs) = concat (map object_titles xs)"
| "object_titles _ = []"

text \<open>
  The schemas that a title can refer to, and those that are expanded, are objects with a title that
  is no placeholder.
\<close>

definition sound_schemas :: "string list \<Rightarrow> string list \<Rightarrow> dict \<Rightarrow> bool" where
  "sound_schemas T names schemas \<longleftrightarrow>
     (\<forall>n s. map_of schemas n = Some s \<longrightarrow> set (object_titles s) \<subseteq> set T \<and>
        (n \<in> set T \<or> n \<in> base_title ` set T \<or> n \<in> set names \<longrightarrow>
           type_of s = Some ''object'' \<and> (\<exists>t. title_of s = Some t \<and> \<not> ends_with t ''Shallow'')))"

definition good :: "string list \<Rightarrow> json \<Rightarrow> bool" where
  "good T x \<longleftrightarrow> expanded x \<and> set (object_titles x) \<subseteq> set T"

definition entry_titles :: "string \<Rightarrow> json \<Rightarrow> string set" where
  "entry_titles k v = (case v of
       JDict ps \<Rightarrow> if k = ''properties'' then \<Union>((\<lambda>(_, p). set (object_titles p)) ` set ps) else set (object_titles v)
     | _ \<Rightarrow> set (object_titles v))"

lemma titles_dict: "set (object_titles (JDict d)) = set (own_title (JDict d)) \<union> (\<Union>(k, v) \<in> set d. entry_titles k v)"
proof -
  have "set (case v of JDict ps \<Rightarrow> if k = ''properties'' then concat (map (\<lambda>(_, p). object_titles p) ps) else object_titles v
       | _ \<Rightarrow> object_titles v) = entry_titles k v" for k v
    by (cases v) (auto simp: entry_titles_def simp del: object_titles.simps(1))
  then show ?thesis unfolding object_titles.simps(1) by (simp add: split_beta)
qed

declare object_titles.simps(1) [simp del]

lemma titles_sget: "sget j k = Some v \<Longrightarrow> entry_titles k v \<subseteq> set (object_titles j)"
proof -
  assume "sget j k = Some v"
  then obtain d where "j = JDict d" "(k, v) \<in> set d" by (auto simp: sget_def split: json.splits dest: map_of_SomeD)
  then show ?thesis unfolding \<open>j = JDict d\<close> titles_dict by blast
qed

lemma entry_titles_other: "k \<noteq> ''properties'' \<Longrightarrow> entry_titles k v = set (object_titles v)"
  by (simp add: entry_titles_def split: json.split)

lemma titles_property:
  "sget j ''properties'' = Some (JDict ps) \<Longrightarrow> (k, p) \<in> set ps \<Longrightarrow> set (object_titles p) \<subseteq> set (object_titles j)"
  using titles_sget [of j "''properties''" "JDict ps"] by (auto simp: entry_titles_def)

lemma titles_items: "set (object_titles (sdict j ''items'')) \<subseteq> set (object_titles j)"
proof (cases "sget j ''items''")
  case None
  have "object_titles (JDict []) = []" by (simp add: object_titles.simps(1) own_title_def type_of_def sget_def)
  then show ?thesis by (simp add: sdict_def None)
next
  case (Some v)
  then show ?thesis using titles_sget [OF Some] by (simp add: sdict_def entry_titles_other)
qed

lemma titles_branch: "branches j = Some bs \<Longrightarrow> b \<in> set bs \<Longrightarrow> set (object_titles b) \<subseteq> set (object_titles j)"
proof -
  assume "branches j = Some bs" "b \<in> set bs"
  then have "sget j ''oneOf'' = Some (JList bs)" by (auto simp: branches_def split: option.splits json.splits)
  from titles_sget [OF this, unfolded entry_titles_def] \<open>b \<in> set bs\<close> show "set (object_titles b) \<subseteq> set (object_titles j)" by auto
qed

lemma title_in_titles: "type_of j = Some ''object'' \<Longrightarrow> title_of j = Some t \<Longrightarrow> t \<in> set (object_titles j)"
  by (cases j) (simp_all add: titles_dict own_title_def, simp_all add: type_of_def sget_def)

section \<open>Replaced entries\<close>

lemma sget_with_entry:
  "sget j k' \<noteq> None \<Longrightarrow> sget (with_entry k v j) k'' = (if k'' = k then Some v else sget j k'')"
  by (cases j) (auto simp: sget_def with_entry_def update_conv')

lemma set_update_subset: "set (AList.update k v d) \<subseteq> insert (k, v) (set d)"
  by (induction d) auto

lemma titles_with_entry:
  assumes "k \<noteq> ''type''" "k \<noteq> ''title''"
  shows "set (object_titles (with_entry k v j)) \<subseteq> set (object_titles j) \<union> entry_titles k v"
proof (cases j)
  case (JDict d)
  have own: "own_title (JDict (AList.update k v d)) = own_title (JDict d)"
    using assms by (simp add: own_title_def type_of_def title_of_def sget_def update_conv')
  have upd: "(\<Union>(k, v) \<in> set (AList.update k v d). entry_titles k v) \<subseteq> entry_titles k v \<union> (\<Union>(k, v) \<in> set d. entry_titles k v)"
    using UN_mono [OF set_update_subset [of k v d] subset_refl, of "\<lambda>(k, v). entry_titles k v"] by simp
  have "set (object_titles (with_entry k v j)) = set (own_title (JDict d)) \<union> (\<Union>(k, v) \<in> set (AList.update k v d). entry_titles k v)"
    unfolding JDict with_entry_def json.case titles_dict own ..
  also have "\<dots> \<subseteq> set (own_title (JDict d)) \<union> (entry_titles k v \<union> (\<Union>(k, v) \<in> set d. entry_titles k v))"
    by (rule Un_mono [OF subset_refl upd])
  also have "\<dots> = set (object_titles j) \<union> entry_titles k v" unfolding JDict titles_dict by (simp only: Un_ac)
  finally show ?thesis .
qed (simp_all add: with_entry_def)

section \<open>The expansion ends without placeholders\<close>

lemma good_disabled: "good T disabled_nested_obj"
proof -
  have "object_titles disabled_nested_obj = []" by code_simp
  moreover have "expanded disabled_nested_obj" by code_simp
  ultimately show ?thesis by (simp add: good_def)
qed

lemma good_cycle: "cycle_result stack = Some x \<Longrightarrow> good T x"
  using good_disabled by (auto simp: cycle_result_def split: if_splits)

text \<open>A step of the expansion ends with a result that is sound.\<close>

definition resolves :: "string list \<Rightarrow> (nat \<Rightarrow> json option res) \<Rightarrow> bool" where
  "resolves T f \<longleftrightarrow> (\<exists>n r. f n = Inr r \<and> (\<forall>x. r = Some x \<longrightarrow> good T x))"

lemma props_resolved:
  assumes "\<forall>(k, p) \<in> set ps. resolves T (\<lambda>n. resolve_property n schemas p st)"
  shows "\<exists>n rs. map_res (\<lambda>(k, p). bindR (resolve_property n schemas p st) (\<lambda>r. Inr (k, r))) ps = Inr rs \<and>
    (\<forall>(k, x) \<in> set (keep_resolved rs). good T x)"
  using assms
proof (induction ps)
  case (Cons kp ps)
  obtain k p where kp: "kp = (k, p)" by (cases kp)
  obtain n r where n: "resolve_property n schemas p st = Inr r" "\<forall>x. r = Some x \<longrightarrow> good T x"
    using Cons.prems by (auto simp: kp resolves_def)
  obtain m rs where m: "map_res (\<lambda>(k, p). bindR (resolve_property m schemas p st) (\<lambda>r. Inr (k, r))) ps = Inr rs" "\<forall>(k, x) \<in> set (keep_resolved rs). good T x"
    using Cons by auto
  have "map_res (\<lambda>(k, p). bindR (resolve_property (max n m) schemas p st) (\<lambda>r. Inr (k, r))) ps = Inr rs"
    using m(1) by (rule map_res_mono) (auto simp: bindR_eq_Inr resolve_mono(2) [OF _ max.cobounded2])
  moreover have "resolve_property (max n m) schemas p st = Inr r" using n(1) by (rule resolve_mono) simp
  ultimately have "map_res (\<lambda>(k, p). bindR (resolve_property (max n m) schemas p st) (\<lambda>r. Inr (k, r))) (kp # ps) = Inr ((k, r) # rs)"
    by (simp add: kp)
  moreover have "\<forall>(k, x) \<in> set (keep_resolved ((k, r) # rs)). good T x"
    using n(2) m(2) by (auto simp: keep_resolved_def split: option.splits)
  ultimately show ?case by blast
qed (auto simp: keep_resolved_def)

lemma schema_resolved:
  assumes "type_of schema = Some ''object''" "\<not> is_shallow (title_of schema)" "set (object_titles schema) \<subseteq> set T"
    and "entered schema stack = Some st"
    and "\<And>ps k p. sget schema ''properties'' = Some (JDict ps) \<Longrightarrow> (k, p) \<in> set ps \<Longrightarrow> resolves T (\<lambda>n. resolve_property n schemas p st)"
  shows "\<exists>n x. resolve_schema n schemas schema stack = Inr (Some x) \<and> good T x \<and> type_of x = type_of schema \<and> title_of x = title_of schema"
proof (cases "\<exists>ps. sget schema ''properties'' = Some (JDict ps)")
  case True
  then obtain ps where ps: "sget schema ''properties'' = Some (JDict ps)" by blast
  obtain n rs where n: "map_res (\<lambda>(k, p). bindR (resolve_property n schemas p st) (\<lambda>r. Inr (k, r))) ps = Inr rs"
      "\<forall>(k, x) \<in> set (keep_resolved rs). good T x"
    using props_resolved [of ps T schemas st] assms(5) [OF ps] by blast
  let ?x = "with_entry ''properties'' (JDict (keep_resolved rs)) schema"
  have "resolve_schema (Suc n) schemas schema stack = Inr (Some ?x)" using n(1) ps assms(4) by (simp add: resolve_schema.simps(2))
  moreover have entries: "sget ?x k = (if k = ''properties'' then Some (JDict (keep_resolved rs)) else sget schema k)" for k
    using sget_with_entry [of schema "''properties''"] ps by simp
  then have same: "type_of ?x = type_of schema" "title_of ?x = title_of schema" by (simp_all add: type_of_def title_of_def)
  moreover have "entry_titles ''properties'' (JDict (keep_resolved rs)) \<subseteq> set T"
    using n(2) by (fastforce simp: good_def entry_titles_def)
  then have "set (object_titles ?x) \<subseteq> set T" using titles_with_entry [of "''properties''" "JDict (keep_resolved rs)" schema] assms(3) by auto
  moreover have "expanded ?x" unfolding expanded.simps [of ?x] using same assms(1,2) n(2) by (auto simp: entries good_def)
  ultimately show ?thesis unfolding good_def by blast
next
  case False
  then have "resolve_schema (Suc 0) schemas schema stack = Inr (Some schema)"
    using assms(4) by (auto simp: resolve_schema.simps(2) split: option.splits json.splits)
  moreover have "expanded schema" unfolding expanded.simps [of schema] using assms(1,2) False by (auto split: option.splits json.splits)
  ultimately show ?thesis using assms(3) unfolding good_def by blast
qed

lemma resolvesI: "f n = Inr r \<Longrightarrow> (\<And>x. r = Some x \<Longrightarrow> good T x) \<Longrightarrow> resolves T f"
  unfolding resolves_def by blast

text \<open>A schema with a title that is not on the stack leaves fewer titles to its properties.\<close>

lemma titled_resolved:
  assumes "type_of s = Some ''object''" "title_of s = Some t" "\<not> ends_with t ''Shallow''" "set (object_titles s) \<subseteq> set T"
    and "\<And>p st. card (set T - set st) < card (set T - set stack) \<Longrightarrow> set (object_titles p) \<subseteq> set T \<Longrightarrow> st \<noteq> [] \<Longrightarrow>
      resolves T (\<lambda>n. resolve_property n schemas p st)"
  shows "resolves T (\<lambda>n. resolve_schema n schemas s stack)"
proof (cases "t \<in> set stack")
  case True
  then have "resolve_schema (Suc 0) schemas s stack = Inr (cycle_result stack)"
    using assms(2) by (simp add: resolve_schema.simps(2) entered_def)
  then show ?thesis by (rule resolvesI) (rule good_cycle)
next
  case False
  have "t \<in> set T" using title_in_titles [OF assms(1,2)] assms(4) by blast
  with False have smaller: "card (set T - set (stack @ [t])) < card (set T - set stack)" by (intro psubset_card_mono) auto
  have "entered s stack = Some (stack @ [t])" using False assms(2) by (simp add: entered_def)
  moreover have "\<not> is_shallow (title_of s)" using assms(2,3) by (simp add: is_shallow_def)
  moreover have "resolves T (\<lambda>n. resolve_property n schemas p (stack @ [t]))" if "sget s ''properties'' = Some (JDict ps)" "(k, p) \<in> set ps" for ps k p
    using titles_property [OF that] assms(4) by (intro assms(5) smaller) auto
  ultimately show ?thesis using schema_resolved [OF assms(1) _ assms(4)] by (blast intro: resolvesI)
qed

lemma alternatives_resolved:
  assumes "\<forall>b \<in> set bs. type_of b \<noteq> Some ''boolean'' \<longrightarrow> resolves T (\<lambda>n. resolve_property n schemas b st)"
    and "\<forall>b \<in> set bs. set (object_titles b) \<subseteq> set T"
  shows "\<exists>n rs. map_res (\<lambda>b. if type_of b = Some ''boolean'' then Inr (Some b) else resolve_property n schemas b st) bs = Inr rs \<and>
    (\<forall>x. Some x \<in> set rs \<longrightarrow> set (object_titles x) \<subseteq> set T \<and> (type_of x \<noteq> Some ''boolean'' \<longrightarrow> good T x))"
  using assms
proof (induction bs)
  case (Cons b bs)
  obtain n r where n: "(if type_of b = Some ''boolean'' then Inr (Some b) else resolve_property n schemas b st) = Inr r"
      "\<forall>x. r = Some x \<longrightarrow> set (object_titles x) \<subseteq> set T \<and> (type_of x \<noteq> Some ''boolean'' \<longrightarrow> good T x)"
    using Cons.prems by (cases "type_of b = Some ''boolean''") (auto simp: resolves_def good_def)
  obtain m rs where m: "map_res (\<lambda>b. if type_of b = Some ''boolean'' then Inr (Some b) else resolve_property m schemas b st) bs = Inr rs"
      "\<forall>x. Some x \<in> set rs \<longrightarrow> set (object_titles x) \<subseteq> set T \<and> (type_of x \<noteq> Some ''boolean'' \<longrightarrow> good T x)"
    using Cons by auto
  have "map_res (\<lambda>b. if type_of b = Some ''boolean'' then Inr (Some b) else resolve_property (max n m) schemas b st) bs = Inr rs"
    using m(1) by (rule map_res_mono) (auto split: if_splits simp: resolve_mono(2) [OF _ max.cobounded2])
  moreover have "(if type_of b = Some ''boolean'' then Inr (Some b) else resolve_property (max n m) schemas b st) = Inr r"
    using n(1) by (auto split: if_splits simp: resolve_mono(2) [OF _ max.cobounded1])
  ultimately have "map_res (\<lambda>b. if type_of b = Some ''boolean'' then Inr (Some b) else resolve_property (max n m) schemas b st) (b # bs) = Inr (r # rs)"
    by simp
  then show ?case using n(2) m(2) by (intro exI [of _ "max n m"] exI [of _ "r # rs"]) auto
qed auto

lemma kept_alternatives:
  assumes "branch_results stack rs = Inr bs'" "x \<in> set bs'"
  shows "Some x \<in> set rs \<or> x = disabled_nested_obj"
  using assms by (auto simp: branch_results_def split: if_splits option.splits)

text \<open>What an object stands for is itself, or a schema of its own that its title refers to.\<close>

lemma object_target_cases:
  assumes "sound_schemas T names schemas" "set (object_titles p) \<subseteq> set T" "type_of p = Some ''object''"
    and "object_target schemas p stack = Inr s"
  obtains (titled) t where "type_of s = Some ''object''" "title_of s = Some t" "\<not> ends_with t ''Shallow''" "set (object_titles s) \<subseteq> set T"
  | (untitled) "s = p" "title_of p = None"
proof (cases "title_of p")
  case None
  then show ?thesis using assms(4) untitled by (simp add: object_target_def)
next
  case (Some t)
  have t: "t \<in> set T" using title_in_titles [OF assms(3) Some] assms(2) by blast
  have own: thesis if "map_of schemas n = Some s" "n = t \<or> n = base_title t" for n
  proof -
    have "n \<in> set T \<or> n \<in> base_title ` set T" using that(2) t by blast
    with assms(1) that(1) obtain u where "type_of s = Some ''object''" "title_of s = Some u" "\<not> ends_with u ''Shallow''" "set (object_titles s) \<subseteq> set T"
      unfolding sound_schemas_def by blast
    then show thesis by (rule titled)
  qed
  show ?thesis
  proof (cases "ends_with t ''Shallow''")
    case True
    then show ?thesis using Some assms(4) own [of "base_title t"] by (auto simp: object_target_def split: if_splits option.splits)
  next
    case False
    then show ?thesis using Some assms own [of t] titled [of t] by (auto simp: object_target_def split: option.splits)
  qed
qed

lemma untitled_resolved:
  assumes "type_of p = Some ''object''" "title_of p = None" "set (object_titles p) \<subseteq> set T"
    and "\<And>q. size q < size p \<Longrightarrow> set (object_titles q) \<subseteq> set T \<Longrightarrow> resolves T (\<lambda>n. resolve_property n schemas q stack)"
  shows "resolves T (\<lambda>n. resolve_schema n schemas p stack)"
proof -
  have "entered p stack = Some stack" using assms(2) by (simp add: entered_def)
  moreover have "\<not> is_shallow (title_of p)" using assms(2) by (simp add: is_shallow_def)
  moreover have "resolves T (\<lambda>n. resolve_property n schemas q stack)" if "sget p ''properties'' = Some (JDict ps)" "(k, q) \<in> set ps" for ps k q
    using size_property [OF that] titles_property [OF that] assms(3) by (intro assms(4)) auto
  ultimately show ?thesis using schema_resolved [OF assms(1) _ assms(3)] by (blast intro: resolvesI)
qed

lemma array_resolved:
  assumes "type_of p = Some ''array''" "set (object_titles p) \<subseteq> set T" "resolves T (\<lambda>n. resolve_property n schemas (sdict p ''items'') stack)"
  shows "resolves T (\<lambda>n. resolve_property n schemas p stack)"
proof -
  obtain n r where n: "resolve_property n schemas (sdict p ''items'') stack = Inr r" "\<forall>x. r = Some x \<longrightarrow> good T x"
    using assms(3) unfolding resolves_def by blast
  have run: "resolve_property (Suc n) schemas p stack = Inr (map_option (\<lambda>x. with_entry ''items'' x p) r)"
    using n(1) assms(1) by (simp add: resolve_property.simps(2) [of n _ p])
  have "good T (with_entry ''items'' x p)" if "r = Some x" for x
  proof -
    have x: "good T x" using n(2) that by blast
    have entries: "sget (with_entry ''items'' x p) k = (if k = ''items'' then Some x else sget p k)" for k
      using sget_with_entry [of p "''type''" "''items''" x k] assms(1) by (auto simp: type_of_def split: option.splits)
    have "type_of (with_entry ''items'' x p) = Some ''array''" using assms(1) by (simp add: type_of_def entries)
    moreover have "sdict (with_entry ''items'' x p) ''items'' = x" by (simp add: sdict_def entries)
    moreover have "set (object_titles (with_entry ''items'' x p)) \<subseteq> set T"
      using titles_with_entry [of "''items''" x p] x assms(2) by (auto simp: entry_titles_other good_def)
    ultimately show ?thesis using x unfolding good_def expanded.simps [of "with_entry ''items'' x p"] by simp
  qed
  then show ?thesis unfolding resolves_def by (intro exI [of _ "Suc n"]) (auto simp: run)
qed

lemma oneof_resolved:
  assumes "type_of p \<noteq> Some ''object''" "type_of p \<noteq> Some ''array''" "branches p = Some bs" "set (object_titles p) \<subseteq> set T" "stack \<noteq> []"
    and "\<And>b. b \<in> set bs \<Longrightarrow> resolves T (\<lambda>n. resolve_property n schemas b stack)"
  shows "resolves T (\<lambda>n. resolve_property n schemas p stack)"
proof -
  obtain n rs where n: "map_res (\<lambda>b. if type_of b = Some ''boolean'' then Inr (Some b) else resolve_property n schemas b stack) bs = Inr rs"
      "\<forall>x. Some x \<in> set rs \<longrightarrow> set (object_titles x) \<subseteq> set T \<and> (type_of x \<noteq> Some ''boolean'' \<longrightarrow> good T x)"
    using alternatives_resolved [of bs T schemas stack] assms(4,6) titles_branch [OF assms(3)] by blast
  obtain bs' where bs': "branch_results stack rs = Inr bs'" using assms(5) by (simp add: branch_results_def)
  let ?x = "with_entry ''oneOf'' (JList bs') p"
  have run: "resolve_property (Suc n) schemas p stack = Inr (Some ?x)"
    using n(1) bs' assms(1,2,3) by (simp add: resolve_property.simps(2) [of n _ p])
  have alts: "set (object_titles b) \<subseteq> set T" "type_of b = Some ''boolean'' \<or> expanded b" if "b \<in> set bs'" for b
    using kept_alternatives [OF bs' that] n(2) good_disabled [of T] by (auto simp: good_def)
  have "sget p ''oneOf'' \<noteq> None" using assms(3) by (auto simp: branches_def split: option.splits)
  then have entries: "sget ?x k = (if k = ''oneOf'' then Some (JList bs') else sget p k)" for k by (rule sget_with_entry)
  have "type_of ?x = type_of p" by (simp add: type_of_def entries)
  moreover have "branches ?x = Some bs'" by (simp add: branches_def entries)
  moreover have "set (object_titles ?x) \<subseteq> set T"
    using titles_with_entry [of "''oneOf''" "JList bs'" p] assms(4) alts(1) by (fastforce simp: entry_titles_other)
  ultimately have "good T ?x" using assms(1,2) alts(2) unfolding good_def expanded.simps [of ?x] by simp
  then show ?thesis unfolding resolves_def by (intro exI [of _ "Suc n"]) (auto simp: run)
qed

lemma property_resolved:
  assumes sound: "sound_schemas T names schemas" and "set (object_titles p) \<subseteq> set T" "stack \<noteq> []"
  shows "resolves T (\<lambda>n. resolve_property n schemas p stack)"
  using assms(2,3)
proof (induction "card (set T - set stack)" arbitrary: p stack rule: less_induct)
  case (less stack)
  note fewer = less.hyps
  from less.prems show ?case
  proof (induction "size p" arbitrary: p rule: less_induct)
    case (less p)
    note smaller = less.hyps and prems = less.prems
    consider (object) "type_of p = Some ''object''" | (array) "type_of p = Some ''array''"
      | (other) "type_of p \<noteq> Some ''object''" "type_of p \<noteq> Some ''array''" by blast
    then show ?case
    proof cases
      case object
      have target: "resolves T (\<lambda>n. resolve_schema n schemas s stack)" if "object_target schemas p stack = Inr s" for s
      proof (rule object_target_cases [OF sound prems(1) object that])
        assume "s = p" "title_of p = None"
        then show ?thesis using untitled_resolved [OF object _ prems(1)] smaller prems(2) by blast
      qed (use titled_resolved fewer in blast)
      show ?thesis
      proof (cases "object_target schemas p stack")
        case (Inl r)
        then have "resolve_property (Suc 0) schemas p stack = Inr r" using object by (simp add: resolve_property.simps(2))
        moreover have "good T x" if "r = Some x" for x
          using Inl that good_cycle by (auto simp: object_target_def split: option.splits if_splits)
        ultimately show ?thesis unfolding resolves_def by blast
      next
        case (Inr s)
        obtain n r where n: "resolve_schema n schemas s stack = Inr r" "\<forall>x. r = Some x \<longrightarrow> good T x"
          using target [OF Inr] unfolding resolves_def by blast
        then have "resolve_property (Suc n) schemas p stack = Inr r" using object Inr by (simp add: resolve_property.simps(2))
        then show ?thesis using n(2) unfolding resolves_def by blast
      qed
    next
      case array
      show ?thesis
        using smaller [OF size_items [OF array]] titles_items [of p] prems by (intro array_resolved [OF array]) auto
    next
      case other
      show ?thesis
      proof (cases "branches p")
        case None
        then have run: "resolve_property (Suc 0) schemas p stack = Inr (Some p)" using other by (simp add: resolve_property.simps(2))
        have "good T p" using None other prems(1) unfolding good_def expanded.simps [of p] by simp
        then show ?thesis using run unfolding resolves_def by blast
      next
        case (Some bs)
        have "resolves T (\<lambda>n. resolve_property n schemas b stack)" if "b \<in> set bs" for b
          using smaller [of b] size_branch [OF Some that] titles_branch [OF Some that] prems by blast
        then show ?thesis by (rule oneof_resolved [OF other Some prems])
      qed
    qed
  qed
qed

section \<open>All schemas\<close>

lemma entry_resolved:
  assumes "sound_schemas T names schemas" "map_of schemas name = Some s" "name \<in> set names"
  shows "\<exists>n x. resolve_schema n schemas s [] = Inr (Some x) \<and> good T x \<and> type_of x = Some ''object'' \<and>
    (\<exists>t. title_of x = Some t \<and> \<not> ends_with t ''Shallow'')"
proof -
  obtain t where s: "type_of s = Some ''object''" "title_of s = Some t" "\<not> ends_with t ''Shallow''" "set (object_titles s) \<subseteq> set T"
    using assms unfolding sound_schemas_def by blast
  have "entered s [] = Some [t]" using s(2) by (simp add: entered_def)
  moreover have "\<not> is_shallow (title_of s)" using s(2,3) by (simp add: is_shallow_def)
  moreover have "resolves T (\<lambda>n. resolve_property n schemas p [t])" if "sget s ''properties'' = Some (JDict ps)" "(k, p) \<in> set ps" for ps k p
    using titles_property [OF that] s(4) by (intro property_resolved [OF assms(1)]) auto
  ultimately show ?thesis using schema_resolved [OF s(1) _ s(4)] s by metis
qed

lemma sound_update:
  assumes "sound_schemas T names schemas" "good T x" "type_of x = Some ''object''" "title_of x = Some t" "\<not> ends_with t ''Shallow''"
  shows "sound_schemas T names (AList.update name x schemas)"
  using assms unfolding sound_schemas_def good_def by (auto simp: update_conv')

lemma expand_all_mono:
  assumes "n \<le> m"
  shows "expand_all n names schemas = Inr r \<Longrightarrow> expand_all m names schemas = Inr r"
proof (induction names arbitrary: schemas)
  case (Cons name names)
  then show ?case
    by (cases "map_of schemas name") (auto simp: bindR_eq_Inr dest: resolve_mono(1) [OF _ assms])
qed simp

lemma expand_all_ends:
  assumes "sound_schemas T names schemas" "set order \<subseteq> set names"
    and "\<And>name s. name \<in> expanded_names \<Longrightarrow> map_of schemas name = Some s \<Longrightarrow> expanded s"
  shows "\<exists>n schemas'. expand_all n order schemas = Inr schemas' \<and> sound_schemas T names schemas' \<and>
    dom (map_of schemas') = dom (map_of schemas) \<and>
    (\<forall>name s. name \<in> expanded_names \<union> set order \<longrightarrow> map_of schemas' name = Some s \<longrightarrow> expanded s)"
  using assms
proof (induction order arbitrary: schemas expanded_names)
  case Nil
  then show ?case by auto
next
  case (Cons name order)
  show ?case
  proof (cases "map_of schemas name")
    case None
    obtain n schemas' where "expand_all n order schemas = Inr schemas'" "sound_schemas T names schemas'" "dom (map_of schemas') = dom (map_of schemas)"
        "\<forall>name s. name \<in> expanded_names \<union> set order \<longrightarrow> map_of schemas' name = Some s \<longrightarrow> expanded s"
      using Cons.IH [of schemas expanded_names] Cons.prems by auto
    moreover have "map_of schemas' name = None" using None calculation(3) by (metis domIff)
    ultimately show ?thesis using None by (intro exI [of _ n] exI [of _ schemas']) auto
  next
    case (Some s)
    obtain n x t where x: "resolve_schema n schemas s [] = Inr (Some x)" "good T x" "type_of x = Some ''object''" "title_of x = Some t" "\<not> ends_with t ''Shallow''"
      using entry_resolved [OF Cons.prems(1) Some] Cons.prems(2) by auto
    let ?schemas = "AList.update name x schemas"
    have "\<And>m s. m \<in> insert name expanded_names \<Longrightarrow> map_of ?schemas m = Some s \<Longrightarrow> expanded s"
      using Cons.prems(3) x(2) by (auto simp: update_conv' good_def split: if_splits)
    then obtain m schemas' where m: "expand_all m order ?schemas = Inr schemas'" "sound_schemas T names schemas'"
        "dom (map_of schemas') = dom (map_of ?schemas)"
        "\<forall>k s. k \<in> insert name expanded_names \<union> set order \<longrightarrow> map_of schemas' k = Some s \<longrightarrow> expanded s"
      using Cons.IH [OF sound_update [OF Cons.prems(1) x(2-5)], of "insert name expanded_names" name] Cons.prems(2) by auto
    have "expand_all (max n m) (name # order) schemas = Inr schemas'"
      using Some expand_all_mono [OF max.cobounded2 m(1), of n] resolve_mono(1) [OF x(1), of "max n m"] by simp
    then show ?thesis using m(2-4) Some by (intro exI [of _ "max n m"] exI [of _ schemas']) (auto simp: update_conv')
  qed
qed

end
