(* ===== verification/Param_Properties.thy ===== *)
theory Param_Properties
  imports Spec_Expansion
begin

text \<open>
  What the parsing and validation of query parameters guarantees to the handlers: an accepted include never
  makes a response fail, accepted filters build a statement, and the expansion of the specification ends;
  and which requests fail although they should not.
\<close>

section \<open>Includes\<close>

lemma map_res_exists: "(\<And>x. x \<in> set xs \<Longrightarrow> \<exists>y. f x = Inr y) \<Longrightarrow> \<exists>ys. map_res f xs = Inr ys"
  by (induction xs) (auto simp: bindR_eq_Inr)

lemma merge_include_total:
  "(\<exists>ms. merge_include ts (Some ov) = Inr ms) \<longleftrightarrow>
   (\<forall>k en sub d. (k, INode en sub) \<in> set ts \<longrightarrow> map_of ov k = Some (JDict d) \<longrightarrow>
      (\<exists>ts' ms. sub = Some ts' \<and> merge_include ts' (Some d) = Inr ms))"
proof (induction ts)
  case (Cons t ts)
  obtain k en sub where t: "t = (k, INode en sub)" by (metis include_node.exhaust surj_pair)
  have here: "(\<exists>here. (case map_of ov k of None \<Rightarrow> Inr [(k, INode en sub)] | Some (JBool b) \<Rightarrow> Inr [(k, INode (JBool b) sub)]
        | Some (JDict d) \<Rightarrow> (case sub of Some ts \<Rightarrow> bindR (merge_include ts (Some d)) (\<lambda>merged. Inr [(k, INode (JBool True) (Some merged))])
             | None \<Rightarrow> Inl (PyExc ''AttributeError''))
        | Some _ \<Rightarrow> Inr []) = Inr here) \<longleftrightarrow>
      (\<forall>d. map_of ov k = Some (JDict d) \<longrightarrow> (\<exists>ts' ms. sub = Some ts' \<and> merge_include ts' (Some d) = Inr ms))"
    by (auto simp: bindR_eq_Inr split: option.splits json.splits)
  show ?case unfolding t merge_include.simps append_res_Inr using here Cons.IH by (auto 4 4)
qed simp

text \<open>
  The schema of an include: no placeholder is left, the properties are dictionaries, and each choice offers at
  most one object.
\<close>

function include_schema :: "dict \<Rightarrow> bool" where
  "include_schema d \<longleftrightarrow> \<not> is_shallow (title_of (JDict d)) \<and>
     (\<forall>(k, p) \<in> set (properties_of d).
        case p of
          JDict sd \<Rightarrow>
            (case map_of sd ''oneOf'' of
               Some (JList alts) \<Rightarrow>
                 (\<forall>a \<in> set alts. \<forall>b \<in> set alts. of_type ''object'' a \<and> of_type ''object'' b \<longrightarrow> a = b) \<and>
                 include_schema (the_dict (find (of_type ''object'') alts))
             | _ \<Rightarrow> True)
        | _ \<Rightarrow> False)"
  by pat_completeness auto
termination
  by (relation "measure (\<lambda>d. size (JDict d))") (use size_alternatives in \<open>auto simp del: json.size\<close>)

declare include_schema.simps [simp del]

lemma include_schema_extracts: "include_schema d \<Longrightarrow> \<exists>ts. extract_default_include d = Inr ts"
proof (induction d rule: include_schema.induct)
  case (1 d)
  have title: "\<not> (case dget_or d ''title'' (JStr []) of JStr t \<Rightarrow> ends_with t ''Shallow'' | _ \<Rightarrow> False)"
    using "1.prems" unfolding include_schema.simps [of d]
    by (auto simp: is_shallow_def title_of_def sget_def dget_or_def ends_with_def split: option.splits json.splits)
  have "\<exists>found. (case p of
            JDict sd \<Rightarrow>
              if of_type ''boolean'' p then Inr [(k, INode (default_of p) None)]
              else (case map_of sd ''oneOf'' of
                  Some (JList alts) \<Rightarrow>
                    bindR (extract_default_include (the_dict (find (of_type ''object'') alts))) (\<lambda>nested.
                      Inr [(k, INode (case find (of_type ''boolean'') alts of Some b \<Rightarrow> default_of b | None \<Rightarrow> JBool False) (Some nested))])
                | _ \<Rightarrow> Inr [])
          | _ \<Rightarrow> Inl (PyExc ''AttributeError'')) = Inr found" if "(k, p) \<in> set (properties_of d)" for k p
  proof -
    have here: "case p of
          JDict sd \<Rightarrow>
            (case map_of sd ''oneOf'' of
               Some (JList alts) \<Rightarrow> include_schema (the_dict (find (of_type ''object'') alts))
             | _ \<Rightarrow> True)
        | _ \<Rightarrow> False"
      using "1.prems" that unfolding include_schema.simps [of d] by (fastforce split: json.splits option.splits)
    then obtain sd where p: "p = JDict sd" by (cases p) auto
    from here "1.IH" [OF that HOL.refl p] show ?thesis by (auto simp: p split: option.splits json.splits)
  qed
  then show ?case unfolding extract_default_include.simps [of d] using title
    by (auto intro!: map_res_exists simp: bindR_eq_Inr)
qed

lemma type_of_iff: "type_of j = Some t \<longleftrightarrow> of_type t j"
  by (cases j) (auto simp: type_of_def of_type_def sget_def dget_def dget_or_def split: option.splits json.splits)

lemma extracted_node:
  assumes "extract_default_include d = Inr ts" "(k, INode en sub) \<in> set ts"
  shows "\<exists>sd. (k, JDict sd) \<in> set (properties_of d) \<and>
    (of_type ''boolean'' (JDict sd) \<and> sub = None \<or>
     \<not> of_type ''boolean'' (JDict sd) \<and> (\<exists>alts nested. map_of sd ''oneOf'' = Some (JList alts) \<and>
       extract_default_include (the_dict (find (of_type ''object'') alts)) = Inr nested \<and> sub = Some nested))"
proof -
  have "d \<noteq> []" using assms by (auto simp: extract_default_include.simps)
  with assms(1) obtain found where f: "map_res (\<lambda>(name, schema). case schema of
            JDict sd \<Rightarrow>
              if of_type ''boolean'' schema then Inr [(name, INode (default_of schema) None)]
              else (case map_of sd ''oneOf'' of
                  Some (JList alts) \<Rightarrow>
                    bindR (extract_default_include (the_dict (find (of_type ''object'') alts))) (\<lambda>nested.
                      Inr [(name, INode (case find (of_type ''boolean'') alts of Some b \<Rightarrow> default_of b | None \<Rightarrow> JBool False) (Some nested))])
                | _ \<Rightarrow> Inr [])
          | _ \<Rightarrow> Inl (PyExc ''AttributeError'')) (properties_of d) = Inr found" "ts = concat found"
    unfolding extract_default_include.simps [of d] by (auto simp: bindR_eq_Inr split: if_splits)
  from assms(2) f(2) obtain part where "part \<in> set found" "(k, INode en sub) \<in> set part" by auto
  with f(1) show ?thesis
    by (fastforce simp: map_res_set bindR_eq_Inr split: json.splits option.splits if_splits)
qed

lemma wf_entry: "json_wf (JDict d) \<Longrightarrow> (k, v) \<in> set d \<Longrightarrow> json_wf v"
  by (auto simp: list_all_iff)

lemma wf_properties: "json_wf (JDict d) \<Longrightarrow> json_wf (JDict (properties_of d))"
  unfolding properties_of_def by (auto split: option.split json.split simp del: json_wf.simps dest: wf_entry [OF _ map_of_SomeD])

lemma wf_map_of: "json_wf (JDict d) \<Longrightarrow> (k, v) \<in> set d \<Longrightarrow> map_of d k = Some v"
  by (auto intro: map_of_is_SomeI)

lemma found_in: "find P xs = Some x \<Longrightarrow> x \<in> set xs \<and> P x"
  by (induction xs) (auto split: if_splits)

lemma wf_alternatives:
  assumes "json_wf (JDict d)" "(k, JDict sd) \<in> set (properties_of d)" "map_of sd ''oneOf'' = Some (JList alts)"
  shows "json_wf (JDict (the_dict (find P alts)))"
proof -
  have "json_wf (JDict sd)" by (rule wf_entry [OF wf_properties [OF assms(1)] assms(2)])
  then have "json_wf (JList alts)" by (rule wf_entry [OF _ map_of_SomeD [OF assms(3)]])
  then have "json_wf x" if "find P alts = Some x" for x using found_in [OF that] by (simp add: list_all_iff)
  then show ?thesis by (cases "find P alts") (auto simp: the_dict_def simp del: json_wf.simps(2) split: json.split, simp_all)
qed

text \<open>What an accepted include says of a field: a nested include was accepted by the object that the field offers.\<close>

lemma accepted_nested:
  assumes "validate_include path (JDict d) (of_json (JDict inc) :: 'd qval) = Inr ()" "map_of inc k = Some (JDict e)"
    and "json_wf (JDict d)" "(k, JDict sd) \<in> set (properties_of d)"
  shows "\<not> of_type ''boolean'' (JDict sd) \<and> (\<forall>alts. map_of sd ''oneOf'' = Some (JList alts) \<longrightarrow>
    (\<exists>b. last_branch ''object'' alts = Some b \<and> validate_include (path @ [k]) b (of_json (JDict e) :: 'd qval) = Inr ()))"
proof -
  have "(k, JDict e) \<in> set inc" using assms(2) by (rule map_of_SomeD)
  then have mem: "(k, of_json (JDict e) :: 'd qval) \<in> set (map (\<lambda>(k, v). (k, of_json v)) inc)" by force
  obtain schema where schema: "sget (include_properties (JDict d)) k = Some schema"
    using assms(1) mem by (fastforce simp: for_each_Inr split: option.splits)
  then have "include_properties (JDict d) = JDict (properties_of d)"
    by (auto simp: include_properties_def properties_of_def sget_def split: option.splits json.splits)
  then have sd: "schema = JDict sd" using schema wf_map_of [OF wf_properties [OF assms(3)] assms(4)] by (simp add: sget_def)
  note here = bspec [OF iffD1 [OF for_each_Inr assms(1) [unfolded of_json.simps validate_include.simps]] mem]
  show ?thesis using here unfolding split_beta fst_conv snd_conv schema sd option.case
    by (auto simp: type_of_iff guardR_def branches_def sget_def split: option.splits if_splits)
qed

lemma accepted_include_merges:
  assumes "validate_include path (JDict d) (of_json (JDict inc) :: 'd qval) = Inr ()" "extract_default_include d = Inr ts"
    and "include_schema d" "json_wf (JDict d)"
  shows "\<exists>ms. merge_include ts (Some inc) = Inr ms"
  using assms
proof (induction "size (JDict d)" arbitrary: d path inc ts rule: less_induct)
  case (less d)
  have "\<exists>ts' ms. sub = Some ts' \<and> merge_include ts' (Some e) = Inr ms"
    if node: "(k, INode en sub) \<in> set ts" and e: "map_of inc k = Some (JDict e)" for k en sub e
  proof -
    from extracted_node [OF less.prems(2) node] obtain sd where sd: "(k, JDict sd) \<in> set (properties_of d)" and
        kinds: "of_type ''boolean'' (JDict sd) \<and> sub = None \<or>
          \<not> of_type ''boolean'' (JDict sd) \<and> (\<exists>alts nested. map_of sd ''oneOf'' = Some (JList alts) \<and>
            extract_default_include (the_dict (find (of_type ''object'') alts)) = Inr nested \<and> sub = Some nested)" by blast
    note accepted = accepted_nested [OF less.prems(1) e less.prems(4) sd]
    from accepted kinds obtain alts nested where alts: "map_of sd ''oneOf'' = Some (JList alts)"
        "extract_default_include (the_dict (find (of_type ''object'') alts)) = Inr nested" "sub = Some nested" by blast
    from accepted alts(1) obtain b where b: "last_branch ''object'' alts = Some b"
        "validate_include (path @ [k]) b (of_json (JDict e) :: 'd qval) = Inr ()" by blast
    have unique: "\<forall>a \<in> set alts. \<forall>b \<in> set alts. of_type ''object'' a \<and> of_type ''object'' b \<longrightarrow> a = b"
      and inner: "include_schema (the_dict (find (of_type ''object'') alts))"
      using less.prems(3) sd alts(1) unfolding include_schema.simps [of d] by fastforce+
    have mem: "b \<in> set alts" "of_type ''object'' b"
      using b(1) found_in [of _ "rev alts" b] by (auto simp: last_branch_def type_of_iff)
    then obtain c where "find (of_type ''object'') alts = Some c" by (cases "find (of_type ''object'') alts") (auto simp: find_None_iff)
    then have find: "find (of_type ''object'') alts = Some b" using found_in [of "of_type ''object''" alts c] mem unique by blast
    obtain bd where bd: "b = JDict bd" using \<open>of_type ''object'' b\<close> by (cases b) (auto simp: of_type_def)
    have small: "size (JDict bd) < size (JDict d)" using size_alternatives [OF sd alts(1), of "of_type ''object''"] by (simp add: find bd the_dict_def)
    have "json_wf (JDict bd)" using wf_alternatives [OF less.prems(4) sd alts(1), of "of_type ''object''"] by (simp add: find bd the_dict_def)
    from less.hyps [OF small b(2) [unfolded bd] _ _ this] alts(2,3) inner show ?thesis by (simp add: find bd the_dict_def)
  qed
  then show ?case unfolding merge_include_total by blast
qed

section \<open>Filters\<close>

text \<open>
  The schema of a filter fits the mapper of its model: a column offers conditions by the names of operators, with
  lists for membership and ordered values for comparisons, and a relationship the filter of its target.
\<close>

definition condition_fits :: "string \<times> json \<Rightarrow> bool" where
  "condition_fits = (\<lambda>(op, s).
     case operator_from_name op of
       Inl _ \<Rightarrow> False
     | Inr f \<Rightarrow>
         (f \<in> {IN, NOT_IN} \<longrightarrow> branches s = None \<and> type_of s = Some ''array'') \<and>
         (f \<in> {GT, LT, GTE, LTE} \<longrightarrow> branches s = None \<and> type_of s \<in> {Some ''string'', Some ''integer'', Some ''number''}))"

definition column_fits :: "json \<Rightarrow> bool" where
  "column_fits p =
     (case branches p of
        None \<Rightarrow> False
      | Some bs \<Rightarrow> \<forall>b \<in> set bs. type_of b = Some ''object'' \<longrightarrow>
          (case sget b ''properties'' of Some (JDict ops) \<Rightarrow> \<forall>x \<in> set ops. condition_fits x | _ \<Rightarrow> True))"

function filter_fits :: "('m \<Rightarrow> 'm mapper) \<Rightarrow> 'm \<Rightarrow> json \<Rightarrow> bool" where
  "filter_fits M m schema \<longleftrightarrow>
     (case sget schema ''properties'' of
        Some (JDict ps) \<Rightarrow> \<forall>(k, p) \<in> set ps.
          if k \<in> set (attribute_names (M m)) then column_fits p
          else (case map_of (mp_relationships (M m)) k of
              Some rel \<Rightarrow> branches p = None \<and> type_of p = Some ''object'' \<and> filter_fits M (rel_target rel) p
            | None \<Rightarrow> False)
      | _ \<Rightarrow> True)"
  by pat_completeness auto
termination
  by (relation "measure (\<lambda>(M, m, schema). size schema)") (auto intro: size_property)

declare filter_fits.simps [simp del]

text \<open>Truth values are numbers to the validator, but SQL does not order them.\<close>

fun truths_unordered :: "json \<Rightarrow> bool" where
  "truths_unordered (JDict d) \<longleftrightarrow>
     (\<forall>(k, v) \<in> set d. truths_unordered v \<and>
        (operator_from_name k \<in> {Inr GT, Inr LT, Inr GTE, Inr LTE} \<longrightarrow> (case v of JBool _ \<Rightarrow> False | _ \<Rightarrow> True)))"
| "truths_unordered _ = True"

lemma first_match_Inr: "first_match e f bs = Inr () \<Longrightarrow> \<exists>b \<in> set bs. f b = Some (Inr ())"
  by (induction e f bs rule: first_match.induct) (auto split: option.splits sum.splits param_error.splits)

lemma is_qdict_of_json: "is_qdict (of_json v :: 'd qval) \<longleftrightarrow> is_dict v"
  by (cases v) (simp_all add: is_qdict_def is_dict_def)

text \<open>A field of accepted filters has a schema, which accepts it.\<close>

lemma accepted_filter_field:
  fixes R :: "'d readers"
  assumes "validate_filters R path schema (of_json (JDict fs)) = Inr ()" "(k, v) \<in> set fs"
  obtains ps p where "sget schema ''properties'' = Some (JDict ps)" "(k, p) \<in> set ps"
    "branches p = None \<longrightarrow> validate_value R (path @ [k]) p (of_json v) = Inr ()"
    "\<forall>bs. branches p = Some bs \<longrightarrow> is_dict v \<longrightarrow>
      (\<exists>b \<in> set bs. type_of b = Some ''object'' \<and> validate_filters R (path @ [k]) b (of_json v) = Inr ())"
proof -
  have mem: "(k, of_json v) \<in> set (map (\<lambda>(k, v). (k, of_json v)) fs)" using assms(2) by force
  note here = bspec [OF iffD1 [OF for_each_Inr assms(1) [unfolded of_json.simps validate_filters.simps]] mem, unfolded split_beta fst_conv snd_conv]
  obtain p where p: "sget (sdict schema ''properties'') k = Some p" using here by (auto split: option.splits)
  then obtain ps where ps: "sget schema ''properties'' = Some (JDict ps)" "(k, p) \<in> set ps"
    by (auto simp: sdict_def sget_def split: option.splits json.splits dest: map_of_SomeD)
  show ?thesis
  proof (rule that [OF ps])
    show "branches p = None \<longrightarrow> validate_value R (path @ [k]) p (of_json v) = Inr ()" using here by (cases "branches p") (simp_all add: p)
    show "\<forall>bs. branches p = Some bs \<longrightarrow> is_dict v \<longrightarrow>
        (\<exists>b \<in> set bs. type_of b = Some ''object'' \<and> validate_filters R (path @ [k]) b (of_json v) = Inr ())"
    proof (intro allI impI)
      fix bs assume bs: "branches p = Some bs" "is_dict v"
      then have "is_qdict (of_json v :: 'd qval)" by (simp add: is_qdict_of_json)
      with here bs(1) show "\<exists>b \<in> set bs. type_of b = Some ''object'' \<and> validate_filters R (path @ [k]) b (of_json v) = Inr ()"
        by (auto simp: p dest!: first_match_Inr split: if_splits)
    qed
  qed
qed

lemma accepted_value_kind:
  assumes "validate_value R path s (of_json x) = Inr ()"
  shows "type_of s = Some ''array'' \<Longrightarrow> is_list x"
    "type_of s \<in> {Some ''string'', Some ''integer'', Some ''number''} \<Longrightarrow> x \<noteq> JNull"
  using assms by (cases x; auto simp: validate_value.simps is_list_def guardR_def split: if_splits)+

text \<open>The conditions on a column build.\<close>

lemma accepted_condition:
  assumes "validate_filters R path b (of_json (JDict ops)) = Inr ()" "(op, x) \<in> set ops"
    and "case sget b ''properties'' of Some (JDict cnds) \<Rightarrow> \<forall>c \<in> set cnds. condition_fits c | _ \<Rightarrow> True" "truths_unordered (JDict ops)"
  shows "\<exists>c. bindR (operator_from_name op) (\<lambda>f. get_filter_condition f m attr x) = Inr c"
proof -
  obtain ps s where s: "sget b ''properties'' = Some (JDict ps)" "(op, s) \<in> set ps"
      "branches s = None \<longrightarrow> validate_value R (path @ [op]) s (of_json x) = Inr ()"
    by (rule accepted_filter_field [OF assms(1,2)])
  have fits: "condition_fits (op, s)" using assms(3) s(1,2) by auto
  then obtain f where f: "operator_from_name op = Inr f" by (auto simp: condition_fits_def split: sum.splits)
  have "is_list x" if "f \<in> {IN, NOT_IN}" using fits f that s(3) accepted_value_kind(1) by (fastforce simp: condition_fits_def)
  moreover have "\<not> unordered x" if "f \<in> {GT, LT, GTE, LTE}"
  proof -
    have "branches s = None" "type_of s \<in> {Some ''string'', Some ''integer'', Some ''number''}" using fits f that by (auto simp: condition_fits_def)
    then have "x \<noteq> JNull" using s(3) accepted_value_kind(2) by blast
    moreover have "case x of JBool _ \<Rightarrow> False | _ \<Rightarrow> True" using assms(2,4) f that by fastforce
    ultimately show ?thesis by (auto simp: unordered_def split: json.splits)
  qed
  ultimately show ?thesis using f by (auto simp: get_filter_condition_def)
qed

text \<open>One entry of the filters.\<close>

definition parse_field :: "('m \<Rightarrow> 'm mapper) \<Rightarrow> 'm \<Rightarrow> string \<Rightarrow> json \<Rightarrow> 'm condition list res" where
  "parse_field M m attr v =
     (if attr \<in> set (attribute_names (M m)) then
        (case v of
           JDict ops \<Rightarrow> map_res (\<lambda>(name, x). bindR (operator_from_name name) (\<lambda>f. get_filter_condition f m attr x)) ops
         | _ \<Rightarrow> bindR (get_filter_condition EQ m attr v) (\<lambda>c. Inr [c]))
      else (case map_of (mp_relationships (M m)) attr of
          Some rel \<Rightarrow>
            (case v of
               JDict sub \<Rightarrow>
                 bindR (parse_filters M (rel_target rel) sub) (\<lambda>nested.
                   Inr (if nested = [] then [] else [if rel_uselist rel then AnyOf m attr nested else HasOne m attr nested]))
             | _ \<Rightarrow> Inl (PyExc ''TypeError''))
        | None \<Rightarrow> Inl (PyExc ''ValueError'')))"

lemma parse_filters_Cons:
  "parse_filters M m ((attr, v) # rest) = bindR (parse_field M m attr v) (\<lambda>conds. bindR (parse_filters M m rest) (\<lambda>more. Inr (conds @ more)))"
  by (simp add: parse_field_def)

lemma accepted_column:
  assumes "column_fits p" "attr \<in> set (attribute_names (M m))" "truths_unordered v"
    and "\<forall>bs. branches p = Some bs \<longrightarrow> is_dict v \<longrightarrow>
      (\<exists>b \<in> set bs. type_of b = Some ''object'' \<and> validate_filters R path b (of_json v) = Inr ())"
  shows "\<exists>here. parse_field M m attr v = Inr here"
proof (cases "is_dict v")
  case False
  then show ?thesis using assms(2) by (cases v) (auto simp: is_dict_def get_filter_condition_def parse_field_def)
next
  case True
  then obtain ops where ops: "v = JDict ops" by (cases v) (auto simp: is_dict_def)
  obtain bs where bs: "branches p = Some bs" using assms(1) by (auto simp: column_fits_def split: option.splits)
  with assms(4) True obtain b where b: "b \<in> set bs" "type_of b = Some ''object''" "validate_filters R path b (of_json (JDict ops)) = Inr ()"
    unfolding ops by blast
  have "case sget b ''properties'' of Some (JDict cnds) \<Rightarrow> \<forall>c \<in> set cnds. condition_fits c | _ \<Rightarrow> True"
    using assms(1) bs b(1,2) by (simp add: column_fits_def)
  note condition = accepted_condition [OF b(3) _ this assms(3) [unfolded ops]]
  have "\<exists>conds. map_res (\<lambda>(name, x). bindR (operator_from_name name) (\<lambda>f. get_filter_condition f m attr x)) ops = Inr conds"
    by (rule map_res_exists) (auto intro: condition)
  then show ?thesis using assms(2) by (auto simp: ops parse_field_def)
qed

lemma accepted_filters_parse:
  assumes "validate_filters R path schema (of_json (JDict fs)) = Inr ()" "filter_fits M m schema" "truths_unordered (JDict fs)"
  shows "\<exists>conds. parse_filters M m fs = Inr conds"
  using assms
proof (induction "size (JDict fs)" arbitrary: m fs path schema rule: less_induct)
  case (less fs)
  show ?case
  proof (cases fs)
    case (Cons f rest)
    obtain attr v where f: "f = (attr, v)" by (cases f)
    note prems = less.prems [unfolded Cons f]
    have "validate_filters R path schema (of_json (JDict rest)) = Inr ()" using prems(1) by (simp add: bindR_eq_Inr)
    then obtain more where more: "parse_filters M m rest = Inr more" using less.hyps [of rest path schema m] prems(2,3) by (auto simp: Cons)
    obtain ps p where p: "sget schema ''properties'' = Some (JDict ps)" "(attr, p) \<in> set ps"
        "branches p = None \<longrightarrow> validate_value R (path @ [attr]) p (of_json v) = Inr ()"
        "\<forall>bs. branches p = Some bs \<longrightarrow> is_dict v \<longrightarrow>
          (\<exists>b \<in> set bs. type_of b = Some ''object'' \<and> validate_filters R (path @ [attr]) b (of_json v) = Inr ())"
      by (rule accepted_filter_field [OF prems(1) list.set_intros(1)])
    have fits: "if attr \<in> set (attribute_names (M m)) then column_fits p
        else (case map_of (mp_relationships (M m)) attr of
            Some rel \<Rightarrow> branches p = None \<and> type_of p = Some ''object'' \<and> filter_fits M (rel_target rel) p | None \<Rightarrow> False)"
      using prems(2) p(1,2) unfolding filter_fits.simps [of M m schema] by auto
    have truths: "truths_unordered v" using prems(3) by simp
    have "\<exists>here. parse_field M m attr v = Inr here"
    proof (cases "attr \<in> set (attribute_names (M m))")
      case True
      then have "column_fits p" using fits by simp
      then show ?thesis by (rule accepted_column [where M = M and m = m, OF _ True truths p(4)])
    next
      case False
      then obtain rel where rel: "map_of (mp_relationships (M m)) attr = Some rel" "branches p = None" "type_of p = Some ''object''" "filter_fits M (rel_target rel) p"
        using fits by (auto split: option.splits)
      obtain sub where sub: "v = JDict sub" "validate_filters R (path @ [attr]) p (of_json (JDict sub)) = Inr ()"
        using p(3) rel(2,3) by (cases v) (auto simp: validate_value.simps is_qdict_def)
      have "size (JDict sub) < size (JDict fs)" by (simp add: Cons f sub(1))
      from less.hyps [OF this sub(2) rel(4)] truths show ?thesis using False rel(1) by (auto simp: sub(1) parse_field_def)
    qed
    then show ?thesis using more by (auto simp: Cons f parse_filters_Cons simp del: parse_filters.simps(2))
  qed simp
qed

section \<open>Accepted parameters\<close>

lemma bad_request_Inr: "bad_request r = Inr () \<longleftrightarrow> r = Inr ()"
  by (cases r) (auto simp: bad_request_def split: param_error.split)

lemma include_validated:
  assumes "validate_query_parameter V scope_path ''include'' param query = Inr ()" "map_of query ''include'' = Some v" "q_truthy v"
    and "\<not> ends_with scope_path (search_path V)" "titled_schema (get_include_schema (va_schemas V)) param = Inr s"
  shows "validate_include [] s v = Inr ()"
  using assms unfolding validate_query_parameter_def by (simp add: bad_request_Inr)

lemma filters_validated:
  assumes "validate_query_parameter V scope_path ''filters'' param query = Inr ()" "map_of query ''filters'' = Some v" "q_truthy v"
    and "titled_schema (get_filter_schema (va_schemas V)) param = Inr s"
  shows "validate_filters (va_readers V) [] s v = Inr ()"
  using assms unfolding validate_query_parameter_def by (simp add: bad_request_Inr)

text \<open>
  (C34) An include that the validator accepted never makes a response fail: whatever object is returned, the
  include of its response is built from the schema that the parameter was validated against.
\<close>

theorem accepted_include_builds:
  fixes V :: "'d validator"
  assumes "validate_query_parameter V scope_path ''include'' param query = Inr ()"
    and "map_of query ''include'' = Some (of_json (JDict inc))"
    and "\<not> ends_with scope_path (search_path V)"
    and "titled_schema (get_include_schema (va_schemas V)) param = Inr (JDict schema)"
    and "include_schema schema" "json_wf (JDict schema)"
  shows "\<exists>out. build_pydantic_include obj schema (Some inc) = Inr out"
proof -
  obtain ts where ts: "extract_default_include schema = Inr ts" using include_schema_extracts [OF assms(5)] ..
  have "\<exists>ms. merge_include ts (Some inc) = Inr ms"
  proof (cases "inc = []")
    case True
    then show ?thesis by (intro iffD2 [OF merge_include_total]) simp
  next
    case False
    then have "q_truthy (of_json (JDict inc) :: 'd qval)" by (simp add: q_truthy_def)
    from include_validated [OF assms(1,2) this assms(3,4)] show ?thesis by (rule accepted_include_merges [OF _ ts assms(5,6)])
  qed
  then show ?thesis by (auto simp: build_pydantic_include_def ts)
qed


section \<open>Refused parameters\<close>

definition date_time :: "json \<Rightarrow> bool" where
  "date_time s \<longleftrightarrow> branches s = None \<and> type_of s = Some ''string'' \<and> sget s ''format'' = Some (JStr ''date-time'')"

lemma cast_not_date_time: "date_time s \<Longrightarrow> validate_value R path s (cast_text R x) \<noteq> Inr ()"
  by (auto simp: validate_value.simps date_time_def cast_text_def is_qdict_def split: option.splits sum.splits)

lemma cast_no_dict: "\<not> is_qdict (cast_text R x)"
  by (auto simp: cast_text_def is_qdict_def split: option.splits sum.splits)

lemma first_match_fails: "(\<And>b. b \<in> set bs \<Longrightarrow> f b \<noteq> Some (Inr ())) \<Longrightarrow> first_match e f bs \<noteq> Inr ()"
  using first_match_Inr by blast

text \<open>
  (C37) A filter on a date never passes: a text that is a date becomes one before the validation, which expects a text,
  and the validation refuses any other text. This holds of a value and of every condition with a date, whatever
  else the filters contain.
\<close>

theorem date_filters_refused:
  assumes "sget (sdict schema ''properties'') k = Some p" "(k, JStr x) \<in> set d"
    and "date_time p \<or> (\<exists>bs. branches p = Some bs \<and> (\<forall>b \<in> set bs. type_of b = Some ''object'' \<or> date_time b))"
  shows "validate_filters R path schema (coerce_filters R (JDict d)) \<noteq> Inr ()"
proof
  assume "validate_filters R path schema (coerce_filters R (JDict d)) = Inr ()"
  then have all: "validate_filters R path schema (QDict (map (\<lambda>(k, v). (k, cast_filter R v)) d)) = Inr ()" by (simp add: coerce_filters_def)
  have "(k, cast_text R x) \<in> set (map (\<lambda>(k, v). (k, cast_filter R v)) d)" using assms(2) by force
  note here = bspec [OF iffD1 [OF for_each_Inr all [unfolded validate_filters.simps]] this, unfolded split_beta fst_conv snd_conv assms(1) option.case]
  show False
  proof (cases "branches p")
    case None
    then show False using assms(3) here cast_not_date_time by auto
  next
    case (Some bs)
    then have "\<forall>b \<in> set bs. type_of b = Some ''object'' \<or> date_time b" using assms(3) by (auto simp: date_time_def)
    moreover obtain b where "b \<in> set bs" "type_of b \<noteq> Some ''object''" "validate_value R (path @ [k]) b (cast_text R x) = Inr ()"
      using here by (auto simp: Some cast_no_dict dest!: first_match_Inr split: if_splits)
    ultimately show False using cast_not_date_time by blast
  qed
qed

section \<open>The expansion of the specification\<close>

lemma fixed_param_expanded:
  assumes "title_of (sdict param ''schema'') = Some t" "t \<in> set SCHEMAS_WITH_SHALLOW_REFS" "map_of schemas t = Some s" "expanded s"
  shows "expanded (sdict (fix_param schemas param) ''schema'')"
proof -
  have "sget param ''schema'' \<noteq> None" using assms(1) by (auto simp: sdict_def title_of_def sget_def split: option.splits)
  then have "sdict (with_entry ''schema'' s param) ''schema'' = s" by (simp add: sdict_def sget_with_entry)
  then show ?thesis using assms by (simp add: fix_param_def)
qed

text \<open>
  (C36) The expansion of the specification ends, in whatever order the set of schemas is listed and although the
  schemas refer to each other in cycles: with enough stack there is one result for every depth, no
  placeholder is left in the listed schemas, no schema appears or disappears, and a parameter with the title of a
  listed schema gets the expanded one.
\<close>

theorem placeholders_expanded:
  assumes "sound_schemas T SCHEMAS_WITH_SHALLOW_REFS (sp_schemas S)" "set order = set SCHEMAS_WITH_SHALLOW_REFS"
  shows "\<exists>n S'. (\<forall>m \<ge> n. populate_shallow_refs m order S = Inr S') \<and>
    dom (map_of (sp_schemas S')) = dom (map_of (sp_schemas S)) \<and>
    (\<forall>name \<in> set SCHEMAS_WITH_SHALLOW_REFS. \<forall>s. map_of (sp_schemas S') name = Some s \<longrightarrow> expanded s \<and>
       (\<forall>param. title_of (sdict param ''schema'') = Some name \<longrightarrow> expanded (sdict (fix_param (sp_schemas S') param) ''schema''))) \<and>
    sp_paths S' = map (\<lambda>(k, v). (k, fix_path (sp_schemas S') v)) (sp_paths S)"
proof -
  from expand_all_ends [OF assms(1), of order "{}"] assms(2) obtain n schemas where
      n: "expand_all n order (sp_schemas S) = Inr schemas" and
      dom: "dom (map_of schemas) = dom (map_of (sp_schemas S))" and
      expanded: "\<forall>name \<in> set SCHEMAS_WITH_SHALLOW_REFS. \<forall>s. map_of schemas name = Some s \<longrightarrow> expanded s" by auto
  define S' where "S' = propagate_to_parameters (S\<lparr>sp_schemas := schemas\<rparr>)"
  have S': "sp_schemas S' = schemas" "sp_paths S' = map (\<lambda>(k, v). (k, fix_path schemas v)) (sp_paths S)"
    by (simp_all add: S'_def propagate_to_parameters_def)
  have "\<forall>m \<ge> n. populate_shallow_refs m order S = Inr S'"
    using expand_all_mono [OF _ n] by (simp add: populate_shallow_refs_def S'_def)
  then show ?thesis using dom expanded fixed_param_expanded by (intro exI [of _ n] exI [of _ S']) (simp add: S')
qed

section \<open>Examples\<close>

text \<open>A cycle of two includes.\<close>

definition flag :: "bool \<Rightarrow> json" where
  "flag b = JDict [(''type'', JStr ''boolean''), (''default'', JBool b)]"

definition object_schema :: "string \<Rightarrow> dict \<Rightarrow> json" where
  "object_schema t ps = JDict [(''title'', JStr t), (''type'', JStr ''object''), (''properties'', JDict ps)]"

definition choice :: "json list \<Rightarrow> json" where
  "choice bs = JDict [(''oneOf'', JList bs)]"

definition placeholder :: "string \<Rightarrow> json" where
  "placeholder t = JDict [(''title'', JStr (t @ ''Shallow'')), (''type'', JStr ''object'')]"

definition cyclic_spec :: openapi_spec where
  "cyclic_spec = \<lparr>sp_schemas =
       [(''BeatmapInclude'', object_schema ''BeatmapInclude'' [(''id'', flag True), (''beatmapset'', choice [placeholder ''BeatmapsetInclude'', flag False])]),
        (''BeatmapsetInclude'', object_schema ''BeatmapsetInclude'' [(''id'', flag True), (''beatmaps'', choice [placeholder ''BeatmapInclude'', flag False])])],
     sp_paths = [], sp_security = None\<rparr>"

definition cyclic_titles :: "string list" where
  "cyclic_titles = [''BeatmapInclude'', ''BeatmapsetInclude'', ''BeatmapIncludeShallow'', ''BeatmapsetIncludeShallow'']"

lemma sound_schemasI:
  assumes "list_all (\<lambda>(n, s). list_all (\<lambda>t. List.member T t) (object_titles s) \<and> type_of s = Some ''object'' \<and>
    (case title_of s of Some t \<Rightarrow> \<not> ends_with t ''Shallow'' | None \<Rightarrow> False)) schemas"
  shows "sound_schemas T names schemas"
  using assms by (fastforce simp: sound_schemas_def list_all_iff split: option.splits dest: map_of_SomeD)

lemma cyclic_sound: "sound_schemas cyclic_titles SCHEMAS_WITH_SHALLOW_REFS (sp_schemas cyclic_spec)"
  by (rule sound_schemasI) code_simp

theorem placeholders_expanded_witness:
  "\<exists>n S'. (\<forall>m \<ge> n. populate_shallow_refs m (rev SCHEMAS_WITH_SHALLOW_REFS) cyclic_spec = Inr S') \<and>
    dom (map_of (sp_schemas S')) = dom (map_of (sp_schemas cyclic_spec)) \<and>
    (\<forall>name \<in> set SCHEMAS_WITH_SHALLOW_REFS. \<forall>s. map_of (sp_schemas S') name = Some s \<longrightarrow> expanded s \<and>
       (\<forall>param. title_of (sdict param ''schema'') = Some name \<longrightarrow> expanded (sdict (fix_param (sp_schemas S') param) ''schema''))) \<and>
    sp_paths S' = map (\<lambda>(k, v). (k, fix_path (sp_schemas S') v)) (sp_paths cyclic_spec)"
  by (rule placeholders_expanded [OF cyclic_sound]) simp

text \<open>The validator of an interface with one include and one filter, and readers that read one date.\<close>

definition sample_readers :: "nat readers" where
  "sample_readers = \<lparr>fromisoformat = (\<lambda>s. if s = ''2024-01-01'' then Some 0 else None), float_of = (\<lambda>_. None)\<rparr>"

definition sample_include :: dict where
  "sample_include = [(''title'', JStr ''BeatmapInclude''), (''type'', JStr ''object''),
     (''properties'', JDict [(''id'', flag True), (''snapshots'', choice [object_schema ''BeatmapSnapshotInclude'' [(''id'', flag True)], flag False])])]"

definition sample_dates :: json where
  "sample_dates = choice [JDict [(''type'', JStr ''string''), (''format'', JStr ''date-time'')], object_schema ''DatetimeConditions'' []]"

definition sample_filter :: json where
  "sample_filter = object_schema ''BeatmapFilter''
     [(''id'', choice [JDict [(''type'', JStr ''integer'')], object_schema ''IntegerConditions'' [(''gt'', JDict [(''type'', JStr ''integer'')])]]),
      (''updated_at'', sample_dates)]"

definition sample_validator :: "nat validator" where
  "sample_validator = \<lparr>va_readers = sample_readers, va_schemas = [(''BeatmapInclude'', JDict sample_include), (''BeatmapFilter'', sample_filter)],
     va_base_path = ''/api/v1/'', va_validate = (\<lambda>_ _. Inr ())\<rparr>"

definition sample_param :: "string \<Rightarrow> json" where
  "sample_param t = JDict [(''schema'', JDict [(''title'', JStr t)])]"

definition sample_mapper :: "unit \<Rightarrow> unit mapper" where
  "sample_mapper u = \<lparr>mp_name = ''Beatmap'', mp_columns =
       map (\<lambda>c. \<lparr>ci_name = c, ci_primary_key = c = ''id'', ci_nullable = False, ci_default = True, ci_autoincrement = True, ci_unique = False, ci_string = False\<rparr>) [''id'', ''updated_at''],
     mp_relationships = [], mp_hybrids = [], mp_constraints = []\<rparr>"

theorem accepted_include_builds_witness:
  "\<exists>out. build_pydantic_include (Object []) sample_include (Some [(''snapshots'', JDict [(''id'', JBool False)])]) = Inr out"
  by (rule accepted_include_builds [of sample_validator "''/api/v1/beatmaps''" "sample_param ''BeatmapInclude''"
        "[(''include'', of_json (JDict [(''snapshots'', JDict [(''id'', JBool False)])]))]"]) code_simp+


theorem date_filters_refused_witness:
  "validate_filters sample_readers [] sample_filter (coerce_filters sample_readers (JDict [(''updated_at'', JStr ''2024-01-01'')])) \<noteq> Inr ()"
proof (rule date_filters_refused [of _ "''updated_at''" sample_dates "''2024-01-01''"])
  show "sget (sdict sample_filter ''properties'') ''updated_at'' = Some sample_dates" by code_simp
  show "date_time sample_dates \<or> (\<exists>bs. branches sample_dates = Some bs \<and> (\<forall>b \<in> set bs. type_of b = Some ''object'' \<or> date_time b))"
    by (simp add: sample_dates_def choice_def object_schema_def branches_def sget_def date_time_def type_of_def)
qed simp

section \<open>Requests that fail\<close>

text \<open>A truth value is an integer to the validator, but no statement orders by it.\<close>

lemma ordered_truth_fails:
  "validate_filters sample_readers [] sample_filter (of_json (JDict [(''id'', JDict [(''gt'', JBool True)])])) = Inr () \<and>
   parse_filters sample_mapper () [(''id'', JDict [(''gt'', JBool True)])] = Inl (PyExc ''ArgumentError'')"
proof
  show "validate_filters sample_readers [] sample_filter (of_json (JDict [(''id'', JDict [(''gt'', JBool True)])])) = Inr ()" by code_simp
  show "parse_filters sample_mapper () [(''id'', JDict [(''gt'', JBool True)])] = Inl (PyExc ''ArgumentError'')" by code_simp
qed

text \<open>An include that is a truth value is read as one, and then has no items.\<close>

lemma include_truth_unhandled:
  assumes "lower x \<in> set affirmative_literals" "\<not> ends_with scope_path (search_path V)"
    and "titled_schema (get_include_schema (va_schemas V)) param = Inr s"
  shows "coerce_include param (JStr x) = Inr (JBool True) \<and>
    validate_query_parameter V scope_path ''include'' param [(''include'', of_json (JBool True))] = Inl (Unhandled ''AttributeError'')"
  using assms by (simp add: coerce_include_def validate_query_parameter_def q_truthy_def bad_request_def)

text \<open>Sorting by anything but dictionaries, or by a text that is no JSON.\<close>

lemma sorting_unhandled:
  "x \<noteq> [] \<Longrightarrow> loads pf x = Inl e \<Longrightarrow> coerce_sorting pf (JStr x) = Inl e"
  "\<not> is_qdict v \<Longrightarrow> validate_query_parameter V scope_path ''sorting'' param [(''sorting'', QList [v])] = Inl (Unhandled ''AttributeError'')"
  by (simp add: coerce_sorting_def sorting_items_def)
    (cases v, simp_all add: validate_query_parameter_def q_truthy_def validate_sorting_def validate_item_def bad_request_def is_qdict_def)

text \<open>A key with an opening bracket only.\<close>

lemma open_key_unhandled:
  "make_deep_object [(''filters'', sample_filter)] (\<lambda>_. True) ''filters['' v = Inl (PyExc ''IndexError'')"
proof -
  have "root_of [''filters''] ''filters['' = ''filters''" "key_path ''filters['' = []" by code_simp+
  then show ?thesis by (simp add: make_deep_object_def)
qed

text \<open>
  The include that the expansion disables in a cycle stays available: its place in the choice is taken by a truth value
  that must be false, but the validator looks at the last one.
\<close>

lemma disabled_include_accepted:
  "case populate_shallow_refs 20 SCHEMAS_WITH_SHALLOW_REFS cyclic_spec of
     Inr S \<Rightarrow> (case map_of (sp_schemas S) ''BeatmapInclude'' of
         Some s \<Rightarrow> validate_include [] s (of_json (JDict [(''beatmapset'', JDict [(''beatmaps'', JBool True)])]) :: nat qval) = Inr ()
       | None \<Rightarrow> False)
   | Inl _ \<Rightarrow> False"
  by code_simp

end
