(* ===== verification/Spec_Load.thy ===== *)
theory Spec_Load
  imports Spec_Expansion Actions
begin

text \<open>
  Loading the specification with its cache on disk (\<^verbatim>\<open>src/app/spec/load.py\<close>). The disk has the source that the
  YAML files read to with all references resolved, the times of modification, and the cache file, which may be
  unreadable. What a build depends on besides the source is its configuration.
\<close>

section \<open>The build\<close>

datatype env = Env_PROD | Env_DEV | Env_TEST

datatype spec_payload = Unreadable | Payload openapi_spec "env \<times> bool"

record spec_disk =
  sd_source :: "openapi_spec res"
  sd_mtimes :: "(string \<times> rat) list"
  sd_cache :: "(spec_payload \<times> rat) option"
  sd_writable :: bool
  sd_now :: rat

record build_config =
  bc_env :: env
  bc_security :: bool

text \<open>\<^verbatim>\<open>method.pop("security", None)\<close>, which a list refuses and other values do not have.\<close>

definition pop_security :: "json \<Rightarrow> json res" where
  "pop_security method =
     (case method of
        JDict d \<Rightarrow> Inr (JDict (AList.delete ''security'' d))
      | JList _ \<Rightarrow> Inl (PyExc ''TypeError'')
      | _ \<Rightarrow> Inl (PyExc ''AttributeError''))"

definition open_path :: "json \<Rightarrow> json res" where
  "open_path item =
     (case item of
        JDict d \<Rightarrow> bindR (map_res (\<lambda>(k, method). bindR (pop_security method) (\<lambda>m. Inr (k, m))) d) (\<lambda>d. Inr (JDict d))
      | _ \<Rightarrow> Inl (PyExc ''AttributeError''))"

definition apply_mutations :: "nat \<Rightarrow> string list \<Rightarrow> env \<times> bool \<Rightarrow> openapi_spec \<Rightarrow> openapi_spec res" where
  "apply_mutations n order = (\<lambda>(environment, disable_security) S.
     bindR (populate_shallow_refs n order S) (\<lambda>S.
       if disable_security \<and> environment \<noteq> Env_PROD
       then bindR (map_res (\<lambda>(k, item). bindR (open_path item) (\<lambda>i. Inr (k, i))) (sp_paths S)) (\<lambda>ps.
              Inr (S\<lparr>sp_security := None, sp_paths := ps\<rparr>))
       else Inr S))"

definition current_build_options :: "build_config \<Rightarrow> env \<times> bool" where
  "current_build_options B = (bc_env B, \<not> bc_security B)"

definition get_latest_spec_mtime :: "(string \<times> rat) list \<Rightarrow> rat" where
  "get_latest_spec_mtime files = fold max (map snd (filter (\<lambda>(f, t). ends_with f ''.yaml'' \<or> ends_with f ''.yml'') files)) 0"

definition write_cache :: "openapi_spec \<Rightarrow> env \<times> bool \<Rightarrow> spec_disk \<Rightarrow> spec_disk" where
  "write_cache S options D = (if sd_writable D then D\<lparr>sd_cache := Some (Payload S options, sd_now D)\<rparr> else D)"

definition build_spec :: "nat \<Rightarrow> string list \<Rightarrow> build_config \<Rightarrow> (spec_disk, openapi_spec) act" where
  "build_spec n order B =
     readS (\<lambda>D. bindS (liftS (bindR (sd_source D) (apply_mutations n order (current_build_options B)))) (\<lambda>S.
       bindS (changeS (write_cache S (current_build_options B))) (\<lambda>_. retS S)))"

section \<open>The cache\<close>

definition load_spec :: "nat \<Rightarrow> string list \<Rightarrow> build_config \<Rightarrow> (spec_disk, openapi_spec) act" where
  "load_spec n order B =
     readS (\<lambda>D.
       case sd_cache D of
         None \<Rightarrow> build_spec n order B
       | Some (Unreadable, cache_mtime) \<Rightarrow> build_spec n order B
       | Some (Payload S options, cache_mtime) \<Rightarrow>
           if bc_env B = Env_PROD then retS S
           else if cache_mtime < get_latest_spec_mtime (sd_mtimes D) \<or> options \<noteq> current_build_options B
           then build_spec n order B
           else retS S)"

section \<open>Histories of the disk\<close>

text \<open>
  A process of any configuration loads the specification; a YAML file is edited, later than everything before; the
  cache file is damaged or removed; the directory becomes writable or not; time passes.
\<close>

inductive spec_step :: "nat \<Rightarrow> string list \<Rightarrow> spec_disk \<Rightarrow> spec_disk \<Rightarrow> bool" for n order where
  load_step: "spec_step n order D (snd (load_spec n order B D))"
| edit_step: "ends_with f ''.yaml'' \<or> ends_with f ''.yml'' \<Longrightarrow> 0 < d \<Longrightarrow>
    spec_step n order D (D\<lparr>sd_source := src, sd_now := sd_now D + d, sd_mtimes := AList.update f (sd_now D + d) (sd_mtimes D)\<rparr>)"
| damage_step: "spec_step n order D (D\<lparr>sd_cache := Some (Unreadable, sd_now D)\<rparr>)"
| remove_step: "spec_step n order D (D\<lparr>sd_cache := None\<rparr>)"
| access_step: "spec_step n order D (D\<lparr>sd_writable := w\<rparr>)"
| wait_step: "0 \<le> d \<Longrightarrow> spec_step n order D (D\<lparr>sd_now := sd_now D + d\<rparr>)"

inductive spec_reachable :: "nat \<Rightarrow> string list \<Rightarrow> spec_disk \<Rightarrow> bool" for n order where
  installed: "sd_cache D = None \<Longrightarrow> \<forall>(f, t) \<in> set (sd_mtimes D). t \<le> sd_now D \<Longrightarrow> spec_reachable n order D"
| stepped: "spec_reachable n order D \<Longrightarrow> spec_step n order D D' \<Longrightarrow> spec_reachable n order D'"

text \<open>A readable cache that is no older than the files is what a build with its options gives.\<close>

definition cache_current :: "nat \<Rightarrow> string list \<Rightarrow> spec_disk \<Rightarrow> bool" where
  "cache_current n order D \<longleftrightarrow>
     (\<forall>(f, t) \<in> set (sd_mtimes D). t \<le> sd_now D) \<and>
     (\<forall>S options t. sd_cache D = Some (Payload S options, t) \<longrightarrow> t \<le> sd_now D \<and>
        (get_latest_spec_mtime (sd_mtimes D) \<le> t \<longrightarrow> bindR (sd_source D) (apply_mutations n order options) = Inr S))"

lemma latest_geI:
  assumes "(f, t) \<in> set files" "ends_with f ''.yaml'' \<or> ends_with f ''.yml''"
  shows "t \<le> get_latest_spec_mtime files"
proof -
  have start: "a \<le> fold max xs a" for xs and a :: rat
    by (induction xs arbitrary: a) (simp, metis fold_simps(2) max.bounded_iff)
  have member: "x \<in> set xs \<Longrightarrow> x \<le> fold max xs a" for xs and x a :: rat
    by (induction xs arbitrary: a) (auto intro: order_trans [OF max.cobounded1 start])
  show ?thesis unfolding get_latest_spec_mtime_def by (rule member) (use assms in force)
qed

lemma edited_mtime: "(f, t) \<in> set (AList.update f t files)"
  by (induction files) auto

lemma build_spec_result: "fst (build_spec n order B D) = bindR (sd_source D) (apply_mutations n order (current_build_options B))"
  by (cases "bindR (sd_source D) (apply_mutations n order (current_build_options B))") (simp_all add: build_spec_def fst_bindS changeS_def)

lemma build_spec_disk:
  "snd (build_spec n order B D) =
     (case bindR (sd_source D) (apply_mutations n order (current_build_options B)) of
        Inl e \<Rightarrow> D | Inr S \<Rightarrow> write_cache S (current_build_options B) D)"
  by (cases "bindR (sd_source D) (apply_mutations n order (current_build_options B))") (simp_all add: build_spec_def bindS_def changeS_def)

lemma build_keeps: "cache_current n order D \<Longrightarrow> cache_current n order (snd (build_spec n order B D))"
  unfolding build_spec_disk by (auto simp: cache_current_def write_cache_def split: sum.split)

lemma load_keeps: "cache_current n order D \<Longrightarrow> cache_current n order (snd (load_spec n order B D))"
  using build_keeps [of n order D B] by (simp add: load_spec_def split: option.split prod.split spec_payload.split)

lemma step_keeps: "spec_step n order D D' \<Longrightarrow> cache_current n order D \<Longrightarrow> cache_current n order D'"
proof (induction rule: spec_step.induct)
  case (edit_step f d D src)
  let ?t = "sd_now D + d"
  have files: "\<forall>(g, u) \<in> set (AList.update f ?t (sd_mtimes D)). u \<le> ?t"
    using edit_step set_update_subset [of f ?t "sd_mtimes D"] by (fastforce simp: cache_current_def)
  have "?t \<le> get_latest_spec_mtime (AList.update f ?t (sd_mtimes D))"
    by (rule latest_geI [OF edited_mtime edit_step(1)])
  then show ?case using edit_step(2,3) files by (fastforce simp: cache_current_def)
next
  case (wait_step d D)
  then show ?case by (fastforce simp: cache_current_def)
next
  case (load_step D B)
  then show ?case by (rule load_keeps)
qed (auto simp: cache_current_def)

lemma reachable_current: "spec_reachable n order D \<Longrightarrow> cache_current n order D"
proof (induction rule: spec_reachable.induct)
  case (installed D)
  then show ?case by (simp add: cache_current_def)
qed (rule step_keeps)

end
