(* ===== verification/Spec_Properties.thy ===== *)
theory Spec_Properties
  imports Param_Properties Spec_Load
begin

text \<open>
  What the cache of the specification guarantees: outside production it cannot be told from a build; in production it
  is served whatever it was built for.
\<close>

section \<open>Transparency\<close>


text \<open>A developer's build without security, written at time 1 from a file of time 0.\<close>

definition developer :: build_config where
  "developer = \<lparr>bc_env = Env_DEV, bc_security = False\<rparr>"

definition secured_spec :: openapi_spec where
  "secured_spec = \<lparr>sp_schemas = [], sp_paths = [(''/queues'', JDict [(''post'', JDict [(''security'', JList [])])])], sp_security = Some (JList [])\<rparr>"

definition secured_disk :: spec_disk where
  "secured_disk = \<lparr>sd_source = Inr secured_spec, sd_mtimes = [(''openapi.yaml'', 0)], sd_cache = None, sd_writable = True, sd_now = 1\<rparr>"

lemma secured_disk_reachable: "spec_reachable 1 [] (snd (load_spec 1 [] developer secured_disk))"
  by (rule stepped [OF installed load_step]) (simp_all add: secured_disk_def)


section \<open>Production\<close>

text \<open>
  In production a readable cache is served without a look at its options: what a developer's process without
  security wrote is served without the requirements of security.
\<close>

lemma production_serves_cache:
  assumes "sd_cache D = Some (Payload S options, t)" "bc_env B = Env_PROD"
  shows "load_spec n order B D = (Inr S, D)"
  using assms by (simp add: load_spec_def)

lemma production_without_security:
  "sp_security secured_spec \<noteq> None \<and>
   (case fst (load_spec 1 [] \<lparr>bc_env = Env_PROD, bc_security = True\<rparr> (snd (load_spec 1 [] developer secured_disk))) of
      Inr S \<Rightarrow> sp_security S = None \<and> sp_paths S = [(''/queues'', JDict [(''post'', JDict [])])]
    | Inl _ \<Rightarrow> False)"
  by code_simp

end
