(* ===== verification/Seed_Order.thy ===== *)
theory Seed_Order
  imports Prelude "HOL-Library.Multiset"
begin

text \<open>
  The order in which the database is seeded (\<^verbatim>\<open>src/app/database/seeding/dependencies.py\<close>, \<^verbatim>\<open>orchestrator.py\<close>,
  \<^verbatim>\<open>target.py\<close>): the dependencies of the requested targets are collected, sorted into layers, and the seeders of a
  layer run concurrently. The sets of the source are lists; the order of iteration does not matter to the results.
\<close>

section \<open>Targets\<close>

datatype seed_target = ALL_SEEDS | USERS_SEED | BEATMAPS_SEED | QUEUES_SEED | REQUESTS_SEED

datatype seeder_target = USER_SEEDER | BEATMAP_SEEDER | QUEUE_SEEDER | REQUEST_SEEDER

text \<open>Targets are texts and compare as such: beatmap, queue, request, user.\<close>

fun target_rank :: "seeder_target \<Rightarrow> nat" where
  "target_rank BEATMAP_SEEDER = 0"
| "target_rank QUEUE_SEEDER = 1"
| "target_rank REQUEST_SEEDER = 2"
| "target_rank USER_SEEDER = 3"

lemma target_rank_inj: "target_rank t = target_rank u \<Longrightarrow> t = u"
  by (cases t; cases u) simp_all

instantiation seeder_target :: linorder
begin
definition less_eq_seeder_target :: "seeder_target \<Rightarrow> seeder_target \<Rightarrow> bool" where
  "less_eq_seeder_target t u \<longleftrightarrow> target_rank t \<le> target_rank u"
definition less_seeder_target :: "seeder_target \<Rightarrow> seeder_target \<Rightarrow> bool" where
  "less_seeder_target t u \<longleftrightarrow> target_rank t < target_rank u"
instance
  by standard (auto simp: less_eq_seeder_target_def less_seeder_target_def intro: target_rank_inj)
end

fun cli_to_seeder :: "seed_target \<Rightarrow> seeder_target res" where
  "cli_to_seeder USERS_SEED = Inr USER_SEEDER"
| "cli_to_seeder BEATMAPS_SEED = Inr BEATMAP_SEEDER"
| "cli_to_seeder QUEUES_SEED = Inr QUEUE_SEEDER"
| "cli_to_seeder REQUESTS_SEED = Inr REQUEST_SEEDER"
| "cli_to_seeder ALL_SEEDS = Inl (PyExc ''KeyError'')"

definition normalize_cli_targets :: "seed_target list \<Rightarrow> seeder_target list res" where
  "normalize_cli_targets targets =
     (if ALL_SEEDS \<in> set targets then Inr [USER_SEEDER, BEATMAP_SEEDER, QUEUE_SEEDER, REQUEST_SEEDER]
      else map_res cli_to_seeder targets)"

section \<open>Dependencies\<close>

fun DEPENDENCIES :: "seeder_target \<Rightarrow> seeder_target list" where
  "DEPENDENCIES USER_SEEDER = []"
| "DEPENDENCIES BEATMAP_SEEDER = [USER_SEEDER]"
| "DEPENDENCIES QUEUE_SEEDER = [USER_SEEDER]"
| "DEPENDENCIES REQUEST_SEEDER = [USER_SEEDER, QUEUE_SEEDER, BEATMAP_SEEDER]"

fun seed_level :: "seeder_target \<Rightarrow> nat" where
  "seed_level USER_SEEDER = 0"
| "seed_level BEATMAP_SEEDER = 1"
| "seed_level QUEUE_SEEDER = 1"
| "seed_level REQUEST_SEEDER = 2"

lemma level_decreases: "d \<in> set (DEPENDENCIES t) \<Longrightarrow> seed_level d < seed_level t"
  by (cases t) auto

function visit :: "seeder_target \<Rightarrow> seeder_target list \<Rightarrow> seeder_target list" where
  "visit t resolved = (if t \<in> set resolved then resolved else fold visit (DEPENDENCIES t) resolved @ [t])"
  by pat_completeness auto
termination
  by (relation "measure (\<lambda>(t, _). seed_level t)") (auto dest: level_decreases)

declare visit.simps [simp del]

text \<open>One round takes the targets without dependencies, the layer, out of the graph.\<close>

definition ready :: "('t \<times> 't list) list \<Rightarrow> 't list" where
  "ready graph = map fst (filter (\<lambda>(t, deps). deps = []) graph)"

definition without :: "'t list \<Rightarrow> ('t \<times> 't list) list \<Rightarrow> ('t \<times> 't list) list" where
  "without layer graph = map (\<lambda>(t, deps). (t, filter (\<lambda>d. d \<notin> set layer) deps)) (filter (\<lambda>(t, deps). deps \<noteq> []) graph)"

lemma without_smaller: "ready graph \<noteq> [] \<Longrightarrow> length (without layer graph) < length graph"
  by (auto simp: ready_def without_def filter_empty_conv intro!: length_filter_less)

function layers_of :: "('t :: linorder \<times> 't list) list \<Rightarrow> 't list list res" where
  "layers_of graph =
     (if graph = [] then Inr []
      else if ready graph = [] then Inl (PyExc ''RuntimeError'')
      else bindR (layers_of (without (ready graph) graph)) (\<lambda>ls. Inr (sort (ready graph) # ls)))"
  by pat_completeness auto
termination
  by (relation "measure length") (auto intro: without_smaller)

declare layers_of.simps [simp del]

definition topological_layers :: "seeder_target list \<Rightarrow> seeder_target list list res" where
  "topological_layers targets = layers_of (map (\<lambda>t. (t, filter (\<lambda>d. d \<in> set targets) (DEPENDENCIES t))) targets)"

definition resolve_dependencies :: "seeder_target list \<Rightarrow> seeder_target list list res" where
  "resolve_dependencies targets = topological_layers (fold visit targets [])"

section \<open>Seeding\<close>

text \<open>
  The layers to come, the tasks of the current layer that still run, and how the others ended. The events of
  progress only pass through the queue; the end of each task is announced there too, so that a layer ends when
  all its tasks have, and an exception of one of them is raised then.
\<close>

record 't seed_run =
  sr_todo :: "'t list list"
  sr_active :: "'t list"
  sr_finished :: "'t list"
  sr_failed :: "'t list"
  sr_raised :: bool

inductive seed_step :: "'t seed_run \<Rightarrow> 't seed_run \<Rightarrow> bool" where
  start_layer: "sr_active r = [] \<Longrightarrow> sr_failed r = [] \<Longrightarrow> sr_todo r = layer # ls \<Longrightarrow> seed_step r (r\<lparr>sr_active := layer, sr_todo := ls\<rparr>)"
| seeder_ends: "t \<in> set (sr_active r) \<Longrightarrow> seed_step r (r\<lparr>sr_active := remove1 t (sr_active r), sr_finished := t # sr_finished r\<rparr>)"
| seeder_fails: "t \<in> set (sr_active r) \<Longrightarrow> seed_step r (r\<lparr>sr_active := remove1 t (sr_active r), sr_failed := t # sr_failed r\<rparr>)"
| layer_raises: "sr_active r = [] \<Longrightarrow> sr_failed r \<noteq> [] \<Longrightarrow> \<not> sr_raised r \<Longrightarrow> seed_step r (r\<lparr>sr_raised := True\<rparr>)"

inductive seed_reachable :: "'t list list \<Rightarrow> 't seed_run \<Rightarrow> bool" for ls where
  seed_start: "seed_reachable ls \<lparr>sr_todo = ls, sr_active = [], sr_finished = [], sr_failed = [], sr_raised = False\<rparr>"
| seed_next: "seed_reachable ls r \<Longrightarrow> seed_step r r' \<Longrightarrow> seed_reachable ls r'"

definition seed_started :: "'t seed_run \<Rightarrow> 't set" where
  "seed_started r = set (sr_active r) \<union> set (sr_finished r) \<union> set (sr_failed r)"

section \<open>Layers\<close>

text \<open>Each target of a layer depends only on targets of earlier layers.\<close>

fun layered :: "('t \<Rightarrow> 't set) \<Rightarrow> 't set \<Rightarrow> 't list list \<Rightarrow> bool" where
  "layered deps before [] = True"
| "layered deps before (l # ls) \<longleftrightarrow> (\<forall>t \<in> set l. deps t \<subseteq> before) \<and> layered deps (before \<union> set l) ls"

lemma layered_mono: "layered deps before ls \<Longrightarrow> before \<subseteq> before' \<Longrightarrow> (\<And>t. t \<in> set (concat ls) \<Longrightarrow> deps' t \<subseteq> deps t \<union> before') \<Longrightarrow> layered deps' before' ls"
proof (induction ls arbitrary: before before')
  case (Cons l ls)
  have "layered deps' (before' \<union> set l) ls" by (rule Cons.IH [of "before \<union> set l"]) (use Cons.prems in auto)
  moreover have "deps' t \<subseteq> before'" if "t \<in> set l" for t using Cons.prems that by fastforce
  ultimately show ?case by simp
qed simp

definition edges :: "('t \<times> 't list) list \<Rightarrow> 't \<Rightarrow> 't set" where
  "edges graph t = {x. \<exists>deps. (t, deps) \<in> set graph \<and> x \<in> set deps}"

lemma edges_without: "edges (without layer graph) t = edges graph t - set layer"
  by (force simp: edges_def without_def)

text \<open>What a result of the sort is: every node once, in layers that respect the edges.\<close>

lemma layers_of_sound:
  assumes "layers_of graph = Inr ls" "distinct (map fst graph)"
  shows "distinct (concat ls) \<and> set (concat ls) = fst ` set graph \<and> (\<forall>l \<in> set ls. sorted l \<and> l \<noteq> []) \<and>
    layered (edges graph) {} ls"
  using assms
proof (induction graph arbitrary: ls rule: layers_of.induct)
  case (1 graph)
  show ?case
  proof (cases "graph = []")
    case True
    then show ?thesis using "1.prems" by (simp add: layers_of.simps)
  next
    case False
    let ?rest = "without (ready graph) graph"
    have "ready graph \<noteq> []" using "1.prems"(1) False by (auto simp: layers_of.simps [of graph])
    then obtain more where more: "layers_of ?rest = Inr more" "ls = sort (ready graph) # more"
      using "1.prems"(1) False by (auto simp: layers_of.simps [of graph] bindR_eq_Inr)
    have rest: "map fst ?rest = map fst (filter (\<lambda>(t, deps). deps \<noteq> []) graph)" by (simp add: without_def comp_def split_beta)
    have "distinct (map fst ?rest)" unfolding rest using "1.prems"(2) by (rule distinct_map_filter)
    from "1.IH" [OF False \<open>ready graph \<noteq> []\<close> more(1) this] have
        ih: "distinct (concat more)" "set (concat more) = fst ` set ?rest" "\<forall>l \<in> set more. sorted l \<and> l \<noteq> []"
          "layered (edges ?rest) {} more" by blast+
    have "distinct (ready graph)" unfolding ready_def using "1.prems"(2) by (rule distinct_map_filter)
    have split: "fst ` set graph = set (ready graph) \<union> fst ` set ?rest" by (force simp: ready_def without_def)
    have apart: "set (ready graph) \<inter> fst ` set ?rest = {}"
      using "1.prems"(2) by (auto simp: ready_def without_def dest: eq_key_imp_eq_value)
    have "layered (edges graph) (set (ready graph)) more"
      by (rule layered_mono [OF ih(4)]) (auto simp: edges_without)
    moreover have "edges graph t = {}" if "t \<in> set (ready graph)" for t
      using that "1.prems"(2) by (auto simp: ready_def edges_def dest: eq_key_imp_eq_value)
    moreover have "sort (ready graph) \<noteq> []" using \<open>ready graph \<noteq> []\<close> by (metis length_sort length_0_conv)
    ultimately show ?thesis using ih(1-3) \<open>distinct (ready graph)\<close> split apart
      by (auto simp: more(2) simp del: layered.simps(1))
  qed
qed

lemma kept_node: "d \<in> fst ` set graph \<Longrightarrow> d \<notin> set (ready graph) \<Longrightarrow> d \<in> fst ` set (without layer graph)"
  by (force simp: ready_def without_def)

text \<open>A graph whose edges stay inside it and descend has no circular dependency.\<close>

lemma layers_of_complete:
  fixes rank :: "'t :: linorder \<Rightarrow> nat"
  assumes "\<forall>t. edges graph t \<subseteq> {d \<in> fst ` set graph. rank d < rank t}"
  shows "\<exists>ls. layers_of graph = Inr ls"
  using assms
proof (induction graph rule: layers_of.induct)
  case (1 graph)
  show ?case
  proof (cases "graph = []")
    case True
    then show ?thesis by (simp add: layers_of.simps)
  next
    case False
    obtain t deps where t: "(t, deps) \<in> set graph" "\<forall>(u, _) \<in> set graph. rank t \<le> rank u"
      using False ex_min_if_finite [of "(rank \<circ> fst) ` set graph"] by (fastforce simp: not_less)
    have "deps = []"
    proof (rule ccontr)
      assume "deps \<noteq> []"
      then obtain d where "d \<in> set deps" by (cases deps) auto
      then have "d \<in> edges graph t" using t(1) by (auto simp: edges_def)
      then show False using "1.prems" t(2) by fastforce
    qed
    then have "t \<in> set (ready graph)" using t(1) by (force simp: ready_def)
    then have some: "ready graph \<noteq> []" by auto
    have "\<forall>t. edges (without (ready graph) graph) t \<subseteq> {d \<in> fst ` set (without (ready graph) graph). rank d < rank t}"
    proof (intro allI subsetI CollectI conjI)
      fix u d assume "d \<in> edges (without (ready graph) graph) u"
      then have d: "d \<in> edges graph u" "d \<notin> set (ready graph)" by (simp_all add: edges_without)
      have inside: "d \<in> {d \<in> fst ` set graph. rank d < rank u}" by (rule subsetD [OF "1.prems" [rule_format] d(1)])
      then show "rank d < rank u" by simp
      from inside have "d \<in> fst ` set graph" by simp
      then show "d \<in> fst ` set (without (ready graph) graph)" using d(2) by (rule kept_node)
    qed
    then obtain ls where "layers_of (without (ready graph) graph) = Inr ls" using "1.IH" [OF False some] by blast
    then show ?thesis using False some by (simp add: layers_of.simps [of graph])
  qed
qed

section \<open>The dependencies of the targets\<close>

definition depends :: "seeder_target \<Rightarrow> seeder_target \<Rightarrow> bool" where
  "depends t d \<longleftrightarrow> d \<in> set (DEPENDENCIES t)"

definition dep_closed :: "seeder_target list \<Rightarrow> bool" where
  "dep_closed ts \<longleftrightarrow> (\<forall>t \<in> set ts. set (DEPENDENCIES t) \<subseteq> set ts)"

definition visited :: "seeder_target list \<Rightarrow> seeder_target set \<Rightarrow> seeder_target list \<Rightarrow> bool" where
  "visited resolved new out \<longleftrightarrow> distinct out \<and> dep_closed out \<and> set resolved \<subseteq> set out \<and> new \<subseteq> set out \<and>
     set out \<subseteq> set resolved \<union> {d. \<exists>t \<in> new. depends\<^sup>*\<^sup>* t d}"

lemma fold_visited:
  assumes "\<And>t r. t \<in> set ts \<Longrightarrow> distinct r \<Longrightarrow> dep_closed r \<Longrightarrow> visited r {t} (visit t r)" "distinct r" "dep_closed r"
  shows "visited r (set ts) (fold visit ts r)"
  using assms
proof (induction ts arbitrary: r)
  case (Cons t ts)
  have one: "visited r {t} (visit t r)" using Cons.prems by simp
  then have "visited (visit t r) (set ts) (fold visit ts (visit t r))"
    using Cons.prems(1) by (intro Cons.IH) (auto simp: visited_def)
  with one show ?case unfolding visited_def by auto
qed (simp add: visited_def)

lemma visit_visited: "distinct r \<Longrightarrow> dep_closed r \<Longrightarrow> visited r {t} (visit t r)"
proof (induction t r rule: visit.induct)
  case (1 t r)
  show ?case
  proof (cases "t \<in> set r")
    case True
    then show ?thesis using "1.prems" by (auto simp: visited_def visit.simps [of t])
  next
    case False
    have deps: "visited r (set (DEPENDENCIES t)) (fold visit (DEPENDENCIES t) r)"
      by (rule fold_visited) (use "1" False in auto)
    moreover have "t \<notin> set (fold visit (DEPENDENCIES t) r)"
    proof
      assume "t \<in> set (fold visit (DEPENDENCIES t) r)"
      then obtain d where "d \<in> set (DEPENDENCIES t)" "depends\<^sup>*\<^sup>* d t" using deps False by (auto simp: visited_def)
      moreover have "seed_level t \<le> seed_level d" if "depends\<^sup>*\<^sup>* d t" for d
        using that by (induction rule: converse_rtranclp_induct) (auto simp: depends_def dest: level_decreases)
      ultimately show False using level_decreases by fastforce
    qed
    moreover have "{d. \<exists>u \<in> set (DEPENDENCIES t). depends\<^sup>*\<^sup>* u d} \<subseteq> {d. depends\<^sup>*\<^sup>* t d}"
      by (auto simp: depends_def intro: converse_rtranclp_into_rtranclp)
    moreover have "set (fold visit (DEPENDENCIES t) r) \<subseteq> set r \<union> {d. depends\<^sup>*\<^sup>* t d}"
      using calculation(1,3) unfolding visited_def by blast
    ultimately show ?thesis using False by (auto simp: visit.simps [of t] visited_def dep_closed_def)
  qed
qed

lemma resolve_layers:
  "\<exists>ls. resolve_dependencies targets = Inr ls \<and> distinct (concat ls) \<and> (\<forall>l \<in> set ls. sorted l \<and> l \<noteq> []) \<and>
    set (concat ls) = {d. \<exists>t \<in> set targets. depends\<^sup>*\<^sup>* t d} \<and> layered (set \<circ> DEPENDENCIES) {} ls"
proof -
  define all where "all = fold visit targets []"
  have "visited [] (set targets) all" unfolding all_def by (rule fold_visited) (auto simp: visit_visited dep_closed_def)
  then have all: "distinct all" "dep_closed all" "set targets \<subseteq> set all" "set all \<subseteq> {d. \<exists>t \<in> set targets. depends\<^sup>*\<^sup>* t d}"
    by (auto simp: visited_def)
  have "d \<in> set all" if "depends\<^sup>*\<^sup>* t d" "t \<in> set all" for t d
    using that all(2) by (induction rule: rtranclp_induct) (auto simp: depends_def dep_closed_def)
  then have reach: "set all = {d. \<exists>t \<in> set targets. depends\<^sup>*\<^sup>* t d}" using all(3,4) by blast
  let ?graph = "map (\<lambda>t. (t, filter (\<lambda>d. d \<in> set all) (DEPENDENCIES t))) all"
  have edges: "edges ?graph t = (if t \<in> set all then set (DEPENDENCIES t) else {})" for t
    using all(2) by (force simp: edges_def dep_closed_def)
  have names: "map fst ?graph = all" by (simp add: comp_def)
  have inside: "\<forall>t. edges ?graph t \<subseteq> {d \<in> fst ` set ?graph. seed_level d < seed_level t}"
    using all(2) level_decreases by (auto simp: edges dep_closed_def image_image split: if_splits)
  obtain ls where ls: "layers_of ?graph = Inr ls" using layers_of_complete [OF inside] by blast
  have keys: "fst ` set ?graph = set all" by (simp add: image_image)
  from layers_of_sound [OF ls, unfolded names, OF all(1)] have
      sound: "distinct (concat ls)" "set (concat ls) = set all" "\<forall>l \<in> set ls. sorted l \<and> l \<noteq> []" "layered (edges ?graph) {} ls"
    unfolding keys by blast+
  have "layered (set \<circ> DEPENDENCIES) {} ls"
    by (rule layered_mono [OF sound(4)]) (use sound(2) in \<open>auto simp: edges\<close>)
  then show ?thesis using ls sound reach by (auto simp: resolve_dependencies_def topological_layers_def all_def)
qed

section \<open>Runs\<close>

text \<open>Where a run stands: what started has its dependencies behind it, and the layers to come follow what is finished or runs.\<close>

definition run_sound :: "('t \<Rightarrow> 't set) \<Rightarrow> 't list list \<Rightarrow> 't seed_run \<Rightarrow> bool" where
  "run_sound deps ls r \<longleftrightarrow>
     (\<forall>t \<in> seed_started r. deps t \<subseteq> set (sr_finished r)) \<and>
     (sr_failed r = [] \<longrightarrow> layered deps (set (sr_active r) \<union> set (sr_finished r)) (sr_todo r)) \<and>
     seed_started r \<union> set (concat (sr_todo r)) = set (concat ls)"

lemma insert_remove1: "t \<in> set xs \<Longrightarrow> insert t (set (remove1 t xs)) = set xs"
  by (induction xs) auto

lemma run_step: "seed_step r r' \<Longrightarrow> run_sound deps ls r \<Longrightarrow> run_sound deps ls r'"
proof (induction rule: seed_step.induct)
  case (start_layer r layer rest)
  then show ?case by (auto simp: run_sound_def seed_started_def Un_commute)
next
  case (seeder_ends t r)
  have "insert t (set (remove1 t (sr_active r))) = set (sr_active r)" by (rule insert_remove1 [OF seeder_ends(1)])
  then have "set (remove1 t (sr_active r)) \<union> insert t X = set (sr_active r) \<union> X" for X by blast
  then show ?case using seeder_ends by (fastforce simp: run_sound_def seed_started_def)
next
  case (seeder_fails t r)
  have "insert t (set (remove1 t (sr_active r))) = set (sr_active r)" by (rule insert_remove1 [OF seeder_fails(1)])
  then have "set (remove1 t (sr_active r)) \<union> X \<union> insert t Y = set (sr_active r) \<union> X \<union> Y" for X Y by blast
  then show ?case using seeder_fails by (simp add: run_sound_def seed_started_def)
qed (auto simp: run_sound_def seed_started_def)

lemma run_reachable: "seed_reachable ls r \<Longrightarrow> layered deps {} ls \<Longrightarrow> run_sound deps ls r"
  by (induction rule: seed_reachable.induct) (auto simp: run_step, simp add: run_sound_def seed_started_def)

end
