(* ===== verification/Fixture_Coverage.thy ===== *)
theory Fixture_Coverage
  imports Actions Py_Text "HOL-Library.AList"
begin

text \<open>
  The registry that tracks which kinds of data the fixtures cover (\<^verbatim>\<open>src/app/fixtures/coverage.py\<close>) and the
  categories of numbers it uses (\<^verbatim>\<open>src/app/fixtures/categorization.py\<close>). Sets are lists without repetition. Python's
  \<^verbatim>\<open>str\<close> of a value that is no text is a parameter.
\<close>

section \<open>Categories of numbers\<close>

type_synonym ranges = "(string \<times> rat \<times> rat) list"

text \<open>Half-open intervals; the last one is closed.\<close>

fun categorize :: "ranges \<Rightarrow> rat \<Rightarrow> string option" where
  "categorize [] v = None"
| "categorize [(c, lo, hi)] v = (if lo \<le> v \<and> v \<le> hi then Some c else None)"
| "categorize ((c, lo, hi) # rest) v = (if lo \<le> v \<and> v < hi then Some c else categorize rest v)"

definition DIFFICULTY_CATEGORIZER :: ranges where
  "DIFFICULTY_CATEGORIZER = [(''easy'', 0, 2), (''medium'', 2, 5), (''hard'', 5, 7), (''expert'', 7, 999)]"

definition PLAYCOUNT_CATEGORIZER :: ranges where
  "PLAYCOUNT_CATEGORIZER = [(''low'', 0, 100), (''medium'', 100, 1000), (''high'', 1000, 999999999)]"

definition BPM_CATEGORIZER :: ranges where
  "BPM_CATEGORIZER = [(''low'', 0, 90), (''medium'', 90, 150), (''high'', 150, 9999)]"

definition ACCURACY_CATEGORIZER :: ranges where
  "ACCURACY_CATEGORIZER = [(''low'', 0, 80), (''medium'', 80, 95), (''high'', 95, 10001 / 100)]"

definition HIT_LENGTH_CATEGORIZER :: ranges where
  "HIT_LENGTH_CATEGORIZER = [(''short'', 0, 60), (''medium'', 60, 180), (''long'', 180, 99999)]"

definition MAX_COMBO_CATEGORIZER :: ranges where
  "MAX_COMBO_CATEGORIZER = [(''low'', 0, 500), (''medium'', 500, 1500), (''high'', 1500, 9999999)]"

definition DRAIN_CATEGORIZER :: ranges where
  "DRAIN_CATEGORIZER = [(''low'', 0, 3), (''medium'', 3, 6), (''high'', 6, 99)]"

definition AR_CATEGORIZER :: ranges where
  "AR_CATEGORIZER = [(''low'', 0, 3), (''medium'', 3, 6), (''high'', 6, 99)]"

definition CS_CATEGORIZER :: ranges where
  "CS_CATEGORIZER = [(''low'', 0, 3), (''medium'', 3, 11 / 2), (''high'', 11 / 2, 99)]"

definition RATING_CATEGORIZER :: ranges where
  "RATING_CATEGORIZER = [(''low'', 0, 2), (''medium'', 2, 7 / 2), (''high'', 7 / 2, 99)]"

definition FAVOURITE_COUNT_CATEGORIZER :: ranges where
  "FAVOURITE_COUNT_CATEGORIZER = [(''low'', 0, 10), (''medium'', 10, 100), (''high'', 100, 9999999)]"

definition PLAY_COUNT_CATEGORIZER :: ranges where
  "PLAY_COUNT_CATEGORIZER = [(''low'', 0, 100), (''medium'', 100, 1000), (''high'', 1000, 999999999)]"

text \<open>Ranges that follow each other without a gap.\<close>

fun contiguous :: "ranges \<Rightarrow> bool" where
  "contiguous ((c, lo, hi) # (c', lo', hi') # rest) \<longleftrightarrow> lo \<le> hi \<and> hi = lo' \<and> contiguous ((c', lo', hi') # rest)"
| "contiguous [(c, lo, hi)] \<longleftrightarrow> lo \<le> hi"
| "contiguous [] \<longleftrightarrow> False"

lemma contiguous_bounds: "contiguous rs \<Longrightarrow> fst (snd (hd rs)) \<le> snd (snd (last rs))"
  by (induction rs rule: contiguous.induct) (auto split: if_splits)

lemma categorize_complete:
  assumes "contiguous rs"
  shows "(\<exists>c. categorize rs v = Some c) \<longleftrightarrow> fst (snd (hd rs)) \<le> v \<and> v \<le> snd (snd (last rs))"
  using assms
proof (induction rs rule: contiguous.induct)
  case (1 c lo hi c' lo' hi' rest)
  have "lo' \<le> snd (snd (last ((c', lo', hi') # rest)))" using contiguous_bounds [of "(c', lo', hi') # rest"] "1.prems" by simp
  then show ?case using "1" by (auto simp: not_less)
qed simp_all

section \<open>Buckets\<close>

datatype bucket_type = SET_BUCKET | DICT_BUCKET | BOOL_BUCKET

record bucket =
  bk_type :: bucket_type
  bk_rarity :: rat
  bk_min :: int

datatype bucket_data = SetData "json list" | DictData "(json \<times> int list) list" | BoolData bool

record coverage_registry =
  rg_buckets :: "(string \<times> bucket) list"
  rg_data :: "(string \<times> bucket_data) list"
  rg_new :: "(string \<times> json list) list"

text \<open>The equality of keys: truth values and integral floats are equal to integers.\<close>

fun key_of :: "json \<Rightarrow> json" where
  "key_of (JBool b) = JInt (if b then 1 else 0)"
| "key_of (JFloat q) = (if of_int \<lfloor>q\<rfloor> = q then JInt \<lfloor>q\<rfloor> else JFloat q)"
| "key_of v = v"

definition can_hash :: "json \<Rightarrow> bool" where
  "can_hash v = (case v of JList _ \<Rightarrow> False | JDict _ \<Rightarrow> False | _ \<Rightarrow> True)"

fun set_add :: "json \<Rightarrow> json list \<Rightarrow> json list" where
  "set_add v [] = [v]"
| "set_add v (x # xs) = (if key_of x = key_of v then x # xs else x # set_add v xs)"

fun dict_add :: "json \<Rightarrow> int \<Rightarrow> (json \<times> int list) list \<Rightarrow> (json \<times> int list) list" where
  "dict_add k i [] = [(k, [i])]"
| "dict_add k i ((k', ids) # rest) =
     (if key_of k' = key_of k then (k', List.insert i ids) # rest else (k', ids) # dict_add k i rest)"

definition entry :: "json \<Rightarrow> (json \<times> int list) list \<Rightarrow> int list option" where
  "entry k m = map_option snd (find (\<lambda>(k', _). key_of k' = key_of k) m)"

definition newly :: "string \<Rightarrow> json \<Rightarrow> (string \<times> json list) list \<Rightarrow> (string \<times> json list) list" where
  "newly name v new = AList.update name (set_add v (case map_of new name of Some vs \<Rightarrow> vs | None \<Rightarrow> [])) new"

definition empty_data :: "bucket_type \<Rightarrow> bucket_data" where
  "empty_data t = (case t of SET_BUCKET \<Rightarrow> SetData [] | DICT_BUCKET \<Rightarrow> DictData [] | BOOL_BUCKET \<Rightarrow> BoolData False)"

definition data_truthy :: "bucket_data \<Rightarrow> bool" where
  "data_truthy d = (case d of SetData xs \<Rightarrow> xs \<noteq> [] | DictData m \<Rightarrow> m \<noteq> [] | BoolData b \<Rightarrow> b)"

definition register_bucket :: "string \<Rightarrow> bucket \<Rightarrow> coverage_registry \<Rightarrow> coverage_registry" where
  "register_bucket name b G =
     G\<lparr>rg_buckets := AList.update name b (rg_buckets G),
       rg_data := (if map_of (rg_data G) name = None then AList.update name (empty_data (bk_type b)) (rg_data G) else rg_data G)\<rparr>"

definition default_buckets :: "(string \<times> bucket_type \<times> rat) list" where
  "default_buckets =
     [(''fetched_beatmapset_genres'', DICT_BUCKET, 1), (''fetched_beatmapset_languages'', DICT_BUCKET, 1), (''fetched_beatmapset_nsfw'', DICT_BUCKET, 5 / 2),
      (''fetched_beatmapset_statuses'', SET_BUCKET, 1), (''fetched_beatmapset_titles'', SET_BUCKET, 1), (''fetched_beatmapset_artists'', SET_BUCKET, 1),
      (''fetched_beatmapset_creators'', SET_BUCKET, 1), (''fetched_beatmapset_sources'', SET_BUCKET, 1), (''fetched_beatmapset_tags'', SET_BUCKET, 1),
      (''fetched_beatmapset_ratings'', DICT_BUCKET, 1), (''fetched_beatmapset_favourite_counts'', DICT_BUCKET, 1), (''fetched_beatmapset_play_counts'', DICT_BUCKET, 1),
      (''fetched_beatmapset_has_description'', BOOL_BUCKET, 1), (''fetched_beatmapset_has_pack_tags'', BOOL_BUCKET, 1), (''fetched_beatmapset_videos'', BOOL_BUCKET, 1),
      (''fetched_beatmapset_storyboards'', BOOL_BUCKET, 1), (''fetched_beatmapset_discussions'', BOOL_BUCKET, 1), (''fetched_beatmapset_hype'', BOOL_BUCKET, 1),
      (''fetched_beatmapset_nominations'', BOOL_BUCKET, 1), (''fetched_beatmapset_sr_gaps'', BOOL_BUCKET, 1), (''fetched_beatmapset_hit_lengths'', BOOL_BUCKET, 1),
      (''fetched_beatmap_modes'', DICT_BUCKET, 1), (''fetched_beatmap_statuses'', DICT_BUCKET, 1), (''fetched_beatmap_difficulties'', DICT_BUCKET, 1),
      (''fetched_beatmap_playcounts'', DICT_BUCKET, 1), (''fetched_beatmap_versions'', SET_BUCKET, 1), (''fetched_beatmap_bpm'', DICT_BUCKET, 1),
      (''fetched_beatmap_accuracy'', DICT_BUCKET, 1), (''fetched_beatmap_hit_lengths'', DICT_BUCKET, 1), (''fetched_beatmap_max_combos'', DICT_BUCKET, 1),
      (''fetched_beatmap_drain'', DICT_BUCKET, 1), (''fetched_beatmap_ar'', DICT_BUCKET, 1), (''fetched_beatmap_cs'', DICT_BUCKET, 1),
      (''fetched_country_codes'', DICT_BUCKET, 1), (''fetched_restricted_users'', DICT_BUCKET, 3)]"

definition default_coverage :: coverage_registry where
  "default_coverage = fold (\<lambda>(name, t, w). register_bucket name \<lparr>bk_type = t, bk_rarity = w, bk_min = 1\<rparr>) default_buckets
     \<lparr>rg_buckets = [], rg_data = [], rg_new = []\<rparr>"

section \<open>Filling\<close>

definition data_or :: "coverage_registry \<Rightarrow> string \<Rightarrow> bucket_data \<Rightarrow> bucket_data" where
  "data_or G name absent = (case map_of (rg_data G) name of Some d \<Rightarrow> d | None \<Rightarrow> absent)"

definition add_to_dict_bucket :: "string \<Rightarrow> json \<Rightarrow> int \<Rightarrow> (coverage_registry, unit) act" where
  "add_to_dict_bucket name k i = readS (\<lambda>G.
     case data_or G name (DictData []) of
       DictData m \<Rightarrow>
         if \<not> can_hash k then raiseS (PyExc ''TypeError'')
         else changeS (\<lambda>G. G\<lparr>rg_data := AList.update name (DictData (dict_add k i m)) (rg_data G),
                rg_new := (if map_option length (entry k (dict_add k i m)) = Some 1 then newly name (JInt i) (rg_new G) else rg_new G)\<rparr>)
     | _ \<Rightarrow> raiseS (PyExc ''TypeError''))"

definition add_to_set_bucket :: "string \<Rightarrow> json \<Rightarrow> int \<Rightarrow> (coverage_registry, unit) act" where
  "add_to_set_bucket name v i = readS (\<lambda>G.
     case data_or G name (SetData []) of
       SetData xs \<Rightarrow>
         if \<not> can_hash v then raiseS (PyExc ''TypeError'')
         else changeS (\<lambda>G. G\<lparr>rg_data := AList.update name (SetData (set_add v xs)) (rg_data G),
                rg_new := (if length (set_add v xs) = 1 then newly name (JInt i) (rg_new G) else rg_new G)\<rparr>)
     | _ \<Rightarrow> raiseS (PyExc ''AttributeError''))"

text \<open>A truth value is recorded with the name of its bucket in place of the item.\<close>

definition set_bool_bucket :: "string \<Rightarrow> (coverage_registry, unit) act" where
  "set_bool_bucket name = readS (\<lambda>G.
     if data_truthy (data_or G name (BoolData False)) then retS ()
     else changeS (\<lambda>G. G\<lparr>rg_data := AList.update name (BoolData True) (rg_data G), rg_new := newly name (JStr name) (rg_new G)\<rparr>))"

section \<open>Classification\<close>

fun steps :: "('s, unit) act list \<Rightarrow> ('s, unit) act" where
  "steps [] = retS ()"
| "steps (m # ms) = bindS m (\<lambda>_. steps ms)"

definition present :: "dict \<Rightarrow> string \<Rightarrow> (json \<Rightarrow> ('s, unit) act) \<Rightarrow> ('s, unit) act" where
  "present data k f = (if dget data k = JNull then retS () else f (dget data k))"

definition when_truthy :: "json \<Rightarrow> (json \<Rightarrow> ('s, unit) act) \<Rightarrow> ('s, unit) act" where
  "when_truthy v f = (if truthy v then f v else retS ())"

definition number_of :: "json \<Rightarrow> rat res" where
  "number_of v = (case v of JInt n \<Rightarrow> Inr (of_int n) | JFloat q \<Rightarrow> Inr q | JBool b \<Rightarrow> Inr (if b then 1 else 0) | _ \<Rightarrow> Inl (PyExc ''TypeError''))"

definition add_category :: "string \<Rightarrow> ranges \<Rightarrow> int \<Rightarrow> json \<Rightarrow> (coverage_registry, unit) act" where
  "add_category name rs i v = bindS (liftS (number_of v)) (\<lambda>q.
     case categorize rs q of Some c \<Rightarrow> add_to_dict_bucket name (JStr c) i | None \<Rightarrow> retS ())"

definition classify_beatmap :: "(json \<Rightarrow> string) \<Rightarrow> dict \<Rightarrow> int \<Rightarrow> (coverage_registry, unit) act" where
  "classify_beatmap str data i = steps
     [present data ''mode_int'' (\<lambda>v. add_to_dict_bucket ''fetched_beatmap_modes'' v i),
      present data ''status'' (\<lambda>v. add_to_dict_bucket ''fetched_beatmap_statuses'' (JStr (str v)) i),
      present data ''difficulty_rating'' (add_category ''fetched_beatmap_difficulties'' DIFFICULTY_CATEGORIZER i),
      present data ''playcount'' (add_category ''fetched_beatmap_playcounts'' PLAYCOUNT_CATEGORIZER i),
      present data ''bpm'' (add_category ''fetched_beatmap_bpm'' BPM_CATEGORIZER i),
      present data ''accuracy'' (add_category ''fetched_beatmap_accuracy'' ACCURACY_CATEGORIZER i),
      present data ''hit_length'' (add_category ''fetched_beatmap_hit_lengths'' HIT_LENGTH_CATEGORIZER i),
      present data ''max_combo'' (add_category ''fetched_beatmap_max_combos'' MAX_COMBO_CATEGORIZER i),
      present data ''drain'' (add_category ''fetched_beatmap_drain'' DRAIN_CATEGORIZER i),
      present data ''ar'' (add_category ''fetched_beatmap_ar'' AR_CATEGORIZER i),
      present data ''cs'' (add_category ''fetched_beatmap_cs'' CS_CATEGORIZER i),
      when_truthy (dget data ''version'') (\<lambda>v. add_to_set_bucket ''fetched_beatmap_versions'' v i)]"

text \<open>\<^verbatim>\<open>a or b or ""\<close>, \<^verbatim>\<open>text[:30]\<close> and \<^verbatim>\<open>text.split()\<close>.\<close>

definition either :: "dict \<Rightarrow> string list \<Rightarrow> json" where
  "either data ks = (case find (\<lambda>k. truthy (dget data k)) ks of Some k \<Rightarrow> dget data k | None \<Rightarrow> JStr [])"

definition prefix30 :: "json \<Rightarrow> json res" where
  "prefix30 v = (case v of JStr s \<Rightarrow> Inr (JStr (take 30 s)) | _ \<Rightarrow> Inl (PyExc ''TypeError''))"

fun words_of :: "string \<Rightarrow> string \<Rightarrow> string list" where
  "words_of w [] = (if w = [] then [] else [rev w])"
| "words_of w (c # rest) =
     (if is_space c then (if w = [] then words_of [] rest else rev w # words_of [] rest) else words_of (c # w) rest)"

definition nested_id :: "json \<Rightarrow> (json \<Rightarrow> (coverage_registry, unit) act) \<Rightarrow> (coverage_registry, unit) act" where
  "nested_id v f = (case v of JDict d \<Rightarrow> if d = [] then retS () else present d ''id'' f | _ \<Rightarrow> retS ())"

definition described :: "(json \<Rightarrow> string) \<Rightarrow> json \<Rightarrow> bool res" where
  "described str v =
     (case v of
        JDict d \<Rightarrow>
          (case dget_or d ''description'' (JStr []) of
             JStr s \<Rightarrow> Inr (s \<noteq> [] \<and> strip s \<noteq> [])
           | w \<Rightarrow> if truthy w then Inl (PyExc ''AttributeError'') else Inr False)
      | _ \<Rightarrow> Inr (str v \<noteq> [] \<and> strip (str v) \<noteq> []))"

definition beatmaps_have :: "string \<Rightarrow> json \<Rightarrow> bool res" where
  "beatmaps_have k v =
     (case v of
        JList bms \<Rightarrow> bindR (map_res (\<lambda>bm. case bm of JDict d \<Rightarrow> Inr (dget d k \<noteq> JNull) | _ \<Rightarrow> Inl (PyExc ''AttributeError'')) bms) (\<lambda>bs. Inr (True \<in> set bs))
      | JDict d \<Rightarrow> if d = [] then Inr False else Inl (PyExc ''AttributeError'')
      | JStr s \<Rightarrow> if s = [] then Inr False else Inl (PyExc ''AttributeError'')
      | _ \<Rightarrow> Inl (PyExc ''TypeError''))"

definition classify_beatmapset :: "(json \<Rightarrow> string) \<Rightarrow> dict \<Rightarrow> int \<Rightarrow> (coverage_registry, unit) act" where
  "classify_beatmapset str data i = steps
     [nested_id (dget data ''genre'') (\<lambda>v. add_to_dict_bucket ''fetched_beatmapset_genres'' v i),
      nested_id (dget data ''language'') (\<lambda>v. add_to_dict_bucket ''fetched_beatmapset_languages'' v i),
      add_to_dict_bucket ''fetched_beatmapset_nsfw'' (JBool (truthy (dget_or data ''nsfw'' (JBool False)))) i,
      when_truthy (dget data ''status'') (\<lambda>v. add_to_set_bucket ''fetched_beatmapset_statuses'' (JStr (str v)) i),
      when_truthy (either data [''title'', ''title_unicode'']) (\<lambda>v. bindS (liftS (prefix30 v)) (\<lambda>w. add_to_set_bucket ''fetched_beatmapset_titles'' w i)),
      when_truthy (either data [''artist'', ''artist_unicode'']) (\<lambda>v. bindS (liftS (prefix30 v)) (\<lambda>w. add_to_set_bucket ''fetched_beatmapset_artists'' w i)),
      when_truthy (dget data ''creator'') (\<lambda>v. add_to_set_bucket ''fetched_beatmapset_creators'' v i),
      when_truthy (dget data ''source'') (\<lambda>v. add_to_set_bucket ''fetched_beatmapset_sources'' v i),
      when_truthy (dget data ''tags'') (\<lambda>v. steps (map (\<lambda>tag. add_to_set_bucket ''fetched_beatmapset_tags'' (JStr tag) i) (words_of [] (str v)))),
      present data ''rating'' (add_category ''fetched_beatmapset_ratings'' RATING_CATEGORIZER i),
      present data ''favourite_count'' (add_category ''fetched_beatmapset_favourite_counts'' FAVOURITE_COUNT_CATEGORIZER i),
      present data ''play_count'' (add_category ''fetched_beatmapset_play_counts'' PLAY_COUNT_CATEGORIZER i),
      when_truthy (dget data ''description'') (\<lambda>v. bindS (liftS (described str v)) (\<lambda>b. if b then set_bool_bucket ''fetched_beatmapset_has_description'' else retS ())),
      when_truthy (dget data ''pack_tags'') (\<lambda>_. set_bool_bucket ''fetched_beatmapset_has_pack_tags''),
      when_truthy (dget data ''video'') (\<lambda>_. set_bool_bucket ''fetched_beatmapset_videos''),
      when_truthy (dget data ''storyboard'') (\<lambda>_. set_bool_bucket ''fetched_beatmapset_storyboards''),
      present data ''discussion_enabled'' (\<lambda>_. set_bool_bucket ''fetched_beatmapset_discussions''),
      present data ''hype'' (\<lambda>_. set_bool_bucket ''fetched_beatmapset_hype''),
      (case dget data ''current_nominations'' of JDict d \<Rightarrow> when_truthy (dget d ''nominators'') (\<lambda>_. set_bool_bucket ''fetched_beatmapset_nominations'') | _ \<Rightarrow> retS ()),
      bindS (liftS (beatmaps_have ''difficulty_rating'' (dget_or data ''beatmaps'' (JList [])))) (\<lambda>b. if b then set_bool_bucket ''fetched_beatmapset_sr_gaps'' else retS ()),
      bindS (liftS (beatmaps_have ''hit_length'' (dget_or data ''beatmaps'' (JList [])))) (\<lambda>b. if b then set_bool_bucket ''fetched_beatmapset_hit_lengths'' else retS ())]"

definition classify_user :: "dict \<Rightarrow> int \<Rightarrow> (coverage_registry, unit) act" where
  "classify_user data i = steps
     [when_truthy (dget data ''country_code'') (\<lambda>v. add_to_dict_bucket ''fetched_country_codes'' v i),
      add_to_dict_bucket ''fetched_restricted_users'' (JBool (truthy (dget_or data ''is_restricted'' (JBool False)))) i]"

definition classify :: "(json \<Rightarrow> string) \<Rightarrow> dict \<Rightarrow> string \<Rightarrow> int \<Rightarrow> (coverage_registry, (string \<times> json list) list) act" where
  "classify str data data_type i =
     bindS (changeS (\<lambda>G. G\<lparr>rg_new := []\<rparr>)) (\<lambda>_.
     bindS (if data_type = ''beatmap'' then classify_beatmap str data i
            else if data_type = ''beatmapset'' then classify_beatmapset str data i
            else if data_type = ''user'' then classify_user data i
            else retS ()) (\<lambda>_. readS (\<lambda>G. retS (rg_new G))))"

section \<open>Coverage\<close>

definition data_len :: "bucket_data \<Rightarrow> int res" where
  "data_len d = (case d of SetData xs \<Rightarrow> Inr (int (length xs)) | DictData m \<Rightarrow> Inr (int (length m)) | BoolData _ \<Rightarrow> Inl (PyExc ''TypeError''))"

definition is_covered :: "coverage_registry \<Rightarrow> string \<Rightarrow> json option \<Rightarrow> bool res" where
  "is_covered G name category =
     (case (map_of (rg_buckets G) name, map_of (rg_data G) name) of
        (Some b, Some d) \<Rightarrow>
          (case bk_type b of
             SET_BUCKET \<Rightarrow> bindR (data_len d) (\<lambda>n. Inr (bk_min b \<le> n))
           | DICT_BUCKET \<Rightarrow>
               (case (d, category) of
                  (DictData m, Some c) \<Rightarrow>
                    if \<not> can_hash c then Inl (PyExc ''TypeError'')
                    else Inr (case entry c m of None \<Rightarrow> False | Some ids \<Rightarrow> bk_min b \<le> int (length ids))
                | (DictData m, None) \<Rightarrow> Inr (m \<noteq> [] \<and> (\<forall>(k, ids) \<in> set m. bk_min b \<le> int (length ids)))
                | (_, None) \<Rightarrow> if data_truthy d then Inl (PyExc ''AttributeError'') else Inr False
                | _ \<Rightarrow> Inl (PyExc ''AttributeError''))
           | BOOL_BUCKET \<Rightarrow> Inr (data_truthy d))
      | _ \<Rightarrow> Inr True)"

definition min_or :: "int \<Rightarrow> int list \<Rightarrow> int" where
  "min_or absent ns = (case ns of [] \<Rightarrow> absent | n # rest \<Rightarrow> fold min rest n)"

definition bucket_count :: "bucket \<Rightarrow> bucket_data \<Rightarrow> json option \<Rightarrow> int res" where
  "bucket_count b d category =
     (case bk_type b of
        SET_BUCKET \<Rightarrow> data_len d
      | DICT_BUCKET \<Rightarrow>
          (case d of
             DictData m \<Rightarrow>
               Inr (case category of
                   Some c \<Rightarrow> (case entry c m of Some ids \<Rightarrow> int (length ids) | None \<Rightarrow> 0)
                 | None \<Rightarrow> min_or 0 (map (\<lambda>(_, ids). int (length ids)) m))
           | _ \<Rightarrow> Inl (PyExc ''AttributeError''))
      | BOOL_BUCKET \<Rightarrow> Inr (if data_truthy d then 1 else 0))"

definition bucket_urgency :: "coverage_registry \<Rightarrow> string \<Rightarrow> json option \<Rightarrow> rat res" where
  "bucket_urgency G name category =
     bindR (is_covered G name category) (\<lambda>covered.
       if covered then Inr 0
       else (case (map_of (rg_buckets G) name, map_of (rg_data G) name) of
           (Some b, Some d) \<Rightarrow> bindR (bucket_count b d category) (\<lambda>n.
             Inr (if n = 0 then bk_rarity b * 2 else if n < bk_min b then bk_rarity b else 0))
         | _ \<Rightarrow> Inr 0))"

definition total_uncovered :: "coverage_registry \<Rightarrow> (int \<times> int) res" where
  "total_uncovered G =
     bindR (map_res (\<lambda>(name, b). bindR (is_covered G name None) (\<lambda>c. Inr (c, b))) (rg_buckets G)) (\<lambda>cs.
       Inr (int (length (filter (\<lambda>(c, b). \<not> c) cs)), int (length (filter (\<lambda>(c, b). \<not> c \<and> \<not> bk_rarity b < 2) cs))))"

definition all_covered :: "coverage_registry \<Rightarrow> bool res" where
  "all_covered G = bindR (total_uncovered G) (\<lambda>(n, _). Inr (n = 0))"

section \<open>Reports\<close>

definition get_status :: "(json \<Rightarrow> string) \<Rightarrow> coverage_registry \<Rightarrow> (string \<times> (string \<times> bool) list) list res" where
  "get_status str G = map_res (\<lambda>(name, b).
     let d = data_or G name (DictData []) in
     case (bk_type b, d) of
       (SET_BUCKET, SetData xs) \<Rightarrow> Inr (name, map (\<lambda>x. (str x, True)) xs)
     | (SET_BUCKET, DictData m) \<Rightarrow> Inr (name, map (\<lambda>(k, _). (str k, True)) m)
     | (SET_BUCKET, BoolData _) \<Rightarrow> Inl (PyExc ''TypeError'')
     | (DICT_BUCKET, DictData m) \<Rightarrow> Inr (name, map (\<lambda>(k, ids). (str k, bk_min b \<le> int (length ids))) m)
     | (DICT_BUCKET, _) \<Rightarrow> Inl (PyExc ''AttributeError'')
     | (BOOL_BUCKET, _) \<Rightarrow> Inr (name, [(''covered'', data_truthy d)])) (rg_buckets G)"

definition GENRE_NAMES :: "(int \<times> string) list" where
  "GENRE_NAMES = [(0, ''Any''), (1, ''Unspecified''), (2, ''Video Game''), (3, ''Anime''), (4, ''Rock''), (5, ''Pop''), (6, ''Other''), (7, ''Novelty''),
     (9, ''Hip Hop''), (10, ''Electronic''), (11, ''Metal''), (12, ''Classical''), (13, ''Folk''), (14, ''Jazz'')]"

definition LANGUAGE_NAMES :: "(int \<times> string) list" where
  "LANGUAGE_NAMES = [(0, ''Any''), (1, ''Unspecified''), (2, ''English''), (3, ''Japanese''), (4, ''Chinese''), (5, ''Instrumental''), (6, ''Korean''),
     (7, ''French''), (8, ''German''), (9, ''Swedish''), (10, ''Spanish''), (11, ''Italian''), (12, ''Russian''), (13, ''Polish''), (14, ''Other'')]"

definition BEATMAP_MODE_NAMES :: "(int \<times> string) list" where
  "BEATMAP_MODE_NAMES = [(0, ''osu''), (1, ''taiko''), (2, ''catch''), (3, ''mania'')]"

definition BEATMAP_STATUS_NAMES :: "(int \<times> string) list" where
  "BEATMAP_STATUS_NAMES = [(-2, ''wip''), (-1, ''pending''), (0, ''qualified''), (1, ''loved''), (2, ''ranked''), (3, ''approved''), (4, ''deleted''), (5, ''graveyard'')]"

definition name_in :: "(int \<times> string) list \<Rightarrow> json \<Rightarrow> json" where
  "name_in names k = (case key_of k of JInt n \<Rightarrow> (case map_of names n of Some s \<Rightarrow> JStr s | None \<Rightarrow> JStr ''Unknown'') | _ \<Rightarrow> JStr ''Unknown'')"

definition status_name :: "json \<Rightarrow> json res" where
  "status_name k =
     bindR (case k of JStr s \<Rightarrow> py_int s | JInt n \<Rightarrow> Inr n | JBool b \<Rightarrow> Inr (if b then 1 else 0)
            | JFloat q \<Rightarrow> Inr (if q < 0 then - \<lfloor>- q\<rfloor> else \<lfloor>q\<rfloor>) | _ \<Rightarrow> Inl (PyExc ''TypeError'')) (\<lambda>n.
       Inr (case map_of BEATMAP_STATUS_NAMES n of Some t \<Rightarrow> JStr t | None \<Rightarrow> k))"

definition has_part :: "string \<Rightarrow> string \<Rightarrow> bool" where
  "has_part part s \<longleftrightarrow> (\<exists>i \<in> set [0..<Suc (length s)]. take (length part) (drop i s) = part)"

text \<open>\<^verbatim>\<open>sorted\<close> by a comparison of texts or numbers.\<close>

fun text_less :: "string \<Rightarrow> string \<Rightarrow> bool" where
  "text_less s [] = False"
| "text_less [] (c # t) = True"
| "text_less (a # s) (c # t) = (if a = c then text_less s t else (of_char a :: nat) < of_char c)"

definition less_than :: "json \<Rightarrow> json \<Rightarrow> bool res" where
  "less_than v w =
     (case (v, w) of
        (JStr s, JStr t) \<Rightarrow> Inr (text_less s t)
      | _ \<Rightarrow> bindR (number_of v) (\<lambda>a. bindR (number_of w) (\<lambda>b. Inr (a < b))))"

fun insert_sorted :: "json \<Rightarrow> json list \<Rightarrow> json list res" where
  "insert_sorted v [] = Inr [v]"
| "insert_sorted v (x # xs) = bindR (less_than v x) (\<lambda>b. if b then Inr (v # x # xs) else bindR (insert_sorted v xs) (\<lambda>ys. Inr (x # ys)))"

fun sorted_values :: "json list \<Rightarrow> json list res" where
  "sorted_values [] = Inr []"
| "sorted_values (v # vs) = bindR (sorted_values vs) (insert_sorted v)"

datatype report_entry =
    Values "json list"
  | Named "(json \<times> json \<times> int \<times> int list) list"
  | Counted "(json \<times> int \<times> int list) list"
  | Flag bool

definition named_entry :: "(json \<Rightarrow> json res) \<Rightarrow> (json \<times> int list) list \<Rightarrow> report_entry res" where
  "named_entry f m = bindR (map_res (\<lambda>(k, ids). bindR (f k) (\<lambda>n. Inr (k, n, int (length ids), sort ids))) m) (\<lambda>es. Inr (Named es))"

definition dict_report :: "string \<Rightarrow> (json \<times> int list) list \<Rightarrow> report_entry res" where
  "dict_report name m =
     (if has_part ''genre'' name then named_entry (\<lambda>k. Inr (name_in GENRE_NAMES k)) m
      else if has_part ''language'' name then named_entry (\<lambda>k. Inr (name_in LANGUAGE_NAMES k)) m
      else if has_part ''mode'' name then named_entry (\<lambda>k. Inr (name_in BEATMAP_MODE_NAMES k)) m
      else if has_part ''status'' name \<and> has_part ''beatmap'' name then named_entry status_name m
      else Inr (Counted (map (\<lambda>(k, ids). (k, int (length ids), sort ids)) m)))"

definition get_coverage_report :: "coverage_registry \<Rightarrow> (string \<times> report_entry) list res" where
  "get_coverage_report G = map_res (\<lambda>(name, b).
     let d = data_or G name (DictData []) in
     bindR (case (bk_type b, d) of
        (SET_BUCKET, SetData xs) \<Rightarrow> bindR (sorted_values xs) (\<lambda>ys. Inr (Values (take 20 ys)))
      | (SET_BUCKET, DictData m) \<Rightarrow> bindR (sorted_values (map fst m)) (\<lambda>ys. Inr (Values (take 20 ys)))
      | (SET_BUCKET, BoolData _) \<Rightarrow> Inl (PyExc ''TypeError'')
      | (DICT_BUCKET, DictData m) \<Rightarrow> dict_report name m
      | (DICT_BUCKET, _) \<Rightarrow> Inl (PyExc ''AttributeError'')
      | (BOOL_BUCKET, _) \<Rightarrow> Inr (Flag (data_truthy d))) (\<lambda>e. Inr (name, e))) (rg_buckets G)"

end
