(* ===== verification/Fixture_Growth.thy ===== *)
theory Fixture_Growth
  imports Fixture_Coverage
begin

text \<open>
  What the classification of items can do to the registry of coverage: the data of each bucket keep their kind and
  only grow.
\<close>

section \<open>Growth of the data\<close>

fun data_kind :: "bucket_data \<Rightarrow> bucket_type" where
  "data_kind (SetData _) = SET_BUCKET"
| "data_kind (DictData _) = DICT_BUCKET"
| "data_kind (BoolData _) = BOOL_BUCKET"

definition filled :: "(json \<times> int list) list \<Rightarrow> bool" where
  "filled m \<longleftrightarrow> (\<forall>(k, ids) \<in> set m. ids \<noteq> [])"

fun data_sound :: "bucket_data \<Rightarrow> bool" where
  "data_sound (DictData m) = filled m"
| "data_sound _ = True"

definition dict_grows :: "(json \<times> int list) list \<Rightarrow> (json \<times> int list) list \<Rightarrow> bool" where
  "dict_grows m m' \<longleftrightarrow> (m \<noteq> [] \<longrightarrow> m' \<noteq> []) \<and>
     (\<forall>c ids. entry c m = Some ids \<longrightarrow> (\<exists>ids'. entry c m' = Some ids' \<and> length ids \<le> length ids'))"

lemma dict_grows_trans:
  assumes "dict_grows m m'" "dict_grows m' m''"
  shows "dict_grows m m''"
  unfolding dict_grows_def
proof (intro conjI allI impI)
  fix c ids assume "entry c m = Some ids"
  then obtain ids' where ids': "entry c m' = Some ids'" "length ids \<le> length ids'" using assms(1) unfolding dict_grows_def by blast
  then obtain ids'' where "entry c m'' = Some ids''" "length ids' \<le> length ids''" using assms(2) unfolding dict_grows_def by blast
  then show "\<exists>ids'. entry c m'' = Some ids' \<and> length ids \<le> length ids'" using ids'(2) by (intro exI [of _ ids'']) simp
qed (use assms in \<open>unfold dict_grows_def, blast\<close>)

fun data_grows :: "bucket_data \<Rightarrow> bucket_data \<Rightarrow> bool" where
  "data_grows (SetData xs) (SetData ys) \<longleftrightarrow> length xs \<le> length ys"
| "data_grows (DictData m) (DictData m') \<longleftrightarrow> dict_grows m m'"
| "data_grows (BoolData b) (BoolData b') \<longleftrightarrow> (b \<longrightarrow> b')"
| "data_grows _ _ \<longleftrightarrow> False"

lemma data_grows_refl: "data_grows d d"
  by (cases d) (auto simp: dict_grows_def)

lemma data_grows_trans: "data_grows d e \<Longrightarrow> data_grows e f \<Longrightarrow> data_grows d f"
  by (cases d; cases e; cases f) (auto intro: dict_grows_trans)

lemma data_grows_kind: "data_grows d e \<Longrightarrow> data_kind e = data_kind d"
  by (cases d; cases e) simp_all

lemma set_add_grows: "length xs \<le> length (set_add v xs)"
  by (induction xs) auto

lemma insert_grows: "length ids \<le> length (List.insert i ids)"
  by (simp add: List.insert_def)

lemma entry_Nil: "entry c [] = None"
  by (simp add: entry_def)

lemma entry_Cons: "entry c ((k, ids) # m) = (if key_of k = key_of c then Some ids else entry c m)"
  by (simp add: entry_def)

lemma dict_add_grows: "data_grows (DictData m) (DictData (dict_add k i m))"
proof -
  have "\<exists>ids'. entry c (dict_add k i m) = Some ids' \<and> length ids \<le> length ids'" if "entry c m = Some ids" for c ids
    using that by (induction m) (auto simp: entry_Nil entry_Cons insert_grows split: if_splits)
  moreover have "dict_add k i m \<noteq> []" by (cases m) (auto split: prod.split if_splits)
  ultimately show ?thesis by (simp add: dict_grows_def)
qed

lemma dict_add_filled: "filled m \<Longrightarrow> filled (dict_add k i m)"
  by (induction m) (auto simp: filled_def List.insert_def split: if_splits)

section \<open>The default registry\<close>

lemma coverage_update_new: "k \<notin> fst ` set d \<Longrightarrow> AList.update k v d = d @ [(k, v)]"
  by (induction d) auto

definition registered :: "(string \<times> bucket_type \<times> rat) list \<Rightarrow> coverage_registry" where
  "registered bs = \<lparr>rg_buckets = map (\<lambda>(name, t, w). (name, \<lparr>bk_type = t, bk_rarity = w, bk_min = 1\<rparr>)) bs,
     rg_data = map (\<lambda>(name, t, w). (name, empty_data t)) bs, rg_new = []\<rparr>"

lemma register_fold:
  "distinct (map fst (cs @ bs)) \<Longrightarrow>
   fold (\<lambda>(name, t, w). register_bucket name \<lparr>bk_type = t, bk_rarity = w, bk_min = 1\<rparr>) bs (registered cs) = registered (cs @ bs)"
proof (induction bs arbitrary: cs)
  case (Cons b bs)
  obtain name t w where b: "b = (name, t, w)" by (cases b)
  have "name \<notin> fst ` set cs" using Cons.prems by (simp add: b)
  then have "name \<notin> fst ` set (rg_buckets (registered cs))" "name \<notin> fst ` set (rg_data (registered cs))"
    by (force simp: registered_def)+
  then have "register_bucket name \<lparr>bk_type = t, bk_rarity = w, bk_min = 1\<rparr> (registered cs) = registered (cs @ [(name, t, w)])"
    by (simp add: register_bucket_def coverage_update_new map_of_eq_None_iff) (simp add: registered_def)
  then show ?case using Cons.IH [of "cs @ [b]"] Cons.prems by (simp add: b)
qed simp

lemma default_distinct: "distinct (map fst default_buckets)"
  by (simp add: default_buckets_def)

lemma default_registered: "default_coverage = registered default_buckets"
  using register_fold [of "[]" default_buckets] default_distinct by (simp add: default_coverage_def registered_def)

lemma map_of_registered:
  "map_of (rg_buckets (registered bs)) name = map_option (\<lambda>(t, w). \<lparr>bk_type = t, bk_rarity = w, bk_min = 1\<rparr>) (map_of bs name)"
  "map_of (rg_data (registered bs)) name = map_option (\<lambda>(t, w). empty_data t) (map_of bs name)"
  by (induction bs) (auto simp: registered_def)

lemmas default_bucket = map_of_registered [of default_buckets, folded default_registered]

section \<open>Growth of the registry\<close>

definition registry_grows :: "coverage_registry \<Rightarrow> coverage_registry \<Rightarrow> bool" where
  "registry_grows G G' \<longleftrightarrow> rg_buckets G' = rg_buckets G \<and>
     (\<forall>name d. map_of (rg_data G) name = Some d \<longrightarrow> (\<exists>d'. map_of (rg_data G') name = Some d' \<and> data_grows d d'))"

definition registry_sound :: "coverage_registry \<Rightarrow> bool" where
  "registry_sound G \<longleftrightarrow> rg_buckets G = rg_buckets default_coverage \<and>
     (\<forall>name b. map_of (rg_buckets G) name = Some b \<longrightarrow>
        (\<exists>d. map_of (rg_data G) name = Some d \<and> data_kind d = bk_type b \<and> data_sound d))"

lemma sound_data:
  assumes "registry_sound G" "map_of (rg_buckets G) name = Some b" "map_of (rg_data G) name = Some d"
  shows "data_kind d = bk_type b \<and> data_sound d"
  using assms unfolding registry_sound_def by (metis option.inject)

lemma registry_grows_refl: "registry_grows G G"
  by (auto simp: registry_grows_def data_grows_refl)

lemma registry_grows_trans:
  assumes "registry_grows G H" "registry_grows H I"
  shows "registry_grows G I"
  unfolding registry_grows_def
proof (intro conjI allI impI)
  show "rg_buckets I = rg_buckets G" using assms by (simp add: registry_grows_def)
  fix name d assume "map_of (rg_data G) name = Some d"
  then obtain d' where "map_of (rg_data H) name = Some d'" "data_grows d d'" using assms(1) by (auto simp: registry_grows_def)
  moreover obtain d'' where "map_of (rg_data I) name = Some d''" "data_grows d' d''"
    using assms(2) calculation(1) by (auto simp: registry_grows_def)
  ultimately show "\<exists>d'. map_of (rg_data I) name = Some d' \<and> data_grows d d'" using data_grows_trans by blast
qed

text \<open>Replacing the data of a bucket by data that grew.\<close>

lemma update_extends:
  fixes new :: "(string \<times> json list) list"
  assumes "registry_sound G" "\<And>d. map_of (rg_data G) name = Some d \<Longrightarrow> data_grows d e \<and> (data_sound d \<longrightarrow> data_sound e)"
  shows "registry_sound (G\<lparr>rg_data := AList.update name e (rg_data G), rg_new := new\<rparr>) \<and>
    registry_grows G (G\<lparr>rg_data := AList.update name e (rg_data G), rg_new := new\<rparr>)"
proof
  let ?G = "G\<lparr>rg_data := AList.update name e (rg_data G), rg_new := new\<rparr>"
  show "registry_grows G ?G" unfolding registry_grows_def using assms(2) data_grows_refl by (auto simp: update_conv')
  show "registry_sound ?G" unfolding registry_sound_def
  proof (intro conjI allI impI)
    fix n b assume "map_of (rg_buckets ?G) n = Some b"
    then have "\<exists>d. map_of (rg_data G) n = Some d \<and> data_kind d = bk_type b \<and> data_sound d"
      using assms(1) by (simp add: registry_sound_def)
    then obtain d where d: "map_of (rg_data G) n = Some d" "data_kind d = bk_type b" "data_sound d" by blast
    show "\<exists>d. map_of (rg_data ?G) n = Some d \<and> data_kind d = bk_type b \<and> data_sound d"
      using assms(2) [of d] d data_grows_kind by (cases "n = name") (auto simp: update_conv')
  qed (use assms(1) in \<open>simp add: registry_sound_def\<close>)
qed

section \<open>Actions that extend a registry\<close>

definition extends :: "(coverage_registry, 'a) act \<Rightarrow> bool" where
  "extends m \<longleftrightarrow> (\<forall>G. registry_sound G \<longrightarrow> registry_sound (snd (m G)) \<and> registry_grows G (snd (m G)))"

named_theorems extends_intros

lemma extends_pure [extends_intros]: "extends (retS x)" "extends (raiseS e)" "extends (liftS r)"
  by (simp_all add: extends_def registry_grows_refl)

lemma extends_bind [extends_intros]:
  assumes "extends m" "\<And>x. extends (f x)"
  shows "extends (bindS m f)"
  unfolding extends_def
proof (intro allI impI)
  fix G assume "registry_sound G"
  obtain r H where m: "m G = (r, H)" by (cases "m G")
  have H: "registry_sound H" "registry_grows G H" using assms(1) \<open>registry_sound G\<close> m by (auto simp: extends_def dest!: spec [of _ G])
  show "registry_sound (snd (bindS m f G)) \<and> registry_grows G (snd (bindS m f G))"
  proof (cases r)
    case (Inr x)
    then show ?thesis using assms(2) [of x] H m registry_grows_trans by (auto simp: extends_def bindS_def)
  qed (use H m in \<open>simp add: bindS_def\<close>)
qed

lemma extends_steps [extends_intros]: "extends (steps [])" "extends m \<Longrightarrow> extends (steps ms) \<Longrightarrow> extends (steps (m # ms))"
  by (simp_all add: extends_intros)

lemma extends_steps_map [extends_intros]: "(\<And>x. extends (f x)) \<Longrightarrow> extends (steps (map f xs))"
  by (induction xs) (simp_all add: extends_intros)

lemma extends_present [extends_intros]: "(\<And>v. extends (f v)) \<Longrightarrow> extends (present data k f)"
  by (auto simp: present_def intro!: extends_intros)

lemma extends_when_truthy [extends_intros]: "(\<And>v. extends (f v)) \<Longrightarrow> extends (when_truthy v f)"
  by (auto simp: when_truthy_def intro!: extends_intros)

lemma extends_nested_id [extends_intros]: "(\<And>v. extends (f v)) \<Longrightarrow> extends (nested_id v f)"
  by (auto simp: nested_id_def split: json.split intro!: extends_intros)

lemma extends_if [extends_intros]: "extends m \<Longrightarrow> extends m' \<Longrightarrow> extends (if c then m else m')"
  by simp

lemma extends_dict [extends_intros]: "extends (add_to_dict_bucket name k i)"
  unfolding extends_def
proof (intro allI impI)
  fix G assume sound: "registry_sound G"
  show "registry_sound (snd (add_to_dict_bucket name k i G)) \<and> registry_grows G (snd (add_to_dict_bucket name k i G))"
  proof (cases "data_or G name (DictData [])")
    case (DictData m)
    have "data_grows d (DictData (dict_add k i m)) \<and> (data_sound d \<longrightarrow> data_sound (DictData (dict_add k i m)))"
      if "map_of (rg_data G) name = Some d" for d
      using that DictData dict_add_grows [of m k i] dict_add_filled [of m k i] by (simp add: data_or_def)
    then show ?thesis using DictData update_extends [OF sound] sound by (simp add: add_to_dict_bucket_def changeS_def registry_grows_refl)
  qed (use sound in \<open>simp_all add: add_to_dict_bucket_def registry_grows_refl\<close>)
qed

lemma extends_set [extends_intros]: "extends (add_to_set_bucket name v i)"
  unfolding extends_def
proof (intro allI impI)
  fix G assume sound: "registry_sound G"
  show "registry_sound (snd (add_to_set_bucket name v i G)) \<and> registry_grows G (snd (add_to_set_bucket name v i G))"
  proof (cases "data_or G name (SetData [])")
    case (SetData xs)
    have "data_grows d (SetData (set_add v xs)) \<and> (data_sound d \<longrightarrow> data_sound (SetData (set_add v xs)))" if "map_of (rg_data G) name = Some d" for d
      using that SetData set_add_grows [of xs v] by (simp add: data_or_def)
    then show ?thesis using SetData update_extends [OF sound] sound by (simp add: add_to_set_bucket_def changeS_def registry_grows_refl)
  qed (use sound in \<open>simp_all add: add_to_set_bucket_def registry_grows_refl\<close>)
qed

definition bool_named :: "string \<Rightarrow> bool" where
  "bool_named name = (case map_of default_buckets name of Some (t, w) \<Rightarrow> t = BOOL_BUCKET | None \<Rightarrow> False)"

lemma extends_bool [extends_intros]: "bool_named name \<Longrightarrow> extends (set_bool_bucket name)"
  unfolding extends_def
proof (intro allI impI)
  fix G assume named: "bool_named name" and sound: "registry_sound G"
  then obtain d where d: "map_of (rg_data G) name = Some d" "data_kind d = BOOL_BUCKET"
    by (fastforce simp: registry_sound_def bool_named_def default_bucket split: option.splits)
  then obtain b where b: "d = BoolData b" by (cases d) simp_all
  have "registry_sound (G\<lparr>rg_data := AList.update name (BoolData True) (rg_data G), rg_new := new\<rparr>) \<and>
      registry_grows G (G\<lparr>rg_data := AList.update name (BoolData True) (rg_data G), rg_new := new\<rparr>)" for new
    by (rule update_extends [OF sound]) (use d b in auto)
  then show "registry_sound (snd (set_bool_bucket name G)) \<and> registry_grows G (snd (set_bool_bucket name G))"
    using sound by (simp add: set_bool_bucket_def changeS_def registry_grows_refl)
qed

lemma extends_category [extends_intros]: "extends (add_category name rs i v)"
  by (auto simp: add_category_def split: option.split intro!: extends_intros)

section \<open>Classification extends\<close>

lemma bool_names:
  "bool_named ''fetched_beatmapset_has_description''" "bool_named ''fetched_beatmapset_has_pack_tags''" "bool_named ''fetched_beatmapset_videos''"
  "bool_named ''fetched_beatmapset_storyboards''" "bool_named ''fetched_beatmapset_discussions''" "bool_named ''fetched_beatmapset_hype''"
  "bool_named ''fetched_beatmapset_nominations''" "bool_named ''fetched_beatmapset_sr_gaps''" "bool_named ''fetched_beatmapset_hit_lengths''"
  by (simp_all add: bool_named_def default_buckets_def)

lemma extends_nominations [extends_intros]: "(\<And>d. extends (f d)) \<Longrightarrow> extends (case v of JDict d \<Rightarrow> f d | _ \<Rightarrow> retS ())"
  by (auto split: json.split intro!: extends_intros)

lemma extends_beatmap: "extends (classify_beatmap str data i)"
  unfolding classify_beatmap_def by (intro extends_intros)

lemma extends_user: "extends (classify_user data i)"
  unfolding classify_user_def by (intro extends_intros)

lemma extends_beatmapset: "extends (classify_beatmapset str data i)"
  unfolding classify_beatmapset_def by (intro extends_intros bool_names)

lemma extends_reset: "extends (changeS (\<lambda>G. G\<lparr>rg_new := []\<rparr>))"
  by (auto simp: extends_def changeS_def registry_sound_def registry_grows_def data_grows_refl)

lemma extends_read: "extends (readS (\<lambda>G. retS (f G)))"
  by (simp add: extends_def registry_grows_refl)

lemma extends_classify: "extends (classify str data data_type i)"
  unfolding classify_def
  by (intro extends_bind extends_if extends_reset extends_read extends_beatmap extends_beatmapset extends_user extends_pure)

lemma default_sound: "registry_sound default_coverage"
proof -
  have "data_kind (empty_data t) = t \<and> data_sound (empty_data t)" for t by (cases t) (simp_all add: empty_data_def filled_def)
  then show ?thesis by (auto simp: registry_sound_def default_bucket)
qed

section \<open>Coverage\<close>

definition classify_all :: "(json \<Rightarrow> string) \<Rightarrow> (dict \<times> string \<times> int) list \<Rightarrow> coverage_registry \<Rightarrow> coverage_registry" where
  "classify_all str items G = fold (\<lambda>(data, data_type, i) G. snd (classify str data data_type i G)) items G"

lemma classify_all_extends:
  "registry_sound G \<Longrightarrow> registry_sound (classify_all str items G) \<and> registry_grows G (classify_all str items G)"
proof (induction items arbitrary: G)
  case (Cons item items)
  obtain data data_type i where item: "item = (data, data_type, i)" by (cases item)
  let ?G = "snd (classify str data data_type i G)"
  have "registry_sound ?G" "registry_grows G ?G" using extends_classify [of str data data_type i] Cons.prems by (auto simp: extends_def)
  then show ?case using Cons.IH [of ?G] registry_grows_trans by (auto simp: item classify_all_def)
qed (simp add: classify_all_def registry_grows_refl)

lemma default_minimum: "map_of (rg_buckets default_coverage) name = Some b \<Longrightarrow> bk_min b = 1 \<and> 0 < bk_rarity b"
proof -
  have "list_all (\<lambda>(name, t, w). 0 < w) default_buckets" by (simp add: default_buckets_def)
  then show "map_of (rg_buckets default_coverage) name = Some b \<Longrightarrow> bk_min b = 1 \<and> 0 < bk_rarity b"
    by (auto simp: default_bucket list_all_iff dest!: map_of_SomeD)
qed

text \<open>In a sound registry a bucket is covered when it has data, and a category when it has an entry.\<close>

lemma covered_iff:
  assumes "registry_sound G" "map_of (rg_buckets G) name = Some b" "map_of (rg_data G) name = Some d"
  shows "is_covered G name None = Inr (data_truthy d)"
proof -
  have b: "bk_min b = 1" using default_minimum assms(1,2) by (auto simp: registry_sound_def)
  have "data_kind d = bk_type b" "data_sound d" using sound_data [OF assms] by simp_all
  then show ?thesis using assms(2,3) b
    by (cases d) (auto simp: is_covered_def data_len_def data_truthy_def filled_def Suc_le_eq)
qed

lemma covered_keeps:
  assumes "registry_sound G" "registry_sound G'" "registry_grows G G'" "is_covered G name c = Inr True"
  shows "is_covered G' name c = Inr True"
proof (cases "map_of (rg_buckets G) name")
  case (Some b)
  then obtain d where d: "map_of (rg_data G) name = Some d" using assms(1) by (fastforce simp: registry_sound_def)
  then obtain d' where d': "map_of (rg_data G') name = Some d'" "data_grows d d'" using assms(3) by (auto simp: registry_grows_def)
  have b: "map_of (rg_buckets G') name = Some b" using Some assms(3) by (simp add: registry_grows_def)
  show ?thesis
  proof (cases c)
    case None
    then show ?thesis using covered_iff [OF assms(1) Some d] covered_iff [OF assms(2) b d'(1)] assms(4) d'(2)
      by (cases d; cases d') (auto simp: data_truthy_def dict_grows_def)
  next
    case category: (Some k)
    have kinds: "data_kind d = bk_type b" "data_kind d' = bk_type b"
      using sound_data [OF assms(1) Some d] sound_data [OF assms(2) b d'(1)] by simp_all
    show ?thesis
    proof (cases d)
      case (DictData m)
      then obtain m' where m': "d' = DictData m'" using kinds by (cases d') simp_all
      have "can_hash k" "\<exists>ids. entry k m = Some ids \<and> bk_min b \<le> int (length ids)"
        using assms(4) Some d kinds(1) by (auto simp: category is_covered_def DictData split: if_splits option.splits)
      moreover from this obtain ids' where "entry k m' = Some ids'" "bk_min b \<le> int (length ids')"
        using d'(2) by (fastforce simp: DictData m' dict_grows_def)
      ultimately show ?thesis using b d'(1) kinds(2) by (simp add: category is_covered_def m')
    qed (use assms(4) Some b d d' kinds in \<open>cases d'; simp add: is_covered_def data_len_def data_truthy_def split: bucket_type.splits\<close>)+
  qed
qed (use assms(3) in \<open>simp add: is_covered_def registry_grows_def\<close>)

end
