(* ===== verification/Fixture_Sources.thy ===== *)
theory Fixture_Sources
  imports Api_Utils
begin

text \<open>
  Where the fetchers of fixtures take identifiers from (\<^verbatim>\<open>src/app/fixtures/id_source.py\<close>) and how they remember
  those that failed (\<^verbatim>\<open>src/app/fixtures/failed_id_store.py\<close>, \<^verbatim>\<open>base_fetcher.py\<close>). The sets of Redis are the record
  \<open>set_ops\<close> with the laws of the locale \<open>set_store\<close>; the archives and the random numbers are functions.
\<close>

section \<open>Sets in Redis\<close>

record 's set_ops =
  op_sadd :: "string \<Rightarrow> int list \<Rightarrow> 's \<Rightarrow> 's"
  op_members :: "string \<Rightarrow> 's \<Rightarrow> int list"
  op_set_keys :: "'s \<Rightarrow> string list"
  op_del :: "string list \<Rightarrow> 's \<Rightarrow> 's"

locale set_store =
  fixes R :: "'s set_ops"
  assumes members_sadd: "set (op_members R k (op_sadd R k' is s)) = set (op_members R k s) \<union> (if k = k' then set is else {})"
    and members_del: "set (op_members R k (op_del R ks s)) = (if k \<in> set ks then {} else set (op_members R k s))"
    and keys_members: "k \<in> set (op_set_keys R s) \<longleftrightarrow> op_members R k s \<noteq> []"

section \<open>Identifiers that failed\<close>

definition FAILED_IDS :: string where "FAILED_IDS = ''failed_ids''"

definition failed_key :: "string \<Rightarrow> string option \<Rightarrow> string" where
  "failed_key category subcategory =
     (case subcategory of
        Some sub \<Rightarrow> if category = ''users'' \<and> sub \<noteq> [] then FAILED_IDS @ '':'' @ sub else FAILED_IDS @ '':'' @ category
      | None \<Rightarrow> FAILED_IDS @ '':'' @ category)"

definition is_failed :: "'s set_ops \<Rightarrow> string \<Rightarrow> int \<Rightarrow> string option \<Rightarrow> 's \<Rightarrow> bool" where
  "is_failed R category i subcategory s \<longleftrightarrow> i \<in> set (op_members R (failed_key category subcategory) s)"

definition add_failed :: "'s set_ops \<Rightarrow> string \<Rightarrow> int \<Rightarrow> string option \<Rightarrow> 's \<Rightarrow> 's" where
  "add_failed R category i subcategory s = op_sadd R (failed_key category subcategory) [i] s"

definition add_many_failed :: "'s set_ops \<Rightarrow> string \<Rightarrow> int list \<Rightarrow> string option \<Rightarrow> 's \<Rightarrow> 's" where
  "add_many_failed R category is subcategory s = (if is = [] then s else op_sadd R (failed_key category subcategory) is s)"

definition is_failed_key :: "string \<Rightarrow> bool" where
  "is_failed_key k \<longleftrightarrow> take (length (FAILED_IDS @ '':'')) k = FAILED_IDS @ '':''"

definition load_all_failed :: "'s set_ops \<Rightarrow> 's \<Rightarrow> (string \<times> int list) list" where
  "load_all_failed R s =
     map (\<lambda>k. (drop (length (FAILED_IDS @ '':'')) k, op_members R k s)) (filter is_failed_key (op_set_keys R s))"

definition clear_failed :: "'s set_ops \<Rightarrow> string \<Rightarrow> string option \<Rightarrow> 's \<Rightarrow> 's" where
  "clear_failed R category subcategory s = op_del R [failed_key category subcategory] s"

definition clear_all_failed :: "'s set_ops \<Rightarrow> 's \<Rightarrow> int \<times> 's" where
  "clear_all_failed R s =
     (let ks = filter is_failed_key (op_set_keys R s) in if ks = [] then (0, s) else (int (length ks), op_del R ks s))"

context set_store
begin

lemma failed_added: "is_failed R c i sub (add_failed R c' j sub' s) \<longleftrightarrow> is_failed R c i sub s \<or> (failed_key c sub = failed_key c' sub' \<and> i = j)"
  by (auto simp: is_failed_def add_failed_def members_sadd)

lemma failed_cleared: "\<not> is_failed R c i sub (clear_failed R c sub s)"
  by (simp add: is_failed_def clear_failed_def members_del)

lemma all_cleared:
  assumes "is_failed_key k"
  shows "op_members R k (snd (clear_all_failed R s)) = []"
proof -
  let ?ks = "filter is_failed_key (op_set_keys R s)"
  have "op_members R k s = []" if "k \<notin> set ?ks" using that assms keys_members by auto
  then have "op_members R k (op_del R ?ks s) = []" using members_del [of k ?ks s] by (cases "k \<in> set ?ks") (simp_all split: if_splits)
  moreover have "op_members R k s = []" if "?ks = []" using that \<open>k \<notin> set ?ks \<Longrightarrow> op_members R k s = []\<close> by simp
  ultimately show ?thesis by (simp add: clear_all_failed_def Let_def)
qed

end

section \<open>Sources\<close>

text \<open>
  Lists of identifiers by ruleset, read one after the other. The archives give the players of a ruleset, unless there
  is no archive, and the beatmaps.
\<close>

record id_lists =
  il_ids :: "(string \<times> int list) list"
  il_index :: "(string \<times> nat) list"

definition take_from :: "id_lists \<Rightarrow> string \<Rightarrow> (int \<times> id_lists) option" where
  "take_from L r =
     (case map_of (il_ids L) r of
        None \<Rightarrow> None
      | Some ids \<Rightarrow>
          let i = (case map_of (il_index L) r of Some n \<Rightarrow> n | None \<Rightarrow> 0) in
          if i < length ids then Some (ids ! i, L\<lparr>il_index := AList.update r (Suc i) (il_index L)\<rparr>) else None)"

fun take_any :: "id_lists \<Rightarrow> string list \<Rightarrow> (int \<times> id_lists) option" where
  "take_any L [] = None"
| "take_any L (r # rs) = (case take_from L r of Some x \<Rightarrow> Some x | None \<Rightarrow> take_any L rs)"

definition take_player :: "id_lists \<Rightarrow> string option \<Rightarrow> int option \<times> id_lists" where
  "take_player L subcategory =
     (case (case subcategory of
              Some r \<Rightarrow> if r \<noteq> [] \<and> map_of (il_ids L) r \<noteq> None then take_from L r else take_any L (map fst (il_ids L))
            | None \<Rightarrow> take_any L (map fst (il_ids L))) of
        Some (i, L') \<Rightarrow> (Some i, L')
      | None \<Rightarrow> (None, L))"

record archive_source =
  as_loaded :: bool
  as_players :: id_lists
  as_players_loaded :: "string list"
  as_beatmaps :: "int list"
  as_beatmap_index :: nat
  as_beatmaps_loaded :: bool

record archives =
  ac_users :: "string \<Rightarrow> int list option"
  ac_beatmaps :: "int list option"

definition TOP_PLAYERS_PER_RULESET :: nat where "TOP_PLAYERS_PER_RULESET = 1000"

definition ensure_player_ids_loaded :: "archives \<Rightarrow> string \<Rightarrow> archive_source \<Rightarrow> archive_source" where
  "ensure_player_ids_loaded A r S =
     (if r \<in> set (as_players_loaded S) then S
      else (case ac_users A r of
          None \<Rightarrow> S
        | Some ids \<Rightarrow>
            if ids = [] then S
            else S\<lparr>as_players := (as_players S)\<lparr>il_ids := AList.update r (take TOP_PLAYERS_PER_RULESET ids) (il_ids (as_players S))\<rparr>,
                   as_players_loaded := r # as_players_loaded S\<rparr>))"

definition ensure_beatmap_ids_loaded :: "archives \<Rightarrow> archive_source \<Rightarrow> archive_source" where
  "ensure_beatmap_ids_loaded A S =
     (if as_beatmaps_loaded S then S
      else (case ac_beatmaps A of None \<Rightarrow> S | Some ids \<Rightarrow> S\<lparr>as_beatmaps := ids, as_beatmaps_loaded := True\<rparr>))"

definition resolve_lazy :: "archives \<Rightarrow> string \<Rightarrow> string option \<Rightarrow> archive_source \<Rightarrow> archive_source" where
  "resolve_lazy A category subcategory S =
     (if category = ''beatmaps'' then ensure_beatmap_ids_loaded A S
      else if category = ''beatmapsets'' then S
      else ensure_player_ids_loaded A (case subcategory of Some r \<Rightarrow> if r = [] then ''osu'' else r | None \<Rightarrow> ''osu'') S)"

definition archive_get_id :: "archives \<Rightarrow> string \<Rightarrow> string option \<Rightarrow> archive_source \<Rightarrow> int option \<times> archive_source" where
  "archive_get_id A category subcategory S =
     (if \<not> as_loaded S then (None, S)
      else let S = resolve_lazy A category subcategory S in
        if category = ''beatmaps'' then
          (if as_beatmaps_loaded S \<and> as_beatmap_index S < length (as_beatmaps S)
           then (Some (as_beatmaps S ! as_beatmap_index S), S\<lparr>as_beatmap_index := Suc (as_beatmap_index S)\<rparr>)
           else (None, S))
        else (case take_player (as_players S) subcategory of (r, L) \<Rightarrow> (r, S\<lparr>as_players := L\<rparr>)))"

record top_source =
  ts_players :: id_lists
  ts_loaded :: bool

definition top_resolve :: "(string \<times> int list) list \<Rightarrow> top_source" where
  "top_resolve ids = \<lparr>ts_players = \<lparr>il_ids = ids, il_index = map (\<lambda>(r, _). (r, 0)) ids\<rparr>, ts_loaded = (\<exists>(r, xs) \<in> set ids. xs \<noteq> [])\<rparr>"

definition top_get_id :: "string option \<Rightarrow> top_source \<Rightarrow> int option \<times> top_source" where
  "top_get_id subcategory S =
     (if \<not> ts_loaded S then (None, S)
      else (case take_player (ts_players S) subcategory of (r, L) \<Rightarrow> (r, S\<lparr>ts_players := L\<rparr>)))"

text \<open>Random identifiers: \<open>draws bounds i\<close> is what \<^verbatim>\<open>random.randint\<close> returns when it is called for the \<open>i\<close>th time.\<close>

record random_source =
  rs_ranges :: "(string \<times> int \<times> int) list"
  rs_failed :: "(string \<times> int list) list"
  rs_drawn :: nat
  rs_has_store :: bool

definition source_key :: "string \<Rightarrow> string option \<Rightarrow> string" where
  "source_key category subcategory = (case subcategory of Some r \<Rightarrow> if r = [] then category else category @ ''.'' @ r | None \<Rightarrow> category)"

definition id_range :: "(string \<times> int \<times> int) list \<Rightarrow> string \<Rightarrow> string \<Rightarrow> int \<times> int" where
  "id_range ranges category key =
     (case map_of ranges category of
        Some x \<Rightarrow> x
      | None \<Rightarrow> (case map_of ranges (hd (py_split CHR ''.'' key)) of Some x \<Rightarrow> x | None \<Rightarrow> (1, 1000000)))"

fun draw_until :: "(int \<times> int \<Rightarrow> nat \<Rightarrow> int) \<Rightarrow> int \<times> int \<Rightarrow> int list \<Rightarrow> nat \<Rightarrow> nat \<Rightarrow> int \<times> nat" where
  "draw_until draws bounds failed i 0 = (draws bounds i, Suc i)"
| "draw_until draws bounds failed i (Suc n) =
     (if draws bounds i \<notin> set failed then (draws bounds i, Suc i) else draw_until draws bounds failed (Suc i) n)"

definition failed_of :: "random_source \<Rightarrow> string \<Rightarrow> int list" where
  "failed_of S key = (case map_of (rs_failed S) key of Some is \<Rightarrow> is | None \<Rightarrow> [])"

definition random_get_id :: "(int \<times> int \<Rightarrow> nat \<Rightarrow> int) \<Rightarrow> string \<Rightarrow> string option \<Rightarrow> random_source \<Rightarrow> int \<times> random_source" where
  "random_get_id draws category subcategory S =
     (let key = source_key category subcategory in
      case draw_until draws (id_range (rs_ranges S) category key) (failed_of S key) (rs_drawn S) 100 of
        (i, n) \<Rightarrow> (i, S\<lparr>rs_drawn := n\<rparr>))"

definition random_resolve :: "'s set_ops \<Rightarrow> 's \<Rightarrow> random_source \<Rightarrow> random_source" where
  "random_resolve R s S = (if rs_has_store S then S\<lparr>rs_failed := load_all_failed R s\<rparr> else S)"

definition random_add_failed :: "'s set_ops \<Rightarrow> string \<Rightarrow> int \<Rightarrow> string option \<Rightarrow> random_source \<times> 's \<Rightarrow> random_source \<times> 's" where
  "random_add_failed R category i subcategory = (\<lambda>(S, s).
     let key = source_key category subcategory in
     (S\<lparr>rs_failed := AList.update key (List.insert i (failed_of S key)) (rs_failed S)\<rparr>,
      if rs_has_store S then add_failed R category i subcategory s else s))"

section \<open>The chain of sources\<close>

datatype id_source = ArchiveS archive_source | TopS top_source | RandomS random_source

fun get_id :: "archives \<Rightarrow> (int \<times> int \<Rightarrow> nat \<Rightarrow> int) \<Rightarrow> string \<Rightarrow> string option \<Rightarrow> id_source \<Rightarrow> int option \<times> id_source" where
  "get_id A draws category sub (ArchiveS S) = (case archive_get_id A category sub S of (r, S') \<Rightarrow> (r, ArchiveS S'))"
| "get_id A draws category sub (TopS S) = (case top_get_id sub S of (r, S') \<Rightarrow> (r, TopS S'))"
| "get_id A draws category sub (RandomS S) = (case random_get_id draws category sub S of (i, S') \<Rightarrow> (Some i, RandomS S'))"

record auto_source =
  au_sources :: "id_source list"
  au_current :: "nat option"

text \<open>A source that takes over is asked twice, and the second answer is returned.\<close>

fun take_over :: "archives \<Rightarrow> (int \<times> int \<Rightarrow> nat \<Rightarrow> int) \<Rightarrow> string \<Rightarrow> string option \<Rightarrow> nat \<Rightarrow> nat list \<Rightarrow> auto_source \<Rightarrow> int option \<times> auto_source" where
  "take_over A draws category sub c [] S = (None, S)"
| "take_over A draws category sub c (i # is) S =
     (if i = c then take_over A draws category sub c is S
      else (case get_id A draws category sub (au_sources S ! i) of
          (None, x) \<Rightarrow> take_over A draws category sub c is (S\<lparr>au_sources := (au_sources S)[i := x]\<rparr>)
        | (Some _, x) \<Rightarrow>
            (case get_id A draws category sub x of (r, y) \<Rightarrow> (r, S\<lparr>au_sources := (au_sources S)[i := y], au_current := Some i\<rparr>))))"

definition auto_get_id :: "archives \<Rightarrow> (int \<times> int \<Rightarrow> nat \<Rightarrow> int) \<Rightarrow> string \<Rightarrow> string option \<Rightarrow> auto_source \<Rightarrow> int option \<times> auto_source" where
  "auto_get_id A draws category sub S =
     (case au_current S of
        None \<Rightarrow> (None, S)
      | Some c \<Rightarrow>
          (case get_id A draws category sub (au_sources S ! c) of
             (Some i, x) \<Rightarrow> (Some i, S\<lparr>au_sources := (au_sources S)[c := x]\<rparr>)
           | (None, x) \<Rightarrow> take_over A draws category sub c [0..<length (au_sources S)] (S\<lparr>au_sources := (au_sources S)[c := x]\<rparr>)))"

text \<open>Only a random source, alone or in a chain, is told what failed.\<close>

fun source_add_failed :: "'s set_ops \<Rightarrow> string \<Rightarrow> int \<Rightarrow> string option \<Rightarrow> id_source \<times> 's \<Rightarrow> id_source \<times> 's" where
  "source_add_failed R category i sub (RandomS S, s) = (case random_add_failed R category i sub (S, s) of (S', s') \<Rightarrow> (RandomS S', s'))"
| "source_add_failed R category i sub (S, s) = (S, s)"

fun all_add_failed :: "'s set_ops \<Rightarrow> string \<Rightarrow> int \<Rightarrow> string option \<Rightarrow> id_source list \<times> 's \<Rightarrow> id_source list \<times> 's" where
  "all_add_failed R category i sub ([], s) = ([], s)"
| "all_add_failed R category i sub (S # Ss, s) =
     (case source_add_failed R category i sub (S, s) of (S', s') \<Rightarrow>
      case all_add_failed R category i sub (Ss, s') of (Ss', s'') \<Rightarrow> (S' # Ss', s''))"

definition auto_add_failed :: "'s set_ops \<Rightarrow> string \<Rightarrow> int \<Rightarrow> string option \<Rightarrow> auto_source \<times> 's \<Rightarrow> auto_source \<times> 's" where
  "auto_add_failed R category i sub = (\<lambda>(S, s).
     case all_add_failed R category i sub (au_sources S, s) of (Ss, s') \<Rightarrow> (S\<lparr>au_sources := Ss\<rparr>, s'))"

text \<open>\<^verbatim>\<open>BaseFetcher._add_failed_id\<close>: the category of users has the ruleset after a dot.\<close>

datatype fetch_source = SingleS id_source | AutoS auto_source

definition user_ruleset :: "string \<Rightarrow> string option" where
  "user_ruleset category = (if take 6 category = ''users.'' then Some (drop 6 category) else None)"

definition add_failed_id :: "'s set_ops \<Rightarrow> string \<Rightarrow> int \<Rightarrow> fetch_source option \<times> 's \<Rightarrow> fetch_source option \<times> 's" where
  "add_failed_id R category i = (\<lambda>(src, s).
     let sub = user_ruleset category; s = add_failed R category i sub s in
     case src of
       None \<Rightarrow> (None, s)
     | Some (SingleS S) \<Rightarrow> (case source_add_failed R category i sub (S, s) of (S', s') \<Rightarrow> (Some (SingleS S'), s'))
     | Some (AutoS S) \<Rightarrow> (case auto_add_failed R category i sub (S, s) of (S', s') \<Rightarrow> (Some (AutoS S'), s')))"

context set_store
begin

text \<open>Whatever the source, only the set of the category of the identifier changes.\<close>

lemma source_failed_elsewhere:
  assumes "failed_key c sub \<noteq> failed_key c' sub'"
  shows "is_failed R c i sub (snd (source_add_failed R c' j sub' (S, s))) \<longleftrightarrow> is_failed R c i sub s"
  using assms by (cases S) (simp_all add: random_add_failed_def failed_added Let_def)

lemma all_failed_elsewhere:
  assumes "failed_key c sub \<noteq> failed_key c' sub'"
  shows "is_failed R c i sub (snd (all_add_failed R c' j sub' (Ss, s))) \<longleftrightarrow> is_failed R c i sub s"
proof (induction Ss arbitrary: s)
  case (Cons S Ss)
  then show ?case using source_failed_elsewhere [OF assms, of i j S s] by (simp add: split_beta)
qed simp

lemma failed_elsewhere:
  assumes "failed_key c sub \<noteq> failed_key c' (user_ruleset c')"
  shows "is_failed R c i sub (snd (add_failed_id R c' j (src, s))) \<longleftrightarrow> is_failed R c i sub s"
  using assms source_failed_elsewhere [OF assms] all_failed_elsewhere [OF assms]
  by (auto simp: add_failed_id_def auto_add_failed_def failed_added Let_def split_beta split: option.splits fetch_source.splits)

end

section \<open>Laws of the sources\<close>

text \<open>A memory of sets.\<close>

type_synonym set_memory = "(string \<times> int list) list"

definition members_in :: "string \<Rightarrow> set_memory \<Rightarrow> int list" where
  "members_in k s = (case map_of s k of Some is \<Rightarrow> is | None \<Rightarrow> [])"

definition memory_sets :: "set_memory set_ops" where
  "memory_sets = \<lparr>op_sadd = (\<lambda>k is s. AList.update k (fold List.insert is (members_in k s)) s), op_members = members_in,
     op_set_keys = (\<lambda>s. filter (\<lambda>k. members_in k s \<noteq> []) (remdups (map fst s))), op_del = (\<lambda>ks s. filter (\<lambda>(k, _). k \<notin> set ks) s)\<rparr>"

lemma set_fold_insert: "set (fold List.insert is xs) = set is \<union> set xs"
  by (induction "is" arbitrary: xs) auto

lemma map_of_without: "map_of (filter (\<lambda>(k, _). k \<notin> K) s) k = (if k \<in> K then None else map_of s k)"
  by (induction s) auto

interpretation mem: set_store memory_sets
proof
  fix k k' :: string and ks :: "string list" and "is" :: "int list" and s :: set_memory
  show "set (op_members memory_sets k (op_sadd memory_sets k' is s)) = set (op_members memory_sets k s) \<union> (if k = k' then set is else {})"
    by (auto simp: memory_sets_def members_in_def update_conv' set_fold_insert)
  show "set (op_members memory_sets k (op_del memory_sets ks s)) = (if k \<in> set ks then {} else set (op_members memory_sets k s))"
    by (simp add: memory_sets_def members_in_def map_of_without)
  show "k \<in> set (op_set_keys memory_sets s) \<longleftrightarrow> op_members memory_sets k s \<noteq> []"
    by (force simp: memory_sets_def members_in_def split: option.splits dest: map_of_SomeD)
qed

text \<open>A random identifier has not failed, unless a hundred draws have.\<close>

lemma draw_until_avoids:
  "fst (draw_until draws bounds failed i n) \<notin> set failed \<or> (\<forall>j < n. draws bounds (i + j) \<in> set failed)"
proof (induction n arbitrary: i)
  case (Suc n)
  then show ?case using Suc.IH [of "Suc i"] by (auto simp: less_Suc_eq_0_disj)
qed simp

text \<open>The list of a ruleset is read from its front, each identifier once.\<close>

fun take_times :: "nat \<Rightarrow> string \<Rightarrow> id_lists \<Rightarrow> int option list" where
  "take_times 0 r L = []"
| "take_times (Suc n) r L = (case take_player L (Some r) of (x, L') \<Rightarrow> x # take_times n r L')"

lemma take_times_index:
  assumes "map_of (il_ids L) r = Some ids" "r \<noteq> []" "map_of (il_index L) r = Some i"
  shows "take_times n r L = map (\<lambda>j. if j < length ids then Some (ids ! j) else None) [i..<i + n]"
  using assms
proof (induction n arbitrary: L i)
  case (Suc n)
  show ?case
  proof (cases "i < length ids")
    case True
    let ?L = "L\<lparr>il_index := AList.update r (Suc i) (il_index L)\<rparr>"
    have "take_player L (Some r) = (Some (ids ! i), ?L)" using Suc.prems True by (simp add: take_player_def take_from_def)
    moreover have "take_times n r ?L = map (\<lambda>j. if j < length ids then Some (ids ! j) else None) [Suc i..<Suc i + n]"
      using Suc.prems by (intro Suc.IH) (simp_all add: update_conv')
    moreover have "[i..<i + Suc n] = i # [Suc i..<Suc i + n]" by (simp add: upt_conv_Cons del: upt_Suc)
    ultimately show ?thesis using True by (simp del: upt_Suc add_Suc_right)
  next
    case False
    have "take_player L (Some r) = (None, L)" using Suc.prems False by (simp add: take_player_def take_from_def)
    moreover have "take_times n r L = map (\<lambda>j. if j < length ids then Some (ids ! j) else None) [i..<i + n]" by (rule Suc.IH [OF Suc.prems])
    moreover have "map (\<lambda>j. if j < length ids then Some (ids ! j) else None) [i..<i + k] = replicate k None" for k
      using False by (induction k) (simp_all add: replicate_append_same)
    ultimately show ?thesis by (simp del: upt_Suc add_Suc_right)
  qed
qed simp

end
