(* ===== verification/Fixture_Properties.thy ===== *)
theory Fixture_Properties
  imports Seed_Order Fixture_Growth Fixture_Sources
begin

text \<open>
  What the tools for development data guarantee: seeding respects the dependencies, the coverage of
  fixtures only grows; and where they do not do what they say.
\<close>

section \<open>Seeding\<close>

definition execution_order :: "seed_target list \<Rightarrow> seeder_target list list res" where
  "execution_order targets = bindR (normalize_cli_targets targets) resolve_dependencies"

text \<open>
  (C40) Whatever targets are requested, the layers are found, each seeder that is needed has its place in exactly
  one of them and no other seeder has one; and in every reachable state of a run, whatever the interleaving of the
  seeders of a layer and whichever of them fail, a seeder has started only if all seeders it depends on have
  finished without an exception.
\<close>

theorem seeding_respects_dependencies:
  "\<exists>ls. resolve_dependencies targets = Inr ls \<and> distinct (concat ls) \<and>
     set (concat ls) = {d. \<exists>t \<in> set targets. depends\<^sup>*\<^sup>* t d} \<and>
     (\<forall>r. seed_reachable ls r \<longrightarrow> (\<forall>t \<in> seed_started r. set (DEPENDENCIES t) \<subseteq> set (sr_finished r)))"
proof -
  obtain ls where ls: "resolve_dependencies targets = Inr ls" "distinct (concat ls)"
      "set (concat ls) = {d. \<exists>t \<in> set targets. depends\<^sup>*\<^sup>* t d}" "layered (set \<circ> DEPENDENCIES) {} ls"
    using resolve_layers [of targets] by blast
  have "set (DEPENDENCIES t) \<subseteq> set (sr_finished r)" if "seed_reachable ls r" "t \<in> seed_started r" for r t
    using run_reachable [OF that(1) ls(4)] that(2) by (simp add: run_sound_def)
  then show ?thesis using ls by blast
qed

theorem seeding_respects_dependencies_witness:
  "\<nexists>r. seed_reachable [[USER_SEEDER], [BEATMAP_SEEDER, QUEUE_SEEDER], [REQUEST_SEEDER]] r \<and>
      REQUEST_SEEDER \<in> seed_started r \<and> QUEUE_SEEDER \<notin> set (sr_finished r)"
proof -
  have "resolve_dependencies [REQUEST_SEEDER] = Inr [[USER_SEEDER], [BEATMAP_SEEDER, QUEUE_SEEDER], [REQUEST_SEEDER]]" by code_simp
  with seeding_respects_dependencies [of "[REQUEST_SEEDER]"] show ?thesis by fastforce
qed

lemma all_seeds_order: "execution_order [ALL_SEEDS] = Inr [[USER_SEEDER], [BEATMAP_SEEDER, QUEUE_SEEDER], [REQUEST_SEEDER]]"
  by code_simp

section \<open>Coverage\<close>

text \<open>
  However many items are classified, and although a classification that raises keeps what it did before, a bucket
  or category that is covered stays covered.
\<close>

theorem coverage_only_grows:
  assumes "is_covered (classify_all str items default_coverage) name c = Inr True"
  shows "is_covered (classify_all str (items @ later) default_coverage) name c = Inr True"
proof -
  let ?G = "classify_all str items default_coverage"
  have split: "classify_all str (items @ later) default_coverage = classify_all str later ?G" by (simp add: classify_all_def)
  have G: "registry_sound ?G" using classify_all_extends [OF default_sound] by blast
  show ?thesis unfolding split by (rule covered_keeps [OF G _ _ assms]) (use classify_all_extends [OF G] in blast)+
qed

text \<open>The number of uncovered buckets is always known, and zero means that every bucket has data.\<close>

lemma coverage_total:
  fixes str :: "json \<Rightarrow> string"
  defines "G items \<equiv> classify_all str items default_coverage"
  shows "\<exists>n k. total_uncovered (G items) = Inr (n, k) \<and> 0 \<le> k \<and> k \<le> n \<and>
    (n = 0 \<longleftrightarrow> (\<forall>(name, b) \<in> set (rg_buckets (G items)). is_covered (G items) name None = Inr True))"
proof -
  have sound: "registry_sound (G items)" using classify_all_extends [OF default_sound] by (simp add: G_def)
  have "distinct (map fst (rg_buckets (G items)))" using sound default_distinct
    by (simp add: registry_sound_def default_registered registered_def comp_def split_beta)
  then have "\<exists>c. is_covered (G items) name None = Inr c" if "(name, b) \<in> set (rg_buckets (G items))" for name b
    using sound covered_iff [OF sound] that by (metis map_of_is_SomeI registry_sound_def)
  then obtain f where f: "(name, b) \<in> set (rg_buckets (G items)) \<Longrightarrow> is_covered (G items) name None = Inr (f name)" for name b by metis
  let ?cs = "map (\<lambda>(name, b). (f name, b)) (rg_buckets (G items))"
  have "map_res (\<lambda>(name, b). bindR (is_covered (G items) name None) (\<lambda>c. Inr (c, b))) (rg_buckets (G items)) = Inr ?cs"
    by (rule map_res_total) (auto simp: f)
  then have total: "total_uncovered (G items) =
      Inr (int (length (filter (\<lambda>(c, b). \<not> c) ?cs)), int (length (filter (\<lambda>(c, b). \<not> c \<and> \<not> bk_rarity b < 2) ?cs)))"
    by (simp add: total_uncovered_def)
  have le: "length (filter (\<lambda>(c, b). \<not> c \<and> \<not> bk_rarity b < 2) cs) \<le> length (filter (\<lambda>(c, b). \<not> c) cs)" for cs :: "(bool \<times> bucket) list"
    by (induction cs) auto
  have zero: "int (length (filter (\<lambda>(c, b). \<not> c) ?cs)) = 0 \<longleftrightarrow>
      (\<forall>(name, b) \<in> set (rg_buckets (G items)). is_covered (G items) name None = Inr True)"
    using f by (fastforce simp: filter_empty_conv)
  show ?thesis unfolding total
    by (intro exI conjI, rule HOL.refl, rule of_nat_0_le_iff, rule iffD2 [OF of_nat_le_iff le], rule zero)
qed

text \<open>The report cannot name a status that is a text, which is what the API of osu! sends.\<close>

lemma status_report_fails:
  "py_int s = Inl e \<Longrightarrow> dict_report ''fetched_beatmap_statuses'' [(JStr s, ids)] = Inl e"
proof -
  have "has_part ''genre'' ''fetched_beatmap_statuses'' = False" "has_part ''language'' ''fetched_beatmap_statuses'' = False"
    "has_part ''mode'' ''fetched_beatmap_statuses'' = False" "has_part ''status'' ''fetched_beatmap_statuses'' = True"
    "has_part ''beatmap'' ''fetched_beatmap_statuses'' = True" by code_simp+
  then show "py_int s = Inl e \<Longrightarrow> dict_report ''fetched_beatmap_statuses'' [(JStr s, ids)] = Inl e"
    by (simp add: dict_report_def named_entry_def status_name_def)
qed

text \<open>The categories of a number are a partition of the interval they span.\<close>

lemma categorizers_complete:
  "\<forall>rs \<in> set [DIFFICULTY_CATEGORIZER, PLAYCOUNT_CATEGORIZER, BPM_CATEGORIZER, ACCURACY_CATEGORIZER, HIT_LENGTH_CATEGORIZER, MAX_COMBO_CATEGORIZER,
     DRAIN_CATEGORIZER, AR_CATEGORIZER, CS_CATEGORIZER, RATING_CATEGORIZER, FAVOURITE_COUNT_CATEGORIZER, PLAY_COUNT_CATEGORIZER].
     (\<exists>c. categorize rs v = Some c) \<longleftrightarrow> 0 \<le> v \<and> v \<le> snd (snd (last rs))"
proof -
  have "contiguous rs \<and> fst (snd (hd rs)) = 0" if "rs \<in> set [DIFFICULTY_CATEGORIZER, PLAYCOUNT_CATEGORIZER, BPM_CATEGORIZER, ACCURACY_CATEGORIZER,
      HIT_LENGTH_CATEGORIZER, MAX_COMBO_CATEGORIZER, DRAIN_CATEGORIZER, AR_CATEGORIZER, CS_CATEGORIZER, RATING_CATEGORIZER,
      FAVOURITE_COUNT_CATEGORIZER, PLAY_COUNT_CATEGORIZER]" for rs
    using that by (auto simp: DIFFICULTY_CATEGORIZER_def PLAYCOUNT_CATEGORIZER_def BPM_CATEGORIZER_def ACCURACY_CATEGORIZER_def
        HIT_LENGTH_CATEGORIZER_def MAX_COMBO_CATEGORIZER_def DRAIN_CATEGORIZER_def AR_CATEGORIZER_def CS_CATEGORIZER_def
        RATING_CATEGORIZER_def FAVOURITE_COUNT_CATEGORIZER_def PLAY_COUNT_CATEGORIZER_def)
  then show ?thesis using categorize_complete by (metis (no_types, lifting))
qed

section \<open>Identifiers\<close>

text \<open>A player of a ruleset that failed is stored where the choice of top players does not look.\<close>

lemma failed_players_retried:
  assumes "set_store R" "r \<noteq> []"
  shows "is_failed R ''users'' i (Some r) (snd (add_failed_id R (''users.'' @ r) i (src, s))) \<longleftrightarrow> is_failed R ''users'' i (Some r) s"
proof -
  have "failed_key ''users'' (Some r) \<noteq> failed_key (''users.'' @ r) (user_ruleset (''users.'' @ r))"
    using assms(2) by (simp add: failed_key_def user_ruleset_def)
  then show ?thesis by (rule set_store.failed_elsewhere [OF assms(1)])
qed

text \<open>A source that takes over loses its first identifier.\<close>

lemma take_over_skips:
  "fst (auto_get_id A draws ''users'' (Some ''osu'')
     \<lparr>au_sources = [TopS (top_resolve [(''osu'', [])]), TopS (top_resolve [(''osu'', [7, 8])])], au_current = Some 0\<rparr>) = Some 8"
  by (simp add: auto_get_id_def top_get_id_def top_resolve_def take_player_def take_from_def)

end
