(* ===== verification/Write_Endpoints.thy ===== *)
theory Write_Endpoints
  imports Listing_Endpoints Crud_Write Access_Endpoints
begin

text \<open>
  The endpoints for users, profiles and single requests, and those that add scores and leaderboards
  (\<^verbatim>\<open>src/api/v1/users\<close>, \<^verbatim>\<open>profiles\<close>, \<^verbatim>\<open>requests\<close>, \<^verbatim>\<open>scores\<close>, \<^verbatim>\<open>beatmaps/snapshots/leaderboard.py\<close>). Reads go to the
  read layer, writes to the generic operations of the database, each in a session of its own.
\<close>

section \<open>The store\<close>

record ('w, 'row, 'sess, 'o, 's) store =
  st_api :: "'s \<Rightarrow> ('w, 'row) api"
  st_models :: "model \<Rightarrow> model mapper"
  st_sessions :: "('sess, 's) session_ops"
  st_orm :: "'sess \<Rightarrow> (model, 'o, 's) orm"

definition reading ::
  "('w, 'row, 'sess, 'o, 's) store \<Rightarrow> (('w, 'row) api \<Rightarrow> 'a res) \<Rightarrow> (('sess, 's) session_state, 'a) act" where
  "reading W f = readS (\<lambda>st. liftS (f (st_api W (sn_state st))))"

text \<open>The keyword arguments of a body.\<close>

fun pyval_of :: "json \<Rightarrow> 'o pyval" where
  "pyval_of (JDict d) = Dict (map (\<lambda>(k, v). (k, pyval_of v)) d)"
| "pyval_of (JList xs) = Seq (map pyval_of xs)"
| "pyval_of v = Val v"

definition fields_of :: "dict \<Rightarrow> 'o fields" where
  "fields_of body = map (\<lambda>(k, v). (k, pyval_of v)) body"

definition add_row :: "('w, 'row, 'sess, 'o, 's) store \<Rightarrow> model \<Rightarrow> dict \<Rightarrow> (('sess, 's) session_state, 'o) act" where
  "add_row W m kwargs = db_add (st_models W) (st_sessions W) (st_orm W) m None (fields_of kwargs)"

definition update_row :: "('w, 'row, 'sess, 'o, 's) store \<Rightarrow> model \<Rightarrow> json \<Rightarrow> dict \<Rightarrow> (('sess, 's) session_state, 'o) act" where
  "update_row W m pk kwargs = db_update (st_models W) (st_sessions W) (st_orm W) m None pk (fields_of kwargs)"

definition absent :: "exn \<Rightarrow> 'a option \<Rightarrow> unit res" where
  "absent e x = (case x of None \<Rightarrow> Inr () | Some _ \<Rightarrow> Inl e)"

definition without_key :: "string \<Rightarrow> dict \<Rightarrow> dict" where
  "without_key k kwargs = filter (\<lambda>(k', _). k' \<noteq> k) kwargs"

section \<open>Users, profiles, single requests\<close>

definition users_search :: "auth_env \<Rightarrow> directory \<Rightarrow> ('w, 'row, 'sess, 'o, 's) store \<Rightarrow> dict \<Rightarrow> (('sess, 's) session_state, response) act" where
  "users_search E D W =
     role_authorization E D [ADMIN] [] None (api_query True False (\<lambda>kw.
       reading W (\<lambda>A. bindR (db_get_many A model.USER None kw) (dump_all A model.USER kw))))"

definition users_get :: "auth_env \<Rightarrow> directory \<Rightarrow> ('w, 'row, 'sess, 'o, 's) store \<Rightarrow> int \<Rightarrow> dict \<Rightarrow> (('sess, 's) session_state, response) act" where
  "users_get E D W uid kwargs =
     role_authorization E D [ADMIN] [] (Some (\<lambda>_. matching_user_id_override ''user'' ''user_id'')) (\<lambda>kw.
       api_query False False (\<lambda>kw. reading W (\<lambda>A.
         bindR (db_get A model.USER ((''id'', JInt uid) # kw)) (dump_one A model.USER ''user'' kw))) (without_key ''user_id'' kw))
       ((''user_id'', JInt uid) # kwargs)"

definition users_post :: "auth_env \<Rightarrow> directory \<Rightarrow> ('w, 'row, 'sess, 'o, 's) store \<Rightarrow> dict \<Rightarrow> dict \<Rightarrow> (('sess, 's) session_state, int) act" where
  "users_post E D W body =
     role_authorization E D [ADMIN] [] None (\<lambda>_.
       bindS (liftS (need body ''id'')) (\<lambda>uid.
       bindS (reading W (\<lambda>A. db_get A model.USER [(''id'', uid)])) (\<lambda>found.
       bindS (liftS (absent (Conflict ''user'') found)) (\<lambda>_.
       bindS (liftS (bleach_body (Some [''id'', ''roles'']) [] body)) (\<lambda>body.
       bindS (add_row W model.USER body) (\<lambda>_. retS 201))))))"

definition profiles_get :: "auth_env \<Rightarrow> directory \<Rightarrow> ('w, 'row, 'sess, 'o, 's) store \<Rightarrow> int \<Rightarrow> dict \<Rightarrow> (('sess, 's) session_state, response) act" where
  "profiles_get E D W uid kwargs =
     api_query False True (ownership_authorization E D ''user'' ''user_id'' None (\<lambda>kw.
       reading W (\<lambda>A. bindR (db_get A PROFILE ((''user_id'', JInt uid) # without_key ''user_id'' kw)) (dump_one A PROFILE ''profile'' (without_key ''user_id'' kw)))))
       ((''user_id'', JInt uid) # kwargs)"

text \<open>The owner of a request is looked up before the handler runs.\<close>

definition request_owner :: "('w, 'row, 'sess, 'o, 's) store \<Rightarrow> ('sess, 's) session_state \<Rightarrow> int \<Rightarrow> json option" where
  "request_owner W st rid =
     (case db_get (st_api W (sn_state st)) REQUEST [(''id'', JInt rid)] of
        Inr (Some r) \<Rightarrow> Some (JDict [(''user_id'', ap_column (st_api W (sn_state st)) r ''user_id'')])
      | _ \<Rightarrow> None)"

definition requests_get :: "auth_env \<Rightarrow> directory \<Rightarrow> ('w, 'row, 'sess, 'o, 's) store \<Rightarrow> int \<Rightarrow> dict \<Rightarrow> (('sess, 's) session_state, response) act" where
  "requests_get E D W rid kwargs =
     ownership_authorization E D ''user'' ''user_id'' (Some (''request_id'', request_owner W)) (\<lambda>kw.
       api_query False False (\<lambda>kw. reading W (\<lambda>A.
         bindR (db_get A REQUEST ((''id'', JInt rid) # kw)) (dump_one A REQUEST ''request'' kw))) (without_key ''request_id'' kw))
       ((''request_id'', JInt rid) # kwargs)"

section \<open>Scores\<close>

definition score_fields :: "string list" where
  "score_fields = [''id'', ''user_id'', ''beatmap_id'', ''beatmapset_id'', ''leaderboard_id'', ''accuracy'', ''created_at'', ''max_combo'', ''mode'', ''mode_int'',
     ''mods'', ''perfect'', ''pp'', ''rank'', ''score'', ''statistics'', ''type'']"

definition newest_snapshot :: "('w, 'row) api \<Rightarrow> json \<Rightarrow> 'row option res" where
  "newest_snapshot A beatmap_id =
     db_get A BEATMAP_SNAPSHOT [(''beatmap_id'', beatmap_id),
       (''_sorting'', JList [JDict [(''field'', JStr ''BeatmapSnapshot.id''), (''order'', JStr ''desc'')]])]"

text \<open>\<open>parse_iso8601\<close> reads the time of creation for the lookup; the body keeps the text.\<close>

definition scores_post_body ::
  "('w, 'row, 'sess, 'o, 's) store \<Rightarrow> (json \<Rightarrow> json res) \<Rightarrow> dict \<Rightarrow> dict \<Rightarrow> (('sess, 's) session_state, int) act" where
  "scores_post_body W parse_iso8601 body kwargs =
       bindS (liftS (need body ''user_id'')) (\<lambda>uid.
       bindS (liftS (bindR (need body ''beatmap'') (\<lambda>b. case b of JDict d \<Rightarrow> need d ''id'' | _ \<Rightarrow> Inl (PyExc ''TypeError'')))) (\<lambda>bid.
       bindS (liftS (bindR (need body ''created_at'') parse_iso8601)) (\<lambda>created_at.
       bindS (reading W (\<lambda>A. bindR (db_get A model.USER [(''id'', uid)]) (found ''user''))) (\<lambda>_.
       bindS (reading W (\<lambda>A. bindR (db_get A BEATMAP [(''id'', bid)]) (found ''beatmap''))) (\<lambda>_.
       bindS (reading W (\<lambda>A. bindR (newest_snapshot A bid) (\<lambda>x. bindR (found ''beatmap snapshot'' x) (\<lambda>r. Inr (ap_column A r ''id''))))) (\<lambda>snapshot_id.
       bindS (reading W (\<lambda>A. bindR (db_get A LEADERBOARD [(''beatmap_id'', bid), (''beatmap_snapshot_id'', snapshot_id)]) (\<lambda>x.
           bindR (found ''leaderboard'' x) (\<lambda>r. Inr (ap_column A r ''id''))))) (\<lambda>leaderboard_id.
       bindS (reading W (\<lambda>A. bindR (db_get A SCORE [(''user_id'', uid), (''beatmap_id'', bid), (''created_at'', created_at)]) (absent (Conflict ''score'')))) (\<lambda>_.
       bindS (liftS (bleach_body (Some (filter (\<lambda>k. k \<noteq> ''id'') score_fields)) [''id''] (dict_set ''leaderboard_id'' leaderboard_id body))) (\<lambda>body.
       bindS (add_row W SCORE body) (\<lambda>_. retS 201))))))))))"

definition scores_post ::
  "auth_env \<Rightarrow> directory \<Rightarrow> ('w, 'row, 'sess, 'o, 's) store \<Rightarrow> (json \<Rightarrow> json res) \<Rightarrow> dict \<Rightarrow> dict \<Rightarrow> (('sess, 's) session_state, int) act" where
  "scores_post E D W parse_iso8601 body =
     api_query False True (role_authorization E D [ADMIN] [] None (scores_post_body W parse_iso8601 body))"

section \<open>Leaderboards\<close>

definition leaderboard_of_version ::
  "('w, 'row) api \<Rightarrow> int \<Rightarrow> int \<Rightarrow> ('row \<times> 'row option) res" where
  "leaderboard_of_version A b n =
     bindR (get_version A BEATMAP_SNAPSHOT ''beatmap_id'' b n []) (\<lambda>x.
     bindR (found ''beatmap snapshot'' x) (\<lambda>snapshot.
     bindR (get_leaderboard A b snapshot []) (\<lambda>l. Inr (snapshot, l))))"

definition leaderboard_post ::
  "auth_env \<Rightarrow> directory \<Rightarrow> ('w, 'row, 'sess, 'o, 's) store \<Rightarrow> dict \<Rightarrow> int \<Rightarrow> json option \<Rightarrow> dict \<Rightarrow> (('sess, 's) session_state, int) act" where
  "leaderboard_post E D W body b number kwargs =
     bindS (liftS (coerce_snapshot_number number)) (\<lambda>n.
       role_authorization E D [ADMIN] [] None (\<lambda>_.
         bindS (reading W (\<lambda>A. bindR (leaderboard_of_version A b n) (\<lambda>(snapshot, l).
             bindR (absent (Conflict ''leaderboard'') l) (\<lambda>_. Inr (ap_column A snapshot ''id''))))) (\<lambda>snapshot_id.
         bindS (liftS (bleach_body (Some [''frozen'']) [] body)) (\<lambda>body.
         bindS (add_row W LEADERBOARD ([(''beatmap_id'', JInt b), (''beatmap_snapshot_id'', snapshot_id)] @ body)) (\<lambda>_. retS 201)))) kwargs)"

definition leaderboard_patch ::
  "auth_env \<Rightarrow> directory \<Rightarrow> ('w, 'row, 'sess, 'o, 's) store \<Rightarrow> dict \<Rightarrow> int \<Rightarrow> json option \<Rightarrow> dict \<Rightarrow> (('sess, 's) session_state, int) act" where
  "leaderboard_patch E D W body b number kwargs =
     bindS (liftS (coerce_snapshot_number number)) (\<lambda>n.
       role_authorization E D [ADMIN] [] None (\<lambda>_.
         bindS (reading W (\<lambda>A. bindR (leaderboard_of_version A b n) (\<lambda>(_, x).
             bindR (found ''leaderboard'' x) (\<lambda>l.
             bindR (bleach_body (Some [''frozen'']) [] body) (\<lambda>body.
               Inr (ap_column A l ''id'', filter (\<lambda>(k, v). \<not> json_eq v (ap_column A l k)) body)))))) (\<lambda>(pk, delta).
         bindS (update_row W LEADERBOARD pk delta) (\<lambda>_. retS 200))) kwargs)"

end
