(* ===== verification/Write_Properties.thy ===== *)
theory Write_Properties
  imports Write_Endpoints Endpoint_Properties
begin

text \<open>
  Who gets the rows of users, profiles and requests, and which submissions of scores and leaderboards can succeed.
\<close>

section \<open>Personal data\<close>

lemma owner_authorized:
  assumes "ownership_authorization E D ''user'' ''user_id'' resource handler kwargs s = (Inr x, s')" "security_enabled E"
    and "map_of kwargs ''user'' = Some user"
  shows "admin_user D user \<or> resolve_resource_owner kwargs ''user_id'' (map_option (\<lambda>(k, f). (k, f s)) resource) = Inr user"
proof -
  have "get_authenticated_user_id E kwargs ''user'' = Inr user"
    using assms(2,3) by (simp add: get_authenticated_user_id_def lookup_user)
  then show ?thesis using assms(1) is_admin_iff [of D user]
    by (auto simp: ownership_authorization_def key_error_as_value_error_def bindS_def split: sum.splits if_splits prod.splits)
qed

text \<open>What reaches the handlers: the declared parameter \<^verbatim>\<open>include\<close> and the identity of the caller.\<close>

definition call_kwargs :: "json option \<Rightarrow> json \<Rightarrow> dict" where
  "call_kwargs inc user = (case inc of Some v \<Rightarrow> [(''include'', v)] | None \<Rightarrow> []) @ auth_args user"

lemma users_get_private:
  assumes "security_enabled E" "users_get E D W uid (call_kwargs inc user) st = (Inr r, st')"
  shows "admin_user D user \<or> user = JInt uid"
proof -
  let ?kw = "(''user_id'', JInt uid) # call_kwargs inc user"
  have user: "map_of ?kw ''user'' = Some user" by (simp add: call_kwargs_def auth_args_def split: option.split)
  show ?thesis
  proof (cases rule: role_authorization_cases [OF assms(2) [unfolded users_get_def] assms(1) user, case_names denied admin lifted])
    case (lifted ov)
    then show ?thesis
      by (auto simp: matching_user_id_override_def lookup_user get_nested_value_def call_kwargs_def auth_args_def dict_set_def split: option.splits)
  qed auto
qed

lemma profiles_get_private:
  assumes "security_enabled E" "profiles_get E D W uid (call_kwargs inc user) st = (Inr r, st')"
  shows "admin_user D user \<or> user = JInt uid"
proof -
  let ?kw = "(''user_id'', JInt uid) # (case inc of Some v \<Rightarrow> [(''_include'', v)] | None \<Rightarrow> []) @ auth_args user"
  have kw: "api_query False True f ((''user_id'', JInt uid) # call_kwargs inc user) = f ?kw" for f :: "dict \<Rightarrow> 'z"
    by (simp add: api_query_def pop_auth_info_def prime_query_kwargs_def query_params_def call_kwargs_def auth_args_def split: option.split)
  have user: "map_of ?kw ''user'' = Some user" by (simp add: auth_args_def split: option.split)
  from owner_authorized [OF assms(2) [unfolded profiles_get_def kw] assms(1) user] show ?thesis
    by (auto simp: resolve_resource_owner_def)
qed

lemma requests_get_private:
  assumes "security_enabled E" "requests_get E D W rid (call_kwargs inc user) st = (Inr r, st')"
  shows "admin_user D user \<or> request_owner W st rid = Some (JDict [(''user_id'', user)])"
proof -
  let ?kw = "(''request_id'', JInt rid) # call_kwargs inc user"
  have user: "map_of ?kw ''user'' = Some user" "map_of ?kw ''user_id'' = None"
    by (simp_all add: call_kwargs_def auth_args_def split: option.split)
  from owner_authorized [OF assms(2) [unfolded requests_get_def] assms(1) user(1)] user(2) show ?thesis
    by (auto simp: resolve_resource_owner_def db_by_id_def key_error_as_value_error_def request_owner_def split: option.splits sum.splits)
qed


definition demo_store :: "(unit, int, unit, int, nat) store" where
  "demo_store = \<lparr>st_api = (\<lambda>_. demo_api), st_models = demo_models,
     st_sessions = \<lparr>so_open = (\<lambda>_. retS ()), so_commit = (\<lambda>_. retS ()), so_rollback = (\<lambda>_ s. s), so_autoflush = (\<lambda>_. True)\<rparr>,
     st_orm = (\<lambda>_. \<lparr>o_where = (\<lambda>_ _. retS []), o_where_in = (\<lambda>_ _. retS []), o_get = (\<lambda>_ _. retS None), o_new = (\<lambda>_. retS 0),
       o_set = (\<lambda>_ _ _. retS ()), o_relate = (\<lambda>_ _ _. retS ()), o_relate_one = (\<lambda>_ _ _. retS ()), o_elsewhere = (\<lambda>_ _. False),
       o_add = (\<lambda>_. changeS Suc), o_flush = retS (), o_refresh = (\<lambda>_. retS ()), o_delete = (\<lambda>_. retS ())\<rparr>)\<rparr>"

definition demo_auth :: auth_env where
  "demo_auth = \<lparr>security_enabled = True, debug_header = None, dev_admin_user_id = 1\<rparr>"

definition demo_directory :: directory where
  "demo_directory = \<lparr>dir_roles = (\<lambda>n. if n = 1 then Some [ADMIN] else Some []), dir_queues = [], dir_next = 1\<rparr>"


section \<open>Scores and leaderboards\<close>

lemma role_returned:
  assumes "role_authorization E D roles one_of override handler kwargs s = (Inr r, s')"
  shows "\<exists>kw. handler kw s = (Inr r, s')"
  using assms by (auto simp: role_authorization_def bindS_def Let_def split: sum.splits prod.splits if_splits)

lemma missing_never_added:
  assumes "missing_columns (M m) kwargs \<noteq> []"
  shows "fst (db_add M P D m None kwargs st) \<noteq> Inr x"
proof -
  have "add_instance M (D y) m kwargs = raiseS value_exn" for y using assms by (simp add: add_instance_def ensure_required_def)
  then show ?thesis
    by (auto simp: db_add_def session_manager_def in_state_def with_session_def with_active_def enforce_autoflush_def bindS_def
        split: option.splits sum.splits prod.splits if_splits)
qed

lemma api_query_called:
  assumes "api_query many secured handler kwargs st = y"
  obtains kw where "handler kw st = y"
  using assms by (cases "pop_auth_info kwargs") (simp add: api_query_def Let_def)

lemma bindS_returned:
  assumes "bindS m f s = (Inr r, s')"
  obtains x s1 where "m s = (Inr x, s1)" "f x s1 = (Inr r, s')"
  using assms by (auto simp: bindS_eq_Inr)

lemma liftS_returned:
  assumes "liftS y s = (Inr r, s')"
  obtains "y = Inr r" "s' = s"
  using assms by (auto simp: liftS_def)

text \<open>
  A score is only added when its body names the beatmap twice: nested, as the lookup reads it, and by the column,
  which the lookup does not fill in.
\<close>

lemma score_names_beatmap_twice:
  fixes W :: "('w, 'row, 'sess, 'o, 's) store"
  assumes "scores_post E D W parse_iso8601 body kwargs st = (Inr r, st')" "''beatmap_id'' \<in> set (required_columns (st_models W SCORE))"
  shows "(\<exists>d. map_of body ''beatmap'' = Some (JDict d)) \<and> ''beatmap_id'' \<in> fst ` set body"
proof -
  obtain bid row body' st1 st2 x where bid: "bindR (need body ''beatmap'') (\<lambda>b. case b of JDict d \<Rightarrow> need d ''id'' | _ \<Rightarrow> Inl (PyExc ''TypeError'')) = Inr bid"
      and body': "bleach_body (Some (filter (\<lambda>k. k \<noteq> ''id'') score_fields)) [''id''] (dict_set ''leaderboard_id'' row body) = Inr body'"
      and add: "add_row W SCORE body' st1 = (Inr x, st2)"
  proof -
    obtain kw' where "role_authorization E D [ADMIN] [] None (scores_post_body W parse_iso8601 body) kw' st = (Inr r, st')"
      using assms(1) unfolding scores_post_def by (rule api_query_called)
    from role_returned [OF this] obtain kw where "scores_post_body W parse_iso8601 body kw st = (Inr r, st')" ..
    then show thesis unfolding scores_post_body_def by (elim bindS_returned liftS_returned) (rule that)
  qed
  have "missing_columns (st_models W SCORE) (fields_of body' :: 'o fields) = []"
    using add missing_never_added [of "st_models W" SCORE "fields_of body'" "st_sessions W" "st_orm W" st1 x] by (auto simp: add_row_def)
  then have "''beatmap_id'' \<in> fst ` set (fields_of body' :: 'o fields)" using assms(2) by (auto simp: missing_columns_def filter_empty_conv)
  then have "''beatmap_id'' \<in> fst ` set body'" by (force simp: fields_of_def)
  then have "''beatmap_id'' \<in> fst ` set (dict_set ''leaderboard_id'' row body)" using body' by (force simp: bleach_body_def split: if_splits)
  then have "''beatmap_id'' \<in> fst ` set body" by (auto simp: dict_set_def)
  moreover have "\<exists>d. map_of body ''beatmap'' = Some (JDict d)"
    using bid by (auto simp: need_def bindR_eq_Inr split: option.splits json.splits)
  ultimately show ?thesis by blast
qed

text \<open>Without the number of a version, or with a negative one, no leaderboard is added or changed.\<close>

lemma latest_unreadable:
  assumes "n < 0" "\<And>s. ''_order_by'' \<notin> set (all_names (ap_models (st_api W s) BEATMAP_SNAPSHOT))"
  shows "reading W (\<lambda>A. bindR (leaderboard_of_version A b n) (f A)) st \<noteq> (Inr x, st')"
proof -
  obtain e where "get_version (st_api W (sn_state st)) BEATMAP_SNAPSHOT ''beatmap_id'' b n [] = Inl e"
    using negative_version_fails [OF assms] by blast
  then have "leaderboard_of_version (st_api W (sn_state st)) b n = Inl e" by (simp add: leaderboard_of_version_def)
  then show ?thesis by (simp add: reading_def readS_def liftS_def)
qed

lemma latest_leaderboard_fails:
  assumes "coerce_snapshot_number number = Inr n" "n < 0" "\<And>s. ''_order_by'' \<notin> set (all_names (ap_models (st_api W s) BEATMAP_SNAPSHOT))"
  shows "leaderboard_post E D W body b number kwargs st \<noteq> (Inr r, st')" "leaderboard_patch E D W body b number kwargs st \<noteq> (Inr r, st')"
  unfolding leaderboard_post_def leaderboard_patch_def assms(1)
  by (auto elim!: bindS_returned liftS_returned dest!: role_returned elim: notE [OF latest_unreadable [OF assms(2,3)]])

end
