(* ===== verification/Spec2Isabelle.thy ===== *)
theory Spec2Isabelle
  imports Flow_Properties Store_Properties Daemon_Properties Redis_Properties Access_Properties Account_Properties Fetcher_Properties Search_Properties
    Endpoint_Properties Crud_Properties Spec_Properties
    Fixture_Properties Write_Properties
begin

text \<open>
  Verification of the graveboards backend, a service through which osu! players request beatmapsets in
  the queues of modders. The sources are under \<^verbatim>\<open>src/\<close>; every file name below is relative to it.

  \<^bold>\<open>The program and its parts.\<close> A web application (\<^verbatim>\<open>api/v1\<close>) and a daemon (\<^verbatim>\<open>app/daemon\<close>) share a
  relational database and a Redis server. A queue has rules (\<^verbatim>\<open>app/database/rules\<close>). A submission
  (\<^verbatim>\<open>api/v1/requests/__init__.py\<close>) is checked synchronously (Phase 1), reserves places with the rate limits
  and cooldowns of the queue, and is stored as a task in a Redis hash. The queue request handler of the
  daemon turns the task into a row and hands a validation task with a snapshot of the rules to the
  rule validation service, which runs the remaining rules concurrently (Phase 2) and rejects the request
  when one is violated. Around this path: the schemas and the store of the rules with their endpoints,
  the decorators that decide who may do what, tokens and API keys, the scheduler that runs the jobs of
  the daemon, the fetchers of profiles and scores, the lock and the limit on outgoing calls in Redis, the
  archive of beatmapset versions, and the search with its query format, links, cache and endpoint.

  \<^bold>\<open>Conventions.\<close> A Python exception is a value of \<^verbatim>\<open>exn\<close>; a fallible function returns \<^verbatim>\<open>'a res\<close>
  (\<^verbatim>\<open>Inl\<close> the exception), stateful code is a function of type \<^verbatim>\<open>('s, 'a) act\<close> that returns a result and the
  new state also when it raises. Records model classes, datatypes enumerations and tagged
  unions. Integers of Python are \<^verbatim>\<open>int\<close>; where a width matters (struct formats, variable-length integers)
  the bounds are part of the definition. Services and packages that are not under \<^verbatim>\<open>src/\<close> are
  parameters: Redis is the record \<^verbatim>\<open>redis_ops\<close> with the laws of its documented commands, the clock, the hash
  functions, the JWT library, pydantic, brotli, the osu! API and the rows a database query returns are
  functions. A law is a named predicate or the assumption of a locale, and each has an instance.

  \<^bold>\<open>The theories, in the order of the program.\<close>
  \<^item> \<^verbatim>\<open>Prelude\<close>, \<^verbatim>\<open>Py_Text\<close>, \<^verbatim>\<open>Calendar\<close>, \<^verbatim>\<open>Json_Text\<close>, \<^verbatim>\<open>Bytes_Codec\<close>: exceptions, results, dictionaries, and the
    parts of the standard library in use: decimal texts, calendar buckets, JSON text, struct and UTF-8.
    \<^verbatim>\<open>Bytes_Codec\<close> has the locale \<^verbatim>\<open>codec\<close> of a pair of a writer and a reader; all formats of the search
    interpret it.
  \<^item> \<^verbatim>\<open>Rule_Context\<close>, \<^verbatim>\<open>Rule_Beatmap\<close>, \<^verbatim>\<open>Rule_Stateful\<close>, \<^verbatim>\<open>Rule_Identity\<close>, \<^verbatim>\<open>Rule_Database\<close>: the execution context and
    every registered validator (\<^verbatim>\<open>app/database/rules/context.py\<close>, \<^verbatim>\<open>validators/\<close>). \<^verbatim>\<open>Rule_Schema\<close>: the
    configuration schemas (\<^verbatim>\<open>app/database/schemas/rule.py\<close>). \<^verbatim>\<open>Rule_Engine\<close>, \<^verbatim>\<open>Phase2\<close>: registry, composite
    evaluator, both runners, reservation and rollback (\<^verbatim>\<open>app/database/rules/engine\<close>).
  \<^item> \<^verbatim>\<open>Rule_Soundness\<close>, \<^verbatim>\<open>Rule_Composite\<close>, \<^verbatim>\<open>Rule_Phase1\<close>: the validators decide the declarative meaning of a rule on
    every configuration its schema accepts, and the synchronous runner decides the conjunction.
    \<^verbatim>\<open>Rate_Limit_Steps\<close>: reservations that interleave between Redis commands.
  \<^item> \<^verbatim>\<open>Rule_Store\<close>: the stored rules (\<^verbatim>\<open>app/database/crud/rules.py\<close>) and their endpoints.
  \<^item> \<^verbatim>\<open>Redis_Store\<close>, \<^verbatim>\<open>Redis_Hash\<close>, \<^verbatim>\<open>Task_Codec\<close>, \<^verbatim>\<open>Redis_Client\<close>: Redis commands with their laws and a memory store
    that satisfies them, the hashes of \<^verbatim>\<open>app/redis/models\<close>, the lock, the paged scan and the rate-limiting
    decorator of \<^verbatim>\<open>app/redis\<close>.
  \<^item> \<^verbatim>\<open>Request_Flow\<close>, \<^verbatim>\<open>Flow_Frame\<close>, \<^verbatim>\<open>Flow_Steps\<close>, \<^verbatim>\<open>Flow_Daemon\<close>: submission, handler, validation, status change and
    deletion as the steps of one system; what each step leaves alone; the invariant of the reachable
    states.
  \<^item> \<^verbatim>\<open>Daemon_Service\<close>, \<^verbatim>\<open>Daemon_Scheduler\<close>, \<^verbatim>\<open>Fetchers\<close>: life cycle of services, retrying, supervision, the job
    scheduler as a step relation, the profile and score jobs (\<^verbatim>\<open>app/daemon\<close>).
  \<^item> \<^verbatim>\<open>Access_Control\<close>, \<^verbatim>\<open>Access_Endpoints\<close>, \<^verbatim>\<open>Accounts\<close>, \<^verbatim>\<open>Auth_Limiter\<close>: decorators and overrides of \<^verbatim>\<open>app/security\<close>, the
    decorated endpoints, tokens, API keys and the limiter of the authentication endpoints.
  \<^item> \<^verbatim>\<open>Search_Values\<close>, \<^verbatim>\<open>Search_Conditions\<close>, \<^verbatim>\<open>Search_Schema\<close>, \<^verbatim>\<open>Search_Query\<close>, \<^verbatim>\<open>Search_Endpoint\<close>: the binary query format of
    \<^verbatim>\<open>app/search/datastructures\<close>, its compression, the cache, pagination and the endpoint.
  \<^item> \<^verbatim>\<open>Actions\<close>, \<^verbatim>\<open>Archive\<close>, \<^verbatim>\<open>Archive_Versions\<close>: the archive process of \<^verbatim>\<open>app/beatmaps/manager.py\<close> with the database events
    that number the versions; the locale \<^verbatim>\<open>version_table\<close> states what a table of versions promises and is
    interpreted for beatmaps and for beatmapsets.
  \<^item> \<^verbatim>\<open>Crud_Read\<close>, \<^verbatim>\<open>Crud_Statements\<close>, \<^verbatim>\<open>Crud_Write\<close>: the statements that the generic read layer builds, creation, update,
    deletion and the sessions they run in (\<^verbatim>\<open>app/database/crud\<close>).
  \<^item> \<^verbatim>\<open>Api_Utils\<close>, \<^verbatim>\<open>Listing_Endpoints\<close>: the shared decorators and response filters of \<^verbatim>\<open>api/utils.py\<close> and
    \<^verbatim>\<open>api/decorators.py\<close>, and the listing and lookup endpoints of \<^verbatim>\<open>api/v1\<close>.
  \<^item> \<^verbatim>\<open>Query_Params\<close>, \<^verbatim>\<open>Param_Validators\<close>: parsing, coercion and validation of the query parameters (\<^verbatim>\<open>app/patches\<close>).
    \<^verbatim>\<open>Spec_Shallow\<close>, \<^verbatim>\<open>Spec_Expansion\<close>, \<^verbatim>\<open>Spec_Load\<close>: the expansion of the placeholders in the schemas of the interface, why
    it ends, and the cache of the result on disk (\<^verbatim>\<open>app/spec\<close>).
  \<^item> \<^verbatim>\<open>Write_Endpoints\<close>: the endpoints for users, profiles and single requests, and those that add scores and leaderboards.
  \<^item> \<^verbatim>\<open>Seed_Order\<close>, \<^verbatim>\<open>Fixture_Coverage\<close>, \<^verbatim>\<open>Fixture_Growth\<close>, \<^verbatim>\<open>Fixture_Sources\<close>: the order and the run of the seeders
    (\<^verbatim>\<open>app/database/seeding\<close>), the coverage of the fixtures and why it only grows, the sources of identifiers and the store
    of those that failed (\<^verbatim>\<open>app/fixtures\<close>); the locale \<^verbatim>\<open>set_store\<close> states what the sets in Redis promise.
  \<^item> The theories named \<^verbatim>\<open>_Properties\<close> state the properties, each with an instance on concrete data that shows
    that its hypotheses can hold.

  \<^bold>\<open>What is shown.\<close> Safety of the stateful rules: a blocked or failed submission consumes nothing, rollback
  restores the state, no interleaving grants more than the limit. Correctness of the runners: fail-closed
  acceptance, decision of the declarative meaning, independence of the verdict of the schedule. Invariants of
  all reachable states: one request per beatmapset and queue, well-formed stored rules, one handler per
  job. Refinement of declarative specifications by validators and by the validation job. Round
  trips of tasks, snapshots, conditions and links. Termination of retrying and of the paged scan. Liveness of
  periodic jobs. Access control over arbitrary sequences of calls. Versions
  numbered without gaps with the listings and requests on the newest. Writes that are all or nothing, statements
  that mention attributes of their models only, responses limited to declared fields; accepted includes and filters that
  never fail later, a cache of the specification that cannot be told from a build. Users,
  profiles and requests shown to administrators and their owners only; seeders that start after all they depend on. Error behaviour, among it the defects that
  modelling showed.

  \<^bold>\<open>Bounds and fuel.\<close> Loops that follow data are structural; the others have a termination measure
  (the paged scan: keys that remain; variable-length integers: bits that remain; next links: rows that remain).
  The expansion of the schemas has the depth of the stack as fuel; some depth suffices, and every greater one gives the
  same result. The depth of composite rules is bounded by the limits of the source. The restart loop of the supervisor does
  not end; it is modelled with fuel, and the theorem about it holds for every amount.

  \<^bold>\<open>Not modelled.\<close> The composition of SQL in \<^verbatim>\<open>app/search/engine.py\<close> and \<^verbatim>\<open>app/database/ctes\<close>, whose meaning is that
  of PostgreSQL: the rows are a parameter. Response schemas and most models, which are declarations
  for pydantic and SQLAlchemy. HTTP and connection set-up, metrics, logging, migrations, the fetchers of
  \<^verbatim>\<open>app/fixtures\<close>, the rows of the seeders and the command line.
\<close>

end
